(* ===== verification/Prelude.thy ===== *)
theory Prelude
  imports Main "HOL-Library.Word"
begin

text \<open>
  The shared vocabulary of the development: the HTTP errors the services throw, the
  sequencing of fallible steps, and the tables the repositories read and write, with the
  automation (collections \<open>res_simps\<close> and \<open>tbl_simps\<close>) that the component proofs use.
\<close>

named_theorems res_simps \<open>unfolding of guarded, fallible steps\<close>
named_theorems tbl_simps \<open>lookups after updates of a table\<close>

section \<open>Errors and sequencing\<close>

text \<open>
  The exceptions of \<open>@nestjs/common\<close> that the services throw. The payload is the
  message's constant part; interpolated values are left out.
\<close>

datatype http_error =
    BadRequest string
  | Unauthorized string
  | Forbidden string
  | NotFound string
  | Conflict string
  | PayloadTooLarge string
  | UnsupportedMediaType string
  | UnprocessableEntity string
  | TooManyRequests string
  | ServiceUnavailable string
  | InternalError string

type_synonym 'a res = "http_error + 'a"

definition bindE :: "'e + 'a \<Rightarrow> ('a \<Rightarrow> 'e + 'b) \<Rightarrow> 'e + 'b" where
  "bindE m k = (case m of Inl e \<Rightarrow> Inl e | Inr x \<Rightarrow> k x)"

text \<open>A guard: \<open>if (c) throw e;\<close> before the rest of the method.\<close>

definition throwIf :: "bool \<Rightarrow> 'e \<Rightarrow> 'e + 'b \<Rightarrow> 'e + 'b" where
  "throwIf c e k = (if c then Inl e else k)"

definition orThrow :: "'a option \<Rightarrow> 'e \<Rightarrow> ('a \<Rightarrow> 'e + 'b) \<Rightarrow> 'e + 'b" where
  "orThrow m e k = (case m of None \<Rightarrow> Inl e | Some x \<Rightarrow> k x)"

lemma bindE_simps [simp]:
  "bindE (Inl e) k = Inl e"
  "bindE (Inr x) k = k x"
  by (simp_all add: bindE_def)

lemma bindE_Inr_iff [res_simps]: "bindE m k = Inr y \<longleftrightarrow> (\<exists>x. m = Inr x \<and> k x = Inr y)"
  by (cases m) auto

lemma bindE_Inl_iff: "bindE m k = Inl e \<longleftrightarrow> m = Inl e \<or> (\<exists>x. m = Inr x \<and> k x = Inl e)"
  by (cases m) auto

lemma throwIf_simps [simp]:
  "throwIf True e k = Inl e"
  "throwIf False e k = k"
  by (simp_all add: throwIf_def)

lemma throwIf_Inr_iff [res_simps]: "throwIf c e k = Inr y \<longleftrightarrow> \<not> c \<and> k = Inr y"
  by (simp add: throwIf_def)

lemma orThrow_simps [simp]:
  "orThrow None e k = Inl e"
  "orThrow (Some x) e k = k x"
  by (simp_all add: orThrow_def)

lemma orThrow_Inr_iff [res_simps]: "orThrow m e k = Inr y \<longleftrightarrow> (\<exists>x. m = Some x \<and> k x = Inr y)"
  by (cases m) auto

definition isInr :: "'e + 'a \<Rightarrow> bool" where
  "isInr m = (case m of Inl _ \<Rightarrow> False | Inr _ \<Rightarrow> True)"

lemma isInr_simps [simp]: "\<not> isInr (Inl e)" "isInr (Inr x)"
  by (simp_all add: isInr_def)

section \<open>Tables\<close>

text \<open>
  A table of the database, as the repositories see it: rows in the order of insertion,
  keyed by their primary key. Keys are opaque (uuids in the code, naturals here); a new
  key is supplied by the database and is an argument of the operations that insert.
\<close>

type_synonym id = nat
type_synonym 'r table = "(id \<times> 'r) list"

definition rows :: "'r table \<Rightarrow> 'r list" where
  "rows t = List.map snd t"

definition keys :: "'r table \<Rightarrow> id list" where
  "keys t = List.map fst t"

definition lookup :: "'r table \<Rightarrow> id \<Rightarrow> 'r option" where
  "lookup t k = map_of t k"

definition insertRow :: "id \<Rightarrow> 'r \<Rightarrow> 'r table \<Rightarrow> 'r table" where
  "insertRow k r t = t @ [(k, r)]"

definition updateRow :: "id \<Rightarrow> ('r \<Rightarrow> 'r) \<Rightarrow> 'r table \<Rightarrow> 'r table" where
  "updateRow k f t = List.map (\<lambda>(j, r). (j, if j = k then f r else r)) t"

definition updateWhere :: "('r \<Rightarrow> bool) \<Rightarrow> ('r \<Rightarrow> 'r) \<Rightarrow> 'r table \<Rightarrow> 'r table" where
  "updateWhere p f t = List.map (\<lambda>(j, r). (j, if p r then f r else r)) t"

definition deleteRow :: "id \<Rightarrow> 'r table \<Rightarrow> 'r table" where
  "deleteRow k t = List.filter (\<lambda>(j, r). j \<noteq> k) t"

definition deleteWhere :: "('r \<Rightarrow> bool) \<Rightarrow> 'r table \<Rightarrow> 'r table" where
  "deleteWhere p t = List.filter (\<lambda>(j, r). \<not> p r) t"

text \<open>Primary keys are unique.\<close>

definition keyed :: "'r table \<Rightarrow> bool" where
  "keyed t = distinct (keys t)"

lemma lookup_insertRow [tbl_simps]:
  "k \<notin> set (keys t) \<Longrightarrow> lookup (insertRow k r t) j = (if j = k then Some r else lookup t j)"
  by (induction t) (auto simp: lookup_def insertRow_def keys_def)

lemma lookup_updateRow [tbl_simps]:
  "lookup (updateRow k f t) j = (if j = k then map_option f (lookup t j) else lookup t j)"
  by (induction t) (auto simp: lookup_def updateRow_def)

lemma lookup_deleteRow [tbl_simps]:
  "lookup (deleteRow k t) j = (if j = k then None else lookup t j)"
  by (induction t) (auto simp: lookup_def deleteRow_def)

lemma lookup_updateWhere [tbl_simps]:
  "lookup (updateWhere p f t) j = map_option (\<lambda>r. if p r then f r else r) (lookup t j)"
  by (induction t) (auto simp: lookup_def updateWhere_def)

lemma keys_updateRow [simp]: "keys (updateRow k f t) = keys t"
  by (induction t) (auto simp: keys_def updateRow_def)

lemma keys_updateWhere [simp]: "keys (updateWhere p f t) = keys t"
  by (induction t) (auto simp: keys_def updateWhere_def)

lemma keys_insertRow [simp]: "keys (insertRow k r t) = keys t @ [k]"
  by (simp add: keys_def insertRow_def)

lemma set_keys_deleteRow: "set (keys (deleteRow k t)) = set (keys t) - {k}"
  by (induction t) (auto simp: keys_def deleteRow_def)

lemma keyed_insertRow [simp]: "k \<notin> set (keys t) \<Longrightarrow> keyed (insertRow k r t) = keyed t"
  by (simp add: keyed_def)

lemma keyed_updateRow [simp]: "keyed (updateRow k f t) = keyed t"
  by (simp add: keyed_def)

lemma keyed_updateWhere [simp]: "keyed (updateWhere p f t) = keyed t"
  by (simp add: keyed_def)

lemma keyed_deleteRow: "keyed t \<Longrightarrow> keyed (deleteRow k t)"
  by (induction t) (auto simp: keyed_def keys_def deleteRow_def)

lemma lookup_None_iff: "lookup t k = None \<longleftrightarrow> k \<notin> set (keys t)"
  by (simp add: lookup_def keys_def map_of_eq_None_iff)

lemma lookup_Some_keys: "lookup t k = Some r \<Longrightarrow> k \<in> set (keys t)"
  using lookup_None_iff [of t k] by force

lemma lookup_in_rows: "lookup t k = Some r \<Longrightarrow> r \<in> set (rows t)"
  by (induction t) (auto simp: lookup_def rows_def split: if_splits)

lemma keyed_lookup: "keyed t \<Longrightarrow> (k, r) \<in> set t \<Longrightarrow> lookup t k = Some r"
  by (simp add: keyed_def keys_def lookup_def)

lemma rows_lookup: "keyed t \<Longrightarrow> r \<in> set (rows t) \<Longrightarrow> \<exists>k. lookup t k = Some r"
  using keyed_lookup by (fastforce simp: rows_def)

lemma rows_insertRow [simp]: "rows (insertRow k r t) = rows t @ [r]"
  by (simp add: rows_def insertRow_def)

lemma rows_updateWhere: "rows (updateWhere p f t) = List.map (\<lambda>r. if p r then f r else r) (rows t)"
  by (induction t) (auto simp: rows_def updateWhere_def)

lemma rows_deleteWhere: "rows (deleteWhere p t) = List.filter (\<lambda>r. \<not> p r) (rows t)"
  by (induction t) (auto simp: rows_def deleteWhere_def)

section \<open>The interface of a table\<close>

text \<open>
  What a service may assume of the store behind a repository: the laws of reading after
  writing. The lemmas are proved once from the laws; the interpretation shows that the
  tables above satisfy them.
\<close>

locale row_store =
  fixes get :: "'t \<Rightarrow> id \<Rightarrow> 'r option"
    and ins :: "id \<Rightarrow> 'r \<Rightarrow> 't \<Rightarrow> 't"
    and upd :: "id \<Rightarrow> ('r \<Rightarrow> 'r) \<Rightarrow> 't \<Rightarrow> 't"
    and del :: "id \<Rightarrow> 't \<Rightarrow> 't"
  assumes get_ins: "get t k = None \<Longrightarrow> get (ins k r t) j = (if j = k then Some r else get t j)"
    and get_upd: "get (upd k f t) j = (if j = k then map_option f (get t j) else get t j)"
    and get_del: "get (del k t) j = (if j = k then None else get t j)"
begin

lemma upd_absent: "get t k = None \<Longrightarrow> get (upd k f t) j = get t j"
  by (simp add: get_upd)

lemma upd_upd: "get (upd k g (upd k f t)) j = get (upd k (g \<circ> f) t) j"
  by (simp add: get_upd option.map_comp)

lemma upd_commute: "k \<noteq> l \<Longrightarrow> get (upd k f (upd l g t)) j = get (upd l g (upd k f t)) j"
  by (simp add: get_upd)

lemma del_ins: "get t k = None \<Longrightarrow> get (del k (ins k r t)) j = get t j"
  by (simp add: get_del get_ins)

end

interpretation tbl: row_store lookup insertRow updateRow deleteRow
  by unfold_locales (auto simp: tbl_simps lookup_None_iff)

section \<open>Unique rows\<close>

text \<open>
  No two different rows conflict: unique indexes, at most one open row per owner, ranges
  that must not overlap.
\<close>

definition uniqueBy :: "('r \<Rightarrow> 'r \<Rightarrow> bool) \<Rightarrow> 'r table \<Rightarrow> bool" where
  "uniqueBy c T \<longleftrightarrow> (\<forall>j k r q. lookup T j = Some r \<longrightarrow> lookup T k = Some q \<longrightarrow> c r q \<longrightarrow> j = k)"

lemma uniqueByD: "uniqueBy c T \<Longrightarrow> lookup T j = Some r \<Longrightarrow> lookup T k = Some q \<Longrightarrow> c r q \<Longrightarrow> j = k"
  unfolding uniqueBy_def by blast

lemma uniqueByI: "(\<And>j k r q. lookup T j = Some r \<Longrightarrow> lookup T k = Some q \<Longrightarrow> c r q \<Longrightarrow> j = k) \<Longrightarrow> uniqueBy c T"
  unfolding uniqueBy_def by blast

lemma uniqueBy_insert:
  assumes u: "uniqueBy c T" and k: "rid \<notin> set (keys T)"
    and n: "\<And>k q. lookup T k = Some q \<Longrightarrow> \<not> c q r \<and> \<not> c r q"
  shows "uniqueBy c (insertRow rid r T)"
proof (rule uniqueByI)
  fix i j a b
  assume a: "lookup (insertRow rid r T) i = Some a" and b: "lookup (insertRow rid r T) j = Some b" and c: "c a b"
  show "i = j"
    using a b c n [of i a] n [of j b] uniqueByD [OF u, of i a j b]
    by (cases "i = rid"; cases "j = rid") (auto simp: lookup_insertRow [OF k])
qed

text \<open>Rows that only lose conflicts keep the law.\<close>

lemma uniqueBy_orig:
  assumes u: "uniqueBy c T"
    and orig: "\<And>j r k q. lookup T' j = Some r \<Longrightarrow> lookup T' k = Some q \<Longrightarrow> c r q \<Longrightarrow>
      \<exists>r' q'. lookup T j = Some r' \<and> lookup T k = Some q' \<and> c r' q'"
  shows "uniqueBy c T'"
proof (rule uniqueByI)
  fix j k r q assume "lookup T' j = Some r" "lookup T' k = Some q" "c r q"
  from orig [OF this] show "j = k" using uniqueByD [OF u] by blast
qed

lemma uniqueBy_empty [simp]: "uniqueBy c []"
  by (simp add: uniqueBy_def lookup_def)

lemma uniqueBy_updateRow:
  assumes u: "uniqueBy c T"
    and n: "\<And>r j q. lookup T k = Some r \<Longrightarrow> lookup T j = Some q \<Longrightarrow> j \<noteq> k \<Longrightarrow> \<not> c (f r) q \<and> \<not> c q (f r)"
  shows "uniqueBy c (updateRow k f T)"
proof (rule uniqueByI)
  fix i j a b
  assume a: "lookup (updateRow k f T) i = Some a" and b: "lookup (updateRow k f T) j = Some b" and c: "c a b"
  show "i = j"
  proof (cases "i = k")
    case True
    then obtain r where "lookup T k = Some r" "a = f r" using a by (auto simp: lookup_updateRow)
    then show ?thesis using True b c n by (auto simp: lookup_updateRow split: if_splits)
  next
    case False
    then have a': "lookup T i = Some a" using a by (simp add: lookup_updateRow)
    show ?thesis
    proof (cases "j = k")
      case True
      then obtain r where "lookup T k = Some r" "b = f r" using b by (auto simp: lookup_updateRow)
      then show ?thesis using True a' False c n by blast
    next
      case False
      then show ?thesis using a' b c uniqueByD [OF u, of i a j b] by (simp add: lookup_updateRow)
    qed
  qed
qed

lemma distinct_rows_of:
  assumes "keyed T" "uniqueBy (\<lambda>r q. f r = f q \<and> p r \<and> p q) T"
  shows "distinct (List.map f (List.filter p (rows T)))"
  using assms
proof (induction T rule: rev_induct)
  case Nil
  then show ?case by (simp add: rows_def)
next
  case (snoc x T)
  obtain k r where x: "x = (k, r)" by (cases x)
  have k: "k \<notin> set (keys T)" "keyed T" using snoc.prems(1) x by (auto simp: keyed_def keys_def)
  have l: "lookup (T @ [x]) j = (if j = k then Some r else lookup T j)" for j
    using lookup_insertRow [OF k(1)] x by (simp add: insertRow_def)
  have "uniqueBy (\<lambda>r q. f r = f q \<and> p r \<and> p q) T"
    using snoc.prems(2) unfolding uniqueBy_def l by (metis k(1) lookup_Some_keys)
  then have d: "distinct (List.map f (List.filter p (rows T)))" using snoc.IH k(2) by blast
  have "f r \<noteq> f q" if pq: "p r" "q \<in> set (rows T)" "p q" for q
  proof
    assume e: "f r = f q"
    obtain j where j: "lookup T j = Some q" using rows_lookup [OF k(2) pq(2)] by blast
    then have "j \<noteq> k" using k(1) lookup_Some_keys by metis
    moreover have "k = j"
      by (rule uniqueByD [OF snoc.prems(2), of k r j q]) (use pq e j \<open>j \<noteq> k\<close> in \<open>simp_all add: l\<close>)
    ultimately show False by simp
  qed
  then have "f r \<notin> f ` set (List.filter p (rows T))" if "p r" using that by force
  then show ?case using d x by (simp add: rows_def)
qed

section \<open>Redis keys with an expiry\<close>

text \<open>
  \<open>SET key value EX seconds\<close>, \<open>GET\<close> and \<open>DEL\<close> on the keys of one prefix. An entry carries the
  instant (in milliseconds) at which it expires.
\<close>

type_synonym ('k, 'v) redis = "'k \<Rightarrow> ('v \<times> int) option"

definition redisGet :: "int \<Rightarrow> ('k, 'v) redis \<Rightarrow> 'k \<Rightarrow> 'v option" where
  "redisGet now m k =
     (case m k of None \<Rightarrow> None | Some (v, e) \<Rightarrow> if now < e then Some v else None)"

definition redisSetEx :: "int \<Rightarrow> 'k \<Rightarrow> 'v \<Rightarrow> int \<Rightarrow> ('k, 'v) redis \<Rightarrow> ('k, 'v) redis" where
  "redisSetEx now k v seconds m = m(k := Some (v, now + seconds * 1000))"

definition redisDel :: "'k \<Rightarrow> ('k, 'v) redis \<Rightarrow> ('k, 'v) redis" where
  "redisDel k m = m(k := None)"

lemma redisGet_SetEx:
  "redisGet now' (redisSetEx now k v seconds m) j =
     (if j = k then (if now' < now + seconds * 1000 then Some v else None) else redisGet now' m j)"
  by (simp add: redisGet_def redisSetEx_def)

lemma redisGet_Del: "redisGet now (redisDel k m) j = (if j = k then None else redisGet now m j)"
  by (simp add: redisGet_def redisDel_def)

lemma redisGet_SomeD: "redisGet now m k = Some v \<Longrightarrow> \<exists>e. m k = Some (v, e) \<and> now < e"
  by (auto simp: redisGet_def split: option.splits if_splits)

lemma redisGet_later: "redisGet now' m k = Some v \<Longrightarrow> now \<le> now' \<Longrightarrow> redisGet now m k = Some v"
  by (auto simp: redisGet_def split: option.splits if_splits)

section \<open>Invariants of step relations\<close>

text \<open>
  The contract every state machine of the development offers: an invariant that the initial
  states satisfy and every step keeps. Clients use \<open>reach_inv\<close>; each component interprets
  the locale on its own states and steps.
\<close>

locale step_system =
  fixes init :: "'s \<Rightarrow> bool"
    and step :: "'s \<Rightarrow> 's \<Rightarrow> bool"
    and inv :: "'s \<Rightarrow> bool"
  assumes inv_init: "init s \<Longrightarrow> inv s"
    and inv_step: "inv s \<Longrightarrow> step s t \<Longrightarrow> inv t"
begin

lemma inv_steps: "step\<^sup>*\<^sup>* s t \<Longrightarrow> inv s \<Longrightarrow> inv t"
  by (induction rule: rtranclp_induct) (auto intro: inv_step)

lemma reach_inv: "init s \<Longrightarrow> step\<^sup>*\<^sup>* s t \<Longrightarrow> inv t"
  using inv_steps inv_init by blast

end

section \<open>Numerals\<close>

text \<open>The decimal text of a number; it stands for the text of an opaque key as well.\<close>

fun decString :: "nat \<Rightarrow> string" where
  "decString n = (if n < 10 then [char_of (48 + n)] else decString (n div 10) @ [char_of (48 + n mod 10)])"

declare decString.simps [simp del]

fun numVal :: "nat \<Rightarrow> string \<Rightarrow> nat" where
  "numVal a [] = a"
| "numVal a (c # cs) = numVal (10 * a + (of_char c - 48)) cs"

lemma numVal_append: "numVal a (xs @ ys) = numVal (numVal a xs) ys"
  by (induction a xs rule: numVal.induct) simp_all

lemma numVal_decString: "numVal 0 (decString n) = n"
proof (induction n rule: decString.induct)
  case (1 n)
  show ?case
  proof (cases "n < 10")
    case True
    then show ?thesis by (simp add: decString.simps [of n])
  next
    case False
    then have "numVal 0 (decString (n div 10)) = n div 10" using 1 by simp
    then show ?thesis using False by (simp add: decString.simps [of n] numVal_append)
  qed
qed

lemma decString_inject [simp]: "decString m = decString n \<longleftrightarrow> m = n"
  using numVal_decString by metis

lemma decString_nonempty [simp]: "decString n \<noteq> []"
  by (simp add: decString.simps [of n])

section \<open>Lists\<close>

lemma find_Some_iff_ex: "List.find P xs \<noteq> None \<longleftrightarrow> (\<exists>x\<in>set xs. P x)"
  by (induction xs) auto

lemma find_SomeD: "List.find P xs = Some x \<Longrightarrow> x \<in> set xs \<and> P x"
  by (induction xs) (auto split: if_splits)

lemma find_NoneD: "List.find P xs = None \<Longrightarrow> x \<in> set xs \<Longrightarrow> \<not> P x"
  by (induction xs) (auto split: if_splits)

end
