(* ===== verification/Doubles.thy ===== *)
theory Doubles
  imports Complex_Main Prelude
begin

text \<open>
  The numbers of the program. A JavaScript number is an IEEE 754 double; its value is
  modelled as the rational it denotes and every arithmetic operation as the exact
  operation followed by \<open>fl\<close>, rounding to nearest with ties to even at 53 bits (and at the
  subnormal spacing below the normal range). Infinities and NaN are left out: every
  magnitude in the modelled code stays far below the overflow threshold. \<open>Math.round\<close> is
  \<open>jsRound\<close>, exact with ties towards plus infinity as the ECMAScript text has it.
\<close>

section \<open>The binary exponent\<close>

fun ilog2 :: "nat \<Rightarrow> nat" where
  "ilog2 n = (if n \<le> 1 then 0 else Suc (ilog2 (n div 2)))"

declare ilog2.simps [simp del]

lemma ilog2_bounds: "0 < n \<Longrightarrow> 2 ^ ilog2 n \<le> n \<and> n < 2 ^ Suc (ilog2 n)"
proof (induction n rule: ilog2.induct)
  case (1 n)
  show ?case
  proof (cases "n \<le> 1")
    case True
    with "1.prems" show ?thesis by (simp add: ilog2.simps [of n])
  next
    case False
    with "1.IH" have "2 ^ ilog2 (n div 2) \<le> n div 2 \<and> n div 2 < 2 ^ Suc (ilog2 (n div 2))"
      by simp
    moreover have "ilog2 n = Suc (ilog2 (n div 2))" using False by (subst ilog2.simps) simp
    ultimately show ?thesis by auto
  qed
qed

definition clog2 :: "nat \<Rightarrow> nat" where
  "clog2 n = (if n \<le> 1 then 0 else Suc (ilog2 (n - 1)))"

lemma clog2_bounds: "1 < n \<Longrightarrow> n \<le> 2 ^ clog2 n \<and> 2 ^ clog2 n < 2 * n"
  using ilog2_bounds [of "n - 1"] by (auto simp: clog2_def)

text \<open>The exponent of a positive rational: \<open>2 powi expo x \<le> x \<and> x < 2 powi (expo x + 1)\<close>.\<close>

definition expo :: "rat \<Rightarrow> int" where
  "expo x =
     (if 1 \<le> x then int (ilog2 (nat \<lfloor>x\<rfloor>)) else - int (clog2 (nat \<lceil>1 / x\<rceil>)))"

lemma two_powi_nat: "(2::rat) powi (int n) = 2 ^ n"
  by (simp add: power_int_def)

lemma two_powi_neg: "(2::rat) powi (- int n) = 1 / 2 ^ n"
  by (simp add: power_int_minus divide_inverse)

lemma powi_shift: "(2::rat) powi (e + int n) = 2 ^ n * 2 powi e"
  by (simp add: power_int_add two_powi_nat)

lemma powi_unshift: "(2::rat) powi (e - int n) = 2 powi e / 2 ^ n"
  by (simp add: power_int_diff two_powi_nat)

lemma of_nat_le_pow: "m \<le> 2 ^ k \<longleftrightarrow> (of_nat m :: rat) \<le> 2 ^ k"
  by (metis of_nat_le_iff of_nat_numeral of_nat_power)

lemma pow_le_of_nat: "2 ^ k \<le> m \<longleftrightarrow> (2 ^ k :: rat) \<le> of_nat m"
  by (metis of_nat_le_iff of_nat_numeral of_nat_power)

lemma expo_bounds_ge1:
  assumes x: "1 \<le> x"
  shows "2 powi expo x \<le> x \<and> x < 2 powi (expo x + 1)"
proof -
  define n where "n = nat \<lfloor>x\<rfloor>"
  have n: "0 < n" "of_nat n \<le> x" "x < of_nat (Suc n)"
    using x unfolding n_def by (auto simp: le_nat_floor) linarith
  have b: "2 ^ ilog2 n \<le> n" "Suc n \<le> 2 ^ Suc (ilog2 n)"
    using ilog2_bounds [OF n(1)] by auto
  have "expo x = int (ilog2 n)" "expo x + 1 = int (Suc (ilog2 n))"
    using x by (simp_all add: expo_def n_def)
  then have e: "(2::rat) powi expo x = 2 ^ ilog2 n" "(2::rat) powi (expo x + 1) = 2 ^ Suc (ilog2 n)"
    by (simp_all only: two_powi_nat)
  show ?thesis
    using b n unfolding pow_le_of_nat of_nat_le_pow e by linarith
qed

lemma expo_bounds_lt1:
  assumes x: "0 < x" "x < 1"
  shows "2 powi expo x \<le> x \<and> x < 2 powi (expo x + 1)"
proof -
  define n where "n = nat \<lceil>1 / x\<rceil>"
  have y: "1 < 1 / x" using x by simp
  then have n: "1 < n" "1 / x \<le> of_nat n" "of_nat n < 1 / x + 1"
    unfolding n_def by linarith+
  obtain k where k: "clog2 n = Suc k"
    using n(1) by (simp add: clog2_def)
  have "n \<le> 2 ^ Suc k" "2 ^ k \<le> n - 1"
    using clog2_bounds [OF n(1)] by (auto simp: k)
  then have b: "of_nat n \<le> (2::rat) ^ Suc k" "(2::rat) ^ k \<le> of_nat n - 1"
    unfolding pow_le_of_nat of_nat_le_pow using n(1) by (auto simp: of_nat_diff)
  have "expo x = - int (Suc k)" "expo x + 1 = - int k"
    using x by (simp_all add: expo_def n_def [symmetric] k)
  then have e: "(2::rat) powi expo x = 1 / 2 ^ Suc k" "(2::rat) powi (expo x + 1) = 1 / 2 ^ k"
    by (simp_all only: two_powi_neg)
  have "1 / x \<le> 2 ^ Suc k" "2 ^ k < 1 / x" using n b by linarith+
  then have "1 / 2 ^ Suc k \<le> x" "x < 1 / 2 ^ k"
    using x by (simp_all add: field_simps)
  then show ?thesis unfolding e by simp
qed

lemma expo_bounds: "0 < x \<Longrightarrow> 2 powi expo x \<le> x \<and> x < 2 powi (expo x + 1)"
  using expo_bounds_ge1 expo_bounds_lt1 by (cases "1 \<le> x") auto

lemma powi_less_iff: "(2::rat) powi a < 2 powi b \<longleftrightarrow> a < b"
  by (metis less_le_not_le linorder_not_less one_less_numeral_iff power_int_increasing
      power_int_strict_increasing semiring_norm(76) less_imp_le)

lemma powi_le_iff: "(2::rat) powi a \<le> 2 powi b \<longleftrightarrow> a \<le> b"
  using powi_less_iff [of b a] by linarith

lemma expo_unique:
  assumes "2 powi e \<le> x" "x < 2 powi (e + 1)"
  shows "expo x = e"
proof -
  have x: "0 < x" using assms(1) by (meson less_le_trans zero_less_numeral zero_less_power_int)
  note b = expo_bounds [OF x]
  have "(2::rat) powi e < 2 powi (expo x + 1)" using assms b by linarith
  moreover have "(2::rat) powi expo x < 2 powi (e + 1)" using assms b by linarith
  ultimately show ?thesis by (simp add: powi_less_iff)
qed

lemma expo_mono: "0 < x \<Longrightarrow> x \<le> y \<Longrightarrow> expo x \<le> expo y"
proof -
  assume x: "0 < x" and xy: "x \<le> y"
  have "(2::rat) powi expo x < 2 powi (expo y + 1)"
    using expo_bounds [OF x] expo_bounds [of y] x xy by linarith
  then show ?thesis by (simp add: powi_less_iff)
qed

section \<open>Rounding to nearest, ties to even\<close>

definition roundEven :: "rat \<Rightarrow> int" where
  "roundEven x =
     (let f = \<lfloor>x\<rfloor>; r = x - of_int f
      in if r < 1 / 2 then f
         else if 1 / 2 < r then f + 1
         else if even f then f else f + 1)"

lemma roundEven_of_int [simp]: "roundEven (of_int k) = k"
  by (simp add: roundEven_def)

lemma roundEven_near: "\<bar>of_int (roundEven x) - x\<bar> \<le> 1 / 2"
proof -
  have "of_int \<lfloor>x\<rfloor> \<le> x" "x < of_int \<lfloor>x\<rfloor> + 1" by linarith+
  then show ?thesis by (auto simp: roundEven_def Let_def abs_le_iff)
qed

lemma roundEven_mono: "x \<le> y \<Longrightarrow> roundEven x \<le> roundEven y"
proof -
  assume xy: "x \<le> y"
  have f: "of_int \<lfloor>x\<rfloor> \<le> x" "x < of_int \<lfloor>x\<rfloor> + 1" "of_int \<lfloor>y\<rfloor> \<le> y" "y < of_int \<lfloor>y\<rfloor> + 1"
    by linarith+
  have le: "\<lfloor>x\<rfloor> \<le> \<lfloor>y\<rfloor>" using xy by (rule floor_mono)
  show ?thesis
  proof (cases "\<lfloor>x\<rfloor> = \<lfloor>y\<rfloor>")
    case True
    then show ?thesis using xy by (auto simp: roundEven_def Let_def)
  next
    case False
    then have "\<lfloor>x\<rfloor> + 1 \<le> \<lfloor>y\<rfloor>" using le by simp
    then show ?thesis by (auto simp: roundEven_def Let_def)
  qed
qed

lemma roundEven_le_int: "x \<le> of_int k \<Longrightarrow> roundEven x \<le> k"
  using roundEven_mono [of x "of_int k"] by simp

lemma roundEven_ge_int: "of_int k \<le> x \<Longrightarrow> k \<le> roundEven x"
  using roundEven_mono [of "of_int k" x] by simp

text \<open>The spacing of doubles at a positive magnitude: 53 significant bits, subnormal floor.\<close>

definition quantum :: "rat \<Rightarrow> int" where
  "quantum x = max (expo x - 52) (- 1074)"

definition flpos :: "rat \<Rightarrow> rat" where
  "flpos x = of_int (roundEven (x / 2 powi quantum x)) * 2 powi quantum x"

definition fl :: "rat \<Rightarrow> rat" where
  "fl x = (if x = 0 then 0 else if x < 0 then - flpos (- x) else flpos x)"

lemma fl_0 [simp]: "fl 0 = 0"
  by (simp add: fl_def)

lemma fl_minus: "fl (- x) = - fl x"
  by (simp add: fl_def)

lemma flpos_nonneg: "0 < x \<Longrightarrow> 0 \<le> flpos x"
  using roundEven_ge_int [of 0 "x / 2 powi quantum x"] by (simp add: flpos_def)

lemma quantum_mono: "0 < x \<Longrightarrow> x \<le> y \<Longrightarrow> quantum x \<le> quantum y"
  using expo_mono [of x y] by (auto simp: quantum_def)

lemma powi_nat_int: "0 \<le> d \<Longrightarrow> (2::rat) powi d = of_int (2 ^ nat d)"
  by (simp add: power_int_def)

text \<open>Across a change of spacing the two results are separated by a power of two.\<close>

lemma flpos_mono:
  assumes x: "0 < x" and xy: "x \<le> y"
  shows "flpos x \<le> flpos y"
proof (cases "quantum x = quantum y")
  case True
  have "x / 2 powi quantum x \<le> y / 2 powi quantum x"
    using xy by (simp add: divide_right_mono)
  then have "roundEven (x / 2 powi quantum x) \<le> roundEven (y / 2 powi quantum x)"
    by (rule roundEven_mono)
  then show ?thesis using True by (simp add: flpos_def mult_right_mono)
next
  case False
  have y: "0 < y" using x xy by simp
  have q: "quantum x < quantum y" using quantum_mono [OF x xy] False by simp
  then have qy: "quantum y = expo y - 52" by (auto simp: quantum_def)
  have ex: "expo x + 1 \<le> expo y" using q qy by (auto simp: quantum_def)
  let ?d = "expo y - quantum x"
  have d: "0 \<le> ?d" using q qy by simp
  have "x / 2 powi quantum x \<le> 2 powi (expo x + 1) / 2 powi quantum x"
    using expo_bounds [OF x] by (simp add: divide_right_mono)
  also have "\<dots> = 2 powi (expo x + 1 - quantum x)" by (simp add: power_int_diff)
  also have "\<dots> \<le> 2 powi ?d" using ex by (simp add: powi_le_iff)
  finally have "roundEven (x / 2 powi quantum x) \<le> 2 ^ nat ?d"
    using roundEven_le_int powi_nat_int [OF d] by metis
  then have "flpos x \<le> of_int (2 ^ nat ?d) * 2 powi quantum x"
    unfolding flpos_def by (intro mult_right_mono) (simp_all add: of_int_le_iff del: of_int_power)
  also have "\<dots> = 2 powi expo y"
    unfolding powi_nat_int [OF d, symmetric] by (simp add: power_int_diff)
  finally have up: "flpos x \<le> 2 powi expo y" .
  have "2 powi (expo y - quantum y) \<le> y / 2 powi quantum y"
    using expo_bounds [OF y] by (simp add: power_int_diff divide_right_mono)
  then have "2 ^ 52 \<le> roundEven (y / 2 powi quantum y)"
    using roundEven_ge_int [of "2 ^ 52" "y / 2 powi quantum y"] qy by (simp add: power_int_def)
  then have "of_int (2 ^ 52) * 2 powi quantum y \<le> flpos y"
    unfolding flpos_def by (intro mult_right_mono) (simp_all add: of_int_le_iff del: of_int_power)
  moreover have "of_int (2 ^ 52) * 2 powi quantum y = (2::rat) powi expo y"
    using powi_unshift [of "expo y" 52] qy by simp
  ultimately show ?thesis using up by linarith
qed

lemma fl_mono: "x \<le> y \<Longrightarrow> fl x \<le> fl y"
  using flpos_mono [of x y] flpos_mono [of "- y" "- x"] flpos_nonneg [of y] flpos_nonneg [of "- x"]
  by (auto simp: fl_def)

lemma fl_nonneg: "0 \<le> x \<Longrightarrow> 0 \<le> fl x"
  using fl_mono [of 0 x] by simp

lemma fl_nonpos: "x \<le> 0 \<Longrightarrow> fl x \<le> 0"
  using fl_mono [of x 0] by simp

section \<open>Exactness and error\<close>

lemma flpos_exact_lt:
  assumes m: "0 < m" "m < 2 ^ 53" and p: "- 1074 \<le> p" and x: "x = of_int m * 2 powi p"
  shows "flpos x = x"
proof -
  have x0: "0 < x" using m by (simp add: x)
  have "(of_int m :: rat) < 2 ^ 53"
    using m(2) by (metis of_int_less_iff of_int_numeral of_int_power)
  then have "x < 2 ^ 53 * 2 powi p"
    unfolding x by (intro mult_strict_right_mono) simp_all
  also have "(2::rat) ^ 53 * 2 powi p = 2 powi (53 + p)"
    using powi_shift [of p 53] by (simp add: add.commute)
  finally have "2 powi expo x < (2::rat) powi (53 + p)"
    using expo_bounds [OF x0] by linarith
  then have q: "quantum x \<le> p" using p by (simp add: powi_less_iff quantum_def)
  have "x / 2 powi quantum x = of_int m * 2 powi (p - quantum x)"
    by (simp add: x power_int_diff)
  also have "\<dots> = of_int (m * 2 ^ nat (p - quantum x))"
    using powi_nat_int [of "p - quantum x"] q by simp
  finally show ?thesis
    by (simp only: flpos_def roundEven_of_int) (simp add: field_simps)
qed

lemma flpos_exact:
  assumes m: "0 < m" "m \<le> 2 ^ 53" and p: "- 1074 \<le> p" and x: "x = of_int m * 2 powi p"
  shows "flpos x = x"
proof (cases "m = 2 ^ 53")
  case True
  have "x = of_int (2 ^ 52) * 2 powi (p + 1)"
    by (simp add: x True power_int_add)
  then show ?thesis using flpos_exact_lt [of "2 ^ 52" "p + 1" x] p by simp
next
  case False
  then show ?thesis using flpos_exact_lt [of m p x] m p x by simp
qed

lemma fl_exact:
  assumes m: "\<bar>m\<bar> \<le> 2 ^ 53" and p: "- 1074 \<le> p"
  shows "fl (of_int m * 2 powi p) = of_int m * 2 powi p"
proof -
  have u: "\<not> (2::rat) powi p < 0" by (simp add: not_less less_imp_le)
  consider "m = 0" | "0 < m" | "m < 0" by linarith
  then show ?thesis
  proof cases
    case 2
    then show ?thesis
      using flpos_exact [of m p "of_int m * 2 powi p"] m p u
      by (simp add: fl_def mult_less_0_iff)
  next
    case 3
    then show ?thesis
      using flpos_exact [of "- m" p "of_int (- m) * 2 powi p"] m p u
      by (simp add: fl_def mult_less_0_iff)
  qed simp
qed

lemma fl_of_int: "\<bar>k\<bar> \<le> 2 ^ 53 \<Longrightarrow> fl (of_int k) = of_int k"
  using fl_exact [of k 0] by simp

lemma flpos_error:
  assumes x: "0 < x" "x \<le> B" and B: "1 \<le> B"
  shows "\<bar>flpos x - x\<bar> \<le> B / 2 ^ 53"
proof -
  let ?q = "quantum x" and ?u = "(2::rat) powi quantum x"
  have "\<bar>flpos x - x\<bar> = \<bar>(of_int (roundEven (x / ?u)) - x / ?u) * ?u\<bar>"
    by (simp add: flpos_def left_diff_distrib)
  also have "\<dots> = \<bar>of_int (roundEven (x / ?u)) - x / ?u\<bar> * ?u"
    by (simp add: abs_mult)
  also have "\<dots> \<le> 1 / 2 * ?u"
    by (intro mult_right_mono roundEven_near) simp
  finally have e: "\<bar>flpos x - x\<bar> \<le> ?u / 2" by simp
  have "?u / 2 \<le> B / 2 ^ 53"
  proof (cases "?q = expo x - 52")
    case True
    then have "?u / 2 = 2 powi expo x / 2 ^ 53"
      using powi_unshift [of "expo x" 52] by simp
    then show ?thesis using expo_bounds [OF x(1)] x(2) by (simp add: divide_right_mono)
  next
    case False
    then have "?u \<le> 2 powi (- 52)" by (simp add: powi_le_iff quantum_def)
    also have "(2::rat) powi (- 52) = 1 / 2 ^ 52" using two_powi_neg [of 52] by simp
    finally show ?thesis using B by simp
  qed
  then show ?thesis using e by linarith
qed

lemma fl_error:
  assumes "\<bar>x\<bar> \<le> B" "1 \<le> B"
  shows "\<bar>fl x - x\<bar> \<le> B / 2 ^ 53"
proof -
  have "x < 0 \<Longrightarrow> \<bar>fl x - x\<bar> = \<bar>flpos (- x) - (- x)\<bar>" by (simp add: fl_def)
  then show ?thesis
    using flpos_error [of x B] flpos_error [of "- x" B] assms
    by (cases x "0 :: rat" rule: linorder_cases) (auto simp: fl_def)
qed

section \<open>Operators and rounding functions\<close>

definition dadd :: "rat \<Rightarrow> rat \<Rightarrow> rat" where "dadd a b = fl (a + b)"
definition dsub :: "rat \<Rightarrow> rat \<Rightarrow> rat" where "dsub a b = fl (a - b)"
definition dmul :: "rat \<Rightarrow> rat \<Rightarrow> rat" where "dmul a b = fl (a * b)"
definition ddiv :: "rat \<Rightarrow> rat \<Rightarrow> rat" where "ddiv a b = fl (a / b)"

text \<open>\<open>Math.round\<close>: the nearest integer, ties towards plus infinity.\<close>

definition jsRound :: "rat \<Rightarrow> int" where
  "jsRound x = \<lfloor>x + 1 / 2\<rfloor>"

lemma jsRound_mono: "x \<le> y \<Longrightarrow> jsRound x \<le> jsRound y"
  by (simp add: jsRound_def floor_mono)

lemma jsRound_of_int [simp]: "jsRound (of_int k) = k"
  by (simp add: jsRound_def floor_eq_iff)

lemma jsRound_nearest: "\<bar>x - of_int k\<bar> < 1 / 2 \<Longrightarrow> jsRound x = k"
  unfolding jsRound_def floor_eq_iff abs_less_iff by linarith

lemma jsRound_nonneg: "0 \<le> x \<Longrightarrow> 0 \<le> jsRound x"
  by (simp add: jsRound_def)

lemma dadd_nonneg: "0 \<le> a \<Longrightarrow> 0 \<le> b \<Longrightarrow> 0 \<le> dadd a b"
  by (simp add: dadd_def fl_nonneg)

lemma dmul_nonneg: "0 \<le> a \<Longrightarrow> 0 \<le> b \<Longrightarrow> 0 \<le> dmul a b"
  by (simp add: dmul_def fl_nonneg)

lemma ddiv_nonneg: "0 \<le> a \<Longrightarrow> 0 \<le> b \<Longrightarrow> 0 \<le> ddiv a b"
  by (simp add: ddiv_def fl_nonneg)

lemma dadd_mono: "a \<le> a' \<Longrightarrow> b \<le> b' \<Longrightarrow> dadd a b \<le> dadd a' b'"
  by (simp add: dadd_def fl_mono)

lemma dsub_mono: "a \<le> a' \<Longrightarrow> b' \<le> b \<Longrightarrow> dsub a b \<le> dsub a' b'"
  by (simp add: dsub_def fl_mono)

lemma dmul_mono: "a \<le> a' \<Longrightarrow> 0 \<le> b \<Longrightarrow> dmul a b \<le> dmul a' b"
  by (simp add: dmul_def fl_mono mult_right_mono)

lemma ddiv_mono: "a \<le> a' \<Longrightarrow> 0 < b \<Longrightarrow> ddiv a b \<le> ddiv a' b"
  by (simp add: ddiv_def fl_mono divide_right_mono)

end
