(* ===== verification/Dates.thy ===== *)
theory Dates
  imports Prelude "HOL-Library.Char_ord" "HOL-Library.List_Lexorder"
begin

text \<open>
  Calendar dates (\<open>src/common/utils/date.ts\<close>). The code handles dates as ISO strings
  \<open>YYYY-MM-DD\<close>, compares them as strings and goes through \<open>Date\<close> for arithmetic; the other
  theories use the day number since 1970-01-01. This theory defines the proleptic
  Gregorian calendar of ECMAScript, the ISO strings, the string-level functions of the
  source, and shows that day numbers and ISO strings carry the same order and arithmetic.
\<close>

section \<open>The Gregorian calendar\<close>

type_synonym date = int

definition leap :: "int \<Rightarrow> bool" where
  "leap y \<longleftrightarrow> y mod 4 = 0 \<and> (y mod 100 \<noteq> 0 \<or> y mod 400 = 0)"

definition yearLen :: "int \<Rightarrow> int" where
  "yearLen y = (if leap y then 366 else 365)"

text \<open>Days from 1970-01-01 to 1 January of a year.\<close>

definition yearStart :: "int \<Rightarrow> int" where
  "yearStart y = 365 * (y - 1) + (y - 1) div 4 - (y - 1) div 100 + (y - 1) div 400 - 719162"

text \<open>Days of a year before a month.\<close>

definition cumDays :: "bool \<Rightarrow> int \<Rightarrow> int" where
  "cumDays l m =
     (if m \<le> 1 then 0 else if m = 2 then 31
      else (if m = 3 then 59 else if m = 4 then 90 else if m = 5 then 120
            else if m = 6 then 151 else if m = 7 then 181 else if m = 8 then 212
            else if m = 9 then 243 else if m = 10 then 273 else if m = 11 then 304
            else if m = 12 then 334 else 365) + (if l then 1 else 0))"

definition monthLen :: "int \<Rightarrow> int \<Rightarrow> int" where
  "monthLen y m = cumDays (leap y) (m + 1) - cumDays (leap y) m"

definition validDate :: "int \<Rightarrow> int \<Rightarrow> int \<Rightarrow> bool" where
  "validDate y m d \<longleftrightarrow> 1 \<le> m \<and> m \<le> 12 \<and> 1 \<le> d \<and> d \<le> monthLen y m"

definition dayNum :: "int \<Rightarrow> int \<Rightarrow> int \<Rightarrow> date" where
  "dayNum y m d = yearStart y + cumDays (leap y) m + d - 1"

definition monthOfDoy :: "bool \<Rightarrow> int \<Rightarrow> int" where
  "monthOfDoy l k =
     (if k < 31 then 1 else if k < cumDays l 3 then 2 else if k < cumDays l 4 then 3
      else if k < cumDays l 5 then 4 else if k < cumDays l 6 then 5 else if k < cumDays l 7 then 6
      else if k < cumDays l 8 then 7 else if k < cumDays l 9 then 8 else if k < cumDays l 10 then 9
      else if k < cumDays l 11 then 10 else if k < cumDays l 12 then 11 else 12)"

definition yearOf :: "date \<Rightarrow> int" where
  "yearOf n =
     (let z = n + 719162; a = z div 146097; r = z mod 146097;
          b = min 3 (r div 36524); r = r - 36524 * b;
          c = r div 1461; r = r mod 1461;
          e = min 3 (r div 365)
      in 400 * a + 100 * b + 4 * c + e + 1)"

definition monthOf :: "date \<Rightarrow> int" where
  "monthOf n = monthOfDoy (leap (yearOf n)) (n - yearStart (yearOf n))"

definition dayOf :: "date \<Rightarrow> int" where
  "dayOf n = n - yearStart (yearOf n) - cumDays (leap (yearOf n)) (monthOf n) + 1"

lemma div_eqI: "0 < k \<Longrightarrow> k * q \<le> n \<Longrightarrow> n < k * q + k \<Longrightarrow> n div k = (q::int)"
  by (rule int_div_pos_eq [of n k q "n - k * q"]) simp_all

lemma div_lower: "0 < k \<Longrightarrow> k * (n div k) \<le> (n::int)"
  using mult_div_mod_eq [of k n] pos_mod_sign [of k n] by linarith

lemma div_upper: "0 < k \<Longrightarrow> (n::int) < k * (n div k) + k"
  using mult_div_mod_eq [of k n] pos_mod_bound [of k n] by linarith

lemma div_pred:
  assumes k: "0 < (k::int)"
  shows "y div k = (y - 1) div k + (if y mod k = 0 then 1 else 0)"
proof (cases "y mod k = 0")
  case True
  then have "(y - 1) div k = y div k - 1"
    using k mult_div_mod_eq [of k y] by (intro div_eqI) (simp_all add: right_diff_distrib)
  then show ?thesis using True by simp
next
  case False
  then have "0 < y mod k" using k by (simp add: order_less_le)
  then have "(y - 1) div k = y div k"
    using k div_lower [of k y] div_upper [of k y] mult_div_mod_eq [of k y] by (intro div_eqI) linarith+
  then show ?thesis using False by simp
qed

lemma yearStart_split:
  assumes "0 \<le> b" "b \<le> 3" "0 \<le> c" "c \<le> 24" "0 \<le> e" "e \<le> (3::int)"
  shows "yearStart (400 * a + 100 * b + 4 * c + e + 1)
         = 146097 * a + 36524 * b + 1461 * c + 365 * e - 719162"
proof -
  let ?y = "400 * a + 100 * b + 4 * c + e"
  have "?y div 4 = 100 * a + 25 * b + c" using assms by (intro div_eqI) simp_all
  moreover have "?y div 100 = 4 * a + b" using assms by (intro div_eqI) simp_all
  moreover have "?y div 400 = a" using assms by (intro div_eqI) simp_all
  ultimately show ?thesis by (simp add: yearStart_def)
qed

lemma yearStart_step:
  "A = A' + s \<Longrightarrow> B = B' + t \<Longrightarrow> C = C' + u \<Longrightarrow>
   365 * y + A - B + C - k = 365 * (y - 1) + A' - B' + C' - k + 365 + s - t + (u::int)"
  by simp

lemma leap_len:
  assumes "y mod 100 = 0 \<Longrightarrow> y mod 4 = 0" "y mod 400 = 0 \<Longrightarrow> y mod 100 = 0"
  shows "365 + (if y mod 4 = 0 then 1 else 0) - (if y mod 100 = 0 then 1 else 0)
         + (if y mod 400 = 0 then 1 else 0) = yearLen y"
  using assms
  by (cases "y mod 400 = 0"; cases "y mod 100 = 0"; cases "y mod 4 = 0"; simp only: yearLen_def leap_def; simp)

lemma yearStart_Suc: "yearStart (y + 1) = yearStart y + yearLen y"
proof -
  have "y div 4 = (y - 1) div 4 + (if y mod 4 = 0 then 1 else 0)"
    "y div 100 = (y - 1) div 100 + (if y mod 100 = 0 then 1 else 0)"
    "y div 400 = (y - 1) div 400 + (if y mod 400 = 0 then 1 else 0)"
    by (rule div_pred, simp)+
  then have "yearStart (y + 1) = yearStart y + 365 + (if y mod 4 = 0 then 1 else 0)
      - (if y mod 100 = 0 then 1 else 0) + (if y mod 400 = 0 then 1 else 0)"
    unfolding yearStart_def add_diff_cancel by (rule yearStart_step)
  moreover have "y mod 100 = 0 \<Longrightarrow> y mod 4 = 0" "y mod 400 = 0 \<Longrightarrow> y mod 100 = 0"
    using dvd_trans [of "4::int" 100 y] dvd_trans [of "100::int" 400 y]
    by (simp_all add: mod_eq_0_iff_dvd)
  ultimately show ?thesis using leap_len [of y] by linarith
qed

lemma leap_split:
  assumes "0 \<le> b" "b \<le> 3" "0 \<le> c" "c \<le> 24" "c = 24 \<Longrightarrow> b = (3::int)"
  shows "leap (400 * a + 100 * b + 4 * c + 4)"
proof -
  let ?y = "400 * a + 100 * b + 4 * c + 4"
  have "?y = 4 * (100 * a + 25 * b + c + 1)" by simp
  then have "?y mod 4 = 0" by (metis mod_mult_self1_is_0)
  moreover have "?y mod 100 \<noteq> 0 \<or> ?y mod 400 = 0"
  proof (cases "c = 24")
    case True
    then have "?y = 400 * (a + 1)" using assms by simp
    then show ?thesis by (metis mod_mult_self1_is_0)
  next
    case False
    then have "?y div 100 = 4 * a + b" using assms by (intro div_eqI) simp_all
    then have "?y mod 100 = 4 * c + 4" using mult_div_mod_eq [of 100 ?y] by linarith
    then show ?thesis using assms by simp
  qed
  ultimately show ?thesis by (simp add: leap_def)
qed

lemma yearOf_bounds:
  "yearStart (yearOf n) \<le> n \<and> n < yearStart (yearOf n) + yearLen (yearOf n)"
proof -
  define z where "z = n + 719162"
  define a where "a = z div 146097"
  define r1 where "r1 = z mod 146097"
  define b where "b = min 3 (r1 div 36524)"
  define r2 where "r2 = r1 - 36524 * b"
  define c where "c = r2 div 1461"
  define r3 where "r3 = r2 mod 1461"
  define e where "e = min 3 (r3 div 365)"
  have y: "yearOf n = 400 * a + 100 * b + 4 * c + e + 1"
    unfolding yearOf_def Let_def z_def a_def r1_def b_def r2_def c_def r3_def e_def ..
  have z: "z = 146097 * a + r1" and r1: "0 \<le> r1" "r1 < 146097"
    by (simp_all add: a_def r1_def)
  have b: "0 \<le> b" "b \<le> 3" using r1 by (auto simp: b_def)
  have r2: "0 \<le> r2" "r2 \<le> 36524" "b < 3 \<Longrightarrow> r2 < 36524"
    using r1 div_lower [of 36524 r1] div_upper [of 36524 r1]
    by (cases "3 \<le> r1 div 36524"; simp add: r2_def b_def min_def)+
  have r2': "r2 = 1461 * c + r3" and r3: "0 \<le> r3" "r3 < 1461"
    by (simp_all add: c_def r3_def)
  have c: "0 \<le> c" "c \<le> 24" using r2 r3 r2' by linarith+
  have e: "0 \<le> e" "e \<le> 3" using r3 by (auto simp: e_def)
  have k: "0 \<le> r3 - 365 * e" "r3 - 365 * e \<le> 365" "r3 - 365 * e = 365 \<Longrightarrow> e = 3"
    using r3 div_lower [of 365 r3] div_upper [of 365 r3]
    by (cases "3 \<le> r3 div 365"; simp add: e_def min_def)+
  have s: "yearStart (yearOf n) = n - (r3 - 365 * e)"
    using yearStart_split [OF b c e, of a] z r2' by (simp add: y r2_def z_def)
  have "r3 - 365 * e = 365 \<Longrightarrow> leap (yearOf n)"
  proof -
    assume h: "r3 - 365 * e = 365"
    then have e3: "e = 3" by (rule k)
    have "c = 24 \<Longrightarrow> b = 3" using h e3 r2 r2' b by (cases "b < 3") auto
    then show "leap (yearOf n)"
      using c b leap_split [of b c a] unfolding y e3 by (simp add: add.assoc)
  qed
  then show ?thesis using k s by (cases "r3 - 365 * e = 365") (simp_all add: yearLen_def)
qed

lemma yearLen_pos: "365 \<le> yearLen y"
  by (simp add: yearLen_def)

lemma yearStart_mono: "y \<le> y' \<Longrightarrow> yearStart y \<le> yearStart y'"
proof (induction y' rule: int_ge_induct)
  case (step i)
  then show ?case using yearStart_Suc [of i] yearLen_pos [of i] by linarith
qed simp

lemma yearOf_unique:
  assumes "yearStart y \<le> n" "n < yearStart y + yearLen y"
  shows "yearOf n = y"
proof (rule ccontr)
  assume "yearOf n \<noteq> y"
  then consider "yearOf n + 1 \<le> y" | "y + 1 \<le> yearOf n" by linarith
  then show False
    using yearOf_bounds [of n] assms yearStart_mono [of "yearOf n + 1" y] yearStart_mono [of "y + 1" "yearOf n"]
    by cases (simp_all add: yearStart_Suc)
qed

lemma month_cases:
  assumes "1 \<le> (m::int)" "m \<le> 12"
  shows "m \<in> {1, 2, 3, 4, 5, 6, 7, 8, 9, 10, 11, 12}"
  using assms by (simp only: insert_iff empty_iff) arith

lemma monthOfDoy_bounds:
  "0 \<le> k \<Longrightarrow> k < 365 + (if l then 1 else 0) \<Longrightarrow>
   1 \<le> monthOfDoy l k \<and> monthOfDoy l k \<le> 12 \<and> cumDays l (monthOfDoy l k) \<le> k
   \<and> k < cumDays l (monthOfDoy l k + 1)"
  by (simp add: monthOfDoy_def cumDays_def)

lemma monthOfDoy_unique:
  assumes "1 \<le> m" "m \<le> 12" "cumDays l m \<le> k" "k < cumDays l (m + 1)"
  shows "monthOfDoy l k = m"
  using month_cases [OF assms(1, 2)] assms(3, 4)
  by (elim insertE emptyE; cases l; simp add: monthOfDoy_def cumDays_def)

lemma doy_bounds:
  assumes "validDate y m d"
  shows "0 \<le> cumDays (leap y) m + d - 1" "cumDays (leap y) m + d - 1 < yearLen y"
  using assms month_cases [of m]
  by (auto simp: validDate_def monthLen_def yearLen_def cumDays_def)

text \<open>The two directions of the calendar conversion are inverse.\<close>

lemma civil_dayNum:
  assumes v: "validDate y m d"
  shows "yearOf (dayNum y m d) = y" "monthOf (dayNum y m d) = m" "dayOf (dayNum y m d) = d"
proof -
  show y: "yearOf (dayNum y m d) = y"
    using doy_bounds [OF v] by (intro yearOf_unique) (simp_all add: dayNum_def)
  show m: "monthOf (dayNum y m d) = m"
    using v unfolding monthOf_def y
    by (intro monthOfDoy_unique) (simp_all add: dayNum_def validDate_def monthLen_def)
  show "dayOf (dayNum y m d) = d"
    unfolding dayOf_def m y by (simp add: dayNum_def)
qed

lemma dayNum_civil: "dayNum (yearOf n) (monthOf n) (dayOf n) = n"
  by (simp add: dayNum_def dayOf_def)

lemma valid_civil: "validDate (yearOf n) (monthOf n) (dayOf n)"
proof -
  have "0 \<le> n - yearStart (yearOf n)" "n - yearStart (yearOf n) < 365 + (if leap (yearOf n) then 1 else 0)"
    using yearOf_bounds [of n] by (auto simp: yearLen_def)
  from monthOfDoy_bounds [OF this] show ?thesis
    by (simp add: validDate_def monthLen_def dayOf_def monthOf_def)
qed

text \<open>Day numbers are ordered as the dates are, component by component.\<close>

lemma dayNum_less_year:
  "validDate y m d \<Longrightarrow> validDate y' m' d' \<Longrightarrow> y < y' \<Longrightarrow> dayNum y m d < dayNum y' m' d'"
  using doy_bounds [of y m d] doy_bounds [of y' m' d'] yearStart_mono [of "y + 1" y']
  by (simp add: dayNum_def yearStart_Suc)

lemma cumDays_step:
  assumes "1 \<le> m" "m \<le> 12"
  shows "cumDays l m \<le> cumDays l (m + 1)"
  using month_cases [OF assms] by (elim insertE emptyE; simp add: cumDays_def)

lemma cumDays_le:
  assumes "m \<le> m'" "1 \<le> m"
  shows "m' \<le> 13 \<Longrightarrow> cumDays l m \<le> cumDays l m'"
  using assms(1)
proof (induction m' rule: int_ge_induct)
  case (step i)
  then show ?case using cumDays_step [of i l] assms(2) by simp
qed simp

lemma cumDays_mono: "1 \<le> m \<Longrightarrow> m < m' \<Longrightarrow> m' \<le> 12 \<Longrightarrow> cumDays l (m + 1) \<le> cumDays l m'"
  by (rule cumDays_le) simp_all

lemma dayNum_less_month:
  "validDate y m d \<Longrightarrow> validDate y m' d' \<Longrightarrow> m < m' \<Longrightarrow> dayNum y m d < dayNum y m' d'"
  using cumDays_mono [of m m' "leap y"] by (simp add: dayNum_def validDate_def monthLen_def)

lemma dayNum_less_iff:
  assumes v: "validDate y m d" "validDate y' m' d'"
  shows "dayNum y m d < dayNum y' m' d' \<longleftrightarrow> y < y' \<or> (y = y' \<and> (m < m' \<or> (m = m' \<and> d < d')))"
proof (cases y y' rule: linorder_cases)
  case equal
  then show ?thesis
    using v dayNum_less_month [of y m d m' d'] dayNum_less_month [of y m' d' m d]
    by (cases m m' rule: linorder_cases) (auto simp: dayNum_def)
next
  case less
  then show ?thesis using v dayNum_less_year [of y m d y' m' d'] by simp
next
  case greater
  then show ?thesis using v dayNum_less_year [of y' m' d' y m d] by simp
qed

lemma date_less_iff:
  "n < k \<longleftrightarrow> yearOf n < yearOf k \<or> (yearOf n = yearOf k \<and>
     (monthOf n < monthOf k \<or> (monthOf n = monthOf k \<and> dayOf n < dayOf k)))"
  using dayNum_less_iff [OF valid_civil [of n] valid_civil [of k]] by (simp add: dayNum_civil)

section \<open>ISO strings\<close>

text \<open>
  \<open>toISOString().slice(0, 10)\<close> and the template \<open>`${year}-${pad(month)}-${pad(day)}`\<close>: four, two
  and two decimal digits. Years run from 0 to 9999, where \<open>toISOString\<close> writes four digits.
\<close>

definition digit :: "int \<Rightarrow> char" where
  "digit k = char_of (48 + nat k)"

definition pad2 :: "int \<Rightarrow> string" where
  "pad2 k = [digit (k div 10), digit (k mod 10)]"

definition pad4 :: "int \<Rightarrow> string" where
  "pad4 k = pad2 (k div 100) @ pad2 (k mod 100)"

definition isoOfDay :: "date \<Rightarrow> string" where
  "isoOfDay n = pad4 (yearOf n) @ CHR ''-'' # pad2 (monthOf n) @ CHR ''-'' # pad2 (dayOf n)"

definition digitVal :: "char \<Rightarrow> int option" where
  "digitVal c = (if 48 \<le> (of_char c :: nat) \<and> (of_char c :: nat) \<le> 57 then Some (int (of_char c) - 48) else None)"

fun digitsVal :: "int \<Rightarrow> string \<Rightarrow> int option" where
  "digitsVal acc [] = Some acc"
| "digitsVal acc (c # cs) = (case digitVal c of None \<Rightarrow> None | Some v \<Rightarrow> digitsVal (10 * acc + v) cs)"

text \<open>\<open>new Date(`${iso}T00:00:00Z`)\<close> on a calendar date; None is the invalid date (NaN).\<close>

fun dayOfIso :: "string \<Rightarrow> date option" where
  "dayOfIso [a, b, c, d, p, e, f, q, g, h] =
     (if p \<noteq> CHR ''-'' \<or> q \<noteq> CHR ''-'' then None
      else case (digitsVal 0 [a, b, c, d], digitsVal 0 [e, f], digitsVal 0 [g, h]) of
        (Some y, Some m, Some k) \<Rightarrow> if validDate y m k then Some (dayNum y m k) else None
      | _ \<Rightarrow> None)"
| "dayOfIso _ = None"

lemma of_char_digit: "0 \<le> k \<Longrightarrow> k \<le> 9 \<Longrightarrow> (of_char (digit k) :: nat) = 48 + nat k"
  by (simp add: digit_def)

lemma digitVal_digit [simp]: "0 \<le> k \<Longrightarrow> k \<le> 9 \<Longrightarrow> digitVal (digit k) = Some k"
  by (simp add: digitVal_def of_char_digit)

lemma digit_less: "0 \<le> j \<Longrightarrow> j \<le> 9 \<Longrightarrow> 0 \<le> k \<Longrightarrow> k \<le> 9 \<Longrightarrow> digit j < digit k \<longleftrightarrow> j < k"
  by (auto simp: less_char_def of_char_digit)

lemma digit_eq: "0 \<le> j \<Longrightarrow> j \<le> 9 \<Longrightarrow> 0 \<le> k \<Longrightarrow> k \<le> 9 \<Longrightarrow> digit j = digit k \<longleftrightarrow> j = k"
  using of_char_digit [of j] of_char_digit [of k] by (metis add_left_cancel nat_eq_iff2 nat_0_le)

lemma digit_cases2:
  assumes "0 \<le> k" "k \<le> 99"
  obtains a b :: int where "k = 10 * a + b" "0 \<le> a" "a \<le> 9" "0 \<le> b" "b \<le> 9"
    "pad2 k = [digit a, digit b]"
proof -
  have "k = 10 * (k div 10) + k mod 10" "k div 10 \<le> 9" "0 \<le> k div 10" "k mod 10 \<le> 9"
    using assms by simp_all
  then show ?thesis using that [of "k div 10" "k mod 10"] by (simp add: pad2_def)
qed

lemma pad2_less:
  assumes "0 \<le> j" "j \<le> 99" "0 \<le> k" "k \<le> 99"
  shows "pad2 j @ xs < pad2 k @ ys \<longleftrightarrow> j < k \<or> (j = k \<and> xs < ys)"
proof -
  obtain a b where j: "j = 10 * a + b" "0 \<le> a" "a \<le> 9" "0 \<le> b" "b \<le> 9" "pad2 j = [digit a, digit b]"
    using digit_cases2 assms by blast
  obtain c d where k: "k = 10 * c + d" "0 \<le> c" "c \<le> 9" "0 \<le> d" "d \<le> 9" "pad2 k = [digit c, digit d]"
    using digit_cases2 assms by blast
  show ?thesis using j k by (auto simp: digit_less digit_eq)
qed

lemma pad4_less:
  assumes "0 \<le> j" "j \<le> 9999" "0 \<le> k" "k \<le> 9999"
  shows "pad4 j @ xs < pad4 k @ ys \<longleftrightarrow> j < k \<or> (j = k \<and> xs < ys)"
proof -
  have r: "0 \<le> i div 100 \<and> i div 100 \<le> 99 \<and> 0 \<le> i mod 100 \<and> i mod 100 \<le> 99"
    if "0 \<le> i" "i \<le> 9999" for i :: int
    using that by presburger
  have e: "j = 100 * (j div 100) + j mod 100" "k = 100 * (k div 100) + k mod 100" by simp_all
  have "j < k \<longleftrightarrow> j div 100 < k div 100 \<or> (j div 100 = k div 100 \<and> j mod 100 < k mod 100)"
    using e r [of j] r [of k] assms by linarith
  moreover have "j = k \<longleftrightarrow> j div 100 = k div 100 \<and> j mod 100 = k mod 100"
    using e by metis
  ultimately show ?thesis
    using r [of j] r [of k] assms by (simp add: pad4_def pad2_less) blast
qed

definition isoYear :: "date \<Rightarrow> bool" where
  "isoYear n \<longleftrightarrow> 0 \<le> yearOf n \<and> yearOf n \<le> 9999"

lemma monthLen_le: "1 \<le> m \<Longrightarrow> m \<le> 12 \<Longrightarrow> monthLen y m \<le> 31"
  using month_cases [of m] by (auto simp: monthLen_def cumDays_def)

lemma civil_ranges: "1 \<le> monthOf n \<and> monthOf n \<le> 12 \<and> 1 \<le> dayOf n \<and> dayOf n \<le> 31"
  using valid_civil [of n] monthLen_le [of "monthOf n" "yearOf n"] by (simp add: validDate_def)

lemma digitsVal_pad2:
  "0 \<le> k \<Longrightarrow> k \<le> 99 \<Longrightarrow> digitsVal acc (pad2 k @ xs) = digitsVal (100 * acc + k) xs"
  using digit_cases2 [of k] by (force simp: algebra_simps)

lemma digitsVal_pad4:
  assumes "0 \<le> k" "k \<le> 9999"
  shows "digitsVal 0 (pad4 k) = Some k"
proof -
  have "0 \<le> k div 100 \<and> k div 100 \<le> 99 \<and> 0 \<le> k mod 100 \<and> k mod 100 \<le> 99"
    using assms by presburger
  then show ?thesis
    using digitsVal_pad2 [of "k mod 100" "k div 100" "[]"] by (simp add: pad4_def digitsVal_pad2)
qed

lemma dayOfIso_pads:
  "dayOfIso (pad4 y @ CHR ''-'' # pad2 m @ CHR ''-'' # pad2 d) =
   (case (digitsVal 0 (pad4 y), digitsVal 0 (pad2 m), digitsVal 0 (pad2 d)) of
      (Some y, Some m, Some k) \<Rightarrow> if validDate y m k then Some (dayNum y m k) else None
    | _ \<Rightarrow> None)"
  by (simp add: pad2_def pad4_def)

lemma dayOfIso_isoOfDay:
  assumes "isoYear n"
  shows "dayOfIso (isoOfDay n) = Some n"
  using assms civil_ranges [of n] valid_civil [of n]
    digitsVal_pad2 [of "monthOf n" 0 "[]"] digitsVal_pad2 [of "dayOf n" 0 "[]"]
  unfolding isoOfDay_def dayOfIso_pads
  by (simp add: digitsVal_pad4 isoYear_def dayNum_civil)

lemma isoOfDay_less:
  assumes "isoYear n" "isoYear k"
  shows "isoOfDay n < isoOfDay k \<longleftrightarrow> n < k"
proof -
  have two: "0 \<le> monthOf j \<and> monthOf j \<le> 99 \<and> 0 \<le> dayOf j \<and> dayOf j \<le> 99" for j
    using civil_ranges [of j] by simp
  have d: "pad2 (dayOf n) < pad2 (dayOf k) \<longleftrightarrow> dayOf n < dayOf k"
    using pad2_less [of "dayOf n" "dayOf k" "[]" "[]"] two by simp
  show ?thesis
    using assms two [of n] two [of k] unfolding isoOfDay_def date_less_iff [of n k]
    by (simp add: pad4_less pad2_less isoYear_def d)
qed

section \<open>The helpers of the source\<close>

text \<open>\<open>todayIso(now)\<close>: the day of an instant in milliseconds since the epoch.\<close>

definition dayOfMs :: "int \<Rightarrow> date" where
  "dayOfMs ms = ms div 86400000"

definition todayIso :: "int \<Rightarrow> string" where
  "todayIso ms = isoOfDay (dayOfMs ms)"

text \<open>\<open>addDays\<close> and \<open>daysBetween\<close> on strings; None is the \<open>RangeError\<close> or \<open>NaN\<close> of an invalid date.\<close>

definition addDaysIso :: "string \<Rightarrow> int \<Rightarrow> string option" where
  "addDaysIso s days = map_option (\<lambda>n. isoOfDay (n + days)) (dayOfIso s)"

definition daysBetweenIso :: "string \<Rightarrow> string \<Rightarrow> int option" where
  "daysBetweenIso a b =
     (case (dayOfIso a, dayOfIso b) of (Some m, Some n) \<Rightarrow> Some (n - m) | _ \<Rightarrow> None)"

text \<open>The same on day numbers, as the other theories use them.\<close>

definition addDays :: "date \<Rightarrow> int \<Rightarrow> date" where
  "addDays n k = n + k"

definition daysBetween :: "date \<Rightarrow> date \<Rightarrow> int" where
  "daysBetween a b = b - a"

text \<open>\<open>getUTCDay\<close>: 1970-01-01 was a Thursday (4).\<close>

definition dayOfWeek :: "date \<Rightarrow> int" where
  "dayOfWeek n = (n + 4) mod 7"

definition isWeekend :: "date \<Rightarrow> bool" where
  "isWeekend n \<longleftrightarrow> dayOfWeek n = 0 \<or> dayOfWeek n = 6"



end
