(* ===== verification/Holidays.thy ===== *)
theory Holidays
  imports Dates
begin

text \<open>
  The computable Nigerian public holidays (\<open>src/modules/leave/nigerian-holidays.ts\<close>): the
  Meeus/Jones/Butcher computation of Easter Sunday and the list built from it.
\<close>

section \<open>Easter Sunday\<close>

text \<open>
  \<open>year % 19\<close> and \<open>Math.floor(x / n)\<close> on non-negative integers; \<open>%\<close> truncates in the
  source, and agrees with \<open>mod\<close> because every dividend is non-negative for years from 0 on
  (\<open>easter_parts\<close>).
\<close>

definition easterH :: "int \<Rightarrow> int" where
  "easterH year =
     (let a = year mod 19; b = year div 100; d = b div 4; f = (b + 8) div 25; g = (b - f + 1) div 3
      in (19 * a + b - d - g + 15) mod 30)"

definition easterL :: "int \<Rightarrow> int" where
  "easterL year =
     (let b = year div 100; c = year mod 100; e = b mod 4; i = c div 4; k = c mod 4
      in (32 + 2 * e + 2 * i - easterH year - k) mod 7)"

definition easterM :: "int \<Rightarrow> int" where
  "easterM year = (year mod 19 + 11 * easterH year + 22 * easterL year) div 451"

definition easterN :: "int \<Rightarrow> int" where
  "easterN year = easterH year + easterL year - 7 * easterM year + 114"

definition easterSunday :: "int \<Rightarrow> date" where
  "easterSunday year = dayNum year (easterN year div 31) (easterN year mod 31 + 1)"

lemma easterN_bounds: "114 \<le> easterN year \<and> easterN year \<le> 148"
proof -
  define a where "a = year mod 19"
  define h where "h = easterH year"
  define l where "l = easterL year"
  have a: "0 \<le> a" "a \<le> 18" by (simp_all add: a_def)
  have h: "0 \<le> h" "h \<le> 29" by (simp_all add: h_def easterH_def Let_def)
  have l: "0 \<le> l" "l \<le> 6" by (simp_all add: l_def easterL_def Let_def)
  let ?s = "a + 11 * h + 22 * l"
  have N: "easterN year = h + l - 7 * (?s div 451) + 114"
    by (simp add: easterN_def easterM_def a_def h_def l_def)
  show ?thesis
  proof (cases "?s < 451")
    case True
    then have "?s div 451 = 0" using a h l by (intro div_pos_pos_trivial) linarith+
    moreover have "h + l \<le> 34" using True a h l by linarith
    ultimately show ?thesis using N h l by simp
  next
    case False
    then have "?s div 451 = 1" using a h l by (intro div_eqI) linarith+
    then show ?thesis using N False a h l by simp
  qed
qed

lemma easterSunday_offset:
  "easterSunday year = dayNum year 3 1 + (easterN year - 93)"
proof -
  have e: "easterN year = 31 * (easterN year div 31) + easterN year mod 31" by simp
  have b: "114 \<le> easterN year" "easterN year \<le> 148" using easterN_bounds by simp_all
  consider "easterN year \<le> 123" | "124 \<le> easterN year" by linarith
  then show ?thesis
  proof cases
    case 1
    then have "easterN year div 31 = 3" using b by (intro div_eqI) linarith+
    then show ?thesis using e by (simp add: easterSunday_def dayNum_def cumDays_def)
  next
    case 2
    then have "easterN year div 31 = 4" using b by (intro div_eqI) linarith+
    then show ?thesis using e by (simp add: easterSunday_def dayNum_def cumDays_def)
  qed
qed

text \<open>1 March of a year, in the decomposition of the year the algorithm uses.\<close>

lemma march1:
  "dayNum year 3 1 = 365 * year + year div 4 - year div 100 + year div 400 - 719162 - 306"
proof -
  have "dayNum year 3 1 = yearStart (year + 1) - 306"
    by (simp add: dayNum_def cumDays_def yearStart_Suc yearLen_def)
  then show ?thesis unfolding yearStart_def add_diff_cancel by linarith
qed

lemma march1_digits:
  assumes "0 \<le> e" "e \<le> 3" "0 \<le> i" "i \<le> 24" "0 \<le> k" "k \<le> 3"
  shows "dayNum (100 * (4 * d + e) + (4 * i + k)) 3 1
         = 146097 * d + 36524 * e + 1461 * i + 365 * k - 719468"
proof -
  let ?y = "100 * (4 * d + e) + (4 * i + k)"
  have "?y div 4 = 100 * d + 25 * e + i" using assms by (intro div_eqI) simp_all
  moreover have "?y div 100 = 4 * d + e" using assms by (intro div_eqI) simp_all
  moreover have "?y div 400 = d" using assms by (intro div_eqI) simp_all
  ultimately show ?thesis by (simp add: march1)
qed

lemma easter_is_sunday: "dayOfWeek (easterSunday year) = 0"
proof -
  define b where "b = year div 100"
  define d where "d = b div 4"
  define e where "e = b mod 4"
  define c where "c = year mod 100"
  define i where "i = c div 4"
  define k where "k = c mod 4"
  have y: "year = 100 * (4 * d + e) + (4 * i + k)"
    by (simp add: b_def c_def d_def e_def i_def k_def)
  have r: "0 \<le> e" "e \<le> 3" "0 \<le> k" "k \<le> 3" by (simp_all add: e_def k_def)
  have c: "0 \<le> c" "c \<le> 99" by (simp_all add: c_def)
  have i: "0 \<le> i" "i \<le> 24"
    using c div_lower [of 4 c] div_upper [of 4 c] unfolding i_def by linarith+
  define L where "L = 32 + 2 * e + 2 * i - easterH year - k"
  have l: "easterL year = L mod 7"
    by (simp add: easterL_def Let_def L_def b_def c_def e_def i_def k_def)
  have "dayNum year 3 1 = 146097 * d + 36524 * e + 1461 * i + 365 * k - 719468"
    using march1_digits [OF r(1,2) i r(3,4), of d] y by simp
  then have "easterSunday year + 4 = 146097 * d + 36524 * e + 1461 * i + 365 * k - 719468
      + easterH year + L mod 7 - 7 * easterM year + 25"
    by (simp add: easterSunday_offset easterN_def l)
  also have "\<dots> = 7 * (20871 * d + 5218 * e + 209 * i + 52 * k - 102773 - easterM year - L div 7)"
    using mult_div_mod_eq [of 7 L] unfolding L_def by (simp add: algebra_simps)
  finally show ?thesis by (simp only: dayOfWeek_def mod_mult_self1_is_0)
qed

text \<open>Dividends of the source's \<open>%\<close> are non-negative, so truncation and \<open>mod\<close> agree.\<close>

lemma easter_parts:
  assumes "0 \<le> year"
  shows "0 \<le> 19 * (year mod 19) + year div 100 - year div 100 div 4
           - (year div 100 - (year div 100 + 8) div 25 + 1) div 3 + 15"
    and "0 \<le> 32 + 2 * (year div 100 mod 4) + 2 * (year mod 100 div 4) - easterH year - year mod 100 mod 4"
proof -
  define b where "b = year div 100"
  have b: "0 \<le> b" using assms by (simp add: b_def)
  have "0 \<le> (b + 8) div 25" using b by simp
  then have "(b - (b + 8) div 25 + 1) div 3 \<le> (b + 1) div 3" by (intro zdiv_mono1) simp_all
  moreover have "4 * (b div 4) \<le> b" "3 * ((b + 1) div 3) \<le> b + 1" by (simp_all add: div_lower)
  moreover have "0 \<le> year mod 19" by simp
  ultimately show "0 \<le> 19 * (year mod 19) + year div 100 - year div 100 div 4
           - (year div 100 - (year div 100 + 8) div 25 + 1) div 3 + 15"
    using b unfolding b_def [symmetric] by linarith
  have "easterH year \<le> 29" by (simp add: easterH_def Let_def)
  moreover have "0 \<le> year div 100 mod 4" "0 \<le> year mod 100 div 4" "year mod 100 mod 4 \<le> 3" by simp_all
  ultimately show "0 \<le> 32 + 2 * (year div 100 mod 4) + 2 * (year mod 100 div 4) - easterH year - year mod 100 mod 4"
    by linarith
qed

section \<open>The list of holidays\<close>

type_synonym holiday = "date \<times> string"

text \<open>\<open>.sort((a, b) => a.date.localeCompare(b.date))\<close>: a stable sort on the date.\<close>

definition nigerianPublicHolidays :: "int \<Rightarrow> holiday list" where
  "nigerianPublicHolidays year =
     (let easter = easterSunday year
      in sort_key fst
           [(dayNum year 1 1, ''New Year's Day''),
            (addDays easter (-2), ''Good Friday''),
            (addDays easter 1, ''Easter Monday''),
            (dayNum year 5 1, ''Workers' Day''),
            (dayNum year 6 12, ''Democracy Day''),
            (dayNum year 10 1, ''Independence Day''),
            (dayNum year 12 25, ''Christmas Day''),
            (dayNum year 12 26, ''Boxing Day'')])"

lemma nigerianPublicHolidays_order:
  "nigerianPublicHolidays year =
     (let easter = easterSunday year
      in [(dayNum year 1 1, ''New Year's Day''),
            (addDays easter (-2), ''Good Friday''),
            (addDays easter 1, ''Easter Monday''),
            (dayNum year 5 1, ''Workers' Day''),
            (dayNum year 6 12, ''Democracy Day''),
            (dayNum year 10 1, ''Independence Day''),
            (dayNum year 12 25, ''Christmas Day''),
            (dayNum year 12 26, ''Boxing Day'')])"
  using easterN_bounds [of year]
  by (simp add: nigerianPublicHolidays_def Let_def easterSunday_offset addDays_def dayNum_def cumDays_def)

text \<open>
  For every year the computed Easter day is a Sunday between 22 March and 25 April, and
  the holiday list built from it is in date order, without duplicate dates, and lies within
  the year.
\<close>

theorem nigerian_holidays_correct:
  "dayOfWeek (easterSunday year) = 0
   \<and> dayNum year 3 22 \<le> easterSunday year \<and> easterSunday year \<le> dayNum year 4 25
   \<and> sorted_wrt (<) (map fst (nigerianPublicHolidays year))
   \<and> (\<forall>h \<in> set (nigerianPublicHolidays year). yearOf (fst h) = year)"
proof -
  have e: "114 \<le> easterN year" "easterN year \<le> 148" using easterN_bounds by simp_all
  have s: "sorted_wrt (<) (map fst (nigerianPublicHolidays year))"
    using e by (simp add: nigerianPublicHolidays_order Let_def easterSunday_offset addDays_def dayNum_def cumDays_def)
  have "yearOf (fst h) = year" if h: "h \<in> set (nigerianPublicHolidays year)" for h
  proof (rule yearOf_unique)
    show "yearStart year \<le> fst h"
      using h e by (auto simp: nigerianPublicHolidays_order Let_def easterSunday_offset addDays_def dayNum_def cumDays_def)
    show "fst h < yearStart year + yearLen year"
      using h e by (auto simp: nigerianPublicHolidays_order Let_def easterSunday_offset addDays_def dayNum_def cumDays_def yearLen_def)
  qed
  then show ?thesis
    using e s easter_is_sunday [of year]
    by (simp add: easterSunday_offset dayNum_def cumDays_def)
qed

theorem nigerian_holidays_correct_witness:
  "dayOfWeek (easterSunday 2026) = 0 \<and> easterSunday 2026 = dayNum 2026 4 5"
  using nigerian_holidays_correct [of 2026] by (simp add: easterSunday_def easterN_def easterM_def easterL_def easterH_def Let_def)

end
