(* ===== verification/Bits.thy ===== *)
theory Bits
  imports Prelude
begin

text \<open>
  Bits of words, most significant first, and the conversion of a byte string to digits of
  \<open>k\<close> bits and back. Base32 (\<open>Totp\<close>) refines it with the 32-bit shifts the code uses; base64url
  (\<open>Secrets\<close>) is it for six bits.
\<close>

unbundle bit_operations_syntax

type_synonym byte = "8 word"

named_theorems bits_simps \<open>bits of shifted and masked words\<close>

primrec bitsOf :: "nat \<Rightarrow> 'a::len word \<Rightarrow> bool list" where
  "bitsOf 0 w = []"
| "bitsOf (Suc n) w = bit w n # bitsOf n w"

primrec wordOf :: "bool list \<Rightarrow> 'a::len word" where
  "wordOf [] = 0"
| "wordOf (b # bs) = (if b then push_bit (length bs) 1 else 0) OR wordOf bs"

lemma length_bitsOf [simp]: "length (bitsOf n w) = n"
  by (induction n) auto

lemma bitsOf_cong: "(\<And>i. i < n \<Longrightarrow> bit v i = bit w i) \<Longrightarrow> bitsOf n v = bitsOf n w"
  by (induction n) auto

lemma bitsOf_add: "bitsOf (m + n) w = bitsOf m (drop_bit n w) @ bitsOf n w"
  by (induction m) (auto simp: bit_drop_bit_eq add.commute)

lemma bitsOf_eqD: "bitsOf n v = bitsOf n w \<Longrightarrow> i < n \<Longrightarrow> bit v i = bit w i"
  by (induction n) (auto simp: less_Suc_eq)

lemma bitsOf_inj: "bitsOf LENGTH('a) v = bitsOf LENGTH('a) w \<Longrightarrow> v = (w :: 'a::len word)"
  by (rule bit_word_eqI) (auto dest: bitsOf_eqD)

lemma bit_wordOf: "bit (wordOf bs :: 'a::len word) i \<longleftrightarrow> i < LENGTH('a) \<and> i < length bs \<and> bs ! (length bs - 1 - i)"
proof (induction bs)
  case (Cons b bs)
  show ?case
  proof (cases "i = length bs")
    case True
    then show ?thesis using Cons by (auto simp: bit_or_iff bit_exp_iff)
  next
    case False
    then have "(b # bs) ! (length bs - i) = bs ! (length bs - 1 - i)" if "i < length bs"
      using that by (simp add: nth_Cons split: nat.splits) (metis Suc_diff_Suc diff_Suc_1 diff_Suc_eq_diff_pred)
    then show ?thesis using False Cons by (auto simp: bit_or_iff bit_exp_iff)
  qed
qed simp

lemma nth_bitsOf: "i < n \<Longrightarrow> bitsOf n w ! i = bit w (n - 1 - i)"
  by (induction n arbitrary: i) (auto simp: nth_Cons split: nat.splits)

lemma wordOf_bitsOf: "wordOf (bitsOf LENGTH('a) w) = (w :: 'a::len word)"
  by (rule bit_word_eqI) (auto simp: bit_wordOf nth_bitsOf)

lemma bitsOf_wordOf: "length bs \<le> LENGTH('a) \<Longrightarrow> bitsOf (length bs) (wordOf bs :: 'a::len word) = bs"
  by (rule nth_equalityI) (auto simp: nth_bitsOf bit_wordOf)

lemma bits_shift_byte [bits_simps]:
  assumes "n \<le> 24"
  shows "bitsOf (n + 8) (push_bit 8 v OR ucast (b :: byte) :: 32 word) = bitsOf n v @ bitsOf 8 b"
proof -
  have "bitsOf n (drop_bit 8 (push_bit 8 v OR ucast b :: 32 word)) = bitsOf n v"
    by (rule bitsOf_cong) (use assms in \<open>auto simp: bit_drop_bit_eq bit_or_iff bit_push_bit_iff bit_ucast_iff dest: bit_imp_le_length\<close>)
  moreover have "bitsOf 8 (push_bit 8 v OR ucast b :: 32 word) = bitsOf 8 b"
    by (rule bitsOf_cong) (auto simp: bit_or_iff bit_push_bit_iff bit_ucast_iff)
  ultimately show ?thesis by (simp only: bitsOf_add)
qed

section \<open>Digits\<close>

text \<open>Cut into groups of \<open>k\<close> bits, the last one filled with zeros.\<close>

function groups :: "nat \<Rightarrow> bool list \<Rightarrow> bool list list" where
  "groups k bs = (if k = 0 \<or> bs = [] then []
     else if length bs < k then [bs @ replicate (k - length bs) False]
     else take k bs # groups k (drop k bs))"
  by auto
termination by (relation "measure (\<lambda>(k, bs). length bs)") auto

declare groups.simps [simp del]

text \<open>Cut into whole bytes, a rest of fewer than eight bits is dropped.\<close>

function bytesOf :: "bool list \<Rightarrow> byte list" where
  "bytesOf bs = (if length bs < 8 then [] else wordOf (take 8 bs) # bytesOf (drop 8 bs))"
  by auto
termination by (relation "measure length") auto

declare bytesOf.simps [simp del]

definition bitsOfBytes :: "byte list \<Rightarrow> bool list" where
  "bitsOfBytes bs = List.concat (List.map (bitsOf 8) bs)"

lemma bitsOfBytes_simps [simp]:
  "bitsOfBytes [] = []"
  "bitsOfBytes (b # bs) = bitsOf 8 b @ bitsOfBytes bs"
  "bitsOfBytes (xs @ ys) = bitsOfBytes xs @ bitsOfBytes ys"
  by (simp_all add: bitsOfBytes_def)

lemma length_bitsOfBytes [simp]: "length (bitsOfBytes bs) = 8 * length bs"
  by (induction bs) auto

lemma bytesOf_bits: "length r < 8 \<Longrightarrow> bytesOf (bitsOfBytes bs @ r) = bs"
proof (induction bs)
  case Nil
  then show ?case by (simp add: bytesOf.simps)
next
  case (Cons b bs)
  have "wordOf (bitsOf 8 b) = b" using wordOf_bitsOf [of b] by simp
  then show ?case using Cons by (subst bytesOf.simps) simp
qed

lemma concat_groups: "0 < k \<Longrightarrow> \<exists>r. length r < k \<and> List.concat (groups k bs) = bs @ r"
proof (induction k bs rule: groups.induct)
  case (1 k bs)
  show ?case
  proof (cases "bs = []")
    case True
    then show ?thesis using 1(2) by (intro exI [of _ "[]"]) (simp add: groups.simps)
  next
    case ne: False
    show ?thesis
    proof (cases "length bs < k")
      case True
      then show ?thesis using ne 1(2)
        by (intro exI [of _ "replicate (k - length bs) False"]) (auto simp: groups.simps)
    next
      case False
      then obtain r where "length r < k" "List.concat (groups k (drop k bs)) = drop k bs @ r"
        using 1 ne by auto
      then show ?thesis using ne False 1(2) by (intro exI [of _ r]) (subst groups.simps, simp)
    qed
  qed
qed

text \<open>The round trip of any digit size up to eight bits.\<close>

lemma digits_roundtrip:
  assumes "0 < k" "k \<le> 8"
  shows "bytesOf (List.concat (groups k (bitsOfBytes bs))) = bs"
proof -
  obtain r where "length r < k" "List.concat (groups k (bitsOfBytes bs)) = bitsOfBytes bs @ r"
    using concat_groups [OF assms(1)] by blast
  then show ?thesis using bytesOf_bits [of r bs] assms(2) by simp
qed

lemma groups_append: "length xs = k \<Longrightarrow> 0 < k \<Longrightarrow> groups k (xs @ ys) = xs # groups k ys"
  by (subst groups.simps) auto

lemma groups_concat:
  "\<forall>x\<in>set xss. length x = k \<Longrightarrow> 0 < k \<Longrightarrow> groups k (List.concat xss @ ys) = xss @ groups k ys"
  by (induction xss) (auto simp: groups_append)

lemma groups_length: "x \<in> set (groups k bs) \<Longrightarrow> length x = k"
proof (induction k bs rule: groups.induct)
  case (1 k bs)
  show ?case
    using 1(2) 1(1) groups.simps [of k bs] by (auto split: if_splits)
qed

end
