(* ===== verification/Rbac.thy ===== *)
theory Rbac
  imports Prelude "HOL-Library.Char_ord" "HOL-Library.List_Lexorder"
begin

text \<open>
  Users, roles and permissions (\<open>src/modules/rbac\<close>, \<open>src/modules/users\<close>): the permission
  catalogue and the seeded roles, the login record, the role service with the auth context
  it caches in Redis, and the permissions guard. The state is a record that the auth and
  employee theories extend. Cached contexts live in \<open>ctxCache\<close> with their expiry in
  milliseconds; the main invariant is that every cached context equals the one the tables
  give.
\<close>

section \<open>The permission catalogue\<close>

datatype permission =
    USER_READ
  | USER_INVITE
  | USER_UPDATE
  | USER_MANAGE_ROLES
  | USER_SUSPEND
  | ROLE_READ
  | ROLE_MANAGE
  | NOTIFICATION_READ_LOG
  | NOTIFICATION_SEND_TEST
  | AUDIT_READ
  | PRIVACY_MANAGE
  | EMPLOYEE_READ_SELF
  | EMPLOYEE_READ_DIRECTORY
  | EMPLOYEE_READ
  | EMPLOYEE_CREATE
  | EMPLOYEE_UPDATE
  | EMPLOYEE_DELETE
  | DEPARTMENT_READ
  | DEPARTMENT_MANAGE
  | ONBOARDING_READ
  | ONBOARDING_MANAGE
  | LEAVE_READ_SELF
  | LEAVE_REQUEST
  | LEAVE_READ_TEAM
  | LEAVE_APPROVE
  | LEAVE_READ_ALL
  | LEAVE_MANAGE_POLICY
  | ATTENDANCE_CLOCK
  | ATTENDANCE_READ_TEAM
  | ATTENDANCE_MANAGE
  | DOCUMENT_READ_SELF
  | DOCUMENT_UPLOAD
  | DOCUMENT_READ_ALL
  | DOCUMENT_MANAGE
  | REVIEW_READ_SELF
  | REVIEW_WRITE_TEAM
  | REVIEW_MANAGE_CYCLES
  | PAYROLL_READ_SELF
  | PAYROLL_MANAGE
  | AI_CHAT
  | AI_MANAGE_KNOWLEDGE_BASE
  | AI_READ_USAGE
  | RECRUITING_READ
  | RECRUITING_MANAGE
  | RECRUITING_SCREEN

definition ALL_PERMISSIONS :: "permission list" where
  "ALL_PERMISSIONS =
     [USER_READ, USER_INVITE, USER_UPDATE, USER_MANAGE_ROLES, USER_SUSPEND, ROLE_READ,
      ROLE_MANAGE, NOTIFICATION_READ_LOG, NOTIFICATION_SEND_TEST, AUDIT_READ,
      PRIVACY_MANAGE, EMPLOYEE_READ_SELF, EMPLOYEE_READ_DIRECTORY, EMPLOYEE_READ,
      EMPLOYEE_CREATE, EMPLOYEE_UPDATE, EMPLOYEE_DELETE, DEPARTMENT_READ,
      DEPARTMENT_MANAGE, ONBOARDING_READ, ONBOARDING_MANAGE, LEAVE_READ_SELF,
      LEAVE_REQUEST, LEAVE_READ_TEAM, LEAVE_APPROVE, LEAVE_READ_ALL,
      LEAVE_MANAGE_POLICY, ATTENDANCE_CLOCK, ATTENDANCE_READ_TEAM, ATTENDANCE_MANAGE,
      DOCUMENT_READ_SELF, DOCUMENT_UPLOAD, DOCUMENT_READ_ALL, DOCUMENT_MANAGE,
      REVIEW_READ_SELF, REVIEW_WRITE_TEAM, REVIEW_MANAGE_CYCLES, PAYROLL_READ_SELF,
      PAYROLL_MANAGE, AI_CHAT, AI_MANAGE_KNOWLEDGE_BASE, AI_READ_USAGE,
      RECRUITING_READ, RECRUITING_MANAGE, RECRUITING_SCREEN]"

text \<open>The wire names of the catalogue.\<close>

fun permName :: "permission \<Rightarrow> string" where
  "permName USER_READ = ''user:read''"
| "permName USER_INVITE = ''user:invite''"
| "permName USER_UPDATE = ''user:update''"
| "permName USER_MANAGE_ROLES = ''user:manage_roles''"
| "permName USER_SUSPEND = ''user:suspend''"
| "permName ROLE_READ = ''role:read''"
| "permName ROLE_MANAGE = ''role:manage''"
| "permName NOTIFICATION_READ_LOG = ''notification:read_log''"
| "permName NOTIFICATION_SEND_TEST = ''notification:send_test''"
| "permName AUDIT_READ = ''audit:read''"
| "permName PRIVACY_MANAGE = ''privacy:manage''"
| "permName EMPLOYEE_READ_SELF = ''employee:read_self''"
| "permName EMPLOYEE_READ_DIRECTORY = ''employee:read_directory''"
| "permName EMPLOYEE_READ = ''employee:read''"
| "permName EMPLOYEE_CREATE = ''employee:create''"
| "permName EMPLOYEE_UPDATE = ''employee:update''"
| "permName EMPLOYEE_DELETE = ''employee:delete''"
| "permName DEPARTMENT_READ = ''department:read''"
| "permName DEPARTMENT_MANAGE = ''department:manage''"
| "permName ONBOARDING_READ = ''onboarding:read''"
| "permName ONBOARDING_MANAGE = ''onboarding:manage''"
| "permName LEAVE_READ_SELF = ''leave:read_self''"
| "permName LEAVE_REQUEST = ''leave:request''"
| "permName LEAVE_READ_TEAM = ''leave:read_team''"
| "permName LEAVE_APPROVE = ''leave:approve''"
| "permName LEAVE_READ_ALL = ''leave:read_all''"
| "permName LEAVE_MANAGE_POLICY = ''leave:manage_policy''"
| "permName ATTENDANCE_CLOCK = ''attendance:clock''"
| "permName ATTENDANCE_READ_TEAM = ''attendance:read_team''"
| "permName ATTENDANCE_MANAGE = ''attendance:manage''"
| "permName DOCUMENT_READ_SELF = ''document:read_self''"
| "permName DOCUMENT_UPLOAD = ''document:upload''"
| "permName DOCUMENT_READ_ALL = ''document:read_all''"
| "permName DOCUMENT_MANAGE = ''document:manage''"
| "permName REVIEW_READ_SELF = ''review:read_self''"
| "permName REVIEW_WRITE_TEAM = ''review:write_team''"
| "permName REVIEW_MANAGE_CYCLES = ''review:manage_cycles''"
| "permName PAYROLL_READ_SELF = ''payroll:read_self''"
| "permName PAYROLL_MANAGE = ''payroll:manage''"
| "permName AI_CHAT = ''ai:chat''"
| "permName AI_MANAGE_KNOWLEDGE_BASE = ''ai:manage_knowledge_base''"
| "permName AI_READ_USAGE = ''ai:read_usage''"
| "permName RECRUITING_READ = ''recruiting:read''"
| "permName RECRUITING_MANAGE = ''recruiting:manage''"
| "permName RECRUITING_SCREEN = ''recruiting:screen''"

definition EMPLOYEE_PERMISSIONS :: "permission list" where
  "EMPLOYEE_PERMISSIONS =
     [EMPLOYEE_READ_SELF, EMPLOYEE_READ_DIRECTORY, DEPARTMENT_READ, LEAVE_READ_SELF,
      LEAVE_REQUEST, ATTENDANCE_CLOCK, DOCUMENT_READ_SELF, DOCUMENT_UPLOAD,
      REVIEW_READ_SELF, PAYROLL_READ_SELF, AI_CHAT]"

definition MANAGER_PERMISSIONS :: "permission list" where
  "MANAGER_PERMISSIONS =
     EMPLOYEE_PERMISSIONS @
     [LEAVE_READ_TEAM, LEAVE_APPROVE, ATTENDANCE_READ_TEAM, REVIEW_WRITE_TEAM]"

definition HR_MANAGER_PERMISSIONS :: "permission list" where
  "HR_MANAGER_PERMISSIONS =
     MANAGER_PERMISSIONS @
     [USER_READ, USER_INVITE, USER_UPDATE, USER_SUSPEND, ROLE_READ,
      NOTIFICATION_READ_LOG, EMPLOYEE_READ, EMPLOYEE_CREATE, EMPLOYEE_UPDATE,
      EMPLOYEE_DELETE, DEPARTMENT_MANAGE, ONBOARDING_READ, ONBOARDING_MANAGE,
      LEAVE_READ_ALL, LEAVE_MANAGE_POLICY, ATTENDANCE_MANAGE, DOCUMENT_READ_ALL,
      DOCUMENT_MANAGE, REVIEW_MANAGE_CYCLES, PAYROLL_MANAGE, AI_MANAGE_KNOWLEDGE_BASE,
      AI_READ_USAGE, PRIVACY_MANAGE, RECRUITING_READ]"

definition RECRUITER_PERMISSIONS :: "permission list" where
  "RECRUITER_PERMISSIONS =
     EMPLOYEE_PERMISSIONS @
     [RECRUITING_READ, RECRUITING_MANAGE, RECRUITING_SCREEN]"

text \<open>
  \<open>SYSTEM_ROLE_DEFINITIONS\<close>: name, description and permissions of the seeded roles;
  \<open>dedupe\<close> keeps the first occurrence of each permission.
\<close>

fun dedupe :: "permission list \<Rightarrow> permission list" where
  "dedupe [] = []"
| "dedupe (p # ps) = p # List.filter (\<lambda>q. q \<noteq> p) (dedupe ps)"

definition SYSTEM_ROLE_DEFINITIONS :: "(string \<times> string \<times> permission list) list" where
  "SYSTEM_ROLE_DEFINITIONS =
     [(''ADMIN'', ''Full access to every feature and setting'', ALL_PERMISSIONS),
      (''HR_MANAGER'', ''Runs HR operations: people, leave, documents, reviews, payroll'',
        dedupe HR_MANAGER_PERMISSIONS),
      (''MANAGER'', ''Line manager for a team: approves leave, writes reviews'',
        dedupe MANAGER_PERMISSIONS),
      (''EMPLOYEE'', ''Standard employee self-service'', dedupe EMPLOYEE_PERMISSIONS),
      (''RECRUITER'', ''Manages job openings and candidate screening'',
        dedupe RECRUITER_PERMISSIONS)]"

definition rolePermissions :: "string \<Rightarrow> permission list" where
  "rolePermissions n = (case map_of SYSTEM_ROLE_DEFINITIONS n of None \<Rightarrow> [] | Some (_, ps) \<Rightarrow> ps)"

section \<open>Rows and state\<close>

datatype user_status = INVITED | ACTIVE | SUSPENDED

text \<open>The entity \<open>User\<close>. Instants are milliseconds since the epoch.\<close>

record user =
  u_email :: string
  u_passwordHash :: "string option"
  u_firstName :: string
  u_lastName :: string
  u_status :: user_status
  u_lastLoginAt :: "int option"
  u_passwordChangedAt :: "int option"
  u_mfaEnabled :: bool
  u_mfaSecret :: "string option"
  u_mfaLastStep :: "int option"
  u_mfaRecoveryCodes :: "string list"
  u_failedLoginAttempts :: nat
  u_lockedUntil :: "int option"
  u_roles :: "id list"
  u_deletedAt :: "int option"

record role =
  r_name :: string
  r_description :: "string option"
  r_isSystem :: bool
  r_permissions :: "permission list"

text \<open>\<open>AuthUser\<close>: what a request carries after the guard.\<close>

record auth_user =
  au_id :: id
  au_email :: string
  au_status :: user_status
  au_roles :: "string list"
  au_permissions :: "permission list"
  au_passwordChangedAt :: "int option"
  au_mfaEnabled :: bool

record rbac_state =
  usersT :: "user table"
  rolesT :: "role table"
  permsT :: "permission list"
  ctxCache :: "(id, auth_user) redis"

text \<open>Emails are a \<open>citext\<close> column: compared without regard to case.\<close>

definition lowerChar :: "char \<Rightarrow> char" where
  "lowerChar c = (let n = (of_char c :: nat) in
     if 65 \<le> n \<and> n \<le> 90 then char_of (n + 32) else c)"

definition citext :: "string \<Rightarrow> string" where
  "citext e = List.map lowerChar e"

text \<open>Soft-deleted rows are invisible to \<open>find\<close>, unless asked for with \<open>withDeleted\<close>.\<close>

definition findUser :: "'a rbac_state_scheme \<Rightarrow> id \<Rightarrow> user option" where
  "findUser s k = (case lookup (usersT s) k of None \<Rightarrow> None
     | Some u \<Rightarrow> if u_deletedAt u = None then Some u else None)"

definition findByEmail :: "'a rbac_state_scheme \<Rightarrow> string \<Rightarrow> (id \<times> user) option" where
  "findByEmail s e = List.find (\<lambda>(k, u). citext (u_email u) = citext e \<and> u_deletedAt u = None) (usersT s)"

definition emailTaken :: "'a rbac_state_scheme \<Rightarrow> string \<Rightarrow> bool" where
  "emailTaken s e = list_ex (\<lambda>u. citext (u_email u) = citext e) (rows (usersT s))"

definition saveUser :: "id \<Rightarrow> user \<Rightarrow> 'a rbac_state_scheme \<Rightarrow> 'a rbac_state_scheme" where
  "saveUser k u s = s\<lparr>usersT := updateRow k (\<lambda>_. u) (usersT s)\<rparr>"

section \<open>The auth context\<close>

definition AUTH_CONTEXT_TTL_SECONDS :: int where
  "AUTH_CONTEXT_TTL_SECONDS = 300"

definition rolesOf :: "'a rbac_state_scheme \<Rightarrow> user \<Rightarrow> role list" where
  "rolesOf s u = List.map snd (List.filter (\<lambda>(k, r). k \<in> set (u_roles u)) (rolesT s))"

definition mkAuthUser :: "'a rbac_state_scheme \<Rightarrow> id \<Rightarrow> user \<Rightarrow> auth_user" where
  "mkAuthUser s k u =
     \<lparr>au_id = k, au_email = u_email u, au_status = u_status u,
      au_roles = sort (List.map r_name (rolesOf s u)),
      au_permissions =
        sort_key permName (remdups (List.concat (List.map r_permissions (rolesOf s u)))),
      au_passwordChangedAt = map_option (\<lambda>t. t div 1000) (u_passwordChangedAt u),
      au_mfaEnabled = u_mfaEnabled u\<rparr>"

text \<open>What the tables say now, with no cache: the specification of \<open>getAuthUser\<close>.\<close>

definition authContext :: "'a rbac_state_scheme \<Rightarrow> id \<Rightarrow> auth_user option" where
  "authContext s k = map_option (mkAuthUser s k) (findUser s k)"

definition getAuthUser ::
  "int \<Rightarrow> id \<Rightarrow> 'a rbac_state_scheme \<Rightarrow> auth_user option \<times> 'a rbac_state_scheme" where
  "getAuthUser now k s =
     (case redisGet now (ctxCache s) k of
        Some a \<Rightarrow> (Some a, s)
      | None \<Rightarrow>
          (case findUser s k of
             None \<Rightarrow> (None, s)
           | Some u \<Rightarrow> let a = mkAuthUser s k u in
               (Some a, s\<lparr>ctxCache := redisSetEx now k a AUTH_CONTEXT_TTL_SECONDS (ctxCache s)\<rparr>)))"

definition invalidateAuthUser :: "id \<Rightarrow> 'a rbac_state_scheme \<Rightarrow> 'a rbac_state_scheme" where
  "invalidateAuthUser k s = s\<lparr>ctxCache := redisDel k (ctxCache s)\<rparr>"

text \<open>The query builder leaves soft-deleted users out of the holders.\<close>

definition roleHolders :: "'a rbac_state_scheme \<Rightarrow> id \<Rightarrow> id list" where
  "roleHolders s rid =
     List.map fst (List.filter (\<lambda>(k, u). u_deletedAt u = None \<and> rid \<in> set (u_roles u)) (usersT s))"

definition invalidateRoleHolders :: "id \<Rightarrow> 'a rbac_state_scheme \<Rightarrow> 'a rbac_state_scheme" where
  "invalidateRoleHolders rid s =
     s\<lparr>ctxCache := (\<lambda>k. if k \<in> set (roleHolders s rid) then None else ctxCache s k)\<rparr>"

section \<open>Role management\<close>

definition findRoleById :: "'a rbac_state_scheme \<Rightarrow> id \<Rightarrow> role res" where
  "findRoleById s rid = orThrow (lookup (rolesT s) rid) (NotFound ''Role not found'') Inr"

definition findRolesByNames :: "'a rbac_state_scheme \<Rightarrow> string list \<Rightarrow> id list res" where
  "findRolesByNames s names =
     (if names = [] then Inr []
      else let found = List.filter (\<lambda>(k, r). r_name r \<in> set names) (rolesT s)
           in throwIf (List.filter (\<lambda>n. n \<notin> r_name ` snd ` set found) names \<noteq> [])
                (BadRequest ''Unknown role(s)'')
                (Inr (List.map fst found)))"

definition resolvePermissions :: "'a rbac_state_scheme \<Rightarrow> string list \<Rightarrow> permission list res" where
  "resolvePermissions s names =
     throwIf (List.filter (\<lambda>n. n \<notin> permName ` set ALL_PERMISSIONS) names \<noteq> [])
       (BadRequest ''Unknown permission(s)'')
       (Inr (if names = [] then []
             else List.filter (\<lambda>p. permName p \<in> set names) (permsT s)))"

definition createRole ::
  "id \<Rightarrow> string \<Rightarrow> string option \<Rightarrow> string list \<Rightarrow> 'a rbac_state_scheme \<Rightarrow> 'a rbac_state_scheme res" where
  "createRole rid name description perms s =
     bindE (resolvePermissions s perms) (\<lambda>ps.
     throwIf (list_ex (\<lambda>r. r_name r = name) (rows (rolesT s))) (Conflict ''Resource already exists'')
     (Inr (s\<lparr>rolesT := insertRow rid
        \<lparr>r_name = name, r_description = description, r_isSystem = False, r_permissions = ps\<rparr>
        (rolesT s)\<rparr>)))"

definition updateRole ::
  "id \<Rightarrow> string option \<Rightarrow> string list option \<Rightarrow> 'a rbac_state_scheme \<Rightarrow> 'a rbac_state_scheme res" where
  "updateRole rid description perms s =
     bindE (findRoleById s rid) (\<lambda>r.
     let r1 = (case description of None \<Rightarrow> r | Some d \<Rightarrow> r\<lparr>r_description := Some d\<rparr>) in
     bindE (case perms of None \<Rightarrow> Inr r1
            | Some ns \<Rightarrow> bindE (resolvePermissions s ns) (\<lambda>ps. Inr (r1\<lparr>r_permissions := ps\<rparr>)))
     (\<lambda>r2. Inr (invalidateRoleHolders rid (s\<lparr>rolesT := updateRow rid (\<lambda>_. r2) (rolesT s)\<rparr>))))"

text \<open>
  Removing a role cascades to the rows of \<open>user_roles\<close>. The method drops the cached
  contexts first and removes the row afterwards; \<open>removeRole\<close> is the second half.
\<close>

definition removeRole :: "id \<Rightarrow> 'a rbac_state_scheme \<Rightarrow> 'a rbac_state_scheme" where
  "removeRole rid s =
     s\<lparr>rolesT := deleteRow rid (rolesT s),
       usersT := updateWhere (\<lambda>_. True)
         (\<lambda>u. u\<lparr>u_roles := List.filter (\<lambda>k. k \<noteq> rid) (u_roles u)\<rparr>) (usersT s)\<rparr>"

definition deleteRole :: "id \<Rightarrow> 'a rbac_state_scheme \<Rightarrow> 'a rbac_state_scheme res" where
  "deleteRole rid s =
     bindE (findRoleById s rid) (\<lambda>r.
     throwIf (r_isSystem r) (BadRequest ''System roles cannot be deleted'')
     (Inr (removeRole rid (invalidateRoleHolders rid s))))"

section \<open>Users\<close>

definition findById :: "'a rbac_state_scheme \<Rightarrow> id \<Rightarrow> user res" where
  "findById s k = orThrow (findUser s k) (NotFound ''User not found'') Inr"

definition invitedUser :: "string \<Rightarrow> string \<Rightarrow> string \<Rightarrow> id list \<Rightarrow> user" where
  "invitedUser email firstN lastN rs =
     \<lparr>u_email = email, u_passwordHash = None, u_firstName = firstN, u_lastName = lastN,
      u_status = INVITED, u_lastLoginAt = None, u_passwordChangedAt = None,
      u_mfaEnabled = False, u_mfaSecret = None, u_mfaLastStep = None,
      u_mfaRecoveryCodes = [], u_failedLoginAttempts = 0, u_lockedUntil = None,
      u_roles = rs, u_deletedAt = None\<rparr>"

definition createInvited ::
  "id \<Rightarrow> string \<Rightarrow> string \<Rightarrow> string \<Rightarrow> string list \<Rightarrow> 'a rbac_state_scheme \<Rightarrow> 'a rbac_state_scheme res" where
  "createInvited k email firstN lastN roleNames s =
     throwIf (emailTaken s email) (Conflict ''A user with this email already exists'')
     (bindE (findRolesByNames s roleNames) (\<lambda>rs.
      Inr (s\<lparr>usersT := insertRow k (invitedUser email firstN lastN rs) (usersT s)\<rparr>)))"

definition updateProfile ::
  "id \<Rightarrow> string option \<Rightarrow> string option \<Rightarrow> 'a rbac_state_scheme \<Rightarrow> 'a rbac_state_scheme res" where
  "updateProfile k firstN lastN s =
     bindE (findById s k) (\<lambda>u.
     let u1 = (case firstN of None \<Rightarrow> u | Some f \<Rightarrow> u\<lparr>u_firstName := f\<rparr>);
         u2 = (case lastN of None \<Rightarrow> u1 | Some l \<Rightarrow> u1\<lparr>u_lastName := l\<rparr>)
     in Inr (saveUser k u2 s))"

definition setRoles :: "id \<Rightarrow> string list \<Rightarrow> 'a rbac_state_scheme \<Rightarrow> 'a rbac_state_scheme res" where
  "setRoles k roleNames s =
     bindE (findById s k) (\<lambda>u.
     bindE (findRolesByNames s roleNames) (\<lambda>rs.
     Inr (invalidateAuthUser k (saveUser k (u\<lparr>u_roles := rs\<rparr>) s))))"

definition setStatus ::
  "id \<Rightarrow> user_status \<Rightarrow> id \<Rightarrow> 'a rbac_state_scheme \<Rightarrow> 'a rbac_state_scheme res" where
  "setStatus k status actorId s =
     throwIf (k = actorId) (BadRequest ''You cannot change your own status'')
     (bindE (findById s k) (\<lambda>u.
      throwIf (u_status u = INVITED \<and> status = ACTIVE)
        (BadRequest ''User must accept their invite to become active'')
      (Inr (invalidateAuthUser k (saveUser k (u\<lparr>u_status := status\<rparr>) s)))))"

text \<open>
  The \<open>UPDATE ... RETURNING\<close> of \<open>recordFailedLogin\<close>: one atomic statement on the row, whose
  result is the expiry of the lock when this attempt triggered it.
\<close>

definition bumpFailed :: "int \<Rightarrow> nat \<Rightarrow> int \<Rightarrow> user \<Rightarrow> user" where
  "bumpFailed now maxAttempts lockMinutes u =
     u\<lparr>u_lockedUntil := (if maxAttempts \<le> u_failedLoginAttempts u + 1
                        then Some (now + lockMinutes * 60000) else u_lockedUntil u),
       u_failedLoginAttempts := (if maxAttempts \<le> u_failedLoginAttempts u + 1
                        then 0 else u_failedLoginAttempts u + 1)\<rparr>"

definition recordFailedLogin ::
  "int \<Rightarrow> id \<Rightarrow> nat \<Rightarrow> int \<Rightarrow> 'a rbac_state_scheme \<Rightarrow> int option \<times> 'a rbac_state_scheme" where
  "recordFailedLogin now k maxAttempts lockMinutes s =
     (let t = updateRow k (bumpFailed now maxAttempts lockMinutes) (usersT s)
      in (case lookup t k of
            None \<Rightarrow> None
          | Some u \<Rightarrow> if u_failedLoginAttempts u = 0 then u_lockedUntil u else None,
          s\<lparr>usersT := t\<rparr>))"

definition unlock :: "id \<Rightarrow> 'a rbac_state_scheme \<Rightarrow> 'a rbac_state_scheme res" where
  "unlock k s =
     bindE (findById s k) (\<lambda>u.
     Inr (saveUser k (u\<lparr>u_failedLoginAttempts := 0, u_lockedUntil := None\<rparr>) s))"

section \<open>The permissions guard\<close>

text \<open>
  Metadata that decorators attach to a handler or a class; \<open>getAllAndOverride\<close> takes the
  first defined value, the handler's before the class's.
\<close>

record route_meta =
  rm_public :: "bool option"
  rm_permissions :: "permission list option"
  rm_anyPermission :: "permission list option"
  rm_allowWithoutMfa :: "bool option"

definition getAllAndOverride :: "(route_meta \<Rightarrow> 'm option) \<Rightarrow> route_meta \<Rightarrow> route_meta \<Rightarrow> 'm option" where
  "getAllAndOverride f h c = (case f h of Some x \<Rightarrow> Some x | None \<Rightarrow> f c)"

definition permissionsGuard :: "route_meta \<Rightarrow> route_meta \<Rightarrow> auth_user option \<Rightarrow> bool res" where
  "permissionsGuard h c requestUser =
     (if getAllAndOverride rm_public h c = Some True then Inr True
      else let required = (case getAllAndOverride rm_permissions h c of None \<Rightarrow> [] | Some ps \<Rightarrow> ps);
               anyOf = (case getAllAndOverride rm_anyPermission h c of None \<Rightarrow> [] | Some ps \<Rightarrow> ps)
           in if required = [] \<and> anyOf = [] then Inr True
              else orThrow requestUser (Forbidden ''Forbidden'') (\<lambda>user.
                throwIf (List.filter (\<lambda>p. p \<notin> set (au_permissions user)) required \<noteq> [])
                  (Forbidden ''Missing permission'')
                (throwIf (anyOf \<noteq> [] \<and> \<not> list_ex (\<lambda>p. p \<in> set (au_permissions user)) anyOf)
                  (Forbidden ''Requires one of'')
                (Inr True))))"

section \<open>Lemmas on the auth context\<close>

named_theorems ctx_simps \<open>the auth context after an update of the tables\<close>

definition cacheCoherent :: "'a rbac_state_scheme \<Rightarrow> bool" where
  "cacheCoherent s = (\<forall>k a e. ctxCache s k = Some (a, e) \<longrightarrow> authContext s k = Some a)"

lemma coherentD: "cacheCoherent s \<Longrightarrow> ctxCache s k = Some (a, e) \<Longrightarrow> authContext s k = Some a"
  unfolding cacheCoherent_def by blast

text \<open>The cases of \<open>getAuthUser\<close>: a live entry, no such user, a context built afresh.\<close>

lemma getAuthUser_cases:
  obtains (hit) a e where "ctxCache s k = Some (a, e)" "getAuthUser now k s = (Some a, s)"
  | (absent) "authContext s k = None" "getAuthUser now k s = (None, s)"
  | (built) a where "authContext s k = Some a" "getAuthUser now k s =
      (Some a, s\<lparr>ctxCache := redisSetEx now k a AUTH_CONTEXT_TTL_SECONDS (ctxCache s)\<rparr>)"
proof (cases "redisGet now (ctxCache s) k")
  case (Some a)
  then show ?thesis using hit redisGet_SomeD [OF Some] by (fastforce simp: getAuthUser_def)
next
  case None
  then show ?thesis using absent built
    by (cases "findUser s k") (simp_all add: getAuthUser_def authContext_def Let_def)
qed

lemma getAuthUser_coherent: "cacheCoherent s \<Longrightarrow> fst (getAuthUser now k s) = authContext s k"
  by (rule getAuthUser_cases [of s k now]) (auto dest: coherentD)

lemma getAuthUser_tables [simp]:
  "usersT (snd (getAuthUser now k s)) = usersT s"
  "rolesT (snd (getAuthUser now k s)) = rolesT s"
  "permsT (snd (getAuthUser now k s)) = permsT s"
  by (auto simp: getAuthUser_def Let_def split: option.splits)

lemma rolesOf_cong: "rolesT s' = rolesT s \<Longrightarrow> u_roles u' = u_roles u \<Longrightarrow> rolesOf s' u' = rolesOf s u"
  by (simp add: rolesOf_def)

lemma mkAuthUser_cong:
  assumes "rolesOf s' u' = rolesOf s u" "u_email u' = u_email u" "u_status u' = u_status u"
    "u_passwordChangedAt u' = u_passwordChangedAt u" "u_mfaEnabled u' = u_mfaEnabled u"
  shows "mkAuthUser s' k u' = mkAuthUser s k u"
  using assms by (simp add: mkAuthUser_def)

lemma authContext_cong:
  assumes "rolesT s' = rolesT s" "lookup (usersT s') k = lookup (usersT s) k"
  shows "authContext s' k = authContext s k"
  using assms by (auto simp: authContext_def findUser_def intro!: mkAuthUser_cong rolesOf_cong split: option.splits)

lemma getAuthUser_keeps_coherent:
  assumes "cacheCoherent s"
  shows "cacheCoherent (snd (getAuthUser now k s))"
proof (rule getAuthUser_cases [of s k now])
  fix a assume a: "authContext s k = Some a" and g: "getAuthUser now k s = (Some a,
      s\<lparr>ctxCache := redisSetEx now k a AUTH_CONTEXT_TTL_SECONDS (ctxCache s)\<rparr>)"
  have "authContext (snd (getAuthUser now k s)) j = authContext s j" for j
    by (rule authContext_cong) simp_all
  then show ?thesis using a assms unfolding g by (auto simp: cacheCoherent_def redisSetEx_def)
qed (use assms in simp_all)

text \<open>
  The two ways an operation keeps the cache coherent: nobody's context changes, or the
  entries of those whose context may change are dropped.
\<close>

lemma coherent_if_dropped:
  assumes "cacheCoherent s"
    and "\<And>k. ctxCache s' k \<noteq> None \<Longrightarrow> ctxCache s' k = ctxCache s k \<and> authContext s' k = authContext s k"
  shows "cacheCoherent s'"
  unfolding cacheCoherent_def
proof (intro allI impI)
  fix k a e assume h: "ctxCache s' k = Some (a, e)"
  then have "ctxCache s k = Some (a, e)" "authContext s' k = authContext s k"
    using assms(2) [of k] by simp_all
  with assms(1) show "authContext s' k = Some a" by (simp add: cacheCoherent_def)
qed

lemma coherent_saveUser:
  assumes "cacheCoherent s"
  shows "cacheCoherent (invalidateAuthUser k (saveUser k u s))"
proof (rule coherent_if_dropped [OF assms])
  fix j assume "ctxCache (invalidateAuthUser k (saveUser k u s)) j \<noteq> None"
  then have "j \<noteq> k" by (auto simp: invalidateAuthUser_def redisDel_def)
  then show "ctxCache (invalidateAuthUser k (saveUser k u s)) j = ctxCache s j \<and>
      authContext (invalidateAuthUser k (saveUser k u s)) j = authContext s j"
    by (auto simp: invalidateAuthUser_def redisDel_def saveUser_def tbl_simps intro!: authContext_cong)
qed

text \<open>Fields the context does not read may change without dropping anything.\<close>

definition sameContext :: "user \<Rightarrow> user \<Rightarrow> bool" where
  "sameContext u v \<longleftrightarrow> u_email v = u_email u \<and> u_status v = u_status u \<and>
     u_passwordChangedAt v = u_passwordChangedAt u \<and> u_mfaEnabled v = u_mfaEnabled u \<and>
     u_roles v = u_roles u \<and> u_deletedAt v = u_deletedAt u"

lemma authContext_sameContext:
  assumes "lookup (usersT s) k = Some u" "sameContext u v"
    "usersT s' = updateRow k (\<lambda>_. v) (usersT s)" "rolesT s' = rolesT s"
  shows "authContext s' j = authContext s j"
proof (cases "j = k")
  case True
  have "mkAuthUser s' k v = mkAuthUser s k u"
    using assms by (intro mkAuthUser_cong rolesOf_cong) (simp_all add: sameContext_def)
  then show ?thesis using True assms
    by (simp add: authContext_def findUser_def tbl_simps sameContext_def)
next
  case False
  then show ?thesis using assms by (intro authContext_cong) (simp_all add: tbl_simps)
qed

lemma coherent_sameContext:
  assumes "cacheCoherent s" "lookup (usersT s) k = Some u" "sameContext u v"
    "usersT s' = updateRow k (\<lambda>_. v) (usersT s)" "rolesT s' = rolesT s" "ctxCache s' = ctxCache s"
  shows "cacheCoherent s'"
  using coherent_if_dropped [OF assms(1), of s'] authContext_sameContext [OF assms(2-5)] assms(6)
  by simp

lemma updateRow_const: "lookup t k = Some u \<Longrightarrow> keyed t \<Longrightarrow> updateRow k f t = updateRow k (\<lambda>_. f u) t"
proof (unfold updateRow_def, rule list.map_cong0, clarsimp)
  fix r assume "lookup t k = Some u" "keyed t" "(k, r) \<in> set t"
  then show "f r = f u" using keyed_lookup by fastforce
qed

lemma findUser_SomeD: "findUser s k = Some u \<Longrightarrow> lookup (usersT s) k = Some u \<and> u_deletedAt u = None"
  by (auto simp: findUser_def split: option.splits if_splits)

section \<open>The invariant of the tables\<close>

definition rbacInv :: "'a rbac_state_scheme \<Rightarrow> bool" where
  "rbacInv s \<longleftrightarrow>
     keyed (usersT s) \<and> keyed (rolesT s) \<and>
     distinct (List.map r_name (rows (rolesT s))) \<and>
     distinct (List.map (\<lambda>u. citext (u_email u)) (rows (usersT s))) \<and>
     (\<forall>u\<in>set (rows (usersT s)). set (u_roles u) \<subseteq> set (keys (rolesT s))) \<and>
     cacheCoherent s"

lemma rows_updateRow_in:
  "r \<in> set (rows (updateRow k f t)) \<Longrightarrow> r \<in> set (rows t) \<or> (\<exists>r0. (k, r0) \<in> set t \<and> r = f r0)"
  by (fastforce simp: rows_def updateRow_def split: if_splits)

lemma map_rows_updateRow:
  assumes "\<And>r. (k, r) \<in> set t \<Longrightarrow> g (f r) = g r"
  shows "List.map g (rows (updateRow k f t)) = List.map g (rows t)"
  using assms by (induction t) (auto simp: rows_def updateRow_def)

text \<open>One lemma carries the methods that save one user row.\<close>

lemma rbacInv_user_row:
  assumes i: "rbacInv s" and l: "lookup (usersT s) k = Some u"
    and e: "citext (u_email v) = citext (u_email u)"
    and r: "set (u_roles v) \<subseteq> set (keys (rolesT s))"
    and t: "usersT s' = updateRow k (\<lambda>_. v) (usersT s)" "rolesT s' = rolesT s"
    and c: "cacheCoherent s'"
  shows "rbacInv s'"
proof -
  have k: "keyed (usersT s)" using i by (simp add: rbacInv_def)
  have "List.map (\<lambda>u. citext (u_email u)) (rows (usersT s')) =
      List.map (\<lambda>u. citext (u_email u)) (rows (usersT s))"
    unfolding t using keyed_lookup [OF k] l e by (intro map_rows_updateRow) fastforce
  moreover have "\<forall>u\<in>set (rows (usersT s')). set (u_roles u) \<subseteq> set (keys (rolesT s))"
    using i r unfolding rbacInv_def t by (auto dest!: rows_updateRow_in)
  ultimately show ?thesis using i t c by (simp add: rbacInv_def)
qed

lemma rbacInv_sameContext:
  assumes i: "rbacInv s" and u: "findUser s k = Some u" and sc: "sameContext u v"
  shows "rbacInv (saveUser k v s)"
proof -
  have l: "lookup (usersT s) k = Some u" using findUser_SomeD [OF u] by blast
  have c: "cacheCoherent (saveUser k v s)"
    by (rule coherent_sameContext [OF _ l sc]) (use i in \<open>auto simp: rbacInv_def saveUser_def\<close>)
  have "set (u_roles u) \<subseteq> set (keys (rolesT s))"
    using i lookup_in_rows [OF l] by (auto simp: rbacInv_def)
  then show ?thesis
    using sc by (intro rbacInv_user_row [OF i l _ _ _ _ c]) (simp_all add: saveUser_def sameContext_def)
qed

lemma rbacInv_saveInvalidate:
  assumes i: "rbacInv s" and u: "findUser s k = Some u"
    and e: "u_email v = u_email u" and r: "set (u_roles v) \<subseteq> set (keys (rolesT s))"
  shows "rbacInv (invalidateAuthUser k (saveUser k v s))"
proof -
  have l: "lookup (usersT s) k = Some u" using findUser_SomeD [OF u] by blast
  have c: "cacheCoherent (invalidateAuthUser k (saveUser k v s))"
    by (rule coherent_saveUser) (use i in \<open>simp add: rbacInv_def\<close>)
  show ?thesis
    using e r by (intro rbacInv_user_row [OF i l _ _ _ _ c]) (simp_all add: saveUser_def invalidateAuthUser_def)
qed

lemma rbacInv_roles: "rbacInv s \<Longrightarrow> findUser s k = Some u \<Longrightarrow> set (u_roles u) \<subseteq> set (keys (rolesT s))"
  using findUser_SomeD [of s k u] lookup_in_rows [of "usersT s" k u] by (simp add: rbacInv_def)

lemma updateProfile_inv:
  assumes "rbacInv s" "updateProfile k f l s = Inr s'"
  shows "rbacInv s'"
proof -
  obtain u where u: "findUser s k = Some u"
    using assms(2) by (cases "findUser s k") (simp_all add: updateProfile_def findById_def)
  show ?thesis
    using assms(2) u
    by (cases f; cases l) (auto simp: updateProfile_def findById_def sameContext_def
      intro!: rbacInv_sameContext [OF assms(1) u])
qed

lemma unlock_inv: "rbacInv s \<Longrightarrow> unlock k s = Inr s' \<Longrightarrow> rbacInv s'"
  by (auto simp: unlock_def findById_def res_simps sameContext_def intro!: rbacInv_sameContext)

lemma findRolesByNames_keys: "findRolesByNames s ns = Inr rs \<Longrightarrow> set rs \<subseteq> set (keys (rolesT s))"
  by (auto simp: findRolesByNames_def Let_def throwIf_Inr_iff keys_def split: if_splits)

lemma setRoles_inv: "rbacInv s \<Longrightarrow> setRoles k ns s = Inr s' \<Longrightarrow> rbacInv s'"
  by (auto simp: setRoles_def findById_def res_simps dest: findRolesByNames_keys [THEN subsetD]
    intro!: rbacInv_saveInvalidate)

lemma setStatus_inv: "rbacInv s \<Longrightarrow> setStatus k st a s = Inr s' \<Longrightarrow> rbacInv s'"
  by (auto simp: setStatus_def findById_def res_simps dest: rbacInv_roles [THEN subsetD]
    intro!: rbacInv_saveInvalidate)

lemma recordFailedLogin_inv:
  assumes i: "rbacInv s"
  shows "rbacInv (snd (recordFailedLogin now k m l s))"
proof (cases "lookup (usersT s) k")
  case None
  have "updateRow k f t = t" if "lookup t k = None" for f and t :: "user table"
    using that by (induction t) (auto simp: updateRow_def lookup_def split: if_splits)
  then show ?thesis using i None by (simp add: recordFailedLogin_def Let_def)
next
  case (Some u)
  let ?v = "bumpFailed now m l u"
  have t: "updateRow k (bumpFailed now m l) (usersT s) = updateRow k (\<lambda>_. ?v) (usersT s)"
    using i Some by (intro updateRow_const) (simp_all add: rbacInv_def)
  have sc: "sameContext u ?v" by (simp add: sameContext_def bumpFailed_def)
  have r: "set (u_roles u) \<subseteq> set (keys (rolesT s))"
    using i lookup_in_rows [OF Some] by (auto simp: rbacInv_def)
  have c: "cacheCoherent (snd (recordFailedLogin now k m l s))"
    by (rule coherent_sameContext [OF _ Some sc]) (use i in \<open>auto simp: rbacInv_def recordFailedLogin_def Let_def t\<close>)
  show ?thesis
    by (intro rbacInv_user_row [OF i Some _ _ _ _ c, of ?v])
       (use r in \<open>simp_all add: recordFailedLogin_def Let_def t bumpFailed_def\<close>)
qed

lemma createInvited_inv:
  assumes i: "rbacInv s" and k: "k \<notin> set (keys (usersT s))"
    and h: "createInvited k email f l ns s = Inr s'"
  shows "rbacInv s'"
proof -
  obtain rs where rs: "findRolesByNames s ns = Inr rs" and e: "\<not> emailTaken s email"
    and s': "s' = s\<lparr>usersT := insertRow k (invitedUser email f l rs) (usersT s)\<rparr>"
    using h by (auto simp: createInvited_def res_simps)
  have "authContext s k = None"
    using k by (simp add: authContext_def findUser_def lookup_None_iff [symmetric])
  then have "ctxCache s k = None"
    using i by (cases "ctxCache s k") (auto simp: rbacInv_def dest: coherentD)
  then have "j \<noteq> k" if "ctxCache s j \<noteq> None" for j using that by auto
  then have "authContext s' j = authContext s j" if "ctxCache s j \<noteq> None" for j
    using that k s' by (intro authContext_cong) (simp_all add: tbl_simps)
  then have "cacheCoherent s'"
    using i s' by - (rule coherent_if_dropped [of s], simp_all add: rbacInv_def)
  then show ?thesis
    using i k e findRolesByNames_keys [OF rs] s'
    by (auto simp: rbacInv_def emailTaken_def list_ex_iff invitedUser_def)
qed

text \<open>Roles: the contexts of users who do not hold the changed role stay as they are.\<close>

lemma rolesOf_updateRow:
  assumes "rid \<notin> set (u_roles u)" "rolesT s' = updateRow rid f (rolesT s)"
  shows "rolesOf s' u = rolesOf s u"
proof -
  have "List.map snd (List.filter (\<lambda>(k, r). k \<in> set (u_roles u)) (updateRow rid f t)) =
      List.map snd (List.filter (\<lambda>(k, r). k \<in> set (u_roles u)) t)" for t
    using assms(1) by (induction t) (auto simp: updateRow_def)
  then show ?thesis using assms(2) by (simp add: rolesOf_def)
qed

lemma rolesOf_insertRow:
  assumes "rid \<notin> set (u_roles u)" "rolesT s' = insertRow rid r (rolesT s)"
  shows "rolesOf s' u = rolesOf s u"
  using assms by (simp add: rolesOf_def insertRow_def)

lemma rolesOf_deleteRow:
  assumes "rid \<notin> set (u_roles u)" "rolesT s' = deleteRow rid (rolesT s)"
  shows "rolesOf s' u = rolesOf s u"
proof -
  have "List.map snd (List.filter (\<lambda>(k, r). k \<in> set (u_roles u)) (deleteRow rid t)) =
      List.map snd (List.filter (\<lambda>(k, r). k \<in> set (u_roles u)) t)" for t
    using assms(1) by (induction t) (auto simp: deleteRow_def)
  then show ?thesis using assms(2) by (simp add: rolesOf_def)
qed

lemma authContext_rolesOf:
  assumes "usersT s' = usersT s" "\<And>u. findUser s k = Some u \<Longrightarrow> rolesOf s' u = rolesOf s u"
  shows "authContext s' k = authContext s k"
proof -
  have "findUser s' k = findUser s k" by (simp add: findUser_def assms(1))
  then show ?thesis using assms(2)
    by (cases "findUser s k") (auto simp: authContext_def intro!: mkAuthUser_cong)
qed

lemma not_holder:
  assumes "keyed (usersT s)" "k \<notin> set (roleHolders s rid)" "findUser s k = Some u"
  shows "rid \<notin> set (u_roles u)"
proof -
  have "(k, u) \<in> set (usersT s)" "u_deletedAt u = None"
    using findUser_SomeD [OF assms(3)] by (auto simp: lookup_def dest: map_of_SomeD)
  then show ?thesis using assms(2) by (force simp: roleHolders_def)
qed

lemma createRole_inv:
  assumes i: "rbacInv s" and k: "rid \<notin> set (keys (rolesT s))"
    and h: "createRole rid n d ps s = Inr s'"
  shows "rbacInv s'"
proof -
  obtain p where n: "\<not> list_ex (\<lambda>r. r_name r = n) (rows (rolesT s))"
    and s': "s' = s\<lparr>rolesT := insertRow rid \<lparr>r_name = n, r_description = d, r_isSystem = False,
      r_permissions = p\<rparr> (rolesT s)\<rparr>"
    using h by (auto simp: createRole_def res_simps)
  have "authContext s' j = authContext s j" for j
  proof (rule authContext_rolesOf)
    fix u assume "findUser s j = Some u"
    then have "rid \<notin> set (u_roles u)" using rbacInv_roles [OF i] k by blast
    then show "rolesOf s' u = rolesOf s u" using s' by (intro rolesOf_insertRow) simp_all
  qed (simp add: s')
  then have "cacheCoherent s'"
    using i s' by - (rule coherent_if_dropped [of s], simp add: rbacInv_def, auto simp: rbacInv_def)
  then show ?thesis using i k n s' by (auto simp: rbacInv_def list_ex_iff)
qed

lemma updateRole_InrD:
  assumes "updateRole rid d ps s = Inr s'"
  shows "\<exists>r r2. s' = invalidateRoleHolders rid (s\<lparr>rolesT := updateRow rid (\<lambda>_. r2) (rolesT s)\<rparr>) \<and>
    lookup (rolesT s) rid = Some r \<and> r_name r2 = r_name r \<and> r_isSystem r2 = r_isSystem r"
  using assms
  by (cases ps; cases d)
     (auto simp: updateRole_def findRoleById_def res_simps Let_def, (rule exI, rule conjI [OF refl], simp)+)

lemma updateRole_inv:
  assumes i: "rbacInv s" and h: "updateRole rid d ps s = Inr s'"
  shows "rbacInv s'"
proof -
  obtain r r2 where l: "lookup (rolesT s) rid = Some r" and n: "r_name r2 = r_name r"
    and s': "s' = invalidateRoleHolders rid (s\<lparr>rolesT := updateRow rid (\<lambda>_. r2) (rolesT s)\<rparr>)"
    using updateRole_InrD [OF h] by blast
  have ku: "keyed (usersT s)" and kr: "keyed (rolesT s)" using i by (simp_all add: rbacInv_def)
  have c: "ctxCache s' = (\<lambda>k. if k \<in> set (roleHolders s rid) then None else ctxCache s k)"
    by (rule ext) (simp add: s' invalidateRoleHolders_def roleHolders_def)
  have "authContext s' j = authContext s j" if "j \<notin> set (roleHolders s rid)" for j
    by (rule authContext_rolesOf)
       (use not_holder [OF ku that] s' in
         \<open>auto simp: invalidateRoleHolders_def intro!: rolesOf_updateRow\<close>)
  then have "cacheCoherent s'"
    using i c by - (rule coherent_if_dropped [of s], simp add: rbacInv_def, auto simp: rbacInv_def split: if_splits)
  moreover have "List.map r_name (rows (rolesT s')) = List.map r_name (rows (rolesT s))"
    using keyed_lookup [OF kr] l n unfolding s' invalidateRoleHolders_def
    by (simp, intro map_rows_updateRow) fastforce
  ultimately show ?thesis using i s' by (auto simp: rbacInv_def invalidateRoleHolders_def)
qed

lemma rows_deleteRow_sub: "set (rows (deleteRow k t)) \<subseteq> set (rows t)"
  by (auto simp: rows_def deleteRow_def)

lemma distinct_rows_deleteRow:
  "distinct (List.map f (rows t)) \<Longrightarrow> distinct (List.map f (rows (deleteRow k t)))"
  by (induction t) (auto simp: rows_def deleteRow_def)

lemma deleteRole_inv:
  assumes i: "rbacInv s" and h: "deleteRole rid s = Inr s'"
  shows "rbacInv s'"
proof -
  let ?cut = "\<lambda>u :: user. u\<lparr>u_roles := List.filter (\<lambda>k. k \<noteq> rid) (u_roles u)\<rparr>"
  have s': "s' = removeRole rid (invalidateRoleHolders rid s)"
    using h by (auto simp: deleteRole_def res_simps)
  have t: "usersT s' = updateWhere (\<lambda>_. True) ?cut (usersT s)" "rolesT s' = deleteRow rid (rolesT s)"
    "ctxCache s' = (\<lambda>k. if k \<in> set (roleHolders s rid) then None else ctxCache s k)"
    unfolding s' by (simp_all add: removeRole_def invalidateRoleHolders_def)
  have ku: "keyed (usersT s)" using i by (simp add: rbacInv_def)
  have "authContext s' j = authContext s j" if j: "j \<notin> set (roleHolders s rid)" for j
  proof -
    have f: "findUser s' j = map_option ?cut (findUser s j)"
      by (simp add: findUser_def t tbl_simps split: option.splits)
    show ?thesis
    proof (cases "findUser s j")
      case None then show ?thesis by (simp add: authContext_def f)
    next
      case (Some u)
      have n: "rid \<notin> set (u_roles u)" by (rule not_holder [OF ku j Some])
      then have "List.filter (\<lambda>k. k \<noteq> rid) (u_roles u) = u_roles u"
        by (metis (mono_tags, lifting) filter_True)
      then have "?cut u = u" by simp
      then show ?thesis using Some n t
        by (auto simp: authContext_def f intro!: mkAuthUser_cong rolesOf_deleteRow)
    qed
  qed
  then have "cacheCoherent s'"
    using i t(3) by - (rule coherent_if_dropped [of s], simp add: rbacInv_def, auto simp: rbacInv_def split: if_splits)
  moreover have "List.map (\<lambda>u. citext (u_email u)) (rows (usersT s')) =
      List.map (\<lambda>u. citext (u_email u)) (rows (usersT s))"
    by (simp add: t rows_updateWhere)
  moreover have "\<forall>u\<in>set (rows (usersT s')). set (u_roles u) \<subseteq> set (keys (rolesT s'))"
    using i by (auto simp: t rows_updateWhere rbacInv_def set_keys_deleteRow)
  ultimately show ?thesis
    using i by (auto simp: rbacInv_def t keyed_deleteRow distinct_rows_deleteRow)
qed

lemma getAuthUser_inv: "rbacInv s \<Longrightarrow> rbacInv (snd (getAuthUser now k s))"
  by (simp add: rbacInv_def getAuthUser_keeps_coherent)

lemmas rbac_op_invs = updateProfile_inv unlock_inv setRoles_inv setStatus_inv recordFailedLogin_inv
  createInvited_inv createRole_inv updateRole_inv deleteRole_inv getAuthUser_inv

section \<open>Reachable states\<close>

text \<open>The seeded database: every permission, the system roles, no users.\<close>

definition seedRoles :: "role table" where
  "seedRoles = List.enumerate 0 (List.map (\<lambda>(n, d, ps).
     \<lparr>r_name = n, r_description = Some d, r_isSystem = True, r_permissions = ps\<rparr>)
     SYSTEM_ROLE_DEFINITIONS)"

definition rbacInit :: "'a rbac_state_scheme \<Rightarrow> bool" where
  "rbacInit s \<longleftrightarrow> usersT s = [] \<and> rolesT s = seedRoles \<and> permsT s = ALL_PERMISSIONS \<and>
     ctxCache s = (\<lambda>_. None)"

text \<open>
  One step is one operation of the two services, or Redis dropping a key on its own. New
  keys are fresh.
\<close>

inductive rbac_step :: "'a rbac_state_scheme \<Rightarrow> 'a rbac_state_scheme \<Rightarrow> bool" where
  getAuthUser: "rbac_step s (snd (getAuthUser now k s))"
| evict: "rbac_step s (invalidateAuthUser k s)"
| createRole: "rid \<notin> set (keys (rolesT s)) \<Longrightarrow> createRole rid n d ps s = Inr s' \<Longrightarrow> rbac_step s s'"
| updateRole: "updateRole rid d ps s = Inr s' \<Longrightarrow> rbac_step s s'"
| deleteRole: "deleteRole rid s = Inr s' \<Longrightarrow> rbac_step s s'"
| createInvited: "k \<notin> set (keys (usersT s)) \<Longrightarrow> createInvited k e f l rs s = Inr s' \<Longrightarrow> rbac_step s s'"
| updateProfile: "updateProfile k f l s = Inr s' \<Longrightarrow> rbac_step s s'"
| setRoles: "setRoles k rs s = Inr s' \<Longrightarrow> rbac_step s s'"
| setStatus: "setStatus k st actor s = Inr s' \<Longrightarrow> rbac_step s s'"
| recordFailedLogin: "rbac_step s (snd (recordFailedLogin now k m l s))"
| unlock: "unlock k s = Inr s' \<Longrightarrow> rbac_step s s'"

lemma evict_inv: "rbacInv s \<Longrightarrow> rbacInv (invalidateAuthUser k s)"
proof -
  assume i: "rbacInv s"
  have "authContext (invalidateAuthUser k s) j = authContext s j" for j
    by (rule authContext_cong) (simp_all add: invalidateAuthUser_def)
  then have "cacheCoherent (invalidateAuthUser k s)"
    using i by (auto simp: rbacInv_def cacheCoherent_def invalidateAuthUser_def redisDel_def)
  then show ?thesis using i by (simp add: rbacInv_def invalidateAuthUser_def)
qed

lemma seedRoles_names: "List.map r_name (rows seedRoles) =
    [''ADMIN'', ''HR_MANAGER'', ''MANAGER'', ''EMPLOYEE'', ''RECRUITER'']"
  by (simp add: seedRoles_def SYSTEM_ROLE_DEFINITIONS_def rows_def)

lemma seedRoles_keyed: "keyed seedRoles"
  by (simp add: keyed_def keys_def seedRoles_def SYSTEM_ROLE_DEFINITIONS_def)

lemma rbacInit_inv: "rbacInit s \<Longrightarrow> rbacInv s"
  using seedRoles_names seedRoles_keyed
  by (simp add: rbacInit_def rbacInv_def cacheCoherent_def keyed_def keys_def rows_def)

interpretation rbac: step_system rbacInit rbac_step rbacInv
proof
  show "rbacInv s" if "rbacInit s" for s :: "'a rbac_state_scheme" by (rule rbacInit_inv [OF that])
  show "rbacInv t" if "rbacInv s" "rbac_step s t" for s t :: "'a rbac_state_scheme"
    using that(2,1) by cases (auto intro: rbac_op_invs evict_inv)
qed

section \<open>Properties\<close>

lemma set_ALL_PERMISSIONS: "set ALL_PERMISSIONS = UNIV"
proof (intro equalityI subset_UNIV subsetI)
  fix p :: permission
  show "p \<in> set ALL_PERMISSIONS" by (cases p) (simp_all add: ALL_PERMISSIONS_def)
qed

text \<open>
  C1. In every state reachable from the seeded database by operations of the role and user
  services, the auth context the guard is given, cached or not, is the one the tables hold
  at that moment: no role, permission, status or MFA change is ever served stale.
\<close>

theorem cached_context_is_current:
  assumes "rbacInit s0" "rbac_step\<^sup>*\<^sup>* s0 s"
  shows "fst (getAuthUser now k s) = authContext s k"
  using rbac.reach_inv [OF assms] by (simp add: rbacInv_def getAuthUser_coherent)

text \<open>A first database: the seed, then one invited employee.\<close>

definition demoSeed :: rbac_state where
  "demoSeed = \<lparr>usersT = [], rolesT = seedRoles, permsT = ALL_PERMISSIONS, ctxCache = (\<lambda>_. None)\<rparr>"

definition demoOne :: rbac_state where
  "demoOne = demoSeed\<lparr>usersT := [(0, invitedUser ''a@b.c'' ''A'' ''B'' [3])]\<rparr>"

lemma demoSeed_init: "rbacInit demoSeed"
  by (simp add: demoSeed_def rbacInit_def)

lemma demoOne_reached: "rbac_step\<^sup>*\<^sup>* demoSeed demoOne"
proof -
  have "createInvited 0 ''a@b.c'' ''A'' ''B'' [''EMPLOYEE''] demoSeed = Inr demoOne"
    by (simp add: createInvited_def emailTaken_def demoSeed_def demoOne_def rows_def findRolesByNames_def
        seedRoles_def SYSTEM_ROLE_DEFINITIONS_def insertRow_def eval_nat_numeral)
  then have "rbac_step demoSeed demoOne"
    by (rule rbac_step.createInvited [rotated]) (simp add: demoSeed_def keys_def)
  then show ?thesis by (rule r_into_rtranclp)
qed

theorem cached_context_is_current_witness:
  "fst (getAuthUser 0 0 demoOne) = authContext demoOne 0 \<and> authContext demoOne 0 \<noteq> None"
  using cached_context_is_current [OF demoSeed_init demoOne_reached, of 0 0]
  by (simp add: authContext_def findUser_def demoOne_def lookup_def invitedUser_def)

text \<open>A user holds a permission through a role that exists and lists it.\<close>

definition granted :: "'a rbac_state_scheme \<Rightarrow> id \<Rightarrow> permission \<Rightarrow> bool" where
  "granted s k p = (case findUser s k of None \<Rightarrow> False
     | Some u \<Rightarrow> list_ex (\<lambda>(rid, r). rid \<in> set (u_roles u) \<and> p \<in> set (r_permissions r)) (rolesT s))"

lemma granted_context:
  "granted s k p \<longleftrightarrow> (\<exists>a. authContext s k = Some a \<and> p \<in> set (au_permissions a))"
  by (fastforce simp: granted_def authContext_def mkAuthUser_def rolesOf_def list_ex_iff
      split: option.splits)

text \<open>
  The permissions guard admits a request exactly when the route is public or the caller
  holds, through the roles stored now, every required permission and, where alternatives
  are listed, at least one of them. The decorators of the handler win over the class's.
\<close>

theorem guard_admits_exactly:
  assumes "rbacInit s0" "rbac_step\<^sup>*\<^sup>* s0 s"
  shows "permissionsGuard h c (fst (getAuthUser now k s)) = Inr True \<longleftrightarrow>
    getAllAndOverride rm_public h c = Some True \<or>
    ((\<forall>p\<in>set (case_option [] id (getAllAndOverride rm_permissions h c)). granted s k p) \<and>
     (case_option [] id (getAllAndOverride rm_anyPermission h c) = [] \<or>
      (\<exists>p\<in>set (case_option [] id (getAllAndOverride rm_anyPermission h c)). granted s k p)))"
proof -
  have g: "fst (getAuthUser now k s) = authContext s k"
    using rbac.reach_inv [OF assms] by (simp add: rbacInv_def getAuthUser_coherent)
  show ?thesis
    unfolding g granted_context permissionsGuard_def Let_def
    by (cases "authContext s k"; cases "getAllAndOverride rm_permissions h c";
        cases "getAllAndOverride rm_anyPermission h c")
       (auto simp: throwIf_Inr_iff filter_empty_conv list_ex_iff neq_Nil_conv)
qed

definition leaveRoute :: route_meta where
  "leaveRoute = \<lparr>rm_public = None, rm_permissions = Some [LEAVE_REQUEST],
     rm_anyPermission = None, rm_allowWithoutMfa = None\<rparr>"

definition plainClass :: route_meta where
  "plainClass = \<lparr>rm_public = None, rm_permissions = None, rm_anyPermission = None,
     rm_allowWithoutMfa = None\<rparr>"

theorem guard_admits_exactly_witness:
  "permissionsGuard leaveRoute plainClass (fst (getAuthUser 0 0 demoOne)) = Inr True"
  unfolding guard_admits_exactly [OF demoSeed_init demoOne_reached]
  by (simp add: getAllAndOverride_def leaveRoute_def plainClass_def granted_def findUser_def demoOne_def
      demoSeed_def lookup_def invitedUser_def seedRoles_def SYSTEM_ROLE_DEFINITIONS_def
      EMPLOYEE_PERMISSIONS_def)

text \<open>
  The seeded roles form the intended hierarchy: employee permissions are included in
  the manager's, the manager's in HR's, and ADMIN has the whole catalogue; only ADMIN may
  edit roles, assign them or read the audit trail; wire names identify permissions, no
  list repeats one.
\<close>

theorem seeded_role_hierarchy:
  "set (rolePermissions ''EMPLOYEE'') \<subseteq> set (rolePermissions ''MANAGER'') \<and>
   set (rolePermissions ''MANAGER'') \<subseteq> set (rolePermissions ''HR_MANAGER'') \<and>
   set (rolePermissions ''EMPLOYEE'') \<subseteq> set (rolePermissions ''RECRUITER'') \<and>
   set (rolePermissions ''ADMIN'') = UNIV \<and>
   UNIV - set (rolePermissions ''HR_MANAGER'') - set (rolePermissions ''RECRUITER'') =
     {USER_MANAGE_ROLES, ROLE_MANAGE, NOTIFICATION_SEND_TEST, AUDIT_READ} \<and>
   distinct (List.map permName ALL_PERMISSIONS) \<and>
   list_all (\<lambda>(n, d, ps). distinct ps) SYSTEM_ROLE_DEFINITIONS"
proof (intro conjI)
  show "set (rolePermissions ''EMPLOYEE'') \<subseteq> set (rolePermissions ''MANAGER'')"
    by code_simp
  show "set (rolePermissions ''MANAGER'') \<subseteq> set (rolePermissions ''HR_MANAGER'')"
    by code_simp
  show "set (rolePermissions ''EMPLOYEE'') \<subseteq> set (rolePermissions ''RECRUITER'')"
    by code_simp
  show "set (rolePermissions ''ADMIN'') = UNIV"
    using set_ALL_PERMISSIONS by (simp add: rolePermissions_def SYSTEM_ROLE_DEFINITIONS_def)
  show "UNIV - set (rolePermissions ''HR_MANAGER'') - set (rolePermissions ''RECRUITER'') =
     {USER_MANAGE_ROLES, ROLE_MANAGE, NOTIFICATION_SEND_TEST, AUDIT_READ}"
    unfolding set_ALL_PERMISSIONS [symmetric] by code_simp
  show "distinct (List.map permName ALL_PERMISSIONS)"
    by (simp add: ALL_PERMISSIONS_def)
  show "list_all (\<lambda>(n, d, ps). distinct ps) SYSTEM_ROLE_DEFINITIONS"
    by code_simp
qed

text \<open>
  \<open>deleteRole\<close> drops the cached contexts before it removes the row. A request served
  between the two caches the old context again, and the removal leaves it: from here on the
  cache grants a permission nobody holds.
\<close>

definition raceState :: "rbac_state" where
  "raceState =
     \<lparr>usersT = [(0, (invitedUser ''a@b.c'' ''A'' ''B'' [7])\<lparr>u_status := ACTIVE\<rparr>)],
      rolesT = [(7, \<lparr>r_name = ''AUDITOR'', r_description = None, r_isSystem = False,
        r_permissions = [AUDIT_READ]\<rparr>)],
      permsT = ALL_PERMISSIONS, ctxCache = (\<lambda>_. None)\<rparr>"

definition raceAfter :: "int \<Rightarrow> rbac_state" where
  "raceAfter now = removeRole 7 (snd (getAuthUser now 0 (invalidateRoleHolders 7 raceState)))"

lemma deleteRole_race:
  "map_option au_permissions (fst (getAuthUser (now + 1) 0 (raceAfter now))) = Some [AUDIT_READ] \<and>
   map_option au_permissions (authContext (raceAfter now) 0) = Some []"
  by (simp add: raceAfter_def raceState_def removeRole_def invalidateRoleHolders_def roleHolders_def
      getAuthUser_def redisGet_def redisSetEx_def findUser_def lookup_def invitedUser_def authContext_def
      mkAuthUser_def rolesOf_def deleteRow_def updateWhere_def Let_def AUTH_CONTEXT_TTL_SECONDS_def)

end
