(* ===== verification/Tokens.thy ===== *)
theory Tokens
  imports Rbac "HOL-Library.Multiset"
begin

text \<open>
  Tokens (\<open>src/modules/auth/token.service.ts\<close>): refresh tokens with rotation and reuse
  detection, the deny list of revoked sessions, one-time tokens, and the signed tokens the
  JWT library makes. SHA-256, the password hash, the JWT library and configuration values
  are the fields of \<open>auth_env\<close>, an argument of every operation that uses them; random
  strings and new row keys are arguments too.
\<close>

section \<open>Configuration and libraries\<close>

text \<open>Claims of an access token or, with \<open>cl_typ\<close>, of an MFA challenge. Times in seconds.\<close>

record claims =
  cl_sub :: id
  cl_email :: string
  cl_sid :: "id option"
  cl_typ :: "string option"
  cl_iat :: "int option"
  cl_exp :: int

record 't auth_env =
  ae_sha256 :: "string \<Rightarrow> string"
  ae_hashPassword :: "string \<Rightarrow> string"
  ae_verifyPassword :: "string \<Rightarrow> string \<Rightarrow> bool"
  ae_sign :: "string \<Rightarrow> claims \<Rightarrow> 't"
  ae_verify :: "int \<Rightarrow> string \<Rightarrow> 't \<Rightarrow> claims option"
  ae_accessSecret :: string
  ae_accessSecretPrevious :: "string option"
  ae_refreshSecret :: string
  ae_refreshSecretPrevious :: "string option"
  ae_accessTtlSeconds :: int
  ae_refreshTtlMs :: int
  ae_maxAttempts :: nat
  ae_lockMinutes :: int
  ae_requiredRoles :: "string list"
  ae_mfaWindow :: int

text \<open>
  What the model relies on of the JWT library: a token verifies under the key that signed
  it while the clock, in whole seconds, is before its expiry, and under no other key.
\<close>

definition jwtLaws :: "('t, 'b) auth_env_scheme \<Rightarrow> bool" where
  "jwtLaws E \<longleftrightarrow> (\<forall>now k k' c. ae_verify E now k (ae_sign E k' c) =
     (if k = k' \<and> now div 1000 < cl_exp c then Some c else None))"

text \<open>\<open>parseDuration\<close>: digits followed by a unit.\<close>

definition unitMs :: "string \<Rightarrow> nat option" where
  "unitMs u = map_of [(''ms'', 1), (''s'', 1000), (''m'', 60000), (''h'', 3600000), (''d'', 86400000)] u"

definition isDigit :: "char \<Rightarrow> bool" where
  "isDigit c = (let n = (of_char c :: nat) in 48 \<le> n \<and> n \<le> 57)"

definition numOf :: "string \<Rightarrow> nat" where
  "numOf ds = foldl (\<lambda>n c. 10 * n + (of_char c - 48)) 0 ds"

definition parseDuration :: "string \<Rightarrow> nat option" where
  "parseDuration v = (let ds = takeWhile isDigit v; u = dropWhile isDigit v in
     if ds = [] then None else map_option (\<lambda>m. numOf ds * m) (unitMs u))"

section \<open>Rows and state\<close>

record refresh_token =
  rt_userId :: id
  rt_tokenHash :: string
  rt_familyId :: id
  rt_expiresAt :: int
  rt_revokedAt :: "int option"
  rt_replacedById :: "id option"
  rt_userAgent :: "string option"
  rt_ipAddress :: "string option"
  rt_createdAt :: int

definition rtExpired :: "int \<Rightarrow> refresh_token \<Rightarrow> bool" where
  "rtExpired now r = (rt_expiresAt r \<le> now)"

definition rtRevoked :: "refresh_token \<Rightarrow> bool" where
  "rtRevoked r = (rt_revokedAt r \<noteq> None)"

datatype one_time_type = INVITE | PASSWORD_RESET

record one_time_token =
  ot_userId :: id
  ot_type :: one_time_type
  ot_tokenHash :: string
  ot_expiresAt :: int
  ot_usedAt :: "int option"

definition otUsable :: "int \<Rightarrow> one_time_token \<Rightarrow> bool" where
  "otUsable now t = (ot_usedAt t = None \<and> now < ot_expiresAt t)"

definition ONE_TIME_TOKEN_TTL_MS :: "one_time_type \<Rightarrow> int" where
  "ONE_TIME_TOKEN_TTL_MS ty = (case ty of INVITE \<Rightarrow> 7 * 24 * 60 * 60 * 1000
     | PASSWORD_RESET \<Rightarrow> 60 * 60 * 1000)"

definition MFA_CHALLENGE_TTL_SECONDS :: int where
  "MFA_CHALLENGE_TTL_SECONDS = 300"

record client_meta =
  cm_userAgent :: "string option"
  cm_ipAddress :: "string option"

record token_state = rbac_state +
  refreshT :: "refresh_token table"
  oneTimeT :: "one_time_token table"
  denyList :: "(id, unit) redis"

record 't issued_tokens =
  it_accessToken :: 't
  it_refreshToken :: string
  it_expiresIn :: int

section \<open>Refresh tokens\<close>

definition findRefresh :: "'a token_state_scheme \<Rightarrow> string \<Rightarrow> (id \<times> refresh_token) option" where
  "findRefresh s h = List.find (\<lambda>(k, r). rt_tokenHash r = h) (refreshT s)"

definition denySessions ::
  "('t, 'b) auth_env_scheme \<Rightarrow> int \<Rightarrow> id list \<Rightarrow> 'a token_state_scheme \<Rightarrow> 'a token_state_scheme" where
  "denySessions E now fams s =
     s\<lparr>denyList := fold (\<lambda>f. redisSetEx now f () (ae_accessTtlSeconds E)) fams (denyList s)\<rparr>"

definition revokeRow :: "int \<Rightarrow> refresh_token \<Rightarrow> refresh_token" where
  "revokeRow now r = r\<lparr>rt_revokedAt := Some now\<rparr>"

definition revokeFamily ::
  "('t, 'b) auth_env_scheme \<Rightarrow> int \<Rightarrow> id \<Rightarrow> 'a token_state_scheme \<Rightarrow> 'a token_state_scheme" where
  "revokeFamily E now fam s =
     denySessions E now [fam]
       (s\<lparr>refreshT := updateWhere (\<lambda>r. rt_familyId r = fam \<and> rt_revokedAt r = None)
            (revokeRow now) (refreshT s)\<rparr>)"

text \<open>
  \<open>issuePair\<close>: the new row and the revocation of its predecessor are one transaction, which
  the unique index on the hash can refuse; then the access token is signed.
\<close>

definition newRefresh ::
  "('t, 'b) auth_env_scheme \<Rightarrow> int \<Rightarrow> string \<Rightarrow> id \<Rightarrow> id \<Rightarrow> client_meta \<Rightarrow> refresh_token" where
  "newRefresh E now raw uid fam meta =
     \<lparr>rt_userId = uid, rt_tokenHash = ae_sha256 E raw, rt_familyId = fam,
      rt_expiresAt = now + ae_refreshTtlMs E, rt_revokedAt = None, rt_replacedById = None,
      rt_userAgent = map_option (take 512) (cm_userAgent meta),
      rt_ipAddress = map_option (take 64) (cm_ipAddress meta), rt_createdAt = now\<rparr>"

definition accessClaims :: "('t, 'b) auth_env_scheme \<Rightarrow> int \<Rightarrow> id \<Rightarrow> string \<Rightarrow> id \<Rightarrow> claims" where
  "accessClaims E now uid email fam =
     \<lparr>cl_sub = uid, cl_email = email, cl_sid = Some fam, cl_typ = None,
      cl_iat = Some (now div 1000), cl_exp = now div 1000 + ae_accessTtlSeconds E\<rparr>"

definition issuePair ::
  "('t, 'b) auth_env_scheme \<Rightarrow> int \<Rightarrow> id \<Rightarrow> string \<Rightarrow> id \<Rightarrow> string \<Rightarrow> id \<Rightarrow> client_meta \<Rightarrow> id option
     \<Rightarrow> 'a token_state_scheme \<Rightarrow> ('t issued_tokens \<times> 'a token_state_scheme) res" where
  "issuePair E now rid raw uid email fam meta predecessor s =
     throwIf (findRefresh s (ae_sha256 E raw) \<noteq> None) (Conflict ''Resource already exists'')
     (let t = insertRow rid (newRefresh E now raw uid fam meta) (refreshT s);
          t' = (case predecessor of None \<Rightarrow> t
                | Some p \<Rightarrow> updateRow p (\<lambda>r. r\<lparr>rt_revokedAt := Some now, rt_replacedById := Some rid\<rparr>) t)
      in Inr (\<lparr>it_accessToken = ae_sign E (ae_accessSecret E) (accessClaims E now uid email fam),
               it_refreshToken = raw, it_expiresIn = ae_accessTtlSeconds E\<rparr>,
              s\<lparr>refreshT := t'\<rparr>))"

definition issueForLogin ::
  "('t, 'b) auth_env_scheme \<Rightarrow> int \<Rightarrow> id \<Rightarrow> string \<Rightarrow> id \<Rightarrow> id \<Rightarrow> string \<Rightarrow> client_meta
     \<Rightarrow> 'a token_state_scheme \<Rightarrow> ('t issued_tokens \<times> 'a token_state_scheme) res" where
  "issueForLogin E now rid raw fam uid email meta s = issuePair E now rid raw uid email fam meta None s"

text \<open>Replaying a revoked token changes the state and throws: the result is a pair.\<close>

definition rotateToken ::
  "('t, 'b) auth_env_scheme \<Rightarrow> int \<Rightarrow> id \<Rightarrow> string \<Rightarrow> string \<Rightarrow> client_meta \<Rightarrow> 'a token_state_scheme
     \<Rightarrow> ('t issued_tokens \<times> id) res \<times> 'a token_state_scheme" where
  "rotateToken E now rid newRaw raw meta s =
     (case findRefresh s (ae_sha256 E raw) of
        None \<Rightarrow> (Inl (Unauthorized ''Invalid refresh token''), s)
      | Some (k, ex) \<Rightarrow>
          if rtRevoked ex
          then (Inl (Unauthorized ''Refresh token reuse detected; please log in again''),
                revokeFamily E now (rt_familyId ex) s)
          else if rtExpired now ex then (Inl (Unauthorized ''Refresh token expired''), s)
          else (case findUser s (rt_userId ex) of
                  None \<Rightarrow> (Inl (InternalError ''An unexpected error occurred''), s)
                | Some u \<Rightarrow>
                    (case issuePair E now rid newRaw (rt_userId ex) (u_email u) (rt_familyId ex) meta (Some k) s of
                       Inl e \<Rightarrow> (Inl e, s)
                     | Inr (tk, s') \<Rightarrow> (Inr (tk, rt_userId ex), s'))))"

definition revokeByRawToken ::
  "('t, 'b) auth_env_scheme \<Rightarrow> int \<Rightarrow> string \<Rightarrow> 'a token_state_scheme \<Rightarrow> 'a token_state_scheme" where
  "revokeByRawToken E now raw s =
     (case findRefresh s (ae_sha256 E raw) of None \<Rightarrow> s
      | Some (k, ex) \<Rightarrow> revokeFamily E now (rt_familyId ex) s)"

definition liveOf :: "'a token_state_scheme \<Rightarrow> id \<Rightarrow> refresh_token list" where
  "liveOf s uid = List.filter (\<lambda>r. rt_userId r = uid \<and> rt_revokedAt r = None) (rows (refreshT s))"

definition revokeAllForUser ::
  "('t, 'b) auth_env_scheme \<Rightarrow> int \<Rightarrow> id \<Rightarrow> 'a token_state_scheme \<Rightarrow> 'a token_state_scheme" where
  "revokeAllForUser E now uid s =
     denySessions E now (remdups (List.map rt_familyId (liveOf s uid)))
       (s\<lparr>refreshT := updateWhere (\<lambda>r. rt_userId r = uid \<and> rt_revokedAt r = None)
            (revokeRow now) (refreshT s)\<rparr>)"

definition revokeSession ::
  "('t, 'b) auth_env_scheme \<Rightarrow> int \<Rightarrow> id \<Rightarrow> id \<Rightarrow> 'a token_state_scheme \<Rightarrow> 'a token_state_scheme res" where
  "revokeSession E now uid sid s =
     throwIf (\<not> list_ex (\<lambda>r. rt_userId r = uid \<and> rt_familyId r = sid) (rows (refreshT s)))
       (NotFound ''Session not found'')
     (Inr (revokeFamily E now sid s))"

definition isSessionRevoked :: "int \<Rightarrow> 'a token_state_scheme \<Rightarrow> id option \<Rightarrow> bool" where
  "isSessionRevoked now s sid =
     (case sid of None \<Rightarrow> False | Some f \<Rightarrow> redisGet now (denyList s) f \<noteq> None)"

record session_info =
  si_id :: id
  si_createdAt :: int
  si_lastUsedAt :: int
  si_expiresAt :: int
  si_current :: bool

definition listSessions ::
  "int \<Rightarrow> id \<Rightarrow> id option \<Rightarrow> 'a token_state_scheme \<Rightarrow> session_info list" where
  "listSessions now uid current s =
     (let own = List.filter (\<lambda>r. rt_userId r = uid) (rows (refreshT s));
          live = List.filter (\<lambda>r. rt_revokedAt r = None \<and> now < rt_expiresAt r) own;
          started = (\<lambda>f d. case List.map rt_createdAt (List.filter (\<lambda>r. rt_familyId r = f) own) of
                       [] \<Rightarrow> d | c # cs \<Rightarrow> fold min cs c)
      in sort_key (\<lambda>i. - si_lastUsedAt i)
           (List.map (\<lambda>r. \<lparr>si_id = rt_familyId r, si_createdAt = started (rt_familyId r) (rt_createdAt r),
              si_lastUsedAt = rt_createdAt r, si_expiresAt = rt_expiresAt r,
              si_current = (current = Some (rt_familyId r))\<rparr>) live))"

section \<open>Signed tokens\<close>

fun firstSome :: "('a \<Rightarrow> 'b option) \<Rightarrow> 'a list \<Rightarrow> 'b option" where
  "firstSome f [] = None"
| "firstSome f (x # xs) = (case f x of Some y \<Rightarrow> Some y | None \<Rightarrow> firstSome f xs)"

text \<open>Empty and missing secrets are left out.\<close>

definition verifyWith ::
  "('t, 'b) auth_env_scheme \<Rightarrow> int \<Rightarrow> 't \<Rightarrow> string option list \<Rightarrow> claims option" where
  "verifyWith E now tok secrets =
     firstSome (\<lambda>k. ae_verify E now k tok)
       (List.map the (List.filter (\<lambda>x. x \<noteq> None \<and> x \<noteq> Some []) secrets))"

definition verifyAccessToken :: "('t, 'b) auth_env_scheme \<Rightarrow> int \<Rightarrow> 't \<Rightarrow> claims option" where
  "verifyAccessToken E now tok = verifyWith E now tok [Some (ae_accessSecret E), ae_accessSecretPrevious E]"

definition issueMfaChallenge :: "('t, 'b) auth_env_scheme \<Rightarrow> int \<Rightarrow> id \<Rightarrow> 't" where
  "issueMfaChallenge E now uid =
     ae_sign E (ae_refreshSecret E)
       \<lparr>cl_sub = uid, cl_email = [], cl_sid = None, cl_typ = Some ''mfa'',
        cl_iat = Some (now div 1000), cl_exp = now div 1000 + MFA_CHALLENGE_TTL_SECONDS\<rparr>"

definition verifyMfaChallenge :: "('t, 'b) auth_env_scheme \<Rightarrow> int \<Rightarrow> 't \<Rightarrow> id res" where
  "verifyMfaChallenge E now tok =
     (case verifyWith E now tok [Some (ae_refreshSecret E), ae_refreshSecretPrevious E] of
        None \<Rightarrow> Inl (Unauthorized ''MFA session expired; log in again'')
      | Some p \<Rightarrow> if cl_typ p \<noteq> Some ''mfa'' then Inl (Unauthorized ''MFA session expired; log in again'')
                  else Inr (cl_sub p))"

section \<open>One-time tokens\<close>

definition findOneTime ::
  "'a token_state_scheme \<Rightarrow> string \<Rightarrow> one_time_type \<Rightarrow> (id \<times> one_time_token) option" where
  "findOneTime s h ty = List.find (\<lambda>(k, t). ot_tokenHash t = h \<and> ot_type t = ty) (oneTimeT s)"

definition issueOneTime ::
  "('t, 'b) auth_env_scheme \<Rightarrow> int \<Rightarrow> id \<Rightarrow> string \<Rightarrow> id \<Rightarrow> one_time_type \<Rightarrow> 'a token_state_scheme
     \<Rightarrow> (string \<times> int) res \<times> 'a token_state_scheme" where
  "issueOneTime E now oid raw uid ty s =
     (let s1 = s\<lparr>oneTimeT := updateWhere
                  (\<lambda>t. ot_userId t = uid \<and> ot_type t = ty \<and> ot_usedAt t = None)
                  (\<lambda>t. t\<lparr>ot_usedAt := Some now\<rparr>) (oneTimeT s)\<rparr>;
          expiresAt = now + ONE_TIME_TOKEN_TTL_MS ty
      in if list_ex (\<lambda>t. ot_tokenHash t = ae_sha256 E raw) (rows (oneTimeT s1))
         then (Inl (Conflict ''Resource already exists''), s1)
         else (Inr (raw, expiresAt),
               s1\<lparr>oneTimeT := insertRow oid
                  \<lparr>ot_userId = uid, ot_type = ty, ot_tokenHash = ae_sha256 E raw,
                   ot_expiresAt = expiresAt, ot_usedAt = None\<rparr> (oneTimeT s1)\<rparr>))"

definition peekOneTime ::
  "('t, 'b) auth_env_scheme \<Rightarrow> int \<Rightarrow> string \<Rightarrow> one_time_type \<Rightarrow> 'a token_state_scheme \<Rightarrow> id res" where
  "peekOneTime E now raw ty s =
     (case findOneTime s (ae_sha256 E raw) ty of
        None \<Rightarrow> Inl (Unauthorized ''Token is invalid or has expired'')
      | Some (k, t) \<Rightarrow> if \<not> otUsable now t then Inl (Unauthorized ''Token is invalid or has expired'')
                       else Inr (ot_userId t))"

definition consumeOneTime ::
  "('t, 'b) auth_env_scheme \<Rightarrow> int \<Rightarrow> string \<Rightarrow> one_time_type \<Rightarrow> 'a token_state_scheme
     \<Rightarrow> (id \<times> 'a token_state_scheme) res" where
  "consumeOneTime E now raw ty s =
     (case findOneTime s (ae_sha256 E raw) ty of
        None \<Rightarrow> Inl (Unauthorized ''Token is invalid or has expired'')
      | Some (k, t) \<Rightarrow> if \<not> otUsable now t then Inl (Unauthorized ''Token is invalid or has expired'')
                       else Inr (ot_userId t,
                         s\<lparr>oneTimeT := updateRow k (\<lambda>t. t\<lparr>ot_usedAt := Some now\<rparr>) (oneTimeT s)\<rparr>))"

section \<open>The invariant of the token tables\<close>

named_theorems refresh_inv \<open>parts of the invariant after an update of the refresh tokens\<close>

definition hashUnique :: "refresh_token table \<Rightarrow> bool" where
  "hashUnique T = uniqueBy (\<lambda>r q. rt_tokenHash r = rt_tokenHash q) T"

definition oneLive :: "refresh_token table \<Rightarrow> bool" where
  "oneLive T = uniqueBy (\<lambda>r q. rt_familyId r = rt_familyId q \<and> rt_revokedAt r = None \<and>
     rt_revokedAt q = None) T"

definition famUser :: "refresh_token table \<Rightarrow> bool" where
  "famUser T \<longleftrightarrow> (\<forall>j k r q. lookup T j = Some r \<longrightarrow> lookup T k = Some q \<longrightarrow>
     rt_familyId r = rt_familyId q \<longrightarrow> rt_userId r = rt_userId q)"

definition createdBy :: "int \<Rightarrow> refresh_token table \<Rightarrow> bool" where
  "createdBy t T \<longleftrightarrow> (\<forall>k r. lookup T k = Some r \<longrightarrow> rt_createdAt r \<le> t)"

definition famDead :: "refresh_token table \<Rightarrow> id \<Rightarrow> bool" where
  "famDead T f \<longleftrightarrow> (\<forall>k r. lookup T k = Some r \<longrightarrow> rt_familyId r = f \<longrightarrow> rt_revokedAt r \<noteq> None)"

text \<open>The deny key of a dead session outlives every access token of the session.\<close>

definition denied :: "int \<Rightarrow> refresh_token table \<Rightarrow> (id, unit) redis \<Rightarrow> bool" where
  "denied ttl T D \<longleftrightarrow> (\<forall>k r. lookup T k = Some r \<longrightarrow> famDead T (rt_familyId r) \<longrightarrow>
     (\<exists>e. D (rt_familyId r) = Some ((), e) \<and> rt_createdAt r + ttl * 1000 \<le> e))"

definition refreshInv :: "int \<Rightarrow> int \<Rightarrow> refresh_token table \<Rightarrow> (id, unit) redis \<Rightarrow> bool" where
  "refreshInv ttl t T D \<longleftrightarrow>
     keyed T \<and> hashUnique T \<and> oneLive T \<and> famUser T \<and> createdBy t T \<and> denied ttl T D"

lemma findRefresh_SomeD:
  "keyed (refreshT s) \<Longrightarrow> findRefresh s h = Some (k, r) \<Longrightarrow> lookup (refreshT s) k = Some r \<and> rt_tokenHash r = h"
  using find_SomeD [of "\<lambda>(k, r). rt_tokenHash r = h" "refreshT s" "(k, r)"]
  by (auto simp: findRefresh_def keyed_lookup)

lemma findRefresh_NoneD: "findRefresh s h = None \<Longrightarrow> lookup (refreshT s) k = Some r \<Longrightarrow> rt_tokenHash r \<noteq> h"
  using find_NoneD [of "\<lambda>(k, r). rt_tokenHash r = h" "refreshT s" "(k, r)"]
  by (auto simp: findRefresh_def lookup_def dest: map_of_SomeD)

lemma findRefresh_lookup:
  assumes "keyed (refreshT s)" "hashUnique (refreshT s)" "lookup (refreshT s) k = Some r"
  shows "findRefresh s (rt_tokenHash r) = Some (k, r)"
proof (cases "findRefresh s (rt_tokenHash r)")
  case None
  then show ?thesis using findRefresh_NoneD [OF None assms(3)] by blast
next
  case (Some p)
  then have f: "findRefresh s (rt_tokenHash r) = Some (fst p, snd p)" by simp
  have l: "lookup (refreshT s) (fst p) = Some (snd p)" "rt_tokenHash (snd p) = rt_tokenHash r"
    using findRefresh_SomeD [OF assms(1) f] by auto
  have "fst p = k" using uniqueByD [OF assms(2) [unfolded hashUnique_def] l(1) assms(3) l(2)] .
  then show ?thesis using f l(1) assms(3) by (metis option.inject)
qed

text \<open>Revoking rows, with the deny keys of at least the families that lose their live token.\<close>

lemma revoke_lookup: "lookup (updateWhere p (revokeRow now) T) k =
    map_option (\<lambda>r. if p r then revokeRow now r else r) (lookup T k)"
  by (simp add: tbl_simps)

lemma revokeRow_simps [simp]:
  "rt_userId (revokeRow now r) = rt_userId r" "rt_tokenHash (revokeRow now r) = rt_tokenHash r"
  "rt_familyId (revokeRow now r) = rt_familyId r" "rt_createdAt (revokeRow now r) = rt_createdAt r"
  "rt_expiresAt (revokeRow now r) = rt_expiresAt r" "rt_revokedAt (revokeRow now r) = Some now"
  by (simp_all add: revokeRow_def)

lemma revoke_someD: "lookup (updateWhere p (revokeRow now) T) k = Some r' \<Longrightarrow>
    \<exists>r. lookup T k = Some r \<and> rt_userId r' = rt_userId r \<and> rt_tokenHash r' = rt_tokenHash r \<and>
      rt_familyId r' = rt_familyId r \<and> rt_createdAt r' = rt_createdAt r \<and>
      (rt_revokedAt r' = None \<longrightarrow> rt_revokedAt r = None \<and> \<not> p r)"
  by (cases "lookup T k") (auto simp: revoke_lookup split: if_splits)

lemma hashUnique_revoke [refresh_inv]: "hashUnique T \<Longrightarrow> hashUnique (updateWhere p (revokeRow now) T)"
  unfolding hashUnique_def uniqueBy_def by (metis revoke_someD)

lemma oneLive_revoke [refresh_inv]: "oneLive T \<Longrightarrow> oneLive (updateWhere p (revokeRow now) T)"
  unfolding oneLive_def uniqueBy_def by (metis revoke_someD)

lemma famUser_revoke [refresh_inv]: "famUser T \<Longrightarrow> famUser (updateWhere p (revokeRow now) T)"
  unfolding famUser_def by (metis revoke_someD)

lemma createdBy_revoke [refresh_inv]: "createdBy t T \<Longrightarrow> createdBy t (updateWhere p (revokeRow now) T)"
  unfolding createdBy_def by (metis revoke_someD)

lemma createdBy_later: "createdBy t T \<Longrightarrow> t \<le> t' \<Longrightarrow> createdBy t' T"
  unfolding createdBy_def by (metis order_trans)

lemma famDead_revoke: "famDead T f \<Longrightarrow> famDead (updateWhere p (revokeRow now) T) f"
  unfolding famDead_def by (metis revoke_someD)

lemma famDead_revokeD:
  assumes "famDead (updateWhere (\<lambda>r. p r \<and> rt_revokedAt r = None) (revokeRow now) T) f"
    and "\<And>k r. lookup T k = Some r \<Longrightarrow> rt_familyId r = f \<Longrightarrow> rt_revokedAt r = None \<Longrightarrow> \<not> p r"
  shows "famDead T f"
  unfolding famDead_def
proof (intro allI impI notI)
  fix k r assume h: "lookup T k = Some r" "rt_familyId r = f" "rt_revokedAt r = None"
  then have "lookup (updateWhere (\<lambda>r. p r \<and> rt_revokedAt r = None) (revokeRow now) T) k = Some r"
    using assms(2) by (simp add: revoke_lookup)
  then show False using assms(1) h unfolding famDead_def by blast
qed

lemma fold_redisSetEx:
  "fold (\<lambda>f. redisSetEx now f () n) fs D f = (if f \<in> set fs then Some ((), now + n * 1000) else D f)"
  by (induction fs arbitrary: D) (auto simp: redisSetEx_def)

lemma denied_revoke:
  assumes d: "denied ttl T D" and c: "createdBy t T" and t: "t \<le> now"
    and F: "\<And>k r. lookup T k = Some r \<Longrightarrow> p r \<Longrightarrow> rt_revokedAt r = None \<Longrightarrow> rt_familyId r \<in> set fs"
  shows "denied ttl (updateWhere (\<lambda>r. p r \<and> rt_revokedAt r = None) (revokeRow now) T)
     (fold (\<lambda>f. redisSetEx now f () ttl) fs D)"
  unfolding denied_def
proof (intro allI impI)
  let ?T = "updateWhere (\<lambda>r. p r \<and> rt_revokedAt r = None) (revokeRow now) T"
  fix k r' assume h: "lookup ?T k = Some r'" and dead: "famDead ?T (rt_familyId r')"
  obtain r where r: "lookup T k = Some r" "rt_familyId r' = rt_familyId r" "rt_createdAt r' = rt_createdAt r"
    using revoke_someD [OF h] by blast
  show "\<exists>e. fold (\<lambda>f. redisSetEx now f () ttl) fs D (rt_familyId r') = Some ((), e) \<and>
      rt_createdAt r' + ttl * 1000 \<le> e"
  proof (cases "rt_familyId r \<in> set fs")
    case True
    have "rt_createdAt r \<le> now" using c t r(1) unfolding createdBy_def by fastforce
    then show ?thesis using True r by (simp add: fold_redisSetEx)
  next
    case False
    have "famDead T (rt_familyId r)"
      using famDead_revokeD [OF dead] F False r(2) by metis
    then show ?thesis using d r False unfolding denied_def by (metis fold_redisSetEx)
  qed
qed

lemma refreshInv_revoke:
  assumes i: "refreshInv ttl t T D" and t: "t \<le> now"
    and F: "\<And>k r. lookup T k = Some r \<Longrightarrow> p r \<Longrightarrow> rt_revokedAt r = None \<Longrightarrow> rt_familyId r \<in> set fs"
  shows "refreshInv ttl now (updateWhere (\<lambda>r. p r \<and> rt_revokedAt r = None) (revokeRow now) T)
     (fold (\<lambda>f. redisSetEx now f () ttl) fs D)"
  using i denied_revoke [OF _ _ t F] createdBy_later [OF _ t] unfolding refreshInv_def
  by (auto intro: refresh_inv)

lemma refreshInv_later: "refreshInv ttl t T D \<Longrightarrow> t \<le> t' \<Longrightarrow> refreshInv ttl t' T D"
  unfolding refreshInv_def using createdBy_later by blast

text \<open>Issuing the first token of a session.\<close>

lemma refreshInv_login:
  assumes i: "refreshInv ttl t T D" and k: "rid \<notin> set (keys T)"
    and f: "\<And>k q. lookup T k = Some q \<Longrightarrow> rt_familyId q \<noteq> rt_familyId r"
    and h: "\<And>k q. lookup T k = Some q \<Longrightarrow> rt_tokenHash q \<noteq> rt_tokenHash r"
    and n: "rt_revokedAt r = None" "rt_createdAt r \<le> t"
  shows "refreshInv ttl t (insertRow rid r T) D"
proof -
  have l: "lookup (insertRow rid r T) j = (if j = rid then Some r else lookup T j)" for j
    by (rule lookup_insertRow [OF k])
  have "hashUnique (insertRow rid r T)"
    unfolding hashUnique_def
    by (rule uniqueBy_insert [OF _ k]) (use i h in \<open>auto simp: refreshInv_def hashUnique_def dest: sym\<close>)
  moreover have "oneLive (insertRow rid r T)"
    unfolding oneLive_def
    by (rule uniqueBy_insert [OF _ k]) (use i f in \<open>auto simp: refreshInv_def oneLive_def dest: sym\<close>)
  moreover have "famUser (insertRow rid r T)"
    using i f unfolding refreshInv_def famUser_def l by (metis option.inject)
  moreover have "createdBy t (insertRow rid r T)"
    using i n unfolding refreshInv_def createdBy_def l by simp
  moreover have "denied ttl (insertRow rid r T) D"
    unfolding denied_def
  proof (intro allI impI)
    fix j q assume q: "lookup (insertRow rid r T) j = Some q"
      and dead: "famDead (insertRow rid r T) (rt_familyId q)"
    have ne: "rt_familyId q \<noteq> rt_familyId r" using dead n(1) unfolding famDead_def l by metis
    then have "lookup T j = Some q" using q l by (auto split: if_splits)
    moreover have "famDead T (rt_familyId q)"
      using dead ne unfolding famDead_def l by (metis k lookup_Some_keys)
    ultimately show "\<exists>e. D (rt_familyId q) = Some ((), e) \<and> rt_createdAt q + ttl * 1000 \<le> e"
      using i unfolding refreshInv_def denied_def by blast
  qed
  ultimately show ?thesis using i k by (simp add: refreshInv_def)
qed

text \<open>Issuing the successor of a live token.\<close>

lemma refreshInv_successor:
  assumes i: "refreshInv ttl t T D" and k: "rid \<notin> set (keys T)"
    and p: "lookup T p = Some q0" "rt_revokedAt q0 = None"
    and f: "rt_familyId r = rt_familyId q0" "rt_userId r = rt_userId q0"
    and h: "\<And>k q. lookup T k = Some q \<Longrightarrow> rt_tokenHash q \<noteq> rt_tokenHash r"
    and n: "rt_revokedAt r = None" "rt_createdAt r \<le> t"
  shows "refreshInv ttl t
    (updateRow p (\<lambda>r. r\<lparr>rt_revokedAt := Some now, rt_replacedById := Some rid\<rparr>) (insertRow rid r T)) D"
    (is "refreshInv ttl t ?T D")
proof -
  let ?q = "q0\<lparr>rt_revokedAt := Some now, rt_replacedById := Some rid\<rparr>"
  have pr: "p \<noteq> rid" using k p(1) lookup_Some_keys by metis
  have l: "lookup ?T j = (if j = rid then Some r else if j = p then Some ?q else lookup T j)" for j
    using pr p(1) by (simp add: lookup_updateRow lookup_insertRow [OF k])
  have orig: "\<exists>q'. lookup T j = Some q' \<and> rt_familyId q' = rt_familyId q \<and> rt_userId q' = rt_userId q \<and>
      rt_tokenHash q' = rt_tokenHash q \<and> rt_createdAt q' = rt_createdAt q \<and>
      (rt_revokedAt q = None \<longrightarrow> rt_revokedAt q' = None \<and> j \<noteq> p)"
    if "lookup ?T j = Some q" "j \<noteq> rid" for j q
    using that p by (auto simp: l split: if_splits)
  have atrid: "q = r" if "lookup ?T rid = Some q" for q using that by (simp add: l)
  have H: "hashUnique T" and OL: "oneLive T" and U: "famUser T" and C: "createdBy t T" and De: "denied ttl T D"
    using i by (simp_all add: refreshInv_def)
  have hI: "uniqueBy (\<lambda>r q. rt_tokenHash r = rt_tokenHash q) (insertRow rid r T)"
    by (rule uniqueBy_insert [OF _ k]) (use H h in \<open>auto simp: hashUnique_def dest: sym\<close>)
  have "hashUnique ?T"
    unfolding hashUnique_def
  proof (rule uniqueBy_orig [OF hI])
    fix i a j b assume "lookup ?T i = Some a" "lookup ?T j = Some b" "rt_tokenHash a = rt_tokenHash b"
    then show "\<exists>a' b'. lookup (insertRow rid r T) i = Some a' \<and> lookup (insertRow rid r T) j = Some b' \<and>
        rt_tokenHash a' = rt_tokenHash b'"
      by (auto simp: lookup_updateRow split: if_splits)
  qed
  moreover have "oneLive ?T"
    unfolding oneLive_def
  proof (rule uniqueByI, elim conjE)
    fix i j a b
    assume a: "lookup ?T i = Some a" and b: "lookup ?T j = Some b"
      and e: "rt_familyId a = rt_familyId b" "rt_revokedAt a = None" "rt_revokedAt b = None"
    note u = uniqueByD [OF OL [unfolded oneLive_def]]
    have live: "i = rid" if "lookup ?T i = Some a" "rt_familyId a = rt_familyId r" "rt_revokedAt a = None" for i a
    proof (rule ccontr)
      note t = that
      assume "i \<noteq> rid"
      then obtain q' where q': "lookup T i = Some q'" "rt_familyId q' = rt_familyId q0"
          "rt_revokedAt q' = None" "i \<noteq> p"
        using orig [OF t(1)] t(2,3) f(1) by metis
      then show False using u [OF p(1) q'(1)] p(2) by simp
    qed
    show "i = j"
    proof (cases "rt_familyId a = rt_familyId r")
      case True
      then have "i = rid" "j = rid" using live [OF a] live [OF b] e by simp_all
      then show ?thesis by simp
    next
      case False
      then have "i \<noteq> rid" "j \<noteq> rid" using a b e atrid by auto
      then show ?thesis using orig [OF a] orig [OF b] e u by (metis (no_types, lifting))
    qed
  qed
  moreover have "rt_userId a = rt_userId b" if a: "lookup ?T j = Some a" and b: "lookup ?T k = Some b"
      and e: "rt_familyId a = rt_familyId b" for j k a b
  proof (cases "j = rid"; cases "k = rid")
    assume "j = rid" "k \<noteq> rid"
    then show ?thesis using orig [OF b] atrid a e p(1) f U unfolding famUser_def by metis
  next
    assume "j \<noteq> rid" "k = rid"
    then show ?thesis using orig [OF a] atrid b e p(1) f U unfolding famUser_def by metis
  next
    assume "j \<noteq> rid" "k \<noteq> rid"
    then show ?thesis using orig [OF a] orig [OF b] e U unfolding famUser_def by metis
  qed (use a b in simp)
  then have "famUser ?T" unfolding famUser_def by blast
  moreover have "createdBy t ?T"
    unfolding createdBy_def using C [unfolded createdBy_def] orig atrid n(2) by metis
  moreover have "denied ttl ?T D"
    unfolding denied_def
  proof (intro allI impI)
    fix j q assume q: "lookup ?T j = Some q" and dead: "famDead ?T (rt_familyId q)"
    have ne: "rt_familyId q \<noteq> rt_familyId r" using dead n(1) unfolding famDead_def l by metis
    then obtain q' where q': "lookup T j = Some q'" "rt_familyId q' = rt_familyId q" "rt_createdAt q' = rt_createdAt q"
      using orig [OF q] atrid q by (cases "j = rid") auto
    have "famDead T (rt_familyId q)"
      unfolding famDead_def
    proof (intro allI impI)
      fix k' r' assume "lookup T k' = Some r'" "rt_familyId r' = rt_familyId q"
      moreover from this have "k' \<noteq> rid" "k' \<noteq> p" using k lookup_Some_keys p(1) f(1) ne by fastforce+
      ultimately show "rt_revokedAt r' \<noteq> None" using dead unfolding famDead_def l by metis
    qed
    then show "\<exists>e. D (rt_familyId q) = Some ((), e) \<and> rt_createdAt q + ttl * 1000 \<le> e"
      using De q' unfolding denied_def by metis
  qed
  ultimately show ?thesis using i k by (simp add: refreshInv_def)
qed

section \<open>Operations keep the invariant\<close>

definition otHashes :: "one_time_token table \<Rightarrow> bool" where
  "otHashes T = uniqueBy (\<lambda>r q. ot_tokenHash r = ot_tokenHash q) T"

definition otUnused :: "one_time_token table \<Rightarrow> bool" where
  "otUnused T = uniqueBy (\<lambda>r q. ot_userId r = ot_userId q \<and> ot_type r = ot_type q \<and>
     ot_usedAt r = None \<and> ot_usedAt q = None) T"

definition otInv :: "one_time_token table \<Rightarrow> bool" where
  "otInv T \<longleftrightarrow> keyed T \<and> otHashes T \<and> otUnused T"

definition tokInv :: "('t, 'b) auth_env_scheme \<Rightarrow> int \<times> 'a token_state_scheme \<Rightarrow> bool" where
  "tokInv E c \<longleftrightarrow> refreshInv (ae_accessTtlSeconds E) (fst c) (refreshT (snd c)) (denyList (snd c)) \<and>
     otInv (oneTimeT (snd c))"

definition tokInit :: "int \<times> 'a token_state_scheme \<Rightarrow> bool" where
  "tokInit c \<longleftrightarrow> refreshT (snd c) = [] \<and> oneTimeT (snd c) = [] \<and> denyList (snd c) = (\<lambda>_. None)"

lemma revokeFamily_eq:
  "revokeFamily E now f s =
     s\<lparr>refreshT := updateWhere (\<lambda>r. rt_familyId r = f \<and> rt_revokedAt r = None) (revokeRow now) (refreshT s),
       denyList := fold (\<lambda>f. redisSetEx now f () (ae_accessTtlSeconds E)) [f] (denyList s)\<rparr>"
  by (simp add: revokeFamily_def denySessions_def)

lemma revokeFamily_inv: "tokInv E (now, s) \<Longrightarrow> tokInv E (now, revokeFamily E now f s)"
  unfolding tokInv_def revokeFamily_eq
  by (auto intro!: refreshInv_revoke [where p = "\<lambda>r. rt_familyId r = f" and fs = "[f]", simplified])

lemma revokeAllForUser_inv:
  assumes "tokInv E (now, s)"
  shows "tokInv E (now, revokeAllForUser E now u s)"
proof -
  have "rt_familyId r \<in> set (remdups (List.map rt_familyId (liveOf s u)))"
    if "lookup (refreshT s) k = Some r" "rt_userId r = u" "rt_revokedAt r = None" for k r
    using that lookup_in_rows [OF that(1)] by (auto simp: liveOf_def)
  then show ?thesis
    using assms refreshInv_revoke [of "ae_accessTtlSeconds E" now "refreshT s" "denyList s" now "\<lambda>r. rt_userId r = u"]
    by (simp add: tokInv_def revokeAllForUser_def denySessions_def)
qed

lemma revokeByRawToken_inv: "tokInv E (now, s) \<Longrightarrow> tokInv E (now, revokeByRawToken E now raw s)"
  by (auto simp: revokeByRawToken_def revokeFamily_inv split: option.splits)

lemma revokeSession_inv: "tokInv E (now, s) \<Longrightarrow> revokeSession E now u f s = Inr s' \<Longrightarrow> tokInv E (now, s')"
  by (auto simp: revokeSession_def throwIf_Inr_iff revokeFamily_inv)

lemma issueForLogin_inv:
  assumes "tokInv E (now, s)" "rid \<notin> set (keys (refreshT s))"
    "fam \<notin> rt_familyId ` set (rows (refreshT s))"
    "issueForLogin E now rid raw fam uid email meta s = Inr (tk, s')"
  shows "tokInv E (now, s')"
proof -
  have n: "findRefresh s (ae_sha256 E raw) = None"
    and s': "s' = s\<lparr>refreshT := insertRow rid (newRefresh E now raw uid fam meta) (refreshT s)\<rparr>"
    using assms(4) by (cases "findRefresh s (ae_sha256 E raw)";
      auto simp: issueForLogin_def issuePair_def throwIf_Inr_iff Let_def)+
  have "refreshInv (ae_accessTtlSeconds E) now
      (insertRow rid (newRefresh E now raw uid fam meta) (refreshT s)) (denyList s)"
    using assms(1-3) findRefresh_NoneD [OF n] lookup_in_rows
    by (intro refreshInv_login) (fastforce simp: tokInv_def newRefresh_def)+
  then show ?thesis using assms(1) s' by (simp add: tokInv_def)
qed

text \<open>The outcomes of a rotation.\<close>

lemma rotate_cases:
  obtains (unknown) "findRefresh s (ae_sha256 E raw) = None"
      "rotateToken E now rid newRaw raw meta s = (Inl (Unauthorized ''Invalid refresh token''), s)"
  | (replay) k r where "findRefresh s (ae_sha256 E raw) = Some (k, r)" "rt_revokedAt r \<noteq> None"
      "rotateToken E now rid newRaw raw meta s =
         (Inl (Unauthorized ''Refresh token reuse detected; please log in again''),
          revokeFamily E now (rt_familyId r) s)"
  | (refused) e k r where "findRefresh s (ae_sha256 E raw) = Some (k, r)" "rt_revokedAt r = None"
      "rotateToken E now rid newRaw raw meta s = (Inl e, s)"
  | (rotated) k r u tk where "findRefresh s (ae_sha256 E raw) = Some (k, r)" "rt_revokedAt r = None"
      "now < rt_expiresAt r" "findUser s (rt_userId r) = Some u"
      "findRefresh s (ae_sha256 E newRaw) = None"
      "rotateToken E now rid newRaw raw meta s = (Inr (tk, rt_userId r),
         s\<lparr>refreshT := updateRow k (\<lambda>r. r\<lparr>rt_revokedAt := Some now, rt_replacedById := Some rid\<rparr>)
            (insertRow rid (newRefresh E now newRaw (rt_userId r) (rt_familyId r) meta) (refreshT s))\<rparr>)"
proof (cases "findRefresh s (ae_sha256 E raw)")
  case None
  then show ?thesis using unknown by (simp add: rotateToken_def)
next
  case (Some p)
  obtain k r where p: "p = (k, r)" by (cases p)
  show ?thesis
  proof (cases "rt_revokedAt r = None")
    case False
    then show ?thesis using replay Some p by (simp add: rotateToken_def rtRevoked_def)
  next
    case live: True
    note R = rotateToken_def rtRevoked_def rtExpired_def issuePair_def
    show ?thesis
    proof (cases "now < rt_expiresAt r")
      case False
      then show ?thesis using refused Some p live by (simp add: R)
    next
      case e: True
      show ?thesis
      proof (cases "findUser s (rt_userId r)")
        case None
        then show ?thesis using refused Some p live e by (simp add: R)
      next
        case (Some u)
        then show ?thesis
          using refused rotated [of k r u] \<open>findRefresh s (ae_sha256 E raw) = Some p\<close> p live e
          by (cases "findRefresh s (ae_sha256 E newRaw)") (simp_all add: R Let_def)
      qed
    qed
  qed
qed

lemma rotate_inv:
  assumes i: "tokInv E (now, s)" and k: "rid \<notin> set (keys (refreshT s))"
  shows "tokInv E (now, snd (rotateToken E now rid newRaw raw meta s))"
proof (rule rotate_cases [of s E raw now rid newRaw meta])
  fix p r u tk
  assume f: "findRefresh s (ae_sha256 E raw) = Some (p, r)" and live: "rt_revokedAt r = None"
    and n: "findRefresh s (ae_sha256 E newRaw) = None"
    and e: "rotateToken E now rid newRaw raw meta s = (Inr (tk, rt_userId r),
         s\<lparr>refreshT := updateRow p (\<lambda>r. r\<lparr>rt_revokedAt := Some now, rt_replacedById := Some rid\<rparr>)
            (insertRow rid (newRefresh E now newRaw (rt_userId r) (rt_familyId r) meta) (refreshT s))\<rparr>)"
  have l: "lookup (refreshT s) p = Some r"
    using findRefresh_SomeD [OF _ f] i by (simp add: tokInv_def refreshInv_def)
  have "refreshInv (ae_accessTtlSeconds E) now
      (updateRow p (\<lambda>r. r\<lparr>rt_revokedAt := Some now, rt_replacedById := Some rid\<rparr>)
        (insertRow rid (newRefresh E now newRaw (rt_userId r) (rt_familyId r) meta) (refreshT s))) (denyList s)"
    using i findRefresh_NoneD [OF n]
    by (intro refreshInv_successor [OF _ k l live]) (auto simp: tokInv_def newRefresh_def)
  then show ?thesis using i e by (simp add: tokInv_def)
qed (use i in \<open>simp_all add: revokeFamily_inv\<close>)

text \<open>Marking tokens used, whichever they are, keeps both uniqueness laws.\<close>

lemma otInv_marked:
  assumes i: "otInv T" and k: "keyed T'"
    and orig: "\<And>j q. lookup T' j = Some q \<Longrightarrow> \<exists>q'. lookup T j = Some q' \<and>
      ot_tokenHash q' = ot_tokenHash q \<and> ot_userId q' = ot_userId q \<and> ot_type q' = ot_type q \<and>
      (ot_usedAt q = None \<longrightarrow> ot_usedAt q' = None)"
  shows "otInv T'"
proof -
  have h: "uniqueBy (\<lambda>r q. ot_tokenHash r = ot_tokenHash q) T"
    and u: "uniqueBy (\<lambda>r q. ot_userId r = ot_userId q \<and> ot_type r = ot_type q \<and>
      ot_usedAt r = None \<and> ot_usedAt q = None) T"
    using i by (simp_all add: otInv_def otHashes_def otUnused_def)
  have "otHashes T'"
    unfolding otHashes_def by (rule uniqueBy_orig [OF h]) (metis orig)
  moreover have "otUnused T'"
    unfolding otUnused_def by (rule uniqueBy_orig [OF u]) (metis orig)
  ultimately show ?thesis using k by (simp add: otInv_def)
qed

lemma otInv_mark: "otInv T \<Longrightarrow> otInv (updateWhere p (\<lambda>t. t\<lparr>ot_usedAt := Some now\<rparr>) T)"
  by (rule otInv_marked) (auto simp: otInv_def lookup_updateWhere split: if_splits)

lemma otInv_use: "otInv T \<Longrightarrow> otInv (updateRow k (\<lambda>t. t\<lparr>ot_usedAt := Some now\<rparr>) T)"
  by (rule otInv_marked) (auto simp: otInv_def lookup_updateRow split: if_splits)

lemma issueOneTime_inv:
  assumes "otInv (oneTimeT s)" "oid \<notin> set (keys (oneTimeT s))"
  shows "otInv (oneTimeT (snd (issueOneTime E now oid raw u ty s)))"
proof -
  let ?T = "updateWhere (\<lambda>t. ot_userId t = u \<and> ot_type t = ty \<and> ot_usedAt t = None)
      (\<lambda>t. t\<lparr>ot_usedAt := Some now\<rparr>) (oneTimeT s)"
  let ?r = "\<lparr>ot_userId = u, ot_type = ty, ot_tokenHash = ae_sha256 E raw,
      ot_expiresAt = now + ONE_TIME_TOKEN_TTL_MS ty, ot_usedAt = None\<rparr>"
  have m: "otInv ?T" using assms(1) by (rule otInv_mark)
  have k: "oid \<notin> set (keys ?T)" using assms(2) by simp
  have none: "ot_usedAt q \<noteq> None" if "lookup ?T j = Some q" "ot_userId q = u" "ot_type q = ty" for j q
    using that by (cases "lookup (oneTimeT s) j") (auto simp: tbl_simps split: if_splits)
  have "otInv (insertRow oid ?r ?T)" if h: "\<not> list_ex (\<lambda>t. ot_tokenHash t = ae_sha256 E raw) (rows ?T)"
  proof -
    have h': "ot_tokenHash q \<noteq> ae_sha256 E raw" if "lookup ?T j = Some q" for j q
      using h lookup_in_rows [OF that] by (auto simp: list_ex_iff)
    have "otHashes (insertRow oid ?r ?T)"
      unfolding otHashes_def
      by (rule uniqueBy_insert [OF _ k]) (use m h' in \<open>auto simp: otInv_def otHashes_def dest: sym\<close>)
    moreover have "otUnused (insertRow oid ?r ?T)"
      unfolding otUnused_def
      by (rule uniqueBy_insert [OF _ k]) (use m none in \<open>auto simp: otInv_def otUnused_def dest: sym\<close>)
    ultimately show ?thesis using m k by (simp add: otInv_def)
  qed
  then show ?thesis using m by (simp add: issueOneTime_def Let_def)
qed

lemma consumeOneTime_inv:
  "otInv (oneTimeT s) \<Longrightarrow> consumeOneTime E now raw ty s = Inr (u, s') \<Longrightarrow> otInv (oneTimeT s')"
  by (auto simp: consumeOneTime_def otInv_use split: option.splits if_splits)

lemma token_tables_kept [simp]:
  "refreshT (snd (issueOneTime E now oid raw u ty s)) = refreshT s"
  "denyList (snd (issueOneTime E now oid raw u ty s)) = denyList s"
  "oneTimeT (snd (rotateToken E now rid newRaw raw meta s)) = oneTimeT s"
  by (auto simp: issueOneTime_def Let_def rotateToken_def revokeFamily_eq issuePair_def throwIf_def split: option.splits sum.splits if_splits)

section \<open>Reachable states\<close>

text \<open>
  A configuration is the clock and the state. The clock only moves forward; anything that
  leaves the token tables alone may happen in between.
\<close>

inductive tok_step :: "('t, 'b) auth_env_scheme \<Rightarrow> int \<times> 'a token_state_scheme \<Rightarrow> int \<times> 'a token_state_scheme \<Rightarrow> bool"
  for E where
  wait: "t \<le> t' \<Longrightarrow> tok_step E (t, s) (t', s)"
| other: "refreshT s' = refreshT s \<Longrightarrow> oneTimeT s' = oneTimeT s \<Longrightarrow> denyList s' = denyList s \<Longrightarrow>
    tok_step E (t, s) (t, s')"
| login: "rid \<notin> set (keys (refreshT s)) \<Longrightarrow> fam \<notin> rt_familyId ` set (rows (refreshT s)) \<Longrightarrow>
    issueForLogin E t rid raw fam uid email meta s = Inr (tk, s') \<Longrightarrow> tok_step E (t, s) (t, s')"
| rotate: "rid \<notin> set (keys (refreshT s)) \<Longrightarrow>
    tok_step E (t, s) (t, snd (rotateToken E t rid newRaw raw meta s))"
| revokeRaw: "tok_step E (t, s) (t, revokeByRawToken E t raw s)"
| revokeAll: "tok_step E (t, s) (t, revokeAllForUser E t u s)"
| revokeOne: "revokeSession E t u f s = Inr s' \<Longrightarrow> tok_step E (t, s) (t, s')"
| issue: "oid \<notin> set (keys (oneTimeT s)) \<Longrightarrow>
    tok_step E (t, s) (t, snd (issueOneTime E t oid raw u ty s))"
| consume: "consumeOneTime E t raw ty s = Inr (u, s') \<Longrightarrow> tok_step E (t, s) (t, s')"

inductive_cases tok_stepE: "tok_step E c c'"

lemma consume_tables: "consumeOneTime E t raw ty s = Inr (u, s') \<Longrightarrow>
    refreshT s' = refreshT s \<and> denyList s' = denyList s"
  by (auto simp: consumeOneTime_def split: option.splits if_splits)

lemma revoke_keeps_oneTime [simp]:
  "oneTimeT (revokeFamily E t f s) = oneTimeT s"
  "oneTimeT (revokeAllForUser E t u s) = oneTimeT s"
  "oneTimeT (revokeByRawToken E t raw s) = oneTimeT s"
  by (auto simp: revokeFamily_eq revokeAllForUser_def denySessions_def revokeByRawToken_def split: option.splits)

lemma tok_step_inv: "tok_step E c c' \<Longrightarrow> tokInv E c \<Longrightarrow> tokInv E c'"
proof (induction rule: tok_step.induct)
  case (issue oid s t raw u ty)
  then show ?case by (simp add: tokInv_def issueOneTime_inv)
next
  case (consume t raw ty s u s')
  then show ?case using consumeOneTime_inv consume_tables by (fastforce simp: tokInv_def)
next
  case (wait t t' s)
  then show ?case using refreshInv_later by (fastforce simp: tokInv_def)
next
  case (other s' s t)
  then show ?case by (simp add: tokInv_def)
qed (auto intro: issueForLogin_inv rotate_inv revokeByRawToken_inv revokeAllForUser_inv revokeSession_inv)

lemma tokInit_inv: "tokInit c \<Longrightarrow> tokInv E c"
  by (simp add: tokInit_def tokInv_def refreshInv_def otInv_def hashUnique_def oneLive_def famUser_def
      createdBy_def denied_def keyed_def keys_def lookup_def otHashes_def otUnused_def)

interpretation tok: step_system tokInit "tok_step E" "tokInv E"
  by unfold_locales (auto intro: tokInit_inv tok_step_inv)

section \<open>Properties\<close>

lemma listSessions_ids:
  "mset (List.map si_id (listSessions now u cur s)) =
   mset (List.map rt_familyId (List.filter (\<lambda>r. rt_userId r = u \<and> rt_revokedAt r = None \<and>
     now < rt_expiresAt r) (rows (refreshT s))))"
  by (simp add: listSessions_def Let_def conj_assoc image_mset.compositionality comp_def)

text \<open>
  C3. In every reachable state a session (a refresh-token family) has at most one token that
  is not revoked, all its tokens belong to one user, and the list of a user's sessions names
  each session once.
\<close>

theorem one_live_token_per_session:
  assumes "tokInit c0" "(tok_step E)\<^sup>*\<^sup>* c0 (t, s)"
  shows "(\<forall>j k r q. lookup (refreshT s) j = Some r \<and> lookup (refreshT s) k = Some q \<and>
       rt_familyId r = rt_familyId q \<longrightarrow>
       rt_userId r = rt_userId q \<and> (rt_revokedAt r = None \<and> rt_revokedAt q = None \<longrightarrow> j = k)) \<and>
    distinct (List.map si_id (listSessions now u cur s))"
proof -
  have i: "keyed (refreshT s)" "oneLive (refreshT s)" "famUser (refreshT s)"
    using tok.reach_inv [OF assms] by (simp_all add: tokInv_def refreshInv_def)
  have "uniqueBy (\<lambda>r q. rt_familyId r = rt_familyId q \<and>
      (rt_userId r = u \<and> rt_revokedAt r = None \<and> now < rt_expiresAt r) \<and>
      (rt_userId q = u \<and> rt_revokedAt q = None \<and> now < rt_expiresAt q)) (refreshT s)"
    using i(2) by (auto simp: oneLive_def uniqueBy_def)
  from distinct_rows_of [OF i(1) this]
  have "distinct (List.map si_id (listSessions now u cur s))"
    using mset_eq_imp_distinct_iff [OF listSessions_ids, of now u cur s] by blast
  moreover have "j = k" if "lookup (refreshT s) j = Some r" "lookup (refreshT s) k = Some q"
      "rt_familyId r = rt_familyId q" "rt_revokedAt r = None" "rt_revokedAt q = None" for j k r q
    by (rule uniqueByD [OF i(2) [unfolded oneLive_def] that(1,2)]) (use that in simp)
  moreover have "rt_userId r = rt_userId q" if "lookup (refreshT s) j = Some r"
      "lookup (refreshT s) k = Some q" "rt_familyId r = rt_familyId q" for j k r q
    using i(3) that unfolding famUser_def by blast
  ultimately show ?thesis by blast
qed

text \<open>A dead session stays dead.\<close>

definition sessionDead :: "'a token_state_scheme \<Rightarrow> id \<Rightarrow> bool" where
  "sessionDead s f \<longleftrightarrow> famDead (refreshT s) f \<and> f \<in> rt_familyId ` set (rows (refreshT s))"

lemma famDeadD: "famDead T f \<Longrightarrow> lookup T k = Some r \<Longrightarrow> rt_familyId r = f \<Longrightarrow> rt_revokedAt r \<noteq> None"
  unfolding famDead_def by blast

lemma famDead_revoked: "famDead (updateWhere (\<lambda>r. rt_familyId r = f \<and> rt_revokedAt r = None) (revokeRow now) T) f"
  unfolding famDead_def using revoke_someD [of "\<lambda>r. rt_familyId r = f \<and> rt_revokedAt r = None" now T] by metis

lemma fam_in_rows_revoke:
  assumes "f \<in> rt_familyId ` set (rows T)"
  shows "f \<in> rt_familyId ` set (rows (updateWhere p (revokeRow now) T))"
proof -
  obtain r where r: "r \<in> set (rows T)" "f = rt_familyId r" using assms by blast
  let ?r = "if p r then revokeRow now r else r"
  have "?r \<in> set (rows (updateWhere p (revokeRow now) T))" unfolding rows_updateWhere using r(1) by (simp only: set_map image_eqI)
  moreover have "rt_familyId ?r = f" using r(2) by simp
  ultimately show ?thesis by blast
qed

lemma sessionDead_revoke:
  "sessionDead s f \<Longrightarrow> refreshT s' = updateWhere p (revokeRow now) (refreshT s) \<Longrightarrow> sessionDead s' f"
  using famDead_revoke fam_in_rows_revoke by (fastforce simp: sessionDead_def)

lemma sessionDead_revokeFamily: "sessionDead s f \<Longrightarrow> sessionDead (revokeFamily E now g s) f"
  by (rule sessionDead_revoke) (simp_all add: revokeFamily_eq)

lemma sessionDead_revokeAll: "sessionDead s f \<Longrightarrow> sessionDead (revokeAllForUser E now u s) f"
  by (rule sessionDead_revoke) (simp_all add: revokeAllForUser_def denySessions_def)

lemma sessionDead_step: "tok_step E c c' \<Longrightarrow> tokInv E c \<Longrightarrow> sessionDead (snd c) f \<Longrightarrow> sessionDead (snd c') f"
proof (induction rule: tok_step.induct)
  case (login rid s fam t raw uid email meta tk s')
  then have s': "s' = s\<lparr>refreshT := insertRow rid (newRefresh E t raw uid fam meta) (refreshT s)\<rparr>"
    by (auto simp: issueForLogin_def issuePair_def throwIf_def Let_def split: if_splits)
  have "fam \<noteq> f" using login by (auto simp: sessionDead_def)
  then show ?case using login s'
    by (auto simp: sessionDead_def famDead_def lookup_insertRow newRefresh_def)
next
  case (rotate rid s t newRaw raw meta)
  show ?case
  proof (rule rotate_cases [of s E raw t rid newRaw meta])
    fix k r u tk
    assume fr: "findRefresh s (ae_sha256 E raw) = Some (k, r)" and live: "rt_revokedAt r = None"
      and e: "rotateToken E t rid newRaw raw meta s = (Inr (tk, rt_userId r),
         s\<lparr>refreshT := updateRow k (\<lambda>r. r\<lparr>rt_revokedAt := Some t, rt_replacedById := Some rid\<rparr>)
            (insertRow rid (newRefresh E t newRaw (rt_userId r) (rt_familyId r) meta) (refreshT s))\<rparr>)"
    have l: "lookup (refreshT s) k = Some r"
      using findRefresh_SomeD [OF _ fr] rotate.prems(1) by (simp add: tokInv_def refreshInv_def)
    then have ne: "rt_familyId r \<noteq> f" using live rotate.prems(2) famDeadD unfolding sessionDead_def by fastforce
    let ?T = "updateRow k (\<lambda>r. r\<lparr>rt_revokedAt := Some t, rt_replacedById := Some rid\<rparr>)
            (insertRow rid (newRefresh E t newRaw (rt_userId r) (rt_familyId r) meta) (refreshT s))"
    have "famDead ?T f"
      using rotate.prems(2) ne rotate.hyps
      by (auto simp: sessionDead_def famDead_def lookup_updateRow lookup_insertRow newRefresh_def split: if_splits)
    moreover obtain q where q: "q \<in> set (rows (refreshT s))" "rt_familyId q = f"
      using rotate.prems(2) by (auto simp: sessionDead_def)
    moreover obtain j where j: "lookup (refreshT s) j = Some q"
      using rows_lookup [OF _ q(1)] rotate.prems(1) by (auto simp: tokInv_def refreshInv_def)
    then have "j \<noteq> k" "j \<noteq> rid" using l ne q(2) rotate.hyps lookup_Some_keys by fastforce+
    then have "lookup ?T j = Some q" using j rotate.hyps by (simp add: lookup_updateRow lookup_insertRow)
    then have "q \<in> set (rows ?T)" by (rule lookup_in_rows)
    ultimately show ?thesis using e by (auto simp: sessionDead_def)
  next
    fix k r
    assume "rotateToken E t rid newRaw raw meta s =
        (Inl (Unauthorized ''Refresh token reuse detected; please log in again''), revokeFamily E t (rt_familyId r) s)"
    then show ?thesis using rotate.prems(2) by (simp add: sessionDead_revokeFamily)
  qed (use rotate.prems in simp_all)
next
  case (revokeRaw t raw s)
  then show ?case by (auto simp: revokeByRawToken_def sessionDead_revokeFamily split: option.splits)
next
  case (revokeAll t u s)
  then show ?case by (simp add: sessionDead_revokeAll)
next
  case (revokeOne t u g s s')
  then have "s' = revokeFamily E t g s" by (simp add: revokeSession_def throwIf_Inr_iff)
  then show ?case using revokeOne by (simp add: sessionDead_revokeFamily)
next
  case (consume t raw ty s u s')
  then show ?case using consume_tables by (fastforce simp: sessionDead_def)
qed (simp_all add: sessionDead_def)

lemma sessionDead_steps:
  "(tok_step E)\<^sup>*\<^sup>* c c' \<Longrightarrow> tokInv E c \<Longrightarrow> sessionDead (snd c) f \<Longrightarrow> sessionDead (snd c') f"
proof (induction rule: rtranclp_induct)
  case (step c' c'')
  then show ?case using sessionDead_step tok.inv_steps by blast
qed

lemma dead_rotation_refused:
  assumes "tokInv E (t, s)" "sessionDead s (rt_familyId r)" "findRefresh s (ae_sha256 E raw) = Some (k, r)"
  shows "\<not> isInr (fst (rotateToken E t rid newRaw raw meta s))"
proof -
  have "lookup (refreshT s) k = Some r"
    using findRefresh_SomeD [OF _ assms(3)] assms(1) by (simp add: tokInv_def refreshInv_def)
  then have "rt_revokedAt r \<noteq> None" using assms(2) by (auto simp: sessionDead_def famDead_def)
  then show ?thesis using assms(3) by (simp add: rotateToken_def rtRevoked_def)
qed

text \<open>
  C2. Reuse detection. Presenting a refresh token that was already rotated or revoked is
  refused, and from then on, whatever happens later, no token of that session can be
  rotated again.
\<close>

theorem replay_kills_session:
  assumes "tokInit c0" "(tok_step E)\<^sup>*\<^sup>* c0 (t, s)"
    and "findRefresh s (ae_sha256 E raw) = Some (k, r)" "rt_revokedAt r \<noteq> None"
    and "(tok_step E)\<^sup>*\<^sup>* (t, snd (rotateToken E t rid newRaw raw meta s)) (t', s')"
    and "findRefresh s' (ae_sha256 E raw') = Some (k', r')" "rt_familyId r' = rt_familyId r"
  shows "fst (rotateToken E t rid newRaw raw meta s) =
      Inl (Unauthorized ''Refresh token reuse detected; please log in again'') \<and>
    \<not> isInr (fst (rotateToken E t' rid' newRaw' raw' meta' s'))"
proof -
  have i: "tokInv E (t, s)" by (rule tok.reach_inv [OF assms(1,2)])
  have e: "rotateToken E t rid newRaw raw meta s =
      (Inl (Unauthorized ''Refresh token reuse detected; please log in again''), revokeFamily E t (rt_familyId r) s)"
    using assms(3,4) by (simp add: rotateToken_def rtRevoked_def)
  have l: "lookup (refreshT s) k = Some r"
    using findRefresh_SomeD [OF _ assms(3)] i by (simp add: tokInv_def refreshInv_def)
  have "famDead (refreshT (revokeFamily E t (rt_familyId r) s)) (rt_familyId r)"
    by (simp add: revokeFamily_eq famDead_revoked)
  then have d: "sessionDead (revokeFamily E t (rt_familyId r) s) (rt_familyId r)"
    using lookup_in_rows [OF l] fam_in_rows_revoke by (auto simp: sessionDead_def revokeFamily_eq)
  have i1: "tokInv E (t, revokeFamily E t (rt_familyId r) s)" using i by (rule revokeFamily_inv)
  have st: "(tok_step E)\<^sup>*\<^sup>* (t, revokeFamily E t (rt_familyId r) s) (t', s')" using assms(5) e by simp
  have "sessionDead s' (rt_familyId r')" using sessionDead_steps [OF st i1] d assms(7) by simp
  then show ?thesis using dead_rotation_refused [OF tok.inv_steps [OF st i1] _ assms(6)] e by simp
qed

lemma floor_ms: "(x :: int) div 1000 * 1000 \<le> x"
  by presburger

lemma dead_session_denied:
  assumes "tokInv E (t, s)"
    and "lookup (refreshT s) k = Some r" "famDead (refreshT s) (rt_familyId r)"
    and "now div 1000 < cl_exp (accessClaims E (rt_createdAt r) uid email (rt_familyId r))"
  shows "isSessionRevoked now s (cl_sid (accessClaims E (rt_createdAt r) uid email (rt_familyId r)))"
proof -
  have "denied (ae_accessTtlSeconds E) (refreshT s) (denyList s)"
    using assms(1) by (simp add: tokInv_def refreshInv_def)
  then obtain e where e: "denyList s (rt_familyId r) = Some ((), e)"
      "rt_createdAt r + ae_accessTtlSeconds E * 1000 \<le> e"
    using assms(2,3) unfolding denied_def by blast
  have "now div 1000 < rt_createdAt r div 1000 + ae_accessTtlSeconds E"
    using assms(4) by (simp add: accessClaims_def)
  then have "now < (rt_createdAt r div 1000 + ae_accessTtlSeconds E) * 1000"
    by simp
  also have "\<dots> \<le> e"
    using e(2) floor_ms [of "rt_createdAt r"] by (simp add: distrib_right)
  finally show ?thesis using e(1) by (simp add: isSessionRevoked_def accessClaims_def redisGet_def)
qed

text \<open>
  Signing a device out takes effect at once: when every refresh token of a session is
  revoked, any access token issued with one of them that the JWT library would still accept
  belongs to a session the guard finds on the deny list.
\<close>

theorem signed_out_access_token_denied:
  assumes "tokInit c0" "(tok_step E)\<^sup>*\<^sup>* c0 (t, s)"
    and "lookup (refreshT s) k = Some r" "famDead (refreshT s) (rt_familyId r)"
    and "now div 1000 < cl_exp (accessClaims E (rt_createdAt r) (rt_userId r) email (rt_familyId r))"
  shows "isSessionRevoked now s (cl_sid (accessClaims E (rt_createdAt r) (rt_userId r) email (rt_familyId r)))"
  by (rule dead_session_denied [OF tok.reach_inv [OF assms(1,2)] assms(3-5)])

text \<open>What a row of the refresh tokens never loses: its user, its session, its creation.\<close>

definition sameIdentity :: "refresh_token \<Rightarrow> refresh_token \<Rightarrow> bool" where
  "sameIdentity r q \<longleftrightarrow> rt_userId q = rt_userId r \<and> rt_familyId q = rt_familyId r \<and>
     rt_createdAt q = rt_createdAt r \<and> rt_tokenHash q = rt_tokenHash r"

definition rowKept :: "'a token_state_scheme \<Rightarrow> id \<Rightarrow> refresh_token \<Rightarrow> bool" where
  "rowKept s k r \<longleftrightarrow> (\<exists>q. lookup (refreshT s) k = Some q \<and> sameIdentity r q)"

lemma rowKeptI: "lookup (refreshT s) k = Some q \<Longrightarrow> sameIdentity r q \<Longrightarrow> rowKept s k r"
  unfolding rowKept_def by blast

lemma rowKept_refl: "lookup (refreshT s) k = Some r \<Longrightarrow> rowKept s k r"
  by (simp add: rowKept_def sameIdentity_def)

lemma rowKept_revoke: "rowKept s k r \<Longrightarrow> refreshT s' = updateWhere p (revokeRow now) (refreshT s) \<Longrightarrow> rowKept s' k r"
proof -
  assume k: "rowKept s k r" and t: "refreshT s' = updateWhere p (revokeRow now) (refreshT s)"
  from k obtain q where q: "lookup (refreshT s) k = Some q" "sameIdentity r q" by (auto simp: rowKept_def)
  show ?thesis
    by (rule rowKeptI [of _ _ "if p q then revokeRow now q else q"])
      (use q t in \<open>simp_all add: lookup_updateWhere sameIdentity_def\<close>)
qed

lemma rowKept_insert: "rowKept s k r \<Longrightarrow> rid \<notin> set (keys (refreshT s)) \<Longrightarrow>
    refreshT s' = insertRow rid x (refreshT s) \<Longrightarrow> rowKept s' k r"
  using lookup_Some_keys by (fastforce simp: rowKept_def lookup_insertRow)

lemma rowKept_revokeFamily: "rowKept s k r \<Longrightarrow> rowKept (revokeFamily E now f s) k r"
  by (rule rowKept_revoke) (simp_all add: revokeFamily_eq)

lemma rowKept_revokeAll: "rowKept s k r \<Longrightarrow> rowKept (revokeAllForUser E now u s) k r"
  by (rule rowKept_revoke) (simp_all add: revokeAllForUser_def denySessions_def)

lemma rowKept_step: "tok_step E c c' \<Longrightarrow> rowKept (snd c) k r \<Longrightarrow> rowKept (snd c') k r"
proof (induction rule: tok_step.induct)
  case (login rid s fam t raw uid email meta tk s')
  then have "refreshT s' = insertRow rid (newRefresh E t raw uid fam meta) (refreshT s)"
    by (auto simp: issueForLogin_def issuePair_def throwIf_def Let_def split: if_splits)
  then show ?case using login rowKept_insert by fastforce
next
  case (rotate rid s t newRaw raw meta)
  show ?case
  proof (rule rotate_cases [of s E raw t rid newRaw meta])
    fix j q u tk
    assume e: "rotateToken E t rid newRaw raw meta s = (Inr (tk, rt_userId q),
         s\<lparr>refreshT := updateRow j (\<lambda>r. r\<lparr>rt_revokedAt := Some t, rt_replacedById := Some rid\<rparr>)
            (insertRow rid (newRefresh E t newRaw (rt_userId q) (rt_familyId q) meta) (refreshT s))\<rparr>)"
    obtain x where x: "lookup (refreshT s) k = Some x" "sameIdentity r x"
      using rotate.prems by (auto simp: rowKept_def)
    then have "k \<noteq> rid" using rotate.hyps lookup_Some_keys by fastforce
    then show ?thesis using x rotate.hyps
      by (intro rowKeptI [of _ _ "if k = j then x\<lparr>rt_revokedAt := Some t, rt_replacedById := Some rid\<rparr> else x"])
        (cases "k = j"; auto simp: e lookup_updateRow lookup_insertRow sameIdentity_def)+
  qed (use rotate.prems in \<open>simp_all add: rowKept_revokeFamily\<close>)
next
  case (revokeRaw t raw s)
  then show ?case by (auto simp: revokeByRawToken_def rowKept_revokeFamily split: option.splits)
next
  case (revokeAll t u s)
  then show ?case
    by (simp add: rowKept_revokeAll)
next
  case (revokeOne t u f s s')
  then have "s' = revokeFamily E t f s" by (simp add: revokeSession_def throwIf_Inr_iff)
  then show ?case using revokeOne by (simp add: rowKept_revokeFamily)
next
  case (consume t raw ty s u s')
  then show ?case using consume_tables by (fastforce simp: rowKept_def)
qed (simp_all add: rowKept_def)

lemma rowKept_steps: "(tok_step E)\<^sup>*\<^sup>* c c' \<Longrightarrow> rowKept (snd c) k r \<Longrightarrow> rowKept (snd c') k r"
  by (induction rule: rtranclp_induct) (auto intro: rowKept_step)

text \<open>Revoking all of a user's tokens ends every session the user has ever had.\<close>

lemma revokeAll_dead:
  assumes i: "tokInv E (t, s)" and r: "lookup (refreshT s) k = Some r" "rt_userId r = u"
  shows "sessionDead (revokeAllForUser E now u s) (rt_familyId r)"
proof -
  let ?T = "updateWhere (\<lambda>r. rt_userId r = u \<and> rt_revokedAt r = None) (revokeRow now) (refreshT s)"
  have fu: "famUser (refreshT s)" using i by (simp add: tokInv_def refreshInv_def)
  have "rt_revokedAt q \<noteq> None" if q: "lookup ?T j = Some q" "rt_familyId q = rt_familyId r" for j q
  proof -
    obtain q0 where q0: "lookup (refreshT s) j = Some q0"
      "q = (if rt_userId q0 = u \<and> rt_revokedAt q0 = None then revokeRow now q0 else q0)"
      using q(1) by (auto simp: lookup_updateWhere)
    have "rt_familyId q0 = rt_familyId r" using q0(2) q(2) by (simp split: if_splits)
    then have "rt_userId q0 = u" using fu q0(1) r unfolding famUser_def by metis
    then show ?thesis using q0(2) by (auto simp: revokeRow_def)
  qed
  then have "famDead ?T (rt_familyId r)" by (auto simp: famDead_def)
  moreover have "rt_familyId r \<in> rt_familyId ` set (rows ?T)"
    by (rule fam_in_rows_revoke) (use lookup_in_rows [OF r(1)] in simp)
  ultimately show ?thesis by (simp add: sessionDead_def revokeAllForUser_def denySessions_def)
qed

text \<open>A used one-time token stays used.\<close>

definition usedUp :: "'a token_state_scheme \<Rightarrow> string \<Rightarrow> bool" where
  "usedUp s h \<longleftrightarrow> (\<exists>k r. lookup (oneTimeT s) k = Some r \<and> ot_tokenHash r = h \<and> ot_usedAt r \<noteq> None)"

lemma usedUpI: "lookup (oneTimeT s) k = Some r \<Longrightarrow> ot_tokenHash r = h \<Longrightarrow> ot_usedAt r \<noteq> None \<Longrightarrow> usedUp s h"
  unfolding usedUp_def by blast

lemma findOneTime_SomeD:
  "keyed (oneTimeT s) \<Longrightarrow> findOneTime s h ty = Some (k, r) \<Longrightarrow>
     lookup (oneTimeT s) k = Some r \<and> ot_tokenHash r = h \<and> ot_type r = ty"
  using find_SomeD [of "\<lambda>(k, t). ot_tokenHash t = h \<and> ot_type t = ty" "oneTimeT s" "(k, r)"]
  by (auto simp: findOneTime_def keyed_lookup)

lemma usedUp_step: "tok_step E c c' \<Longrightarrow> usedUp (snd c) h \<Longrightarrow> usedUp (snd c') h"
proof (induction rule: tok_step.induct)
  case (issue oid s t raw u ty)
  then obtain k r where r: "lookup (oneTimeT s) k = Some r" "ot_tokenHash r = h" "ot_usedAt r \<noteq> None"
    by (auto simp: usedUp_def)
  then have "k \<noteq> oid" using issue.hyps lookup_Some_keys by metis
  then have "lookup (oneTimeT (snd (issueOneTime E t oid raw u ty s))) k = Some r"
    using r issue.hyps by (simp add: issueOneTime_def Let_def lookup_updateWhere lookup_insertRow)
  then show ?case using r by (auto intro: usedUpI)
next
  case (consume t raw ty s u s')
  then obtain k r where r: "lookup (oneTimeT s) k = Some r" "ot_tokenHash r = h" "ot_usedAt r \<noteq> None"
    by (auto simp: usedUp_def)
  obtain j where "oneTimeT s' = updateRow j (\<lambda>t'. t'\<lparr>ot_usedAt := Some t\<rparr>) (oneTimeT s)"
    using consume.hyps by (auto simp: consumeOneTime_def split: option.splits if_splits)
  then have "lookup (oneTimeT s') k = Some (if k = j then r\<lparr>ot_usedAt := Some t\<rparr> else r)"
    using r by (auto simp: lookup_updateRow)
  then show ?case using r by (auto intro!: usedUpI split: if_splits)
next
  case (login rid s fam t raw uid email meta tk s')
  then show ?case
    by (auto simp: issueForLogin_def issuePair_def throwIf_def Let_def usedUp_def split: if_splits)
next
  case (revokeOne t u f s s')
  then have "s' = revokeFamily E t f s" by (simp add: revokeSession_def throwIf_Inr_iff)
  then show ?case using revokeOne by (simp add: usedUp_def)
qed (simp_all add: usedUp_def)

lemma usedUp_steps: "(tok_step E)\<^sup>*\<^sup>* c c' \<Longrightarrow> usedUp (snd c) h \<Longrightarrow> usedUp (snd c') h"
  by (induction rule: rtranclp_induct) (auto intro: usedUp_step)

lemma usedUp_not_usable:
  assumes "otInv (oneTimeT s)" "usedUp s (ae_sha256 E raw)"
  shows "\<not> isInr (consumeOneTime E now raw ty s)"
proof (cases "findOneTime s (ae_sha256 E raw) ty")
  case None
  then show ?thesis by (simp add: consumeOneTime_def)
next
  case (Some p)
  then have f: "findOneTime s (ae_sha256 E raw) ty = Some (fst p, snd p)" by simp
  obtain k r where r: "lookup (oneTimeT s) k = Some r" "ot_tokenHash r = ae_sha256 E raw" "ot_usedAt r \<noteq> None"
    using assms(2) by (auto simp: usedUp_def)
  have l: "lookup (oneTimeT s) (fst p) = Some (snd p)" "ot_tokenHash (snd p) = ae_sha256 E raw"
    using findOneTime_SomeD [OF _ f] assms(1) by (auto simp: otInv_def)
  have u: "uniqueBy (\<lambda>r q. ot_tokenHash r = ot_tokenHash q) (oneTimeT s)"
    using assms(1) by (simp add: otInv_def otHashes_def)
  have "fst p = k" by (rule uniqueByD [OF u l(1) r(1)]) (simp add: l(2) r(2))
  then have "snd p = r" using l(1) r(1) by simp
  then show ?thesis using f r(3) by (simp add: consumeOneTime_def otUsable_def)
qed

text \<open>
  One-time tokens. Once an invite or reset token has been consumed it can never be
  consumed again, whatever happens later; and for each user and type at most one token is
  unused at any time.
\<close>

theorem one_time_token_used_once:
  assumes "tokInit c0" "(tok_step E)\<^sup>*\<^sup>* c0 (t, s)"
    and "consumeOneTime E t raw ty s = Inr (u, s1)" "(tok_step E)\<^sup>*\<^sup>* (t, s1) (t2, s2)"
  shows "\<not> isInr (consumeOneTime E t2 raw ty' s2) \<and>
    uniqueBy (\<lambda>r q. ot_userId r = ot_userId q \<and> ot_type r = ot_type q \<and>
      ot_usedAt r = None \<and> ot_usedAt q = None) (oneTimeT s2)"
proof -
  have i: "tokInv E (t, s)" by (rule tok.reach_inv [OF assms(1,2)])
  have "tok_step E (t, s) (t, s1)" using assms(3) by (rule tok_step.consume)
  then have i1: "tokInv E (t, s1)" using i by (rule tok_step_inv)
  obtain k r where f: "findOneTime s (ae_sha256 E raw) ty = Some (k, r)"
    and s1: "s1 = s\<lparr>oneTimeT := updateRow k (\<lambda>t'. t'\<lparr>ot_usedAt := Some t\<rparr>) (oneTimeT s)\<rparr>"
    using assms(3) by (auto simp: consumeOneTime_def split: option.splits if_splits)
  have "lookup (oneTimeT s) k = Some r \<and> ot_tokenHash r = ae_sha256 E raw"
    using findOneTime_SomeD [OF _ f] i by (simp add: tokInv_def otInv_def)
  then have "usedUp s1 (ae_sha256 E raw)"
    unfolding s1 by (auto intro!: usedUpI [of _ k] simp: lookup_updateRow)
  then have "usedUp s2 (ae_sha256 E raw)" using usedUp_steps [OF assms(4)] by simp
  moreover have "otInv (oneTimeT s2)"
    using tok.inv_steps [OF assms(4) i1] by (simp add: tokInv_def)
  ultimately show ?thesis
    using usedUp_not_usable [of s2 E raw t2 ty'] by (simp add: otInv_def otUnused_def)
qed

section \<open>A concrete run\<close>

text \<open>
  A toy JWT library that satisfies the laws (a token is its key and claims), an identity
  hash, and a database with one active user and one open session that was refreshed once.
\<close>

definition demoEnv :: "(string \<times> claims) auth_env" where
  "demoEnv = \<lparr>ae_sha256 = (\<lambda>x. x), ae_hashPassword = (\<lambda>p. p), ae_verifyPassword = (\<lambda>h p. h = p),
     ae_sign = (\<lambda>k c. (k, c)),
     ae_verify = (\<lambda>now k t. if fst t = k \<and> now div 1000 < cl_exp (snd t) then Some (snd t) else None),
     ae_accessSecret = ''a'', ae_accessSecretPrevious = None, ae_refreshSecret = ''r'',
     ae_refreshSecretPrevious = None, ae_accessTtlSeconds = 900, ae_refreshTtlMs = 604800000,
     ae_maxAttempts = 5, ae_lockMinutes = 15, ae_requiredRoles = [''ADMIN''], ae_mfaWindow = 1\<rparr>"

lemma demoEnv_laws: "jwtLaws demoEnv"
  by (auto simp: jwtLaws_def demoEnv_def)

definition demoTok0 :: token_state where
  "demoTok0 = \<lparr>usersT = [(0, (invitedUser ''a@b.c'' ''A'' ''B'' [3])\<lparr>u_status := ACTIVE\<rparr>)],
     rolesT = seedRoles, permsT = ALL_PERMISSIONS, ctxCache = (\<lambda>_. None),
     refreshT = [], oneTimeT = [], denyList = (\<lambda>_. None)\<rparr>"

definition noMeta :: client_meta where
  "noMeta = \<lparr>cm_userAgent = None, cm_ipAddress = None\<rparr>"

definition demoTok1 :: token_state where
  "demoTok1 = demoTok0\<lparr>refreshT := [(10, newRefresh demoEnv 5000 ''x'' 0 77 noMeta)]\<rparr>"

definition demoTok2 :: token_state where
  "demoTok2 = demoTok0\<lparr>refreshT := [(10, (newRefresh demoEnv 5000 ''x'' 0 77 noMeta)
       \<lparr>rt_revokedAt := Some 5000, rt_replacedById := Some 11\<rparr>),
     (11, newRefresh demoEnv 5000 ''y'' 0 77 noMeta)]\<rparr>"

definition demoTok3 :: token_state where
  "demoTok3 = revokeFamily demoEnv 5000 77 demoTok2"

lemmas demo_simps = demoTok0_def demoTok1_def demoTok2_def demoTok3_def demoEnv_def newRefresh_def
  noMeta_def findRefresh_def findUser_def lookup_def insertRow_def updateRow_def keys_def rows_def
  invitedUser_def revokeRow_def revokeFamily_eq updateWhere_def

lemma demoTok0_init: "tokInit (5000, demoTok0)"
  by (simp add: tokInit_def demoTok0_def)

lemma demo_login: "tok_step demoEnv (5000, demoTok0) (5000, demoTok1)"
proof (rule tok_step.login [where rid = 10 and fam = 77 and raw = "''x''" and uid = 0 and meta = noMeta])
  show "issueForLogin demoEnv 5000 10 ''x'' 77 0 email noMeta demoTok0 = Inr
     (\<lparr>it_accessToken = ae_sign demoEnv (ae_accessSecret demoEnv) (accessClaims demoEnv 5000 0 email 77),
       it_refreshToken = ''x'', it_expiresIn = ae_accessTtlSeconds demoEnv\<rparr>, demoTok1)" for email
    by (simp add: issueForLogin_def issuePair_def demo_simps)
qed (simp_all add: demo_simps)

lemma demo_refresh: "snd (rotateToken demoEnv 5000 11 ''y'' ''x'' noMeta demoTok1) = demoTok2"
  by (simp add: rotateToken_def issuePair_def rtRevoked_def rtExpired_def demo_simps)

lemma demo_replay: "rotateToken demoEnv 5000 12 ''z'' ''x'' noMeta demoTok2 =
    (Inl (Unauthorized ''Refresh token reuse detected; please log in again''), demoTok3)"
  by (simp add: rotateToken_def rtRevoked_def demo_simps)

lemma demo_run: "(tok_step demoEnv)\<^sup>*\<^sup>* (5000, demoTok0) (5000, demoTok2)"
proof -
  have "tok_step demoEnv (5000, demoTok1) (5000, snd (rotateToken demoEnv 5000 11 ''y'' ''x'' noMeta demoTok1))"
    by (rule tok_step.rotate) (simp add: demo_simps)
  then have "tok_step demoEnv (5000, demoTok1) (5000, demoTok2)" by (simp only: demo_refresh)
  with demo_login show ?thesis by - (rule converse_rtranclp_into_rtranclp, assumption, rule r_into_rtranclp)
qed

theorem one_live_token_per_session_witness:
  "List.map si_id (listSessions 6000 0 None demoTok2) = [77] \<and>
   distinct (List.map si_id (listSessions 6000 0 None demoTok2))"
proof
  show "distinct (List.map si_id (listSessions 6000 0 None demoTok2))"
    by (rule one_live_token_per_session [OF demoTok0_init demo_run, THEN conjunct2])
  show "List.map si_id (listSessions 6000 0 None demoTok2) = [77]"
    by (simp add: listSessions_def demo_simps)
qed

theorem replay_kills_session_witness:
  "fst (rotateToken demoEnv 5000 12 ''z'' ''x'' noMeta demoTok2) =
     Inl (Unauthorized ''Refresh token reuse detected; please log in again'') \<and>
   \<not> isInr (fst (rotateToken demoEnv 5000 13 ''w'' ''y'' noMeta demoTok3))"
proof (rule replay_kills_session [OF demoTok0_init demo_run])
  show "(tok_step demoEnv)\<^sup>*\<^sup>* (5000, snd (rotateToken demoEnv 5000 12 ''z'' ''x'' noMeta demoTok2)) (5000, demoTok3)"
    by (simp add: demo_replay)
  show "findRefresh demoTok2 (ae_sha256 demoEnv ''x'') = Some (10, (newRefresh demoEnv 5000 ''x'' 0 77 noMeta)
       \<lparr>rt_revokedAt := Some 5000, rt_replacedById := Some 11\<rparr>)"
    by (simp add: demo_simps)
  show "findRefresh demoTok3 (ae_sha256 demoEnv ''y'') =
      Some (11, revokeRow 5000 (newRefresh demoEnv 5000 ''y'' 0 77 noMeta))"
    by (simp add: demo_simps)
qed (simp_all add: newRefresh_def)

lemma demo_run3: "(tok_step demoEnv)\<^sup>*\<^sup>* (5000, demoTok0) (5000, demoTok3)"
proof -
  have "tok_step demoEnv (5000, demoTok2) (5000, snd (rotateToken demoEnv 5000 12 ''z'' ''x'' noMeta demoTok2))"
    by (rule tok_step.rotate) (simp add: demo_simps)
  then have "tok_step demoEnv (5000, demoTok2) (5000, demoTok3)" by (simp only: demo_replay snd_conv)
  with demo_run show ?thesis by (rule rtranclp.rtrancl_into_rtrancl)
qed

theorem signed_out_access_token_denied_witness:
  "isSessionRevoked 904999 demoTok3 (Some 77)"
proof -
  have "isSessionRevoked 904999 demoTok3
      (cl_sid (accessClaims demoEnv 5000 0 ''a@b.c'' 77))"
    using signed_out_access_token_denied [OF demoTok0_init demo_run3, of 11
        "revokeRow 5000 (newRefresh demoEnv 5000 ''y'' 0 77 noMeta)" 904999 "''a@b.c''"]
      famDead_revoked [of 77 5000 "refreshT demoTok2"]
    by (simp add: accessClaims_def demo_simps)
  then show ?thesis by (simp add: accessClaims_def)
qed

definition demoInvited :: token_state where
  "demoInvited = snd (issueOneTime demoEnv 5000 20 ''inv'' 0 one_time_type.INVITE demoTok0)"

definition demoAccepted :: token_state where
  "demoAccepted = demoInvited\<lparr>oneTimeT := updateRow 20 (\<lambda>t. t\<lparr>ot_usedAt := Some 5000\<rparr>) (oneTimeT demoInvited)\<rparr>"

theorem one_time_token_used_once_witness:
  "\<not> isInr (consumeOneTime demoEnv 5000 ''inv'' one_time_type.INVITE demoAccepted)"
proof -
  have st: "tok_step demoEnv (5000, demoTok0) (5000, demoInvited)"
    unfolding demoInvited_def by (rule tok_step.issue) (simp add: demo_simps)
  have "consumeOneTime demoEnv 5000 ''inv'' one_time_type.INVITE demoInvited = Inr (0, demoAccepted)"
    by (simp add: consumeOneTime_def demoInvited_def demoAccepted_def issueOneTime_def findOneTime_def
        otUsable_def ONE_TIME_TOKEN_TTL_MS_def demo_simps)
  moreover have "(tok_step demoEnv)\<^sup>*\<^sup>* (5000, demoTok0) (5000, demoInvited)"
    by (rule r_into_rtranclp) (rule st)
  ultimately show ?thesis
    using one_time_token_used_once [OF demoTok0_init _ _ rtranclp.rtrancl_refl] by blast
qed

text \<open>
  The check and the revocation of a rotation are not one atomic step. Two requests that both
  read the token before either has written both get a successor, and the session then has
  two live tokens: the replay goes undetected.
\<close>

definition raceRotate :: "token_state res" where
  "raceRotate =
     bindE (issuePair demoEnv 5000 11 ''y'' 0 ''a@b.c'' 77 noMeta (Some 10) demoTok1) (\<lambda>(_, s1).
     bindE (issuePair demoEnv 5000 12 ''z'' 0 ''a@b.c'' 77 noMeta (Some 10) s1) (\<lambda>(_, s2). Inr s2))"

lemma rotate_race_two_live:
  "(case raceRotate of Inl _ \<Rightarrow> False
    | Inr s \<Rightarrow> length (List.filter (\<lambda>r. rt_familyId r = 77 \<and> rt_revokedAt r = None) (rows (refreshT s))) = 2)"
  by (simp add: raceRotate_def issuePair_def demo_simps)

end
