(* ===== verification/Totp.thy ===== *)
theory Totp
  imports Bits Doubles "HOL-Library.Char_ord"
begin

text \<open>
  One-time passwords (\<open>src/common/security/totp.ts\<close>): base32 with the 32-bit shifts of the
  code, the time step computed in double precision, the truncation of the HMAC and the
  check of a code over a window of steps. HMAC-SHA1 is an argument. Exceptions the code does
  not catch are \<open>InternalError\<close>.
\<close>

section \<open>Base32\<close>

definition B32 :: string where
  "B32 = ''ABCDEFGHIJKLMNOPQRSTUVWXYZ234567''"

text \<open>The inner loop: emit five bits at a time.\<close>

function b32Drain :: "nat \<Rightarrow> 32 word \<Rightarrow> string \<Rightarrow> nat \<times> string" where
  "b32Drain bits v out =
     (if 5 \<le> bits
      then b32Drain (bits - 5) v (out @ [B32 ! unat (drop_bit (bits - 5) v AND 31)])
      else (bits, out))"
  by auto
termination by (relation "measure (\<lambda>(bits, _). bits)") auto

declare b32Drain.simps [simp del]

fun b32EncLoop :: "byte list \<Rightarrow> nat \<Rightarrow> 32 word \<Rightarrow> string \<Rightarrow> nat \<times> 32 word \<times> string" where
  "b32EncLoop [] bits v out = (bits, v, out)"
| "b32EncLoop (b # bs) bits v out =
     (let v' = push_bit 8 v OR ucast b; (bits', out') = b32Drain (bits + 8) v' out
      in b32EncLoop bs bits' v' out')"

definition base32Encode :: "byte list \<Rightarrow> string" where
  "base32Encode bs = (let (bits, v, out) = b32EncLoop bs 0 0 [] in
     if 0 < bits then out @ [B32 ! unat (push_bit (5 - bits) v AND 31)] else out)"

definition upperChar :: "char \<Rightarrow> char" where
  "upperChar c = (let n = (of_char c :: nat) in if 97 \<le> n \<and> n \<le> 122 then char_of (n - 32) else c)"

definition isSpace :: "char \<Rightarrow> bool" where
  "isSpace c = ((of_char c :: nat) \<in> {9, 10, 11, 12, 13, 32})"

fun indexOf :: "char \<Rightarrow> string \<Rightarrow> nat option" where
  "indexOf c [] = None"
| "indexOf c (d # ds) = (if c = d then Some 0 else map_option Suc (indexOf c ds))"

fun b32DecLoop :: "string \<Rightarrow> nat \<Rightarrow> 32 word \<Rightarrow> byte list \<Rightarrow> byte list option" where
  "b32DecLoop [] bits v out = Some out"
| "b32DecLoop (c # cs) bits v out =
     (case indexOf c B32 of
        None \<Rightarrow> None
      | Some idx \<Rightarrow>
          (let v' = push_bit 5 v OR word_of_nat idx; bits' = bits + 5
           in if 8 \<le> bits'
              then b32DecLoop cs (bits' - 8) v' (out @ [ucast (drop_bit (bits' - 8) v' AND 255)])
              else b32DecLoop cs bits' v' out))"

definition base32Clean :: "string \<Rightarrow> string" where
  "base32Clean s = List.filter (\<lambda>c. \<not> isSpace c)
     (rev (dropWhile (\<lambda>c. c = CHR ''='') (rev (List.map upperChar s))))"

definition base32Decode :: "string \<Rightarrow> byte list res" where
  "base32Decode s = (case b32DecLoop (base32Clean s) 0 0 [] of
     None \<Rightarrow> Inl (InternalError ''Invalid base32 character'') | Some bs \<Rightarrow> Inr bs)"

section \<open>Codes\<close>

definition TOTP_PERIOD_SECONDS :: int where
  "TOTP_PERIOD_SECONDS = 30"

definition totpStep :: "int \<Rightarrow> int" where
  "totpStep nowMs = \<lfloor>ddiv (ddiv (of_int nowMs) 1000) (of_int TOTP_PERIOD_SECONDS)\<rfloor>"

text \<open>\<open>writeBigUInt64BE\<close>, \<open>readUInt32BE\<close>, \<open>String\<close> and \<open>padStart\<close> of the runtime.\<close>

definition counterBytes :: "int \<Rightarrow> byte list" where
  "counterBytes step = List.map (\<lambda>i. word_of_int (step div 2 ^ (8 * (7 - i)))) [0..<8]"

definition readUInt32BE :: "byte list \<Rightarrow> nat \<Rightarrow> 32 word" where
  "readUInt32BE bs off =
     push_bit 24 (ucast (bs ! off)) OR push_bit 16 (ucast (bs ! (off + 1))) OR
     push_bit 8 (ucast (bs ! (off + 2))) OR ucast (bs ! (off + 3))"

definition padStart :: "nat \<Rightarrow> char \<Rightarrow> string \<Rightarrow> string" where
  "padStart n c s = replicate (n - length s) c @ s"

type_synonym hmac = "byte list \<Rightarrow> byte list \<Rightarrow> byte list"

definition totpCode :: "hmac \<Rightarrow> string \<Rightarrow> int \<Rightarrow> nat \<Rightarrow> string res" where
  "totpCode hmacSha1 secret step digits =
     throwIf (step < 0 \<or> 2 ^ 64 \<le> step) (InternalError ''The value is out of range'')
     (bindE (base32Decode secret) (\<lambda>key.
      let mac = hmacSha1 key (counterBytes step);
          offset = unat (last mac AND 15)
      in throwIf (length mac < offset + 4) (InternalError ''The value is out of range'')
         (Inr (padStart digits (CHR ''0'')
            (decString (unat (readUInt32BE mac offset AND 0x7fffffff) mod 10 ^ digits))))))"

definition sixDigits :: "string \<Rightarrow> bool" where
  "sixDigits c = (length c = 6 \<and> list_all (\<lambda>d. 48 \<le> (of_char d :: nat) \<and> (of_char d :: nat) \<le> 57) c)"

text \<open>The loop over the steps of the window, the earliest first.\<close>

fun firstStep :: "(int \<Rightarrow> string res) \<Rightarrow> string \<Rightarrow> int list \<Rightarrow> int option res" where
  "firstStep f code [] = Inr None"
| "firstStep f code (st # sts) =
     bindE (f st) (\<lambda>c. if c = code then Inr (Some st) else firstStep f code sts)"

definition verifyTotp :: "hmac \<Rightarrow> string \<Rightarrow> string \<Rightarrow> int \<Rightarrow> int \<Rightarrow> int option res" where
  "verifyTotp hmacSha1 secret code nowMs window =
     (if \<not> sixDigits code then Inr None
      else let now = totpStep nowMs
           in firstStep (\<lambda>st. totpCode hmacSha1 secret st 6) code [now - window .. now + window])"

section \<open>The base32 loops on bits\<close>

definition digitBits :: "nat \<Rightarrow> bool list" where
  "digitBits i = bitsOf 5 (word_of_nat i :: 32 word)"

definition digitsBits :: "nat list \<Rightarrow> bool list" where
  "digitsBits is = List.concat (List.map digitBits is)"

lemma digitsBits_simps [simp]:
  "digitsBits [] = []" "digitsBits (i # is) = digitBits i @ digitsBits is"
  "digitsBits (is @ js) = digitsBits is @ digitsBits js"
  by (simp_all add: digitsBits_def)

lemma bits_and_mask: "bitsOf 5 (v AND 31 :: 32 word) = bitsOf 5 v"
proof -
  have m: "(31 :: 32 word) = mask 5" by (simp add: mask_eq_exp_minus_1)
  show ?thesis
    unfolding m by (rule bitsOf_cong) (simp only: bit_and_iff bit_mask_iff, simp)
qed

lemma unat_and_31: "unat (v AND 31 :: 32 word) < 32"
  using word_and_le1 [of v 31] by (simp add: word_le_nat_alt)

lemma drain_bits:
  "\<exists>is. snd (b32Drain bits v out) = out @ List.map ((!) B32) is \<and> (\<forall>i\<in>set is. i < 32) \<and>
     fst (b32Drain bits v out) < 5 \<and>
     bitsOf bits v = digitsBits is @ bitsOf (fst (b32Drain bits v out)) v"
proof (induction bits v out rule: b32Drain.induct)
  case (1 bits v out)
  show ?case
  proof (cases "5 \<le> bits")
    case False
    then show ?thesis by (intro exI [of _ "[]"]) (simp add: b32Drain.simps)
  next
    case True
    let ?i = "unat (drop_bit (bits - 5) v AND 31)"
    obtain "is" where "is": "snd (b32Drain bits v out) = (out @ [B32 ! ?i]) @ List.map ((!) B32) is"
        "\<forall>i\<in>set is. i < 32" "fst (b32Drain bits v out) < 5"
        "bitsOf (bits - 5) v = digitsBits is @ bitsOf (fst (b32Drain bits v out)) v"
      using 1 True b32Drain.simps [of bits v out] by auto
    have "bitsOf bits v = bitsOf 5 (drop_bit (bits - 5) v) @ bitsOf (bits - 5) v"
      using bitsOf_add [of 5 "bits - 5" v] True by simp
    also have "bitsOf 5 (drop_bit (bits - 5) v) = digitBits ?i"
      by (simp add: digitBits_def bits_and_mask)
    finally show ?thesis using "is" unat_and_31 by (intro exI [of _ "?i # is"]) auto
  qed
qed

lemma encLoop_bits:
  assumes "bits < 5" "b32EncLoop bs bits v out = (bits', v', out')"
  shows "\<exists>is. out' = out @ List.map ((!) B32) is \<and> (\<forall>i\<in>set is. i < 32) \<and> bits' < 5 \<and>
    bitsOf bits v @ bitsOfBytes bs = digitsBits is @ bitsOf bits' v'"
  using assms
proof (induction bs arbitrary: bits v out)
  case Nil
  then show ?case by (intro exI [of _ "[]"]) simp
next
  case (Cons b bs)
  let ?v = "push_bit 8 v OR ucast b"
  obtain b1 o1 where d: "b32Drain (bits + 8) ?v out = (b1, o1)" by force
  obtain "is" where "is": "o1 = out @ List.map ((!) B32) is" "\<forall>i\<in>set is. i < 32" "b1 < 5"
      "bitsOf (bits + 8) ?v = digitsBits is @ bitsOf b1 ?v"
    using drain_bits [of "bits + 8" ?v out] d by auto
  obtain js where js: "out' = o1 @ List.map ((!) B32) js" "\<forall>i\<in>set js. i < 32" "bits' < 5"
      "bitsOf b1 ?v @ bitsOfBytes bs = digitsBits js @ bitsOf bits' v'"
    using Cons.IH [OF "is"(3), of ?v o1] Cons.prems(2) d by auto
  have "bitsOf bits v @ bitsOfBytes (b # bs) = bitsOf (bits + 8) ?v @ bitsOfBytes bs"
    using bits_shift_byte [of bits v b] Cons.prems(1) by simp
  then show ?case using "is" js by (intro exI [of _ "is @ js"]) auto
qed

lemma pad_bits:
  assumes "0 < r" "r < 5"
  shows "digitBits (unat (push_bit (5 - r) v AND 31 :: 32 word)) = bitsOf r v @ replicate (5 - r) False"
proof -
  have "digitBits (unat (push_bit (5 - r) v AND 31 :: 32 word)) = bitsOf 5 (push_bit (5 - r) v)"
    by (simp add: digitBits_def bits_and_mask)
  also have "\<dots> = bitsOf r (drop_bit (5 - r) (push_bit (5 - r) v)) @ bitsOf (5 - r) (push_bit (5 - r) v)"
    using bitsOf_add [of r "5 - r" "push_bit (5 - r) v"] assms by simp
  also have "bitsOf r (drop_bit (5 - r) (push_bit (5 - r) v)) = bitsOf r v"
    by (rule bitsOf_cong) (use assms in \<open>auto simp: bit_drop_bit_eq bit_push_bit_iff\<close>)
  also have "bitsOf (5 - r) (push_bit (5 - r) v) = replicate (5 - r) False"
    by (rule nth_equalityI) (auto simp: nth_bitsOf bit_push_bit_iff)
  finally show ?thesis .
qed

lemma base32Encode_bits:
  "\<exists>is z. base32Encode bs = List.map ((!) B32) is \<and> (\<forall>i\<in>set is. i < 32) \<and> z < 5 \<and>
     digitsBits is = bitsOfBytes bs @ replicate z False"
proof -
  obtain bits v out where l: "b32EncLoop bs 0 0 [] = (bits, v, out)" by (cases "b32EncLoop bs 0 0 []") auto
  obtain "is" where "is": "out = List.map ((!) B32) is" "\<forall>i\<in>set is. i < 32" "bits < 5"
      "bitsOfBytes bs = digitsBits is @ bitsOf bits v"
    using encLoop_bits [OF _ l] by auto
  show ?thesis
  proof (cases "bits = 0")
    case True
    then show ?thesis using l "is" by (intro exI [of _ "is"] exI [of _ 0]) (simp add: base32Encode_def)
  next
    case False
    let ?i = "unat (push_bit (5 - bits) v AND 31)"
    have "digitsBits (is @ [?i]) = bitsOfBytes bs @ replicate (5 - bits) False"
      using pad_bits [of bits v] False "is"(3,4) by simp
    then show ?thesis using l "is" False unat_and_31
      by (intro exI [of _ "is @ [?i]"] exI [of _ "5 - bits"]) (auto simp: base32Encode_def)
  qed
qed

lemma bits_shift_digit:
  assumes "n \<le> 27" "i < 32"
  shows "bitsOf (n + 5) (push_bit 5 v OR word_of_nat i :: 32 word) = bitsOf n v @ digitBits i"
proof -
  have i: "\<not> bit (word_of_nat i :: 32 word) j" if "5 \<le> j" for j
  proof -
    have "(32 :: nat) \<le> 2 ^ j" using power_increasing [OF that, of "2 :: nat"] by simp
    then have "i div 2 ^ j = 0" using assms(2) by simp
    then have "\<not> bit i j" by (simp add: bit_iff_odd)
    then show ?thesis unfolding bit_of_nat_iff by simp
  qed
  have "bitsOf n (drop_bit 5 (push_bit 5 v OR word_of_nat i :: 32 word)) = bitsOf n v"
    by (rule bitsOf_cong) (use assms i in \<open>auto simp: bit_drop_bit_eq bit_or_iff bit_push_bit_iff\<close>)
  moreover have "bitsOf 5 (push_bit 5 v OR word_of_nat i :: 32 word) = digitBits i"
    unfolding digitBits_def by (rule bitsOf_cong) (auto simp: bit_or_iff bit_push_bit_iff)
  ultimately show ?thesis by (simp only: bitsOf_add)
qed

lemma byte_of_word: "bitsOf 8 (ucast (v AND 255 :: 32 word) :: byte) = bitsOf 8 v"
proof -
  have m: "(255 :: 32 word) = mask 8" by (simp add: mask_eq_exp_minus_1)
  show ?thesis
    unfolding m by (rule bitsOf_cong) (simp only: bit_ucast_iff bit_and_iff bit_mask_iff, simp)
qed

lemma indexOf_B32: "i < 32 \<Longrightarrow> indexOf (B32 ! i) B32 = Some i"
proof -
  have "list_all (\<lambda>i. indexOf (B32 ! i) B32 = Some i) [0..<32]" by code_simp
  then show "i < 32 \<Longrightarrow> indexOf (B32 ! i) B32 = Some i" by (simp add: list_all_iff)
qed

lemma decLoop_bits:
  assumes "bits < 8" "\<forall>i\<in>set is. i < 32"
  shows "\<exists>bs r. b32DecLoop (List.map ((!) B32) is) bits v out = Some bs \<and> length r < 8 \<and>
    bitsOfBytes bs @ r = bitsOfBytes out @ bitsOf bits v @ digitsBits is"
  using assms
proof (induction "is" arbitrary: bits v out)
  case Nil
  then show ?case by (intro exI [of _ out] exI [of _ "bitsOf bits v"]) simp
next
  case (Cons i "is")
  let ?v = "push_bit 5 v OR word_of_nat i :: 32 word"
  have i: "indexOf (B32 ! i) B32 = Some i" using Cons.prems by (simp add: indexOf_B32)
  have s: "bitsOf (bits + 5) ?v = bitsOf bits v @ digitBits i"
    using Cons.prems by (intro bits_shift_digit) auto
  show ?case
  proof (cases "8 \<le> bits + 5")
    case False
    then show ?thesis using Cons.IH [of "bits + 5" ?v out] Cons.prems i s by auto
  next
    case True
    define w where "w = ?v"
    let ?b = "ucast (drop_bit (bits - 3) w AND 255) :: byte"
    have "bitsOf (bits + 5) w = bitsOf 8 ?b @ bitsOf (bits - 3) w"
      using bitsOf_add [of 8 "bits - 3" w] True byte_of_word [of "drop_bit (bits - 3) w"]
      by (simp add: add.commute)
    then have w: "bitsOf 8 ?b @ bitsOf (bits - 3) w = bitsOf bits v @ digitBits i"
      using s by (simp add: w_def)
    have lt: "bits - 3 < 8" using Cons.prems(1) by arith
    have "b32DecLoop (List.map ((!) B32) (i # is)) bits v out =
        b32DecLoop (List.map ((!) B32) is) (bits - 3) w (out @ [?b])"
      using i True by (simp add: w_def Let_def)
    moreover obtain bs r where "b32DecLoop (List.map ((!) B32) is) (bits - 3) w (out @ [?b]) = Some bs"
        "length r < 8" "bitsOfBytes bs @ r = bitsOfBytes (out @ [?b]) @ bitsOf (bits - 3) w @ digitsBits is"
      using Cons.IH [of "bits - 3" w "out @ [?b]"] lt Cons.prems(2) by auto
    ultimately show ?thesis using w by (intro exI [of _ bs] exI [of _ r]) simp
  qed
qed

lemma base32Clean_id: "\<forall>i\<in>set is. i < 32 \<Longrightarrow> base32Clean (List.map ((!) B32) is) = List.map ((!) B32) is"
proof -
  assume a: "\<forall>i\<in>set is. i < 32"
  have "list_all (\<lambda>i. upperChar (B32 ! i) = B32 ! i \<and> \<not> isSpace (B32 ! i) \<and> B32 ! i \<noteq> CHR ''='') [0..<32]"
    by code_simp
  then have c: "upperChar (B32 ! i) = B32 ! i" "\<not> isSpace (B32 ! i)" "B32 ! i \<noteq> CHR ''=''" if "i < 32" for i
    using that by (simp_all add: list_all_iff)
  have m: "List.map upperChar (List.map ((!) B32) is) = List.map ((!) B32) is"
    using a c(1) by simp
  have "dropWhile (\<lambda>c. c = CHR ''='') (rev (List.map ((!) B32) is)) = rev (List.map ((!) B32) is)"
    using a c(3) by (cases "is" rule: rev_cases) auto
  then show ?thesis using a c(2) unfolding base32Clean_def m by (auto simp: filter_id_conv)
qed

section \<open>Properties\<close>

text \<open>
  C6. Every byte string survives base32: decoding what \<open>base32Encode\<close> prints gives the bytes
  back, with the 32-bit arithmetic of both loops.
\<close>

theorem base32_roundtrip: "base32Decode (base32Encode bs) = Inr bs"
proof -
  obtain "is" z where e: "base32Encode bs = List.map ((!) B32) is" "\<forall>i\<in>set is. i < 32" "z < 5"
      "digitsBits is = bitsOfBytes bs @ replicate z False"
    using base32Encode_bits by blast
  obtain cs r where d: "b32DecLoop (List.map ((!) B32) is) 0 0 [] = Some cs" "length r < 8"
      "bitsOfBytes cs @ r = digitsBits is"
    using decLoop_bits [of 0 "is" 0 "[]"] e(2) by auto
  have "bytesOf (bitsOfBytes cs @ r) = bytesOf (bitsOfBytes bs @ replicate z False)"
    using d(3) e(4) by simp
  then have "cs = bs" using bytesOf_bits d(2) e(3) by simp
  then show ?thesis using d(1) e(1,2) by (simp add: base32Decode_def base32Clean_id)
qed

text \<open>
  The time step, computed with two rounded divisions, is exactly the number of whole
  half-minutes since the epoch, for every instant up to the year 2248.
\<close>

theorem totp_step_exact:
  assumes "0 \<le> nowMs" "nowMs \<le> 2 ^ 43"
  shows "totpStep nowMs = nowMs div 30000"
proof -
  define q where "q = nowMs div 30000"
  have q: "0 \<le> q" "30000 * q \<le> nowMs" "nowMs \<le> 30000 * q + 29999" "q \<le> 2 ^ 30" "30 * q \<le> 2 ^ 50"
    using assms by (auto simp: q_def)
  define x where "x = fl (of_int nowMs / 1000 :: rat)"
  have nq: "30000 * (of_int q :: rat) \<le> of_int nowMs" "(of_int nowMs :: rat) \<le> 30000 * of_int q + 29999"
    using of_int_le_iff [where ?'a = rat, THEN iffD2, OF q(2)]
      of_int_le_iff [where ?'a = rat, THEN iffD2, OF q(3)] by simp_all
  have f30: "fl (30 * of_int q) = 30 * (of_int q :: rat)"
    using fl_of_int [of "30 * q"] q(1,5) by simp
  have fq: "fl (of_int q) = (of_int q :: rat)"
    using fl_of_int [of q] q(1,4) by simp
  have "fl (30 * of_int q) \<le> x"
    unfolding x_def by (rule fl_mono) (use nq(1) in simp)
  then have lo: "30 * of_int q \<le> x" using f30 by simp
  have n43: "(of_int nowMs :: rat) \<le> 2 ^ 43" "0 \<le> (of_int nowMs :: rat)"
    using of_int_le_iff [where ?'a = rat, THEN iffD2, OF assms(2)] assms(1) by simp_all
  have "\<bar>x - of_int nowMs / 1000\<bar> \<le> 2 ^ 34 / 2 ^ 53"
    unfolding x_def by (rule fl_error) (use n43 in \<open>simp_all\<close>)
  then have "x - of_int nowMs / 1000 \<le> 2 ^ 34 / 2 ^ 53" by (rule abs_le_D1)
  then have hi: "x \<le> 30 * of_int q + 29999 / 1000 + 1 / 524288"
    using nq(2) by simp
  have q30: "(of_int q :: rat) \<le> 2 ^ 30" "0 \<le> (of_int q :: rat)"
    using of_int_le_iff [where ?'a = rat, THEN iffD2, OF q(4)] q(1) by simp_all
  have "fl (of_int q) \<le> fl (x / 30)" by (rule fl_mono) (use lo in simp)
  then have l2: "of_int q \<le> fl (x / 30)" using fq by simp
  have "\<bar>fl (x / 30) - x / 30\<bar> \<le> 2 ^ 34 / 2 ^ 53"
    by (rule fl_error) (use lo hi q30 in \<open>simp_all\<close>)
  then have "fl (x / 30) - x / 30 \<le> 2 ^ 34 / 2 ^ 53" by (rule abs_le_D1)
  then have "fl (x / 30) < of_int q + 1" using hi by simp
  then have "\<lfloor>fl (x / 30)\<rfloor> = q" using l2 by (simp add: floor_eq_iff)
  then show ?thesis by (simp add: totpStep_def TOTP_PERIOD_SECONDS_def ddiv_def x_def q_def)
qed

theorem totp_step_exact_witness: "totpStep 1760000000000 = 58666666"
  using totp_step_exact [of 1760000000000] by simp

text \<open>What the loop over the window finds.\<close>

lemma firstStep_Some:
  "firstStep f code sts = Inr (Some st) \<Longrightarrow> st \<in> set sts \<and> f st = Inr code"
  by (induction sts) (auto simp: bindE_Inr_iff split: if_splits)

lemma firstStep_None:
  "firstStep f code sts = Inr None \<Longrightarrow> st \<in> set sts \<Longrightarrow> f st \<noteq> Inr code"
  by (induction sts) (auto simp: bindE_Inr_iff split: if_splits)

lemma firstStep_total: "\<forall>st\<in>set sts. isInr (f st) \<Longrightarrow> isInr (firstStep f code sts)"
proof (induction sts)
  case (Cons st sts)
  then obtain c where "f st = Inr c" by (cases "f st") auto
  then show ?case using Cons by simp
qed simp

text \<open>
  A code is accepted for a step exactly when it is six digits and is the HMAC code of
  some step at most \<open>window\<close> away from the current one; the step reported is one whose code
  it is. Every six-digit check returns an answer when the codes of the window exist.
\<close>

theorem verifyTotp_window:
  assumes "\<forall>st\<in>{totpStep nowMs - window .. totpStep nowMs + window}. isInr (totpCode hmac secret st 6)"
  shows "(case verifyTotp hmac secret code nowMs window of
      Inl _ \<Rightarrow> False
    | Inr None \<Rightarrow> \<not> sixDigits code \<or>
        (\<forall>st. \<bar>st - totpStep nowMs\<bar> \<le> window \<longrightarrow> totpCode hmac secret st 6 \<noteq> Inr code)
    | Inr (Some st) \<Rightarrow> sixDigits code \<and> \<bar>st - totpStep nowMs\<bar> \<le> window \<and>
        totpCode hmac secret st 6 = Inr code)"
proof (cases "sixDigits code")
  case False
  then show ?thesis by (simp add: verifyTotp_def)
next
  case True
  let ?f = "\<lambda>st. totpCode hmac secret st 6"
  let ?w = "[totpStep nowMs - window .. totpStep nowMs + window]"
  have v: "verifyTotp hmac secret code nowMs window = firstStep ?f code ?w"
    using True by (simp add: verifyTotp_def Let_def)
  have "isInr (firstStep ?f code ?w)" using assms by (intro firstStep_total) simp
  then obtain r where r: "firstStep ?f code ?w = Inr r" by (cases "firstStep ?f code ?w") auto
  show ?thesis
  proof (cases r)
    case None
    then show ?thesis using True v r firstStep_None [of ?f code ?w] by (auto simp: abs_le_iff)
  next
    case (Some st)
    then show ?thesis using True v r firstStep_Some [of ?f code ?w st] by (auto simp: abs_le_iff)
  qed
qed

definition flatHmac :: hmac where
  "flatHmac k c = k @ c @ replicate 20 0"

theorem verifyTotp_window_witness:
  "(case verifyTotp flatHmac ''MFRGG'' ''633837'' 1760000000000 1 of
      Inl _ \<Rightarrow> False | Inr None \<Rightarrow> True | Inr (Some st) \<Rightarrow> \<bar>st - 58666666\<bar> \<le> 1)"
proof -
  have t: "totpStep 1760000000000 = 58666666"
    using totp_step_exact [of 1760000000000] by simp
  have d: "base32Decode ''MFRGG'' = Inr [97, 98, 99]"
    by code_simp
  have "isInr (totpCode flatHmac ''MFRGG'' st 6)" if "0 \<le> st" "st < 2 ^ 64" for st
    using that d by (simp add: totpCode_def flatHmac_def Let_def)
  then have "\<forall>st\<in>{totpStep 1760000000000 - 1 .. totpStep 1760000000000 + 1}.
      isInr (totpCode flatHmac ''MFRGG'' st 6)"
    unfolding t by simp
  from verifyTotp_window [OF this, of "''633837''"] show ?thesis
    unfolding t by (auto split: sum.splits option.splits)
qed

end
