(* ===== verification/Secrets.thy ===== *)
theory Secrets
  imports Bits "HOL-Library.Char_ord"
begin

text \<open>
  Secrets at rest (\<open>src/common/security/secret-box.ts\<close>, \<open>field-encryption.ts\<close>): the sealed
  format, decryption under the current or a previous key, and the column transformers built
  on it. AES-256-GCM and SHA-256 are the fields of \<open>crypto\<close>; strings are the bytes of their
  UTF-8 text; base64url is the runtime's.
\<close>

section \<open>Libraries\<close>

record crypto =
  cr_encrypt :: "byte list \<Rightarrow> byte list \<Rightarrow> byte list \<Rightarrow> byte list \<times> byte list"
  cr_decrypt :: "byte list \<Rightarrow> byte list \<Rightarrow> byte list \<Rightarrow> byte list \<Rightarrow> byte list option"
  cr_sha256 :: "string \<Rightarrow> byte list"

text \<open>
  What AES-GCM promises: the ciphertext is as long as the text, the tag has 16 bytes, the
  key that sealed opens, and no other configured key \<open>ks\<close> does.
\<close>

definition gcmLaws :: "crypto \<Rightarrow> byte list list \<Rightarrow> bool" where
  "gcmLaws A ks \<longleftrightarrow> (\<forall>k\<in>set ks. \<forall>iv p. length (fst (cr_encrypt A k iv p)) = length p \<and>
     length (snd (cr_encrypt A k iv p)) = 16 \<and>
     (\<forall>k'\<in>set ks. cr_decrypt A k' iv (snd (cr_encrypt A k iv p)) (fst (cr_encrypt A k iv p)) =
        (if k' = k then Some p else None)))"

definition utf8 :: "string \<Rightarrow> byte list" where
  "utf8 s = List.map (\<lambda>c. word_of_nat (of_char c)) s"

definition textOf :: "byte list \<Rightarrow> string" where
  "textOf bs = List.map (\<lambda>b. char_of (unat b)) bs"

definition B64 :: string where
  "B64 = ''ABCDEFGHIJKLMNOPQRSTUVWXYZabcdefghijklmnopqrstuvwxyz0123456789-_''"

definition b64Digit :: "bool list \<Rightarrow> char" where
  "b64Digit g = B64 ! unat (wordOf g :: byte)"

definition b64Value :: "char \<Rightarrow> bool list option" where
  "b64Value c = map_option (\<lambda>i. bitsOf 6 (word_of_nat i :: byte))
     (List.find (\<lambda>i. B64 ! i = c) [0..<64])"

definition b64urlEncode :: "byte list \<Rightarrow> string" where
  "b64urlEncode bs = List.map b64Digit (groups 6 (bitsOfBytes bs))"

definition b64urlDecode :: "string \<Rightarrow> byte list" where
  "b64urlDecode s = bytesOf (List.concat (List.map the (List.filter (\<lambda>x. x \<noteq> None) (List.map b64Value s))))"

fun splitOn :: "char \<Rightarrow> string \<Rightarrow> string list" where
  "splitOn d [] = [[]]"
| "splitOn d (c # cs) = (if c = d then [] # splitOn d cs
     else (case splitOn d cs of [] \<Rightarrow> [[c]] | w # ws \<Rightarrow> (c # w) # ws))"

fun joinWith :: "char \<Rightarrow> string list \<Rightarrow> string" where
  "joinWith d [] = []"
| "joinWith d [w] = w"
| "joinWith d (w # ws) = w @ [d] @ joinWith d ws"

section \<open>The box\<close>

record secret_box =
  sb_key :: "byte list"
  sb_previous :: "byte list list"

definition newSecretBox :: "crypto \<Rightarrow> string \<Rightarrow> string option list \<Rightarrow> secret_box" where
  "newSecretBox A passphrase previous =
     \<lparr>sb_key = cr_sha256 A passphrase,
      sb_previous = List.map (cr_sha256 A)
        (List.map the (List.filter (\<lambda>x. x \<noteq> None \<and> x \<noteq> Some []) previous))\<rparr>"

definition isSealed :: "string \<Rightarrow> bool" where
  "isSealed s = (take 3 s = ''v1.'')"

definition encrypt :: "crypto \<Rightarrow> secret_box \<Rightarrow> byte list \<Rightarrow> string \<Rightarrow> string" where
  "encrypt A box iv plain = (let (data, tag) = cr_encrypt A (sb_key box) iv (utf8 plain)
     in joinWith (CHR ''.'') [''v1'', b64urlEncode iv, b64urlEncode tag, b64urlEncode data])"

fun tryKeys :: "crypto \<Rightarrow> byte list list \<Rightarrow> byte list \<Rightarrow> byte list \<Rightarrow> byte list \<Rightarrow> string res" where
  "tryKeys A [] iv tag data = Inl (InternalError ''Unable to decrypt: unknown key or tampered data'')"
| "tryKeys A (k # ks) iv tag data =
     (case cr_decrypt A k iv tag data of Some p \<Rightarrow> Inr (textOf p) | None \<Rightarrow> tryKeys A ks iv tag data)"

definition decrypt :: "crypto \<Rightarrow> secret_box \<Rightarrow> string \<Rightarrow> string res" where
  "decrypt A box sealed =
     (case splitOn (CHR ''.'') sealed of
        version # iv # tag # data # _ \<Rightarrow>
          if version \<noteq> ''v1'' \<or> iv = [] \<or> tag = [] \<or> data = []
          then Inl (InternalError ''Unsupported secret format'')
          else tryKeys A (sb_key box # sb_previous box)
                 (b64urlDecode iv) (b64urlDecode tag) (b64urlDecode data)
      | _ \<Rightarrow> Inl (InternalError ''Unsupported secret format''))"

text \<open>The transformer of an encrypted column: \<open>to\<close> on writing, \<open>from\<close> on reading.\<close>

definition fieldTo :: "crypto \<Rightarrow> secret_box \<Rightarrow> byte list \<Rightarrow> ('v \<Rightarrow> string) \<Rightarrow> 'v option \<Rightarrow> string option" where
  "fieldTo A box iv toText v = map_option (\<lambda>x. encrypt A box iv (toText x)) v"

definition fieldFrom :: "crypto \<Rightarrow> secret_box \<Rightarrow> (string \<Rightarrow> 'v) \<Rightarrow> string option \<Rightarrow> 'v option res" where
  "fieldFrom A box fromText s =
     (case s of None \<Rightarrow> Inr None
      | Some t \<Rightarrow> if isSealed t then bindE (decrypt A box t) (\<lambda>p. Inr (Some (fromText p)))
                  else Inr (Some (fromText t)))"

section \<open>The format\<close>

lemma textOf_utf8: "textOf (utf8 s) = s"
proof -
  have "unat (word_of_nat (of_char c) :: byte) = of_char c" for c :: char
    using nat_of_char_less_256 [of c] by (simp add: unat_of_nat)
  then show ?thesis by (simp add: textOf_def utf8_def comp_def map_idI)
qed

lemma b64_digit_value:
  assumes "length g = 6"
  shows "b64Value (b64Digit g) = Some g"
proof -
  have "list_all (\<lambda>i. List.find (\<lambda>j. B64 ! j = B64 ! i) [0..<64] = Some i) [0..<64]" by code_simp
  then have f: "List.find (\<lambda>j. B64 ! j = B64 ! i) [0..<64] = Some i" if "i < 64" for i
    using that by (simp add: list_all_iff)
  have "unat (wordOf g :: byte) < 64"
  proof -
    have "(wordOf g :: byte) = take_bit 6 (wordOf g)"
      using assms by (intro bit_word_eqI) (auto simp: bit_take_bit_iff bit_wordOf)
    then have "unat (wordOf g :: byte) = take_bit 6 (unat (wordOf g :: byte))"
      by (metis unsigned_take_bit_eq)
    then show ?thesis using take_bit_nat_less_exp [of 6 "unat (wordOf g :: byte)"] by simp
  qed
  then show ?thesis using f bitsOf_wordOf [of g, where ?'a = 8] assms
    by (simp add: b64Value_def b64Digit_def)
qed

lemma b64_digit_no_dot: "length g = 6 \<Longrightarrow> b64Digit g \<noteq> CHR ''.''"
proof
  assume "length g = 6" "b64Digit g = CHR ''.''"
  then have "b64Value (CHR ''.'') = Some g" using b64_digit_value by metis
  moreover have "b64Value (CHR ''.'') = None" by code_simp
  ultimately show False by simp
qed

lemma b64_roundtrip: "b64urlDecode (b64urlEncode bs) = bs"
proof -
  have "List.map b64Value (b64urlEncode bs) = List.map Some (groups 6 (bitsOfBytes bs))"
    unfolding b64urlEncode_def using groups_length [of _ 6] by (simp add: b64_digit_value)
  then have "b64urlDecode (b64urlEncode bs) = bytesOf (List.concat (groups 6 (bitsOfBytes bs)))"
    by (simp add: b64urlDecode_def comp_def)
  then show ?thesis using digits_roundtrip [of 6 bs] by simp
qed

lemma b64_no_dot: "CHR ''.'' \<notin> set (b64urlEncode bs)"
  using b64_digit_no_dot groups_length [of _ 6] by (fastforce simp: b64urlEncode_def)

lemma b64_empty [simp]: "b64urlEncode bs = [] \<longleftrightarrow> bs = []"
proof
  assume "b64urlEncode bs = []"
  then show "bs = []" using b64_roundtrip [of bs] by (simp add: b64urlDecode_def bytesOf.simps)
qed (simp add: b64urlEncode_def groups.simps)

lemma splitOn_word: "d \<notin> set w \<Longrightarrow> splitOn d w = [w]"
  by (induction w) auto

lemma splitOn_append: "d \<notin> set w \<Longrightarrow> splitOn d (w @ d # r) = w # splitOn d r"
  by (induction w) auto

lemma splitOn_join: "\<forall>w\<in>set ws. d \<notin> set w \<Longrightarrow> ws \<noteq> [] \<Longrightarrow> splitOn d (joinWith d ws) = ws"
  by (induction d ws rule: joinWith.induct) (auto simp: splitOn_word splitOn_append)

lemma tryKeys_finds:
  assumes g: "gcmLaws A KS" "cr_encrypt A k iv p = (data, tag)" "k \<in> set KS"
    and s: "set ks \<subseteq> set KS" "k \<in> set ks"
  shows "tryKeys A ks iv tag data = Inr (textOf p)"
  using s
proof (induction ks)
  case (Cons k' ks)
  have "k' \<in> set KS" using Cons.prems by simp
  then have "cr_decrypt A k' iv tag data = (if k' = k then Some p else None)"
    using g unfolding gcmLaws_def by (metis fst_conv snd_conv)
  then show ?case using Cons by auto
qed simp

lemma isSealed_encrypt: "isSealed (encrypt A box iv plain)"
  by (simp add: isSealed_def encrypt_def case_prod_unfold Let_def)

lemma decrypt_encrypt:
  assumes "gcmLaws A (sb_key box' # sb_previous box')" "iv \<noteq> []" "sb_key box \<in> set (sb_key box' # sb_previous box')"
  shows "decrypt A box' (encrypt A box iv plain) =
    (if plain = [] then Inl (InternalError ''Unsupported secret format'') else Inr plain)"
proof -
  obtain data tag where e: "cr_encrypt A (sb_key box) iv (utf8 plain) = (data, tag)" by force
  have l: "length data = length plain" "length tag = 16"
    using assms(1,3) e unfolding gcmLaws_def by (metis fst_conv snd_conv utf8_def length_map)+
  have s: "splitOn (CHR ''.'') (encrypt A box iv plain) =
      [''v1'', b64urlEncode iv, b64urlEncode tag, b64urlEncode data]"
    unfolding encrypt_def Let_def e prod.case
    by (rule splitOn_join) (auto simp: b64_no_dot)
  have t: "tryKeys A (sb_key box' # sb_previous box') iv tag data = Inr (textOf (utf8 plain))"
    by (rule tryKeys_finds [OF assms(1) e assms(3) _ assms(3)]) simp
  have "tag \<noteq> []" "data = [] \<longleftrightarrow> plain = []" using l by auto
  then show ?thesis using s t assms(2)
    by (simp add: decrypt_def b64_roundtrip textOf_utf8 del: tryKeys.simps)
qed

section \<open>Properties\<close>

text \<open>
  C5. A column written through the transformer reads back as the value that was stored,
  also after the encryption key was rotated and the old one is kept as a previous key, if
  and only if the text of the value is not empty: a sealed empty string can never be read.
\<close>

theorem sealed_field_reads_back:
  assumes "gcmLaws A (sb_key box' # sb_previous box')" "iv \<noteq> []" "sb_key box \<in> set (sb_key box' # sb_previous box')"
  shows "fieldFrom A box' (\<lambda>t. t) (fieldTo A box iv (\<lambda>t. t) v) = Inr v \<longleftrightarrow> v \<noteq> Some []"
  using decrypt_encrypt [OF assms] isSealed_encrypt
  by (cases v) (simp_all add: fieldFrom_def fieldTo_def)

text \<open>A cipher that satisfies the laws for two keys: the tag names the key, the text is kept.\<close>

definition demoCrypto :: crypto where
  "demoCrypto = \<lparr>cr_encrypt = (\<lambda>k iv p. (p, replicate 15 0 @ [hd k])),
     cr_decrypt = (\<lambda>k iv t p. if last t = hd k then Some p else None),
     cr_sha256 = (\<lambda>s. if s = ''new'' then [1] else [2])\<rparr>"

definition oldBox :: secret_box where
  "oldBox = newSecretBox demoCrypto ''old'' []"

definition rotatedBox :: secret_box where
  "rotatedBox = newSecretBox demoCrypto ''new'' [Some ''old'', None]"

theorem sealed_field_reads_back_witness:
  "fieldFrom demoCrypto rotatedBox (\<lambda>t. t) (fieldTo demoCrypto oldBox [7] (\<lambda>t. t) (Some ''+234'')) = Inr (Some ''+234'') \<and>
   fieldFrom demoCrypto rotatedBox (\<lambda>t. t) (fieldTo demoCrypto oldBox [7] (\<lambda>t. t) (Some [])) \<noteq> Inr (Some [])"
proof -
  have g: "gcmLaws demoCrypto (sb_key rotatedBox # sb_previous rotatedBox)"
    by (simp add: gcmLaws_def demoCrypto_def rotatedBox_def newSecretBox_def)
  have k: "sb_key oldBox \<in> set (sb_key rotatedBox # sb_previous rotatedBox)"
    by (simp add: oldBox_def rotatedBox_def newSecretBox_def demoCrypto_def)
  show ?thesis
    using sealed_field_reads_back [OF g _ k, of "[7]" "Some ''+234''"]
      sealed_field_reads_back [OF g _ k, of "[7]" "Some []"] by simp
qed

end
