(* ===== verification/Mfa.thy ===== *)
theory Mfa
  imports Tokens Totp Secrets
begin

text \<open>
  Second factors (\<open>src/modules/auth/mfa.service.ts\<close>): enrolment, verification of a TOTP or a
  recovery code, and the ways to switch it off. The seeds of enrolment and the recovery codes
  are random and arguments here. \<open>mfaVerify\<close> changes the user object; the caller's save is
  \<open>mfaVerifySave\<close>.
\<close>

record 't mfa_env = "'t auth_env" +
  me_crypto :: crypto
  me_box :: secret_box
  me_hmac :: hmac

definition RECOVERY_CODE_COUNT :: nat where
  "RECOVERY_CODE_COUNT = 10"

definition isRequiredFor :: "('t, 'b) auth_env_scheme \<Rightarrow> string list \<Rightarrow> bool" where
  "isRequiredFor E roles = list_ex (\<lambda>r. r \<in> set (ae_requiredRoles E)) roles"

text \<open>Five random bytes as ten hex digits with a dash after the fifth; hashed without it.\<close>

definition dashed :: "string \<Rightarrow> string" where
  "dashed h = take 5 h @ ''-'' @ drop 5 h"

definition hashCode :: "('t, 'b) auth_env_scheme \<Rightarrow> string \<Rightarrow> string" where
  "hashCode E code = ae_sha256 E (List.map lowerChar (List.filter (\<lambda>c. c \<noteq> CHR ''-'') code))"

definition matchStep :: "('t, 'b) mfa_env_scheme \<Rightarrow> int \<Rightarrow> string \<Rightarrow> string \<Rightarrow> int option res" where
  "matchStep E now sealedSecret code =
     bindE (decrypt (me_crypto E) (me_box E) sealedSecret) (\<lambda>secret.
       verifyTotp (me_hmac E) secret code now (ae_mfaWindow E))"

definition mfaNormalise :: "string \<Rightarrow> string" where
  "mfaNormalise code = List.map lowerChar (List.filter (\<lambda>c. \<not> isSpace c) code)"

definition mfaVerify :: "('t, 'b) mfa_env_scheme \<Rightarrow> int \<Rightarrow> user \<Rightarrow> string \<Rightarrow> (bool \<times> user) res" where
  "mfaVerify E now u code =
     (case u_mfaSecret u of
        None \<Rightarrow> Inr (False, u)
      | Some sealedSecret \<Rightarrow>
          if \<not> u_mfaEnabled u \<or> sealedSecret = [] then Inr (False, u)
          else let normalised = mfaNormalise code in
            if sixDigits normalised
            then bindE (matchStep E now sealedSecret normalised) (\<lambda>r. Inr
              (case r of
                 None \<Rightarrow> (False, u)
               | Some step \<Rightarrow>
                   if step \<le> (case u_mfaLastStep u of None \<Rightarrow> -1 | Some l \<Rightarrow> l) then (False, u)
                   else (True, u\<lparr>u_mfaLastStep := Some step\<rparr>)))
            else let hashed = hashCode E normalised in
              if hashed \<notin> set (u_mfaRecoveryCodes u) then Inr (False, u)
              else Inr (True, u\<lparr>u_mfaRecoveryCodes :=
                     List.filter (\<lambda>h. h \<noteq> hashed) (u_mfaRecoveryCodes u)\<rparr>))"

definition mfaVerifySave ::
  "('t, 'b) mfa_env_scheme \<Rightarrow> int \<Rightarrow> id \<Rightarrow> user \<Rightarrow> string \<Rightarrow> 'a rbac_state_scheme
     \<Rightarrow> (bool \<times> user \<times> 'a rbac_state_scheme) res" where
  "mfaVerifySave E now k u code s =
     bindE (mfaVerify E now u code) (\<lambda>(ok, u'). Inr (ok, u', if ok then saveUser k u' s else s))"

text \<open>The private \<open>save\<close>: the guard reads \<open>mfaEnabled\<close> from the cached context.\<close>

definition mfaSave :: "id \<Rightarrow> user \<Rightarrow> 'a rbac_state_scheme \<Rightarrow> 'a rbac_state_scheme" where
  "mfaSave k u s = invalidateAuthUser k (saveUser k u s)"

definition mfaClear :: "id \<Rightarrow> user \<Rightarrow> 'a rbac_state_scheme \<Rightarrow> 'a rbac_state_scheme" where
  "mfaClear k u s = mfaSave k (u\<lparr>u_mfaEnabled := False, u_mfaSecret := None,
     u_mfaLastStep := None, u_mfaRecoveryCodes := []\<rparr>) s"

definition beginSetup ::
  "('t, 'b) mfa_env_scheme \<Rightarrow> byte list \<Rightarrow> byte list \<Rightarrow> id \<Rightarrow> 'a rbac_state_scheme
     \<Rightarrow> (string \<times> 'a rbac_state_scheme) res" where
  "beginSetup E iv seed k s =
     bindE (findById s k) (\<lambda>u.
     throwIf (u_mfaEnabled u) (BadRequest ''MFA is already enabled'')
     (let secret = base32Encode seed
      in Inr (secret, saveUser k (u\<lparr>u_mfaSecret := Some (encrypt (me_crypto E) (me_box E) iv secret)\<rparr>) s)))"

definition enableMfa ::
  "('t, 'b) mfa_env_scheme \<Rightarrow> int \<Rightarrow> string list \<Rightarrow> id \<Rightarrow> string \<Rightarrow> 'a rbac_state_scheme
     \<Rightarrow> (string list \<times> 'a rbac_state_scheme) res" where
  "enableMfa E now hexCodes k code s =
     bindE (findById s k) (\<lambda>u.
     throwIf (u_mfaEnabled u) (BadRequest ''MFA is already enabled'')
     (case u_mfaSecret u of
        None \<Rightarrow> Inl (BadRequest ''Start MFA setup first'')
      | Some sealedSecret \<Rightarrow>
          throwIf (sealedSecret = []) (BadRequest ''Start MFA setup first'')
          (bindE (matchStep E now sealedSecret code) (\<lambda>r.
           orThrow r (BadRequest ''Invalid code'') (\<lambda>step.
           let recoveryCodes = List.map dashed (take RECOVERY_CODE_COUNT hexCodes)
           in Inr (recoveryCodes, mfaSave k
                (u\<lparr>u_mfaEnabled := True, u_mfaLastStep := Some step,
                   u_mfaRecoveryCodes := List.map (hashCode E) recoveryCodes\<rparr>) s))))))"

definition trim :: "string \<Rightarrow> string" where
  "trim s = rev (dropWhile isSpace (rev (dropWhile isSpace s)))"

definition regenerateRecoveryCodes ::
  "('t, 'b) mfa_env_scheme \<Rightarrow> int \<Rightarrow> string list \<Rightarrow> id \<Rightarrow> string \<Rightarrow> 'a rbac_state_scheme
     \<Rightarrow> (string list \<times> 'a rbac_state_scheme) res" where
  "regenerateRecoveryCodes E now hexCodes k code s =
     bindE (findById s k) (\<lambda>u.
     throwIf (\<not> u_mfaEnabled u) (BadRequest ''MFA is not enabled'')
     (throwIf (\<not> sixDigits (trim code)) (BadRequest ''Enter a current code from your authenticator app'')
     (bindE (mfaVerifySave E now k u code s) (\<lambda>(ok, u1, s1).
      throwIf (\<not> ok) (BadRequest ''Enter a current code from your authenticator app'')
      (let recoveryCodes = List.map dashed (take RECOVERY_CODE_COUNT hexCodes)
       in Inr (recoveryCodes,
            saveUser k (u1\<lparr>u_mfaRecoveryCodes := List.map (hashCode E) recoveryCodes\<rparr>) s1))))))"

definition disableMfa ::
  "('t, 'b) mfa_env_scheme \<Rightarrow> int \<Rightarrow> id \<Rightarrow> string \<Rightarrow> 'a rbac_state_scheme \<Rightarrow> 'a rbac_state_scheme res" where
  "disableMfa E now k code s =
     bindE (findById s k) (\<lambda>u.
     throwIf (\<not> u_mfaEnabled u) (BadRequest ''MFA is not enabled'')
     (throwIf (isRequiredFor E (List.map r_name (rolesOf s u))) (BadRequest ''MFA is mandatory for your role'')
     (bindE (mfaVerifySave E now k u code s) (\<lambda>(ok, u1, s1).
      throwIf (\<not> ok) (BadRequest ''Invalid code'')
      (Inr (mfaClear k u1 s1))))))"

definition resetMfa :: "id \<Rightarrow> 'a rbac_state_scheme \<Rightarrow> 'a rbac_state_scheme res" where
  "resetMfa k s = bindE (findById s k) (\<lambda>u. Inr (mfaClear k u s))"

section \<open>What verification consumes\<close>

datatype factor = TotpStep int | RecoveryHash string

text \<open>The two ways a code is accepted.\<close>

lemma mfaVerify_cases:
  assumes "mfaVerify E now u code = Inr (True, u')"
  obtains (totp) step where "sixDigits (mfaNormalise code)"
      "(case u_mfaLastStep u of None \<Rightarrow> -1 | Some l \<Rightarrow> l) < step"
      "u' = u\<lparr>u_mfaLastStep := Some step\<rparr>"
  | (recovery) "\<not> sixDigits (mfaNormalise code)"
      "hashCode E (mfaNormalise code) \<in> set (u_mfaRecoveryCodes u)"
      "u' = u\<lparr>u_mfaRecoveryCodes := List.filter (\<lambda>h. h \<noteq> hashCode E (mfaNormalise code)) (u_mfaRecoveryCodes u)\<rparr>"
proof (cases "u_mfaSecret u")
  case None
  then show thesis using assms by (simp add: mfaVerify_def)
next
  case (Some sec)
  then have e: "u_mfaEnabled u" "sec \<noteq> []" using assms by (auto simp: mfaVerify_def split: if_splits)
  show thesis
  proof (cases "sixDigits (mfaNormalise code)")
    case six: True
    show thesis
    proof (cases "matchStep E now sec (mfaNormalise code)")
      case (Inl x)
      then show thesis using assms Some e six by (simp add: mfaVerify_def)
    next
      case (Inr r)
      show thesis
      proof (cases r)
        case None
        then show thesis using assms Some e six Inr by (simp add: mfaVerify_def)
      next
        case step: (Some step)
        show thesis
        proof (cases "step \<le> (case u_mfaLastStep u of None \<Rightarrow> -1 | Some l \<Rightarrow> l)")
          case True
          then show thesis using assms Some e six Inr step by (simp add: mfaVerify_def)
        next
          case False
          then show thesis using totp [of step] assms Some e six Inr step by (simp add: mfaVerify_def)
        qed
      qed
    qed
  next
    case False
    then show thesis using recovery assms Some e by (auto simp: mfaVerify_def Let_def split: if_splits)
  qed
qed

lemma mfaVerify_False:
  assumes "mfaVerify E now u code = Inr (False, u')"
  shows "u' = u"
proof (rule ccontr)
  assume n: "u' \<noteq> u"
  then obtain sec where sec: "u_mfaSecret u = Some sec" "u_mfaEnabled u" "sec \<noteq> []"
    using assms by (auto simp: mfaVerify_def split: option.splits if_splits)
  show False
  proof (cases "sixDigits (mfaNormalise code)")
    case True
    then obtain r where "matchStep E now sec (mfaNormalise code) = Inr r"
      using assms sec by (cases "matchStep E now sec (mfaNormalise code)") (simp_all add: mfaVerify_def)
    then show False using assms sec True n
      by (cases r) (simp_all add: mfaVerify_def split: if_splits)
  next
    case False
    then show False using assms sec n by (simp add: mfaVerify_def Let_def split: if_splits)
  qed
qed

lemma mfaVerify_fields:
  assumes "mfaVerify E now u code = Inr (ok, u')"
  shows "sameContext u u' \<and> u_mfaEnabled u' = u_mfaEnabled u \<and> u_mfaSecret u' = u_mfaSecret u \<and>
    u_passwordHash u' = u_passwordHash u \<and> u_lockedUntil u' = u_lockedUntil u \<and>
    u_failedLoginAttempts u' = u_failedLoginAttempts u"
proof (cases ok)
  case True
  then have "mfaVerify E now u code = Inr (True, u')" using assms by simp
  then show ?thesis by (rule mfaVerify_cases) (simp_all add: sameContext_def)
next
  case False
  then have "u' = u" using assms mfaVerify_False [of E now u code u'] by simp
  then show ?thesis by (simp add: sameContext_def)
qed

text \<open>
  A run of checks of one enrolment: the factors accepted, in order. Each attempt comes at a
  time of its own; nothing is assumed of the times.
\<close>

fun mfaRun :: "('t, 'b) mfa_env_scheme \<Rightarrow> user \<Rightarrow> (int \<times> string) list \<Rightarrow> factor list" where
  "mfaRun E u [] = []"
| "mfaRun E u ((now, code) # rest) =
     (case mfaVerify E now u code of
        Inr (True, u') \<Rightarrow>
          (if sixDigits (mfaNormalise code)
           then TotpStep (case u_mfaLastStep u' of None \<Rightarrow> -1 | Some l \<Rightarrow> l)
           else RecoveryHash (hashCode E (mfaNormalise code))) # mfaRun E u' rest
      | _ \<Rightarrow> mfaRun E u rest)"

text \<open>The step and the codes that are left, and what one accepted check takes away.\<close>

definition lastStep :: "user \<Rightarrow> int" where
  "lastStep u = (case u_mfaLastStep u of None \<Rightarrow> -1 | Some l \<Rightarrow> l)"

lemma mfaRun_Cons:
  obtains (rejected) "mfaRun E u ((now, code) # rest) = mfaRun E u rest"
  | (totp) st u' where "mfaRun E u ((now, code) # rest) = TotpStep st # mfaRun E u' rest"
      "lastStep u < st" "lastStep u' = st" "u_mfaRecoveryCodes u' = u_mfaRecoveryCodes u"
  | (recovery) h u' where "mfaRun E u ((now, code) # rest) = RecoveryHash h # mfaRun E u' rest"
      "lastStep u' = lastStep u" "h \<in> set (u_mfaRecoveryCodes u)"
      "set (u_mfaRecoveryCodes u') = set (u_mfaRecoveryCodes u) - {h}"
proof (cases "mfaVerify E now u code")
  case (Inl e)
  then show thesis using rejected by simp
next
  case (Inr p)
  obtain ok u' where p: "p = (ok, u')" by (cases p)
  show thesis
  proof (cases ok)
    case False
    then show thesis using rejected Inr p by simp
  next
    case True
    then have v: "mfaVerify E now u code = Inr (True, u')" using Inr p by simp
    from v show thesis
    proof (cases rule: mfaVerify_cases)
      case t: (totp step)
      then show thesis using v by (intro totp [of step u']) (simp_all add: lastStep_def)
    next
      case r: recovery
      then show thesis using v
        by (intro recovery [of "hashCode E (mfaNormalise code)" u']) (auto simp: lastStep_def)
    qed
  qed
qed

lemma mfaRun_spent:
  "(TotpStep st \<in> set (mfaRun E u as) \<longrightarrow> lastStep u < st) \<and>
   (RecoveryHash h \<in> set (mfaRun E u as) \<longrightarrow> h \<in> set (u_mfaRecoveryCodes u))"
proof (induction as arbitrary: u)
  case (Cons a as)
  obtain now code where a: "a = (now, code)" by (cases a)
  show ?case unfolding a
    by (rule mfaRun_Cons [of E u now code as]) (use Cons.IH in \<open>fastforce+\<close>)
qed simp

definition totpSteps :: "factor list \<Rightarrow> int list" where
  "totpSteps fs = List.concat (List.map (\<lambda>f. case f of TotpStep st \<Rightarrow> [st] | RecoveryHash _ \<Rightarrow> []) fs)"

lemma totpSteps_simps [simp]:
  "totpSteps [] = []" "totpSteps (TotpStep st # fs) = st # totpSteps fs"
  "totpSteps (RecoveryHash h # fs) = totpSteps fs"
  by (simp_all add: totpSteps_def)

lemma set_totpSteps: "set (totpSteps fs) = {st. TotpStep st \<in> set fs}"
  by (induction fs) (auto simp: totpSteps_def split: factor.splits)

section \<open>Properties\<close>

text \<open>
  C4. No second factor is accepted twice: over any run of verifications of one enrolment,
  at any times, the accepted time steps and recovery codes are pairwise different, steps only
  grow, and every recovery code accepted was one of those issued.
\<close>

theorem factors_accepted_once:
  "distinct (mfaRun E u attempts) \<and>
   sorted_wrt (<) (totpSteps (mfaRun E u attempts)) \<and>
   {h. RecoveryHash h \<in> set (mfaRun E u attempts)} \<subseteq> set (u_mfaRecoveryCodes u)"
proof (induction attempts arbitrary: u)
  case (Cons a as)
  obtain now code where a: "a = (now, code)" by (cases a)
  show ?case
  proof (rule mfaRun_Cons [of E u now code as])
    assume r: "mfaRun E u ((now, code) # as) = mfaRun E u as"
    show ?thesis unfolding a r by (rule Cons.IH)
  next
    fix st u'
    assume r: "mfaRun E u ((now, code) # as) = TotpStep st # mfaRun E u' as" and l: "lastStep u' = st"
      and c: "u_mfaRecoveryCodes u' = u_mfaRecoveryCodes u"
    have "st < st'" if "TotpStep st' \<in> set (mfaRun E u' as)" for st'
      using mfaRun_spent [of st' E u' as] that l by simp
    then show ?thesis using Cons.IH [of u'] c unfolding a r by (auto simp: set_totpSteps)
  next
    fix h u'
    assume r: "mfaRun E u ((now, code) # as) = RecoveryHash h # mfaRun E u' as"
      and h: "h \<in> set (u_mfaRecoveryCodes u)"
        "set (u_mfaRecoveryCodes u') = set (u_mfaRecoveryCodes u) - {h}"
    then show ?thesis using Cons.IH [of u'] unfolding a r by auto
  qed
qed simp

text \<open>
  While one of a user's roles requires a second factor, \<open>disable\<close> is refused and nothing
  changes, whatever code is given; otherwise it succeeds only with a code that verification
  accepts.
\<close>

theorem mandatory_mfa_not_disabled:
  assumes "findUser s k = Some u" "u_mfaEnabled u"
  shows "isInr (disableMfa E now k code s) \<longleftrightarrow>
    \<not> isRequiredFor E (List.map r_name (rolesOf s u)) \<and> (\<exists>u'. mfaVerify E now u code = Inr (True, u'))"
proof (cases "mfaVerify E now u code")
  case (Inl e)
  then show ?thesis using assms by (simp add: disableMfa_def findById_def mfaVerifySave_def throwIf_def)
next
  case (Inr p)
  then show ?thesis using assms
    by (cases p) (auto simp: disableMfa_def findById_def mfaVerifySave_def throwIf_def)
qed

text \<open>An enrolled employee; the crypto and HMAC are the toy ones of the earlier theories.\<close>

definition demoMfaEnv :: "(string \<times> claims) mfa_env" where
  "demoMfaEnv = auth_env.extend demoEnv \<lparr>me_crypto = demoCrypto, me_box = oldBox, me_hmac = flatHmac\<rparr>"

definition demoMfaUser :: user where
  "demoMfaUser = (invitedUser ''a@b.c'' ''A'' ''B'' [3])\<lparr>u_status := ACTIVE, u_mfaEnabled := True,
     u_mfaSecret := Some (encrypt demoCrypto oldBox [7] ''MFRGG''), u_mfaRecoveryCodes := [''abcdef0123'']\<rparr>"

definition demoMfaState :: rbac_state where
  "demoMfaState = demoSeed\<lparr>usersT := [(0, demoMfaUser)]\<rparr>"

theorem mandatory_mfa_not_disabled_witness:
  "isInr (disableMfa demoMfaEnv 0 0 ''abcde-f0123'' demoMfaState)"
proof -
  have f: "findUser demoMfaState 0 = Some demoMfaUser" "u_mfaEnabled demoMfaUser"
    by (simp_all add: findUser_def demoMfaState_def demoMfaUser_def lookup_def invitedUser_def)
  have r: "\<not> isRequiredFor demoMfaEnv (List.map r_name (rolesOf demoMfaState demoMfaUser))"
    by (simp add: isRequiredFor_def demoMfaEnv_def demoEnv_def auth_env.extend_def rolesOf_def
        demoMfaState_def demoMfaUser_def demoSeed_def seedRoles_def SYSTEM_ROLE_DEFINITIONS_def invitedUser_def)
  have "encrypt demoCrypto oldBox [7] ''MFRGG'' \<noteq> []"
    by (simp add: encrypt_def Let_def case_prod_unfold)
  then have "mfaVerify demoMfaEnv 0 demoMfaUser ''abcde-f0123'' =
      Inr (True, demoMfaUser\<lparr>u_mfaRecoveryCodes := []\<rparr>)"
    by (simp add: mfaVerify_def demoMfaUser_def mfaNormalise_def isSpace_def lowerChar_def sixDigits_def
        hashCode_def demoMfaEnv_def demoEnv_def auth_env.extend_def Let_def)
  then show ?thesis using mandatory_mfa_not_disabled [OF f] r by blast
qed

end
