(* ===== verification/Paging.thy ===== *)
theory Paging
  imports Doubles
begin

text \<open>
  Pages of a listing (\<open>src/common/dto/pagination.dto.ts\<close>): the validated query, its offset,
  and the response with its page count, a division in double precision rounded up. Every
  list endpoint uses it.
\<close>

record page_query =
  pq_page :: int
  pq_limit :: int

text \<open>The validators \<open>IsInt\<close>, \<open>Min\<close> and \<open>Max\<close> of the query.\<close>

definition validPage :: "('a) page_query_scheme \<Rightarrow> bool" where
  "validPage q \<longleftrightarrow> 1 \<le> pq_page q \<and> 1 \<le> pq_limit q \<and> pq_limit q \<le> 100"

definition defaultPage :: page_query where
  "defaultPage = \<lparr>pq_page = 1, pq_limit = 20\<rparr>"

definition skip :: "('a) page_query_scheme \<Rightarrow> int" where
  "skip q = (pq_page q - 1) * pq_limit q"

record page_meta =
  pm_page :: int
  pm_limit :: int
  pm_total :: int
  pm_totalPages :: int

definition totalPages :: "int \<Rightarrow> int \<Rightarrow> int" where
  "totalPages n limit = max 1 \<lceil>ddiv (of_int n) (of_int limit)\<rceil>"

definition paginatedResponse :: "'r list \<Rightarrow> int \<Rightarrow> ('a) page_query_scheme \<Rightarrow> 'r list \<times> page_meta" where
  "paginatedResponse xs n q =
     (xs, \<lparr>pm_page = pq_page q, pm_limit = pq_limit q, pm_total = n,
           pm_totalPages = totalPages n (pq_limit q)\<rparr>)"

text \<open>\<open>findAndCount\<close> with \<open>skip\<close> and \<open>take\<close> on rows already selected and ordered.\<close>

definition pageOf :: "('a) page_query_scheme \<Rightarrow> 'r list \<Rightarrow> 'r list \<times> page_meta" where
  "pageOf q xs =
     paginatedResponse (take (nat (pq_limit q)) (drop (nat (skip q)) xs)) (int (length xs)) q"

section \<open>The page count is exact\<close>

lemma ceil_div_exact:
  fixes t l :: int
  assumes "0 \<le> t" "t \<le> 2 ^ 31" "1 \<le> l" "l \<le> 100"
  shows "\<lceil>ddiv (of_int t) (of_int l)\<rceil> = (t + l - 1) div l"
proof -
  define q where "q = (t + l - 1) div l"
  define x :: rat where "x = of_int t / of_int l"
  have dm: "l * q + (t + l - 1) mod l = t + l - 1" unfolding q_def by (rule mult_div_mod_eq)
  have "0 \<le> (t + l - 1) mod l" "(t + l - 1) mod l < l" using assms(3) by simp_all
  then have b: "l * (q - 1) \<le> t - 1" "t \<le> l * q"
    using dm by (simp_all add: algebra_simps)
  have l0: "(0::rat) < of_int l" using assms(3) by simp
  have x0: "0 \<le> x" using assms(1) l0 by (simp add: x_def)
  have xq: "x \<le> of_int q"
    using of_int_le_iff [where ?'a = rat, THEN iffD2, OF b(2)] l0
    by (simp add: x_def divide_le_eq mult.commute)
  have tb: "(of_int t :: rat) \<le> 2 ^ 31"
    using of_int_le_iff [where ?'a = rat, THEN iffD2, OF assms(2)] by simp
  have xt: "x \<le> of_int t"
    using assms(1,3) l0 mult_left_mono [of "1::rat" "of_int l" "of_int t"]
    by (simp add: x_def divide_le_eq)
  have q0: "0 \<le> q" using assms by (simp add: q_def pos_imp_zdiv_nonneg_iff)
  have "q - 1 \<le> l * (q - 1) \<or> q = 0"
    using mult_right_mono [of 1 l "q - 1"] assms(3) q0 by (cases "q = 0") simp_all
  then have "q \<le> 2 ^ 31" using b(1) assms(2) by auto
  then have q53: "\<bar>q\<bar> \<le> 2 ^ 53" using q0 by simp
  have hi: "fl x \<le> of_int q" using fl_mono [OF xq] fl_of_int [OF q53] by simp
  have "\<bar>fl x - x\<bar> \<le> 2 ^ 31 / 2 ^ 53"
    by (rule fl_error) (use xt tb x0 in simp_all)
  then have "- (fl x - x) \<le> 2 ^ 31 / 2 ^ 53" by (rule abs_le_D2)
  then have near: "x - fl x \<le> 1 / 2 ^ 22" by simp
  have l100: "(of_int l :: rat) \<le> 100"
    using of_int_le_iff [where ?'a = rat, THEN iffD2, OF assms(4)] by simp
  have "of_int l * (of_int q - 1) + 1 \<le> (of_int t :: rat)"
    using of_int_le_iff [where ?'a = rat, THEN iffD2, OF b(1)] by simp
  then have "(of_int l * (of_int q - 1) + 1) / of_int l \<le> x"
    unfolding x_def by (rule divide_right_mono) (use l0 in simp)
  then have "of_int q - 1 + 1 / of_int l \<le> x" using l0 by (simp add: add_divide_distrib)
  moreover have "1 / 100 \<le> 1 / (of_int l :: rat)" using l100 l0 by (simp add: field_simps)
  ultimately have "of_int q - 1 < fl x" using near by simp
  then have "\<lceil>fl x\<rceil> = q" using hi by (simp add: ceiling_eq_iff)
  then show ?thesis by (simp add: ddiv_def x_def q_def)
qed

lemma totalPages_exact:
  assumes "0 \<le> t" "t \<le> 2 ^ 31" "1 \<le> l" "l \<le> 100"
  shows "totalPages t l = max 1 ((t + l - 1) div l)"
  by (simp add: totalPages_def ceil_div_exact [OF assms])

lemma concat_chunks:
  "0 < l \<Longrightarrow> concat (List.map (\<lambda>i. take l (drop (i * l) xs)) [0..<n]) = take (n * l) xs"
proof (induction n)
  case (Suc n)
  have "take (l + n * l) xs = take (n * l) xs @ take l (drop (n * l) xs)"
    by (metis add.commute take_add)
  then show ?case using Suc by simp
qed simp

lemma chunks_cover: "0 < l \<Longrightarrow> m \<le> (m + l - 1) div l * (l::nat)"
proof -
  assume l: "0 < l"
  have "m + l - 1 < Suc ((m + l - 1) div l) * l"
    using l by (metis dividend_less_times_div mult.commute mult_Suc_right mult_Suc add.commute)
  then show ?thesis using l by (simp add: algebra_simps)
qed

text \<open>
  C21. Reading the pages 1 to \<open>totalPages\<close> of a listing returns every row exactly once and in
  order, no page is longer than the limit, and the page count (a double division rounded up)
  is the exact quotient for up to \<open>2 ^ 31\<close> rows.
\<close>

theorem pages_partition_listing:
  assumes l: "1 \<le> limit" "limit \<le> 100" and n: "int (length xs) \<le> 2 ^ 31"
  shows "concat (List.map (\<lambda>p. fst (pageOf \<lparr>pq_page = p, pq_limit = limit\<rparr> xs))
           [1..totalPages (int (length xs)) limit]) = xs \<and>
    length (fst (pageOf \<lparr>pq_page = p, pq_limit = limit\<rparr> xs)) \<le> nat limit \<and>
    totalPages (int (length xs)) limit = max 1 ((int (length xs) + limit - 1) div limit)"
proof (intro conjI)
  define k where "k = nat limit"
  have k: "0 < k" "limit = int k" using l by (simp_all add: k_def)
  define N where "N = totalPages (int (length xs)) limit"
  show te: "totalPages (int (length xs)) limit = max 1 ((int (length xs) + limit - 1) div limit)"
    using totalPages_exact [of "int (length xs)" limit] l n by simp
  show "length (fst (pageOf \<lparr>pq_page = p, pq_limit = limit\<rparr> xs)) \<le> nat limit"
    by (simp add: pageOf_def paginatedResponse_def)
  have "int (length xs) + limit - 1 = int (length xs + k - 1)" using k by simp
  then have "(int (length xs) + limit - 1) div limit = int ((length xs + k - 1) div k)"
    using k(2) by (metis zdiv_int)
  then have "(length xs + k - 1) div k \<le> nat N" using te by (simp add: N_def)
  then have cov: "length xs \<le> nat N * k"
    using chunks_cover [OF k(1), of "length xs"] by (meson le_trans mult_le_mono1)
  have u: "[1..N] = List.map (\<lambda>i. int i + 1) [0..<nat N]"
  proof -
    have "N \<ge> 1" using te by (simp add: N_def)
    then show ?thesis
      by (intro nth_equalityI) simp_all
  qed
  have "fst (pageOf \<lparr>pq_page = int i + 1, pq_limit = limit\<rparr> xs) = take k (drop (i * k) xs)" for i
    using k(2) by (simp add: pageOf_def paginatedResponse_def skip_def nat_mult_distrib)
  then have "concat (List.map (\<lambda>p. fst (pageOf \<lparr>pq_page = p, pq_limit = limit\<rparr> xs)) [1..N]) =
      concat (List.map (\<lambda>i. take k (drop (i * k) xs)) [0..<nat N])"
    by (simp add: u comp_def)
  also have "\<dots> = xs" using concat_chunks [OF k(1), of xs "nat N"] cov by simp
  finally show "concat (List.map (\<lambda>p. fst (pageOf \<lparr>pq_page = p, pq_limit = limit\<rparr> xs))
      [1..totalPages (int (length xs)) limit]) = xs" by (simp add: N_def)
qed

theorem pages_partition_listing_witness:
  "(concat (List.map (\<lambda>p. fst (pageOf \<lparr>pq_page = p, pq_limit = 2\<rparr> [10, 20, 30 :: int]))
     [1..totalPages (int (length [10, 20, 30 :: int])) 2]) = [10, 20, 30]) \<and>
   totalPages (int (length [10, 20, 30 :: int])) 2 = 2"
  using pages_partition_listing [of 2 "[10, 20, 30 :: int]" 1] by force

end
