(* ===== verification/AuditTrail.thy ===== *)
theory AuditTrail
  imports Prelude Paging "HOL-Library.Char_ord"
begin

text \<open>
  The audit trail (\<open>src/modules/audit\<close>): what one entry stores, the interceptor that writes a
  row for a successful request, the filtered listing, and the trigger that makes the table
  append-only up to the retention floor of a year (the two \<open>AuditLog\<close>/\<open>AuditRetention\<close>
  migrations).
\<close>

section \<open>JSON values\<close>

datatype json =
    JNull
  | JBool bool
  | JNum rat
  | JStr string
  | JArr "json list"
  | JObj "(string \<times> json) list"

definition isObject :: "json \<Rightarrow> bool" where
  "isObject v = (case v of JObj _ \<Rightarrow> True | _ \<Rightarrow> False)"

text \<open>\<open>body[k]\<close> on an object's own keys; \<open>None\<close> is \<open>undefined\<close>.\<close>

definition jget :: "json \<Rightarrow> string \<Rightarrow> json option" where
  "jget v k = (case v of JObj kvs \<Rightarrow> map_of kvs k | _ \<Rightarrow> None)"

definition jkeys :: "json \<Rightarrow> string list" where
  "jkeys v = (case v of JObj kvs \<Rightarrow> List.map fst kvs | _ \<Rightarrow> [])"

text \<open>Spreading one object over another: the later binding of a key wins and keeps its place.\<close>

definition jset :: "string \<Rightarrow> json \<Rightarrow> (string \<times> json) list \<Rightarrow> (string \<times> json) list" where
  "jset k v kvs =
     (if k \<in> fst ` set kvs then List.map (\<lambda>(j, w). (j, if j = k then v else w)) kvs else kvs @ [(k, v)])"

definition fromEntries :: "(string \<times> json) list \<Rightarrow> (string \<times> json) list" where
  "fromEntries es = foldl (\<lambda>acc (k, v). jset k v acc) [] es"

section \<open>The log\<close>

record audit_entry =
  en_actorUserId :: "id option"
  en_action :: string
  en_resourceType :: string
  en_resourceId :: "string option"
  en_ipAddress :: "string option"
  en_userAgent :: "string option"
  en_metadata :: "(string \<times> json) list option"

record audit_log =
  al_createdAt :: int
  al_actorUserId :: "id option"
  al_action :: string
  al_resourceType :: string
  al_resourceId :: "string option"
  al_ipAddress :: "string option"
  al_userAgent :: "string option"
  al_metadata :: "(string \<times> json) list"

definition mkAuditLog :: "int \<Rightarrow> audit_entry \<Rightarrow> audit_log" where
  "mkAuditLog now e =
     \<lparr>al_createdAt = now, al_actorUserId = en_actorUserId e, al_action = en_action e,
      al_resourceType = en_resourceType e, al_resourceId = en_resourceId e,
      al_ipAddress = map_option (take 64) (en_ipAddress e),
      al_userAgent = map_option (take 512) (en_userAgent e),
      al_metadata = (case en_metadata e of None \<Rightarrow> [] | Some m \<Rightarrow> m)\<rparr>"

text \<open>The column widths; the database refuses a row that exceeds one.\<close>

definition auditFits :: "audit_log \<Rightarrow> bool" where
  "auditFits l \<longleftrightarrow> length (al_action l) \<le> 100 \<and> length (al_resourceType l) \<le> 50 \<and>
     (case al_resourceId l of None \<Rightarrow> True | Some r \<Rightarrow> length r \<le> 100) \<and>
     (case al_ipAddress l of None \<Rightarrow> True | Some r \<Rightarrow> length r \<le> 64) \<and>
     (case al_userAgent l of None \<Rightarrow> True | Some r \<Rightarrow> length r \<le> 512)"

text \<open>\<open>AuditService.record\<close>: a refused write is only logged.\<close>

definition recordAudit :: "int \<Rightarrow> audit_entry \<Rightarrow> audit_log list \<Rightarrow> audit_log list" where
  "recordAudit now e T = (if auditFits (mkAuditLog now e) then T @ [mkAuditLog now e] else T)"

section \<open>Listing\<close>

record audit_query = page_query +
  aq_actorUserId :: "id option"
  aq_action :: "string option"
  aq_resourceType :: "string option"
  aq_resourceId :: "string option"
  aq_from :: "int option"
  aq_to :: "int option"

definition textFilter :: "string option \<Rightarrow> string option \<Rightarrow> bool" where
  "textFilter q v = (case q of None \<Rightarrow> True | Some t \<Rightarrow> t = [] \<or> v = Some t)"

definition auditMatches :: "audit_query \<Rightarrow> audit_log \<Rightarrow> bool" where
  "auditMatches q l \<longleftrightarrow>
     (case aq_actorUserId q of None \<Rightarrow> True | Some u \<Rightarrow> al_actorUserId l = Some u) \<and>
     textFilter (aq_action q) (Some (al_action l)) \<and>
     textFilter (aq_resourceType q) (Some (al_resourceType l)) \<and>
     textFilter (aq_resourceId q) (al_resourceId l) \<and>
     (case (aq_from q, aq_to q) of
        (Some f, Some t) \<Rightarrow> f \<le> al_createdAt l \<and> al_createdAt l \<le> t
      | (Some f, None) \<Rightarrow> f \<le> al_createdAt l
      | (None, Some t) \<Rightarrow> al_createdAt l \<le> t
      | (None, None) \<Rightarrow> True)"

text \<open>Newest first; rows of the same instant in any order (here: the order of insertion).\<close>

definition listAudit :: "audit_query \<Rightarrow> audit_log list \<Rightarrow> audit_log list \<times> page_meta" where
  "listAudit q T = pageOf q (sort_key (\<lambda>l. - al_createdAt l) (List.filter (auditMatches q) T))"

section \<open>The interceptor\<close>

record audit_spec =
  sp_action :: string
  sp_resourceType :: string
  sp_idParam :: "string option"
  sp_bodyKeys :: "string list"
  sp_fields :: bool

record http_request =
  rq_user :: "id option"
  rq_ip :: "string option"
  rq_userAgent :: "string option"
  rq_params :: "(string \<times> string) list"
  rq_body :: json

definition pick :: "json \<Rightarrow> string list \<Rightarrow> (string \<times> json) list" where
  "pick body ks =
     (if isObject body
      then fromEntries (List.map (\<lambda>k. (k, the (jget body k))) (List.filter (\<lambda>k. jget body k \<noteq> None) ks))
      else [])"

definition paramOf :: "http_request \<Rightarrow> string \<Rightarrow> string option" where
  "paramOf req k = map_of (rq_params req) k"

definition idOfResult :: "json \<Rightarrow> string option" where
  "idOfResult v = (case jget v ''id'' of Some (JStr s) \<Rightarrow> Some s | _ \<Rightarrow> None)"

definition auditEntryFor :: "audit_spec \<Rightarrow> http_request \<Rightarrow> json \<Rightarrow> audit_entry" where
  "auditEntryFor spec req result =
     \<lparr>en_actorUserId = rq_user req, en_action = sp_action spec, en_resourceType = sp_resourceType spec,
      en_resourceId =
        (case paramOf req (case sp_idParam spec of None \<Rightarrow> ''id'' | Some p \<Rightarrow> p) of
           Some v \<Rightarrow> Some v
         | None \<Rightarrow> idOfResult result),
      en_ipAddress = rq_ip req, en_userAgent = rq_userAgent req,
      en_metadata = Some
        (let picked = pick (rq_body req) (sp_bodyKeys spec)
         in if sp_fields spec \<and> isObject (rq_body req)
            then jset ''fields'' (JArr (List.map JStr (jkeys (rq_body req)))) picked
            else picked)\<rparr>"

text \<open>\<open>intercept\<close>: the handler runs first; a failed one throws through and leaves no row.\<close>

definition intercept ::
  "int \<Rightarrow> audit_spec option \<Rightarrow> http_request \<Rightarrow> json res \<Rightarrow> audit_log list \<Rightarrow> json res \<times> audit_log list" where
  "intercept now spec req handled T =
     (case (spec, handled) of
        (Some sp, Inr result) \<Rightarrow> (Inr result, recordAudit now (auditEntryFor sp req result) T)
      | _ \<Rightarrow> (handled, T))"

section \<open>The trigger\<close>

definition yearMs :: int where
  "yearMs = 365 * 86400000"

text \<open>
  \<open>audit_logs_immutable\<close> on a DELETE: allowed only with the session flag and for rows older than
  365 days by the database's clock. One refused row aborts the statement.
\<close>

definition auditDelete ::
  "bool \<Rightarrow> int \<Rightarrow> (audit_log \<Rightarrow> bool) \<Rightarrow> audit_log list \<Rightarrow> audit_log list res" where
  "auditDelete purgeFlag now p T =
     (if \<exists>l\<in>set T. p l \<and> \<not> (purgeFlag \<and> al_createdAt l < now - yearMs)
      then Inl (InternalError ''audit_logs is append-only'')
      else Inr (List.filter (\<lambda>l. \<not> p l) T))"

definition auditUpdate ::
  "(audit_log \<Rightarrow> bool) \<Rightarrow> (audit_log \<Rightarrow> audit_log) \<Rightarrow> audit_log list \<Rightarrow> audit_log list res" where
  "auditUpdate p f T =
     (if \<exists>l\<in>set T. p l then Inl (InternalError ''audit_logs is append-only'') else Inr T)"

text \<open>The audit part of \<open>RetentionService.run\<close>; the result carries the number of deleted rows.\<close>

definition purgeAudit ::
  "int \<Rightarrow> int \<Rightarrow> int \<Rightarrow> audit_log list \<Rightarrow> (int option \<times> audit_log list) res" where
  "purgeAudit days now dbNow T =
     (if 0 < days
      then bindE (auditDelete True dbNow (\<lambda>l. al_createdAt l < now - days * 86400000) T)
             (\<lambda>T'. Inr (Some (int (length T) - int (length T')), T'))
      else Inr (None, T))"

text \<open>
  Everything that can happen to the table, by the application or by hand: the clock runs,
  rows are recorded at the current time, statements run under the trigger.
\<close>

inductive audit_step :: "int \<times> audit_log list \<Rightarrow> int \<times> audit_log list \<Rightarrow> bool" where
  tick: "t \<le> t' \<Longrightarrow> audit_step (t, T) (t', T)"
| written: "audit_step (t, T) (t, recordAudit t e T)"
| delete: "auditDelete flag t p T = Inr T' \<Longrightarrow> audit_step (t, T) (t, T')"
| update: "auditUpdate p f T = Inr T' \<Longrightarrow> audit_step (t, T) (t, T')"
| purge: "now \<le> t \<Longrightarrow> purgeAudit days now t T = Inr (n, T') \<Longrightarrow> audit_step (t, T) (t, T')"

inductive_cases audit_stepE: "audit_step (t, T) (t', T')"

section \<open>Append-only\<close>

lemma auditDelete_kept:
  "auditDelete flag t p T = Inr T' \<Longrightarrow> l \<in> set T \<Longrightarrow> t - yearMs \<le> al_createdAt l \<Longrightarrow> l \<in> set T'"
  by (auto simp: auditDelete_def split: if_splits)

lemma auditDelete_sub: "auditDelete flag t p T = Inr T' \<Longrightarrow> set T' \<subseteq> set T"
  by (auto simp: auditDelete_def split: if_splits)

lemma recordAudit_set: "set T \<subseteq> set (recordAudit t e T)"
  by (auto simp: recordAudit_def)

lemma purgeAudit_kept:
  "purgeAudit days now t T = Inr (n, T') \<Longrightarrow> l \<in> set T \<Longrightarrow> t - yearMs \<le> al_createdAt l \<Longrightarrow> l \<in> set T'"
  using auditDelete_kept by (auto simp: purgeAudit_def bindE_Inr_iff split: if_splits)

lemma audit_step_time: "audit_step s s' \<Longrightarrow> fst s \<le> fst s'"
  by (induction rule: audit_step.induct) auto

lemma audit_steps_time: "audit_step\<^sup>*\<^sup>* s s' \<Longrightarrow> fst s \<le> fst s'"
  by (induction rule: rtranclp_induct) (auto dest: audit_step_time)

lemma audit_step_kept:
  "audit_step s s' \<Longrightarrow> l \<in> set (snd s) \<Longrightarrow> fst s - yearMs \<le> al_createdAt l \<Longrightarrow> l \<in> set (snd s')"
proof (induction rule: audit_step.induct)
  case (update p f T T' t)
  then show ?case by (auto simp: auditUpdate_def split: if_splits)
qed (auto dest: auditDelete_kept purgeAudit_kept intro: subsetD [OF recordAudit_set])


definition demoEntry :: audit_entry where
  "demoEntry =
     \<lparr>en_actorUserId = Some 1, en_action = ''payroll.run.approve'', en_resourceType = ''payroll_run'',
      en_resourceId = Some ''7'', en_ipAddress = None, en_userAgent = None, en_metadata = None\<rparr>"


text \<open>
  The nightly purge succeeds with every setting the configuration accepts (0, or at least
  365 days), as long as the database clock is not behind the application's: it removes
  exactly the rows older than the period and counts them. Between 1 and 364 days a single
  row between the two limits makes the whole statement fail.
\<close>

theorem purge_follows_retention:
  assumes "now \<le> dbNow"
  shows "(365 \<le> days \<longrightarrow>
      purgeAudit days now dbNow T =
        Inr (Some (int (length (List.filter (\<lambda>l. al_createdAt l < now - days * 86400000) T))),
             List.filter (\<lambda>l. now - days * 86400000 \<le> al_createdAt l) T)) \<and>
    purgeAudit 0 now dbNow T = Inr (None, T) \<and>
    (0 < days \<and> days < 365 \<and> now = dbNow \<and>
       (\<exists>l\<in>set T. now - yearMs \<le> al_createdAt l \<and> al_createdAt l < now - days * 86400000) \<longrightarrow>
      purgeAudit days now dbNow T = Inl (InternalError ''audit_logs is append-only''))"
proof (intro conjI impI)
  let ?old = "\<lambda>l. al_createdAt l < now - days * 86400000"
  assume d: "365 \<le> days"
  have "al_createdAt l < dbNow - yearMs" if "?old l" for l
    using that d assms unfolding yearMs_def by linarith
  then have "auditDelete True dbNow ?old T = Inr (List.filter (\<lambda>l. \<not> ?old l) T)"
    by (auto simp: auditDelete_def)
  moreover have "int (length T) - int (length (List.filter (\<lambda>l. \<not> ?old l) T)) = int (length (List.filter ?old T))"
    using sum_length_filter_compl [of ?old T] by linarith
  moreover have "0 < days" using d by simp
  ultimately show "purgeAudit days now dbNow T =
      Inr (Some (int (length (List.filter ?old T))), List.filter (\<lambda>l. now - days * 86400000 \<le> al_createdAt l) T)"
    by (simp add: purgeAudit_def not_less)
next
  show "purgeAudit 0 now dbNow T = Inr (None, T)" by (simp add: purgeAudit_def)
next
  assume "0 < days \<and> days < 365 \<and> now = dbNow \<and>
    (\<exists>l\<in>set T. now - yearMs \<le> al_createdAt l \<and> al_createdAt l < now - days * 86400000)"
  then show "purgeAudit days now dbNow T = Inl (InternalError ''audit_logs is append-only'')"
    by (force simp: purgeAudit_def auditDelete_def)
qed

theorem purge_follows_retention_witness:
  "purgeAudit 365 yearMs yearMs [mkAuditLog (- 1) demoEntry, mkAuditLog 5 demoEntry] =
     Inr (Some 1, [mkAuditLog 5 demoEntry])"
  using purge_follows_retention [of yearMs yearMs 365 "[mkAuditLog (- 1) demoEntry, mkAuditLog 5 demoEntry]"]
  by (simp add: yearMs_def mkAuditLog_def)

section \<open>What the interceptor writes\<close>

lemma pick_cong:
  assumes "isObject b = isObject b'" "\<And>k. k \<in> set ks \<Longrightarrow> jget b k = jget b' k"
  shows "pick b ks = pick b' ks"
proof -
  have "List.filter (\<lambda>k. jget b k \<noteq> None) ks = List.filter (\<lambda>k. jget b' k \<noteq> None) ks"
    by (rule filter_cong) (simp_all add: assms(2))
  then show ?thesis using assms by (auto simp: pick_def intro!: arg_cong [of _ _ fromEntries])
qed

text \<open>
  A row of the audit trail depends on the request's body only through the fields the
  annotation lists and, when asked for, the names of the fields sent: two requests that agree
  on these leave the same trail, whatever passwords or personal data they carry. A failed
  request leaves none, and the handler's result is passed on unchanged.
\<close>

theorem audit_row_reveals_only_whitelisted:
  "(jkeys b = jkeys b' \<and> isObject b = isObject b' \<and> (\<forall>k\<in>set (sp_bodyKeys spec). jget b k = jget b' k) \<longrightarrow>
      intercept now (Some spec) (req\<lparr>rq_body := b\<rparr>) r T = intercept now (Some spec) (req\<lparr>rq_body := b'\<rparr>) r T) \<and>
    fst (intercept now sp q r T) = r \<and>
    (\<not> isInr r \<longrightarrow> snd (intercept now sp q r T) = T)"
proof (intro conjI impI)
  assume a: "jkeys b = jkeys b' \<and> isObject b = isObject b' \<and> (\<forall>k\<in>set (sp_bodyKeys spec). jget b k = jget b' k)"
  then have "pick b (sp_bodyKeys spec) = pick b' (sp_bodyKeys spec)" by (intro pick_cong) auto
  then show "intercept now (Some spec) (req\<lparr>rq_body := b\<rparr>) r T = intercept now (Some spec) (req\<lparr>rq_body := b'\<rparr>) r T"
    using a by (cases r) (simp_all add: intercept_def auditEntryFor_def paramOf_def Let_def)
next
  show "fst (intercept now sp q r T) = r" by (auto simp: intercept_def split: option.splits sum.splits)
  show "\<not> isInr r \<Longrightarrow> snd (intercept now sp q r T) = T"
    by (auto simp: intercept_def isInr_def split: option.splits sum.splits)
qed

theorem audit_row_reveals_only_whitelisted_witness:
  "let spec = \<lparr>sp_action = ''auth.password'', sp_resourceType = ''user'', sp_idParam = None,
        sp_bodyKeys = [''email''], sp_fields = True\<rparr>;
      req = \<lparr>rq_user = Some 3, rq_ip = None, rq_userAgent = None, rq_params = [], rq_body = JNull\<rparr>;
      b = JObj [(''email'', JStr ''a''), (''password'', JStr ''x'')];
      b' = JObj [(''email'', JStr ''a''), (''password'', JStr ''y'')]
    in intercept 0 (Some spec) (req\<lparr>rq_body := b\<rparr>) (Inr JNull) [] =
       intercept 0 (Some spec) (req\<lparr>rq_body := b'\<rparr>) (Inr JNull) []"
  unfolding Let_def
  by (rule audit_row_reveals_only_whitelisted [THEN conjunct1, THEN mp])
    (simp add: jkeys_def isObject_def jget_def)

end
