(* ===== verification/AuthFlow.thy ===== *)
theory AuthFlow
  imports Mfa AuditTrail Dates
begin

text \<open>
  Sign-in (\<open>src/modules/auth/auth.service.ts\<close>, \<open>guards/jwt-auth.guard.ts\<close>, the CLI
  \<open>recover-account.ts\<close>): login with lockout, the second factor, refresh, invites and the
  password life cycle, and the guard every request passes. A handler that changes the state
  before it throws returns the result and the state side by side. The audit rows and events
  it writes are part of the state.
\<close>

datatype auth_event =
    UserInvited id (ev_email: string) (ev_firstName: string) string int
  | PasswordResetRequested id (ev_email: string) (ev_firstName: string) string int
  | PasswordChanged id (ev_email: string) (ev_firstName: string)
  | AccountLocked id (ev_email: string) (ev_firstName: string) int

record auth_state = token_state +
  auditT :: "audit_log list"
  authEvents :: "auth_event list"

datatype 't login_result = Session "'t issued_tokens" | MfaChallenge 't int

text \<open>Fresh keys and random strings one request may use.\<close>

record fresh =
  fr_row :: id
  fr_family :: id
  fr_raw :: string

text \<open>\<open>Date.toISOString\<close> of an instant.\<close>

definition isoInstant :: "int \<Rightarrow> string" where
  "isoInstant ms =
     todayIso ms @ ''T'' @ pad2 (ms div 3600000 mod 24) @ '':'' @ pad2 (ms div 60000 mod 60) @ '':'' @
     pad2 (ms div 1000 mod 60) @ ''.'' @ [digit (ms div 100 mod 10)] @ pad2 (ms mod 100) @ ''Z''"

definition auditAuth ::
  "int \<Rightarrow> string \<Rightarrow> id option \<Rightarrow> client_meta \<Rightarrow> (string \<times> json) list \<Rightarrow> 'a auth_state_scheme \<Rightarrow> 'a auth_state_scheme" where
  "auditAuth now action uid meta md s =
     s\<lparr>auditT := recordAudit now
        \<lparr>en_actorUserId = uid, en_action = action, en_resourceType = ''user'',
         en_resourceId = map_option decString uid, en_ipAddress = cm_ipAddress meta,
         en_userAgent = cm_userAgent meta, en_metadata = Some md\<rparr> (auditT s)\<rparr>"

definition emit :: "auth_event \<Rightarrow> 'a auth_state_scheme \<Rightarrow> 'a auth_state_scheme" where
  "emit e s = s\<lparr>authEvents := authEvents s @ [e]\<rparr>"

definition isLocked :: "int \<Rightarrow> user \<Rightarrow> bool" where
  "isLocked now u = (case u_lockedUntil u of None \<Rightarrow> False | Some t \<Rightarrow> now < t)"

definition assertCanLogin :: "user \<Rightarrow> unit res" where
  "assertCanLogin u =
     throwIf (u_status u = SUSPENDED) (Unauthorized ''Account is suspended'')
     (throwIf (u_status u = INVITED) (Unauthorized ''Accept your invitation to activate the account'')
     (Inr ()))"

definition registerFailure ::
  "('t, 'b) mfa_env_scheme \<Rightarrow> int \<Rightarrow> id \<Rightarrow> user \<Rightarrow> client_meta \<Rightarrow> string \<Rightarrow> 'a auth_state_scheme \<Rightarrow> 'a auth_state_scheme" where
  "registerFailure E now k u meta reason s =
     (let s1 = auditAuth now ''auth.login_failed'' (Some k) meta [(''reason'', JStr reason)] s;
          (lockedUntil, s2) = recordFailedLogin now k (ae_maxAttempts E) (ae_lockMinutes E) s1
      in case lockedUntil of None \<Rightarrow> s2
         | Some t \<Rightarrow> emit (AccountLocked k (u_email u) (u_firstName u) t)
                      (auditAuth now ''auth.locked'' (Some k) meta [(''lockedUntil'', JStr (isoInstant t))] s2))"

definition completeLogin ::
  "('t, 'b) mfa_env_scheme \<Rightarrow> int \<Rightarrow> fresh \<Rightarrow> id \<Rightarrow> user \<Rightarrow> client_meta \<Rightarrow> 'a auth_state_scheme
     \<Rightarrow> 't login_result res \<times> 'a auth_state_scheme" where
  "completeLogin E now fr k u meta s =
     (let u1 = u\<lparr>u_failedLoginAttempts := 0, u_lockedUntil := None, u_lastLoginAt := Some now\<rparr>;
          s1 = auditAuth now ''auth.login'' (Some k) meta [(''mfa'', JBool (u_mfaEnabled u1))] (saveUser k u1 s)
      in case issueForLogin E now (fr_row fr) (fr_raw fr) (fr_family fr) k (u_email u1) meta s1 of
           Inl e \<Rightarrow> (Inl e, s1)
         | Inr (tk, s2) \<Rightarrow> (Inr (Session tk), s2))"

text \<open>A user can have a password: neither an empty column nor an empty hash.\<close>

definition passwordOf :: "user \<Rightarrow> string option" where
  "passwordOf u = (case u_passwordHash u of Some h \<Rightarrow> if h = [] then None else Some h | None \<Rightarrow> None)"

definition login ::
  "('t, 'b) mfa_env_scheme \<Rightarrow> int \<Rightarrow> fresh \<Rightarrow> string \<Rightarrow> string \<Rightarrow> client_meta \<Rightarrow> 'a auth_state_scheme
     \<Rightarrow> 't login_result res \<times> 'a auth_state_scheme" where
  "login E now fr email password meta s =
     (case findByEmail s email of
        None \<Rightarrow> (Inl (Unauthorized ''Invalid email or password''),
                 auditAuth now ''auth.login_failed'' None meta
                   [(''email'', JStr email), (''reason'', JStr ''unknown_user'')] s)
      | Some (k, u) \<Rightarrow>
          (case passwordOf u of
             None \<Rightarrow> (Inl (Unauthorized ''Invalid email or password''),
                      auditAuth now ''auth.login_failed'' None meta
                   [(''email'', JStr email), (''reason'', JStr ''unknown_user'')] s)
           | Some h \<Rightarrow>
               if isLocked now u
               then (Inl (Unauthorized ''Invalid email or password''),
                     auditAuth now ''auth.login_failed'' (Some k) meta [(''reason'', JStr ''locked'')] s)
               else if \<not> ae_verifyPassword E h password
               then (Inl (Unauthorized ''Invalid email or password''),
                     registerFailure E now k u meta ''password'' s)
               else (case assertCanLogin u of
                       Inl e \<Rightarrow> (Inl e, s)
                     | Inr _ \<Rightarrow>
                         if u_mfaEnabled u
                         then (Inr (MfaChallenge (issueMfaChallenge E now k) MFA_CHALLENGE_TTL_SECONDS), s)
                         else completeLogin E now fr k u meta s)))"

definition verifyMfa ::
  "('t, 'b) mfa_env_scheme \<Rightarrow> int \<Rightarrow> fresh \<Rightarrow> 't \<Rightarrow> string \<Rightarrow> client_meta \<Rightarrow> 'a auth_state_scheme
     \<Rightarrow> 't login_result res \<times> 'a auth_state_scheme" where
  "verifyMfa E now fr mfaToken code meta s =
     (case bindE (verifyMfaChallenge E now mfaToken) (\<lambda>k. bindE (findById s k) (\<lambda>u. Inr (k, u))) of
        Inl e \<Rightarrow> (Inl e, s)
      | Inr (k, u) \<Rightarrow>
          if isLocked now u then (Inl (Unauthorized ''Invalid authentication code''), s)
          else (case assertCanLogin u of
                  Inl e \<Rightarrow> (Inl e, s)
                | Inr _ \<Rightarrow>
                    (case mfaVerifySave E now k u code s of
                       Inl e \<Rightarrow> (Inl e, s)
                     | Inr (ok, u1, s1) \<Rightarrow>
                         if \<not> ok
                         then (Inl (Unauthorized ''Invalid authentication code''),
                               registerFailure E now k u1 meta ''mfa'' s1)
                         else completeLogin E now fr k u1 meta s1)))"

definition refresh ::
  "('t, 'b) mfa_env_scheme \<Rightarrow> int \<Rightarrow> fresh \<Rightarrow> string \<Rightarrow> client_meta \<Rightarrow> 'a auth_state_scheme
     \<Rightarrow> 't issued_tokens res \<times> 'a auth_state_scheme" where
  "refresh E now fr rawRefreshToken meta s =
     (case rotateToken E now (fr_row fr) (fr_raw fr) rawRefreshToken meta s of
        (Inl e, s1) \<Rightarrow> (Inl e, s1)
      | (Inr (tk, uid), s1) \<Rightarrow>
          (case getAuthUser now uid s1 of
             (ctx, s2) \<Rightarrow>
               if (case ctx of None \<Rightarrow> True | Some a \<Rightarrow> au_status a \<noteq> ACTIVE)
               then (Inl (Unauthorized ''Account is not active''), revokeAllForUser E now uid s2)
               else (Inr tk, s2)))"

definition logout ::
  "('t, 'b) mfa_env_scheme \<Rightarrow> int \<Rightarrow> string \<Rightarrow> 'a auth_state_scheme \<Rightarrow> 'a auth_state_scheme" where
  "logout E now raw s = revokeByRawToken E now raw s"

definition logoutAll ::
  "('t, 'b) mfa_env_scheme \<Rightarrow> int \<Rightarrow> id \<Rightarrow> 'a auth_state_scheme \<Rightarrow> 'a auth_state_scheme" where
  "logoutAll E now uid s = revokeAllForUser E now uid s"

section \<open>Invites\<close>

definition sendInvite ::
  "('t, 'b) mfa_env_scheme \<Rightarrow> int \<Rightarrow> fresh \<Rightarrow> id \<Rightarrow> user \<Rightarrow> 'a auth_state_scheme \<Rightarrow> unit res \<times> 'a auth_state_scheme" where
  "sendInvite E now fr k u s =
     (case issueOneTime E now (fr_row fr) (fr_raw fr) k one_time_type.INVITE s of
        (Inl e, s1) \<Rightarrow> (Inl e, s1)
      | (Inr (raw, expiresAt), s1) \<Rightarrow> (Inr (), emit (UserInvited k (u_email u) (u_firstName u) raw expiresAt) s1))"

definition invite ::
  "('t, 'b) mfa_env_scheme \<Rightarrow> int \<Rightarrow> fresh \<Rightarrow> id \<Rightarrow> string \<Rightarrow> string \<Rightarrow> string \<Rightarrow> string list
     \<Rightarrow> 'a auth_state_scheme \<Rightarrow> id res \<times> 'a auth_state_scheme" where
  "invite E now fr k email firstN lastN roleNames s =
     (case createInvited k email firstN lastN roleNames s of
        Inl e \<Rightarrow> (Inl e, s)
      | Inr s1 \<Rightarrow>
          (case lookup (usersT s1) k of
             None \<Rightarrow> (Inr k, s1)
           | Some u \<Rightarrow>
               (case sendInvite E now fr k u s1 of
                  (Inl e, s2) \<Rightarrow> (Inl e, s2)
                | (Inr _, s2) \<Rightarrow> (Inr k, s2))))"

definition resendInvite ::
  "('t, 'b) mfa_env_scheme \<Rightarrow> int \<Rightarrow> fresh \<Rightarrow> id \<Rightarrow> 'a auth_state_scheme \<Rightarrow> unit res \<times> 'a auth_state_scheme" where
  "resendInvite E now fr k s =
     (case findById s k of
        Inl e \<Rightarrow> (Inl e, s)
      | Inr u \<Rightarrow>
          if u_status u \<noteq> INVITED
          then (Inl (BadRequest ''User has already accepted their invite''), s)
          else sendInvite E now fr k u s)"

definition acceptInvite ::
  "('t, 'b) mfa_env_scheme \<Rightarrow> int \<Rightarrow> fresh \<Rightarrow> string \<Rightarrow> string \<Rightarrow> client_meta \<Rightarrow> 'a auth_state_scheme
     \<Rightarrow> 't issued_tokens res \<times> 'a auth_state_scheme" where
  "acceptInvite E now fr rawToken password meta s =
     (case consumeOneTime E now rawToken one_time_type.INVITE s of
        Inl e \<Rightarrow> (Inl e, s)
      | Inr (k, s1) \<Rightarrow>
          (case findById s1 k of
             Inl e \<Rightarrow> (Inl e, s1)
           | Inr u \<Rightarrow>
               if u_status u \<noteq> INVITED then (Inl (BadRequest ''Invite has already been accepted''), s1)
               else (let u1 = u\<lparr>u_passwordHash := Some (ae_hashPassword E password),
                                u_passwordChangedAt := Some now, u_status := ACTIVE,
                                u_lastLoginAt := Some now\<rparr>;
                         s2 = invalidateAuthUser k (saveUser k u1 s1)
                     in case issueForLogin E now (fr_row fr) (fr_raw fr) (fr_family fr) k (u_email u1) meta s2 of
                          Inl e \<Rightarrow> (Inl e, s2)
                        | Inr (tk, s3) \<Rightarrow> (Inr tk, s3))))"

section \<open>Passwords\<close>

definition applyNewPassword ::
  "('t, 'b) mfa_env_scheme \<Rightarrow> int \<Rightarrow> id \<Rightarrow> user \<Rightarrow> string \<Rightarrow> 'a auth_state_scheme \<Rightarrow> 'a auth_state_scheme" where
  "applyNewPassword E now k u newPassword s =
     emit (PasswordChanged k (u_email u) (u_firstName u))
       (invalidateAuthUser k
         (revokeAllForUser E now k
           (saveUser k (u\<lparr>u_passwordHash := Some (ae_hashPassword E newPassword),
                          u_passwordChangedAt := Some now\<rparr>) s)))"

definition requestPasswordReset ::
  "('t, 'b) mfa_env_scheme \<Rightarrow> int \<Rightarrow> fresh \<Rightarrow> string \<Rightarrow> 'a auth_state_scheme \<Rightarrow> unit res \<times> 'a auth_state_scheme" where
  "requestPasswordReset E now fr email s =
     (case findByEmail s email of
        None \<Rightarrow> (Inr (), s)
      | Some (k, u) \<Rightarrow>
          if u_status u \<noteq> ACTIVE then (Inr (), s)
          else (case issueOneTime E now (fr_row fr) (fr_raw fr) k PASSWORD_RESET s of
                  (Inl e, s1) \<Rightarrow> (Inl e, s1)
                | (Inr (raw, expiresAt), s1) \<Rightarrow> (Inr (), emit (PasswordResetRequested k (u_email u) (u_firstName u) raw expiresAt) s1)))"

definition resetPassword ::
  "('t, 'b) mfa_env_scheme \<Rightarrow> int \<Rightarrow> string \<Rightarrow> string \<Rightarrow> string option \<Rightarrow> client_meta \<Rightarrow> 'a auth_state_scheme
     \<Rightarrow> unit res \<times> 'a auth_state_scheme" where
  "resetPassword E now rawToken newPassword code meta s =
     (case bindE (peekOneTime E now rawToken PASSWORD_RESET s) (\<lambda>k. bindE (findById s k) (\<lambda>u.
             bindE (assertCanLogin u) (\<lambda>_. Inr (k, u)))) of
        Inl e \<Rightarrow> (Inl e, s)
      | Inr (k, u) \<Rightarrow>
          (case (if \<not> u_mfaEnabled u then Inr (True, u, s)
                 else case code of
                        None \<Rightarrow> Inl (Unauthorized ''MFA_REQUIRED'')
                      | Some c \<Rightarrow> if c = [] then Inl (Unauthorized ''MFA_REQUIRED'')
                                   else mfaVerifySave E now k u c s) of
             Inl e \<Rightarrow> (Inl e, s)
           | Inr (ok, u1, s1) \<Rightarrow>
               if \<not> ok
               then (Inl (Unauthorized ''Invalid authentication code''), registerFailure E now k u1 meta ''mfa'' s1)
               else (case consumeOneTime E now rawToken PASSWORD_RESET s1 of
                       Inl e \<Rightarrow> (Inl e, s1)
                     | Inr (_, s2) \<Rightarrow> (Inr (), applyNewPassword E now k u1 newPassword s2))))"

definition changePassword ::
  "('t, 'b) mfa_env_scheme \<Rightarrow> int \<Rightarrow> id \<Rightarrow> string \<Rightarrow> string \<Rightarrow> 'a auth_state_scheme \<Rightarrow> 'a auth_state_scheme res" where
  "changePassword E now k currentPassword newPassword s =
     bindE (findById s k) (\<lambda>u.
     throwIf (case passwordOf u of None \<Rightarrow> True | Some h \<Rightarrow> \<not> ae_verifyPassword E h currentPassword)
       (Unauthorized ''Current password is incorrect'')
     (throwIf (currentPassword = newPassword) (BadRequest ''New password must differ from the current one'')
     (Inr (applyNewPassword E now k u newPassword s))))"

definition forceSetPassword ::
  "('t, 'b) mfa_env_scheme \<Rightarrow> int \<Rightarrow> id \<Rightarrow> string \<Rightarrow> 'a auth_state_scheme \<Rightarrow> 'a auth_state_scheme res" where
  "forceSetPassword E now k newPassword s =
     bindE (findById s k) (\<lambda>u. Inr (applyNewPassword E now k u newPassword s))"

text \<open>\<open>PASSWORD_RULES\<close>: the policy of the invite, reset and change forms and of the CLI.\<close>

definition passwordOk :: "string \<Rightarrow> bool" where
  "passwordOk p \<longleftrightarrow> 10 \<le> length p \<and> length p \<le> 128 \<and>
     list_ex (\<lambda>c. let n = (of_char c :: nat) in (65 \<le> n \<and> n \<le> 90) \<or> (97 \<le> n \<and> n \<le> 122)) p \<and>
     list_ex (\<lambda>c. let n = (of_char c :: nat) in 48 \<le> n \<and> n \<le> 57) p"

text \<open>
  The break-glass CLI and the admin's reset of a lost device. The new password comes from the
  environment: absent or empty means that it is kept.
\<close>

definition recoverAccount ::
  "('t, 'b) mfa_env_scheme \<Rightarrow> int \<Rightarrow> string \<Rightarrow> string \<Rightarrow> string option \<Rightarrow> 'a auth_state_scheme \<Rightarrow> 'a auth_state_scheme res" where
  "recoverAccount E now host email newPassword s =
     (let password = (case newPassword of Some [] \<Rightarrow> None | p \<Rightarrow> p);
          actions = [''unlock'', ''mfa_reset'', ''sessions_revoked''] @
            (if password = None then [] else [''password_set''])
      in throwIf (email = []) (InternalError ''Usage: recover-account --email <address>'')
     (throwIf (case password of None \<Rightarrow> False | Some p \<Rightarrow> \<not> passwordOk p)
        (InternalError ''RECOVERY_NEW_PASSWORD rejected'')
     (orThrow (findByEmail s email) (InternalError ''No user with email'') (\<lambda>(k, _).
     bindE (unlock k s) (\<lambda>s1.
     bindE (resetMfa k s1) (\<lambda>s2.
     let s3 = revokeAllForUser E now k s2 in
     bindE (case password of None \<Rightarrow> Inr s3 | Some p \<Rightarrow> forceSetPassword E now k p s3) (\<lambda>s4.
     let s5 = invalidateAuthUser k s4 in
     Inr (s5\<lparr>auditT := recordAudit now
       \<lparr>en_actorUserId = None, en_action = ''user.break_glass'', en_resourceType = ''user'',
        en_resourceId = Some (decString k), en_ipAddress = None, en_userAgent = None,
        en_metadata = Some [(''via'', JStr ''cli''), (''host'', JStr host),
          (''actions'', JArr (List.map JStr actions))]\<rparr> (auditT s5)\<rparr>))))))))"

text \<open>The seeder of the first administrator; an account with that address is left alone.\<close>

definition seedAdmin ::
  "('t, 'b) mfa_env_scheme \<Rightarrow> int \<Rightarrow> id \<Rightarrow> string \<Rightarrow> string \<Rightarrow> 'a rbac_state_scheme \<Rightarrow> 'a rbac_state_scheme res" where
  "seedAdmin E now k email password s =
     (if emailTaken s email then Inr s
      else orThrow (List.find (\<lambda>(j, r). r_name r = ''ADMIN'') (rolesT s)) (InternalError ''EntityNotFound'')
        (\<lambda>(rid, _). Inr (s\<lparr>usersT := insertRow k
           ((invitedUser email ''System'' ''Admin'' [rid])
             \<lparr>u_status := ACTIVE, u_passwordHash := Some (ae_hashPassword E password),
              u_passwordChangedAt := Some now\<rparr>) (usersT s)\<rparr>)))"

definition adminResetMfa ::
  "('t, 'b) mfa_env_scheme \<Rightarrow> int \<Rightarrow> id \<Rightarrow> 'a auth_state_scheme \<Rightarrow> 'a auth_state_scheme res" where
  "adminResetMfa E now k s = bindE (resetMfa k s) (\<lambda>s1. Inr (revokeAllForUser E now k s1))"

section \<open>The guard\<close>

definition splitSpaces :: "string \<Rightarrow> string list" where
  "splitSpaces h = splitOn (CHR '' '') h"

definition extractBearer :: "string option \<Rightarrow> string option" where
  "extractBearer header =
     (case header of None \<Rightarrow> None
      | Some h \<Rightarrow> (case splitSpaces h of
          scheme # token # _ \<Rightarrow>
            if List.map lowerChar scheme = ''bearer'' \<and> token \<noteq> [] then Some token else None
        | _ \<Rightarrow> None))"

text \<open>
  \<open>canActivate\<close>: \<open>None\<close> is a public route; otherwise the caller and the session attached to
  the request.
\<close>

definition jwtAuthGuard ::
  "('t, 'b) mfa_env_scheme \<Rightarrow> int \<Rightarrow> route_meta \<Rightarrow> route_meta \<Rightarrow> 't option \<Rightarrow> 'a auth_state_scheme
     \<Rightarrow> (auth_user \<times> id option) option res \<times> 'a auth_state_scheme" where
  "jwtAuthGuard E now h c bearer s =
     (if getAllAndOverride rm_public h c = Some True then (Inr None, s)
      else case bearer of
        None \<Rightarrow> (Inl (Unauthorized ''Missing bearer token''), s)
      | Some tok \<Rightarrow>
          (case verifyAccessToken E now tok of
             None \<Rightarrow> (Inl (Unauthorized ''Invalid or expired token''), s)
           | Some payload \<Rightarrow>
               if isSessionRevoked now s (cl_sid payload)
               then (Inl (Unauthorized ''Session was signed out''), s)
               else (case getAuthUser now (cl_sub payload) s of
                 (None, s1) \<Rightarrow> (Inl (Unauthorized ''User no longer exists''), s1)
               | (Some user, s1) \<Rightarrow>
                   if au_status user \<noteq> ACTIVE
                   then (Inl (Unauthorized ''Account is not active''), s1)
                   else if (case (au_passwordChangedAt user, cl_iat payload) of
                              (Some p, Some i) \<Rightarrow> i < p | _ \<Rightarrow> False)
                   then (Inl (Unauthorized ''Token issued before password change''), s1)
                   else if \<not> au_mfaEnabled user \<and> isRequiredFor E (au_roles user) \<and>
                           getAllAndOverride rm_allowWithoutMfa h c \<noteq> Some True
                   then (Inl (Forbidden ''MFA_SETUP_REQUIRED''), s1)
                   else (Inr (Some (user, cl_sid payload)), s1))))"

end
