(* ===== verification/AuthSafety.thy ===== *)
theory AuthSafety
  imports AuthFlow
begin

text \<open>
  What the sign-in handlers guarantee together. Every handler is, on the token tables, a path
  of token operations (\<open>tokPath\<close>) and keeps the invariant of the role tables and their cache;
  \<open>auth_step\<close> collects them with the operations of the other services. The properties are
  about reachable states of this system.
\<close>

section \<open>Frames\<close>

definition tokPath :: "('t, 'b) auth_env_scheme \<Rightarrow> int \<Rightarrow> 'a token_state_scheme \<Rightarrow> 'a token_state_scheme \<Rightarrow> bool" where
  "tokPath E now s s' \<longleftrightarrow> (tok_step E)\<^sup>*\<^sup>* (now, s) (now, s')"

definition sameTokens :: "'a token_state_scheme \<Rightarrow> 'a token_state_scheme \<Rightarrow> bool" where
  "sameTokens s s' \<longleftrightarrow> refreshT s' = refreshT s \<and> oneTimeT s' = oneTimeT s \<and> denyList s' = denyList s"

definition freshIn :: "fresh \<Rightarrow> 'a token_state_scheme \<Rightarrow> bool" where
  "freshIn fr s \<longleftrightarrow> fr_row fr \<notin> set (keys (refreshT s)) \<and> fr_row fr \<notin> set (keys (oneTimeT s)) \<and>
     fr_family fr \<notin> rt_familyId ` set (rows (refreshT s))"

named_theorems frames \<open>operations that leave the token tables alone\<close>

lemma tokPath_refl [simp]: "tokPath E now s s"
  by (simp add: tokPath_def)

lemma tokPath_trans: "tokPath E now s s' \<Longrightarrow> tokPath E now s' s'' \<Longrightarrow> tokPath E now s s''"
  unfolding tokPath_def by (rule rtranclp_trans)

lemma tokPath_same: "sameTokens s s' \<Longrightarrow> tokPath E now s s'"
  unfolding tokPath_def sameTokens_def by (blast intro: tok_step.other)

lemma tokPath_step: "tok_step E (now, s) (now, s') \<Longrightarrow> tokPath E now s s'"
  by (simp add: tokPath_def r_into_rtranclp)

lemma tokPath_then: "tokPath E now s s' \<Longrightarrow> sameTokens s' s'' \<Longrightarrow> tokPath E now s s''"
  by (blast intro: tokPath_trans tokPath_same)

lemma tokPath_after: "sameTokens s s' \<Longrightarrow> tokPath E now s' s'' \<Longrightarrow> tokPath E now s s''"
  by (blast intro: tokPath_trans tokPath_same)

lemma sameTokens_fresh: "sameTokens s s' \<Longrightarrow> freshIn fr s \<Longrightarrow> freshIn fr s'"
  by (simp add: sameTokens_def freshIn_def)

lemma sameTokens_refl [simp]: "sameTokens s s"
  by (simp add: sameTokens_def)

lemma sameTokens_trans: "sameTokens s s' \<Longrightarrow> sameTokens s' s'' \<Longrightarrow> sameTokens s s''"
  by (simp add: sameTokens_def)

lemma sameTokens_updates [frames]:
  "sameTokens s (s\<lparr>usersT := u\<rparr>)"
  "sameTokens s (s\<lparr>rolesT := r\<rparr>)"
  "sameTokens s (s\<lparr>ctxCache := c\<rparr>)"
  by (simp_all add: sameTokens_def)

lemma sameTokens_saveUser [frames]: "sameTokens s (saveUser k u s)"
  by (simp add: saveUser_def frames)

lemma sameTokens_invalidate [frames]: "sameTokens s (invalidateAuthUser k s)"
  by (simp add: invalidateAuthUser_def frames)

lemma sameTokens_auditAuth [frames]: "sameTokens s (auditAuth now a u m md s)"
  by (simp add: auditAuth_def sameTokens_def)

lemma sameTokens_emit [frames]: "sameTokens s (emit e s)"
  by (simp add: emit_def sameTokens_def)

lemma sameTokens_getAuthUser [frames]: "sameTokens s (snd (getAuthUser now k s))"
  by (rule getAuthUser_cases [of s k now]) (simp_all add: frames)

lemma sameTokens_recordFailed [frames]: "sameTokens s (snd (recordFailedLogin now k m l s))"
  by (simp add: recordFailedLogin_def Let_def frames)

lemma sameTokens_registerFailure [frames]: "sameTokens s (registerFailure E now k u meta r s)"
proof -
  let ?s1 = "auditAuth now ''auth.login_failed'' (Some k) meta [(''reason'', JStr r)] s"
  obtain l s2 where rf: "recordFailedLogin now k (ae_maxAttempts E) (ae_lockMinutes E) ?s1 = (l, s2)"
    by fastforce
  have "sameTokens ?s1 s2"
    using sameTokens_recordFailed [of ?s1 now k "ae_maxAttempts E" "ae_lockMinutes E"] rf by simp
  then have "sameTokens s s2" using sameTokens_trans sameTokens_auditAuth by blast
  then show ?thesis using rf sameTokens_trans sameTokens_auditAuth sameTokens_emit
    by (auto simp: registerFailure_def split: option.splits) blast
qed

lemma sameTokens_mfaSave [frames]: "sameTokens s (mfaSave k u s)"
  unfolding mfaSave_def by (rule sameTokens_trans [OF sameTokens_saveUser sameTokens_invalidate])

lemma sameTokens_mfaClear [frames]: "sameTokens s (mfaClear k u s)"
  by (simp add: mfaClear_def frames)

lemma sameTokens_mfaVerifySave: "mfaVerifySave E now k u c s = Inr (ok, u', s') \<Longrightarrow> sameTokens s s'"
  by (auto simp: mfaVerifySave_def res_simps frames split: prod.splits if_splits)

section \<open>Every handler is a path of token operations\<close>

lemma issue_path:
  assumes "freshIn fr s" "issueForLogin E now (fr_row fr) raw (fr_family fr) uid email meta s = Inr (tk, s')"
  shows "tokPath E now s s'"
  by (rule tokPath_step, rule tok_step.login [OF _ _ assms(2)]) (use assms(1) in \<open>simp_all add: freshIn_def\<close>)

lemma oneTime_path:
  assumes "freshIn fr s"
  shows "tokPath E now s (snd (issueOneTime E now (fr_row fr) raw u ty s))"
  by (rule tokPath_step, rule tok_step.issue) (use assms in \<open>simp add: freshIn_def\<close>)

lemma rotate_path:
  assumes "freshIn fr s"
  shows "tokPath E now s (snd (rotateToken E now (fr_row fr) raw r meta s))"
  by (rule tokPath_step, rule tok_step.rotate) (use assms in \<open>simp add: freshIn_def\<close>)

lemma consume_path: "consumeOneTime E now raw ty s = Inr (u, s') \<Longrightarrow> tokPath E now s s'"
  by (rule tokPath_step, rule tok_step.consume)

lemma revokeAll_path: "tokPath E now s (revokeAllForUser E now u s)"
  by (rule tokPath_step, rule tok_step.revokeAll)

lemma consume_fresh:
  assumes "freshIn fr s" "consumeOneTime E now raw ty s = Inr (u, s')"
  shows "freshIn fr s'"
proof -
  have "keys (oneTimeT s') = keys (oneTimeT s)"
    using assms(2) by (auto simp: consumeOneTime_def split: option.splits if_splits)
  then show ?thesis using assms consume_tables [OF assms(2)] by (simp add: freshIn_def)
qed

lemma completeLogin_path:
  assumes "freshIn fr s"
  shows "tokPath E now s (snd (completeLogin E now fr k u meta s))"
proof -
  let ?s1 = "auditAuth now ''auth.login'' (Some k) meta [(''mfa'', JBool (u_mfaEnabled u))]
    (saveUser k (u\<lparr>u_failedLoginAttempts := 0, u_lockedUntil := None, u_lastLoginAt := Some now\<rparr>) s)"
  have q: "sameTokens s ?s1" using sameTokens_trans sameTokens_saveUser sameTokens_auditAuth by blast
  show ?thesis
  proof (cases "issueForLogin E now (fr_row fr) (fr_raw fr) (fr_family fr) k (u_email u) meta ?s1")
    case (Inl e)
    then show ?thesis using q by (simp add: completeLogin_def Let_def tokPath_same)
  next
    case (Inr p)
    then obtain tk s2 where p: "p = (tk, s2)" by (cases p)
    have "tokPath E now ?s1 s2"
      using Inr p sameTokens_fresh [OF q assms] by (blast intro: issue_path)
    then show ?thesis using q Inr p by (simp add: completeLogin_def Let_def tokPath_after)
  qed
qed

lemma login_path:
  assumes "freshIn fr s"
  shows "tokPath E now s (snd (login E now fr email pw meta s))"
proof (cases "findByEmail s email")
  case None
  then show ?thesis by (simp add: login_def tokPath_same frames)
next
  case (Some p)
  obtain k u where p: "p = (k, u)" by (cases p)
  show ?thesis
  proof (cases "passwordOf u")
    case None
    then show ?thesis using Some p by (simp add: login_def tokPath_same frames)
  next
    case (Some h)
    show ?thesis
      by (cases "assertCanLogin u")
        (use \<open>findByEmail s email = Some p\<close> p Some completeLogin_path [OF assms, of E now k u meta]
          in \<open>simp_all add: login_def tokPath_same frames\<close>)
  qed
qed

lemma mfaVerifySave_path: "mfaVerifySave E now k u c s = Inr (ok, u', s') \<Longrightarrow> tokPath E' now s s'"
  by (rule tokPath_same) (rule sameTokens_mfaVerifySave)

lemma verifyMfa_path:
  assumes "freshIn fr s"
  shows "tokPath E now s (snd (verifyMfa E now fr tok code meta s))"
proof (cases "bindE (verifyMfaChallenge E now tok) (\<lambda>k. bindE (findById s k) (\<lambda>u. Inr (k, u)))")
  case (Inl e)
  then show ?thesis by (simp add: verifyMfa_def)
next
  case (Inr p)
  obtain k u where p: "p = (k, u)" by (cases p)
  show ?thesis
  proof (cases "isLocked now u \<or> \<not> isInr (assertCanLogin u)")
    case True
    then show ?thesis using Inr p by (cases "assertCanLogin u") (auto simp: verifyMfa_def)
  next
    case False
    then obtain x where a: "assertCanLogin u = Inr x" "\<not> isLocked now u"
      by (cases "assertCanLogin u") auto
    show ?thesis
    proof (cases "mfaVerifySave E now k u code s")
      case (Inl e)
      then show ?thesis using Inr p a by (simp add: verifyMfa_def)
    next
      case r: (Inr q)
      obtain ok u1 s1 where q: "q = (ok, u1, s1)" by (cases q)
      have same: "sameTokens s s1" using sameTokens_mfaVerifySave r q by blast
      have "tokPath E now s1 (snd (completeLogin E now fr k u1 meta s1))"
        by (rule completeLogin_path [OF sameTokens_fresh [OF same assms]])
      moreover have "tokPath E now s1 (registerFailure E now k u1 meta ''mfa'' s1)"
        by (simp add: tokPath_same frames)
      ultimately show ?thesis using Inr p a r q tokPath_after [OF same]
        by (cases ok) (simp_all add: verifyMfa_def)
    qed
  qed
qed

lemma refresh_path:
  assumes "freshIn fr s"
  shows "tokPath E now s (snd (refresh E now fr raw meta s))"
proof -
  obtain r s1 where r: "rotateToken E now (fr_row fr) (fr_raw fr) raw meta s = (r, s1)" by fastforce
  have p1: "tokPath E now s s1" using rotate_path [OF assms, of E now "fr_raw fr" raw meta] r by simp
  show ?thesis
  proof (cases r)
    case (Inl e)
    then show ?thesis using r p1 by (simp add: refresh_def)
  next
    case (Inr q)
    obtain tk uid where q: "q = (tk, uid)" by (cases q)
    obtain ctx s2 where g: "getAuthUser now uid s1 = (ctx, s2)" by fastforce
    have p2: "tokPath E now s s2" using tokPath_then [OF p1] sameTokens_getAuthUser [of s1 now uid] g by simp
    have "snd (refresh E now fr raw meta s) \<in> {s2, revokeAllForUser E now uid s2}"
      using r Inr q g by (simp add: refresh_def)
    then show ?thesis using p2 tokPath_trans [OF p2 revokeAll_path] by auto
  qed
qed

lemma logout_path: "tokPath E now s (logout E now raw s)"
  unfolding logout_def by (rule tokPath_step, rule tok_step.revokeRaw)

lemma sendInvite_path:
  assumes "freshIn fr s"
  shows "tokPath E now s (snd (sendInvite E now fr k u s))"
proof -
  obtain r s1 where r: "issueOneTime E now (fr_row fr) (fr_raw fr) k one_time_type.INVITE s = (r, s1)" by fastforce
  have p: "tokPath E now s s1" using oneTime_path [OF assms] r by (metis snd_conv)
  show ?thesis
    by (cases r) (use r p tokPath_then [OF p sameTokens_emit] in \<open>auto simp: sendInvite_def\<close>)
qed

lemma createInvited_same: "createInvited k e f l rs s = Inr s' \<Longrightarrow> sameTokens s s'"
  by (auto simp: createInvited_def res_simps frames)

lemma invite_path:
  assumes "freshIn fr s"
  shows "tokPath E now s (snd (invite E now fr k e f l rs s))"
proof (cases "createInvited k e f l rs s")
  case (Inl x)
  then show ?thesis by (simp add: invite_def)
next
  case (Inr s1)
  then have same: "sameTokens s s1" by (rule createInvited_same)
  show ?thesis
  proof (cases "lookup (usersT s1) k")
    case None
    then show ?thesis using Inr tokPath_same [OF same] by (simp add: invite_def)
  next
    case (Some u)
    obtain r s2 where r: "sendInvite E now fr k u s1 = (r, s2)" by fastforce
    then have "tokPath E now s1 s2" using sendInvite_path [OF sameTokens_fresh [OF same assms]] by (metis snd_conv)
    then have "tokPath E now s s2" by (rule tokPath_after [OF same])
    then show ?thesis using Inr Some r by (cases r) (simp_all add: invite_def)
  qed
qed

lemma resendInvite_path: "freshIn fr s \<Longrightarrow> tokPath E now s (snd (resendInvite E now fr k s))"
  by (cases "findById s k") (simp_all add: resendInvite_def sendInvite_path)

lemma acceptInvite_path:
  assumes "freshIn fr s"
  shows "tokPath E now s (snd (acceptInvite E now fr raw pw meta s))"
proof (cases "consumeOneTime E now raw one_time_type.INVITE s")
  case (Inl e)
  then show ?thesis by (simp add: acceptInvite_def)
next
  case (Inr p)
  obtain k s1 where p: "p = (k, s1)" by (cases p)
  have p1: "tokPath E now s s1" using Inr p by (blast intro: consume_path)
  have f1: "freshIn fr s1" using Inr p by (blast intro: consume_fresh [OF assms])
  show ?thesis
  proof (cases "findById s1 k")
    case (Inl e)
    then show ?thesis using Inr p p1 by (simp add: acceptInvite_def)
  next
    case u: (Inr u)
    define s2 where "s2 = invalidateAuthUser k (saveUser k (u\<lparr>u_passwordHash := Some (ae_hashPassword E pw),
        u_passwordChangedAt := Some now, u_status := ACTIVE, u_lastLoginAt := Some now\<rparr>) s1)"
    have same: "sameTokens s1 s2"
      unfolding s2_def by (rule sameTokens_trans [OF sameTokens_saveUser sameTokens_invalidate])
    have p2: "tokPath E now s s2" by (rule tokPath_then [OF p1 same])
    show ?thesis
    proof (cases "issueForLogin E now (fr_row fr) (fr_raw fr) (fr_family fr) k (u_email u) meta s2")
      case (Inl e)
      then show ?thesis using Inr p p1 p2 u by (simp add: acceptInvite_def Let_def s2_def)
    next
      case i: (Inr q)
      obtain tk s3 where q: "q = (tk, s3)" by (cases q)
      have "tokPath E now s2 s3" using i q by (blast intro: issue_path [OF sameTokens_fresh [OF same f1]])
      then have "tokPath E now s s3" by (rule tokPath_trans [OF p2])
      then show ?thesis using Inr p p1 u i q by (simp add: acceptInvite_def Let_def s2_def)
    qed
  qed
qed

lemma applyNewPassword_path: "tokPath E now s (applyNewPassword E now k u pw s)"
  unfolding applyNewPassword_def
  by (intro tokPath_then [OF _ sameTokens_emit] tokPath_then [OF _ sameTokens_invalidate]
      tokPath_after [OF sameTokens_saveUser revokeAll_path])

lemma requestReset_path:
  assumes "freshIn fr s"
  shows "tokPath E now s (snd (requestPasswordReset E now fr email s))"
proof (cases "findByEmail s email")
  case None
  then show ?thesis by (simp add: requestPasswordReset_def)
next
  case (Some p)
  obtain k u where p: "p = (k, u)" by (cases p)
  obtain r s1 where r: "issueOneTime E now (fr_row fr) (fr_raw fr) k PASSWORD_RESET s = (r, s1)" by fastforce
  have t: "tokPath E now s s1" using oneTime_path [OF assms] r by (metis snd_conv)
  show ?thesis
    by (cases r) (use Some p r t tokPath_then [OF t sameTokens_emit] in \<open>auto simp: requestPasswordReset_def\<close>)
qed

lemma resetPassword_path: "tokPath E now s (snd (resetPassword E now raw pw code meta s))"
proof (cases "bindE (peekOneTime E now raw PASSWORD_RESET s) (\<lambda>k. bindE (findById s k) (\<lambda>u.
             bindE (assertCanLogin u) (\<lambda>_. Inr (k, u))))")
  case (Inl e)
  then show ?thesis by (simp add: resetPassword_def)
next
  case (Inr p)
  obtain k u where p: "p = (k, u)" by (cases p)
  define m where "m = (if \<not> u_mfaEnabled u then Inr (True, u, s)
                 else case code of
                        None \<Rightarrow> Inl (Unauthorized ''MFA_REQUIRED'')
                      | Some c \<Rightarrow> if c = [] then Inl (Unauthorized ''MFA_REQUIRED'')
                                   else mfaVerifySave E now k u c s)"
  show ?thesis
  proof (cases m)
    case (Inl e)
    then show ?thesis using Inr p by (simp add: resetPassword_def m_def [symmetric])
  next
    case mr: (Inr q)
    obtain ok u1 s1 where q: "q = (ok, u1, s1)" by (cases q)
    have same: "sameTokens s s1"
      using mr q sameTokens_mfaVerifySave [of E now k u _ s ok u1 s1]
      by (auto simp: m_def split: if_splits option.splits)
    have p1: "tokPath E now s (registerFailure E now k u1 meta ''mfa'' s1)"
      by (rule tokPath_then [OF tokPath_same [OF same] sameTokens_registerFailure])
    show ?thesis
    proof (cases "consumeOneTime E now raw PASSWORD_RESET s1")
      case (Inl e)
      then show ?thesis using Inr p mr q p1 tokPath_same [OF same]
        by (cases ok) (simp_all add: resetPassword_def m_def [symmetric])
    next
      case c: (Inr x)
      obtain k' s2 where x: "x = (k', s2)" by (cases x)
      have "tokPath E now s1 s2" using c x by (blast intro: consume_path)
      then have "tokPath E now s (applyNewPassword E now k u1 pw s2)"
        by (blast intro: tokPath_after [OF same] tokPath_trans applyNewPassword_path)
      then show ?thesis using Inr p mr q p1 c x
        by (cases ok) (simp_all add: resetPassword_def m_def [symmetric])
    qed
  qed
qed

lemma changePassword_path: "changePassword E now k old new s = Inr s' \<Longrightarrow> tokPath E now s s'"
  by (auto simp: changePassword_def res_simps applyNewPassword_path)

lemma forceSetPassword_path: "forceSetPassword E now k new s = Inr s' \<Longrightarrow> tokPath E now s s'"
  by (auto simp: forceSetPassword_def res_simps applyNewPassword_path)

lemma resetMfa_same: "resetMfa k s = Inr s' \<Longrightarrow> sameTokens s s'"
  by (auto simp: resetMfa_def res_simps frames)

lemma adminResetMfa_path: "adminResetMfa E now k s = Inr s' \<Longrightarrow> tokPath E now s s'"
  by (auto simp: adminResetMfa_def res_simps intro: tokPath_after [OF resetMfa_same revokeAll_path])

lemma unlock_same: "unlock k s = Inr s' \<Longrightarrow> sameTokens s s'"
  by (auto simp: unlock_def res_simps frames)

lemma recoverAccount_path:
  assumes "recoverAccount E now host email pw s = Inr s'"
  shows "tokPath E now s s'"
proof -
  define password where "password = (case pw of Some [] \<Rightarrow> None | p \<Rightarrow> p)"
  obtain k s1 s2 s4 a where
    s1: "unlock k s = Inr s1" and s2: "resetMfa k s1 = Inr s2"
    and s4: "(case password of None \<Rightarrow> Inr (revokeAllForUser E now k s2)
        | Some p \<Rightarrow> forceSetPassword E now k p (revokeAllForUser E now k s2)) = Inr s4"
    and s': "s' = (invalidateAuthUser k s4)\<lparr>auditT := a\<rparr>"
    using assms unfolding recoverAccount_def password_def [symmetric] Let_def
    by (auto simp: res_simps)
  have "tokPath E now s (revokeAllForUser E now k s2)"
    using revokeAll_path unlock_same [OF s1] resetMfa_same [OF s2] tokPath_after by blast
  then have "tokPath E now s s4"
    using s4 by (cases password) (auto intro: tokPath_trans forceSetPassword_path)
  moreover have "sameTokens s4 s'" using s' by (simp add: sameTokens_def invalidateAuthUser_def)
  ultimately show ?thesis by (rule tokPath_then)
qed

lemma guard_same: "sameTokens s (snd (jwtAuthGuard E now h c b s))"
proof (cases "getAllAndOverride rm_public h c = Some True")
  case True
  then show ?thesis by (simp add: jwtAuthGuard_def)
next
  case False
  show ?thesis
  proof (cases b)
    case None
    then show ?thesis using False by (simp add: jwtAuthGuard_def)
  next
    case (Some tok)
    show ?thesis
    proof (cases "verifyAccessToken E now tok")
      case None
      then show ?thesis using False Some by (simp add: jwtAuthGuard_def)
    next
      case v: (Some pl)
      obtain ctx s1 where g: "getAuthUser now (cl_sub pl) s = (ctx, s1)" by fastforce
      then have "sameTokens s s1" using sameTokens_getAuthUser [of s now "cl_sub pl"] by simp
      then show ?thesis using False Some v g by (cases ctx) (simp_all add: jwtAuthGuard_def)
    qed
  qed
qed

section \<open>Every handler keeps the invariant of the role tables\<close>

definition sameUsers :: "'a rbac_state_scheme \<Rightarrow> 'a rbac_state_scheme \<Rightarrow> bool" where
  "sameUsers s s' \<longleftrightarrow> usersT s' = usersT s \<and> rolesT s' = rolesT s \<and> ctxCache s' = ctxCache s"

named_theorems users_kept \<open>operations that leave the users, roles and cached contexts alone\<close>

lemma rbacInv_frame:
  assumes "sameUsers s s'" "rbacInv s"
  shows "rbacInv s'"
proof -
  have "authContext s' k = authContext s k" for k
    by (rule authContext_cong) (use assms(1) in \<open>simp_all add: sameUsers_def\<close>)
  then show ?thesis using assms by (simp add: rbacInv_def cacheCoherent_def sameUsers_def)
qed

lemma findUser_sameUsers: "sameUsers s s' \<Longrightarrow> findUser s' k = findUser s k"
  by (simp add: sameUsers_def findUser_def)

lemma sameUsers_trans: "sameUsers s s' \<Longrightarrow> sameUsers s' s'' \<Longrightarrow> sameUsers s s''"
  by (simp add: sameUsers_def)

lemma sameUsers_auditAuth [users_kept]: "sameUsers s (auditAuth now a u m md s)"
  by (simp add: auditAuth_def sameUsers_def)

lemma sameUsers_emit [users_kept]: "sameUsers s (emit e s)"
  by (simp add: emit_def sameUsers_def)

lemma sameUsers_revokeFamily [users_kept]: "sameUsers s (revokeFamily E now g s)"
  by (simp add: revokeFamily_eq sameUsers_def)

lemma sameUsers_revokeAll [users_kept]: "sameUsers s (revokeAllForUser E now u s)"
  by (simp add: revokeAllForUser_def denySessions_def sameUsers_def)

lemma sameUsers_revokeRaw [users_kept]: "sameUsers s (revokeByRawToken E now raw s)"
  by (auto simp: revokeByRawToken_def users_kept sameUsers_def [of s s] split: option.splits)

lemma sameUsers_rotate [users_kept]: "sameUsers s (snd (rotateToken E now rid new raw meta s))"
  by (rule rotate_cases [of s E raw now rid new meta]) (simp_all add: sameUsers_revokeFamily, simp_all add: sameUsers_def)

lemma sameUsers_issueOneTime [users_kept]: "sameUsers s (snd (issueOneTime E now oid raw u ty s))"
  by (simp add: issueOneTime_def Let_def sameUsers_def)

lemma sameUsers_consume: "consumeOneTime E now raw ty s = Inr (u, s') \<Longrightarrow> sameUsers s s'"
  by (auto simp: consumeOneTime_def sameUsers_def split: option.splits if_splits)

lemma sameUsers_issue: "issueForLogin E now rid raw fam u e meta s = Inr (tk, s') \<Longrightarrow> sameUsers s s'"
  by (auto simp: issueForLogin_def issuePair_def res_simps Let_def sameUsers_def)

lemma findUser_saveUser:
  "findUser s k = Some u \<Longrightarrow> u_deletedAt v = None \<Longrightarrow> findUser (saveUser k v s) j = (if j = k then Some v else findUser s j)"
  by (auto simp: findUser_def saveUser_def lookup_updateRow split: option.splits if_splits)

lemma registerFailure_inv:
  assumes "rbacInv s"
  shows "rbacInv (registerFailure E now k u meta r s)"
proof -
  let ?s1 = "auditAuth now ''auth.login_failed'' (Some k) meta [(''reason'', JStr r)] s"
  obtain l s2 where rf: "recordFailedLogin now k (ae_maxAttempts E) (ae_lockMinutes E) ?s1 = (l, s2)"
    by fastforce
  have "rbacInv ?s1" by (rule rbacInv_frame [OF sameUsers_auditAuth assms])
  then have "rbacInv s2"
    using recordFailedLogin_inv [of ?s1 now k "ae_maxAttempts E" "ae_lockMinutes E"] rf by simp
  then show ?thesis using rf
    by (auto simp: registerFailure_def split: option.splits
        intro!: rbacInv_frame [OF sameUsers_emit] rbacInv_frame [OF sameUsers_auditAuth])
qed

lemma completeLogin_inv:
  assumes i: "rbacInv s" and u: "findUser s k = Some u"
  shows "rbacInv (snd (completeLogin E now fr k u meta s))"
proof -
  let ?v = "u\<lparr>u_failedLoginAttempts := 0, u_lockedUntil := None, u_lastLoginAt := Some now\<rparr>"
  let ?s1 = "auditAuth now ''auth.login'' (Some k) meta [(''mfa'', JBool (u_mfaEnabled u))] (saveUser k ?v s)"
  have "rbacInv (saveUser k ?v s)"
    by (rule rbacInv_sameContext [OF i u]) (simp add: sameContext_def)
  then have i1: "rbacInv ?s1" by (rule rbacInv_frame [OF sameUsers_auditAuth])
  show ?thesis
  proof (cases "issueForLogin E now (fr_row fr) (fr_raw fr) (fr_family fr) k (u_email u) meta ?s1")
    case (Inl e)
    then show ?thesis using i1 by (simp add: completeLogin_def Let_def)
  next
    case (Inr p)
    then obtain tk s2 where p: "p = (tk, s2)" by (cases p)
    have "rbacInv s2" using Inr p i1 by (blast intro: rbacInv_frame [OF sameUsers_issue])
    then show ?thesis using Inr p by (simp add: completeLogin_def Let_def)
  qed
qed

lemma findById_Inr: "findById s k = Inr u \<longleftrightarrow> findUser s k = Some u"
  by (simp add: findById_def orThrow_Inr_iff)

lemma findByEmail_SomeD:
  assumes "rbacInv s" "findByEmail s e = Some (k, u)"
  shows "findUser s k = Some u \<and> citext (u_email u) = citext e"
proof -
  have "(k, u) \<in> set (usersT s) \<and> citext (u_email u) = citext e \<and> u_deletedAt u = None"
    using find_SomeD [of _ "usersT s" "(k, u)"] assms(2) by (auto simp: findByEmail_def)
  then show ?thesis using keyed_lookup [of "usersT s" k u] assms(1)
    by (simp add: findUser_def rbacInv_def)
qed

lemma login_inv:
  assumes i: "rbacInv s"
  shows "rbacInv (snd (login E now fr email pw meta s))"
proof (cases "findByEmail s email")
  case None
  then show ?thesis by (simp add: login_def rbacInv_frame [OF sameUsers_auditAuth i])
next
  case (Some p)
  obtain k u where p: "p = (k, u)" by (cases p)
  have u: "findUser s k = Some u" using findByEmail_SomeD [OF i] Some p by blast
  show ?thesis
  proof (cases "passwordOf u")
    case None
    then show ?thesis using Some p by (simp add: login_def rbacInv_frame [OF sameUsers_auditAuth i])
  next
    case (Some h)
    show ?thesis
      by (cases "assertCanLogin u")
        (use \<open>findByEmail s email = Some p\<close> p Some completeLogin_inv [OF i u, of E now fr meta] i
          in \<open>simp_all add: login_def rbacInv_frame [OF sameUsers_auditAuth i] registerFailure_inv\<close>)
  qed
qed

lemma mfaVerifySave_inv:
  assumes i: "rbacInv s" and u: "findUser s k = Some u"
    and m: "mfaVerifySave E now k u c s = Inr (ok, u', s')"
  shows "rbacInv s' \<and> findUser s' k = Some u'"
proof -
  have v: "mfaVerify E now u c = Inr (ok, u')" and s': "s' = (if ok then saveUser k u' s else s)"
    using m by (auto simp: mfaVerifySave_def res_simps)
  have sc: "sameContext u u'" using mfaVerify_fields [OF v] by blast
  have d: "u_deletedAt u' = None" using sc findUser_SomeD [OF u] by (simp add: sameContext_def)
  have "\<not> ok \<Longrightarrow> u' = u" using v mfaVerify_False [of E now u c u'] by (cases ok) simp_all
  then show ?thesis
    using s' i u rbacInv_sameContext [OF i u sc] findUser_saveUser [OF u d] by (cases ok) simp_all
qed

lemma verifyMfa_inv:
  assumes i: "rbacInv s"
  shows "rbacInv (snd (verifyMfa E now fr tok code meta s))"
proof (cases "bindE (verifyMfaChallenge E now tok) (\<lambda>k. bindE (findById s k) (\<lambda>u. Inr (k, u)))")
  case (Inl e)
  then show ?thesis using i by (simp add: verifyMfa_def)
next
  case (Inr p)
  obtain k u where p: "p = (k, u)" by (cases p)
  have u: "findUser s k = Some u" using Inr p by (auto simp: res_simps findById_Inr)
  show ?thesis
  proof (cases "isLocked now u \<or> \<not> isInr (assertCanLogin u)")
    case True
    then show ?thesis using Inr p i by (cases "assertCanLogin u") (auto simp: verifyMfa_def)
  next
    case False
    then obtain x where a: "assertCanLogin u = Inr x" "\<not> isLocked now u"
      by (cases "assertCanLogin u") auto
    show ?thesis
    proof (cases "mfaVerifySave E now k u code s")
      case (Inl e)
      then show ?thesis using Inr p a i by (simp add: verifyMfa_def)
    next
      case r: (Inr q)
      obtain ok u1 s1 where q: "q = (ok, u1, s1)" by (cases q)
      have "rbacInv s1" "findUser s1 k = Some u1" using mfaVerifySave_inv [OF i u] r q by blast+
      then have "rbacInv (snd (completeLogin E now fr k u1 meta s1))"
        "rbacInv (registerFailure E now k u1 meta ''mfa'' s1)"
        by (simp_all add: completeLogin_inv registerFailure_inv)
      then show ?thesis using Inr p a r q by (cases ok) (simp_all add: verifyMfa_def)
    qed
  qed
qed

lemma refresh_inv:
  assumes i: "rbacInv s"
  shows "rbacInv (snd (refresh E now fr raw meta s))"
proof -
  obtain r s1 where r: "rotateToken E now (fr_row fr) (fr_raw fr) raw meta s = (r, s1)" by fastforce
  have i1: "rbacInv s1"
    using rbacInv_frame [OF sameUsers_rotate i, of E now "fr_row fr" "fr_raw fr" raw meta] r by simp
  show ?thesis
  proof (cases r)
    case (Inl e)
    then show ?thesis using r i1 by (simp add: refresh_def)
  next
    case (Inr q)
    obtain tk uid where q: "q = (tk, uid)" by (cases q)
    obtain ctx s2 where g: "getAuthUser now uid s1 = (ctx, s2)" by fastforce
    have "rbacInv s2" using getAuthUser_inv [OF i1, of now uid] g by simp
    then show ?thesis using r Inr q g rbacInv_frame [OF sameUsers_revokeAll [of s2 E now uid]]
      by (simp add: refresh_def)
  qed
qed

lemma sendInvite_inv:
  assumes i: "rbacInv s"
  shows "rbacInv (snd (sendInvite E now fr k u s))"
proof -
  obtain r s1 where r: "issueOneTime E now (fr_row fr) (fr_raw fr) k one_time_type.INVITE s = (r, s1)" by fastforce
  have "rbacInv s1" using rbacInv_frame [OF sameUsers_issueOneTime i] r by (metis snd_conv)
  then show ?thesis using r rbacInv_frame [OF sameUsers_emit, of s1]
    by (cases r) (auto simp: sendInvite_def)
qed

lemma invite_inv:
  assumes i: "rbacInv s" and k: "k \<notin> set (keys (usersT s))"
  shows "rbacInv (snd (invite E now fr k e f l rs s))"
proof (cases "createInvited k e f l rs s")
  case (Inl x)
  then show ?thesis using i by (simp add: invite_def)
next
  case (Inr s1)
  have i1: "rbacInv s1" by (rule createInvited_inv [OF i k Inr])
  show ?thesis
  proof (cases "lookup (usersT s1) k")
    case None
    then show ?thesis using Inr i1 by (simp add: invite_def)
  next
    case (Some u)
    obtain r s2 where r: "sendInvite E now fr k u s1 = (r, s2)" by fastforce
    then have "rbacInv s2" using sendInvite_inv [OF i1] by (metis snd_conv)
    then show ?thesis using Inr Some r by (cases r) (simp_all add: invite_def)
  qed
qed

lemma acceptInvite_inv:
  assumes i: "rbacInv s"
  shows "rbacInv (snd (acceptInvite E now fr raw pw meta s))"
proof (cases "consumeOneTime E now raw one_time_type.INVITE s")
  case (Inl e)
  then show ?thesis using i by (simp add: acceptInvite_def)
next
  case (Inr p)
  obtain k s1 where p: "p = (k, s1)" by (cases p)
  have i1: "rbacInv s1" using Inr p by (blast intro: rbacInv_frame [OF sameUsers_consume] i)
  show ?thesis
  proof (cases "findById s1 k")
    case (Inl e)
    then show ?thesis using Inr p i1 by (simp add: acceptInvite_def)
  next
    case u: (Inr u)
    define s2 where "s2 = invalidateAuthUser k (saveUser k (u\<lparr>u_passwordHash := Some (ae_hashPassword E pw),
        u_passwordChangedAt := Some now, u_status := ACTIVE, u_lastLoginAt := Some now\<rparr>) s1)"
    have fu: "findUser s1 k = Some u" using u by (simp add: findById_Inr)
    have i2: "rbacInv s2"
      unfolding s2_def by (rule rbacInv_saveInvalidate [OF i1 fu]) (use rbacInv_roles [OF i1 fu] in simp_all)
    show ?thesis
    proof (cases "issueForLogin E now (fr_row fr) (fr_raw fr) (fr_family fr) k (u_email u) meta s2")
      case (Inl e)
      then show ?thesis using Inr p i1 i2 u by (simp add: acceptInvite_def Let_def s2_def)
    next
      case s3: (Inr q)
      obtain tk s3 where q: "q = (tk, s3)" by (cases q)
      have "rbacInv s3" using s3 q by (blast intro: rbacInv_frame [OF sameUsers_issue] i2)
      then show ?thesis using Inr p i1 u s3 q by (simp add: acceptInvite_def Let_def s2_def)
    qed
  qed
qed

lemma invalidate_revokeAll:
  "invalidateAuthUser k (revokeAllForUser E now j s) = revokeAllForUser E now j (invalidateAuthUser k s)"
  by (simp add: invalidateAuthUser_def revokeAllForUser_def denySessions_def liveOf_def)

lemma applyNewPassword_inv:
  assumes i: "rbacInv s" and u: "findUser s k = Some u"
  shows "rbacInv (applyNewPassword E now k u pw s)"
  unfolding applyNewPassword_def invalidate_revokeAll
  by (intro rbacInv_frame [OF sameUsers_emit] rbacInv_frame [OF sameUsers_revokeAll]
      rbacInv_saveInvalidate [OF i u]) (use rbacInv_roles [OF i u] in simp_all)

lemma requestReset_inv:
  assumes i: "rbacInv s"
  shows "rbacInv (snd (requestPasswordReset E now fr email s))"
proof (cases "findByEmail s email")
  case None
  then show ?thesis using i by (simp add: requestPasswordReset_def)
next
  case (Some p)
  obtain k u where p: "p = (k, u)" by (cases p)
  obtain r s1 where r: "issueOneTime E now (fr_row fr) (fr_raw fr) k PASSWORD_RESET s = (r, s1)" by fastforce
  have "rbacInv s1" using rbacInv_frame [OF sameUsers_issueOneTime i] r by (metis snd_conv)
  then show ?thesis using Some p r i rbacInv_frame [OF sameUsers_emit, of s1]
    by (cases r) (auto simp: requestPasswordReset_def)
qed

lemma resetPassword_inv:
  assumes i: "rbacInv s"
  shows "rbacInv (snd (resetPassword E now raw pw code meta s))"
proof (cases "bindE (peekOneTime E now raw PASSWORD_RESET s) (\<lambda>k. bindE (findById s k) (\<lambda>u.
             bindE (assertCanLogin u) (\<lambda>_. Inr (k, u))))")
  case (Inl e)
  then show ?thesis using i by (simp add: resetPassword_def)
next
  case (Inr p)
  obtain k u where p: "p = (k, u)" by (cases p)
  have u: "findUser s k = Some u" using Inr p by (auto simp: res_simps findById_Inr)
  define m where "m = (if \<not> u_mfaEnabled u then Inr (True, u, s)
                 else case code of
                        None \<Rightarrow> Inl (Unauthorized ''MFA_REQUIRED'')
                      | Some c \<Rightarrow> if c = [] then Inl (Unauthorized ''MFA_REQUIRED'')
                                   else mfaVerifySave E now k u c s)"
  show ?thesis
  proof (cases m)
    case (Inl e)
    then show ?thesis using Inr p i by (simp add: resetPassword_def m_def [symmetric])
  next
    case mr: (Inr q)
    obtain ok u1 s1 where q: "q = (ok, u1, s1)" by (cases q)
    have i1: "rbacInv s1 \<and> findUser s1 k = Some u1"
      using mr q i u mfaVerifySave_inv [OF i u, of E now _ ok u1 s1]
      by (auto simp: m_def split: if_splits option.splits)
    show ?thesis
    proof (cases "consumeOneTime E now raw PASSWORD_RESET s1")
      case (Inl e)
      then show ?thesis using Inr p mr q i1
        by (cases ok) (simp_all add: resetPassword_def m_def [symmetric] registerFailure_inv)
    next
      case c: (Inr x)
      obtain k' s2 where x: "x = (k', s2)" by (cases x)
      have sm: "sameUsers s1 s2" using c x by (blast intro: sameUsers_consume)
      have "rbacInv (applyNewPassword E now k u1 pw s2)"
        using i1 rbacInv_frame [OF sm] findUser_sameUsers [OF sm, of k] by (simp add: applyNewPassword_inv)
      then show ?thesis using Inr p mr q i1 c x
        by (cases ok) (simp_all add: resetPassword_def m_def [symmetric] registerFailure_inv)
    qed
  qed
qed

lemma forceSetPassword_inv: "rbacInv s \<Longrightarrow> forceSetPassword E now k new s = Inr s' \<Longrightarrow> rbacInv s'"
  by (auto simp: forceSetPassword_def res_simps findById_Inr applyNewPassword_inv)

lemma changePassword_inv: "rbacInv s \<Longrightarrow> changePassword E now k old new s = Inr s' \<Longrightarrow> rbacInv s'"
  by (auto simp: changePassword_def res_simps findById_Inr applyNewPassword_inv)

lemma mfaSave_inv:
  assumes "rbacInv s" "findUser s k = Some u" "u_email v = u_email u" "u_roles v = u_roles u"
  shows "rbacInv (mfaSave k v s)"
  unfolding mfaSave_def
  by (rule rbacInv_saveInvalidate [OF assms(1,2)]) (use assms rbacInv_roles [OF assms(1,2)] in simp_all)

lemma resetMfa_inv: "rbacInv s \<Longrightarrow> resetMfa k s = Inr s' \<Longrightarrow> rbacInv s'"
  by (auto simp: resetMfa_def res_simps findById_Inr mfaClear_def intro!: mfaSave_inv)

lemma adminResetMfa_inv: "rbacInv s \<Longrightarrow> adminResetMfa E now k s = Inr s' \<Longrightarrow> rbacInv s'"
  by (auto simp: adminResetMfa_def res_simps intro: resetMfa_inv rbacInv_frame [OF sameUsers_revokeAll])

lemma recoverAccount_inv:
  assumes i: "rbacInv s" and "recoverAccount E now host email pw s = Inr s'"
  shows "rbacInv s'"
proof -
  define password where "password = (case pw of Some [] \<Rightarrow> None | p \<Rightarrow> p)"
  obtain k s1 s2 s4 a where
    s1: "unlock k s = Inr s1" and s2: "resetMfa k s1 = Inr s2"
    and s4: "(case password of None \<Rightarrow> Inr (revokeAllForUser E now k s2)
        | Some p \<Rightarrow> forceSetPassword E now k p (revokeAllForUser E now k s2)) = Inr s4"
    and s': "s' = (invalidateAuthUser k s4)\<lparr>auditT := a\<rparr>"
    using assms(2) unfolding recoverAccount_def password_def [symmetric] Let_def
    by (auto simp: res_simps)
  have "rbacInv (revokeAllForUser E now k s2)"
    using rbacInv_frame [OF sameUsers_revokeAll] resetMfa_inv [OF unlock_inv [OF i s1] s2] by blast
  then have "rbacInv s4" using s4 forceSetPassword_inv by (cases password) auto
  then have "rbacInv (invalidateAuthUser k s4)" by (rule evict_inv)
  then show ?thesis by (rule rbacInv_frame [rotated]) (simp add: s' sameUsers_def)
qed

lemma beginSetup_inv: "rbacInv s \<Longrightarrow> beginSetup E iv seed k s = Inr (sec, s') \<Longrightarrow> rbacInv s'"
  by (auto simp: beginSetup_def res_simps findById_Inr Let_def sameContext_def intro!: rbacInv_sameContext)

lemma enableMfa_inv: "rbacInv s \<Longrightarrow> enableMfa E now hx k c s = Inr (codes, s') \<Longrightarrow> rbacInv s'"
  by (auto simp: enableMfa_def res_simps findById_Inr Let_def split: option.splits intro!: mfaSave_inv)

lemma regenerate_inv:
  assumes i: "rbacInv s" and r: "regenerateRecoveryCodes E now hx k c s = Inr (codes, s')"
  shows "rbacInv s'"
proof -
  obtain u u1 s1 cs where u: "findUser s k = Some u" and m: "mfaVerifySave E now k u c s = Inr (True, u1, s1)"
    and s': "s' = saveUser k (u1\<lparr>u_mfaRecoveryCodes := cs\<rparr>) s1"
    using r by (auto simp: regenerateRecoveryCodes_def res_simps findById_Inr Let_def split: prod.splits)
  show ?thesis
    unfolding s' using mfaVerifySave_inv [OF i u m]
    by (intro rbacInv_sameContext [of s1 k u1]) (simp_all add: sameContext_def)
qed

lemma disableMfa_inv:
  assumes i: "rbacInv s" and r: "disableMfa E now k c s = Inr s'"
  shows "rbacInv s'"
proof -
  obtain u u1 s1 where u: "findUser s k = Some u" and m: "mfaVerifySave E now k u c s = Inr (True, u1, s1)"
    and s': "s' = mfaClear k u1 s1"
    using r by (auto simp: disableMfa_def res_simps findById_Inr split: prod.splits)
  show ?thesis
    unfolding s' mfaClear_def using mfaVerifySave_inv [OF i u m] by (intro mfaSave_inv [of s1 k u1]) simp_all
qed

lemma guard_inv:
  assumes i: "rbacInv s"
  shows "rbacInv (snd (jwtAuthGuard E now h c b s))"
proof (cases "getAllAndOverride rm_public h c = Some True \<or> b = None \<or> (\<forall>tok. b = Some tok \<longrightarrow> verifyAccessToken E now tok = None)")
  case True
  then show ?thesis using i by (cases b) (auto simp: jwtAuthGuard_def)
next
  case False
  then obtain tok pl where b: "b = Some tok" "verifyAccessToken E now tok = Some pl"
    "getAllAndOverride rm_public h c \<noteq> Some True" by (cases b) auto
  obtain ctx s1 where g: "getAuthUser now (cl_sub pl) s = (ctx, s1)" by fastforce
  have "rbacInv s1" using getAuthUser_inv [OF i, of now "cl_sub pl"] g by simp
  then show ?thesis using i b g by (cases ctx) (simp_all add: jwtAuthGuard_def)
qed

lemma seedAdmin_inv:
  assumes i: "rbacInv s" and k: "k \<notin> set (keys (usersT s))" and a: "seedAdmin E now k e p s = Inr s'"
  shows "rbacInv s'"
proof (cases "emailTaken s e")
  case True
  then show ?thesis using a i by (simp add: seedAdmin_def)
next
  case False
  obtain rid r where rr: "List.find (\<lambda>(j, r). r_name r = ''ADMIN'') (rolesT s) = Some (rid, r)"
    and s': "s' = s\<lparr>usersT := insertRow k ((invitedUser e ''System'' ''Admin'' [rid])
             \<lparr>u_status := ACTIVE, u_passwordHash := Some (ae_hashPassword E p),
              u_passwordChangedAt := Some now\<rparr>) (usersT s)\<rparr>"
    using a False by (auto simp: seedAdmin_def res_simps)
  have rid: "rid \<in> set (keys (rolesT s))" using find_SomeD [OF rr] by (force simp: keys_def)
  have none: "authContext s k = None"
    using k by (simp add: authContext_def findUser_def lookup_None_iff [symmetric])
  have "cacheCoherent s'"
  proof (rule coherent_if_dropped [of s])
    show "cacheCoherent s" using i by (simp add: rbacInv_def)
    fix j assume j: "ctxCache s' j \<noteq> None"
    then have "j \<noteq> k" using none i s' by (auto simp: rbacInv_def dest: coherentD)
    then show "ctxCache s' j = ctxCache s j \<and> authContext s' j = authContext s j"
      using s' k by (auto intro!: authContext_cong simp: lookup_insertRow)
  qed
  then show ?thesis using i False k rid s'
    by (auto simp: rbacInv_def emailTaken_def list_ex_iff invitedUser_def)
qed

section \<open>The reachable states\<close>

text \<open>
  One step is one request, command or passage of time. \<open>rbac\<close> is any operation of the role and
  user services; a row's new key and a new session id are fresh.
\<close>

inductive auth_step ::
  "('t, 'b) mfa_env_scheme \<Rightarrow> int \<times> 'a auth_state_scheme \<Rightarrow> int \<times> 'a auth_state_scheme \<Rightarrow> bool"
  for E where
  wait: "t \<le> t' \<Longrightarrow> auth_step E (t, s) (t', s)"
| rbac: "rbac_step s s' \<Longrightarrow> auth_step E (t, s) (t, s')"
| login: "freshIn fr s \<Longrightarrow> auth_step E (t, s) (t, snd (login E t fr email pw meta s))"
| verifyMfa: "freshIn fr s \<Longrightarrow> auth_step E (t, s) (t, snd (verifyMfa E t fr mt code meta s))"
| refresh: "freshIn fr s \<Longrightarrow> auth_step E (t, s) (t, snd (refresh E t fr raw meta s))"
| logout: "auth_step E (t, s) (t, logout E t raw s)"
| logoutAll: "auth_step E (t, s) (t, logoutAll E t u s)"
| revokeOne: "revokeSession E t u f s = Inr s' \<Longrightarrow> auth_step E (t, s) (t, s')"
| invite: "freshIn fr s \<Longrightarrow> k \<notin> set (keys (usersT s)) \<Longrightarrow>
    auth_step E (t, s) (t, snd (invite E t fr k e f l rs s))"
| resendInvite: "freshIn fr s \<Longrightarrow> auth_step E (t, s) (t, snd (resendInvite E t fr k s))"
| acceptInvite: "freshIn fr s \<Longrightarrow> auth_step E (t, s) (t, snd (acceptInvite E t fr raw pw meta s))"
| requestReset: "freshIn fr s \<Longrightarrow> auth_step E (t, s) (t, snd (requestPasswordReset E t fr email s))"
| resetPassword: "auth_step E (t, s) (t, snd (resetPassword E t raw pw oc meta s))"
| changePassword: "changePassword E t k old new s = Inr s' \<Longrightarrow> auth_step E (t, s) (t, s')"
| recoverAccount: "recoverAccount E t host email opw s = Inr s' \<Longrightarrow> auth_step E (t, s) (t, s')"
| adminResetMfa: "adminResetMfa E t k s = Inr s' \<Longrightarrow> auth_step E (t, s) (t, s')"
| seedAdmin: "k \<notin> set (keys (usersT s)) \<Longrightarrow> seedAdmin E t k e pw s = Inr s' \<Longrightarrow> auth_step E (t, s) (t, s')"
| beginSetup: "beginSetup E iv seed k s = Inr (secret, s') \<Longrightarrow> auth_step E (t, s) (t, s')"
| enableMfa: "enableMfa E t hx k code s = Inr (codes, s') \<Longrightarrow> auth_step E (t, s) (t, s')"
| regenerate: "regenerateRecoveryCodes E t hx k code s = Inr (codes, s') \<Longrightarrow> auth_step E (t, s) (t, s')"
| disableMfa: "disableMfa E t k code s = Inr s' \<Longrightarrow> auth_step E (t, s) (t, s')"
| guard: "auth_step E (t, s) (t, snd (jwtAuthGuard E t h c b s))"

lemma rbac_step_tokens:
  fixes s :: "'a token_state_scheme"
  shows "rbac_step s s' \<Longrightarrow> sameTokens s s'"
proof (induction rule: rbac_step.induct)
  case (updateProfile k f l s s')
  then show ?case by (auto simp: updateProfile_def res_simps Let_def frames)
next
  case (updateRole rid d ps s s')
  then show ?case
    by (auto simp: updateRole_def res_simps Let_def invalidateRoleHolders_def sameTokens_def)
next
  case (deleteRole rid s s')
  then show ?case
    by (auto simp: deleteRole_def removeRole_def res_simps Let_def invalidateRoleHolders_def sameTokens_def)
qed (auto simp: frames createRole_def invalidateRoleHolders_def
      setRoles_def setStatus_def unlock_def res_simps Let_def createInvited_def
      intro: sameTokens_trans [OF sameTokens_saveUser sameTokens_invalidate])

lemma auth_step_path:
  assumes "auth_step E c c'"
  shows "(tok_step E)\<^sup>*\<^sup>* c c'"
  using assms
proof (induction rule: auth_step.induct)
  case (wait t t' s)
  then show ?case by (blast intro: tok_step.wait)
next
  case (revokeOne t u f s s')
  then show ?case by (blast intro: tok_step.revokeOne)
next
  case (seedAdmin k s t e pw s')
  then have "sameTokens s s'" by (auto simp: seedAdmin_def res_simps frames split: if_splits)
  then show ?case using tokPath_same by (simp add: tokPath_def)
next
  case (beginSetup iv seed k s secret s' t)
  then have "sameTokens s s'" by (auto simp: beginSetup_def res_simps Let_def frames)
  then show ?case using tokPath_same by (simp add: tokPath_def)
next
  case (enableMfa t hx k code s codes s')
  then have "sameTokens s s'"
    by (auto simp: enableMfa_def res_simps Let_def frames split: option.splits)
  then show ?case using tokPath_same by (simp add: tokPath_def)
next
  case (regenerate t hx k code s codes s')
  then obtain u ok u1 s1 w where "mfaVerifySave E t k u code s = Inr (ok, u1, s1)" "s' = saveUser k w s1"
    by (auto simp: regenerateRecoveryCodes_def res_simps Let_def split: prod.splits)
  then have "sameTokens s s'" using sameTokens_mfaVerifySave sameTokens_trans sameTokens_saveUser by blast
  then show ?case using tokPath_same by (simp add: tokPath_def)
next
  case (disableMfa t k code s s')
  then obtain u ok u1 s1 where "mfaVerifySave E t k u code s = Inr (ok, u1, s1)" "s' = mfaClear k u1 s1"
    by (auto simp: disableMfa_def res_simps split: prod.splits)
  then have "sameTokens s s'" using sameTokens_mfaVerifySave sameTokens_trans sameTokens_mfaClear by blast
  then show ?case using tokPath_same by (simp add: tokPath_def)
next
  case (guard t h c b s)
  show ?case using tokPath_same [OF guard_same] by (simp add: tokPath_def)
next
  case (rbac s s' t)
  then show ?case using tokPath_same [OF rbac_step_tokens] by (simp add: tokPath_def)
qed (simp_all add: tokPath_def [symmetric] login_path verifyMfa_path refresh_path logout_path logoutAll_def
      revokeAll_path invite_path resendInvite_path acceptInvite_path requestReset_path resetPassword_path
      changePassword_path recoverAccount_path adminResetMfa_path)

lemma auth_steps_path: "(auth_step E)\<^sup>*\<^sup>* c c' \<Longrightarrow> (tok_step E)\<^sup>*\<^sup>* c c'"
  by (induction rule: rtranclp_induct) (auto dest: auth_step_path)

definition authInv :: "('t, 'b) mfa_env_scheme \<Rightarrow> int \<times> 'a auth_state_scheme \<Rightarrow> bool" where
  "authInv E c \<longleftrightarrow> rbacInv (snd c) \<and> tokInv E c"

definition authInit :: "int \<times> 'a auth_state_scheme \<Rightarrow> bool" where
  "authInit c \<longleftrightarrow> rbacInit (snd c) \<and> tokInit c"

lemma auth_step_rbac: "auth_step E c c' \<Longrightarrow> rbacInv (snd c) \<Longrightarrow> rbacInv (snd c')"
proof (induction rule: auth_step.induct)
  case (rbac s s' t)
  then show ?case using rbac.inv_step [of s s'] by simp
next
  case (resendInvite fr s t k)
  then show ?case by (cases "findById s k") (simp_all add: resendInvite_def sendInvite_inv)
next
  case (revokeOne t u f s s')
  then have "s' = revokeFamily E t f s" by (simp add: revokeSession_def throwIf_Inr_iff)
  then show ?case using revokeOne rbacInv_frame [OF sameUsers_revokeFamily [of s E t f]] by simp
next
  case (logoutAll t s u)
  then show ?case using rbacInv_frame [OF sameUsers_revokeAll [of s E t u]] by (simp add: logoutAll_def)
next
  case (logout t s raw)
  then show ?case using rbacInv_frame [OF sameUsers_revokeRaw [of s E t raw]] by (simp add: logout_def)
qed (auto intro: login_inv verifyMfa_inv refresh_inv invite_inv acceptInvite_inv requestReset_inv
      resetPassword_inv changePassword_inv recoverAccount_inv adminResetMfa_inv seedAdmin_inv
      beginSetup_inv enableMfa_inv regenerate_inv disableMfa_inv guard_inv)

interpretation auth: step_system authInit "auth_step E" "authInv E"
proof (unfold_locales)
  show "authInit c \<Longrightarrow> authInv E c" for c :: "int \<times> 'a auth_state_scheme"
    by (auto simp: authInit_def authInv_def intro: rbac.inv_init tokInit_inv)
  show "authInv E c \<Longrightarrow> auth_step E c c' \<Longrightarrow> authInv E c'" for c c' :: "int \<times> 'a auth_state_scheme"
    unfolding authInv_def using auth_step_rbac tok.inv_steps [OF auth_step_path] by blast
qed

end
