(* ===== verification/AuthProps.thy ===== *)
theory AuthProps
  imports AuthSafety
begin

text \<open>
  The security properties of signing in: what a login answers, when an account locks, what
  the guard lets through, and what a new password or a reset takes.
\<close>

section \<open>Login\<close>

definition credentialsOk :: "('t, 'b) mfa_env_scheme \<Rightarrow> int \<Rightarrow> 'a auth_state_scheme \<Rightarrow> string \<Rightarrow> string \<Rightarrow> bool" where
  "credentialsOk E now s email pw =
     (case findByEmail s email of None \<Rightarrow> False
      | Some (k, u) \<Rightarrow> (case passwordOf u of None \<Rightarrow> False
          | Some h \<Rightarrow> \<not> isLocked now u \<and> ae_verifyPassword E h pw))"

lemma completeLogin_cases:
  obtains (conflict) "fst (completeLogin E now fr k u meta s) = Inl (Conflict ''Resource already exists'')"
  | (issued) tk where "fst (completeLogin E now fr k u meta s) = Inr (Session tk)"
      "refreshT (snd (completeLogin E now fr k u meta s)) =
         insertRow (fr_row fr) (newRefresh E now (fr_raw fr) k (fr_family fr) meta) (refreshT s)"
proof -
  let ?s1 = "auditAuth now ''auth.login'' (Some k) meta [(''mfa'', JBool (u_mfaEnabled u))]
    (saveUser k (u\<lparr>u_failedLoginAttempts := 0, u_lockedUntil := None, u_lastLoginAt := Some now\<rparr>) s)"
  have r: "refreshT ?s1 = refreshT s" by (simp add: auditAuth_def saveUser_def)
  show ?thesis
  proof (cases "findRefresh ?s1 (ae_sha256 E (fr_raw fr)) = None")
    case False
    then show ?thesis using conflict by (simp add: completeLogin_def issueForLogin_def issuePair_def)
  next
    case True
    then show ?thesis using issued r by (simp add: completeLogin_def issueForLogin_def issuePair_def Let_def)
  qed
qed

lemma login_answers:
  assumes "credentialsOk E now s email pw"
  obtains k u where "findByEmail s email = Some (k, u)" "\<not> isLocked now u"
    "login E now fr email pw meta s = (case assertCanLogin u of Inl e \<Rightarrow> (Inl e, s)
       | Inr _ \<Rightarrow> if u_mfaEnabled u
           then (Inr (MfaChallenge (issueMfaChallenge E now k) MFA_CHALLENGE_TTL_SECONDS), s)
           else completeLogin E now fr k u meta s)"
  using assms by (auto simp: credentialsOk_def login_def split: option.splits)

lemma assertCanLogin_Inr: "assertCanLogin u = Inr x \<longleftrightarrow> u_status u = ACTIVE"
  by (cases "u_status u") (auto simp: assertCanLogin_def)

lemma login_bad: "\<not> credentialsOk E now s email pw \<Longrightarrow>
    fst (login E now fr email pw meta s) = Inl (Unauthorized ''Invalid email or password'')"
  by (auto simp: credentialsOk_def login_def split: option.splits)


section \<open>Lockout\<close>

type_synonym attempt = "int \<times> fresh \<times> string \<times> client_meta"

fun logins :: "('t, 'b) mfa_env_scheme \<Rightarrow> string \<Rightarrow> 'a auth_state_scheme \<Rightarrow> attempt list \<Rightarrow> 'a auth_state_scheme" where
  "logins E email s [] = s"
| "logins E email s ((t, fr, pw, meta) # rest) = logins E email (snd (login E t fr email pw meta s)) rest"

lemma find_updateRow:
  assumes "List.find P t = Some (k, u)" "\<And>j r. P (j, if j = k then f r else r) = P (j, r)"
  shows "List.find P (updateRow k f t) = Some (k, f u)"
  using assms(1)
proof (induction t)
  case (Cons x t)
  obtain j r where x: "x = (j, r)" by (cases x)
  then show ?case using Cons assms(2) [of j r] by (auto simp: updateRow_def split: if_splits)
qed simp

lemma findByEmail_bump:
  assumes "findByEmail s email = Some (k, u)" "usersT s' = updateRow k (bumpFailed now m l) (usersT s)"
  shows "findByEmail s' email = Some (k, bumpFailed now m l u)"
  using find_updateRow [of "\<lambda>(k, u). citext (u_email u) = citext email \<and> u_deletedAt u = None" "usersT s" k u
      "bumpFailed now m l"] assms
  by (auto simp: findByEmail_def bumpFailed_def)

lemma registerFailure_users:
  "usersT (registerFailure E now k u meta r s) = updateRow k (bumpFailed now (ae_maxAttempts E) (ae_lockMinutes E)) (usersT s)"
  by (simp add: registerFailure_def recordFailedLogin_def auditAuth_def emit_def Let_def split: option.split)

lemma wrong_password_state:
  assumes "findByEmail s email = Some (k, u)" "passwordOf u = Some h" "\<not> isLocked now u"
    "\<not> ae_verifyPassword E h pw"
  shows "findByEmail (snd (login E now fr email pw meta s)) email =
    Some (k, bumpFailed now (ae_maxAttempts E) (ae_lockMinutes E) u)"
  by (rule findByEmail_bump [OF assms(1)]) (use assms in \<open>simp add: login_def registerFailure_users\<close>)

lemma locked_login:
  assumes "findByEmail s email = Some (k, u)" "passwordOf u = Some h" "isLocked now u"
  shows "fst (login E now fr email pw meta s) = Inl (Unauthorized ''Invalid email or password'') \<and>
    usersT (snd (login E now fr email pw meta s)) = usersT s"
  using assms by (simp add: login_def auditAuth_def)

lemma failures_count:
  assumes "findByEmail s email = Some (k, u)" "passwordOf u = Some h" "u_lockedUntil u = None"
    "u_failedLoginAttempts u + length as \<le> ae_maxAttempts E" "as \<noteq> []"
    "\<forall>(t, fr, pw, meta)\<in>set as. \<not> ae_verifyPassword E h pw"
  shows "\<exists>u'. findByEmail (logins E email s as) email = Some (k, u') \<and> passwordOf u' = Some h \<and>
    (if u_failedLoginAttempts u + length as = ae_maxAttempts E
     then u_failedLoginAttempts u' = 0 \<and> u_lockedUntil u' = Some (fst (List.last as) + ae_lockMinutes E * 60000)
     else u_failedLoginAttempts u' = u_failedLoginAttempts u + length as \<and> u_lockedUntil u' = None)"
  using assms
proof (induction as arbitrary: s u)
  case (Cons a as)
  obtain t fr pw meta where a: "a = (t, fr, pw, meta)" by (cases a)
  let ?s1 = "snd (login E t fr email pw meta s)"
  let ?u1 = "bumpFailed t (ae_maxAttempts E) (ae_lockMinutes E) u"
  have f1: "findByEmail ?s1 email = Some (k, ?u1)"
    by (rule wrong_password_state [OF Cons.prems(1,2)]) (use Cons.prems a in \<open>auto simp: isLocked_def\<close>)
  have p1: "passwordOf ?u1 = Some h" using Cons.prems(2) by (simp add: passwordOf_def bumpFailed_def)
  show ?case
  proof (cases "as = []")
    case True
    then show ?thesis using f1 p1 a Cons.prems by (auto simp: bumpFailed_def)
  next
    case False
    then have lt: "u_failedLoginAttempts u + 1 < ae_maxAttempts E" using Cons.prems(4) by (cases as) simp_all
    then have u1: "u_failedLoginAttempts ?u1 = u_failedLoginAttempts u + 1" "u_lockedUntil ?u1 = None"
      using Cons.prems(3) by (simp_all add: bumpFailed_def)
    have "u_failedLoginAttempts ?u1 + length as \<le> ae_maxAttempts E"
      "\<forall>(t, fr, pw, meta)\<in>set as. \<not> ae_verifyPassword E h pw" using Cons.prems u1 by simp_all
    then show ?thesis using Cons.IH [OF f1 p1 u1(2) _ False] u1(1) a False by (auto split: if_splits)
  qed
qed simp

text \<open>
  Lockout. From a clean account, fewer wrong passwords than the limit only count; the one
  that reaches it locks the account for the configured minutes and resets the counter. While
  it is locked every login is refused with the same answer as a wrong password, the right
  password included, and leaves the account as it is, so a lock is neither found out nor
  prolonged by trying.
\<close>

theorem lockout_at_the_limit:
  assumes "findByEmail s email = Some (k, u)" "passwordOf u = Some h"
    "u_failedLoginAttempts u = 0" "u_lockedUntil u = None"
    "as \<noteq> []" "length as \<le> ae_maxAttempts E"
    "\<forall>(t, fr, pw, meta)\<in>set as. \<not> ae_verifyPassword E h pw"
  shows "\<exists>u'. findByEmail (logins E email s as) email = Some (k, u') \<and>
    (if length as < ae_maxAttempts E
     then u_failedLoginAttempts u' = length as \<and> u_lockedUntil u' = None
     else u_failedLoginAttempts u' = 0 \<and>
       u_lockedUntil u' = Some (fst (List.last as) + ae_lockMinutes E * 60000) \<and>
       (\<forall>now fr pw meta. now < fst (List.last as) + ae_lockMinutes E * 60000 \<longrightarrow>
          fst (login E now fr email pw meta (logins E email s as)) =
            Inl (Unauthorized ''Invalid email or password'') \<and>
          usersT (snd (login E now fr email pw meta (logins E email s as))) = usersT (logins E email s as)))"
proof -
  obtain u' where u': "findByEmail (logins E email s as) email = Some (k, u')" "passwordOf u' = Some h"
    "if length as = ae_maxAttempts E
     then u_failedLoginAttempts u' = 0 \<and> u_lockedUntil u' = Some (fst (List.last as) + ae_lockMinutes E * 60000)
     else u_failedLoginAttempts u' = length as \<and> u_lockedUntil u' = None"
    using failures_count [OF assms(1,2,4) _ assms(5,7)] assms(3,6) by auto
  have "isLocked now u'" if "now < fst (List.last as) + ae_lockMinutes E * 60000" "length as = ae_maxAttempts E" for now
    using u'(3) that by (simp add: isLocked_def)
  then show ?thesis using u' assms(6) locked_login [OF u'(1,2), where E = E] by (intro exI [of _ u']) auto
qed

section \<open>The guard\<close>

text \<open>
  C8. In every reachable state the guard attaches a caller to a request exactly when a bearer
  token verifies, its session has not been signed out, the user it names exists and is active
  in the tables now, the token is not older than the last change of password, and a second
  factor is on wherever a role of the user demands one (unless the route is open to enrolment);
  the caller is the context of the tables now, never a stale one.
\<close>

theorem guard_admits_only_current_sessions:
  assumes "authInit c0" "(auth_step E)\<^sup>*\<^sup>* c0 (t, s)"
  shows "fst (jwtAuthGuard E t h c bearer s) = Inr (Some (user, sid)) \<longleftrightarrow>
    getAllAndOverride rm_public h c \<noteq> Some True \<and>
    (\<exists>tok pl u. bearer = Some tok \<and> verifyAccessToken E t tok = Some pl \<and> sid = cl_sid pl \<and>
       \<not> isSessionRevoked t s sid \<and>
       findUser s (cl_sub pl) = Some u \<and> u_status u = ACTIVE \<and> user = mkAuthUser s (cl_sub pl) u \<and>
       (case (u_passwordChangedAt u, cl_iat pl) of (Some p, Some i) \<Rightarrow> p div 1000 \<le> i | _ \<Rightarrow> True) \<and>
       (u_mfaEnabled u \<or> \<not> isRequiredFor E (au_roles user) \<or>
        getAllAndOverride rm_allowWithoutMfa h c = Some True))"
proof -
  have coh: "cacheCoherent s"
    using auth.reach_inv [OF assms] by (simp add: authInv_def rbacInv_def)
  show ?thesis
  proof (cases "getAllAndOverride rm_public h c = Some True \<or> bearer = None \<or>
      (\<exists>tok. bearer = Some tok \<and> verifyAccessToken E t tok = None)")
    case True
    then show ?thesis by (auto simp: jwtAuthGuard_def)
  next
    case False
    then obtain tok pl where b: "bearer = Some tok" "verifyAccessToken E t tok = Some pl"
      "getAllAndOverride rm_public h c \<noteq> Some True" by auto
    obtain ctx s1 where g: "getAuthUser t (cl_sub pl) s = (ctx, s1)" by fastforce
    have ctx: "ctx = authContext s (cl_sub pl)" using getAuthUser_coherent [OF coh, of t "cl_sub pl"] g by simp
    show ?thesis
    proof (cases "findUser s (cl_sub pl)")
      case None
      then show ?thesis using b g ctx by (simp add: jwtAuthGuard_def authContext_def)
    next
      case (Some u)
      then have "ctx = Some (mkAuthUser s (cl_sub pl) u)" using ctx by (simp add: authContext_def)
      then show ?thesis using b g Some
        by (auto simp: jwtAuthGuard_def mkAuthUser_def not_less split: option.splits)
    qed
  qed
qed

section \<open>A new password\<close>

lemma applyNewPassword_sessions:
  assumes "tokInv E (t, s)" "lookup (refreshT s) j = Some r" "rt_userId r = k"
  shows "sessionDead (applyNewPassword E t k u pw s) (rt_familyId r)"
proof -
  have "sessionDead (revokeAllForUser E t k s) (rt_familyId r)" by (rule revokeAll_dead [OF assms])
  then show ?thesis
    by (simp add: sessionDead_def applyNewPassword_def emit_def invalidateAuthUser_def revokeAllForUser_def
        denySessions_def saveUser_def)
qed

lemma dead_session_stays_out:
  assumes reach: "(auth_step E)\<^sup>*\<^sup>* (t, s1) (t', s')" and i: "authInv E (t, s1)"
    and d: "sessionDead s1 (rt_familyId r)" and k: "rowKept s1 j r"
  shows "sessionDead s' (rt_familyId r) \<and> rowKept s' j r \<and> authInv E (t', s')"
proof -
  have p: "(tok_step E)\<^sup>*\<^sup>* (t, s1) (t', s')" by (rule auth_steps_path [OF reach])
  have "tokInv E (t, s1)" using i by (simp add: authInv_def)
  then have "sessionDead s' (rt_familyId r)" using sessionDead_steps [OF p] d by simp
  moreover have "rowKept s' j r" using rowKept_steps [OF p] k by simp
  ultimately show ?thesis using auth.inv_steps [OF reach i] by blast
qed

lemma dead_session_refused:
  assumes i: "authInv E (t, s)" and d: "sessionDead s (rt_familyId r)" and k: "rowKept s j r"
    and v: "verifyAccessToken E t tok = Some (accessClaims E (rt_createdAt r) uid email (rt_familyId r))"
    and e: "t div 1000 < cl_exp (accessClaims E (rt_createdAt r) uid email (rt_familyId r))"
    and p: "getAllAndOverride rm_public h c \<noteq> Some True"
  shows "fst (jwtAuthGuard E t h c (Some tok) s) = Inl (Unauthorized ''Session was signed out'')"
proof -
  obtain q where q: "lookup (refreshT s) j = Some q" "sameIdentity r q" using k by (auto simp: rowKept_def)
  have "isSessionRevoked t s (cl_sid (accessClaims E (rt_createdAt q) uid email (rt_familyId q)))"
    by (rule dead_session_denied [of E t s j])
      (use i q d e in \<open>simp_all add: authInv_def sessionDead_def sameIdentity_def\<close>)
  then show ?thesis using q(2) v p by (simp add: jwtAuthGuard_def sameIdentity_def)
qed

text \<open>
  C9. A change of password signs the user out everywhere, for good: whatever happens later, the
  guard refuses every access token that was issued with a refresh token stored before the
  change, and those refresh tokens and their successors cannot be used again.
\<close>

theorem password_change_ends_every_session:
  assumes "authInit c0" "(auth_step E)\<^sup>*\<^sup>* c0 (t, s)"
    and ch: "changePassword E t k old new s = Inr s1"
    and r: "lookup (refreshT s) j = Some r" "rt_userId r = k"
    and later: "(auth_step E)\<^sup>*\<^sup>* (t, s1) (t', s')"
    and tok: "verifyAccessToken E t' tok = Some (accessClaims E (rt_createdAt r) k email (rt_familyId r))"
      "t' div 1000 < cl_exp (accessClaims E (rt_createdAt r) k email (rt_familyId r))"
    and pub: "getAllAndOverride rm_public h c \<noteq> Some True"
    and raw: "findRefresh s' (ae_sha256 E raw) = Some (j', r')" "rt_familyId r' = rt_familyId r"
  shows "fst (jwtAuthGuard E t' h c (Some tok) s') = Inl (Unauthorized ''Session was signed out'') \<and>
    \<not> isInr (fst (refresh E t' fr raw meta s'))"
proof -
  have i: "authInv E (t, s)" by (rule auth.reach_inv [OF assms(1,2)])
  have st: "auth_step E (t, s) (t, s1)" by (rule auth_step.changePassword [OF ch])
  obtain u where s1: "s1 = applyNewPassword E t k u new s"
    using ch by (auto simp: changePassword_def res_simps)
  have "sessionDead s1 (rt_familyId r)"
    unfolding s1 by (rule applyNewPassword_sessions [OF _ r]) (use i in \<open>simp add: authInv_def\<close>)
  moreover have "rowKept s1 j r"
    using rowKept_steps [OF auth_step_path [OF st], of j r] rowKept_refl [OF r(1)] by simp
  ultimately have d: "sessionDead s' (rt_familyId r)" "rowKept s' j r" "authInv E (t', s')"
    using dead_session_stays_out [OF later auth.inv_step [OF i st]] by blast+
  have "\<not> isInr (fst (rotateToken E t' (fr_row fr) (fr_raw fr) raw meta s'))"
    by (rule dead_rotation_refused [OF _ _ raw(1)]) (use d raw(2) in \<open>simp_all add: authInv_def\<close>)
  then have "\<not> isInr (fst (refresh E t' fr raw meta s'))"
    by (cases "rotateToken E t' (fr_row fr) (fr_raw fr) raw meta s'"; cases "fst (rotateToken E t' (fr_row fr) (fr_raw fr) raw meta s')")
      (auto simp: refresh_def)
  then show ?thesis using dead_session_refused [OF d(3,1,2) tok pub] by blast
qed

section \<open>Resets and refreshes\<close>

lemma peek_consume:
  assumes "oneTimeT s1 = oneTimeT s"
  shows "peekOneTime E now raw ty s = Inr k \<longleftrightarrow> (\<exists>s2. consumeOneTime E now raw ty s1 = Inr (k, s2))"
proof -
  have "findOneTime s1 h ty = findOneTime s h ty" for h by (simp add: findOneTime_def assms)
  then show ?thesis
    by (auto simp: peekOneTime_def consumeOneTime_def split: option.splits)
qed

lemma mfaVerifySave_Inr:
  "mfaVerifySave E now k u c s = Inr (ok, u1, s1) \<longleftrightarrow>
     mfaVerify E now u c = Inr (ok, u1) \<and> s1 = (if ok then saveUser k u1 s else s)"
  by (auto simp: mfaVerifySave_def res_simps)

text \<open>The factor check of a reset, and what passes it.\<close>

definition secondFactor ::
  "('t, 'b) mfa_env_scheme \<Rightarrow> int \<Rightarrow> user \<Rightarrow> string option \<Rightarrow> user \<Rightarrow> bool" where
  "secondFactor E now u code u1 \<longleftrightarrow>
     (if u_mfaEnabled u then \<exists>c. code = Some c \<and> c \<noteq> [] \<and> mfaVerify E now u c = Inr (True, u1) else u1 = u)"

lemma resetPassword_Inr:
  "resetPassword E now raw pw code meta s = (Inr (), s') \<longleftrightarrow>
    (\<exists>k u u1 s1 k2 s2. peekOneTime E now raw PASSWORD_RESET s = Inr k \<and> findUser s k = Some u \<and> u_status u = ACTIVE \<and>
      secondFactor E now u code u1 \<and> s1 = (if u_mfaEnabled u then saveUser k u1 s else s) \<and>
      consumeOneTime E now raw PASSWORD_RESET s1 = Inr (k2, s2) \<and> s' = applyNewPassword E now k u1 pw s2)"
proof (cases "bindE (peekOneTime E now raw PASSWORD_RESET s) (\<lambda>k. bindE (findById s k) (\<lambda>u.
             bindE (assertCanLogin u) (\<lambda>_. Inr (k, u))))")
  case (Inl e)
  then have no: "\<not> (\<exists>k u. peekOneTime E now raw PASSWORD_RESET s = Inr k \<and> findUser s k = Some u \<and> u_status u = ACTIVE)"
    by (auto simp: findById_def assertCanLogin_def)
  show ?thesis using Inl no by (auto simp: resetPassword_def)
next
  case (Inr p)
  obtain k u where p: "p = (k, u)" by (cases p)
  have ku: "peekOneTime E now raw PASSWORD_RESET s = Inr k" "findUser s k = Some u" "u_status u = ACTIVE"
    using Inr p by (auto simp: res_simps findById_Inr assertCanLogin_Inr)
  define m where "m = (if \<not> u_mfaEnabled u then Inr (True, u, s)
                 else case code of
                        None \<Rightarrow> Inl (Unauthorized ''MFA_REQUIRED'')
                      | Some c \<Rightarrow> if c = [] then Inl (Unauthorized ''MFA_REQUIRED'')
                                   else mfaVerifySave E now k u c s)"
  have mm: "m = Inr (True, u1, s1) \<longleftrightarrow> secondFactor E now u code u1 \<and> s1 = (if u_mfaEnabled u then saveUser k u1 s else s)" for u1 s1
    by (cases code) (auto simp: m_def secondFactor_def mfaVerifySave_Inr)
  have "resetPassword E now raw pw code meta s = (Inr (), s') \<longleftrightarrow>
      (\<exists>u1 s1 k2 s2. m = Inr (True, u1, s1) \<and> consumeOneTime E now raw PASSWORD_RESET s1 = Inr (k2, s2) \<and>
         s' = applyNewPassword E now k u1 pw s2)"
    unfolding resetPassword_def Inr p by (auto simp: m_def [symmetric] split: sum.splits)
  then show ?thesis using ku mm by auto
qed

text \<open>
  C11. A reset succeeds exactly with an unused, unexpired reset token of an active user and, when
  the account has a second factor, a code that verifies: the emailed link alone is not
  enough. It then sets the new hash and ends every session of the user. A lock of the account
  is not among the conditions: unlike a login and the second step of one, a reset checks codes
  while the account is locked.
\<close>

theorem reset_needs_link_and_factor:
  assumes "authInit c0" "(auth_step E)\<^sup>*\<^sup>* c0 (t, s)"
  shows "(isInr (fst (resetPassword E t raw pw code meta s)) \<longleftrightarrow>
      (\<exists>k u. peekOneTime E t raw PASSWORD_RESET s = Inr k \<and> findUser s k = Some u \<and> u_status u = ACTIVE \<and>
         (\<exists>u1. secondFactor E t u code u1))) \<and>
    (\<forall>k. isInr (fst (resetPassword E t raw pw code meta s)) \<and> peekOneTime E t raw PASSWORD_RESET s = Inr k \<longrightarrow>
      (\<exists>u'. findUser (snd (resetPassword E t raw pw code meta s)) k = Some u' \<and>
         u_passwordHash u' = Some (ae_hashPassword E pw) \<and> u_passwordChangedAt u' = Some t) \<and>
      (\<forall>j r. lookup (refreshT s) j = Some r \<and> rt_userId r = k \<longrightarrow>
         sessionDead (snd (resetPassword E t raw pw code meta s)) (rt_familyId r)))"
proof -
  have i: "rbacInv s" "tokInv E (t, s)" using auth.reach_inv [OF assms] by (simp_all add: authInv_def)
  have ok: "isInr (fst (resetPassword E t raw pw code meta s)) \<longleftrightarrow>
      (\<exists>s'. resetPassword E t raw pw code meta s = (Inr (), s'))"
    by (cases "resetPassword E t raw pw code meta s"; cases "fst (resetPassword E t raw pw code meta s)") auto
  have pc: "peekOneTime E t raw PASSWORD_RESET s = Inr k \<Longrightarrow>
      \<exists>k2 s2. consumeOneTime E t raw PASSWORD_RESET (if b then saveUser j v s else s) = Inr (k2, s2)" for k b j v
    using peek_consume [of "if b then saveUser j v s else s" s E t raw PASSWORD_RESET k] by (auto simp: saveUser_def)
  have iff: "isInr (fst (resetPassword E t raw pw code meta s)) \<longleftrightarrow>
      (\<exists>k u. peekOneTime E t raw PASSWORD_RESET s = Inr k \<and> findUser s k = Some u \<and> u_status u = ACTIVE \<and>
         (\<exists>u1. secondFactor E t u code u1))"
    (is "_ \<longleftrightarrow> ?R")
  proof
    assume "isInr (fst (resetPassword E t raw pw code meta s))"
    then show ?R unfolding ok resetPassword_Inr by blast
  next
    assume ?R
    then obtain k u u1 where a: "peekOneTime E t raw PASSWORD_RESET s = Inr k" "findUser s k = Some u"
      "u_status u = ACTIVE" "secondFactor E t u code u1" by blast
    obtain k2 s2 where "consumeOneTime E t raw PASSWORD_RESET (if u_mfaEnabled u then saveUser k u1 s else s) = Inr (k2, s2)"
      using pc [OF a(1)] by blast
    then show "isInr (fst (resetPassword E t raw pw code meta s))"
      unfolding ok resetPassword_Inr using a by blast
  qed
  have eff: "(\<exists>u'. findUser s' k = Some u' \<and> u_passwordHash u' = Some (ae_hashPassword E pw) \<and>
        u_passwordChangedAt u' = Some t) \<and>
      (lookup (refreshT s) j = Some r \<and> rt_userId r = k \<longrightarrow> sessionDead s' (rt_familyId r))"
    if s': "resetPassword E t raw pw code meta s = (Inr (), s')" and k: "peekOneTime E t raw PASSWORD_RESET s = Inr k"
    for s' k j r
  proof -
    obtain u u1 s1 k2 s2 where u: "findUser s k = Some u" "secondFactor E t u code u1"
      and s1: "s1 = (if u_mfaEnabled u then saveUser k u1 s else s)"
      and s2: "consumeOneTime E t raw PASSWORD_RESET s1 = Inr (k2, s2)"
      and s'': "s' = applyNewPassword E t k u1 pw s2"
      using s' k unfolding resetPassword_Inr by auto
    have d: "u_deletedAt u1 = None"
      using u findUser_SomeD [OF u(1)] mfaVerify_fields [of E t u _ True u1]
      by (auto simp: secondFactor_def sameContext_def split: if_splits)
    have f1: "findUser s1 k \<noteq> None" using s1 u findUser_saveUser [OF u(1) d] by simp
    have sm: "sameUsers s1 s2" by (rule sameUsers_consume [OF s2])
    then have f2: "findUser s2 k \<noteq> None" using f1 findUser_sameUsers [OF sm, of k] by simp
    let ?v = "u1\<lparr>u_passwordHash := Some (ae_hashPassword E pw), u_passwordChangedAt := Some t\<rparr>"
    have "findUser s' k = findUser (saveUser k ?v s2) k"
      by (simp add: s'' applyNewPassword_def emit_def invalidateAuthUser_def revokeAllForUser_def
          denySessions_def findUser_def)
    also have "\<dots> = Some ?v" using f2 d findUser_saveUser [of s2 k _ ?v k] by auto
    finally have "findUser s' k = Some ?v" .
    moreover have "sessionDead s' (rt_familyId r)" if r: "lookup (refreshT s) j = Some r" "rt_userId r = k"
    proof -
      have rt: "refreshT s2 = refreshT s" "denyList s2 = denyList s"
        using consume_tables [OF s2] by (simp_all add: s1 saveUser_def)
      have "otInv (oneTimeT s1)" using i(2) by (simp add: s1 saveUser_def tokInv_def)
      then have "tokInv E (t, s2)"
        using tok_step_inv [OF tok_step.consume [OF s2]] i(2) by (simp add: tokInv_def s1 saveUser_def)
      then show ?thesis unfolding s'' by (rule applyNewPassword_sessions) (use r rt in simp_all)
    qed
    ultimately show ?thesis by simp
  qed
  show ?thesis using iff eff ok by fastforce
qed

text \<open>
  A refresh succeeds only for an unrevoked, unexpired token of a user who is active in the
  tables now; for a user suspended since, the refresh is refused and ends every session the
  user has.
\<close>

theorem refresh_only_for_active_users:
  assumes "authInit c0" "(auth_step E)\<^sup>*\<^sup>* c0 (t, s)"
    and f: "findRefresh s (ae_sha256 E raw) = Some (j, r)" "rt_revokedAt r = None" "t < rt_expiresAt r"
    and new: "findRefresh s (ae_sha256 E (fr_raw fr)) = None" "freshIn fr s"
    and u: "findUser s (rt_userId r) = Some u"
  shows "(isInr (fst (refresh E t fr raw meta s)) \<longleftrightarrow> u_status u = ACTIVE) \<and>
    (u_status u \<noteq> ACTIVE \<longrightarrow>
       fst (refresh E t fr raw meta s) = Inl (Unauthorized ''Account is not active'') \<and>
       (\<forall>i q. lookup (refreshT s) i = Some q \<and> rt_userId q = rt_userId r \<longrightarrow>
          sessionDead (snd (refresh E t fr raw meta s)) (rt_familyId q)))"
proof -
  have i: "rbacInv s" "tokInv E (t, s)" using auth.reach_inv [OF assms(1,2)] by (simp_all add: authInv_def)
  obtain tk s1 where rot: "rotateToken E t (fr_row fr) (fr_raw fr) raw meta s = (Inr (tk, rt_userId r), s1)"
    using f new(1) u
    by (simp add: rotateToken_def rtRevoked_def rtExpired_def issuePair_def Let_def)
  have su: "sameUsers s s1"
    using sameUsers_rotate [of s E t "fr_row fr" "fr_raw fr" raw meta] rot by simp
  have t1: "tokInv E (t, s1)"
    using rotate_inv [OF i(2), of "fr_row fr" "fr_raw fr" raw meta] new(2) rot by (simp add: freshIn_def)
  have "cacheCoherent s1" using rbacInv_frame [OF su i(1)] by (simp add: rbacInv_def)
  obtain ctx s2 where g: "getAuthUser t (rt_userId r) s1 = (ctx, s2)" by fastforce
  have "ctx = Some (mkAuthUser s1 (rt_userId r) u)"
    using getAuthUser_coherent [OF \<open>cacheCoherent s1\<close>, of t "rt_userId r"] g findUser_sameUsers [OF su] u
    by (simp add: authContext_def)
  then have e: "refresh E t fr raw meta s =
      (if u_status u = ACTIVE then (Inr tk, s2)
       else (Inl (Unauthorized ''Account is not active''), revokeAllForUser E t (rt_userId r) s2))"
    using rot g by (simp add: refresh_def mkAuthUser_def)
  have st: "sameTokens s1 s2" using sameTokens_getAuthUser [of s1 t "rt_userId r"] g by simp
  have "sessionDead (revokeAllForUser E t (rt_userId r) s2) (rt_familyId q)"
    if q: "lookup (refreshT s) k = Some q" "rt_userId q = rt_userId r" for k q
  proof -
    have "tok_step E (t, s) (t, s1)"
      using tok_step.rotate [of "fr_row fr" s E t "fr_raw fr" raw meta] new(2) rot by (simp add: freshIn_def)
    then have "rowKept s1 k q" using rowKept_step rowKept_refl [OF q(1)] by fastforce
    then obtain q1 where q1: "lookup (refreshT s2) k = Some q1" "sameIdentity q q1"
      using st by (auto simp: rowKept_def sameTokens_def)
    have "tokInv E (t, s2)" using t1 st by (simp add: tokInv_def sameTokens_def)
    from revokeAll_dead [OF this q1(1)] show ?thesis using q1(2) q(2) by (simp add: sameIdentity_def)
  qed
  then show ?thesis using e by auto
qed

section \<open>A concrete run\<close>

text \<open>The seeded administrator signs in at second 5; the crypto is the toy one of the earlier theories.\<close>

definition demoAuth0 :: auth_state where
  "demoAuth0 = \<lparr>usersT = [], rolesT = seedRoles, permsT = ALL_PERMISSIONS, ctxCache = (\<lambda>_. None),
     refreshT = [], oneTimeT = [], denyList = (\<lambda>_. None), auditT = [], authEvents = []\<rparr>"

definition demoAdmin :: user where
  "demoAdmin = (invitedUser ''a@b.c'' ''System'' ''Admin'' [0])
     \<lparr>u_status := ACTIVE, u_passwordHash := Some ''pw'', u_passwordChangedAt := Some 5000\<rparr>"

definition demoAuth1 :: auth_state where
  "demoAuth1 = demoAuth0\<lparr>usersT := [(0, demoAdmin)]\<rparr>"

definition demoFresh :: fresh where
  "demoFresh = \<lparr>fr_row = 10, fr_family = 77, fr_raw = ''x''\<rparr>"

definition demoAuth2 :: auth_state where
  "demoAuth2 = snd (login demoMfaEnv 5000 demoFresh ''a@b.c'' ''pw'' noMeta demoAuth1)"

lemma demoMfaEnv_sel [simp]:
  "ae_sha256 demoMfaEnv = (\<lambda>x. x)" "ae_verifyPassword demoMfaEnv = (\<lambda>h p. h = p)"
  "ae_hashPassword demoMfaEnv = (\<lambda>p. p)" "ae_maxAttempts demoMfaEnv = 5" "ae_lockMinutes demoMfaEnv = 15"
  "ae_accessTtlSeconds demoMfaEnv = 900" "ae_refreshTtlMs demoMfaEnv = 604800000"
  "ae_accessSecret demoMfaEnv = ''a''" "ae_accessSecretPrevious demoMfaEnv = None"
  "ae_verify demoMfaEnv = (\<lambda>now k t. if fst t = k \<and> now div 1000 < cl_exp (snd t) then Some (snd t) else None)"
  by (simp_all add: demoMfaEnv_def demoEnv_def auth_env.extend_def)

lemma demoAuth0_init: "authInit (5000, demoAuth0)"
  by (simp add: authInit_def rbacInit_def tokInit_def demoAuth0_def)

lemma demoAuth1_run: "(auth_step demoMfaEnv)\<^sup>*\<^sup>* (5000, demoAuth0) (5000, demoAuth1)"
proof -
  have "seedAdmin demoMfaEnv 5000 0 ''a@b.c'' ''pw'' demoAuth0 = Inr demoAuth1"
    by (simp add: seedAdmin_def emailTaken_def demoAuth0_def demoAuth1_def demoAdmin_def rows_def
        insertRow_def seedRoles_def SYSTEM_ROLE_DEFINITIONS_def)
  then have "auth_step demoMfaEnv (5000, demoAuth0) (5000, demoAuth1)"
    by (rule auth_step.seedAdmin [rotated]) (simp add: demoAuth0_def keys_def)
  then show ?thesis by (rule r_into_rtranclp)
qed

lemma demoAuth2_run: "(auth_step demoMfaEnv)\<^sup>*\<^sup>* (5000, demoAuth0) (5000, demoAuth2)"
proof -
  have "freshIn demoFresh demoAuth1"
    by (simp add: freshIn_def demoAuth1_def demoAuth0_def keys_def rows_def)
  then have "auth_step demoMfaEnv (5000, demoAuth1) (5000, demoAuth2)"
    unfolding demoAuth2_def by (rule auth_step.login)
  with demoAuth1_run show ?thesis by (rule rtranclp.rtrancl_into_rtrancl)
qed

lemma demoAuth1_find: "findByEmail demoAuth1 ''a@b.c'' = Some (0, demoAdmin)"
  by (simp add: findByEmail_def demoAuth1_def demoAdmin_def invitedUser_def)

lemma demoAdmin_sel [simp]: "passwordOf demoAdmin = Some ''pw''" "u_failedLoginAttempts demoAdmin = 0"
  "u_lockedUntil demoAdmin = None" "u_mfaEnabled demoAdmin = False" "u_status demoAdmin = ACTIVE"
  "u_passwordChangedAt demoAdmin = Some 5000" "u_email demoAdmin = ''a@b.c''" "u_deletedAt demoAdmin = None"
  by (simp_all add: demoAdmin_def invitedUser_def passwordOf_def)

lemma demoAuth2_eq: "refreshT demoAuth2 = [(10, newRefresh demoMfaEnv 5000 ''x'' 0 77 noMeta)] \<and>
    usersT demoAuth2 = [(0, demoAdmin\<lparr>u_lastLoginAt := Some 5000\<rparr>)] \<and> oneTimeT demoAuth2 = [] \<and>
    denyList demoAuth2 = (\<lambda>_. None) \<and> rolesT demoAuth2 = seedRoles"
proof -
  have l: "login demoMfaEnv 5000 demoFresh ''a@b.c'' ''pw'' noMeta demoAuth1 =
      completeLogin demoMfaEnv 5000 demoFresh 0 demoAdmin noMeta demoAuth1"
    by (simp add: login_def demoAuth1_find isLocked_def assertCanLogin_def)
  show ?thesis
    unfolding demoAuth2_def l
    by (simp add: completeLogin_def issueForLogin_def issuePair_def findRefresh_def demoAuth1_def demoAuth0_def
        demoFresh_def auditAuth_def saveUser_def updateRow_def insertRow_def demoAdmin_def invitedUser_def)
qed

theorem lockout_at_the_limit_witness:
  "\<exists>u'. findByEmail (logins demoMfaEnv ''a@b.c'' demoAuth1 [(6000, demoFresh, ''no'', noMeta)]) ''a@b.c'' = Some (0, u') \<and>
     u_failedLoginAttempts u' = 1"
  using lockout_at_the_limit [OF demoAuth1_find, of "''pw''" "[(6000, demoFresh, ''no'', noMeta)]" demoMfaEnv]
  by auto

definition demoPayload :: claims where
  "demoPayload = accessClaims demoMfaEnv 5000 0 ''a@b.c'' 77"

lemma demoPayload_sel [simp]: "cl_sub demoPayload = 0" "cl_sid demoPayload = Some 77" "cl_iat demoPayload = Some 5"
  by (simp_all add: demoPayload_def accessClaims_def)

lemma demoPayload_verifies: "t < 905000 \<Longrightarrow> verifyAccessToken demoMfaEnv t (''a'', demoPayload) = Some demoPayload"
  by (simp add: verifyAccessToken_def verifyWith_def demoPayload_def accessClaims_def)

definition openRoute :: route_meta where
  "openRoute = \<lparr>rm_public = None, rm_permissions = None, rm_anyPermission = None, rm_allowWithoutMfa = Some True\<rparr>"

theorem guard_admits_only_current_sessions_witness:
  "fst (jwtAuthGuard demoMfaEnv 5000 openRoute openRoute (Some (''a'', demoPayload)) demoAuth2) =
     Inr (Some (mkAuthUser demoAuth2 0 (demoAdmin\<lparr>u_lastLoginAt := Some 5000\<rparr>), Some 77))"
  unfolding guard_admits_only_current_sessions [OF demoAuth0_init demoAuth2_run]
  by (auto intro!: exI [of _ demoPayload] exI [of _ "''a''"] simp: demoPayload_verifies getAllAndOverride_def
      openRoute_def isSessionRevoked_def redisGet_def demoAuth2_eq findUser_def lookup_def)

definition demoAuth3 :: auth_state where
  "demoAuth3 = applyNewPassword demoMfaEnv 6000 0 (demoAdmin\<lparr>u_lastLoginAt := Some 5000\<rparr>) ''new'' demoAuth2"

theorem password_change_ends_every_session_witness:
  "fst (jwtAuthGuard demoMfaEnv 6000 openRoute openRoute (Some (''a'', demoPayload)) demoAuth3) =
     Inl (Unauthorized ''Session was signed out'') \<and>
   \<not> isInr (fst (refresh demoMfaEnv 6000 demoFresh ''x'' noMeta demoAuth3))"
proof (rule password_change_ends_every_session)
  show "authInit (5000, demoAuth0)" by (rule demoAuth0_init)
  have "auth_step demoMfaEnv (5000, demoAuth2) (6000, demoAuth2)" by (rule auth_step.wait) simp
  with demoAuth2_run show "(auth_step demoMfaEnv)\<^sup>*\<^sup>* (5000, demoAuth0) (6000, demoAuth2)"
    by (rule rtranclp.rtrancl_into_rtrancl)
  show "changePassword demoMfaEnv 6000 0 ''pw'' ''new'' demoAuth2 = Inr demoAuth3"
    by (simp add: changePassword_def findById_def findUser_def demoAuth2_eq lookup_def demoAuth3_def
        passwordOf_def demoAdmin_def invitedUser_def)
  show "lookup (refreshT demoAuth2) 10 = Some (newRefresh demoMfaEnv 5000 ''x'' 0 77 noMeta)"
    by (simp add: demoAuth2_eq lookup_def)
  show "(auth_step demoMfaEnv)\<^sup>*\<^sup>* (6000, demoAuth3) (6000, demoAuth3)" by simp
  show "verifyAccessToken demoMfaEnv 6000 (''a'', demoPayload) =
      Some (accessClaims demoMfaEnv (rt_createdAt (newRefresh demoMfaEnv 5000 ''x'' 0 77 noMeta)) 0 ''a@b.c''
        (rt_familyId (newRefresh demoMfaEnv 5000 ''x'' 0 77 noMeta)))"
    using demoPayload_verifies [of 6000] by (simp add: newRefresh_def demoPayload_def)
  show "findRefresh demoAuth3 (ae_sha256 demoMfaEnv ''x'') =
      Some (10, revokeRow 6000 (newRefresh demoMfaEnv 5000 ''x'' 0 77 noMeta))"
    by (simp add: findRefresh_def demoAuth3_def applyNewPassword_def emit_def invalidateAuthUser_def
        revokeAllForUser_def denySessions_def saveUser_def demoAuth2_eq updateWhere_def newRefresh_def revokeRow_def)
qed (simp_all add: newRefresh_def revokeRow_def accessClaims_def getAllAndOverride_def openRoute_def)

theorem reset_needs_link_and_factor_witness:
  "\<not> isInr (fst (resetPassword demoMfaEnv 5000 ''x'' ''new'' None noMeta demoAuth2))"
  using reset_needs_link_and_factor [OF demoAuth0_init demoAuth2_run, of "''x''" "''new''" None noMeta]
  by (simp add: peekOneTime_def findOneTime_def demoAuth2_eq)

theorem refresh_only_for_active_users_witness:
  "isInr (fst (refresh demoMfaEnv 5000 \<lparr>fr_row = 11, fr_family = 78, fr_raw = ''y''\<rparr> ''x'' noMeta demoAuth2))"
proof -
  have "isInr (fst (refresh demoMfaEnv 5000 \<lparr>fr_row = 11, fr_family = 78, fr_raw = ''y''\<rparr> ''x'' noMeta demoAuth2))
      \<longleftrightarrow> u_status (demoAdmin\<lparr>u_lastLoginAt := Some 5000\<rparr>) = ACTIVE"
    by (rule conjunct1 [OF refresh_only_for_active_users [where j = 10 and
          r = "newRefresh demoMfaEnv 5000 ''x'' 0 77 noMeta", OF demoAuth0_init demoAuth2_run]])
      (simp_all add: findRefresh_def demoAuth2_eq newRefresh_def freshIn_def keys_def rows_def findUser_def lookup_def)
  then show ?thesis by simp
qed

end
