(* ===== verification/Hierarchy.thy ===== *)
theory Hierarchy
  imports Prelude
begin

text \<open>
  Parent pointers: reporting lines and department trees. \<open>up p k n\<close> follows \<open>n\<close> pointers; a
  hierarchy is acyclic when nobody is met again. The lemmas say which edits keep it so, and
  the locale \<open>hierarchy\<close> is the contract between a tree and the check the code runs before
  it moves a node.
\<close>

type_synonym parents = "id \<Rightarrow> id option"

fun up :: "parents \<Rightarrow> id \<Rightarrow> nat \<Rightarrow> id option" where
  "up p k 0 = Some k"
| "up p k (Suc n) = (case p k of None \<Rightarrow> None | Some m \<Rightarrow> up p m n)"

definition reaches :: "parents \<Rightarrow> id \<Rightarrow> id \<Rightarrow> bool" where
  "reaches p k m \<longleftrightarrow> (\<exists>n. up p k (Suc n) = Some m)"

definition acyclicUp :: "parents \<Rightarrow> bool" where
  "acyclicUp p \<longleftrightarrow> (\<forall>k. \<not> reaches p k k)"

lemma up_add: "up p k (m + n) = (case up p k m of None \<Rightarrow> None | Some j \<Rightarrow> up p j n)"
  by (induction m arbitrary: k) (auto split: option.splits)

lemma up_Suc_end: "up p k (Suc n) = (case up p k n of None \<Rightarrow> None | Some j \<Rightarrow> p j)"
  using up_add [of p k n 1] by (auto split: option.splits)

lemma up_None_mono: "up p k n = None \<Longrightarrow> n \<le> m \<Longrightarrow> up p k m = None"
  using up_add [of p k n "m - n"] by simp

lemma reachesI: "up p k (Suc n) = Some m \<Longrightarrow> reaches p k m"
  unfolding reaches_def by blast

lemma reaches_step: "p k = Some m \<Longrightarrow> reaches p k m"
  by (rule reachesI [of _ _ 0]) simp

lemma reaches_trans: "reaches p k m \<Longrightarrow> reaches p m l \<Longrightarrow> reaches p k l"
proof -
  assume "reaches p k m" "reaches p m l"
  then obtain a b where "up p k (Suc a) = Some m" "up p m (Suc b) = Some l"
    by (auto simp: reaches_def)
  then have "up p k (Suc a + Suc b) = Some l" unfolding up_add by simp
  then show ?thesis by (intro reachesI [of _ _ "a + Suc b"]) simp
qed

lemma reaches_cases: "reaches p k l \<Longrightarrow> \<exists>m. p k = Some m \<and> (m = l \<or> reaches p m l)"
proof -
  assume "reaches p k l"
  then obtain n where n: "up p k (Suc n) = Some l" by (auto simp: reaches_def)
  then obtain m where m: "p k = Some m" "up p m n = Some l" by (auto split: option.splits)
  then show ?thesis by (cases n) (auto intro: reachesI)
qed

lemma acyclicD: "acyclicUp p \<Longrightarrow> \<not> reaches p k k"
  unfolding acyclicUp_def by blast

text \<open>Two hierarchies that agree on the way up agree on what is reached.\<close>

lemma up_cong: "(\<And>i j. i < n \<Longrightarrow> up p k i = Some j \<Longrightarrow> q j = p j) \<Longrightarrow> up q k n = up p k n"
proof (induction n arbitrary: k)
  case (Suc n)
  have pk: "q k = p k" using Suc.prems [of 0 k] by simp
  show ?case
  proof (cases "p k")
    case None
    then show ?thesis using pk by simp
  next
    case (Some m)
    have "up q m n = up p m n"
      by (rule Suc.IH) (use Suc.prems [of "Suc i" j for i j] Some in auto)
    then show ?thesis using pk Some by simp
  qed
qed simp

section \<open>Edits\<close>

lemma up_fun_upd:
  assumes "\<And>i. i < n \<Longrightarrow> up p j i \<noteq> Some k"
  shows "up (p(k := x)) j n = up p j n"
  by (rule up_cong) (use assms in auto)

text \<open>A path of the edited hierarchy either avoids the moved node or goes through it.\<close>

lemma reaches_fun_upd:
  assumes "reaches (p(k := x)) j l"
  shows "reaches p j l \<or> ((j = k \<or> reaches p j k) \<and> (\<exists>m. x = Some m \<and> (m = l \<or> reaches (p(k := x)) m l)))"
proof -
  obtain n where n: "up (p(k := x)) j (Suc n) = Some l" using assms by (auto simp: reaches_def)
  show ?thesis
  proof (cases "\<exists>i\<le>n. up p j i = Some k")
    case False
    then have "up (p(k := x)) j (Suc n) = up p j (Suc n)" by (intro up_fun_upd) auto
    then show ?thesis using n by (auto intro: reachesI)
  next
    case True
    define i where "i = (LEAST i. i \<le> n \<and> up p j i = Some k)"
    have i: "i \<le> n" "up p j i = Some k" using LeastI_ex [OF True] by (simp_all add: i_def)
    have "up p j i' \<noteq> Some k" if "i' < i" for i'
      using not_less_Least [of i' "\<lambda>i. i \<le> n \<and> up p j i = Some k"] that i(1) by (auto simp: i_def)
    then have "up (p(k := x)) j i = Some k" using up_fun_upd [of i p j k x] i(2) by simp
    then have "up (p(k := x)) k (Suc (n - i)) = Some l"
      using n up_add [of "p(k := x)" j i "Suc n - i"] i(1) by (simp add: Suc_diff_le)
    then obtain m where m: "x = Some m" "up (p(k := x)) m (n - i) = Some l"
      by (auto split: option.splits)
    have "m = l \<or> reaches (p(k := x)) m l" using m(2) by (cases "n - i") (auto intro: reachesI)
    moreover have "j = k \<or> reaches p j k" using i(2) by (cases i) (auto intro: reachesI)
    ultimately show ?thesis using m(1) by blast
  qed
qed

lemma acyclic_clear: "acyclicUp p \<Longrightarrow> acyclicUp (p(k := None))"
  unfolding acyclicUp_def using reaches_fun_upd [of p k None] by blast

lemma acyclic_move:
  assumes a: "acyclicUp p" and n: "m \<noteq> k" "\<not> reaches p m k"
  shows "acyclicUp (p(k := Some m))"
proof -
  let ?q = "p(k := Some m)"
  have qm: "reaches ?q m l \<Longrightarrow> reaches p m l" for l
    using reaches_fun_upd [of p k "Some m" m l] n by auto
  show ?thesis
    unfolding acyclicUp_def
  proof (intro allI notI)
    fix j assume "reaches ?q j j"
    from reaches_fun_upd [OF this] a have "(j = k \<or> reaches p j k) \<and> (m = j \<or> reaches ?q m j)"
      by (auto simp: acyclicUp_def)
    then show False using n qm reaches_trans [of p m j k] by blast
  qed
qed

text \<open>Taking a node out: its children go to its parent.\<close>

definition bypass :: "id \<Rightarrow> parents \<Rightarrow> parents" where
  "bypass k p = (\<lambda>j. if p j = Some k then p k else p j)"

lemma reaches_bypass: "reaches (bypass k p) j l \<Longrightarrow> reaches p j l"
proof -
  assume "reaches (bypass k p) j l"
  then obtain n where "up (bypass k p) j (Suc n) = Some l" by (auto simp: reaches_def)
  then show ?thesis
  proof (induction n arbitrary: j)
    case 0
    then show ?case
      by (cases "p j = Some k") (auto simp: bypass_def split: option.splits intro: reaches_step reaches_trans)
  next
    case (Suc n)
    then obtain m where m: "bypass k p j = Some m" "up (bypass k p) m (Suc n) = Some l"
      by (auto split: option.splits simp del: up.simps simp: up.simps(2) [of _ _ "Suc n"])
    have "reaches p j m"
      using m(1) by (auto simp: bypass_def split: if_splits intro: reaches_step reaches_trans)
    then show ?case using Suc.IH [OF m(2)] reaches_trans by blast
  qed
qed

lemma acyclic_bypass: "acyclicUp p \<Longrightarrow> acyclicUp (bypass k p)"
  unfolding acyclicUp_def using reaches_bypass by blast

section \<open>Depth\<close>

text \<open>In an acyclic hierarchy over finitely many nodes every line ends.\<close>

lemma up_distinct:
  assumes a: "acyclicUp p" and i: "i < j" "up p k j = Some b"
  shows "up p k i \<noteq> Some b"
proof
  assume e: "up p k i = Some b"
  have "up p b (j - i) = Some b" using up_add [of p k i "j - i"] e i by simp
  moreover have "j - i = Suc (j - i - 1)" using i(1) by simp
  ultimately have "up p b (Suc (j - i - 1)) = Some b" by metis
  then have "reaches p b b" by (rule reachesI)
  then show False using a by (simp add: acyclicUp_def)
qed

lemma acyclic_terminates:
  assumes a: "acyclicUp p" and D: "finite D" "\<And>k m. p k = Some m \<Longrightarrow> k \<in> D"
  shows "up p k (Suc (card D)) = None"
proof (rule ccontr)
  assume "up p k (Suc (card D)) \<noteq> None"
  then obtain l where l: "up p k (Suc (card D)) = Some l" by blast
  have some: "\<exists>j. up p k i = Some j \<and> j \<in> D" if i: "i \<le> card D" for i
  proof -
    obtain j where j: "up p k i = Some j" using up_None_mono [of p k i "Suc (card D)"] l i
      by (cases "up p k i") auto
    have "up p k (Suc i) \<noteq> None" using up_None_mono [of p k "Suc i" "Suc (card D)"] l i by auto
    then show ?thesis using j D(2) [of j] unfolding up_Suc_end by (auto split: option.splits)
  qed
  define f where "f i = the (up p k i)" for i
  have "inj_on f {..card D}"
  proof (rule linorder_inj_onI)
    fix i j assume "i < j" "j \<in> {..card D}" "i \<in> {..card D}"
    then show "f i \<noteq> f j" using some [of i] some [of j] up_distinct [OF a, of i j k] by (auto simp: f_def)
  qed (simp add: linear)
  moreover have "f ` {..card D} \<subseteq> D" using some by (fastforce simp: f_def)
  ultimately have "card {..card D} \<le> card D" using D(1) card_inj_on_le by blast
  then show False by simp
qed

section \<open>Queries by levels\<close>

text \<open>
  The recursive queries collect nodes level by level; \<open>below\<close> is the query's recursive term.
  The contract: the next level holds exactly the nodes whose parent is in the level, each once.
\<close>

fun levels :: "(id list \<Rightarrow> id list) \<Rightarrow> nat \<Rightarrow> id list \<Rightarrow> id list" where
  "levels below 0 level = level"
| "levels below (Suc n) level = level @ levels below n (below level)"

locale level_query =
  fixes wf :: "'s \<Rightarrow> bool" and parent :: "'s \<Rightarrow> parents" and below :: "'s \<Rightarrow> id list \<Rightarrow> id list"
  assumes below_iff: "wf s \<Longrightarrow> c \<in> set (below s level) \<longleftrightarrow> (\<exists>t\<in>set level. parent s c = Some t)"
    and below_distinct: "wf s \<Longrightarrow> distinct level \<Longrightarrow> distinct (below s level)"
begin

lemma set_levels:
  assumes w: "wf s"
  shows "c \<in> set (levels (below s) n level) \<longleftrightarrow> (\<exists>i\<le>n. \<exists>t\<in>set level. up (parent s) c i = Some t)"
proof (induction n arbitrary: level)
  case (Suc n)
  have "(\<exists>i\<le>n. \<exists>t\<in>set (below s level). up (parent s) c i = Some t) \<longleftrightarrow>
      (\<exists>i\<le>n. \<exists>t\<in>set level. up (parent s) c (Suc i) = Some t)"
    unfolding Bex_def below_iff [OF w] up_Suc_end by (fastforce split: option.splits)
  moreover have "(\<exists>i\<le>Suc n. P i) \<longleftrightarrow> P 0 \<or> (\<exists>i\<le>n. P (Suc i))" for P
    by (metis Suc_le_mono le0 not0_implies_Suc)
  ultimately show ?case using Suc.IH [of "below s level"] by auto
qed auto

lemma distinct_levels:
  assumes w: "wf s" and a: "acyclicUp (parent s)"
  shows "distinct level \<Longrightarrow> (\<And>x y. x \<in> set level \<Longrightarrow> y \<in> set level \<Longrightarrow> \<not> reaches (parent s) x y) \<Longrightarrow>
    distinct (levels (below s) n level)"
proof (induction n arbitrary: level)
  case (Suc n)
  have dk: "distinct (below s level)" by (rule below_distinct [OF w Suc.prems(1)])
  have "\<not> reaches (parent s) x y" if xy: "x \<in> set (below s level)" "y \<in> set (below s level)" for x y
  proof
    assume r: "reaches (parent s) x y"
    obtain t where t: "t \<in> set level" "parent s x = Some t" using xy(1) below_iff [OF w] by blast
    obtain u where u: "u \<in> set level" "parent s y = Some u" using xy(2) below_iff [OF w] by blast
    have "t = y \<or> reaches (parent s) t y" using reaches_cases [OF r] t(2) by auto
    then have "reaches (parent s) t u" using u(2) reaches_step reaches_trans by metis
    then show False using Suc.prems(2) t(1) u(1) by blast
  qed
  then have "distinct (levels (below s) n (below s level))" by (rule Suc.IH [OF dk])
  moreover have "x \<notin> set level" if x: "x \<in> set (levels (below s) n (below s level))" for x
  proof
    assume l: "x \<in> set level"
    obtain i t where i: "t \<in> set (below s level)" "up (parent s) x i = Some t" using x set_levels [OF w] by blast
    obtain u where u: "u \<in> set level" "parent s t = Some u" using i(1) below_iff [OF w] by blast
    have "up (parent s) x (Suc i) = Some u" using i(2) u(2) unfolding up_Suc_end by simp
    then show False using reachesI Suc.prems(2) [OF l u(1)] by blast
  qed
  ultimately show ?case using Suc.prems(1) by auto
qed simp

end

text \<open>The rows of a table whose parent is in a level: what the joins of the queries select.\<close>

definition rowParent :: "('r \<Rightarrow> id option) \<Rightarrow> 'r table \<Rightarrow> parents" where
  "rowParent f T k = (case lookup T k of None \<Rightarrow> None | Some r \<Rightarrow> f r)"

definition nextLevel :: "('r \<Rightarrow> id option) \<Rightarrow> 'r table \<Rightarrow> id list \<Rightarrow> id list" where
  "nextLevel f T level = List.concat (List.map (\<lambda>t. List.map fst (List.filter (\<lambda>(k, r). f r = Some t) T)) level)"

lemma row_lookup: "keyed T \<Longrightarrow> (k, e) \<in> set T \<longleftrightarrow> lookup T k = Some e"
  using keyed_lookup [of T k e] by (auto simp: lookup_def dest: map_of_SomeD)

lemma nextLevel_iff:
  assumes k: "keyed T"
  shows "c \<in> set (nextLevel f T level) \<longleftrightarrow> (\<exists>t\<in>set level. rowParent f T c = Some t)"
proof -
  have "(\<exists>r. (c, r) \<in> set T \<and> f r = Some t) \<longleftrightarrow> rowParent f T c = Some t" for t
    unfolding row_lookup [OF k] by (auto simp: rowParent_def split: option.splits)
  moreover have "c \<in> set (nextLevel f T level) \<longleftrightarrow> (\<exists>t\<in>set level. \<exists>r. (c, r) \<in> set T \<and> f r = Some t)"
    by (force simp: nextLevel_def)
  ultimately show ?thesis by simp
qed

lemma distinct_nextLevel:
  assumes k: "keyed T" and d: "distinct level"
  shows "distinct (nextLevel f T level)"
  using d
proof (induction level)
  case (Cons t level)
  let ?new = "List.map fst (List.filter (\<lambda>(k, r). f r = Some t) T)"
  have "distinct ?new" using k by (simp add: keyed_def keys_def distinct_map_filter)
  moreover have "x \<notin> set (nextLevel f T level)" if "x \<in> set ?new" for x
  proof
    assume x: "x \<in> set (nextLevel f T level)"
    have "x \<in> set (nextLevel f T [t])" using that by (simp add: nextLevel_def)
    then have "rowParent f T x = Some t" using nextLevel_iff [OF k, of x f "[t]"] by simp
    moreover obtain t' where "t' \<in> set level" "rowParent f T x = Some t'" using x nextLevel_iff [OF k] by blast
    ultimately show False using Cons.prems by simp
  qed
  moreover have "nextLevel f T (t # level) = ?new @ nextLevel f T level" by (simp add: nextLevel_def)
  ultimately show ?case using Cons by auto
qed (simp add: nextLevel_def)

interpretation tree: level_query keyed "rowParent f" "nextLevel f" for f
  by unfold_locales (simp_all add: nextLevel_iff distinct_nextLevel)

section \<open>The contract of a guarded move\<close>

locale hierarchy =
  fixes parent :: "'s \<Rightarrow> parents"
    and known :: "'s \<Rightarrow> id \<Rightarrow> bool"
    and move :: "id \<Rightarrow> id option \<Rightarrow> 's \<Rightarrow> 's"
    and allowed :: "'s \<Rightarrow> id \<Rightarrow> id \<Rightarrow> bool"
  assumes parent_move: "known s k \<Longrightarrow> parent (move k x s) = (parent s)(k := x)"
    and allowed_sound: "allowed s k m \<Longrightarrow> acyclicUp (parent s) \<Longrightarrow> m \<noteq> k \<and> \<not> reaches (parent s) m k"
begin

lemma move_acyclic:
  assumes "acyclicUp (parent s)" "known s k" "\<And>m. x = Some m \<Longrightarrow> allowed s k m"
  shows "acyclicUp (parent (move k x s))"
proof (cases x)
  case None
  then show ?thesis using assms(1,2) by (simp add: parent_move acyclic_clear)
next
  case (Some m)
  then show ?thesis using acyclic_move [OF assms(1)] allowed_sound [OF assms(3) assms(1)] assms(2)
    by (simp add: parent_move)
qed

lemma move_keeps_line:
  assumes "\<not> reaches (parent s) j k" "j \<noteq> k" "known s k"
  shows "reaches (parent (move k x s)) j l \<longleftrightarrow> reaches (parent s) j l"
proof -
  have "up (parent s) j i \<noteq> Some k" for i
    using assms(1,2) by (cases i) (auto intro: reachesI)
  then have "up (parent (move k x s)) j n = up (parent s) j n" for n
    unfolding parent_move [OF assms(3)] by (rule up_fun_upd)
  then show ?thesis by (simp add: reaches_def del: up.simps)
qed

end

end
