(* ===== verification/Employees.thy ===== *)
theory Employees
  imports AuthFlow Hierarchy
begin

text \<open>
  The HR records (\<open>src/modules/employees\<close>): employees, departments, positions and the
  employment history, with the operations of \<open>EmployeesService\<close>, \<open>DepartmentsService\<close> and
  \<open>PositionsService\<close>. Dates are day numbers. A body field that may be absent is an option; one
  that may also be null is an option of an option. Operations that can fail after they have
  written return the result and the state side by side. The recursive queries are recursions
  over their levels, with the depth limit of the code as fuel.
\<close>

section \<open>Rows\<close>

datatype employee_status = ONBOARDING | ACTIVE | ON_LEAVE | TERMINATED

datatype employment_type = FULL_TIME | PART_TIME | CONTRACT | INTERN

record postal_address =
  pa_line1 :: string
  pa_line2 :: "string option"
  pa_city :: string
  pa_state :: "string option"
  pa_postalCode :: "string option"
  pa_country :: string

record emergency_contact =
  ec_name :: string
  ec_relationship :: string
  ec_phone :: string

record employee =
  e_userId :: "id option"
  e_employeeNumber :: string
  e_firstName :: string
  e_lastName :: string
  e_workEmail :: string
  e_personalEmail :: "string option"
  e_phone :: "string option"
  e_dateOfBirth :: "string option"
  e_address :: "postal_address option"
  e_emergencyContact :: "emergency_contact option"
  e_photoUrl :: "string option"
  e_hireDate :: date
  e_terminationDate :: "date option"
  e_status :: employee_status
  e_employmentType :: employment_type
  e_departmentId :: id
  e_positionId :: "id option"
  e_managerId :: "id option"
  e_deletedAt :: "int option"

datatype change_type = HIRE | PROMOTION | TRANSFER | MANAGER_CHANGE | STATUS_CHANGE | TERMINATION

record employment_history =
  h_employeeId :: id
  h_changeType :: change_type
  h_effectiveDate :: date
  h_fromDepartmentId :: "id option"
  h_toDepartmentId :: "id option"
  h_fromPositionId :: "id option"
  h_toPositionId :: "id option"
  h_fromManagerId :: "id option"
  h_toManagerId :: "id option"
  h_fromStatus :: "employee_status option"
  h_toStatus :: "employee_status option"
  h_notes :: "string option"
  h_changedByUserId :: "id option"
  h_createdAt :: int

record department =
  d_name :: string
  d_code :: string
  d_description :: "string option"
  d_parentId :: "id option"
  d_headEmployeeId :: "id option"

record position =
  p_title :: string
  p_level :: "string option"
  p_departmentId :: "id option"
  p_isActive :: bool

datatype org_event =
    EmployeeCreated id "id option" date id "id option" id
  | EmployeeAssignmentChanged id change_type date id id
  | EmployeeStatusChanged id employee_status employee_status date "id option"
  | EmployeeTerminated id "id option" date id

record org_state = auth_state +
  employeesT :: "employee table"
  historyT :: "employment_history table"
  departmentsT :: "department table"
  positionsT :: "position table"
  numberSeq :: nat
  orgEvents :: "org_event list"

definition emitOrg :: "org_event \<Rightarrow> 'a org_state_scheme \<Rightarrow> 'a org_state_scheme" where
  "emitOrg e s = s\<lparr>orgEvents := orgEvents s @ [e]\<rparr>"

text \<open>\<open>NOT_TERMINATED\<close>.\<close>

definition employed :: "employee \<Rightarrow> bool" where
  "employed e \<longleftrightarrow> e_status e \<noteq> TERMINATED \<and> e_deletedAt e = None"

text \<open>A patch of one field: absent fields keep the old value.\<close>

definition patched :: "'v \<Rightarrow> 'v option \<Rightarrow> 'v" where
  "patched old new = (case new of None \<Rightarrow> old | Some v \<Rightarrow> v)"

section \<open>Employees: reads\<close>

definition findEmployee :: "'a org_state_scheme \<Rightarrow> id \<Rightarrow> employee option" where
  "findEmployee s k = (case lookup (employeesT s) k of None \<Rightarrow> None
     | Some e \<Rightarrow> if e_deletedAt e = None then Some e else None)"

definition employeeById :: "'a org_state_scheme \<Rightarrow> id \<Rightarrow> employee res" where
  "employeeById s k = orThrow (findEmployee s k) (NotFound ''Employee not found'') Inr"

definition findByUserId :: "'a org_state_scheme \<Rightarrow> id \<Rightarrow> (id \<times> employee) option" where
  "findByUserId s u = List.find (\<lambda>(k, e). e_userId e = Some u \<and> e_deletedAt e = None) (employeesT s)"

record employee_query = page_query +
  eq_departmentId :: "id option"
  eq_managerId :: "id option"
  eq_status :: "employee_status option"
  eq_includeTerminated :: bool
  eq_search :: "string option"

definition isPrefixOf :: "string \<Rightarrow> string \<Rightarrow> bool" where
  "isPrefixOf p s \<longleftrightarrow> take (length p) s = p"

text \<open>\<open>ILIKE\<close> with a percent sign on both sides, for a pattern without wildcards of its own.\<close>

definition ilikeInfix :: "string \<Rightarrow> string \<Rightarrow> bool" where
  "ilikeInfix q s \<longleftrightarrow> list_ex (\<lambda>i. isPrefixOf (citext q) (drop i (citext s))) [0..<Suc (length s)]"

definition employeeMatches :: "employee_query \<Rightarrow> employee \<Rightarrow> bool" where
  "employeeMatches q e \<longleftrightarrow> e_deletedAt e = None \<and>
     (case eq_departmentId q of None \<Rightarrow> True | Some d \<Rightarrow> e_departmentId e = d) \<and>
     (case eq_managerId q of None \<Rightarrow> True | Some m \<Rightarrow> e_managerId e = Some m) \<and>
     (case eq_status q of Some st \<Rightarrow> e_status e = st
      | None \<Rightarrow> eq_includeTerminated q \<or> e_status e \<noteq> TERMINATED) \<and>
     (case eq_search q of None \<Rightarrow> True
      | Some w \<Rightarrow> w = [] \<or> ilikeInfix w (e_firstName e) \<or> ilikeInfix w (e_lastName e) \<or>
          ilikeInfix w (e_firstName e @ '' '' @ e_lastName e) \<or> ilikeInfix w (e_workEmail e) \<or>
          ilikeInfix w (e_employeeNumber e))"

text \<open>Order by last name, then first name: two stable sorts.\<close>

definition byName :: "(id \<times> employee) list \<Rightarrow> (id \<times> employee) list" where
  "byName es = sort_key (\<lambda>(k, e). e_lastName e) (sort_key (\<lambda>(k, e). e_firstName e) es)"

definition listEmployees :: "employee_query \<Rightarrow> 'a org_state_scheme \<Rightarrow> (id \<times> employee) list \<times> page_meta" where
  "listEmployees q s = pageOf q (byName (List.filter (\<lambda>(k, e). employeeMatches q e) (employeesT s)))"

definition directReports :: "'a org_state_scheme \<Rightarrow> id \<Rightarrow> (id \<times> employee) list" where
  "directReports s m = byName (List.filter (\<lambda>(k, e). e_managerId e = Some m \<and> employed e) (employeesT s))"

definition historyFor :: "'a org_state_scheme \<Rightarrow> id \<Rightarrow> employment_history list" where
  "historyFor s k = sort_key (\<lambda>h. - h_effectiveDate h) (sort_key (\<lambda>h. - h_createdAt h)
     (List.filter (\<lambda>h. h_employeeId h = k) (rows (historyT s))))"

text \<open>
  The \<open>chain\<close> query: the managers of the target, level by level, at most 50 of them. The
  joins see every row, soft-deleted or not.
\<close>

definition managerOf :: "'a org_state_scheme \<Rightarrow> id \<Rightarrow> id option" where
  "managerOf s k = (case lookup (employeesT s) k of None \<Rightarrow> None | Some e \<Rightarrow> e_managerId e)"

fun chainUp :: "(id \<Rightarrow> id option) \<Rightarrow> id \<Rightarrow> nat \<Rightarrow> id list" where
  "chainUp p k 0 = []"
| "chainUp p k (Suc n) = (case p k of None \<Rightarrow> [] | Some m \<Rightarrow> m # chainUp p m n)"

definition isInReportingChain :: "'a org_state_scheme \<Rightarrow> id \<Rightarrow> id \<Rightarrow> bool" where
  "isInReportingChain s managerId targetId \<longleftrightarrow>
     managerId \<noteq> targetId \<and> managerId \<in> set (chainUp (managerOf s) targetId 50)"

section \<open>The org chart\<close>

record org_node =
  on_employeeNumber :: string
  on_fullName :: string
  on_photoUrl :: "string option"
  on_position :: "string option"
  on_department :: string
  on_children :: "id list"

definition fullName :: "employee \<Rightarrow> string" where
  "fullName e = trim (e_firstName e @ '' '' @ e_lastName e)"

text \<open>The levels of the \<open>tree\<close> query below a list of rows; 50 levels below the roots.\<close>

fun treeRows :: "employee table \<Rightarrow> nat \<Rightarrow> id list \<Rightarrow> id list" where
  "treeRows T 0 level = level"
| "treeRows T (Suc n) level =
     level @ treeRows T n
       (List.concat (List.map (\<lambda>t. List.map fst (List.filter (\<lambda>(k, e). employed e \<and> e_managerId e = Some t) T)) level))"

definition orgRoots :: "id option \<Rightarrow> employee table \<Rightarrow> id list" where
  "orgRoots rootId T = List.map fst (List.filter (\<lambda>(k, e). employed e \<and>
     (case rootId of Some r \<Rightarrow> k = r | None \<Rightarrow> e_managerId e = None)) T)"

definition orgRows :: "id option \<Rightarrow> 'a org_state_scheme \<Rightarrow> (id \<times> employee) list" where
  "orgRows rootId s = byName (List.concat (List.map (\<lambda>k.
     case lookup (employeesT s) k of None \<Rightarrow> []
     | Some e \<Rightarrow> if lookup (departmentsT s) (e_departmentId e) = None then [] else [(k, e)])
     (treeRows (employeesT s) 50 (orgRoots rootId (employeesT s)))))"

text \<open>The row a node hangs under; roots and rows of unknown managers hang under nothing.\<close>

definition orgParent :: "id option \<Rightarrow> (id \<times> employee) list \<Rightarrow> id \<times> employee \<Rightarrow> id option" where
  "orgParent rootId rs r = (case e_managerId (snd r) of None \<Rightarrow> None
     | Some m \<Rightarrow> if m \<in> fst ` set rs \<and> Some (fst r) \<noteq> rootId then Some m else None)"

definition orgNode :: "id option \<Rightarrow> 'a org_state_scheme \<Rightarrow> (id \<times> employee) list \<Rightarrow> id \<times> employee \<Rightarrow> org_node" where
  "orgNode rootId s rs r =
     \<lparr>on_employeeNumber = e_employeeNumber (snd r), on_fullName = fullName (snd r),
      on_photoUrl = e_photoUrl (snd r),
      on_position = (case e_positionId (snd r) of None \<Rightarrow> None
        | Some p \<Rightarrow> map_option p_title (lookup (positionsT s) p)),
      on_department = (case lookup (departmentsT s) (e_departmentId (snd r)) of None \<Rightarrow> [] | Some d \<Rightarrow> d_name d),
      on_children = List.map fst (List.filter (\<lambda>q. orgParent rootId rs q = Some (fst r)) rs)\<rparr>"

text \<open>
  The result as the code builds it: node objects in a map, linked by their \<open>children\<close> arrays,
  and the array of roots.
\<close>

definition orgChart :: "id option \<Rightarrow> 'a org_state_scheme \<Rightarrow> (id list \<times> (id \<times> org_node) list) res" where
  "orgChart rootId s =
     bindE (case rootId of None \<Rightarrow> Inr () | Some r \<Rightarrow> bindE (employeeById s r) (\<lambda>_. Inr ())) (\<lambda>_.
     let rs = orgRows rootId s
     in Inr (List.map fst (List.filter (\<lambda>q. orgParent rootId rs q = None) rs),
             List.map (\<lambda>r. (fst r, orgNode rootId s rs r)) rs))"

section \<open>Employees: checks\<close>

definition workEmailTaken :: "'a org_state_scheme \<Rightarrow> string \<Rightarrow> bool" where
  "workEmailTaken s email = list_ex (\<lambda>e. citext (e_workEmail e) = citext email) (rows (employeesT s))"

definition assertWorkEmailFree :: "'a org_state_scheme \<Rightarrow> string \<Rightarrow> unit res" where
  "assertWorkEmailFree s email =
     throwIf (workEmailTaken s email) (Conflict ''An employee with this work email already exists'') (Inr ())"

definition assertDepartmentExists :: "'a org_state_scheme \<Rightarrow> id \<Rightarrow> unit res" where
  "assertDepartmentExists s d =
     throwIf (lookup (departmentsT s) d = None) (NotFound ''Department not found'') (Inr ())"

definition assertPositionAssignable :: "'a org_state_scheme \<Rightarrow> id \<Rightarrow> id \<Rightarrow> unit res" where
  "assertPositionAssignable s p d =
     orThrow (lookup (positionsT s) p) (NotFound ''Position not found'') (\<lambda>pos.
     throwIf (\<not> p_isActive pos) (BadRequest ''Position is inactive'')
     (throwIf (p_departmentId pos \<noteq> None \<and> p_departmentId pos \<noteq> Some d)
        (BadRequest ''Position belongs to a different department'') (Inr ())))"

definition isEmployed :: "'a org_state_scheme \<Rightarrow> id \<Rightarrow> bool" where
  "isEmployed s k = (case lookup (employeesT s) k of None \<Rightarrow> False | Some e \<Rightarrow> employed e)"

definition assertManagerAssignable :: "'a org_state_scheme \<Rightarrow> id \<Rightarrow> id option \<Rightarrow> unit res" where
  "assertManagerAssignable s m employeeId =
     throwIf (Some m = employeeId) (BadRequest ''An employee cannot manage themselves'')
     (throwIf (\<not> isEmployed s m) (BadRequest ''Manager not found or no longer employed'')
     (throwIf (case employeeId of None \<Rightarrow> False | Some k \<Rightarrow> isInReportingChain s k m)
        (BadRequest ''That would create a reporting cycle: the manager reports to this employee'') (Inr ())))"

definition userLinked :: "'a org_state_scheme \<Rightarrow> id \<Rightarrow> bool" where
  "userLinked s u = list_ex (\<lambda>e. e_userId e = Some u) (rows (employeesT s))"

definition assertUserLinkable :: "'a org_state_scheme \<Rightarrow> id \<Rightarrow> unit res" where
  "assertUserLinkable s u =
     bindE (findById s u) (\<lambda>_.
     throwIf (userLinked s u) (Conflict ''That login is already linked to another employee'') (Inr ()))"

definition assertNotTerminated :: "employee \<Rightarrow> unit res" where
  "assertNotTerminated e = throwIf (e_status e = TERMINATED) (BadRequest ''Employee is terminated'') (Inr ())"

text \<open>A check of an optional reference.\<close>

definition whenSome :: "'v option \<Rightarrow> ('v \<Rightarrow> unit res) \<Rightarrow> unit res" where
  "whenSome x f = (case x of None \<Rightarrow> Inr () | Some v \<Rightarrow> f v)"

definition nextEmployeeNumber :: "'a org_state_scheme \<Rightarrow> string" where
  "nextEmployeeNumber s = ''EMP-'' @ padStart 4 (CHR ''0'') (decString (numberSeq s))"

definition saveEmployee :: "id \<Rightarrow> (employee \<Rightarrow> employee) \<Rightarrow> 'a org_state_scheme \<Rightarrow> 'a org_state_scheme" where
  "saveEmployee k f s = s\<lparr>employeesT := updateRow k f (employeesT s)\<rparr>"

definition addHistory :: "id \<Rightarrow> employment_history \<Rightarrow> 'a org_state_scheme \<Rightarrow> 'a org_state_scheme" where
  "addHistory hid h s = s\<lparr>historyT := insertRow hid h (historyT s)\<rparr>"

text \<open>A history row in which nothing changes.\<close>

definition blankHistory :: "id \<Rightarrow> change_type \<Rightarrow> date \<Rightarrow> string option \<Rightarrow> id option \<Rightarrow> int \<Rightarrow> employment_history" where
  "blankHistory k ty effective notes actor now =
     \<lparr>h_employeeId = k, h_changeType = ty, h_effectiveDate = effective,
      h_fromDepartmentId = None, h_toDepartmentId = None, h_fromPositionId = None, h_toPositionId = None,
      h_fromManagerId = None, h_toManagerId = None, h_fromStatus = None, h_toStatus = None,
      h_notes = notes, h_changedByUserId = actor, h_createdAt = now\<rparr>"

section \<open>Hire\<close>

record create_employee_dto =
  ce_firstName :: string
  ce_lastName :: string
  ce_workEmail :: string
  ce_personalEmail :: "string option"
  ce_phone :: "string option"
  ce_dateOfBirth :: "string option"
  ce_address :: "postal_address option"
  ce_emergencyContact :: "emergency_contact option"
  ce_hireDate :: date
  ce_employmentType :: "employment_type option"
  ce_status :: "employee_status option"
  ce_departmentId :: id
  ce_positionId :: "id option"
  ce_managerId :: "id option"
  ce_userId :: "id option"
  ce_inviteLogin :: "string list option"

definition checkHire :: "create_employee_dto \<Rightarrow> 'a org_state_scheme \<Rightarrow> unit res" where
  "checkHire dto s =
     bindE (assertWorkEmailFree s (ce_workEmail dto)) (\<lambda>_.
     bindE (assertDepartmentExists s (ce_departmentId dto)) (\<lambda>_.
     bindE (whenSome (ce_positionId dto) (\<lambda>p. assertPositionAssignable s p (ce_departmentId dto))) (\<lambda>_.
     bindE (whenSome (ce_managerId dto) (\<lambda>m. assertManagerAssignable s m None)) (\<lambda>_.
     throwIf (ce_userId dto \<noteq> None \<and> ce_inviteLogin dto \<noteq> None)
       (BadRequest ''Provide either userId or inviteLogin, not both'')
     (bindE (whenSome (ce_userId dto) (assertUserLinkable s)) (\<lambda>_.
      whenSome (ce_inviteLogin dto) (\<lambda>rolesI.
        throwIf (findByEmail s (ce_workEmail dto) \<noteq> None)
          (Conflict ''A login with this work email already exists; pass userId instead'')
        (bindE (findRolesByNames s rolesI) (\<lambda>_. Inr ())))))))))"

definition newEmployee :: "create_employee_dto \<Rightarrow> string \<Rightarrow> employee" where
  "newEmployee dto number =
     \<lparr>e_userId = ce_userId dto, e_employeeNumber = number, e_firstName = ce_firstName dto,
      e_lastName = ce_lastName dto, e_workEmail = ce_workEmail dto,
      e_personalEmail = ce_personalEmail dto, e_phone = ce_phone dto,
      e_dateOfBirth = ce_dateOfBirth dto, e_address = ce_address dto,
      e_emergencyContact = ce_emergencyContact dto, e_photoUrl = None,
      e_hireDate = ce_hireDate dto, e_terminationDate = None,
      e_status = patched ONBOARDING (ce_status dto),
      e_employmentType = patched FULL_TIME (ce_employmentType dto),
      e_departmentId = ce_departmentId dto, e_positionId = ce_positionId dto,
      e_managerId = ce_managerId dto, e_deletedAt = None\<rparr>"

definition hireHistory :: "id \<Rightarrow> employee \<Rightarrow> id \<Rightarrow> int \<Rightarrow> employment_history" where
  "hireHistory k e actor now =
     (blankHistory k HIRE (e_hireDate e) None (Some actor) now)
       \<lparr>h_toDepartmentId := Some (e_departmentId e), h_toPositionId := e_positionId e,
        h_toManagerId := e_managerId e, h_toStatus := Some (e_status e)\<rparr>"

text \<open>The employee, the HIRE row and the sequence number are one transaction; the invite follows it.\<close>

definition createEmployee ::
  "('t, 'b) mfa_env_scheme \<Rightarrow> int \<Rightarrow> fresh \<Rightarrow> id \<Rightarrow> id \<Rightarrow> id \<Rightarrow> create_employee_dto \<Rightarrow> id
     \<Rightarrow> 'a org_state_scheme \<Rightarrow> id res \<times> 'a org_state_scheme" where
  "createEmployee E now fr k hid newUser dto actor s =
     (case checkHire dto s of
        Inl e \<Rightarrow> (Inl e, s)
      | Inr _ \<Rightarrow>
          (let e = newEmployee dto (nextEmployeeNumber s);
               s1 = addHistory hid (hireHistory k e actor now)
                      (s\<lparr>employeesT := insertRow k e (employeesT s), numberSeq := Suc (numberSeq s)\<rparr>);
               (r, s2) = (case ce_inviteLogin dto of
                  None \<Rightarrow> (Inr (ce_userId dto), s1)
                | Some rolesI \<Rightarrow>
                    (case invite E now fr newUser (ce_workEmail dto) (ce_firstName dto) (ce_lastName dto) rolesI s1 of
                       (Inl err, s2) \<Rightarrow> (Inl err, s2)
                     | (Inr u, s2) \<Rightarrow> (Inr (Some u), saveEmployee k (\<lambda>e. e\<lparr>e_userId := Some u\<rparr>) s2)))
           in case r of
                Inl err \<Rightarrow> (Inl err, s2)
              | Inr u \<Rightarrow> (Inr k, emitOrg (EmployeeCreated k u (e_hireDate e) (e_departmentId e) (e_managerId e) actor) s2)))"

section \<open>Profile\<close>

record update_self_dto =
  us_personalEmail :: "string option option"
  us_phone :: "string option option"
  us_address :: "postal_address option option"
  us_emergencyContact :: "emergency_contact option option"

record update_employee_dto = update_self_dto +
  ue_firstName :: "string option"
  ue_lastName :: "string option"
  ue_workEmail :: "string option"
  ue_dateOfBirth :: "string option option"
  ue_employmentType :: "employment_type option"
  ue_photoUrl :: "string option option"

definition applySelf :: "'b update_self_dto_scheme \<Rightarrow> employee \<Rightarrow> employee" where
  "applySelf dto e =
     e\<lparr>e_personalEmail := patched (e_personalEmail e) (us_personalEmail dto),
       e_phone := patched (e_phone e) (us_phone dto),
       e_address := patched (e_address e) (us_address dto),
       e_emergencyContact := patched (e_emergencyContact e) (us_emergencyContact dto)\<rparr>"

definition applyProfile :: "update_employee_dto \<Rightarrow> employee \<Rightarrow> employee" where
  "applyProfile dto e =
     (applySelf dto e)
       \<lparr>e_firstName := patched (e_firstName e) (ue_firstName dto),
        e_lastName := patched (e_lastName e) (ue_lastName dto),
        e_workEmail := patched (e_workEmail e) (ue_workEmail dto),
        e_dateOfBirth := patched (e_dateOfBirth e) (ue_dateOfBirth dto),
        e_employmentType := patched (e_employmentType e) (ue_employmentType dto),
        e_photoUrl := patched (e_photoUrl e) (ue_photoUrl dto)\<rparr>"

definition updateEmployee :: "id \<Rightarrow> update_employee_dto \<Rightarrow> 'a org_state_scheme \<Rightarrow> 'a org_state_scheme res" where
  "updateEmployee k dto s =
     bindE (employeeById s k) (\<lambda>e.
     bindE (case ue_workEmail dto of None \<Rightarrow> Inr ()
            | Some w \<Rightarrow> if w \<noteq> e_workEmail e then assertWorkEmailFree s w else Inr ()) (\<lambda>_.
     Inr (saveEmployee k (\<lambda>_. applyProfile dto e) s)))"

definition updateSelf :: "id \<Rightarrow> update_self_dto \<Rightarrow> 'a org_state_scheme \<Rightarrow> 'a org_state_scheme res" where
  "updateSelf userId dto s =
     orThrow (findByUserId s userId) (NotFound ''No employee profile is linked to your login'') (\<lambda>(k, e).
     Inr (saveEmployee k (\<lambda>_. applySelf dto e) s))"

section \<open>Org placement\<close>

record assignment_dto =
  as_changeType :: change_type
  as_effectiveDate :: date
  as_departmentId :: "id option"
  as_positionId :: "id option option"
  as_managerId :: "id option option"
  as_notes :: "string option"

definition assignmentHistory ::
  "id \<Rightarrow> employee \<Rightarrow> id \<Rightarrow> id option \<Rightarrow> id option \<Rightarrow> assignment_dto \<Rightarrow> id \<Rightarrow> int \<Rightarrow> employment_history" where
  "assignmentHistory k e nextDept nextPos nextMgr dto actor now =
     (blankHistory k (as_changeType dto) (as_effectiveDate dto) (as_notes dto) (Some actor) now)
       \<lparr>h_fromDepartmentId := (if nextDept \<noteq> e_departmentId e then Some (e_departmentId e) else None),
        h_toDepartmentId := (if nextDept \<noteq> e_departmentId e then Some nextDept else None),
        h_fromPositionId := (if nextPos \<noteq> e_positionId e then e_positionId e else None),
        h_toPositionId := (if nextPos \<noteq> e_positionId e then nextPos else None),
        h_fromManagerId := (if nextMgr \<noteq> e_managerId e then e_managerId e else None),
        h_toManagerId := (if nextMgr \<noteq> e_managerId e then nextMgr else None)\<rparr>"

definition changeAssignment ::
  "int \<Rightarrow> id \<Rightarrow> id \<Rightarrow> assignment_dto \<Rightarrow> id \<Rightarrow> 'a org_state_scheme \<Rightarrow> 'a org_state_scheme res" where
  "changeAssignment now hid k dto actor s =
     bindE (employeeById s k) (\<lambda>e.
     bindE (assertNotTerminated e) (\<lambda>_.
     let nextDept = patched (e_departmentId e) (as_departmentId dto);
         nextPos = patched (e_positionId e) (as_positionId dto);
         nextMgr = patched (e_managerId e) (as_managerId dto)
     in throwIf (nextDept = e_departmentId e \<and> nextPos = e_positionId e \<and> nextMgr = e_managerId e)
          (BadRequest ''Nothing changes: department, position and manager are unchanged'')
     (bindE (if nextDept \<noteq> e_departmentId e then assertDepartmentExists s nextDept else Inr ()) (\<lambda>_.
      bindE (if nextPos \<noteq> e_positionId e
             then whenSome nextPos (\<lambda>p. assertPositionAssignable s p nextDept) else Inr ()) (\<lambda>_.
      bindE (if nextMgr \<noteq> e_managerId e
             then whenSome nextMgr (\<lambda>m. assertManagerAssignable s m (Some k)) else Inr ()) (\<lambda>_.
      Inr (emitOrg (EmployeeAssignmentChanged k (as_changeType dto) (as_effectiveDate dto) hid actor)
        (addHistory hid (assignmentHistory k e nextDept nextPos nextMgr dto actor now)
          (saveEmployee k (\<lambda>e. e\<lparr>e_departmentId := nextDept, e_positionId := nextPos, e_managerId := nextMgr\<rparr>) s)))))))))"

text \<open>\<open>STATUS_TRANSITIONS\<close>: the legal changes outside hire and termination.\<close>

definition statusTransitions :: "employee_status \<Rightarrow> employee_status list" where
  "statusTransitions st =
     (case st of ONBOARDING \<Rightarrow> [ACTIVE] | ACTIVE \<Rightarrow> [ON_LEAVE] | ON_LEAVE \<Rightarrow> [ACTIVE] | TERMINATED \<Rightarrow> [])"

definition changeStatus ::
  "int \<Rightarrow> id \<Rightarrow> id \<Rightarrow> employee_status \<Rightarrow> date \<Rightarrow> string option \<Rightarrow> id option \<Rightarrow> 'a org_state_scheme
     \<Rightarrow> 'a org_state_scheme res" where
  "changeStatus now hid k status effective notes actor s =
     bindE (employeeById s k) (\<lambda>e.
     throwIf (status \<notin> set (statusTransitions (e_status e))) (BadRequest ''Cannot change status'')
     (Inr (emitOrg (EmployeeStatusChanged k (e_status e) status effective actor)
       (addHistory hid ((blankHistory k STATUS_CHANGE effective notes actor now)
            \<lparr>h_fromStatus := Some (e_status e), h_toStatus := Some status\<rparr>)
         (saveEmployee k (\<lambda>e. e\<lparr>e_status := status\<rparr>) s)))))"

record terminate_dto =
  td_terminationDate :: date
  td_reason :: "string option"
  td_suspendLogin :: "bool option"

text \<open>The transaction of \<open>terminate\<close>; the login is dealt with after it.\<close>

definition terminateRows ::
  "int \<Rightarrow> id \<Rightarrow> id \<Rightarrow> employee \<Rightarrow> terminate_dto \<Rightarrow> id \<Rightarrow> 'a org_state_scheme \<Rightarrow> 'a org_state_scheme" where
  "terminateRows now hid k e dto actor s =
     (let t1 = updateRow k (\<lambda>e. e\<lparr>e_status := TERMINATED, e_terminationDate := Some (td_terminationDate dto)\<rparr>)
                 (employeesT s);
          t2 = updateWhere (\<lambda>r. e_managerId r = Some k) (\<lambda>r. r\<lparr>e_managerId := e_managerId e\<rparr>) t1;
          d = updateWhere (\<lambda>r. d_headEmployeeId r = Some k) (\<lambda>r. r\<lparr>d_headEmployeeId := None\<rparr>) (departmentsT s)
      in addHistory hid ((blankHistory k TERMINATION (td_terminationDate dto) (td_reason dto) (Some actor) now)
             \<lparr>h_fromStatus := Some (e_status e), h_toStatus := Some TERMINATED\<rparr>)
           (s\<lparr>employeesT := t2, departmentsT := d\<rparr>))"

definition suspendLogin ::
  "('t, 'b) mfa_env_scheme \<Rightarrow> int \<Rightarrow> id \<Rightarrow> id \<Rightarrow> 'a org_state_scheme \<Rightarrow> 'a org_state_scheme res" where
  "suspendLogin E now u actor s =
     bindE (findById s u) (\<lambda>usr.
     if u_status usr = user_status.ACTIVE
     then bindE (setStatus u SUSPENDED actor s) (\<lambda>s1. Inr (logoutAll E now u s1))
     else Inr s)"

definition terminate ::
  "('t, 'b) mfa_env_scheme \<Rightarrow> int \<Rightarrow> id \<Rightarrow> id \<Rightarrow> terminate_dto \<Rightarrow> id \<Rightarrow> 'a org_state_scheme
     \<Rightarrow> unit res \<times> 'a org_state_scheme" where
  "terminate E now hid k dto actor s =
     (case bindE (employeeById s k) (\<lambda>e. bindE (assertNotTerminated e) (\<lambda>_.
            throwIf (td_terminationDate dto < e_hireDate e)
              (BadRequest ''Termination date cannot precede the hire date'') (Inr e))) of
        Inl err \<Rightarrow> (Inl err, s)
      | Inr e \<Rightarrow>
          (let s1 = terminateRows now hid k e dto actor s;
               r = (case e_userId e of None \<Rightarrow> Inr s1
                    | Some u \<Rightarrow> if patched True (td_suspendLogin dto) \<and> u \<noteq> actor
                                then suspendLogin E now u actor s1 else Inr s1)
           in case r of Inl err \<Rightarrow> (Inl err, s1)
              | Inr s2 \<Rightarrow> (Inr (), emitOrg (EmployeeTerminated k (e_userId e) (td_terminationDate dto) actor) s2)))"

definition linkUser :: "id \<Rightarrow> id \<Rightarrow> 'a org_state_scheme \<Rightarrow> 'a org_state_scheme res" where
  "linkUser k u s =
     bindE (employeeById s k) (\<lambda>e.
     throwIf (e_userId e \<noteq> None) (Conflict ''Employee already has a linked login'')
     (bindE (assertUserLinkable s u) (\<lambda>_.
      Inr (saveEmployee k (\<lambda>e. e\<lparr>e_userId := Some u\<rparr>) s))))"

section \<open>Who sees what\<close>

text \<open>
  The serialised record. The fields of the group \<open>full\<close> are options of their values: \<open>None\<close>
  when left out. The manager is nested when the query loaded it, and is serialised with the
  same groups.
\<close>

record personal_view =
  pv_userId :: "id option"
  pv_personalEmail :: "string option"
  pv_phone :: "string option"
  pv_dateOfBirth :: "string option"
  pv_address :: "postal_address option"
  pv_emergencyContact :: "emergency_contact option"
  pv_terminationDate :: "date option"

datatype employee_view =
  EmployeeView (ev_id: id) (ev_fullName: string) (ev_workEmail: string) (ev_status: employee_status)
    (ev_hireDate: date) (ev_departmentId: id) (ev_managerId: "id option")
    (ev_personal: "personal_view option") (ev_manager: "employee_view option")

definition personalOf :: "employee \<Rightarrow> personal_view" where
  "personalOf e =
     \<lparr>pv_userId = e_userId e, pv_personalEmail = e_personalEmail e, pv_phone = e_phone e,
      pv_dateOfBirth = e_dateOfBirth e, pv_address = e_address e,
      pv_emergencyContact = e_emergencyContact e, pv_terminationDate = e_terminationDate e\<rparr>"

definition plainView :: "bool \<Rightarrow> id \<Rightarrow> employee \<Rightarrow> employee_view option \<Rightarrow> employee_view" where
  "plainView full k e mgr =
     EmployeeView k (fullName e) (e_workEmail e) (e_status e) (e_hireDate e) (e_departmentId e)
       (e_managerId e) (if full then Some (personalOf e) else None) mgr"

text \<open>\<open>full\<close> and \<open>directory\<close> of an employee loaded with its manager.\<close>

definition serialise :: "bool \<Rightarrow> 'a org_state_scheme \<Rightarrow> id \<Rightarrow> employee \<Rightarrow> employee_view" where
  "serialise full s k e =
     plainView full k e
       (case e_managerId e of None \<Rightarrow> None
        | Some m \<Rightarrow> map_option (\<lambda>r. plainView full m r None) (findEmployee s m))"

definition canSeeFull :: "'a org_state_scheme \<Rightarrow> auth_user \<Rightarrow> id \<Rightarrow> employee \<Rightarrow> bool" where
  "canSeeFull s actor k target =
     (EMPLOYEE_READ \<in> set (au_permissions actor) \<or> e_userId target = Some (au_id actor) \<or>
      (case findByUserId s (au_id actor) of None \<Rightarrow> False
       | Some (me, _) \<Rightarrow> isInReportingChain s me k))"

definition getEmployee :: "auth_user \<Rightarrow> id \<Rightarrow> 'a org_state_scheme \<Rightarrow> employee_view res" where
  "getEmployee actor k s = bindE (employeeById s k) (\<lambda>e. Inr (serialise (canSeeFull s actor k e) s k e))"

definition getHistory :: "auth_user \<Rightarrow> id \<Rightarrow> 'a org_state_scheme \<Rightarrow> employment_history list res" where
  "getHistory actor k s = bindE (employeeById s k) (\<lambda>e.
     throwIf (\<not> canSeeFull s actor k e) (Forbidden ''Forbidden'') (Inr (historyFor s k)))"

definition getMe :: "auth_user \<Rightarrow> 'a org_state_scheme \<Rightarrow> employee_view res" where
  "getMe actor s = orThrow (findByUserId s (au_id actor)) (NotFound ''No employee profile is linked to your login'')
     (\<lambda>(k, e). Inr (serialise True s k e))"

definition listView :: "auth_user \<Rightarrow> employee_query \<Rightarrow> 'a org_state_scheme \<Rightarrow> employee_view list \<times> page_meta" where
  "listView actor q s =
     (let (es, meta) = listEmployees q s
      in (List.map (\<lambda>(k, e). serialise (EMPLOYEE_READ \<in> set (au_permissions actor)) s k e) es, meta))"

definition reportsView :: "auth_user \<Rightarrow> id \<Rightarrow> 'a org_state_scheme \<Rightarrow> employee_view list res" where
  "reportsView actor m s =
     bindE (employeeById s m) (\<lambda>e.
     Inr (List.map (\<lambda>(k, r). plainView (canSeeFull s actor m e) k r None) (directReports s m)))"

definition myTeam :: "auth_user \<Rightarrow> 'a org_state_scheme \<Rightarrow> employee_view list res" where
  "myTeam actor s = orThrow (findByUserId s (au_id actor)) (NotFound ''No employee profile is linked to your login'')
     (\<lambda>(me, _). Inr (List.map (\<lambda>(k, r). plainView True k r None) (directReports s me)))"

section \<open>Departments\<close>

record create_department_dto =
  cd_name :: string
  cd_code :: string
  cd_description :: "string option"
  cd_parentId :: "id option"
  cd_headEmployeeId :: "id option"

record update_department_dto =
  ud_name :: "string option"
  ud_code :: "string option"
  ud_description :: "string option"
  ud_parentId :: "id option option"
  ud_headEmployeeId :: "id option option"

definition departmentById :: "'a org_state_scheme \<Rightarrow> id \<Rightarrow> department res" where
  "departmentById s k = orThrow (lookup (departmentsT s) k) (NotFound ''Department not found'') Inr"

definition assertCodeFree :: "'a org_state_scheme \<Rightarrow> string \<Rightarrow> unit res" where
  "assertCodeFree s code =
     throwIf (list_ex (\<lambda>d. d_code d = code) (rows (departmentsT s)))
       (Conflict ''Department code is already in use'') (Inr ())"

definition assertEmployeeExists :: "'a org_state_scheme \<Rightarrow> id \<Rightarrow> unit res" where
  "assertEmployeeExists s k =
     throwIf (\<not> isEmployed s k) (BadRequest ''Head employee not found or not active'') (Inr ())"

text \<open>
  The \<open>sub\<close> query of \<open>isDescendant\<close>, level by level until a level is empty; it has no depth
  limit. \<open>None\<close> is a query that has not ended within the fuel; the fuel is more than the
  number of departments, and a tree needs no more (lemma \<open>subLevels_ends\<close>).
\<close>

definition childDepartments :: "department table \<Rightarrow> id list \<Rightarrow> id list" where
  "childDepartments T level = nextLevel d_parentId T level"

fun subLevels :: "department table \<Rightarrow> nat \<Rightarrow> id list \<Rightarrow> id list option" where
  "subLevels T n [] = Some []"
| "subLevels T 0 level = None"
| "subLevels T (Suc n) level = map_option (\<lambda>r. level @ r) (subLevels T n (childDepartments T level))"

definition isDescendant :: "department table \<Rightarrow> id \<Rightarrow> id \<Rightarrow> bool option" where
  "isDescendant T candidateId ancestorId =
     map_option (\<lambda>ids. candidateId \<in> set ids) (subLevels T (Suc (length T)) (childDepartments T [ancestorId]))"

definition createDepartment ::
  "id \<Rightarrow> create_department_dto \<Rightarrow> 'a org_state_scheme \<Rightarrow> 'a org_state_scheme res" where
  "createDepartment k dto s =
     bindE (assertCodeFree s (cd_code dto)) (\<lambda>_.
     bindE (whenSome (cd_parentId dto) (\<lambda>p. bindE (departmentById s p) (\<lambda>_. Inr ()))) (\<lambda>_.
     bindE (whenSome (cd_headEmployeeId dto) (assertEmployeeExists s)) (\<lambda>_.
     Inr (s\<lparr>departmentsT := insertRow k
       \<lparr>d_name = cd_name dto, d_code = cd_code dto, d_description = cd_description dto,
        d_parentId = cd_parentId dto, d_headEmployeeId = cd_headEmployeeId dto\<rparr> (departmentsT s)\<rparr>))))"

text \<open>The check of a new parent; \<open>None\<close> when the query does not end.\<close>

definition checkParent :: "'a org_state_scheme \<Rightarrow> id \<Rightarrow> id \<Rightarrow> unit res option" where
  "checkParent s k p =
     (if p = k then Some (Inl (BadRequest ''A department cannot be its own parent''))
      else case departmentById s p of Inl e \<Rightarrow> Some (Inl e)
      | Inr _ \<Rightarrow> map_option (\<lambda>b. throwIf b
            (BadRequest ''Cannot move a department under one of its own descendants'') (Inr ()))
          (isDescendant (departmentsT s) p k))"

definition updateDepartment ::
  "id \<Rightarrow> update_department_dto \<Rightarrow> 'a org_state_scheme \<Rightarrow> 'a org_state_scheme res option" where
  "updateDepartment k dto s =
     (case bindE (departmentById s k) (\<lambda>d.
             bindE (case ud_code dto of None \<Rightarrow> Inr ()
                    | Some c \<Rightarrow> if c \<noteq> d_code d then assertCodeFree s c else Inr ()) (\<lambda>_. Inr d)) of
        Inl e \<Rightarrow> Some (Inl e)
      | Inr d \<Rightarrow>
          map_option (\<lambda>r.
             bindE r (\<lambda>_.
             bindE (case ud_headEmployeeId dto of Some (Some h) \<Rightarrow> assertEmployeeExists s h | _ \<Rightarrow> Inr ()) (\<lambda>_.
             Inr (s\<lparr>departmentsT := updateRow k (\<lambda>_. d
                \<lparr>d_name := patched (d_name d) (ud_name dto), d_code := patched (d_code d) (ud_code dto),
                 d_description := (case ud_description dto of None \<Rightarrow> d_description d | x \<Rightarrow> x),
                 d_parentId := patched (d_parentId d) (ud_parentId dto),
                 d_headEmployeeId := patched (d_headEmployeeId d) (ud_headEmployeeId dto)\<rparr>)
                (departmentsT s)\<rparr>))))
            (case ud_parentId dto of
               Some (Some p) \<Rightarrow> if Some p \<noteq> d_parentId d then checkParent s k p else Some (Inr ())
             | _ \<Rightarrow> Some (Inr ())))"

text \<open>
  Deleting: the counts leave out soft-deleted employees, the foreign key does not; positions
  and history rows lose the reference (\<open>ON DELETE SET NULL\<close>).
\<close>

definition clearRef :: "id \<Rightarrow> id option \<Rightarrow> id option" where
  "clearRef k x = (if x = Some k then None else x)"

definition removeDepartment :: "id \<Rightarrow> 'a org_state_scheme \<Rightarrow> 'a org_state_scheme res" where
  "removeDepartment k s =
     bindE (departmentById s k) (\<lambda>_.
     throwIf (list_ex (\<lambda>d. d_parentId d = Some k) (rows (departmentsT s)))
       (Conflict ''Department has sub-departments; move or delete them first'')
     (throwIf (list_ex (\<lambda>e. e_departmentId e = k \<and> e_deletedAt e = None) (rows (employeesT s)))
       (Conflict ''Department has employees; transfer them first'')
     (throwIf (list_ex (\<lambda>e. e_departmentId e = k) (rows (employeesT s)))
       (BadRequest ''Referenced resource does not exist'')
     (Inr (s\<lparr>departmentsT := deleteRow k (departmentsT s),
       positionsT := updateWhere (\<lambda>_. True) (\<lambda>p. p\<lparr>p_departmentId := clearRef k (p_departmentId p)\<rparr>) (positionsT s),
       historyT := updateWhere (\<lambda>_. True) (\<lambda>h. h\<lparr>h_fromDepartmentId := clearRef k (h_fromDepartmentId h),
         h_toDepartmentId := clearRef k (h_toDepartmentId h)\<rparr>) (historyT s)\<rparr>)))))"

record department_node =
  dn_name :: string
  dn_code :: string
  dn_head :: "(id \<times> string) option"
  dn_headcount :: nat
  dn_children :: "id list"

definition departmentParent :: "department table \<Rightarrow> department \<Rightarrow> id option" where
  "departmentParent T d = (case d_parentId d of None \<Rightarrow> None
     | Some p \<Rightarrow> if lookup T p = None then None else Some p)"

definition departmentNode :: "'a org_state_scheme \<Rightarrow> id \<times> department \<Rightarrow> department_node" where
  "departmentNode s r =
     \<lparr>dn_name = d_name (snd r), dn_code = d_code (snd r),
      dn_head = (case d_headEmployeeId (snd r) of None \<Rightarrow> None
        | Some h \<Rightarrow> map_option (\<lambda>e. (h, fullName e)) (findEmployee s h)),
      dn_headcount = length (List.filter (\<lambda>e. e_departmentId e = fst r \<and> employed e) (rows (employeesT s))),
      dn_children = List.map fst (sort_key (\<lambda>q. d_name (snd q))
        (List.filter (\<lambda>q. departmentParent (departmentsT s) (snd q) = Some (fst r)) (departmentsT s)))\<rparr>"

definition departmentTree :: "'a org_state_scheme \<Rightarrow> id list \<times> (id \<times> department_node) list" where
  "departmentTree s =
     (List.map fst (sort_key (\<lambda>q. d_name (snd q))
        (List.filter (\<lambda>q. departmentParent (departmentsT s) (snd q) = None) (departmentsT s))),
      List.map (\<lambda>r. (fst r, departmentNode s r)) (departmentsT s))"

section \<open>Positions\<close>

record create_position_dto =
  cp_title :: string
  cp_level :: "string option"
  cp_departmentId :: "id option"

record update_position_dto =
  up_title :: "string option"
  up_level :: "string option"
  up_departmentId :: "id option option"
  up_isActive :: "bool option"

definition listPositions :: "id option \<Rightarrow> bool \<Rightarrow> 'a org_state_scheme \<Rightarrow> (id \<times> position) list" where
  "listPositions dept includeInactive s =
     sort_key (\<lambda>(k, p). p_title p)
       (List.filter (\<lambda>(k, p). (dept = None \<or> p_departmentId p = dept) \<and> (includeInactive \<or> p_isActive p)) (positionsT s))"

definition positionById :: "'a org_state_scheme \<Rightarrow> id \<Rightarrow> position res" where
  "positionById s k = orThrow (lookup (positionsT s) k) (NotFound ''Position not found'') Inr"

definition assertTitleFree :: "'a org_state_scheme \<Rightarrow> string \<Rightarrow> id option \<Rightarrow> id option \<Rightarrow> unit res" where
  "assertTitleFree s title dept exceptId =
     (case List.find (\<lambda>(k, p). p_title p = title \<and> p_departmentId p = dept) (positionsT s) of
        None \<Rightarrow> Inr ()
      | Some (k, _) \<Rightarrow> throwIf (Some k \<noteq> exceptId) (Conflict ''Position already exists in that scope'') (Inr ()))"

definition createPosition ::
  "id \<Rightarrow> create_position_dto \<Rightarrow> 'a org_state_scheme \<Rightarrow> 'a org_state_scheme res" where
  "createPosition k dto s =
     bindE (assertTitleFree s (cp_title dto) (cp_departmentId dto) None) (\<lambda>_.
     bindE (whenSome (cp_departmentId dto) (assertDepartmentExists s)) (\<lambda>_.
     Inr (s\<lparr>positionsT := insertRow k
       \<lparr>p_title = cp_title dto, p_level = cp_level dto, p_departmentId = cp_departmentId dto, p_isActive = True\<rparr>
       (positionsT s)\<rparr>)))"

definition updatePosition ::
  "id \<Rightarrow> update_position_dto \<Rightarrow> 'a org_state_scheme \<Rightarrow> 'a org_state_scheme res" where
  "updatePosition k dto s =
     bindE (positionById s k) (\<lambda>p.
     let nextTitle = patched (p_title p) (up_title dto);
         nextDept = patched (p_departmentId p) (up_departmentId dto)
     in bindE (if nextTitle \<noteq> p_title p \<or> nextDept \<noteq> p_departmentId p
               then assertTitleFree s nextTitle nextDept (Some k) else Inr ()) (\<lambda>_.
        bindE (whenSome nextDept (assertDepartmentExists s)) (\<lambda>_.
        Inr (s\<lparr>positionsT := updateRow k (\<lambda>_. p\<lparr>p_title := nextTitle, p_departmentId := nextDept,
            p_level := (case up_level dto of None \<Rightarrow> p_level p | x \<Rightarrow> x),
            p_isActive := patched (p_isActive p) (up_isActive dto)\<rparr>) (positionsT s)\<rparr>))))"

end
