(* ===== verification/OrgSafety.thy ===== *)
theory OrgSafety
  imports Employees AuthProps
begin

text \<open>
  What holds of the organisation in every reachable state: reporting lines and departments
  are acyclic, nobody employed reports to somebody who left, the head of a department is
  employed, logins and addresses are not shared. The steps are the operations of the three
  services, and anything the other modules do that leaves their tables alone. The two
  hierarchies interpret the contract of \<open>Hierarchy\<close>.
\<close>

section \<open>The chain query\<close>

lemma set_chainUp: "m \<in> set (chainUp p k n) \<longleftrightarrow> (\<exists>i<n. up p k (Suc i) = Some m)"
proof (induction n arbitrary: k)
  case (Suc n)
  have ex: "(\<exists>i<Suc n. P i) \<longleftrightarrow> P 0 \<or> (\<exists>i<n. P (Suc i))" for P
    by (metis less_Suc_eq_0_disj)
  show ?case
    using Suc.IH unfolding ex by (auto split: option.splits)
qed simp

text \<open>No reporting line has more than 50 managers.\<close>

definition shallow :: "'a org_state_scheme \<Rightarrow> bool" where
  "shallow s \<longleftrightarrow> (\<forall>k. up (managerOf s) k 51 = None)"

lemma chain_sound: "isInReportingChain s m k \<Longrightarrow> reaches (managerOf s) k m"
  by (auto simp: isInReportingChain_def set_chainUp reaches_def simp del: up.simps)

lemma chain_complete:
  assumes "shallow s" "reaches (managerOf s) k m" "m \<noteq> k"
  shows "isInReportingChain s m k"
proof -
  obtain n where n: "up (managerOf s) k (Suc n) = Some m" using assms(2) by (auto simp: reaches_def)
  have "n < 50"
  proof (rule ccontr)
    assume "\<not> n < 50"
    then have "up (managerOf s) k (Suc n) = None"
      using assms(1) up_None_mono [of "managerOf s" k 51 "Suc n"] by (simp add: shallow_def del: up.simps)
    then show False using n by simp
  qed
  then show ?thesis using n assms(3) by (auto simp: isInReportingChain_def set_chainUp simp del: up.simps)
qed

section \<open>The two hierarchies\<close>

definition setManager :: "id \<Rightarrow> id option \<Rightarrow> 'a org_state_scheme \<Rightarrow> 'a org_state_scheme" where
  "setManager k x s = saveEmployee k (\<lambda>e. e\<lparr>e_managerId := x\<rparr>) s"

definition deptParentOf :: "department table \<Rightarrow> parents" where
  "deptParentOf T k = (case lookup T k of None \<Rightarrow> None | Some d \<Rightarrow> d_parentId d)"

lemma managerOf_saveEmployee:
  assumes "lookup (employeesT s) k \<noteq> None"
  shows "managerOf (saveEmployee k f s) = (managerOf s)(k := e_managerId (f (the (lookup (employeesT s) k))))"
  using assms by (auto simp: managerOf_def saveEmployee_def lookup_updateRow fun_eq_iff split: option.splits)

text \<open>
  A move of an existing employee, allowed by the checks of \<open>assertManagerAssignable\<close> in a
  state with no line longer than the query follows.
\<close>

definition managerAllowed :: "'a org_state_scheme \<Rightarrow> id \<Rightarrow> id \<Rightarrow> bool" where
  "managerAllowed s k m \<longleftrightarrow> shallow s \<and> isInr (assertManagerAssignable s m (Some k))"

lemma assertManagerAssignable_Inr:
  "assertManagerAssignable s m x = Inr u \<longleftrightarrow>
     Some m \<noteq> x \<and> isEmployed s m \<and> (\<forall>k. x = Some k \<longrightarrow> \<not> isInReportingChain s k m)"
  by (cases x) (auto simp: assertManagerAssignable_def throwIf_def)

lemma isInr_iff: "isInr r \<longleftrightarrow> (\<exists>x. r = Inr x)"
  by (cases r) auto

interpretation lines: hierarchy managerOf "\<lambda>s k. lookup (employeesT s) k \<noteq> None" setManager managerAllowed
proof
  show "managerOf (setManager k x s) = (managerOf s)(k := x)" if "lookup (employeesT s) k \<noteq> None"
    for k x and s :: "'a org_state_scheme"
    using managerOf_saveEmployee [OF that] by (simp add: setManager_def)
  show "m \<noteq> k \<and> \<not> reaches (managerOf s) m k" if "managerAllowed s k m"
    for k m and s :: "'a org_state_scheme"
    using that chain_complete [of s m k]
    by (auto simp: managerAllowed_def isInr_iff assertManagerAssignable_Inr)
qed

text \<open>Departments: the descendants query ends in a tree, and finds exactly the descendants.\<close>

lemma childDepartments_iff: "keyed T \<Longrightarrow> c \<in> set (childDepartments T level) \<longleftrightarrow> (\<exists>t\<in>set level. deptParentOf T c = Some t)"
  by (simp add: childDepartments_def nextLevel_iff rowParent_def deptParentOf_def)

lemma reaches_last: "reaches p c t \<longleftrightarrow> p c = Some t \<or> (\<exists>t'. p t' = Some t \<and> reaches p c t')"
proof
  assume "reaches p c t"
  then obtain n where n: "up p c (Suc n) = Some t" by (auto simp: reaches_def)
  then obtain t' where t': "up p c n = Some t'" "p t' = Some t"
    unfolding up_Suc_end by (auto split: option.splits)
  then show "p c = Some t \<or> (\<exists>t'. p t' = Some t \<and> reaches p c t')"
  proof (cases n)
    case (Suc i)
    then show ?thesis using t' reachesI [of p c i t'] by blast
  qed simp
qed (auto intro: reaches_step reaches_trans)

lemma subLevels_members:
  assumes k: "keyed T"
  shows "subLevels T n level = Some ids \<Longrightarrow>
    c \<in> set ids \<longleftrightarrow> c \<in> set level \<or> (\<exists>t\<in>set level. reaches (deptParentOf T) c t)"
proof (induction n arbitrary: level ids)
  case 0
  then show ?case by (cases level) simp_all
next
  case (Suc n)
  show ?case
  proof (cases level)
    case Nil
    then show ?thesis using Suc.prems by simp
  next
    case (Cons a as)
    then obtain r where r: "subLevels T n (childDepartments T level) = Some r" "ids = level @ r"
      using Suc.prems by auto
    have "c \<in> set r \<longleftrightarrow> (\<exists>t\<in>set level. reaches (deptParentOf T) c t)"
      unfolding Suc.IH [OF r(1)] Bex_def childDepartments_iff [OF k] using reaches_last [of "deptParentOf T" c] by blast
    then show ?thesis using r(2) by auto
  qed
qed

lemma subLevels_None:
  assumes k: "keyed T"
  shows "subLevels T n level = None \<Longrightarrow> \<exists>c t. t \<in> set level \<and> up (deptParentOf T) c n = Some t"
proof (induction n arbitrary: level)
  case 0
  then show ?case by (cases level) auto
next
  case (Suc n)
  then have "subLevels T n (childDepartments T level) = None" by (cases level) simp_all
  then obtain c t' where t': "t' \<in> set (childDepartments T level)" "up (deptParentOf T) c n = Some t'"
    using Suc.IH by blast
  then obtain t where "t \<in> set level" "deptParentOf T t' = Some t" unfolding childDepartments_iff [OF k] by blast
  then show ?case using t'(2) up_Suc_end [of "deptParentOf T" c n] by (intro exI [of _ c] exI [of _ t]) simp
qed

lemma subLevels_ends:
  assumes k: "keyed T" and a: "acyclicUp (deptParentOf T)"
  shows "subLevels T (Suc (length T)) level \<noteq> None"
proof
  assume "subLevels T (Suc (length T)) level = None"
  then obtain c t where u: "up (deptParentOf T) c (Suc (length T)) = Some t"
    using subLevels_None [OF k] by blast
  have "card (set (keys T)) \<le> length T" by (metis card_length keys_def length_map)
  moreover have "up (deptParentOf T) c (Suc (card (set (keys T)))) = None"
    by (rule acyclic_terminates [OF a]) (auto simp: deptParentOf_def dest: lookup_Some_keys split: option.splits)
  ultimately show False using u up_None_mono [of "deptParentOf T" c "Suc (card (set (keys T)))" "Suc (length T)"]
    by (simp del: up.simps)
qed

lemma isDescendant_exact:
  assumes k: "keyed T" and a: "acyclicUp (deptParentOf T)"
  shows "isDescendant T c anc = Some (reaches (deptParentOf T) c anc)"
proof -
  obtain ids where ids: "subLevels T (Suc (length T)) (childDepartments T [anc]) = Some ids"
    using subLevels_ends [OF k a, of "childDepartments T [anc]"] by blast
  have "c \<in> set ids \<longleftrightarrow> reaches (deptParentOf T) c anc"
    unfolding subLevels_members [OF k ids] Bex_def childDepartments_iff [OF k]
    using reaches_last [of "deptParentOf T" c anc] by simp
  then show ?thesis using ids by (simp add: isDescendant_def del: subLevels.simps)
qed

definition setParent :: "id \<Rightarrow> id option \<Rightarrow> department table \<Rightarrow> department table" where
  "setParent k x T = updateRow k (\<lambda>d. d\<lparr>d_parentId := x\<rparr>) T"

definition parentAllowed :: "department table \<Rightarrow> id \<Rightarrow> id \<Rightarrow> bool" where
  "parentAllowed T k p \<longleftrightarrow> keyed T \<and> p \<noteq> k \<and> isDescendant T p k = Some False"

lemma deptParentOf_update:
  "lookup T k = Some d \<Longrightarrow> deptParentOf (updateRow k f T) = (deptParentOf T)(k := d_parentId (f d))"
  by (auto simp: deptParentOf_def lookup_updateRow fun_eq_iff split: option.splits)

interpretation depts: hierarchy deptParentOf "\<lambda>T k. lookup T k \<noteq> None" setParent parentAllowed
proof
  show "deptParentOf (setParent k x T) = (deptParentOf T)(k := x)" if "lookup T k \<noteq> None" for k x T
    using that deptParentOf_update [of T k] by (auto simp: setParent_def)
  show "p \<noteq> k \<and> \<not> reaches (deptParentOf T) p k" if "parentAllowed T k p" "acyclicUp (deptParentOf T)" for T k p
    using that isDescendant_exact [of T p k] by (simp add: parentAllowed_def)
qed

section \<open>The invariant of the tables\<close>

definition mgrOf :: "employee table \<Rightarrow> parents" where
  "mgrOf T k = (case lookup T k of None \<Rightarrow> None | Some e \<Rightarrow> e_managerId e)"

definition employedIn :: "employee table \<Rightarrow> id \<Rightarrow> bool" where
  "employedIn T k \<longleftrightarrow> (case lookup T k of None \<Rightarrow> False | Some e \<Rightarrow> employed e)"

lemma managerOf_mgrOf: "managerOf s = mgrOf (employeesT s)"
  by (simp add: fun_eq_iff managerOf_def mgrOf_def)

lemma isEmployed_in: "isEmployed s k = employedIn (employeesT s) k"
  by (simp add: isEmployed_def employedIn_def)

text \<open>Reporting lines: acyclic, to existing people, and nobody employed reports to a leaver.\<close>

definition lineInv :: "employee table \<Rightarrow> bool" where
  "lineInv T \<longleftrightarrow> keyed T \<and> acyclicUp (mgrOf T) \<and>
     (\<forall>k m. mgrOf T k = Some m \<longrightarrow> lookup T m \<noteq> None) \<and>
     (\<forall>k m. mgrOf T k = Some m \<longrightarrow> employedIn T k \<longrightarrow> employedIn T m)"

text \<open>Identities: an address and a login belong to one person.\<close>

definition identInv :: "id list \<Rightarrow> employee table \<Rightarrow> bool" where
  "identInv users T \<longleftrightarrow>
     uniqueBy (\<lambda>r q. e_userId r \<noteq> None \<and> e_userId r = e_userId q) T \<and>
     uniqueBy (\<lambda>r q. citext (e_workEmail r) = citext (e_workEmail q)) T \<and>
     (\<forall>k e u. lookup T k = Some e \<longrightarrow> e_userId e = Some u \<longrightarrow> u \<in> set users)"

text \<open>Departments: a tree over existing departments.\<close>

definition deptInv :: "department table \<Rightarrow> bool" where
  "deptInv D \<longleftrightarrow> keyed D \<and> acyclicUp (deptParentOf D) \<and>
     (\<forall>k p. deptParentOf D k = Some p \<longrightarrow> lookup D p \<noteq> None)"

text \<open>Across: heads are employed, everyone belongs to a department.\<close>

definition refInv :: "employee table \<Rightarrow> department table \<Rightarrow> bool" where
  "refInv T D \<longleftrightarrow>
     (\<forall>k d h. lookup D k = Some d \<longrightarrow> d_headEmployeeId d = Some h \<longrightarrow> employedIn T h) \<and>
     (\<forall>k e. lookup T k = Some e \<longrightarrow> lookup D (e_departmentId e) \<noteq> None)"

definition orgInv :: "'a org_state_scheme \<Rightarrow> bool" where
  "orgInv s \<longleftrightarrow> lineInv (employeesT s) \<and> identInv (keys (usersT s)) (employeesT s) \<and>
     deptInv (departmentsT s) \<and> refInv (employeesT s) (departmentsT s)"

subsection \<open>Edits of one employee\<close>

lemma mgrOf_update: "lookup T k = Some e \<Longrightarrow> mgrOf (updateRow k f T) = (mgrOf T)(k := e_managerId (f e))"
  by (auto simp: mgrOf_def lookup_updateRow fun_eq_iff split: option.splits)

lemma employedIn_update: "lookup T k = Some e \<Longrightarrow>
    employedIn (updateRow k f T) j = (if j = k then employed (f e) else employedIn T j)"
  by (auto simp: employedIn_def lookup_updateRow split: option.splits)

lemma lineInv_move:
  assumes l: "lineInv T" and e: "lookup T k = Some e"
    and em: "employed (f e) = employed e"
    and m: "e_managerId (f e) = e_managerId e \<or> e_managerId (f e) = None \<or>
      (\<exists>m. e_managerId (f e) = Some m \<and> m \<noteq> k \<and> \<not> reaches (mgrOf T) m k \<and> employedIn T m)"
  shows "lineInv (updateRow k f T)"
proof -
  have mk: "mgrOf T k = e_managerId e" using e by (simp add: mgrOf_def)
  have g: "mgrOf (updateRow k f T) = (mgrOf T)(k := e_managerId (f e))" by (rule mgrOf_update [OF e])
  have "acyclicUp (mgrOf (updateRow k f T))"
    unfolding g using m l mk acyclic_clear [of "mgrOf T" k] acyclic_move [of "mgrOf T" _ k]
    by (auto simp: lineInv_def) (metis fun_upd_triv mk)
  moreover have "lookup (updateRow k f T) i \<noteq> None \<longleftrightarrow> lookup T i \<noteq> None" for i
    by (auto simp: lookup_updateRow)
  moreover have "employedIn (updateRow k f T) i = employedIn T i" for i
    using employedIn_update [OF e, of f i] em e by (auto simp: employedIn_def)
  moreover have "employedIn T m \<Longrightarrow> lookup T m \<noteq> None" for m by (auto simp: employedIn_def split: option.splits)
  ultimately show ?thesis using l m mk unfolding lineInv_def g by (auto split: if_splits)
qed

text \<open>An edit that moves no login and no address.\<close>

lemma identInv_orig:
  assumes i: "identInv U T"
    and o: "\<And>j r. lookup T' j = Some r \<Longrightarrow> \<exists>r'. lookup T j = Some r' \<and> e_userId r' = e_userId r \<and>
      citext (e_workEmail r') = citext (e_workEmail r)"
  shows "identInv U T'"
proof -
  have "uniqueBy (\<lambda>r q. e_userId r \<noteq> None \<and> e_userId r = e_userId q) T'"
  proof (rule uniqueBy_orig [of _ T])
    show "uniqueBy (\<lambda>r q. e_userId r \<noteq> None \<and> e_userId r = e_userId q) T" using i by (simp add: identInv_def)
    show "\<exists>r' q'. lookup T j = Some r' \<and> lookup T i = Some q' \<and> e_userId r' \<noteq> None \<and> e_userId r' = e_userId q'"
      if "lookup T' j = Some r" "lookup T' i = Some q" "e_userId r \<noteq> None \<and> e_userId r = e_userId q" for j r i q
      using o [OF that(1)] o [OF that(2)] that(3) by (auto, metis)
  qed
  moreover have "uniqueBy (\<lambda>r q. citext (e_workEmail r) = citext (e_workEmail q)) T'"
  proof (rule uniqueBy_orig [of _ T])
    show "uniqueBy (\<lambda>r q. citext (e_workEmail r) = citext (e_workEmail q)) T" using i by (simp add: identInv_def)
    show "\<exists>r' q'. lookup T j = Some r' \<and> lookup T i = Some q' \<and> citext (e_workEmail r') = citext (e_workEmail q')"
      if "lookup T' j = Some r" "lookup T' i = Some q" "citext (e_workEmail r) = citext (e_workEmail q)" for j r i q
      using o [OF that(1)] o [OF that(2)] that(3) by auto
  qed
  moreover have "u \<in> set U" if "lookup T' k' = Some e'" "e_userId e' = Some u" for k' e' u
    using o [OF that(1)] that(2) i by (auto simp: identInv_def)
  ultimately show ?thesis by (simp add: identInv_def)
qed

lemma identInv_update:
  assumes i: "identInv U T" and e: "lookup T k = Some e"
    and u: "e_userId (f e) = e_userId e" and w: "citext (e_workEmail (f e)) = citext (e_workEmail e)"
  shows "identInv U (updateRow k f T)"
  by (rule identInv_orig [OF i]) (use e u w in \<open>auto simp: lookup_updateRow split: if_splits\<close>)

lemma refInv_update:
  assumes r: "refInv T D" and e: "lookup T k = Some e"
    and em: "employed (f e) = employed e" and d: "lookup D (e_departmentId (f e)) \<noteq> None"
  shows "refInv (updateRow k f T) D"
proof -
  have "employedIn (updateRow k f T) i = employedIn T i" for i
    using employedIn_update [OF e, of f i] em e by (auto simp: employedIn_def)
  then show ?thesis using r e d by (auto simp: refInv_def lookup_updateRow split: if_splits)
qed

subsection \<open>Hiring and leaving\<close>

lemma mgrOf_insert: "k \<notin> set (keys T) \<Longrightarrow> mgrOf (insertRow k e T) = (mgrOf T)(k := e_managerId e)"
  by (auto simp: mgrOf_def lookup_insertRow fun_eq_iff)

lemma employedIn_insert: "k \<notin> set (keys T) \<Longrightarrow> employedIn (insertRow k e T) j = (if j = k then employed e else employedIn T j)"
  by (auto simp: employedIn_def lookup_insertRow)

lemma employedIn_known: "employedIn T m \<Longrightarrow> lookup T m \<noteq> None"
  by (auto simp: employedIn_def split: option.splits)

lemma lineInv_insert:
  assumes l: "lineInv T" and k: "k \<notin> set (keys T)"
    and m: "\<And>m. e_managerId e = Some m \<Longrightarrow> employedIn T m"
  shows "lineInv (insertRow k e T)"
proof -
  have g: "mgrOf (insertRow k e T) = (mgrOf T)(k := e_managerId e)" by (rule mgrOf_insert [OF k])
  have unk: "lookup T k = None" using k by (simp add: lookup_None_iff)
  have nk: "mgrOf T i \<noteq> Some k" for i using l unk unfolding lineInv_def by blast
  have "\<not> reaches (mgrOf T) j k" for j using reaches_last [of "mgrOf T" j k] nk by blast
  moreover have "m \<noteq> k" if "e_managerId e = Some m" for m using employedIn_known [OF m [OF that]] unk by auto
  moreover have "acyclicUp (mgrOf T)" using l by (simp add: lineInv_def)
  ultimately have "acyclicUp (mgrOf (insertRow k e T))"
    unfolding g using acyclic_clear [of "mgrOf T" k] acyclic_move [of "mgrOf T" _ k]
    by (cases "e_managerId e") simp_all
  then show ?thesis
    using l m k nk employedIn_known unfolding lineInv_def g
    by (auto simp: employedIn_insert lookup_insertRow split: if_splits)
qed

lemma refInv_insert:
  assumes r: "refInv T D" and k: "k \<notin> set (keys T)" and d: "lookup D (e_departmentId e) \<noteq> None"
  shows "refInv (insertRow k e T) D"
proof -
  have "employedIn (insertRow k e T) h" if "employedIn T h" for h
  proof -
    have "h \<noteq> k" using employedIn_known [OF that] k by (auto simp: lookup_None_iff)
    then show ?thesis using that by (simp add: employedIn_insert [OF k])
  qed
  then show ?thesis using r d unfolding refInv_def by (auto simp: lookup_insertRow [OF k])
qed

lemma identInv_insert:
  assumes i: "identInv U T" and k: "k \<notin> set (keys T)"
    and w: "\<not> list_ex (\<lambda>q. citext (e_workEmail q) = citext (e_workEmail e)) (rows T)"
    and u: "\<And>u. e_userId e = Some u \<Longrightarrow> u \<in> set U \<and> \<not> list_ex (\<lambda>q. e_userId q = Some u) (rows T)"
  shows "identInv U (insertRow k e T)"
proof -
  have fu: "e_userId e = Some v \<Longrightarrow> e_userId q \<noteq> Some v" if "lookup T j = Some q" for j q v
    using u [of v] lookup_in_rows [OF that] by (auto simp: list_ex_iff)
  have fw: "citext (e_workEmail q) \<noteq> citext (e_workEmail e)" if "lookup T j = Some q" for j q
    using w lookup_in_rows [OF that] by (auto simp: list_ex_iff)
  have "uniqueBy (\<lambda>r q. e_userId r \<noteq> None \<and> e_userId r = e_userId q) (insertRow k e T)"
  proof (rule uniqueBy_insert [OF _ k])
    show "uniqueBy (\<lambda>r q. e_userId r \<noteq> None \<and> e_userId r = e_userId q) T" using i by (simp add: identInv_def)
    show "\<not> (e_userId q \<noteq> None \<and> e_userId q = e_userId e) \<and> \<not> (e_userId e \<noteq> None \<and> e_userId e = e_userId q)"
      if "lookup T j = Some q" for j q
      using fu [OF that] by (cases "e_userId e") auto
  qed
  moreover have "uniqueBy (\<lambda>r q. citext (e_workEmail r) = citext (e_workEmail q)) (insertRow k e T)"
  proof (rule uniqueBy_insert [OF _ k])
    show "uniqueBy (\<lambda>r q. citext (e_workEmail r) = citext (e_workEmail q)) T" using i by (simp add: identInv_def)
  qed (use fw in force)
  moreover have "v \<in> set U" if "lookup (insertRow k e T) j = Some q" "e_userId q = Some v" for j q v
    using that i u [of v] by (auto simp: identInv_def lookup_insertRow [OF k] split: if_splits)
  ultimately show ?thesis by (simp add: identInv_def)
qed

lemma identInv_users: "identInv U T \<Longrightarrow> set U \<subseteq> set V \<Longrightarrow> identInv V T"
  unfolding identInv_def by blast

lemma identInv_link:
  assumes i: "identInv U T" and e: "lookup T k = Some e"
    and n: "\<not> list_ex (\<lambda>q. e_userId q = Some u) (rows T)" and u: "u \<in> set U"
  shows "identInv U (updateRow k (\<lambda>e. e\<lparr>e_userId := Some u\<rparr>) T)"
proof -
  have fr: "e_userId q \<noteq> Some u" if "lookup T j = Some q" for j q
    using n lookup_in_rows [OF that] by (auto simp: list_ex_iff)
  have "uniqueBy (\<lambda>r q. e_userId r \<noteq> None \<and> e_userId r = e_userId q) (updateRow k (\<lambda>e. e\<lparr>e_userId := Some u\<rparr>) T)"
  proof (rule uniqueBy_updateRow)
    show "uniqueBy (\<lambda>r q. e_userId r \<noteq> None \<and> e_userId r = e_userId q) T" using i by (simp add: identInv_def)
  qed (use fr in force)
  moreover have "uniqueBy (\<lambda>r q. citext (e_workEmail r) = citext (e_workEmail q)) (updateRow k (\<lambda>e. e\<lparr>e_userId := Some u\<rparr>) T)"
  proof (rule uniqueBy_updateRow)
    show m: "uniqueBy (\<lambda>r q. citext (e_workEmail r) = citext (e_workEmail q)) T" using i by (simp add: identInv_def)
    show "\<not> citext (e_workEmail (r\<lparr>e_userId := Some u\<rparr>)) = citext (e_workEmail q) \<and>
        \<not> citext (e_workEmail q) = citext (e_workEmail (r\<lparr>e_userId := Some u\<rparr>))"
      if "lookup T k = Some r" "lookup T j = Some q" "j \<noteq> k" for r j q
      using uniqueByD [OF m that(1,2)] that(3) by auto
  qed
  ultimately show ?thesis using i u by (auto simp: identInv_def lookup_updateRow split: if_splits)
qed

lemma identInv_email:
  assumes i: "identInv U T" and e: "lookup T k = Some e"
    and n: "\<not> list_ex (\<lambda>q. citext (e_workEmail q) = citext (e_workEmail (f e))) (rows T)"
    and u: "e_userId (f e) = e_userId e"
  shows "identInv U (updateRow k f T)"
proof -
  have fr: "citext (e_workEmail q) \<noteq> citext (e_workEmail (f e))" if "lookup T j = Some q" for j q
    using n lookup_in_rows [OF that] by (auto simp: list_ex_iff)
  have "uniqueBy (\<lambda>r q. e_userId r \<noteq> None \<and> e_userId r = e_userId q) (updateRow k f T)"
  proof (rule uniqueBy_updateRow)
    show m: "uniqueBy (\<lambda>r q. e_userId r \<noteq> None \<and> e_userId r = e_userId q) T" using i by (simp add: identInv_def)
    show "\<not> (e_userId (f r) \<noteq> None \<and> e_userId (f r) = e_userId q) \<and> \<not> (e_userId q \<noteq> None \<and> e_userId q = e_userId (f r))"
      if "lookup T k = Some r" "lookup T j = Some q" "j \<noteq> k" for r j q
    proof -
      have "e_userId (f r) = e_userId r" using that(1) e u by simp
      then show ?thesis using uniqueByD [OF m that(1,2)] that(3) by (cases "e_userId r") auto
    qed
  qed
  moreover have "uniqueBy (\<lambda>r q. citext (e_workEmail r) = citext (e_workEmail q)) (updateRow k f T)"
  proof (rule uniqueBy_updateRow)
    show "uniqueBy (\<lambda>r q. citext (e_workEmail r) = citext (e_workEmail q)) T" using i by (simp add: identInv_def)
    show "\<not> citext (e_workEmail (f r)) = citext (e_workEmail q) \<and> \<not> citext (e_workEmail q) = citext (e_workEmail (f r))"
      if "lookup T k = Some r" "lookup T j = Some q" "j \<noteq> k" for r j q
      using fr [OF that(2)] that(1) e by auto
  qed
  ultimately show ?thesis using i u e by (auto simp: identInv_def lookup_updateRow split: if_splits)
qed

text \<open>What \<open>terminate\<close> does to the two tables.\<close>

definition leave :: "id \<Rightarrow> id option \<Rightarrow> (employee \<Rightarrow> employee) \<Rightarrow> employee table \<Rightarrow> employee table" where
  "leave k m f T = updateWhere (\<lambda>r. e_managerId r = Some k) (\<lambda>r. r\<lparr>e_managerId := m\<rparr>) (updateRow k f T)"

lemma lookup_leave: "lookup (leave k m f T) j =
    map_option (\<lambda>r. let r' = (if j = k then f r else r) in
      if e_managerId r' = Some k then r'\<lparr>e_managerId := m\<rparr> else r') (lookup T j)"
  by (cases "lookup T j"; cases "j = k") (auto simp: leave_def lookup_updateWhere lookup_updateRow Let_def)

lemma mgrOf_leave:
  assumes "lookup T k = Some e" "e_managerId (f e) = e_managerId e" "e_managerId e \<noteq> Some k"
  shows "mgrOf (leave k (e_managerId e) f T) = bypass k (mgrOf T)"
  using assms by (auto simp: fun_eq_iff mgrOf_def bypass_def lookup_leave Let_def split: option.splits)

lemma employedIn_leave:
  assumes "lookup T k = Some e" "\<not> employed (f e)"
  shows "employedIn (leave k m f T) j \<longleftrightarrow> j \<noteq> k \<and> employedIn T j"
  using assms by (auto simp: employedIn_def lookup_leave Let_def employed_def split: option.splits)

lemma lineInv_leave:
  assumes l: "lineInv T" and e: "lookup T k = Some e" and em: "employed e"
    and f: "e_managerId (f e) = e_managerId e" "\<not> employed (f e)"
  shows "lineInv (leave k (e_managerId e) f T)"
proof -
  have mk: "mgrOf T k = e_managerId e" using e by (simp add: mgrOf_def)
  have "\<not> reaches (mgrOf T) k k" using l acyclicD by (simp add: lineInv_def)
  then have self: "e_managerId e \<noteq> Some k" using mk reaches_step by metis
  have g: "mgrOf (leave k (e_managerId e) f T) = bypass k (mgrOf T)" by (rule mgrOf_leave [where f = f, OF e f(1) self])
  have el: "employedIn (leave k (e_managerId e) f T) j \<longleftrightarrow> j \<noteq> k \<and> employedIn T j" for j
    by (rule employedIn_leave [where f = f, OF e f(2)])
  have ek: "employedIn T k" using e em by (simp add: employedIn_def)
  have kn: "lookup (leave k (e_managerId e) f T) j \<noteq> None \<longleftrightarrow> lookup T j \<noteq> None" for j
    by (simp add: lookup_leave)
  have "keyed (leave k (e_managerId e) f T)" using l by (simp add: lineInv_def leave_def)
  moreover have "acyclicUp (bypass k (mgrOf T))" using l by (simp add: lineInv_def acyclic_bypass)
  moreover have "lookup T m \<noteq> None" if "bypass k (mgrOf T) j = Some m" for j m
    using that l by (auto simp: bypass_def lineInv_def split: if_splits)
  moreover have "m \<noteq> k \<and> employedIn T m" if b: "bypass k (mgrOf T) j = Some m" "j \<noteq> k" "employedIn T j" for j m
  proof (cases "mgrOf T j = Some k")
    case True
    then have "mgrOf T k = Some m" using b(1) by (simp add: bypass_def)
    then show ?thesis using l ek self mk by (auto simp: lineInv_def)
  next
    case False
    then have "mgrOf T j = Some m" using b(1) by (simp add: bypass_def)
    then show ?thesis using False l b(3) by (auto simp: lineInv_def)
  qed
  ultimately show ?thesis unfolding lineInv_def g kn el by blast
qed

lemma identInv_leave:
  assumes i: "identInv U T" and e: "lookup T k = Some e"
    and f: "e_userId (f e) = e_userId e" "e_workEmail (f e) = e_workEmail e"
  shows "identInv U (leave k m f T)"
  by (rule identInv_orig [OF i]) (use e f in \<open>auto simp: lookup_leave Let_def split: if_splits\<close>)

text \<open>The departments lose the leaver as their head.\<close>

abbreviation dropHead :: "id \<Rightarrow> department table \<Rightarrow> department table" where
  "dropHead k D \<equiv> updateWhere (\<lambda>r. d_headEmployeeId r = Some k) (\<lambda>r. r\<lparr>d_headEmployeeId := None\<rparr>) D"

lemma refInv_leave:
  assumes r: "refInv T D" and e: "lookup T k = Some e"
    and f: "\<not> employed (f e)" "e_departmentId (f e) = e_departmentId e"
  shows "refInv (leave k m f T) (dropHead k D)"
proof -
  have em: "employedIn (leave k m f T) j \<longleftrightarrow> j \<noteq> k \<and> employedIn T j" for j
    by (rule employedIn_leave [where f = f, OF e f(1)])
  have dp: "\<exists>q'. lookup T j = Some q' \<and> e_departmentId q' = e_departmentId q"
    if "lookup (leave k m f T) j = Some q" for j q
    using that e f(2) by (auto simp: lookup_leave Let_def split: if_splits)
  have "employedIn (leave k m f T) h"
    if "lookup (dropHead k D) j = Some d" "d_headEmployeeId d = Some h" for j d h
  proof -
    note l = that
    obtain d0 where d0: "lookup D j = Some d0" "d = (if d_headEmployeeId d0 = Some k then d0\<lparr>d_headEmployeeId := None\<rparr> else d0)"
      using l(1) unfolding lookup_updateWhere map_option_eq_Some by blast
    then have "d_headEmployeeId d0 = Some h" "h \<noteq> k" using l(2) by (auto split: if_splits)
    then show ?thesis using r d0(1) unfolding em refInv_def by blast
  qed
  moreover have "lookup (dropHead k D) (e_departmentId q) \<noteq> None" if "lookup (leave k m f T) j = Some q" for j q
    using dp [OF that] r by (fastforce simp: lookup_updateWhere refInv_def)
  ultimately show ?thesis by (simp add: refInv_def)
qed

lemma deptInv_dropHead: "deptInv D \<Longrightarrow> deptInv (dropHead k D)"
proof -
  have "deptParentOf (dropHead k D) = deptParentOf D"
    by (auto simp: fun_eq_iff deptParentOf_def lookup_updateWhere split: option.splits)
  then show "deptInv D \<Longrightarrow> deptInv (dropHead k D)" by (simp add: deptInv_def lookup_updateWhere)
qed

subsection \<open>Edits of the department tree\<close>

lemma deptInv_insert:
  assumes i: "deptInv D" and k: "k \<notin> set (keys D)" and p: "\<And>p. d_parentId d = Some p \<Longrightarrow> lookup D p \<noteq> None"
  shows "deptInv (insertRow k d D)"
proof -
  have unk: "lookup D k = None" using k by (simp add: lookup_None_iff)
  have g: "deptParentOf (insertRow k d D) = (deptParentOf D)(k := d_parentId d)"
    by (auto simp: fun_eq_iff deptParentOf_def lookup_insertRow [OF k])
  have nk: "deptParentOf D j \<noteq> Some k" for j using i unk unfolding deptInv_def by blast
  have "\<not> reaches (deptParentOf D) j k" for j using reaches_last [of "deptParentOf D" j k] nk by blast
  moreover have "m \<noteq> k" if "d_parentId d = Some m" for m using p [OF that] unk by auto
  moreover have "acyclicUp (deptParentOf D)" using i by (simp add: deptInv_def)
  ultimately have "acyclicUp (deptParentOf (insertRow k d D))"
    unfolding g using acyclic_clear [of "deptParentOf D" k] acyclic_move [of "deptParentOf D" _ k]
    by (cases "d_parentId d") simp_all
  then show ?thesis using i k p unfolding deptInv_def g by (auto simp: lookup_insertRow [OF k] split: if_splits)
qed

lemma deptInv_update:
  assumes i: "deptInv D" and d: "lookup D k = Some d"
    and p: "d_parentId (f d) = d_parentId d \<or> d_parentId (f d) = None \<or>
      (\<exists>p. d_parentId (f d) = Some p \<and> parentAllowed D k p \<and> lookup D p \<noteq> None)"
  shows "deptInv (updateRow k f D)"
proof -
  have a: "acyclicUp (deptParentOf D)" using i by (simp add: deptInv_def)
  have dk: "deptParentOf D k = d_parentId d" using d by (simp add: deptParentOf_def)
  have g: "deptParentOf (updateRow k f D) = (deptParentOf D)(k := d_parentId (f d))"
    by (rule deptParentOf_update [OF d])
  have "acyclicUp (deptParentOf (updateRow k f D))"
    using p
  proof (elim disjE exE conjE)
    show "d_parentId (f d) = d_parentId d \<Longrightarrow> ?thesis" unfolding g using a dk by (simp add: fun_upd_idem)
    show "d_parentId (f d) = None \<Longrightarrow> ?thesis" unfolding g using acyclic_clear [OF a] by simp
    show "?thesis" if "d_parentId (f d) = Some q" "parentAllowed D k q" for q
      unfolding g using depts.move_acyclic [OF a, of k "Some q"] that d deptParentOf_update [OF d]
      by (simp add: setParent_def)
  qed
  then show ?thesis using i p dk unfolding deptInv_def g by (auto simp: lookup_updateRow split: if_splits)
qed

lemma deptInv_delete:
  assumes i: "deptInv D" and c: "\<not> list_ex (\<lambda>d. d_parentId d = Some k) (rows D)"
  shows "deptInv (deleteRow k D)"
proof -
  have g: "deptParentOf (deleteRow k D) = (deptParentOf D)(k := None)"
    by (auto simp: fun_eq_iff deptParentOf_def lookup_deleteRow)
  have "d_parentId d \<noteq> Some k" if "lookup D j = Some d" for j d
    using c lookup_in_rows [OF that] by (auto simp: list_ex_iff)
  then have "deptParentOf D j \<noteq> Some k" for j by (auto simp: deptParentOf_def split: option.splits)
  then show ?thesis
    using i acyclic_clear [of "deptParentOf D" k] keyed_deleteRow unfolding deptInv_def g
    by (auto simp: lookup_deleteRow split: if_splits)
qed

end
