(* ===== verification/OrgSteps.thy ===== *)
theory OrgSteps
  imports OrgSafety
begin

text \<open>
  Every operation of the employee and department services keeps the invariant of \<open>OrgSafety\<close>,
  and so do the modules around them; \<open>org_step\<close> collects them and interprets the contract of
  a step system. \<open>terminate_cases\<close> is the shape of a termination the properties start from.
\<close>

section \<open>The operations\<close>

definition orgKept :: "'a org_state_scheme \<Rightarrow> 'a org_state_scheme \<Rightarrow> bool" where
  "orgKept s s' \<longleftrightarrow> employeesT s' = employeesT s \<and> departmentsT s' = departmentsT s \<and> historyT s' = historyT s \<and>
     set (keys (usersT s)) \<subseteq> set (keys (usersT s'))"

lemma orgInv_kept: "orgKept s s' \<Longrightarrow> orgInv s \<Longrightarrow> orgInv s'"
  unfolding orgKept_def orgInv_def using identInv_users by metis

lemma orgInv_history [simp]:
  "orgInv (addHistory hid h s) \<longleftrightarrow> orgInv s" "orgInv (s\<lparr>historyT := H\<rparr>) \<longleftrightarrow> orgInv s"
  "orgInv (s\<lparr>positionsT := P\<rparr>) \<longleftrightarrow> orgInv s" "orgInv (emitOrg ev s) \<longleftrightarrow> orgInv s"
  by (simp_all add: orgInv_def addHistory_def emitOrg_def)

lemma orgKept_refl [simp]: "orgKept s s"
  by (simp add: orgKept_def)

lemma orgKept_trans: "orgKept s s' \<Longrightarrow> orgKept s' s'' \<Longrightarrow> orgKept s s''"
  unfolding orgKept_def by auto

named_theorems org_kept \<open>operations that leave the organisation alone\<close>

lemma orgKept_frames [org_kept]:
  "orgKept s (emitOrg ev s)"
  "orgKept s (s\<lparr>positionsT := P\<rparr>)"
  "orgKept s (revokeAllForUser E now u s)"
  "orgKept s (saveUser u v s)"
  "orgKept s (invalidateAuthUser u s)"
  "orgKept s (emit e s)"
  "orgKept s (snd (issueOneTime E now oid raw u ty s))"
  by (simp_all add: orgKept_def emitOrg_def revokeAllForUser_def denySessions_def saveUser_def
      invalidateAuthUser_def emit_def issueOneTime_def Let_def)

lemma setStatus_kept: "setStatus u st a s = Inr s' \<Longrightarrow> orgKept s s'"
  by (auto simp: setStatus_def res_simps intro: orgKept_trans [OF orgKept_frames(4,5)])

lemma suspendLogin_kept: "suspendLogin E now u a s = Inr s' \<Longrightarrow> orgKept s s'"
  by (auto simp: suspendLogin_def res_simps logoutAll_def split: if_splits
      dest: setStatus_kept intro: orgKept_trans orgKept_frames(3))

lemma sendInvite_kept: "orgKept s (snd (sendInvite E now fr k u s))"
proof -
  obtain r s1 where r: "issueOneTime E now (fr_row fr) (fr_raw fr) k one_time_type.INVITE s = (r, s1)"
    by (cases "issueOneTime E now (fr_row fr) (fr_raw fr) k one_time_type.INVITE s")
  have "orgKept s s1" using orgKept_frames(7) [of s E now "fr_row fr" "fr_raw fr" k one_time_type.INVITE] r by simp
  then show ?thesis using r by (cases r) (auto simp: sendInvite_def intro: orgKept_trans [OF _ orgKept_frames(6)])
qed

lemma createInvited_kept: "createInvited k e f l rs s = Inr s' \<Longrightarrow> orgKept s s' \<and> k \<in> set (keys (usersT s'))"
  by (auto simp: createInvited_def res_simps orgKept_def)

lemma invite_kept: "orgKept s (snd (invite E now fr k e f l rs s))"
proof (cases "createInvited k e f l rs s")
  case (Inr s1)
  then have k: "orgKept s s1" using createInvited_kept by blast
  show ?thesis
  proof (cases "lookup (usersT s1) k")
    case (Some u)
    obtain r s2 where r: "sendInvite E now fr k u s1 = (r, s2)" by (cases "sendInvite E now fr k u s1")
    then have "orgKept s s2" using sendInvite_kept [of s1 E now fr k u] orgKept_trans [OF k] by simp
    then show ?thesis using Inr Some r by (cases r) (simp_all add: invite_def)
  qed (use Inr k in \<open>simp add: invite_def\<close>)
qed (simp add: invite_def)

lemma invite_known:
  fixes s :: "'a org_state_scheme"
  assumes "invite E now fr k e f l rs s = (Inr u, s')"
  shows "u = k \<and> k \<in> set (keys (usersT s'))"
proof (cases "createInvited k e f l rs s")
  case (Inr s1)
  then have k: "k \<in> set (keys (usersT s1))" using createInvited_kept by blast
  show ?thesis
  proof (cases "lookup (usersT s1) k")
    case (Some v)
    obtain r s2 where r: "sendInvite E now fr k v s1 = (r, s2)" by (cases "sendInvite E now fr k v s1")
    then have "set (keys (usersT s1)) \<subseteq> set (keys (usersT s2))"
      using sendInvite_kept [of s1 E now fr k v] by (simp add: orgKept_def)
    then show ?thesis using Inr Some r k assms by (cases r) (auto simp: invite_def)
  qed (use Inr k assms in \<open>auto simp: invite_def\<close>)
qed (use assms in \<open>simp add: invite_def\<close>)

text \<open>An update of one employee that keeps login, employment and, or moves it within the rules.\<close>

lemma orgInv_save:
  assumes i: "orgInv s" and e: "lookup (employeesT s) k = Some e"
    and f: "employed (f e) = employed e" "e_userId (f e) = e_userId e"
    and d: "lookup (departmentsT s) (e_departmentId (f e)) \<noteq> None"
    and w: "citext (e_workEmail (f e)) = citext (e_workEmail e) \<or> \<not> workEmailTaken s (e_workEmail (f e))"
    and m: "e_managerId (f e) = e_managerId e \<or> e_managerId (f e) = None \<or>
      (\<exists>m. e_managerId (f e) = Some m \<and> m \<noteq> k \<and> \<not> reaches (mgrOf (employeesT s)) m k \<and> employedIn (employeesT s) m)"
  shows "orgInv (saveEmployee k f s)"
proof -
  have "lineInv (updateRow k f (employeesT s))"
    by (rule lineInv_move [where f = f, OF _ e f(1) m]) (use i in \<open>simp add: orgInv_def\<close>)
  moreover have "identInv (keys (usersT s)) (updateRow k f (employeesT s))"
    using w identInv_update [OF _ e, of _ f] identInv_email [OF _ e, of _ f] f(2) i
    by (auto simp: orgInv_def workEmailTaken_def)
  moreover have "refInv (updateRow k f (employeesT s)) (departmentsT s)"
    by (rule refInv_update [where f = f, OF _ e f(1) d]) (use i in \<open>simp add: orgInv_def\<close>)
  ultimately show ?thesis using i by (simp add: orgInv_def saveEmployee_def)
qed

lemma orgInv_department: "orgInv s \<Longrightarrow> lookup (employeesT s) k = Some e \<Longrightarrow>
    lookup (departmentsT s) (e_departmentId e) \<noteq> None"
  unfolding orgInv_def refInv_def by blast

lemma employeeById_Inr: "employeeById s k = Inr e \<longleftrightarrow> lookup (employeesT s) k = Some e \<and> e_deletedAt e = None"
  by (auto simp: employeeById_def findEmployee_def orThrow_def split: option.splits)

lemma orgInv_find: "orgInv s \<Longrightarrow> findByUserId s u = Some (k, e) \<Longrightarrow>
    lookup (employeesT s) k = Some e \<and> e_deletedAt e = None \<and> e_userId e = Some u"
  using find_SomeD [of _ "employeesT s" "(k, e)"] keyed_lookup [of "employeesT s" k e]
  by (auto simp: findByUserId_def orgInv_def lineInv_def)

lemma applySelf_keeps [simp]:
  "employed (applySelf dto e) = employed e" "e_userId (applySelf dto e) = e_userId e"
  "e_departmentId (applySelf dto e) = e_departmentId e" "e_workEmail (applySelf dto e) = e_workEmail e"
  "e_managerId (applySelf dto e) = e_managerId e" "e_status (applySelf dto e) = e_status e"
  by (simp_all add: applySelf_def employed_def)

lemma applyProfile_keeps [simp]:
  "employed (applyProfile dto e) = employed e" "e_userId (applyProfile dto e) = e_userId e"
  "e_departmentId (applyProfile dto e) = e_departmentId e"
  "e_managerId (applyProfile dto e) = e_managerId e" "e_status (applyProfile dto e) = e_status e"
  "e_workEmail (applyProfile dto e) = patched (e_workEmail e) (ue_workEmail dto)"
  by (simp_all add: applyProfile_def applySelf_def employed_def)

lemma updateSelf_inv:
  assumes i: "orgInv s" and u: "updateSelf v dto s = Inr s'"
  shows "orgInv s'"
proof -
  obtain k e where f: "findByUserId s v = Some (k, e)" "s' = saveEmployee k (\<lambda>_. applySelf dto e) s"
    using u by (auto simp: updateSelf_def orThrow_def split: option.splits)
  note e = orgInv_find [OF i f(1)]
  show ?thesis unfolding f(2)
    by (rule orgInv_save [OF i, of k e]) (use e orgInv_department [OF i, of k e] in simp_all)
qed

lemma updateEmployee_inv:
  assumes i: "orgInv s" and u: "updateEmployee k dto s = Inr s'"
  shows "orgInv s'"
proof -
  obtain e where e: "lookup (employeesT s) k = Some e" "s' = saveEmployee k (\<lambda>_. applyProfile dto e) s"
    and w: "\<And>w. ue_workEmail dto = Some w \<Longrightarrow> w = e_workEmail e \<or> \<not> workEmailTaken s w"
    using u by (auto simp: updateEmployee_def res_simps employeeById_Inr assertWorkEmailFree_def
        throwIf_Inr_iff split: option.splits if_splits)
  show ?thesis unfolding e(2)
    by (rule orgInv_save [OF i e(1)])
      (use orgInv_department [OF i e(1)] w in \<open>auto simp: patched_def split: option.splits\<close>)
qed

lemma linkUser_inv:
  assumes i: "orgInv s" and u: "linkUser k u s = Inr s'"
  shows "orgInv s'"
proof -
  obtain e where e: "lookup (employeesT s) k = Some e" "s' = saveEmployee k (\<lambda>e. e\<lparr>e_userId := Some u\<rparr>) s"
    and n: "\<not> userLinked s u" "findUser s u \<noteq> None"
    using u by (auto simp: linkUser_def res_simps employeeById_Inr assertUserLinkable_def findById_Inr)
  have "u \<in> set (keys (usersT s))" using n(2) lookup_Some_keys by (auto simp: findUser_def split: option.splits)
  then have "identInv (keys (usersT s)) (updateRow k (\<lambda>e. e\<lparr>e_userId := Some u\<rparr>) (employeesT s))"
    using identInv_link [OF _ e(1)] n(1) i by (simp add: orgInv_def userLinked_def)
  moreover have "lineInv (updateRow k (\<lambda>e. e\<lparr>e_userId := Some u\<rparr>) (employeesT s))"
    by (rule lineInv_move [OF _ e(1)]) (use i in \<open>simp_all add: orgInv_def employed_def\<close>)
  moreover have "refInv (updateRow k (\<lambda>e. e\<lparr>e_userId := Some u\<rparr>) (employeesT s)) (departmentsT s)"
    by (rule refInv_update [OF _ e(1)])
      (use i orgInv_department [OF i e(1)] in \<open>simp_all add: orgInv_def employed_def\<close>)
  ultimately show ?thesis using i e(2) by (simp add: orgInv_def saveEmployee_def)
qed

lemma changeStatus_inv:
  assumes i: "orgInv s" and u: "changeStatus now hid k st eff nt a s = Inr s'"
  shows "orgInv s'"
proof -
  obtain e h ev where e: "lookup (employeesT s) k = Some e" "st \<in> set (statusTransitions (e_status e))"
    and s': "s' = emitOrg ev (addHistory hid h (saveEmployee k (\<lambda>e. e\<lparr>e_status := st\<rparr>) s))"
    using u by (auto simp: changeStatus_def res_simps employeeById_Inr)
  have "orgInv (saveEmployee k (\<lambda>e. e\<lparr>e_status := st\<rparr>) s)"
    by (rule orgInv_save [OF i e(1)])
      (use e(2) orgInv_department [OF i e(1)] in
        \<open>auto simp: employed_def statusTransitions_def split: employee_status.splits\<close>)
  then show ?thesis unfolding s' by simp
qed

lemma changeAssignment_inv:
  assumes i: "orgInv s" and sh: "shallow s" and u: "changeAssignment now hid k dto a s = Inr s'"
  shows "orgInv s'"
proof -
  obtain e x z where e0: "employeeById s k = Inr e"
    and d0: "(if patched (e_departmentId e) (as_departmentId dto) \<noteq> e_departmentId e
      then assertDepartmentExists s (patched (e_departmentId e) (as_departmentId dto)) else Inr ()) = Inr x"
    and m0: "(if patched (e_managerId e) (as_managerId dto) \<noteq> e_managerId e
      then whenSome (patched (e_managerId e) (as_managerId dto)) (\<lambda>m. assertManagerAssignable s m (Some k)) else Inr ()) = Inr z"
    and s0: "emitOrg (EmployeeAssignmentChanged k (as_changeType dto) (as_effectiveDate dto) hid a)
        (addHistory hid (assignmentHistory k e (patched (e_departmentId e) (as_departmentId dto))
           (patched (e_positionId e) (as_positionId dto)) (patched (e_managerId e) (as_managerId dto)) dto a now)
          (saveEmployee k (\<lambda>ea. ea\<lparr>e_departmentId := patched (e_departmentId e) (as_departmentId dto),
             e_positionId := patched (e_positionId e) (as_positionId dto),
             e_managerId := patched (e_managerId e) (as_managerId dto)\<rparr>) s)) = s'"
    using u unfolding changeAssignment_def bindE_Inr_iff Let_def throwIf_Inr_iff by auto
  define nd np nm where n: "nd = patched (e_departmentId e) (as_departmentId dto)"
    "np = patched (e_positionId e) (as_positionId dto)" "nm = patched (e_managerId e) (as_managerId dto)"
  have e: "lookup (employeesT s) k = Some e" using e0 by (simp add: employeeById_Inr)
  have d: "nd = e_departmentId e \<or> lookup (departmentsT s) nd \<noteq> None"
    using d0 unfolding n [symmetric] by (auto simp: assertDepartmentExists_def throwIf_Inr_iff split: if_splits)
  have m: "isInr (assertManagerAssignable s m (Some k))" if "nm = Some m" "nm \<noteq> e_managerId e" for m
    using m0 that unfolding n [symmetric] by (auto simp: whenSome_def)
  obtain ev h where s': "s' = emitOrg ev (addHistory hid h (saveEmployee k
      (\<lambda>e. e\<lparr>e_departmentId := nd, e_positionId := np, e_managerId := nm\<rparr>) s))"
    using s0 unfolding n [symmetric] by blast
  have "orgInv (saveEmployee k (\<lambda>e. e\<lparr>e_departmentId := nd, e_positionId := np, e_managerId := nm\<rparr>) s)"
  proof (rule orgInv_save [OF i e])
    let ?f = "\<lambda>e. e\<lparr>e_departmentId := nd, e_positionId := np, e_managerId := nm\<rparr>"
    show "lookup (departmentsT s) (e_departmentId (?f e)) \<noteq> None" using d orgInv_department [OF i e] by auto
    show "e_managerId (?f e) = e_managerId e \<or> e_managerId (?f e) = None \<or>
      (\<exists>m. e_managerId (?f e) = Some m \<and> m \<noteq> k \<and> \<not> reaches (mgrOf (employeesT s)) m k \<and> employedIn (employeesT s) m)"
    proof (cases nm)
      case (Some m)
      show ?thesis
      proof (cases "nm = e_managerId e")
        case False
        then have a: "isInr (assertManagerAssignable s m (Some k))" using m Some by blast
        then have al: "managerAllowed s k m" using sh by (simp add: managerAllowed_def)
        have "acyclicUp (managerOf s)" using i by (simp add: orgInv_def lineInv_def managerOf_mgrOf)
        then have "m \<noteq> k \<and> \<not> reaches (managerOf s) m k" using lines.allowed_sound [OF al] by blast
        then show ?thesis using a Some by (auto simp: isInr_iff assertManagerAssignable_Inr isEmployed_in managerOf_mgrOf)
      qed simp
    qed simp
  qed (simp_all add: employed_def)
  then show ?thesis unfolding s' by simp
qed

lemma terminateRows_leave: "employeesT (terminateRows now hid k e dto a s) =
      leave k (e_managerId e) (\<lambda>e. e\<lparr>e_status := TERMINATED, e_terminationDate := Some (td_terminationDate dto)\<rparr>)
        (employeesT s) \<and>
    departmentsT (terminateRows now hid k e dto a s) = dropHead k (departmentsT s) \<and>
    usersT (terminateRows now hid k e dto a s) = usersT s"
  by (simp add: terminateRows_def leave_def Let_def addHistory_def)

lemma terminateRows_inv:
  assumes i: "orgInv s" and e: "lookup (employeesT s) k = Some e" and em: "employed e"
  shows "orgInv (terminateRows now hid k e dto a s)"
proof -
  let ?f = "\<lambda>e. e\<lparr>e_status := TERMINATED, e_terminationDate := Some (td_terminationDate dto)\<rparr>"
  have ne: "\<not> employed (?f e)" by (simp add: employed_def)
  have "lineInv (leave k (e_managerId e) ?f (employeesT s))"
    by (rule lineInv_leave [where f = ?f, OF _ e em _ ne]) (use i in \<open>simp_all add: orgInv_def\<close>)
  moreover have "identInv (keys (usersT s)) (leave k (e_managerId e) ?f (employeesT s))"
    by (rule identInv_leave [where f = ?f, OF _ e]) (use i in \<open>simp_all add: orgInv_def\<close>)
  moreover have "refInv (leave k (e_managerId e) ?f (employeesT s)) (dropHead k (departmentsT s))"
    by (rule refInv_leave [where f = ?f, OF _ e ne]) (use i in \<open>simp_all add: orgInv_def\<close>)
  moreover have "deptInv (dropHead k (departmentsT s))"
    by (rule deptInv_dropHead) (use i in \<open>simp add: orgInv_def\<close>)
  ultimately show ?thesis unfolding orgInv_def by (simp add: terminateRows_leave)
qed

text \<open>Either nothing is done, or the rows are written and at most the login changes after it.\<close>

lemma terminate_cases:
  assumes "terminate E now hid k dto a s = (r, s')"
  obtains (refused) err where "r = Inl err" "s' = s"
  | (left) e where "employeeById s k = Inr e" "e_status e \<noteq> TERMINATED" "e_hireDate e \<le> td_terminationDate dto"
      "orgKept (terminateRows now hid k e dto a s) s'"
proof (cases "bindE (employeeById s k) (\<lambda>e. bindE (assertNotTerminated e) (\<lambda>_.
            throwIf (td_terminationDate dto < e_hireDate e)
              (BadRequest ''Termination date cannot precede the hire date'') (Inr e)))")
  case (Inl err)
  then show ?thesis using assms refused [of err] by (auto simp: terminate_def)
next
  case (Inr e)
  then have e: "employeeById s k = Inr e" "e_status e \<noteq> TERMINATED" "e_hireDate e \<le> td_terminationDate dto"
    by (auto simp: res_simps assertNotTerminated_def)
  have "orgKept (terminateRows now hid k e dto a s) s'"
    using assms Inr by (auto simp: terminate_def Let_def split: sum.splits option.splits if_splits
        intro: orgKept_trans [OF _ orgKept_frames(1)] suspendLogin_kept orgKept_frames(1))
  then show ?thesis using e left by blast
qed

lemma terminate_inv:
  assumes i: "orgInv s"
  shows "orgInv (snd (terminate E now hid k dto a s))"
proof -
  obtain r s' where t: "terminate E now hid k dto a s = (r, s')" by (cases "terminate E now hid k dto a s")
  from t have "orgInv s'"
  proof (cases rule: terminate_cases)
    case (left e)
    then have "employed e" "lookup (employeesT s) k = Some e" by (simp_all add: employeeById_Inr employed_def)
    then show ?thesis using left(4) terminateRows_inv [OF i] orgInv_kept by blast
  qed (use i in simp)
  then show ?thesis using t by simp
qed

lemma orgInv_hire:
  assumes i: "orgInv s" and c: "checkHire dto s = Inr x" and k: "k \<notin> set (keys (employeesT s))"
  shows "orgInv (addHistory hid h (s\<lparr>employeesT := insertRow k (newEmployee dto n) (employeesT s), numberSeq := q\<rparr>))"
proof -
  have w: "\<not> workEmailTaken s (ce_workEmail dto)" and d: "lookup (departmentsT s) (ce_departmentId dto) \<noteq> None"
    and m: "\<And>m. ce_managerId dto = Some m \<Longrightarrow> employedIn (employeesT s) m"
    and u: "\<And>u. ce_userId dto = Some u \<Longrightarrow> findUser s u \<noteq> None \<and> \<not> userLinked s u"
    using c by (auto simp: checkHire_def res_simps assertWorkEmailFree_def assertDepartmentExists_def
        throwIf_Inr_iff whenSome_def assertManagerAssignable_Inr isEmployed_in assertUserLinkable_def
        findById_Inr split: option.splits)
  have u': "v \<in> set (keys (usersT s)) \<and> \<not> list_ex (\<lambda>q. e_userId q = Some v) (rows (employeesT s))"
    if "ce_userId dto = Some v" for v
    using u [OF that] lookup_Some_keys by (auto simp: findUser_def userLinked_def split: option.splits)
  have "lineInv (insertRow k (newEmployee dto n) (employeesT s))"
    by (rule lineInv_insert [OF _ k]) (use i m in \<open>auto simp: orgInv_def newEmployee_def\<close>)
  moreover have "identInv (keys (usersT s)) (insertRow k (newEmployee dto n) (employeesT s))"
  proof (rule identInv_insert [OF _ k])
    show "identInv (keys (usersT s)) (employeesT s)" using i by (simp add: orgInv_def)
    show "\<not> list_ex (\<lambda>q. citext (e_workEmail q) = citext (e_workEmail (newEmployee dto n))) (rows (employeesT s))"
      using w by (simp add: workEmailTaken_def newEmployee_def)
    show "v \<in> set (keys (usersT s)) \<and> \<not> list_ex (\<lambda>q. e_userId q = Some v) (rows (employeesT s))"
      if "e_userId (newEmployee dto n) = Some v" for v
      using that by (intro u') (simp add: newEmployee_def)
  qed
  moreover have "refInv (insertRow k (newEmployee dto n) (employeesT s)) (departmentsT s)"
    by (rule refInv_insert [OF _ k]) (use i d in \<open>auto simp: orgInv_def newEmployee_def\<close>)
  ultimately show ?thesis using i by (simp add: orgInv_def addHistory_def)
qed

lemma createEmployee_inv:
  fixes s :: "'a org_state_scheme"
  assumes i: "orgInv s" and k: "k \<notin> set (keys (employeesT s))" and u: "newUser \<notin> set (keys (usersT s))"
  shows "orgInv (snd (createEmployee E now fr k hid newUser dto a s))"
proof (cases "checkHire dto s")
  case (Inr x)
  define h where "h = hireHistory k (newEmployee dto (nextEmployeeNumber s)) a now"
  define s1 where "s1 = addHistory hid h
      (s\<lparr>employeesT := insertRow k (newEmployee dto (nextEmployeeNumber s)) (employeesT s), numberSeq := Suc (numberSeq s)\<rparr>)"
  have i1: "orgInv s1" unfolding s1_def by (rule orgInv_hire [OF i Inr k])
  have l1: "lookup (employeesT s1) k = Some (newEmployee dto (nextEmployeeNumber s))"
    and us1: "usersT s1 = usersT s"
    using k by (simp_all add: s1_def addHistory_def lookup_insertRow)
  show ?thesis
  proof (cases "ce_inviteLogin dto")
    case None
    then have "snd (createEmployee E now fr k hid newUser dto a s) = emitOrg (EmployeeCreated k (ce_userId dto)
        (ce_hireDate dto) (ce_departmentId dto) (ce_managerId dto) a) s1"
      using Inr by (simp add: createEmployee_def Let_def s1_def h_def newEmployee_def)
    then show ?thesis using i1 orgInv_kept [OF orgKept_frames(1)] by simp
  next
    case (Some rs)
    obtain r s2 where iv: "invite E now fr newUser (ce_workEmail dto) (ce_firstName dto) (ce_lastName dto) rs s1 = (r, s2)"
      by (cases "invite E now fr newUser (ce_workEmail dto) (ce_firstName dto) (ce_lastName dto) rs s1")
    have kept: "orgKept s1 s2"
      using invite_kept [of s1 E now fr newUser "ce_workEmail dto" "ce_firstName dto" "ce_lastName dto" rs] iv by simp
    show ?thesis
    proof (cases r)
      case (Inl err)
      then have "snd (createEmployee E now fr k hid newUser dto a s) = s2"
        using Inr Some iv by (simp add: createEmployee_def Let_def s1_def h_def)
      then show ?thesis using orgInv_kept [OF kept i1] by simp
    next
      case r: (Inr v)
      have v: "v = newUser" "newUser \<in> set (keys (usersT s2))" using invite_known iv r by blast+
      have i2: "orgInv s2" by (rule orgInv_kept [OF kept i1])
      have l2: "lookup (employeesT s2) k = Some (newEmployee dto (nextEmployeeNumber s))"
        using l1 kept by (simp add: orgKept_def)
      have "e_userId q \<noteq> Some newUser" if "lookup (employeesT s2) j = Some q" for j q
        using i1 that kept u us1 unfolding orgInv_def identInv_def orgKept_def by metis
      then have nl: "\<not> list_ex (\<lambda>q. e_userId q = Some newUser) (rows (employeesT s2))"
        using rows_lookup [of "employeesT s2"] i2 unfolding list_ex_iff orgInv_def lineInv_def by blast
      let ?f = "\<lambda>e. e\<lparr>e_userId := Some newUser\<rparr>"
      have "identInv (keys (usersT s2)) (updateRow k ?f (employeesT s2))"
        by (rule identInv_link [OF _ l2 nl v(2)]) (use i2 in \<open>simp add: orgInv_def\<close>)
      moreover have "lineInv (updateRow k ?f (employeesT s2))"
        by (rule lineInv_move [where f = ?f, OF _ l2]) (use i2 in \<open>simp_all add: orgInv_def employed_def\<close>)
      moreover have "refInv (updateRow k ?f (employeesT s2)) (departmentsT s2)"
        by (rule refInv_update [where f = ?f, OF _ l2])
          (use i2 orgInv_department [OF i2 l2] in \<open>simp_all add: orgInv_def employed_def\<close>)
      ultimately have "orgInv (saveEmployee k ?f s2)" using i2 by (simp add: orgInv_def saveEmployee_def)
      moreover have "snd (createEmployee E now fr k hid newUser dto a s) = emitOrg (EmployeeCreated k (Some newUser)
        (ce_hireDate dto) (ce_departmentId dto) (ce_managerId dto) a) (saveEmployee k ?f s2)"
        using Inr Some iv r v(1) by (simp add: createEmployee_def Let_def s1_def h_def newEmployee_def)
      ultimately show ?thesis using orgInv_kept [OF orgKept_frames(1)] by simp
    qed
  qed
qed (use i in \<open>simp add: createEmployee_def\<close>)

lemma checkParent_Inr:
  assumes "checkParent s k p = Some (Inr x)" "keyed (departmentsT s)"
  shows "parentAllowed (departmentsT s) k p \<and> lookup (departmentsT s) p \<noteq> None"
  using assms by (auto simp: checkParent_def parentAllowed_def departmentById_def orThrow_def throwIf_def
      split: if_splits sum.splits option.splits)

lemma orgInv_departments:
  assumes i: "orgInv s" and d: "deptInv D"
    and h: "\<And>k d h. lookup D k = Some d \<Longrightarrow> d_headEmployeeId d = Some h \<Longrightarrow> employedIn (employeesT s) h"
    and e: "\<And>k e. lookup (employeesT s) k = Some e \<Longrightarrow> lookup D (e_departmentId e) \<noteq> None"
  shows "orgInv (s\<lparr>departmentsT := D\<rparr>)"
  using i d h e unfolding orgInv_def refInv_def by simp

lemma createDepartment_inv:
  assumes i: "orgInv s" and k: "k \<notin> set (keys (departmentsT s))" and c: "createDepartment k dto s = Inr s'"
  shows "orgInv s'"
proof -
  define d where "d = \<lparr>d_name = cd_name dto, d_code = cd_code dto, d_description = cd_description dto,
    d_parentId = cd_parentId dto, d_headEmployeeId = cd_headEmployeeId dto\<rparr>"
  have s': "s' = s\<lparr>departmentsT := insertRow k d (departmentsT s)\<rparr>"
    and p: "\<And>p. d_parentId d = Some p \<Longrightarrow> lookup (departmentsT s) p \<noteq> None"
    and h: "\<And>h. d_headEmployeeId d = Some h \<Longrightarrow> employedIn (employeesT s) h"
    using c by (auto simp: createDepartment_def d_def res_simps whenSome_def departmentById_def orThrow_def
        assertEmployeeExists_def throwIf_Inr_iff isEmployed_in split: option.splits)
  show ?thesis unfolding s'
  proof (rule orgInv_departments [OF i])
    show "deptInv (insertRow k d (departmentsT s))"
      by (rule deptInv_insert [OF _ k]) (use i p in \<open>auto simp: orgInv_def\<close>)
    show "employedIn (employeesT s) g"
      if "lookup (insertRow k d (departmentsT s)) j = Some q" "d_headEmployeeId q = Some g" for j q g
      using that h i by (auto simp: lookup_insertRow [OF k] orgInv_def refInv_def split: if_splits)
    show "lookup (insertRow k d (departmentsT s)) (e_departmentId e) \<noteq> None" if "lookup (employeesT s) j = Some e" for j e
      using orgInv_department [OF i that] by (auto simp: lookup_insertRow [OF k])
  qed
qed

lemma updateDepartment_inv:
  assumes i: "orgInv s" and u: "updateDepartment k dto s = Some (Inr s')"
  shows "orgInv s'"
proof -
  have kd: "keyed (departmentsT s)" and di: "deptInv (departmentsT s)" using i by (simp_all add: orgInv_def deptInv_def)
  obtain d0 where d0: "departmentById s k = Inr d0"
    using u by (auto simp: updateDepartment_def res_simps split: sum.splits)
  then have d: "lookup (departmentsT s) k = Some d0" by (auto simp: departmentById_def orThrow_def split: option.splits)
  define g where "g = d0
                \<lparr>d_name := patched (d_name d0) (ud_name dto), d_code := patched (d_code d0) (ud_code dto),
                 d_description := (case ud_description dto of None \<Rightarrow> d_description d0 | x \<Rightarrow> x),
                 d_parentId := patched (d_parentId d0) (ud_parentId dto),
                 d_headEmployeeId := patched (d_headEmployeeId d0) (ud_headEmployeeId dto)\<rparr>"
  obtain x y where p: "(case ud_parentId dto of
               Some (Some p) \<Rightarrow> if Some p \<noteq> d_parentId d0 then checkParent s k p else Some (Inr ())
             | _ \<Rightarrow> Some (Inr ())) = Some (Inr x)"
    and h: "(case ud_headEmployeeId dto of Some (Some h) \<Rightarrow> assertEmployeeExists s h | _ \<Rightarrow> Inr ()) = Inr y"
    and s': "s' = s\<lparr>departmentsT := updateRow k (\<lambda>_. g) (departmentsT s)\<rparr>"
    using u d0 by (auto simp: updateDepartment_def g_def res_simps split: sum.splits)
  have pg: "d_parentId g = d_parentId d0 \<or> d_parentId g = None \<or>
      (\<exists>p. d_parentId g = Some p \<and> parentAllowed (departmentsT s) k p \<and> lookup (departmentsT s) p \<noteq> None)"
    using p checkParent_Inr [OF _ kd] by (auto simp: g_def patched_def split: option.splits if_splits)
  have hg: "employedIn (employeesT s) e" if "d_headEmployeeId g = Some e" for e
    using that h i d by (auto simp: g_def patched_def assertEmployeeExists_def throwIf_Inr_iff isEmployed_in
        orgInv_def refInv_def split: option.splits)
  show ?thesis unfolding s'
  proof (rule orgInv_departments [OF i])
    show "deptInv (updateRow k (\<lambda>_. g) (departmentsT s))" by (rule deptInv_update [OF di d]) (rule pg)
    show "employedIn (employeesT s) e"
      if "lookup (updateRow k (\<lambda>_. g) (departmentsT s)) j = Some q" "d_headEmployeeId q = Some e" for j q e
      using that hg i by (auto simp: lookup_updateRow orgInv_def refInv_def split: if_splits)
    show "lookup (updateRow k (\<lambda>_. g) (departmentsT s)) (e_departmentId e) \<noteq> None" if "lookup (employeesT s) j = Some e" for j e
      using orgInv_department [OF i that] by (auto simp: lookup_updateRow)
  qed
qed

lemma removeDepartment_inv:
  assumes i: "orgInv s" and u: "removeDepartment k s = Inr s'"
  shows "orgInv s'"
proof -
  have c: "\<not> list_ex (\<lambda>d. d_parentId d = Some k) (rows (departmentsT s))"
    and e: "\<not> list_ex (\<lambda>e. e_departmentId e = k) (rows (employeesT s))"
    and s': "\<exists>P H. s' = s\<lparr>departmentsT := deleteRow k (departmentsT s)\<rparr>\<lparr>positionsT := P\<rparr>\<lparr>historyT := H\<rparr>"
    using u by (auto simp: removeDepartment_def res_simps)
  have ek: "e_departmentId q \<noteq> k" if "lookup (employeesT s) j = Some q" for j q
    using e lookup_in_rows [OF that] by (auto simp: list_ex_iff)
  have "orgInv (s\<lparr>departmentsT := deleteRow k (departmentsT s)\<rparr>)"
  proof (rule orgInv_departments [OF i])
    show "deptInv (deleteRow k (departmentsT s))" by (rule deptInv_delete) (use i c in \<open>simp_all add: orgInv_def\<close>)
    show "employedIn (employeesT s) h"
      if "lookup (deleteRow k (departmentsT s)) j = Some d" "d_headEmployeeId d = Some h" for j d h
      using that i by (auto simp: lookup_deleteRow orgInv_def refInv_def split: if_splits)
    show "lookup (deleteRow k (departmentsT s)) (e_departmentId q) \<noteq> None" if "lookup (employeesT s) j = Some q" for j q
      using ek [OF that] orgInv_department [OF i that] by (simp add: lookup_deleteRow)
  qed
  then show ?thesis using s' by auto
qed

section \<open>The reachable organisations\<close>

text \<open>
  \<open>other\<close> is anything that leaves employees and departments alone and deletes no login: the
  handlers of the sign-in, the positions, the other modules. Rows are never removed from the
  employee table.
\<close>

inductive org_step :: "('t, 'b) mfa_env_scheme \<Rightarrow> 'a org_state_scheme \<Rightarrow> 'a org_state_scheme \<Rightarrow> bool" for E where
  hire: "k \<notin> set (keys (employeesT s)) \<Longrightarrow> newUser \<notin> set (keys (usersT s)) \<Longrightarrow>
    org_step E s (snd (createEmployee E now fr k hid newUser dto a s))"
| profile: "updateEmployee k udto s = Inr s' \<Longrightarrow> org_step E s s'"
| self: "updateSelf u sdto s = Inr s' \<Longrightarrow> org_step E s s'"
| assignment: "changeAssignment now hid k adto a s = Inr s' \<Longrightarrow> org_step E s s'"
| status: "changeStatus now hid k st eff nt oa s = Inr s' \<Longrightarrow> org_step E s s'"
| leaving: "org_step E s (snd (terminate E now hid k tdto a s))"
| link: "linkUser k u s = Inr s' \<Longrightarrow> org_step E s s'"
| newDepartment: "k \<notin> set (keys (departmentsT s)) \<Longrightarrow> createDepartment k ddto s = Inr s' \<Longrightarrow> org_step E s s'"
| editDepartment: "updateDepartment k uddto s = Some (Inr s') \<Longrightarrow> org_step E s s'"
| dropDepartment: "removeDepartment k s = Inr s' \<Longrightarrow> org_step E s s'"
| other: "orgKept s s' \<Longrightarrow> org_step E s s'"

lemma org_step_inv: "org_step E s s' \<Longrightarrow> shallow s \<Longrightarrow> orgInv s \<Longrightarrow> orgInv s'"
  by (induction rule: org_step.induct)
    (auto intro: createEmployee_inv updateEmployee_inv updateSelf_inv changeAssignment_inv changeStatus_inv
      terminate_inv linkUser_inv createDepartment_inv updateDepartment_inv removeDepartment_inv orgInv_kept)

definition orgInit :: "'a org_state_scheme \<Rightarrow> bool" where
  "orgInit s \<longleftrightarrow> employeesT s = [] \<and> departmentsT s = []"

lemma orgInit_inv: "orgInit s \<Longrightarrow> orgInv s"
proof -
  assume i: "orgInit s"
  have "mgrOf [] = (\<lambda>_. None)" "deptParentOf [] = (\<lambda>_. None)"
    by (simp_all add: fun_eq_iff mgrOf_def deptParentOf_def lookup_def)
  moreover have "acyclicUp (\<lambda>_. None)" by (simp add: acyclicUp_def reaches_def)
  ultimately show ?thesis using i
    by (simp add: orgInit_def orgInv_def lineInv_def identInv_def deptInv_def refInv_def keyed_def keys_def lookup_def)
qed

interpretation org: step_system orgInit "\<lambda>s s'. shallow s \<and> org_step E s s'" orgInv
  by unfold_locales (auto intro: orgInit_inv org_step_inv)

end
