(* ===== verification/OrgProps.thy ===== *)
theory OrgProps
  imports OrgSteps
begin

text \<open>
  The properties of the organisation: reporting lines, the department tree, the employment
  history as the record of what happened, the org chart, who sees personal data, and what a
  termination takes away.
\<close>

section \<open>Reporting lines and departments\<close>

lemma small_shallow:
  assumes i: "orgInv s" and n: "length (employeesT s) \<le> 50"
  shows "shallow s"
  unfolding shallow_def
proof
  fix k
  have l: "acyclicUp (managerOf s)" using i by (simp add: orgInv_def lineInv_def managerOf_mgrOf)
  have "card (set (keys (employeesT s))) \<le> 50" using n card_length [of "keys (employeesT s)"] by (simp add: keys_def)
  moreover have "up (managerOf s) k (Suc (card (set (keys (employeesT s))))) = None"
    by (rule acyclic_terminates [OF l])
      (auto simp: managerOf_def dest: lookup_Some_keys split: option.splits)
  ultimately show "up (managerOf s) k 51 = None"
    using up_None_mono [of "managerOf s" k "Suc (card (set (keys (employeesT s))))" 51] by (simp del: up.simps)
qed

text \<open>A small organisation: a department, its head to be, and a report of hers.\<close>

definition demoDept :: create_department_dto where
  "demoDept = \<lparr>cd_name = ''Engineering'', cd_code = ''ENG'', cd_description = None, cd_parentId = None, cd_headEmployeeId = None\<rparr>"

definition demoHire :: "string \<Rightarrow> id option \<Rightarrow> create_employee_dto" where
  "demoHire nm mgr =
     \<lparr>ce_firstName = nm, ce_lastName = ''Obi'', ce_workEmail = nm, ce_personalEmail = None, ce_phone = None,
      ce_dateOfBirth = None, ce_address = None, ce_emergencyContact = None, ce_hireDate = 100,
      ce_employmentType = None, ce_status = Some ACTIVE, ce_departmentId = 1, ce_positionId = None,
      ce_managerId = mgr, ce_userId = None, ce_inviteLogin = None\<rparr>"

definition demoOrg0 :: org_state where
  "demoOrg0 = \<lparr>usersT = [], rolesT = [], permsT = [], ctxCache = (\<lambda>_. None), refreshT = [], oneTimeT = [],
     denyList = (\<lambda>_. None), auditT = [], authEvents = [], employeesT = [], historyT = [], departmentsT = [],
     positionsT = [], numberSeq = 1, orgEvents = []\<rparr>"

definition demoOrg1 :: org_state where
  "demoOrg1 = demoOrg0\<lparr>departmentsT := [(1, \<lparr>d_name = ''Engineering'', d_code = ''ENG'', d_description = None,
     d_parentId = None, d_headEmployeeId = None\<rparr>)]\<rparr>"

definition demoHired :: "id \<Rightarrow> string \<Rightarrow> id option \<Rightarrow> org_state \<Rightarrow> org_state" where
  "demoHired k nm mgr s =
     (let e = newEmployee (demoHire nm mgr) (nextEmployeeNumber s)
      in emitOrg (EmployeeCreated k None 100 1 mgr 7) (addHistory k (hireHistory k e 7 0)
           (s\<lparr>employeesT := insertRow k e (employeesT s), numberSeq := Suc (numberSeq s)\<rparr>)))"

definition demoOrg2 :: org_state where "demoOrg2 = demoHired 1 ''ada'' None demoOrg1"
definition demoOrg3 :: org_state where "demoOrg3 = demoHired 2 ''ben'' (Some 1) demoOrg2"

lemma demo_emails: "citext ''ada'' \<noteq> citext ''ben''"
  by code_simp

lemmas demo_defs = demoDept_def demoHire_def demoOrg0_def demoOrg1_def demoHired_def demoOrg2_def demoOrg3_def

lemma demo_tables:
  "employeesT demoOrg3 = [(1, newEmployee (demoHire ''ada'' None) (nextEmployeeNumber demoOrg1)),
     (2, newEmployee (demoHire ''ben'' (Some 1)) (nextEmployeeNumber demoOrg2))]"
  "employeesT demoOrg2 = [(1, newEmployee (demoHire ''ada'' None) (nextEmployeeNumber demoOrg1))]"
  "employeesT demoOrg1 = []" "employeesT demoOrg0 = []" "departmentsT demoOrg0 = []"
  "departmentsT demoOrg2 = departmentsT demoOrg1" "departmentsT demoOrg3 = departmentsT demoOrg1"
  "usersT demoOrg1 = []" "usersT demoOrg2 = []"
  by (simp_all add: demoOrg3_def demoOrg2_def demoOrg1_def demoOrg0_def demoHired_def Let_def emitOrg_def addHistory_def
      insertRow_def)

lemma demo_create: "createDepartment 1 demoDept demoOrg0 = Inr demoOrg1"
  by (simp add: createDepartment_def assertCodeFree_def whenSome_def demo_defs rows_def insertRow_def throwIf_def)

lemma demo_hire1: "createEmployee E 0 fr 1 1 9 (demoHire ''ada'' None) 7 demoOrg1 = (Inr 1, demoOrg2)"
  by (simp add: createEmployee_def checkHire_def assertWorkEmailFree_def workEmailTaken_def demo_tables rows_def
      throwIf_def assertDepartmentExists_def whenSome_def lookup_def demo_defs Let_def newEmployee_def)

lemma demo_hire2: "createEmployee E 0 fr 2 2 9 (demoHire ''ben'' (Some 1)) 7 demoOrg2 = (Inr 2, demoOrg3)"
proof -
  have "checkHire (demoHire ''ben'' (Some 1)) demoOrg2 = Inr ()"
    using demo_emails by (simp add: checkHire_def assertWorkEmailFree_def workEmailTaken_def demo_tables rows_def
      throwIf_def assertDepartmentExists_def whenSome_def lookup_def demoHire_def newEmployee_def
      assertManagerAssignable_def isEmployed_def employed_def demoOrg1_def patched_def)
  then show ?thesis
    by (simp add: createEmployee_def demoOrg3_def demoHired_def Let_def demoHire_def newEmployee_def)
qed

lemma demo_steps: "org_step E demoOrg0 demoOrg1" "org_step E demoOrg1 demoOrg2" "org_step E demoOrg2 demoOrg3"
proof -
  show "org_step E demoOrg0 demoOrg1"
    by (rule org_step.newDepartment [OF _ demo_create]) (simp add: demo_tables keys_def)
  show "org_step E demoOrg1 demoOrg2"
    by (rule org_step.hire [of 1 demoOrg1 9 E 0 undefined 1 "demoHire ''ada'' None" 7, unfolded demo_hire1 snd_conv])
      (simp_all add: demo_tables keys_def)
  show "org_step E demoOrg2 demoOrg3"
    by (rule org_step.hire [of 2 demoOrg2 9 E 0 undefined 2 "demoHire ''ben'' (Some 1)" 7, unfolded demo_hire2 snd_conv])
      (simp_all add: demo_tables keys_def)
qed

lemma demo_init: "orgInit demoOrg0"
  by (simp add: orgInit_def demo_tables)

lemma demo_path: "(\<lambda>s s'. shallow s \<and> org_step E s s')\<^sup>*\<^sup>* demoOrg0 demoOrg3" and demo_shallow: "shallow demoOrg3"
proof -
  have i0: "orgInv demoOrg0" by (rule orgInit_inv [OF demo_init])
  have s0: "shallow demoOrg0" by (rule small_shallow [OF i0]) (simp add: demo_tables)
  have i1: "orgInv demoOrg1" by (rule org_step_inv [OF demo_steps(1) s0 i0])
  have s1: "shallow demoOrg1" by (rule small_shallow [OF i1]) (simp add: demo_tables)
  have i2: "orgInv demoOrg2" by (rule org_step_inv [OF demo_steps(2) s1 i1])
  have s2: "shallow demoOrg2" by (rule small_shallow [OF i2]) (simp add: demo_tables)
  have i3: "orgInv demoOrg3" by (rule org_step_inv [OF demo_steps(3) s2 i2])
  show "shallow demoOrg3" by (rule small_shallow [OF i3]) (simp add: demo_tables)
  have "(\<lambda>s s'. shallow s \<and> org_step E s s') demoOrg0 demoOrg1" using s0 demo_steps(1) by blast
  moreover have "(\<lambda>s s'. shallow s \<and> org_step E s s') demoOrg1 demoOrg2" using s1 demo_steps(2) by blast
  moreover have "(\<lambda>s s'. shallow s \<and> org_step E s s') demoOrg2 demoOrg3" using s2 demo_steps(3) by blast
  ultimately show "(\<lambda>s s'. shallow s \<and> org_step E s s')\<^sup>*\<^sup>* demoOrg0 demoOrg3"
    by (rule rtranclp.rtrancl_into_rtrancl [OF rtranclp.rtrancl_into_rtrancl
        [OF rtranclp.rtrancl_into_rtrancl [OF rtranclp.rtrancl_refl]]])
qed

lemma demo_org_run: "(org_step E)\<^sup>*\<^sup>* demoOrg0 demoOrg3"
  using demo_steps [of E] by (meson rtranclp.rtrancl_refl rtranclp.rtrancl_into_rtrancl)



section \<open>The employment history\<close>

text \<open>The status and the department the history of an employee ends in.\<close>

definition replay :: "(employment_history \<Rightarrow> 'v option) \<Rightarrow> id \<Rightarrow> employment_history list \<Rightarrow> 'v option" where
  "replay f k hs = foldl (\<lambda>v h. if h_employeeId h = k \<and> f h \<noteq> None then f h else v) None hs"

lemma replay_snoc [simp]: "replay f k (hs @ [h]) = (if h_employeeId h = k \<and> f h \<noteq> None then f h else replay f k hs)"
  by (auto simp: replay_def)

definition recorded :: "'a org_state_scheme \<Rightarrow> bool" where
  "recorded s \<longleftrightarrow> (\<forall>k e. lookup (employeesT s) k = Some e \<longrightarrow>
     replay h_toStatus k (rows (historyT s)) = Some (e_status e) \<and>
     replay h_toDepartmentId k (rows (historyT s)) = Some (e_departmentId e))"

lemma recordedD: "recorded s \<Longrightarrow> lookup (employeesT s) k = Some e \<Longrightarrow>
    replay h_toStatus k (rows (historyT s)) = Some (e_status e) \<and>
    replay h_toDepartmentId k (rows (historyT s)) = Some (e_departmentId e)"
  unfolding recorded_def by blast

lemma recorded_kept: "orgKept s s' \<Longrightarrow> recorded s' = recorded s"
  by (simp add: recorded_def orgKept_def)

lemma recorded_emitOrg [simp]: "recorded (emitOrg ev s) = recorded s"
  by (simp add: recorded_def emitOrg_def)

lemma recorded_save:
  assumes r: "recorded s" and e: "lookup (employeesT s) k = Some e"
    and f: "e_status (f e) = e_status e" "e_departmentId (f e) = e_departmentId e"
  shows "recorded (saveEmployee k f s)"
  using r e f by (auto simp: recorded_def saveEmployee_def lookup_updateRow)

lemma recorded_change:
  assumes r: "recorded s" and e: "lookup (employeesT s) k = Some e" and h: "h_employeeId h = k"
    and st: "h_toStatus h = Some (e_status (f e)) \<or> h_toStatus h = None \<and> e_status (f e) = e_status e"
    and d: "h_toDepartmentId h = Some (e_departmentId (f e)) \<or>
      h_toDepartmentId h = None \<and> e_departmentId (f e) = e_departmentId e"
  shows "recorded (addHistory hid h (saveEmployee k f s))"
proof -
  have "replay h_toStatus j (rows (historyT s) @ [h]) = Some (e_status q) \<and>
      replay h_toDepartmentId j (rows (historyT s) @ [h]) = Some (e_departmentId q)"
    if q: "lookup (updateRow k f (employeesT s)) j = Some q" for j q
  proof (cases "j = k")
    case True
    then have "q = f e" using q e by (simp add: lookup_updateRow)
    then show ?thesis using recordedD [OF r e] True h st d by (auto split: if_splits)
  next
    case False
    then show ?thesis using q h recordedD [OF r, of j q] by (simp add: lookup_updateRow)
  qed
  then show ?thesis by (simp add: recorded_def addHistory_def saveEmployee_def)
qed

lemma recorded_terminate:
  assumes r: "recorded s" and e: "lookup (employeesT s) k = Some e"
  shows "recorded (terminateRows now hid k e dto a s)"
proof -
  let ?f = "\<lambda>e. e\<lparr>e_status := TERMINATED, e_terminationDate := Some (td_terminationDate dto)\<rparr>"
  define h where "h = (blankHistory k TERMINATION (td_terminationDate dto) (td_reason dto) (Some a) now)
    \<lparr>h_fromStatus := Some (e_status e), h_toStatus := Some TERMINATED\<rparr>"
  have h: "rows (historyT (terminateRows now hid k e dto a s)) = rows (historyT s) @ [h]"
      "h_employeeId h = k" "h_toStatus h = Some TERMINATED" "h_toDepartmentId h = None"
    by (simp_all add: h_def terminateRows_def Let_def addHistory_def blankHistory_def)
  have "replay h_toStatus j (rows (historyT s) @ [h]) = Some (e_status q) \<and>
      replay h_toDepartmentId j (rows (historyT s) @ [h]) = Some (e_departmentId q)"
    if q: "lookup (employeesT (terminateRows now hid k e dto a s)) j = Some q" for j q
  proof -
    obtain q' where q': "lookup (employeesT s) j = Some q'"
        "q = (let r' = (if j = k then ?f q' else q') in
           if e_managerId r' = Some k then r'\<lparr>e_managerId := e_managerId e\<rparr> else r')"
      using q unfolding terminateRows_leave [THEN conjunct1] lookup_leave map_option_eq_Some by blast
    then have "e_departmentId q = e_departmentId q'" "e_status q = (if j = k then TERMINATED else e_status q')"
      by (simp_all add: Let_def)
    then show ?thesis using recordedD [OF r q'(1)] h by simp
  qed
  then show ?thesis by (simp add: recorded_def h(1))
qed

text \<open>Removing a department clears it from old rows only: nobody is in it now.\<close>

lemma replay_clear:
  assumes "replay h_toDepartmentId k hs = Some d" "d \<noteq> x" and "h_toDepartmentId \<circ> g = clearRef x \<circ> h_toDepartmentId"
    and "h_employeeId \<circ> g = h_employeeId"
  shows "replay h_toDepartmentId k (List.map g hs) = Some d"
  using assms(1)
proof (induction hs rule: rev_induct)
  case (snoc h hs)
  have "h_toDepartmentId (g h) = clearRef x (h_toDepartmentId h)" "h_employeeId (g h) = h_employeeId h"
    using assms(3,4) by (metis comp_apply)+
  then show ?case using snoc assms(2) by (auto simp: clearRef_def split: if_splits)
qed (simp add: replay_def)

lemma recorded_removeDepartment:
  assumes r: "recorded s" and u: "removeDepartment x s = Inr s'"
  shows "recorded s'"
proof -
  let ?g = "\<lambda>h. h\<lparr>h_fromDepartmentId := clearRef x (h_fromDepartmentId h), h_toDepartmentId := clearRef x (h_toDepartmentId h)\<rparr>"
  have e: "\<not> list_ex (\<lambda>e. e_departmentId e = x) (rows (employeesT s))"
    and s': "employeesT s' = employeesT s" "rows (historyT s') = List.map ?g (rows (historyT s))"
    using u by (auto simp: removeDepartment_def res_simps rows_updateWhere)
  have st: "replay h_toStatus k (List.map ?g hs) = replay h_toStatus k hs" for k hs
    by (induction hs rule: rev_induct) (simp add: replay_def, auto)
  have "replay h_toDepartmentId k (List.map ?g (rows (historyT s))) = Some (e_departmentId q)"
    if q: "lookup (employeesT s) k = Some q" for k q
  proof (rule replay_clear)
    show "replay h_toDepartmentId k (rows (historyT s)) = Some (e_departmentId q)" using recordedD [OF r q] by simp
    show "e_departmentId q \<noteq> x" using e lookup_in_rows [OF q] by (auto simp: list_ex_iff)
  qed (simp_all add: fun_eq_iff)
  then show ?thesis using r s' st by (simp add: recorded_def)
qed

lemma recorded_createEmployee:
  fixes s :: "'a org_state_scheme"
  assumes r: "recorded s" and k: "k \<notin> set (keys (employeesT s))"
  shows "recorded (snd (createEmployee E now fr k hid newUser dto a s))"
proof (cases "checkHire dto s")
  case (Inr x)
  define e where "e = newEmployee dto (nextEmployeeNumber s)"
  define s1 where "s1 = addHistory hid (hireHistory k e a now)
      (s\<lparr>employeesT := insertRow k e (employeesT s), numberSeq := Suc (numberSeq s)\<rparr>)"
  have "replay h_toStatus j (rows (historyT s) @ [hireHistory k e a now]) = Some (e_status q) \<and>
      replay h_toDepartmentId j (rows (historyT s) @ [hireHistory k e a now]) = Some (e_departmentId q)"
    if q: "lookup (insertRow k e (employeesT s)) j = Some q" for j q
    using q recordedD [OF r, of j q]
    by (cases "j = k") (auto simp: lookup_insertRow [OF k] hireHistory_def blankHistory_def)
  then have r1: "recorded s1" by (simp add: recorded_def s1_def addHistory_def)
  have l1: "lookup (employeesT s1) k = Some e" by (simp add: s1_def addHistory_def lookup_insertRow [OF k])
  show ?thesis
  proof (cases "ce_inviteLogin dto")
    case None
    then show ?thesis using Inr r1
      by (simp add: createEmployee_def Let_def s1_def e_def)
  next
    case (Some rs)
    obtain y s2 where iv: "invite E now fr newUser (ce_workEmail dto) (ce_firstName dto) (ce_lastName dto) rs s1 = (y, s2)"
      by (cases "invite E now fr newUser (ce_workEmail dto) (ce_firstName dto) (ce_lastName dto) rs s1")
    have kept: "orgKept s1 s2"
      using invite_kept [of s1 E now fr newUser "ce_workEmail dto" "ce_firstName dto" "ce_lastName dto" rs] iv by simp
    then have r2: "recorded s2" "lookup (employeesT s2) k = Some e"
      using r1 l1 recorded_kept by (auto simp: orgKept_def)
    have "recorded (saveEmployee k (\<lambda>e. e\<lparr>e_userId := Some v\<rparr>) s2)" for v
      by (rule recorded_save [OF r2]) simp_all
    then show ?thesis using Inr Some iv r2
      by (cases y) (simp_all add: createEmployee_def Let_def s1_def e_def)
  qed
qed (use r in \<open>simp add: createEmployee_def\<close>)

lemma findByUserId_lookup:
  "keyed (employeesT s) \<Longrightarrow> findByUserId s u = Some (k, e) \<Longrightarrow>
     lookup (employeesT s) k = Some e \<and> e_userId e = Some u \<and> e_deletedAt e = None"
  using find_SomeD [of _ "employeesT s" "(k, e)"] keyed_lookup [of "employeesT s" k e]
  by (auto simp: findByUserId_def)

lemma updateSelf_save:
  assumes "keyed (employeesT s)" "updateSelf u dto s = Inr s'"
  obtains k e where "lookup (employeesT s) k = Some e" "s' = saveEmployee k (\<lambda>_. applySelf dto e) s"
proof -
  obtain k e where f: "findByUserId s u = Some (k, e)" "s' = saveEmployee k (\<lambda>_. applySelf dto e) s"
    using assms(2) by (auto simp: updateSelf_def orThrow_def split: option.splits)
  then show ?thesis using findByUserId_lookup [OF assms(1) f(1)] that by blast
qed

lemma recorded_changeAssignment:
  assumes r: "recorded s" and u: "changeAssignment now hid k dto a s = Inr s'"
  shows "recorded s'"
proof -
  obtain e where e: "lookup (employeesT s) k = Some e"
    and s': "s' = emitOrg (EmployeeAssignmentChanged k (as_changeType dto) (as_effectiveDate dto) hid a)
        (addHistory hid (assignmentHistory k e (patched (e_departmentId e) (as_departmentId dto))
           (patched (e_positionId e) (as_positionId dto)) (patched (e_managerId e) (as_managerId dto)) dto a now)
          (saveEmployee k (\<lambda>ea. ea\<lparr>e_departmentId := patched (e_departmentId e) (as_departmentId dto),
             e_positionId := patched (e_positionId e) (as_positionId dto),
             e_managerId := patched (e_managerId e) (as_managerId dto)\<rparr>) s))"
    using u unfolding changeAssignment_def bindE_Inr_iff Let_def throwIf_Inr_iff employeeById_Inr by auto
  show ?thesis unfolding s' recorded_emitOrg
    by (rule recorded_change [OF r e]) (simp_all add: assignmentHistory_def blankHistory_def)
qed

lemma recorded_changeStatus:
  assumes r: "recorded s" and u: "changeStatus now hid k st eff nt a s = Inr s'"
  shows "recorded s'"
proof -
  obtain e where e: "lookup (employeesT s) k = Some e"
    and s': "s' = emitOrg (EmployeeStatusChanged k (e_status e) st eff a)
       (addHistory hid ((blankHistory k STATUS_CHANGE eff nt a now)
            \<lparr>h_fromStatus := Some (e_status e), h_toStatus := Some st\<rparr>)
         (saveEmployee k (\<lambda>e. e\<lparr>e_status := st\<rparr>) s))"
    using u by (auto simp: changeStatus_def res_simps employeeById_Inr)
  show ?thesis unfolding s' recorded_emitOrg
    by (rule recorded_change [OF r e]) (simp_all add: blankHistory_def)
qed

lemma recorded_linkUser: "recorded s \<Longrightarrow> linkUser k u s = Inr s' \<Longrightarrow> recorded s'"
  by (auto simp: linkUser_def res_simps employeeById_Inr intro: recorded_save)

lemma recorded_updateEmployee: "recorded s \<Longrightarrow> updateEmployee k dto s = Inr s' \<Longrightarrow> recorded s'"
  by (auto simp: updateEmployee_def res_simps employeeById_Inr intro: recorded_save)

lemma updateDepartment_employees: "updateDepartment k dto s = Some (Inr s') \<Longrightarrow>
    employeesT s' = employeesT s \<and> historyT s' = historyT s"
  by (auto simp: updateDepartment_def res_simps split: sum.splits)

lemma createDepartment_employees: "createDepartment k dto s = Inr s' \<Longrightarrow>
    employeesT s' = employeesT s \<and> historyT s' = historyT s"
  by (auto simp: createDepartment_def res_simps)

lemma recorded_department:
  "recorded s \<Longrightarrow> updateDepartment k udto s = Some (Inr s') \<Longrightarrow> recorded s'"
  "recorded s \<Longrightarrow> createDepartment k ddto s = Inr s' \<Longrightarrow> recorded s'"
  by (auto simp: recorded_def dest: updateDepartment_employees createDepartment_employees)

lemma org_step_keys:
  "org_step E s s' \<Longrightarrow> keyed (employeesT s) \<Longrightarrow>
    keys (employeesT s') = keys (employeesT s) \<or> (\<exists>k. k \<notin> set (keys (employeesT s)) \<and> keys (employeesT s') = keys (employeesT s) @ [k])"
proof (induction rule: org_step.induct)
  case (hire k s newUser now fr hid dto a)
  show ?case
  proof (cases "checkHire dto s")
    case (Inr x)
    define e where "e = newEmployee dto (nextEmployeeNumber s)"
    define s1 where "s1 = addHistory hid (hireHistory k e a now)
      (s\<lparr>employeesT := insertRow k e (employeesT s), numberSeq := Suc (numberSeq s)\<rparr>)"
    have k1: "keys (employeesT s1) = keys (employeesT s) @ [k]" by (simp add: s1_def addHistory_def)
    have "keys (employeesT (snd (createEmployee E now fr k hid newUser dto a s))) = keys (employeesT s) @ [k]"
    proof (cases "ce_inviteLogin dto")
      case None
      then show ?thesis using Inr k1 by (simp add: createEmployee_def Let_def s1_def e_def emitOrg_def)
    next
      case (Some rs)
      obtain y s2 where iv: "invite E now fr newUser (ce_workEmail dto) (ce_firstName dto) (ce_lastName dto) rs s1 = (y, s2)"
        by (cases "invite E now fr newUser (ce_workEmail dto) (ce_firstName dto) (ce_lastName dto) rs s1")
      then have "employeesT s2 = employeesT s1"
        using invite_kept [of s1 E now fr newUser "ce_workEmail dto" "ce_firstName dto" "ce_lastName dto" rs]
        by (simp add: orgKept_def)
      then show ?thesis using Inr Some iv k1
        by (cases y) (simp_all add: createEmployee_def Let_def s1_def e_def saveEmployee_def emitOrg_def)
    qed
    then show ?thesis using hire(1) by blast
  qed (simp add: createEmployee_def)
next
  case (self u sdto s s')
  obtain k e where "s' = saveEmployee k (\<lambda>_. applySelf sdto e) s" by (rule updateSelf_save [OF self(2,1)])
  then show ?case by (simp add: saveEmployee_def)
next
  case (leaving s now hid k tdto a)
  obtain r s' where t: "terminate E now hid k tdto a s = (r, s')" by (cases "terminate E now hid k tdto a s")
  have "keys (employeesT s') = keys (employeesT s)"
    by (rule terminate_cases [OF t]) (simp_all add: orgKept_def terminateRows_leave leave_def)
  then show ?case using t by simp
qed (auto simp: updateEmployee_def changeAssignment_def changeStatus_def linkUser_def removeDepartment_def res_simps Let_def
    saveEmployee_def emitOrg_def addHistory_def orgKept_def dest: updateDepartment_employees createDepartment_employees)

lemma org_step_recorded: "org_step E s s' \<Longrightarrow> keyed (employeesT s) \<Longrightarrow> recorded s \<Longrightarrow> recorded s'"
proof (induction rule: org_step.induct)
  case (self u sdto s s')
  obtain k e where "lookup (employeesT s) k = Some e" "s' = saveEmployee k (\<lambda>_. applySelf sdto e) s"
    by (rule updateSelf_save [OF self(2,1)])
  then show ?case using recorded_save [OF self(3)] by simp
next
  case (leaving s now hid k tdto a)
  obtain r s' where t: "terminate E now hid k tdto a s = (r, s')" by (cases "terminate E now hid k tdto a s")
  from t have "recorded s'"
  proof (cases rule: terminate_cases)
    case (left e)
    then have "lookup (employeesT s) k = Some e" by (simp add: employeeById_Inr)
    then show ?thesis using recorded_terminate [OF leaving(2)] recorded_kept [OF left(4)] by blast
  qed (use leaving(2) in simp)
  then show ?case using t by simp
qed (auto intro: recorded_createEmployee recorded_updateEmployee recorded_changeAssignment recorded_changeStatus
    recorded_linkUser recorded_removeDepartment recorded_department dest: recorded_kept)

interpretation history: step_system orgInit "org_step E" "\<lambda>s. keyed (employeesT s) \<and> recorded s"
proof
  show "orgInit s \<Longrightarrow> keyed (employeesT s) \<and> recorded s" for s :: "'a org_state_scheme"
    by (simp add: orgInit_def keyed_def keys_def recorded_def lookup_def)
  show "keyed (employeesT s') \<and> recorded s'" if "keyed (employeesT s) \<and> recorded s" "org_step E s s'"
    for s s' :: "'a org_state_scheme"
    using that org_step_keys [of E s s'] org_step_recorded [of E s s'] by (auto simp: keyed_def)
qed

text \<open>
  C14. The employment history is complete for status and department: in every reachable state
  the last change recorded for an employee is the status, and the department, of the row. An
  employee row is never lost.
\<close>

theorem history_replays:
  assumes "orgInit s0" and "(org_step E)\<^sup>*\<^sup>* s0 s" and "lookup (employeesT s) k = Some e"
  shows "replay h_toStatus k (rows (historyT s)) = Some (e_status e) \<and>
    replay h_toDepartmentId k (rows (historyT s)) = Some (e_departmentId e)"
  using history.reach_inv [OF assms(1,2)] recordedD assms(3) by blast

theorem history_replays_witness:
  "replay h_toStatus 2 (rows (historyT demoOrg3)) = Some ACTIVE \<and>
   replay h_toDepartmentId 2 (rows (historyT demoOrg3)) = Some 1"
  using history_replays [OF demo_init demo_org_run, where k = 2]
  by (simp add: demo_tables lookup_def newEmployee_def demoHire_def patched_def)

section \<open>The life of an employment\<close>

definition lawfulChange :: "employee_status \<Rightarrow> employee_status \<Rightarrow> bool" where
  "lawfulChange a b \<longleftrightarrow> a = b \<or> (a, b) \<in> {(ONBOARDING, ACTIVE), (ACTIVE, ON_LEAVE), (ON_LEAVE, ACTIVE)} \<or>
     (b = TERMINATED \<and> a \<noteq> TERMINATED)"

lemma lawful_refl [simp]: "lawfulChange a a"
  by (simp add: lawfulChange_def)

definition lawfulStep :: "'a org_state_scheme \<Rightarrow> 'a org_state_scheme \<Rightarrow> bool" where
  "lawfulStep s s' \<longleftrightarrow> (\<forall>k e. lookup (employeesT s) k = Some e \<longrightarrow>
     (\<exists>e'. lookup (employeesT s') k = Some e' \<and> lawfulChange (e_status e) (e_status e')))"

lemma lawful_same: "employeesT s' = employeesT s \<Longrightarrow> lawfulStep s s'"
  by (simp add: lawfulStep_def)

lemma lawful_save:
  assumes "lookup (employeesT s) k = Some e" "lawfulChange (e_status e) (e_status (f e))"
  shows "lawfulStep s (saveEmployee k f s)"
  using assms by (auto simp: lawfulStep_def saveEmployee_def lookup_updateRow)

lemma lawful_then: "lawfulStep s s' \<Longrightarrow> employeesT s'' = employeesT s' \<Longrightarrow> lawfulStep s s''"
  by (simp add: lawfulStep_def)

lemma org_step_lawful: "org_step E s s' \<Longrightarrow> keyed (employeesT s) \<Longrightarrow> lawfulStep s s'"
proof (induction rule: org_step.induct)
  case (hire k s newUser now fr hid dto a)
  show ?case
  proof (cases "checkHire dto s")
    case (Inr x)
    define e where "e = newEmployee dto (nextEmployeeNumber s)"
    define s1 where "s1 = addHistory hid (hireHistory k e a now)
      (s\<lparr>employeesT := insertRow k e (employeesT s), numberSeq := Suc (numberSeq s)\<rparr>)"
    have l1: "lookup (employeesT s1) j = (if j = k then Some e else lookup (employeesT s) j)" for j
      by (simp add: s1_def addHistory_def lookup_insertRow [OF hire(1)])
    have nk: "lookup (employeesT s) k = None" using hire(1) by (simp add: lookup_None_iff)
    have "\<And>j. j \<noteq> k \<Longrightarrow> lookup (employeesT (snd (createEmployee E now fr k hid newUser dto a s))) j = lookup (employeesT s) j"
    proof (cases "ce_inviteLogin dto")
      case None
      fix j assume "j \<noteq> k"
      then show "lookup (employeesT (snd (createEmployee E now fr k hid newUser dto a s))) j = lookup (employeesT s) j"
        using None Inr l1 [of j] by (simp add: createEmployee_def Let_def s1_def e_def emitOrg_def)
    next
      case (Some rs)
      fix j assume j: "j \<noteq> k"
      obtain y s2 where iv: "invite E now fr newUser (ce_workEmail dto) (ce_firstName dto) (ce_lastName dto) rs s1 = (y, s2)"
        by (cases "invite E now fr newUser (ce_workEmail dto) (ce_firstName dto) (ce_lastName dto) rs s1")
      then have "employeesT s2 = employeesT s1"
        using invite_kept [of s1 E now fr newUser "ce_workEmail dto" "ce_firstName dto" "ce_lastName dto" rs]
        by (simp add: orgKept_def)
      then show "lookup (employeesT (snd (createEmployee E now fr k hid newUser dto a s))) j = lookup (employeesT s) j"
        using Inr Some iv l1 [of j] j
        by (cases y) (simp_all add: createEmployee_def Let_def s1_def e_def saveEmployee_def emitOrg_def lookup_updateRow)
    qed
    then show ?thesis unfolding lawfulStep_def using nk by (metis lawful_refl option.distinct(1))
  qed (simp add: createEmployee_def lawfulStep_def)
next
  case (self u sdto s s')
  obtain k e where "lookup (employeesT s) k = Some e" "s' = saveEmployee k (\<lambda>_. applySelf sdto e) s"
    by (rule updateSelf_save [OF self(2,1)])
  then show ?case by (auto intro: lawful_save)
next
  case (assignment now hid k adto a s s')
  then show ?case unfolding changeAssignment_def bindE_Inr_iff Let_def throwIf_Inr_iff employeeById_Inr
    by (auto simp: emitOrg_def addHistory_def intro!: lawful_then [OF lawful_save [of s k]])
next
  case (status now hid k st eff nt oa s s')
  then obtain e ev h where e: "lookup (employeesT s) k = Some e" "st \<in> set (statusTransitions (e_status e))"
    and s': "s' = emitOrg ev (addHistory hid h (saveEmployee k (\<lambda>e. e\<lparr>e_status := st\<rparr>) s))"
    by (auto simp: changeStatus_def res_simps employeeById_Inr)
  have "lawfulStep s (saveEmployee k (\<lambda>e. e\<lparr>e_status := st\<rparr>) s)"
    by (rule lawful_save [OF e(1)])
      (use e(2) in \<open>auto simp: lawfulChange_def statusTransitions_def split: employee_status.splits\<close>)
  then show ?case unfolding s' by (rule lawful_then) (simp add: emitOrg_def addHistory_def)
next
  case (leaving s now hid k tdto a)
  obtain r s' where t: "terminate E now hid k tdto a s = (r, s')" by (cases "terminate E now hid k tdto a s")
  from t have "lawfulStep s s'"
  proof (cases rule: terminate_cases)
    case (left e)
    have "lawfulStep s (terminateRows now hid k e tdto a s)"
      using left(1,2) unfolding lawfulStep_def
      by (auto simp: terminateRows_leave lookup_leave Let_def lawfulChange_def employeeById_Inr)
    then show ?thesis by (rule lawful_then) (use left(4) in \<open>simp add: orgKept_def\<close>)
  qed (simp add: lawful_same)
  then show ?case using t by simp
next
  case (link k u s s')
  then show ?case by (auto simp: linkUser_def res_simps employeeById_Inr intro: lawful_save)
next
  case (profile k udto s s')
  then show ?case by (auto simp: updateEmployee_def res_simps employeeById_Inr intro: lawful_save)
qed (auto simp: removeDepartment_def res_simps orgKept_def intro!: lawful_same
    dest: updateDepartment_employees createDepartment_employees)

text \<open>
  C20. The life of an employment: from one operation to the next an employee stays, and a
  status changes only along the documented transitions or to \<open>TERMINATED\<close>; whoever is
  terminated in some reachable state is terminated in every later one.
\<close>

theorem employment_lifecycle:
  assumes "orgInit s0" and "(org_step E)\<^sup>*\<^sup>* s0 s" and "lookup (employeesT s) k = Some e"
  shows "(\<forall>s'. org_step E s s' \<longrightarrow>
      (\<exists>e'. lookup (employeesT s') k = Some e' \<and> lawfulChange (e_status e) (e_status e'))) \<and>
    (\<forall>s'. (org_step E)\<^sup>*\<^sup>* s s' \<longrightarrow> e_status e = TERMINATED \<longrightarrow>
      (\<exists>e'. lookup (employeesT s') k = Some e' \<and> e_status e' = TERMINATED))"
proof -
  have i: "keyed (employeesT s) \<and> recorded s" by (rule history.reach_inv [OF assms(1,2)])
  have "\<exists>e'. lookup (employeesT s') k = Some e' \<and> e_status e' = TERMINATED"
    if "(org_step E)\<^sup>*\<^sup>* s s'" "e_status e = TERMINATED" for s'
    using that(1)
  proof (induction rule: rtranclp_induct)
    case base
    then show ?case using assms(3) that(2) by blast
  next
    case (step u v)
    then obtain f where f: "lookup (employeesT u) k = Some f" "e_status f = TERMINATED" by blast
    have "keyed (employeesT u)" using history.inv_steps [OF step(1) i] by blast
    then obtain g where "lookup (employeesT v) k = Some g" "lawfulChange (e_status f) (e_status g)"
      using org_step_lawful [OF step(2)] f(1) unfolding lawfulStep_def by blast
    then show ?case using f(2) by (auto simp: lawfulChange_def)
  qed
  then show ?thesis using org_step_lawful i assms(3) unfolding lawfulStep_def by blast
qed

theorem employment_lifecycle_witness:
  "\<exists>e. lookup (employeesT demoOrg3) 1 = Some e \<and> e_status e = ACTIVE \<and>
     (\<exists>e'. lookup (employeesT demoOrg3) 1 = Some e' \<and> lawfulChange ACTIVE (e_status e'))"
proof -
  have l: "lookup (employeesT demoOrg2) 1 = Some (newEmployee (demoHire ''ada'' None) (nextEmployeeNumber demoOrg1))"
    by (simp add: demo_tables lookup_def)
  have "(org_step E)\<^sup>*\<^sup>* demoOrg0 demoOrg2" for E :: "(nat, 'b) mfa_env_scheme"
    using demo_steps [of E] by (meson rtranclp.rtrancl_refl rtranclp.rtrancl_into_rtrancl)
  from employment_lifecycle [OF demo_init this l] demo_steps(3)
  show ?thesis by (auto simp: demo_tables lookup_def newEmployee_def demoHire_def patched_def)
qed

end
