(* ===== verification/OrgViews.thy ===== *)
theory OrgViews
  imports OrgProps
begin

text \<open>
  What the organisation shows and what a termination takes away: the org chart, the access to
  personal data along reporting lines, the department tree, and the effects of a termination
  across employees, departments and the login.
\<close>

section \<open>The org chart\<close>

text \<open>The line of the chart: employed people under their managers.\<close>

definition chartLine :: "employee \<Rightarrow> id option" where
  "chartLine e = (if employed e then e_managerId e else None)"

definition activeLine :: "employee table \<Rightarrow> parents" where
  "activeLine T k = (if employedIn T k then mgrOf T k else None)"

lemma chartLine_parent: "rowParent chartLine T = activeLine T"
  by (simp add: fun_eq_iff rowParent_def chartLine_def activeLine_def employedIn_def mgrOf_def split: option.splits)

lemma treeRows_levels: "treeRows T n level = levels (nextLevel chartLine T) n level"
proof (induction T n level rule: treeRows.induct)
  case (2 T n level)
  have "(employed e \<and> e_managerId e = Some t) \<longleftrightarrow> chartLine e = Some t" for e t by (simp add: chartLine_def)
  then show ?case using 2 by (simp add: nextLevel_def)
qed simp

lemmas chart_facts = tree.set_levels [where f = chartLine, unfolded chartLine_parent]
  tree.distinct_levels [where f = chartLine, unfolded chartLine_parent]

lemma up_activeLine:
  assumes "lineInv T" "employedIn T k"
  shows "up (activeLine T) k n = up (mgrOf T) k n \<and> (\<forall>j. up (mgrOf T) k n = Some j \<longrightarrow> employedIn T j)"
proof (induction n)
  case (Suc n)
  show ?case
  proof (cases "up (mgrOf T) k n")
    case None
    then show ?thesis using Suc up_None_mono [of "mgrOf T" k n "Suc n"] up_None_mono [of "activeLine T" k n "Suc n"]
      by (simp del: up.simps)
  next
    case (Some j)
    then have j: "employedIn T j" "up (activeLine T) k n = Some j" using Suc by simp_all
    then have "activeLine T j = mgrOf T j" by (simp add: activeLine_def)
    moreover have "employedIn T m" if "mgrOf T j = Some m" for m
      using assms(1) that j(1) unfolding lineInv_def by blast
    ultimately show ?thesis using Some j(2) unfolding up_Suc_end by simp
  qed
qed (use assms in simp)

lemma line_top:
  assumes "up p k n = None"
  shows "\<exists>i<n. \<exists>t. up p k i = Some t \<and> p t = None"
  using assms
proof (induction n)
  case (Suc n)
  show ?case
  proof (cases "up p k n")
    case None
    then show ?thesis using Suc.IH less_SucI by blast
  next
    case (Some t)
    then show ?thesis using Suc.prems unfolding up_Suc_end by auto
  qed
qed simp

lemma set_byName [simp]: "set (byName es) = set es"
  by (simp add: byName_def)

lemma distinct_byName: "distinct (List.map fst es) \<Longrightarrow> distinct (List.map fst (byName es))"
proof -
  have "mset (byName es) = mset es" by (simp add: byName_def)
  then have "mset (List.map fst (byName es)) = mset (List.map fst es)" by simp
  then show "distinct (List.map fst es) \<Longrightarrow> distinct (List.map fst (byName es))" using mset_eq_imp_distinct_iff by blast
qed

lemma orgRows_chart:
  assumes i: "orgInv s" and sh: "shallow s"
  shows "distinct (List.map fst (orgRows None s)) \<and>
    (\<forall>k e. (k, e) \<in> set (orgRows None s) \<longleftrightarrow> lookup (employeesT s) k = Some e \<and> employed e)"
proof -
  let ?T = "employeesT s"
  let ?R = "orgRoots None ?T"
  have l: "lineInv ?T" and kd: "keyed ?T" using i by (simp_all add: orgInv_def lineInv_def)
  have rt: "r \<in> set ?R \<longleftrightarrow> employedIn ?T r \<and> mgrOf ?T r = None" for r
    using row_lookup [OF kd] by (force simp: orgRoots_def employedIn_def mgrOf_def split: option.splits)
  have dr: "distinct ?R" using kd by (simp add: orgRoots_def keyed_def keys_def distinct_map_filter)
  have a: "acyclicUp (activeLine ?T)"
  proof -
    have sub: "up (activeLine ?T) k n = Some m \<Longrightarrow> up (mgrOf ?T) k n = Some m" for k n m
      by (induction n arbitrary: k) (auto simp: activeLine_def split: option.splits if_splits)
    show ?thesis using l sub unfolding acyclicUp_def reaches_def lineInv_def by blast
  qed
  have dt: "distinct (treeRows ?T 50 ?R)"
    unfolding treeRows_levels
  proof (rule chart_facts(2) [OF kd a dr])
    fix x y assume "x \<in> set ?R" "y \<in> set ?R"
    then show "\<not> reaches (activeLine ?T) x y"
      using reaches_cases [of "activeLine ?T" x y] rt by (auto simp: activeLine_def)
  qed
  have mem: "k \<in> set (treeRows ?T 50 ?R) \<longleftrightarrow> employedIn ?T k" for k
  proof
    assume "k \<in> set (treeRows ?T 50 ?R)"
    then obtain j t where t: "t \<in> set ?R" "up (activeLine ?T) k j = Some t" 
      unfolding treeRows_levels using chart_facts(1) [OF kd] by blast
    then show "employedIn ?T k" using rt by (cases j) (auto simp: activeLine_def split: option.splits if_splits)
  next
    assume e: "employedIn ?T k"
    have "up (mgrOf ?T) k 51 = None" using sh by (simp add: shallow_def managerOf_mgrOf)
    then obtain j t where j: "j < 51" "up (mgrOf ?T) k j = Some t" "mgrOf ?T t = None" using line_top by blast
    then have "up (activeLine ?T) k j = Some t" "t \<in> set ?R" using up_activeLine [OF l e, of j] rt by auto
    moreover have "j \<le> 50" using j(1) by simp
    ultimately show "k \<in> set (treeRows ?T 50 ?R)" 
      unfolding treeRows_levels chart_facts(1) [OF kd] by blast
  qed
  let ?f = "\<lambda>k. case lookup ?T k of None \<Rightarrow> []
     | Some e \<Rightarrow> if lookup (departmentsT s) (e_departmentId e) = None then [] else [(k, e)]"
  have f: "?f k = (case lookup ?T k of None \<Rightarrow> [] | Some e \<Rightarrow> [(k, e)])" for k
    using orgInv_department [OF i, of k] by (auto split: option.splits)
  have fst: "List.map fst (List.concat (List.map ?f ks)) = List.filter (\<lambda>k. lookup ?T k \<noteq> None) ks" for ks
    unfolding f by (induction ks) (auto split: option.splits)
  have rows: "orgRows None s = byName (List.concat (List.map ?f (treeRows ?T 50 ?R)))"
    by (simp add: orgRows_def)
  have "distinct (List.map fst (orgRows None s))"
    unfolding rows by (rule distinct_byName) (simp only: fst distinct_filter dt)
  moreover have "(k, e) \<in> set (orgRows None s) \<longleftrightarrow> lookup ?T k = Some e \<and> employed e" for k e
    unfolding rows set_byName f using mem [of k] by (auto simp: employedIn_def split: option.splits)
  ultimately show ?thesis by blast
qed

text \<open>
  The org chart of a reachable organisation shows everyone employed exactly once: the
  nodes are the employed rows without repetition, the roots are those without a manager, and
  everyone else hangs under the one node of his manager.
\<close>

theorem org_chart_complete:
  assumes "orgInit s0" and "(\<lambda>s s'. shallow s \<and> org_step E s s')\<^sup>*\<^sup>* s0 s" and sh: "shallow s"
  shows "\<exists>tops nodes. orgChart None s = Inr (tops, nodes) \<and> distinct (List.map fst nodes) \<and>
    (\<forall>k. k \<in> fst ` set nodes \<longleftrightarrow> isEmployed s k) \<and>
    (\<forall>k. k \<in> set tops \<longleftrightarrow> isEmployed s k \<and> managerOf s k = None) \<and>
    (\<forall>m n k. (m, n) \<in> set nodes \<longrightarrow> (k \<in> set (on_children n) \<longleftrightarrow> isEmployed s k \<and> managerOf s k = Some m))"
proof -
  have i: "orgInv s" by (rule org.reach_inv [OF assms(1,2)])
  let ?rs = "orgRows None s"
  have d: "distinct (List.map fst ?rs)"
    and m: "(k, e) \<in> set ?rs \<longleftrightarrow> lookup (employeesT s) k = Some e \<and> employed e" for k e
    using orgRows_chart [OF i sh] by blast+
  have mk: "k \<in> fst ` set ?rs \<longleftrightarrow> isEmployed s k" for k
    using m by (force simp: isEmployed_def split: option.splits)
  have up: "isEmployed s j" if "(k, e) \<in> set ?rs" "e_managerId e = Some j" for k e j
  proof -
    have "mgrOf (employeesT s) k = Some j" "employedIn (employeesT s) k"
      using that m by (simp_all add: mgrOf_def employedIn_def)
    then show ?thesis using i unfolding orgInv_def lineInv_def isEmployed_in by blast
  qed
  have par: "orgParent None ?rs q = managerOf s (fst q)" if "q \<in> set ?rs" for q
    using that up [of "fst q" "snd q"] m [of "fst q" "snd q"] mk
    by (auto simp: orgParent_def managerOf_def split: option.splits)
  have kids: "k \<in> fst ` {q \<in> set ?rs. orgParent None ?rs q = x} \<longleftrightarrow> isEmployed s k \<and> managerOf s k = x" for k x
  proof
    assume "k \<in> fst ` {q \<in> set ?rs. orgParent None ?rs q = x}"
    then show "isEmployed s k \<and> managerOf s k = x" using par mk by auto
  next
    assume k: "isEmployed s k \<and> managerOf s k = x"
    then obtain e where e: "(k, e) \<in> set ?rs" using mk by force
    then show "k \<in> fst ` {q \<in> set ?rs. orgParent None ?rs q = x}" using par [OF e] k by force
  qed
  let ?tops = "List.map fst (List.filter (\<lambda>q. orgParent None ?rs q = None) ?rs)"
  let ?nodes = "List.map (\<lambda>r. (fst r, orgNode None s ?rs r)) ?rs"
  have "orgChart None s = Inr (?tops, ?nodes)" by (simp add: orgChart_def Let_def)
  moreover have "distinct (List.map fst ?nodes)" using d by (simp add: comp_def)
  moreover have "k \<in> fst ` set ?nodes \<longleftrightarrow> isEmployed s k" for k using mk by (force simp: image_image)
  moreover have "k \<in> set ?tops \<longleftrightarrow> isEmployed s k \<and> managerOf s k = None" for k using kids [of k None] by simp
  moreover have "k \<in> set (on_children n) \<longleftrightarrow> isEmployed s k \<and> managerOf s k = Some x"
    if "(x, n) \<in> set ?nodes" for x n k
  proof -
    have "on_children n = List.map fst (List.filter (\<lambda>q. orgParent None ?rs q = Some x) ?rs)"
      using that by (auto simp: orgNode_def)
    then show ?thesis using kids [of k "Some x"] by simp
  qed
  ultimately show ?thesis by blast
qed

theorem org_chart_complete_witness:
  "\<exists>tops nodes. orgChart None demoOrg3 = Inr (tops, nodes) \<and> 1 \<in> set tops \<and> 2 \<notin> set tops"
proof -
  have "isEmployed demoOrg3 1" "managerOf demoOrg3 1 = None" "managerOf demoOrg3 2 = Some 1"
    by (simp_all add: isEmployed_def managerOf_def demo_tables lookup_def employed_def newEmployee_def demoHire_def patched_def)
  then show ?thesis using org_chart_complete [OF demo_init demo_path demo_shallow] by auto
qed

section \<open>Who sees personal data\<close>

definition inLineAbove :: "'a org_state_scheme \<Rightarrow> id \<Rightarrow> id \<Rightarrow> bool" where
  "inLineAbove s u k \<longleftrightarrow> (\<exists>me f. findByUserId s u = Some (me, f) \<and> me \<noteq> k \<and> reaches (managerOf s) k me)"

lemma canSeeFull_line:
  assumes "shallow s"
  shows "canSeeFull s actor k e \<longleftrightarrow> EMPLOYEE_READ \<in> set (au_permissions actor) \<or>
    e_userId e = Some (au_id actor) \<or> inLineAbove s (au_id actor) k"
proof -
  have "isInReportingChain s me k \<longleftrightarrow> me \<noteq> k \<and> reaches (managerOf s) k me" for me
    using chain_sound chain_complete [OF assms, of k me] by (auto simp: isInReportingChain_def)
  then show ?thesis by (auto simp: canSeeFull_def inLineAbove_def split: option.splits)
qed


definition demoActor :: auth_user where
  "demoActor = \<lparr>au_id = 5, au_email = ''x'', au_status = user_status.ACTIVE, au_roles = [], au_permissions = [],
     au_passwordChangedAt = None, au_mfaEnabled = False\<rparr>"


text \<open>
  The groups of the request hold for the nested manager too: whoever gets the full view of a
  report gets the personal part of the manager, seen by nobody but HR, himself and his own
  managers according to the rule above.
\<close>

lemma manager_personal_exposed:
  assumes "findEmployee s k = Some e" "e_managerId e = Some m" "findEmployee s m = Some r"
    and "e_userId e = Some (au_id actor)"
  shows "\<exists>v mv. getEmployee actor k s = Inr v \<and> ev_manager v = Some mv \<and> ev_personal mv = Some (personalOf r)"
  using assms by (simp add: getEmployee_def employeeById_def orThrow_def serialise_def plainView_def canSeeFull_def)

text \<open>
  The check of a new manager follows 50 managers and no more: above that depth it lets an
  employee be put under one of his own reports.
\<close>

lemma deep_cycle_accepted:
  assumes "isEmployed s m" "m \<noteq> k" "\<And>i. i < 50 \<Longrightarrow> up (managerOf s) m (Suc i) \<noteq> Some k"
  shows "assertManagerAssignable s m (Some k) = Inr ()"
  using assms by (auto simp: assertManagerAssignable_Inr isInReportingChain_def set_chainUp simp del: up.simps)

section \<open>The department tree\<close>

lemma checkParent_ends:
  assumes "orgInv s"
  shows "checkParent s k p \<noteq> None"
proof -
  have "keyed (departmentsT s)" "acyclicUp (deptParentOf (departmentsT s))"
    using assms by (simp_all add: orgInv_def deptInv_def)
  then show ?thesis using isDescendant_exact [of "departmentsT s" p k]
    by (simp add: checkParent_def split: sum.splits)
qed

lemma updateDepartment_shape:
  assumes "lookup (departmentsT s) k = Some d"
  shows "updateDepartment k dto s =
    (case (case ud_code dto of None \<Rightarrow> Inr () | Some c \<Rightarrow> if c \<noteq> d_code d then assertCodeFree s c else Inr ()) of
       Inl e \<Rightarrow> Some (Inl e)
     | Inr _ \<Rightarrow> map_option (\<lambda>r.
             bindE r (\<lambda>_.
             bindE (case ud_headEmployeeId dto of Some (Some h) \<Rightarrow> assertEmployeeExists s h | _ \<Rightarrow> Inr ()) (\<lambda>_.
             Inr (s\<lparr>departmentsT := updateRow k (\<lambda>_. d
                \<lparr>d_name := patched (d_name d) (ud_name dto), d_code := patched (d_code d) (ud_code dto),
                 d_description := (case ud_description dto of None \<Rightarrow> d_description d | x \<Rightarrow> x),
                 d_parentId := patched (d_parentId d) (ud_parentId dto),
                 d_headEmployeeId := patched (d_headEmployeeId d) (ud_headEmployeeId dto)\<rparr>)
                (departmentsT s)\<rparr>))))
            (case ud_parentId dto of
               Some (Some p) \<Rightarrow> if Some p \<noteq> d_parentId d then checkParent s k p else Some (Inr ())
             | _ \<Rightarrow> Some (Inr ())))"
  using assms by (simp add: updateDepartment_def departmentById_def orThrow_def bindE_def split: sum.splits option.splits)



section \<open>Termination\<close>

lemma findUser_setStatus: "setStatus u st a s = Inr s' \<Longrightarrow> \<exists>v. findUser s' u = Some v \<and> u_status v = st"
  by (auto simp: setStatus_def res_simps findById_Inr findUser_def saveUser_def invalidateAuthUser_def lookup_updateRow
      split: option.splits if_splits)

lemma suspendLogin_effect:
  assumes "suspendLogin E now u a s = Inr s'"
  shows "(\<exists>v. findUser s' u = Some v \<and> u_status v \<noteq> user_status.ACTIVE) \<and>
    (\<forall>v. findUser s u = Some v \<longrightarrow> u_status v = user_status.ACTIVE \<longrightarrow>
      (\<forall>rid r. lookup (refreshT s') rid = Some r \<longrightarrow> rt_userId r = u \<longrightarrow> rt_revokedAt r \<noteq> None))"
proof -
  obtain v where v: "findUser s u = Some v" using assms by (auto simp: suspendLogin_def res_simps findById_Inr)
  show ?thesis
  proof (cases "u_status v = user_status.ACTIVE")
    case True
    then obtain s1 where s1: "setStatus u SUSPENDED a s = Inr s1" "s' = revokeAllForUser E now u s1"
      using assms v by (auto simp: suspendLogin_def res_simps findById_Inr logoutAll_def)
    have "findUser s' u = findUser s1 u" unfolding s1(2)
      by (rule findUser_sameUsers) (rule sameUsers_revokeAll)
    then have "\<exists>w. findUser s' u = Some w \<and> u_status w \<noteq> user_status.ACTIVE"
      using findUser_setStatus [OF s1(1)] by auto
    moreover have "rt_revokedAt r \<noteq> None" if "lookup (refreshT s') rid = Some r" "rt_userId r = u" for rid r
    proof -
      have rs: "refreshT s' = updateWhere (\<lambda>r. rt_userId r = u \<and> rt_revokedAt r = None) (revokeRow now) (refreshT s1)"
        unfolding s1(2) by (simp add: revokeAllForUser_def denySessions_def)
      note rj = that(1) [unfolded rs lookup_updateWhere map_option_eq_Some]
      obtain r0 where "r = (if rt_userId r0 = u \<and> rt_revokedAt r0 = None then revokeRow now r0 else r0)" using rj by blast
      then show ?thesis using that(2) by (auto simp: revokeRow_def split: if_splits)
    qed
    ultimately show ?thesis by blast
  next
    case False
    then have "s' = s" using assms v by (auto simp: suspendLogin_def res_simps findById_Inr)
    then show ?thesis using v False by auto
  qed
qed

text \<open>
  After a successful termination in a reachable organisation: the employee is no longer
  employed, nobody reports to him and he heads no department; his former reports report to
  his manager; his login, unless the request keeps it or it is the caller's own, is not
  active, and when it was active every refresh token of it is revoked.
\<close>

theorem termination_cuts_access:
  assumes "orgInit s0" and "(\<lambda>s s'. shallow s \<and> org_step E s s')\<^sup>*\<^sup>* s0 s"
    and t: "terminate E now hid k dto a s = (Inr (), s')" and l: "lookup (employeesT s) k = Some e"
  shows "\<not> isEmployed s' k \<and> (\<forall>j. managerOf s' j \<noteq> Some k) \<and>
    (\<forall>j. managerOf s j = Some k \<longrightarrow> managerOf s' j = e_managerId e) \<and>
    (\<forall>j d. lookup (departmentsT s') j = Some d \<longrightarrow> d_headEmployeeId d \<noteq> Some k) \<and>
    (\<forall>u. e_userId e = Some u \<longrightarrow> u \<noteq> a \<longrightarrow> td_suspendLogin dto \<noteq> Some False \<longrightarrow>
       (\<exists>v. findUser s' u = Some v \<and> u_status v \<noteq> user_status.ACTIVE) \<and>
       (\<forall>v. findUser s u = Some v \<longrightarrow> u_status v = user_status.ACTIVE \<longrightarrow>
         (\<forall>rid r. lookup (refreshT s') rid = Some r \<longrightarrow> rt_userId r = u \<longrightarrow> rt_revokedAt r \<noteq> None)))"
proof -
  have i: "orgInv s" by (rule org.reach_inv [OF assms(1,2)])
  obtain e' where e': "employeeById s k = Inr e'" "e_status e' \<noteq> TERMINATED"
      "orgKept (terminateRows now hid k e' dto a s) s'"
    using t by (cases rule: terminate_cases) auto
  have ee: "e' = e" using e'(1) l by (simp add: employeeById_Inr)
  note kept = e'(3) [unfolded ee]
  have dept: "departmentsT s' = dropHead k (departmentsT s)"
    and emp: "employeesT s' = leave k (e_managerId e)
      (\<lambda>e. e\<lparr>e_status := TERMINATED, e_terminationDate := Some (td_terminationDate dto)\<rparr>) (employeesT s)"
    using kept by (simp_all add: orgKept_def terminateRows_leave)
  have self: "e_managerId e \<noteq> Some k"
  proof
    assume "e_managerId e = Some k"
    then have "reaches (managerOf s) k k" using l by (intro reaches_step) (simp add: managerOf_def)
    then show False using i acyclicD by (simp add: orgInv_def lineInv_def managerOf_mgrOf)
  qed
  have m: "managerOf s' = bypass k (managerOf s)"
    unfolding managerOf_mgrOf emp by (rule mgrOf_leave [OF l _ self]) simp
  have "managerOf s k = e_managerId e" using l by (simp add: managerOf_def)
  then have "managerOf s' j \<noteq> Some k" "managerOf s j = Some k \<Longrightarrow> managerOf s' j = e_managerId e" for j
    using self by (simp_all add: m bypass_def)
  moreover have "\<not> isEmployed s' k"
    unfolding isEmployed_in emp by (subst employedIn_leave [OF l]) (simp_all add: employed_def)
  moreover have "d_headEmployeeId d \<noteq> Some k" if "lookup (departmentsT s') j = Some d" for j d
  proof -
    note dj = that [unfolded dept lookup_updateWhere map_option_eq_Some]
    obtain d0 where "d = (if d_headEmployeeId d0 = Some k then d0\<lparr>d_headEmployeeId := None\<rparr> else d0)" using dj by blast
    then show ?thesis by simp
  qed
  moreover have "(\<exists>v. findUser s' u = Some v \<and> u_status v \<noteq> user_status.ACTIVE) \<and>
       (\<forall>v. findUser s u = Some v \<longrightarrow> u_status v = user_status.ACTIVE \<longrightarrow>
         (\<forall>rid r. lookup (refreshT s') rid = Some r \<longrightarrow> rt_userId r = u \<longrightarrow> rt_revokedAt r \<noteq> None))"
    if u: "e_userId e = Some u" "u \<noteq> a" "td_suspendLogin dto \<noteq> Some False" for u
  proof -
    have "patched True (td_suspendLogin dto)" using u(3) by (auto simp: patched_def split: option.splits)
    then obtain s2 where s2: "suspendLogin E now u a (terminateRows now hid k e dto a s) = Inr s2"
        "\<exists>ev. s' = emitOrg ev s2"
      using t u l e'(1) ee unfolding terminate_def Let_def
      by (auto split: sum.splits if_splits simp: employeeById_Inr res_simps assertNotTerminated_def)
    have f: "findUser (terminateRows now hid k e dto a s) u = findUser s u"
      by (simp add: findUser_def terminateRows_leave)
    have g: "findUser s' u = findUser s2 u" "refreshT s' = refreshT s2"
      using s2(2) by (auto simp: findUser_def emitOrg_def)
    show ?thesis using suspendLogin_effect [OF s2(1)] unfolding f g .
  qed
  ultimately show ?thesis by blast
qed

definition demoLeave :: terminate_dto where
  "demoLeave = \<lparr>td_terminationDate = 200, td_reason = None, td_suspendLogin = None\<rparr>"

theorem termination_cuts_access_witness:
  "\<forall>E :: (nat, 'b) mfa_env_scheme. \<exists>s'. terminate E 0 3 1 demoLeave 7 demoOrg3 = (Inr (), s') \<and> \<not> isEmployed s' 1 \<and> managerOf s' 2 = None"
proof
  fix E :: "(nat, 'b) mfa_env_scheme"
  let ?e = "newEmployee (demoHire ''ada'' None) (nextEmployeeNumber demoOrg1)"
  have l: "lookup (employeesT demoOrg3) 1 = Some ?e" by (simp add: demo_tables lookup_def)
  have m: "managerOf demoOrg3 2 = Some 1"
    by (simp add: managerOf_def demo_tables lookup_def newEmployee_def demoHire_def)
  have em: "e_managerId ?e = None" by (simp add: newEmployee_def demoHire_def)
  have "employeeById demoOrg3 1 = Inr ?e" using l by (simp add: employeeById_Inr newEmployee_def)
  then have "\<exists>s'. terminate E 0 3 1 demoLeave 7 demoOrg3 = (Inr (), s')"
    by (simp add: terminate_def Let_def assertNotTerminated_def throwIf_def demoLeave_def newEmployee_def demoHire_def patched_def)
  then obtain s' where t: "terminate E 0 3 1 demoLeave 7 demoOrg3 = (Inr (), s')" by blast
  show "\<exists>s'. terminate E 0 3 1 demoLeave 7 demoOrg3 = (Inr (), s') \<and> \<not> isEmployed s' 1 \<and> managerOf s' 2 = None"
    using termination_cuts_access [OF demo_init demo_path t l] m em t by auto
qed

end
