(* ===== verification/Money.thy ===== *)
theory Money
  imports Doubles
begin

text \<open>
  Amounts of money. The code keeps them as doubles and rounds with \<open>round2\<close>; \<open>cent k\<close> is the
  double of \<open>k\<close> hundredths. The lemmas show that within the stated magnitudes (\<open>maxCents\<close>,
  about 8.6 thousand million) the rounded double arithmetic is exact arithmetic on hundredths.
\<close>

definition EPSILON :: rat where "EPSILON = 1 / 2 ^ 52"

definition round2 :: "rat \<Rightarrow> rat" where
  "round2 n = ddiv (of_int (jsRound (dmul (dadd n EPSILON) 100))) 100"

definition cent :: "int \<Rightarrow> rat" where
  "cent k = fl (of_int k / 100)"

text \<open>\<open>xs.reduce((s, x) => s + x, 0)\<close>.\<close>

definition dsum :: "rat list \<Rightarrow> rat" where
  "dsum xs = foldl dadd 0 xs"

lemma round2_mono: "x \<le> y \<Longrightarrow> round2 x \<le> round2 y"
  unfolding round2_def by (intro ddiv_mono) (simp_all add: jsRound_mono dmul_mono dadd_mono)

lemma round2_is_cent: "\<exists>k. round2 x = cent k"
  by (auto simp: round2_def cent_def ddiv_def)

lemma round2_nonneg: "0 \<le> x \<Longrightarrow> 0 \<le> round2 x"
  unfolding round2_def by (intro ddiv_nonneg) (simp_all add: jsRound_nonneg dmul_nonneg dadd_nonneg EPSILON_def)

lemma cent_0 [simp]: "cent 0 = 0"
  by (simp add: cent_def)

lemma cent_mono: "a \<le> b \<Longrightarrow> cent a \<le> cent b"
  unfolding cent_def by (rule fl_mono) (simp add: divide_right_mono)

section \<open>Errors as two inequalities\<close>

lemma fl_within: "- B \<le> x \<Longrightarrow> x \<le> B \<Longrightarrow> 1 \<le> B \<Longrightarrow>
    x - B / 9007199254740992 \<le> fl x \<and> fl x \<le> x + B / 9007199254740992"
proof -
  assume b: "- B \<le> x" "x \<le> B" "1 \<le> B"
  have p: "(2 :: rat) ^ 53 = 9007199254740992" by simp
  have "\<bar>fl x - x\<bar> \<le> B / 2 ^ 53" by (rule fl_error) (use b in \<open>simp_all add: abs_le_iff\<close>)
  then show ?thesis unfolding p abs_le_iff by linarith
qed

lemma dadd_within: "- B \<le> x + y \<Longrightarrow> x + y \<le> B \<Longrightarrow> 1 \<le> B \<Longrightarrow>
    x + y - B / 9007199254740992 \<le> dadd x y \<and> dadd x y \<le> x + y + B / 9007199254740992"
  unfolding dadd_def by (rule fl_within)

lemma dmul_within: "- B \<le> x * y \<Longrightarrow> x * y \<le> B \<Longrightarrow> 1 \<le> B \<Longrightarrow>
    x * y - B / 9007199254740992 \<le> dmul x y \<and> dmul x y \<le> x * y + B / 9007199254740992"
  unfolding dmul_def by (rule fl_within)

lemma jsRound_within: "of_int (jsRound y) - 1 / 2 \<le> y \<and> y \<le> of_int (jsRound y) + 1 / 2"
  unfolding jsRound_def by linarith

lemma jsRound_eq: "of_int k - 1 / 2 < y \<Longrightarrow> y < of_int k + 1 / 2 \<Longrightarrow> jsRound y = k"
proof -
  assume "of_int k - 1 / 2 < y" "y < of_int k + 1 / 2"
  then have "\<bar>y - of_int k\<bar> < 1 / 2" unfolding abs_less_iff by linarith
  then show ?thesis by (rule jsRound_nearest)
qed

lemma of_int_between: "a \<le> k \<Longrightarrow> k \<le> b \<Longrightarrow> (of_int a :: rat) \<le> of_int k \<and> (of_int k :: rat) \<le> of_int b"
  by simp

text \<open>The scaled value \<open>round2\<close> rounds to an integer, for values up to \<open>2 ^ 40\<close>.\<close>

lemma round2_scaled:
  assumes x: "- 1099511627776 \<le> x" "x \<le> 1099511627776"
  shows "100 * x - 1 / 40 \<le> dmul (dadd x EPSILON) 100 \<and> dmul (dadd x EPSILON) 100 \<le> 100 * x + 1 / 40"
proof -
  have e: "EPSILON = 1 / 4503599627370496" by (simp add: EPSILON_def)
  have a: "x + EPSILON - 1099511627777 / 9007199254740992 \<le> dadd x EPSILON \<and>
      dadd x EPSILON \<le> x + EPSILON + 1099511627777 / 9007199254740992"
    by (rule dadd_within) (use x e in linarith)+
  have p: "dadd x EPSILON * 100 - 109951162777800 / 9007199254740992 \<le> dmul (dadd x EPSILON) 100 \<and>
      dmul (dadd x EPSILON) 100 \<le> dadd x EPSILON * 100 + 109951162777800 / 9007199254740992"
    by (rule dmul_within) (use x e a in linarith)+
  show ?thesis using a p e by linarith
qed

text \<open>Up to \<open>2 ^ 40\<close>, \<open>round2\<close> finds the hundredth nearest to a value that is not halfway.\<close>

lemma round2_near:
  assumes k: "of_int k / 100 - 9 / 2000 \<le> x" "x \<le> of_int k / 100 + 9 / 2000"
    and x: "- 1099511627776 \<le> x" "x \<le> 1099511627776"
  shows "round2 x = cent k"
proof -
  have "jsRound (dmul (dadd x EPSILON) 100) = k"
    by (rule jsRound_eq) (use round2_scaled [OF x] k in linarith)+
  then show ?thesis by (simp add: round2_def cent_def ddiv_def)
qed

lemma round2_0 [simp]: "round2 0 = 0"
  using round2_near [of 0 0] by simp

lemma round2_error:
  assumes x: "- 1099511627776 \<le> x" "x \<le> 1099511627776"
  shows "x - 27 / 5000 \<le> round2 x \<and> round2 x \<le> x + 27 / 5000"
proof -
  define y where "y = dmul (dadd x EPSILON) 100"
  note y = round2_scaled [OF x, folded y_def] and r = jsRound_within [of y]
  have "of_int (jsRound y) / 100 - 1099511627780 / 9007199254740992 \<le> fl (of_int (jsRound y) / 100) \<and>
      fl (of_int (jsRound y) / 100) \<le> of_int (jsRound y) / 100 + 1099511627780 / 9007199254740992"
    by (rule fl_within) (use y r x in linarith)+
  then show ?thesis using y r unfolding round2_def y_def [symmetric] ddiv_def by linarith
qed

section \<open>Hundredths\<close>

abbreviation maxCents :: int where "maxCents \<equiv> 858993459200"

lemma cent_near:
  assumes "- maxCents \<le> k" "k \<le> maxCents"
  shows "of_int k / 100 - 1 / 1048576 \<le> cent k \<and> cent k \<le> of_int k / 100 + 1 / 1048576"
proof -
  have "of_int k / 100 - 8589934592 / 9007199254740992 \<le> cent k \<and> cent k \<le> of_int k / 100 + 8589934592 / 9007199254740992"
    unfolding cent_def by (rule fl_within) (use of_int_between [OF assms] in simp_all)
  then show ?thesis by simp
qed

text \<open>Sums of hundredths: exact after rounding, for up to 1000 terms.\<close>

lemma sum_abs_le: "\<bar>sum_list ks\<bar> \<le> (\<Sum>k\<leftarrow>ks. \<bar>k :: int\<bar>)" and sum_abs_nonneg: "0 \<le> (\<Sum>k\<leftarrow>ks. \<bar>k :: int\<bar>)"
  by (induction ks) auto

lemma dsum_near:
  assumes "(\<Sum>k\<leftarrow>ks. \<bar>k\<bar>) \<le> maxCents" "length ks \<le> 1000"
  shows "of_int (sum_list ks) / 100 - of_nat (length ks) / 262144 \<le> dsum (List.map cent ks) \<and>
    dsum (List.map cent ks) \<le> of_int (sum_list ks) / 100 + of_nat (length ks) / 262144"
  using assms
proof (induction ks rule: rev_induct)
  case (snoc k ks)
  let ?s = "dsum (List.map cent ks)"
  have b: "(\<Sum>k\<leftarrow>ks. \<bar>k\<bar>) + \<bar>k\<bar> \<le> maxCents" "length ks \<le> 1000" using snoc.prems by auto
  then have bs: "(\<Sum>k\<leftarrow>ks. \<bar>k\<bar>) \<le> maxCents" "- maxCents \<le> k" "k \<le> maxCents"
    using sum_abs_nonneg [of ks] by linarith+
  have bt: "- maxCents \<le> sum_list ks + k" "sum_list ks + k \<le> maxCents"
    using b(1) sum_abs_le [of ks] by linarith+
  note ih = snoc.IH [OF bs(1) b(2)] and c = cent_near [OF bs(2,3)]
  have l: "(of_nat (length ks) :: rat) \<le> 1000" using b(2) by (metis of_nat_le_iff of_nat_numeral)
  have i: "- 858993459200 \<le> (of_int (sum_list ks) + of_int k :: rat) \<and> (of_int (sum_list ks) + of_int k :: rat) \<le> 858993459200"
    using of_int_between [OF bt] by simp
  have d: "?s + cent k - 17179869184 / 9007199254740992 \<le> dadd ?s (cent k) \<and>
      dadd ?s (cent k) \<le> ?s + cent k + 17179869184 / 9007199254740992"
    by (rule dadd_within) (use ih c l i in linarith)+
  have "dsum (List.map cent (ks @ [k])) = dadd ?s (cent k)" by (simp add: dsum_def)
  moreover have "of_nat (length (ks @ [k])) = (of_nat (length ks) + 1 :: rat)"
    "of_int (sum_list (ks @ [k])) = (of_int (sum_list ks) + of_int k :: rat)" by simp_all
  ultimately show ?case using ih c d by (simp only: add_divide_distrib) linarith
qed (simp add: dsum_def)

lemma round2_dsum:
  assumes s: "(\<Sum>k\<leftarrow>ks. \<bar>k\<bar>) \<le> maxCents" and n: "length ks \<le> 1000"
  shows "round2 (dsum (List.map cent ks)) = cent (sum_list ks)"
proof -
  have l: "(of_nat (length ks) :: rat) \<le> 1000" using n by (metis of_nat_le_iff of_nat_numeral)
  have "- maxCents \<le> sum_list ks" "sum_list ks \<le> maxCents" using s sum_abs_le [of ks] by linarith+
  then have i: "- 858993459200 \<le> (of_int (sum_list ks) :: rat)" "(of_int (sum_list ks) :: rat) \<le> 858993459200"
    using of_int_between [of "- maxCents" "sum_list ks" maxCents] by simp_all
  show ?thesis by (rule round2_near) (use dsum_near [OF s n] l i in linarith)+
qed

lemma fl_idem_cent:
  assumes "- maxCents \<le> k" "k \<le> maxCents"
  shows "round2 (cent k) = cent k"
proof -
  have i: "- 858993459200 \<le> (of_int k :: rat)" "(of_int k :: rat) \<le> 858993459200"
    using of_int_between [OF assms] by simp_all
  show ?thesis by (rule round2_near) (use cent_near [OF assms] i in linarith)+
qed

lemma cent_add:
  assumes "\<bar>a\<bar> + \<bar>b\<bar> \<le> maxCents"
  shows "round2 (dadd (cent a) (cent b)) = cent (a + b)"
proof -
  have ab: "- maxCents \<le> a" "a \<le> maxCents" "- maxCents \<le> b" "b \<le> maxCents"
    "- maxCents \<le> a + b" "a + b \<le> maxCents" using assms by linarith+
  note c = cent_near [OF ab(1,2)] cent_near [OF ab(3,4)]
  have i: "- 858993459200 \<le> (of_int a + of_int b :: rat)" "(of_int a + of_int b :: rat) \<le> 858993459200"
    using of_int_between [OF ab(5,6)] by simp_all
  have d: "cent a + cent b - 17179869184 / 9007199254740992 \<le> dadd (cent a) (cent b) \<and>
      dadd (cent a) (cent b) \<le> cent a + cent b + 17179869184 / 9007199254740992"
    by (rule dadd_within) (use c i in linarith)+
  have e: "of_int (a + b) / 100 = (of_int a / 100 + of_int b / 100 :: rat)" by (simp add: add_divide_distrib)
  show ?thesis by (rule round2_near, unfold e) (use c d i in linarith)+
qed

lemma cent_minus: "cent (- k) = - cent k"
  by (simp add: cent_def fl_minus [symmetric])

lemma cent_sub:
  assumes "\<bar>a\<bar> + \<bar>b\<bar> \<le> maxCents"
  shows "round2 (dsub (cent a) (cent b)) = cent (a - b)"
  using cent_add [of a "- b"] assms by (simp add: cent_minus dsub_def dadd_def)

lemma cent_inject:
  assumes "\<bar>a\<bar> \<le> maxCents" "\<bar>b\<bar> \<le> maxCents" "cent a = cent b"
  shows "a = b"
proof -
  have "- maxCents \<le> a" "a \<le> maxCents" "- maxCents \<le> b" "b \<le> maxCents" using assms by linarith+
  then have "(of_int a :: rat) < of_int b + 1 \<and> (of_int b :: rat) < of_int a + 1"
    using cent_near [of a] cent_near [of b] assms(3) by auto
  then have "(of_int a :: rat) < of_int (b + 1)" "(of_int b :: rat) < of_int (a + 1)" by simp_all
  then show ?thesis unfolding of_int_less_iff by linarith
qed

end
