(* ===== verification/PayCalc.thy ===== *)
theory PayCalc
  imports Money Dates Prelude
begin

text \<open>
  Pay computation (\<open>payroll-calculator.ts\<close>, \<open>nigeria-payroll.calculator.ts\<close>): salary structures,
  their segments in a pay period, the contractual lines, and the Nigerian statutory
  deductions with cumulative PAYE. Numbers are doubles (\<open>Doubles\<close>), literals like \<open>0.08\<close> the
  doubles nearest to them; dates are day numbers. The plain \<open>Error\<close> of a misused line method
  is an internal error.
\<close>

section \<open>Structures and payslip lines\<close>

datatype pay_frequency = MONTHLY | BIWEEKLY | WEEKLY

datatype line_type = EARNING | DEDUCTION

datatype line_method = FIXED | PERCENT_OF_BASE | PERCENT_OF_GROSS

record structure_line =
  sl_code :: string
  sl_label :: string
  sl_type :: line_type
  sl_method :: line_method
  sl_value :: rat

record salary_structure =
  ss_employeeId :: id
  ss_effectiveFrom :: date
  ss_effectiveTo :: "date option"
  ss_currency :: string
  ss_payFrequency :: pay_frequency
  ss_baseAmount :: rat
  ss_lines :: "structure_line list"
  ss_annualRent :: "rat option"
  ss_notes :: "string option"
  ss_createdByUserId :: "id option"

record payslip_line =
  pl_code :: string
  pl_label :: string
  pl_type :: line_type
  pl_amount :: rat

record employer_cost =
  ec_code :: string
  ec_label :: string
  ec_amount :: rat

record payslip_computation =
  pc_baseAmount :: rat
  pc_gross :: rat
  pc_totalDeductions :: rat
  pc_net :: rat
  pc_lines :: "payslip_line list"
  pc_employedFraction :: rat
  pc_taxableAmount :: "rat option"
  pc_employerCosts :: "employer_cost list"

record employment =
  em_hireDate :: date
  em_terminationDate :: "date option"

record period =
  pe_start :: date
  pe_end :: date

record pay_segment =
  sg_structure :: salary_structure
  sg_start :: date
  sg_end :: date

record year_to_date =
  yd_taxable :: rat
  yd_paye :: rat
  yd_periods :: rat

definition wholePeriod :: "salary_structure \<Rightarrow> period \<Rightarrow> pay_segment list" where
  "wholePeriod st p = [\<lparr>sg_structure = st, sg_start = pe_start p, sg_end = pe_end p\<rparr>]"

text \<open>Calendar days of a range that fall inside employment.\<close>

definition employedDays :: "date \<Rightarrow> date \<Rightarrow> employment option \<Rightarrow> int" where
  "employedDays s e emp =
     (let from = (case emp of Some m \<Rightarrow> if s < em_hireDate m then em_hireDate m else s | None \<Rightarrow> s);
          till = (case emp of Some m \<Rightarrow> (case em_terminationDate m of Some t \<Rightarrow> if t < e then t else e | None \<Rightarrow> e)
                  | None \<Rightarrow> e)
      in if till < from then 0 else daysBetween from till + 1)"

definition prorationFactor :: "period \<Rightarrow> employment option \<Rightarrow> rat" where
  "prorationFactor p emp =
     ddiv (of_int (employedDays (pe_start p) (pe_end p) emp)) (of_int (daysBetween (pe_start p) (pe_end p) + 1))"

section \<open>Contractual pay\<close>

definition prorate :: "salary_structure \<Rightarrow> rat \<Rightarrow> salary_structure" where
  "prorate s factor =
     (if factor = 1 then s
      else s\<lparr>ss_baseAmount := dmul (ss_baseAmount s) factor,
             ss_lines := List.map (\<lambda>l. if sl_type l = EARNING \<and> sl_method l = FIXED
               then l\<lparr>sl_value := dmul (sl_value l) factor\<rparr> else l) (ss_lines s)\<rparr>)"

definition amountFor :: "structure_line \<Rightarrow> rat \<Rightarrow> rat option \<Rightarrow> rat res" where
  "amountFor l base gross =
     (case sl_method l of
        FIXED \<Rightarrow> Inr (round2 (sl_value l))
      | PERCENT_OF_BASE \<Rightarrow> Inr (round2 (ddiv (dmul base (sl_value l)) 100))
      | PERCENT_OF_GROSS \<Rightarrow> orThrow gross (InternalError ''PERCENT_OF_GROSS is only valid for deductions'')
          (\<lambda>g. Inr (round2 (ddiv (dmul g (sl_value l)) 100))))"

text \<open>The payslip lines of a list of structure lines, in order; the first misuse throws.\<close>

fun addLines :: "rat \<Rightarrow> rat option \<Rightarrow> structure_line list \<Rightarrow> payslip_line list \<Rightarrow> payslip_line list res" where
  "addLines base gross [] acc = Inr acc"
| "addLines base gross (l # ls) acc =
     bindE (amountFor l base gross) (\<lambda>a. addLines base gross ls
       (acc @ [\<lparr>pl_code = sl_code l, pl_label = sl_label l, pl_type = sl_type l, pl_amount = a\<rparr>]))"

definition structureLines :: "salary_structure \<Rightarrow> (rat \<times> payslip_line list) res" where
  "structureLines st =
     (let base = round2 (ss_baseAmount st);
          first = [\<lparr>pl_code = ''BASE'', pl_label = ''Base pay'', pl_type = EARNING, pl_amount = base\<rparr>]
      in bindE (addLines base None (List.filter (\<lambda>x. sl_type x = EARNING) (ss_lines st)) first) (\<lambda>earned.
         let gross = round2 (dsum (List.map pl_amount earned))
         in bindE (addLines base (Some gross) (List.filter (\<lambda>x. sl_type x = DEDUCTION) (ss_lines st)) earned)
              (\<lambda>ls. Inr (base, ls))))"

text \<open>
  The map from \<open>type:code\<close> to lines, as the list of its values in insertion order: the label
  of the later line wins, the amounts are added.
\<close>

fun mergeLine :: "payslip_line \<Rightarrow> payslip_line list \<Rightarrow> payslip_line list" where
  "mergeLine l [] = [l\<lparr>pl_amount := round2 (dadd 0 (pl_amount l))\<rparr>]"
| "mergeLine l (p # ps) =
     (if pl_type p = pl_type l \<and> pl_code p = pl_code l
      then l\<lparr>pl_amount := round2 (dadd (pl_amount p) (pl_amount l))\<rparr> # ps
      else p # mergeLine l ps)"

definition mergeLines :: "payslip_line list \<Rightarrow> payslip_line list \<Rightarrow> payslip_line list" where
  "mergeLines ls merged = foldl (\<lambda>m l. mergeLine l m) merged ls"

text \<open>One turn of the loop over the segments: base, fraction and merged lines so far.\<close>

definition addSegment :: "employment option \<Rightarrow> int \<Rightarrow> pay_segment
    \<Rightarrow> rat \<times> rat \<times> payslip_line list \<Rightarrow> (rat \<times> rat \<times> payslip_line list) res" where
  "addSegment emp periodDays sg acc =
     (case acc of (base, fraction, merged) \<Rightarrow>
        let share = ddiv (of_int (employedDays (sg_start sg) (sg_end sg) emp)) (of_int periodDays)
        in if share = 0 then Inr acc
           else bindE (structureLines (prorate (sg_structure sg) share)) (\<lambda>(b, ls).
             Inr (dadd base b, dadd fraction share, mergeLines ls merged)))"

fun addSegments :: "employment option \<Rightarrow> int \<Rightarrow> pay_segment list
    \<Rightarrow> rat \<times> rat \<times> payslip_line list \<Rightarrow> (rat \<times> rat \<times> payslip_line list) res" where
  "addSegments emp periodDays [] acc = Inr acc"
| "addSegments emp periodDays (sg # sgs) acc =
     bindE (addSegment emp periodDays sg acc) (addSegments emp periodDays sgs)"

fun relabelFirst :: "string \<Rightarrow> payslip_line list \<Rightarrow> payslip_line list" where
  "relabelFirst lbl [] = []"
| "relabelFirst lbl (l # ls) =
     (if pl_code l = ''BASE'' then l\<lparr>pl_label := lbl\<rparr> # ls else l # relabelFirst lbl ls)"

definition labelBase :: "pay_segment list \<Rightarrow> rat \<Rightarrow> payslip_line list \<Rightarrow> payslip_line list" where
  "labelBase segments fraction ls =
     (if 1 < length segments
      then relabelFirst (''Base pay (rate changed '' @ isoOfDay (sg_start (segments ! 1)) @ '')'') ls
      else if fraction < 1
      then relabelFirst (''Base pay (pro-rated '' @ decString (nat (jsRound (dmul fraction 100))) @ ''%)'') ls
      else ls)"

definition sumOf :: "line_type \<Rightarrow> payslip_line list \<Rightarrow> rat" where
  "sumOf t ls = round2 (dsum (List.map pl_amount (List.filter (\<lambda>l. pl_type l = t) ls)))"

definition contractualPay ::
  "pay_segment list \<Rightarrow> period \<Rightarrow> employment option \<Rightarrow> payslip_computation res" where
  "contractualPay segments p emp =
     bindE (addSegments emp (daysBetween (pe_start p) (pe_end p) + 1) segments (0, 0, []))
       (\<lambda>(base, fraction, merged).
     let ls = labelBase segments fraction merged;
         gross = sumOf EARNING ls;
         totalDeductions = sumOf DEDUCTION ls
     in Inr \<lparr>pc_baseAmount = round2 base, pc_gross = gross, pc_totalDeductions = totalDeductions,
             pc_net = round2 (dsub gross totalDeductions), pc_lines = ls,
             pc_employedFraction = min 1 fraction, pc_taxableAmount = None, pc_employerCosts = []\<rparr>)"

section \<open>PAYE\<close>

text \<open>\<open>NIGERIA_STATUTORY\<close>. The last band has no upper end.\<close>

definition taxBands :: "(rat option \<times> rat) list" where
  "taxBands =
     [(Some 800000, 0), (Some 3000000, fl (15 / 100)), (Some 12000000, fl (18 / 100)),
      (Some 25000000, fl (21 / 100)), (Some 50000000, fl (23 / 100)), (None, fl (25 / 100))]"

definition pensionEmployeeRate :: rat where "pensionEmployeeRate = fl (8 / 100)"
definition pensionEmployerRate :: rat where "pensionEmployerRate = fl (1 / 10)"
definition nsitfRate :: rat where "nsitfRate = fl (1 / 100)"
definition nhfRate :: rat where "nhfRate = fl (25 / 1000)"
definition rentReliefRate :: rat where "rentReliefRate = fl (2 / 10)"
definition rentReliefCap :: rat where "rentReliefCap = 500000"
definition pensionableCodes :: "string list" where "pensionableCodes = [''HOUSING'', ''TRANSPORT'']"
definition taxDeductibleCodes :: "string list" where
  "taxDeductibleCodes = [''NHIS'', ''LIFE_ASSURANCE'', ''MORTGAGE_INTEREST'']"

definition PERIODS_PER_YEAR :: "pay_frequency \<Rightarrow> int" where
  "PERIODS_PER_YEAR f = (case f of MONTHLY \<Rightarrow> 12 | BIWEEKLY \<Rightarrow> 26 | WEEKLY \<Rightarrow> 52)"

fun payeLoop :: "rat \<Rightarrow> rat \<Rightarrow> rat \<Rightarrow> (rat option \<times> rat) list \<Rightarrow> rat" where
  "payeLoop taxable tax lower [] = tax"
| "payeLoop taxable tax lower ((Some upTo, rate) # bands) =
     (if taxable \<le> lower then tax
      else payeLoop taxable (dadd tax (dmul (dsub (min taxable upTo) lower) rate)) upTo bands)"
| "payeLoop taxable tax lower ((None, rate) # bands) =
     (if taxable \<le> lower then tax else dadd tax (dmul (dsub taxable lower) rate))"

definition annualPaye :: "rat \<Rightarrow> rat" where
  "annualPaye taxable = round2 (payeLoop taxable 0 0 taxBands)"

definition cumulativePaye :: "rat \<Rightarrow> year_to_date option \<Rightarrow> int \<Rightarrow> int \<Rightarrow> rat \<Rightarrow> rat" where
  "cumulativePaye t ytd periodsBefore periodsAfter annualRelief =
     (let history = (case ytd of None \<Rightarrow> None | Some y \<Rightarrow> if 0 < yd_periods y then Some y else None);
          ytdTaxable = (case history of Some y \<Rightarrow> yd_taxable y | None \<Rightarrow> dmul t (of_int periodsBefore));
          projected = dadd ytdTaxable (dmul t (dadd 1 (of_int periodsAfter)))
      in if projected \<le> 0 then 0
         else let annualTax = annualPaye (max 0 (dsub projected annualRelief));
                  dueToDate = ddiv (dmul annualTax (dadd ytdTaxable t)) projected;
                  alreadyPaid = (case history of Some y \<Rightarrow> yd_paye y
                                 | None \<Rightarrow> ddiv (dmul annualTax ytdTaxable) projected)
              in round2 (max 0 (dsub dueToDate alreadyPaid)))"

definition periodsBetween :: "date \<Rightarrow> date \<Rightarrow> pay_frequency \<Rightarrow> int" where
  "periodsBetween a b f =
     (if b \<le> a then 0
      else jsRound (ddiv (of_int (daysBetween a b)) (ddiv 365 (of_int (PERIODS_PER_YEAR f)))))"

section \<open>The calculators\<close>

definition upperChar :: "char \<Rightarrow> char" where
  "upperChar c = (let n = (of_char c :: nat) in if 97 \<le> n \<and> n \<le> 122 then char_of (n - 32) else c)"

definition upper :: "string \<Rightarrow> string" where
  "upper s = List.map upperChar s"

text \<open>The deduction a structure sets itself under one of the codes.\<close>

definition own :: "string list \<Rightarrow> payslip_line list \<Rightarrow> rat option" where
  "own codes ls = map_option pl_amount
     (List.find (\<lambda>l. pl_type l = DEDUCTION \<and> upper (pl_code l) \<in> set codes) ls)"

definition orElse :: "'v option \<Rightarrow> 'v \<Rightarrow> 'v" where
  "orElse x d = (case x of None \<Rightarrow> d | Some v \<Rightarrow> v)"

definition deductionLine :: "string \<Rightarrow> string \<Rightarrow> rat \<Rightarrow> payslip_line" where
  "deductionLine code label amount = \<lparr>pl_code = code, pl_label = label, pl_type = DEDUCTION, pl_amount = amount\<rparr>"

text \<open>The statutory deductions on top of the contractual lines: a line the structure has is left out.\<close>

definition statutoryLines :: "payslip_line list \<Rightarrow> rat \<Rightarrow> rat \<Rightarrow> rat \<Rightarrow> payslip_line list" where
  "statutoryLines ls pension nhf paye =
     (if own [''PENSION''] ls = None then [deductionLine ''PENSION'' ''Pension (employee 8%)'' pension] else []) @
     (if own [''NHF''] ls = None then [deductionLine ''NHF'' ''National Housing Fund (2.5%)'' nhf] else []) @
     (if own [''PAYE'', ''TAX''] ls = None then [deductionLine ''PAYE'' ''PAYE income tax'' paye] else [])"

definition pensionablePay :: "payslip_computation \<Rightarrow> rat" where
  "pensionablePay c =
     dadd (pc_baseAmount c) (dsum (List.map pl_amount (List.filter
       (\<lambda>l. pl_type l = EARNING \<and> upper (pl_code l) \<in> set pensionableCodes) (pc_lines c))))"

definition reliefLines :: "payslip_computation \<Rightarrow> rat" where
  "reliefLines c = dsum (List.map pl_amount (List.filter
     (\<lambda>l. pl_type l = DEDUCTION \<and> upper (pl_code l) \<in> set taxDeductibleCodes) (pc_lines c)))"

definition pensionOf :: "payslip_computation \<Rightarrow> rat" where
  "pensionOf c = orElse (own [''PENSION''] (pc_lines c)) (round2 (dmul (pensionablePay c) pensionEmployeeRate))"

definition nhfOf :: "payslip_computation \<Rightarrow> rat" where
  "nhfOf c = orElse (own [''NHF''] (pc_lines c)) (round2 (dmul (pc_baseAmount c) nhfRate))"

definition taxableOf :: "payslip_computation \<Rightarrow> rat" where
  "taxableOf c = round2 (max 0 (dsub (dsub (dsub (pc_gross c) (pensionOf c)) (nhfOf c)) (reliefLines c)))"

definition payeOf ::
  "payslip_computation \<Rightarrow> salary_structure \<Rightarrow> period \<Rightarrow> employment option \<Rightarrow> year_to_date option \<Rightarrow> rat" where
  "payeOf c st p emp ytd =
     (let year = yearOf (pe_end p);
          from = (case emp of Some m \<Rightarrow> if dayNum year 1 1 < em_hireDate m then em_hireDate m else dayNum year 1 1
                  | None \<Rightarrow> dayNum year 1 1);
          f = ss_payFrequency st
      in orElse (own [''PAYE'', ''TAX''] (pc_lines c))
           (cumulativePaye (taxableOf c) ytd (periodsBetween from (pe_start p) f)
              (periodsBetween (pe_end p) (dayNum year 12 31) f)
              (min (dmul (orElse (ss_annualRent st) 0) rentReliefRate) rentReliefCap)))"

definition employerCostsOf :: "payslip_computation \<Rightarrow> employer_cost list" where
  "employerCostsOf c =
     [\<lparr>ec_code = ''PENSION_EMPLOYER'', ec_label = ''Employer pension (10%)'',
       ec_amount = round2 (dmul (pensionablePay c) pensionEmployerRate)\<rparr>,
      \<lparr>ec_code = ''NSITF'', ec_label = ''NSITF (1% of gross)'', ec_amount = round2 (dmul (pc_gross c) nsitfRate)\<rparr>]"

definition nigeriaStatutory ::
  "payslip_computation \<Rightarrow> salary_structure \<Rightarrow> period \<Rightarrow> employment option \<Rightarrow> year_to_date option
     \<Rightarrow> payslip_computation" where
  "nigeriaStatutory c st p emp ytd =
     (let statutory = statutoryLines (pc_lines c) (pensionOf c) (nhfOf c) (payeOf c st p emp ytd);
          totalDeductions = round2 (dadd (pc_totalDeductions c) (dsum (List.map pl_amount statutory)))
      in c\<lparr>pc_totalDeductions := totalDeductions, pc_net := round2 (dsub (pc_gross c) totalDeductions),
           pc_lines := pc_lines c @ statutory, pc_taxableAmount := Some (taxableOf c),
           pc_employerCosts := employerCostsOf c\<rparr>)"

datatype calculator = Nigeria | Simple

definition calculatePay ::
  "calculator \<Rightarrow> pay_segment list \<Rightarrow> period \<Rightarrow> employment option \<Rightarrow> year_to_date option \<Rightarrow> payslip_computation res" where
  "calculatePay calc segments p emp ytd =
     bindE (contractualPay segments p emp) (\<lambda>c.
     case calc of Simple \<Rightarrow> Inr c
     | Nigeria \<Rightarrow>
         let st = sg_structure (last segments)
         in if ss_currency st \<noteq> ''NGN'' \<or> pc_employedFraction c = 0 then Inr c
            else Inr (nigeriaStatutory c st p emp ytd))"

end
