(* ===== verification/PayProps.thy ===== *)
theory PayProps
  imports PayCalc
begin

text \<open>
  Properties of the pay computation: payslips add up to the hundredth, the tax of the loop is
  the tax of the bands, and cumulative PAYE settles the year.
\<close>

section \<open>Payslips add up\<close>

text \<open>The number of hundredths an amount stands for.\<close>

definition hundredths :: "rat \<Rightarrow> int" where
  "hundredths x = jsRound (100 * x)"

lemma hundredths_cent:
  assumes "- maxCents \<le> k" "k \<le> maxCents"
  shows "hundredths (cent k) = k"
  unfolding hundredths_def
  by (rule jsRound_eq) (use cent_near [OF assms] in linarith)+

definition centAmount :: "rat \<Rightarrow> bool" where
  "centAmount x \<longleftrightarrow> (\<exists>k. x = cent k)"

lemma centAmount_round2 [simp, intro]: "centAmount (round2 x)"
  using round2_is_cent by (simp add: centAmount_def)

lemma cent_ge:
  assumes "maxCents < k"
  shows "8589934591 < cent k"
proof -
  have "of_int maxCents / 100 - 1 / 1048576 \<le> cent maxCents" using cent_near [of maxCents] by simp
  moreover have "cent maxCents \<le> cent k" using assms by (intro cent_mono) simp
  ultimately show ?thesis by simp
qed

lemma cent_le: "k < - maxCents \<Longrightarrow> cent k < - 8589934591"
  using cent_ge [of "- k"] by (simp add: cent_minus)

text \<open>An amount of bounded size is the double of its hundredths, and close to them.\<close>

lemma cent_hundredths:
  assumes c: "centAmount x" and b: "\<bar>x\<bar> \<le> 8589934591"
  shows "cent (hundredths x) = x" and "\<bar>hundredths x\<bar> \<le> maxCents"
    and "of_int \<bar>hundredths x\<bar> / 100 \<le> \<bar>x\<bar> + 1 / 1048576"
proof -
  obtain k where k: "x = cent k" using c by (auto simp: centAmount_def)
  have i: "- maxCents \<le> k" "k \<le> maxCents" using cent_ge [of k] cent_le [of k] b k by (auto simp: abs_le_iff not_le [symmetric])
  have h: "hundredths x = k" using hundredths_cent [OF i] k by simp
  show "cent (hundredths x) = x" using h k by simp
  show "\<bar>hundredths x\<bar> \<le> maxCents" using h i by linarith
  show "of_int \<bar>hundredths x\<bar> / 100 \<le> \<bar>x\<bar> + 1 / 1048576"
    using cent_near [OF i] k unfolding h of_int_abs by (auto simp: abs_if)
qed

text \<open>The amounts of a list of lines, when they are hundredths and small in sum.\<close>

definition inRange :: "payslip_line list \<Rightarrow> bool" where
  "inRange ls \<longleftrightarrow> length ls \<le> 1000 \<and> (\<Sum>l\<leftarrow>ls. \<bar>pl_amount l\<bar>) \<le> 8000000000"

abbreviation centsOf :: "payslip_line list \<Rightarrow> int list" where
  "centsOf ls \<equiv> List.map (\<lambda>l. hundredths (pl_amount l)) ls"

lemma abs_amount_le: "l \<in> set ls \<Longrightarrow> \<bar>pl_amount l\<bar> \<le> (\<Sum>l\<leftarrow>ls. \<bar>pl_amount l\<bar>)"
proof (induction ls)
  case (Cons a ls)
  have "0 \<le> (\<Sum>l\<leftarrow>ls. \<bar>pl_amount l\<bar>)" by (rule sum_list_nonneg) auto
  then show ?case using Cons by auto
qed simp

lemma centsOf_bound:
  assumes "\<forall>l\<in>set ls. centAmount (pl_amount l)" "inRange ls"
  shows "(\<Sum>k\<leftarrow>centsOf ls. \<bar>k\<bar>) \<le> maxCents" and "List.map pl_amount ls = List.map cent (centsOf ls)"
proof -
  have b: "\<bar>pl_amount l\<bar> \<le> 8589934591" if "l \<in> set ls" for l
    using abs_amount_le [OF that] assms(2) by (simp add: inRange_def)
  have s: "of_int (\<Sum>k\<leftarrow>centsOf xs. \<bar>k\<bar>) / 100 \<le> (\<Sum>l\<leftarrow>xs. \<bar>pl_amount l\<bar>) + of_nat (length xs) / 1048576"
    if "set xs \<subseteq> set ls" for xs
    using that
  proof (induction xs)
    case (Cons l xs)
    then have "of_int \<bar>hundredths (pl_amount l)\<bar> / 100 \<le> \<bar>pl_amount l\<bar> + 1 / 1048576"
      using cent_hundredths(3) [of "pl_amount l"] b assms(1) by auto
    then show ?case using Cons by (simp add: add_divide_distrib)
  qed simp
  have "(of_nat (length ls) :: rat) \<le> 1000" using assms(2) unfolding inRange_def by (metis of_nat_le_iff of_nat_numeral)
  then have "of_int (\<Sum>k\<leftarrow>centsOf ls. \<bar>k\<bar>) / 100 \<le> (8000000001 :: rat)"
    using s [OF order_refl] assms(2) unfolding inRange_def by linarith
  then have "of_int (\<Sum>k\<leftarrow>centsOf ls. \<bar>k\<bar>) \<le> (of_int 800000000100 :: rat)" by simp
  then show "(\<Sum>k\<leftarrow>centsOf ls. \<bar>k\<bar>) \<le> maxCents" unfolding of_int_le_iff by simp
  show "List.map pl_amount ls = List.map cent (centsOf ls)"
    using cent_hundredths(1) b assms(1) by simp
qed

lemma inRange_filter: "inRange ls \<Longrightarrow> inRange (List.filter P ls)"
proof -
  have "(\<Sum>l\<leftarrow>List.filter P ls. \<bar>pl_amount l\<bar>) \<le> (\<Sum>l\<leftarrow>ls. \<bar>pl_amount l\<bar>)" by (induction ls) auto
  moreover have "length (List.filter P ls) \<le> length ls" by (rule length_filter_le)
  ultimately show "inRange ls \<Longrightarrow> inRange (List.filter P ls)" unfolding inRange_def by linarith
qed

lemma sumOf_cents:
  assumes "\<forall>l\<in>set ls. centAmount (pl_amount l)" "inRange ls"
  shows "sumOf t ls = cent (sum_list (centsOf (List.filter (\<lambda>l. pl_type l = t) ls)))"
proof -
  let ?fs = "List.filter (\<lambda>l. pl_type l = t) ls"
  have c: "\<forall>l\<in>set ?fs. centAmount (pl_amount l)" using assms(1) by simp
  note r = inRange_filter [OF assms(2), of "\<lambda>l. pl_type l = t"]
  show ?thesis unfolding sumOf_def centsOf_bound(2) [OF c r]
    by (rule round2_dsum) (use centsOf_bound(1) [OF c r] r in \<open>simp_all add: inRange_def\<close>)
qed

text \<open>Every amount the calculators write is rounded.\<close>

lemma mergeLine_cents: "\<forall>p\<in>set ps. centAmount (pl_amount p) \<Longrightarrow> \<forall>p\<in>set (mergeLine l ps). centAmount (pl_amount p)"
  by (induction l ps rule: mergeLine.induct) auto

lemma mergeLines_cents:
  "\<forall>p\<in>set ps. centAmount (pl_amount p) \<Longrightarrow> \<forall>p\<in>set (mergeLines ls ps). centAmount (pl_amount p)"
proof (induction ls arbitrary: ps)
  case (Cons l ls)
  have "mergeLines (l # ls) ps = mergeLines ls (mergeLine l ps)" by (simp add: mergeLines_def)
  then show ?case using Cons.IH [OF mergeLine_cents [OF Cons.prems]] by simp
qed (simp add: mergeLines_def)

lemma addSegments_cents:
  "addSegments emp n sgs (b, f, m) = Inr (b', f', m') \<Longrightarrow> \<forall>p\<in>set m. centAmount (pl_amount p) \<Longrightarrow>
    \<forall>p\<in>set m'. centAmount (pl_amount p)"
proof (induction sgs arbitrary: b f m)
  case (Cons sg sgs)
  then obtain acc where a: "addSegment emp n sg (b, f, m) = Inr acc" "addSegments emp n sgs acc = Inr (b', f', m')"
    by (auto simp: res_simps)
  obtain b1 f1 m1 where acc: "acc = (b1, f1, m1)" by (cases acc)
  have "\<forall>p\<in>set m1. centAmount (pl_amount p)"
    using a(1) acc Cons.prems(2) mergeLines_cents [of m]
    by (auto simp: addSegment_def Let_def res_simps split: if_splits)
  then show ?case using Cons.IH a(2) acc by blast
qed simp

lemma relabel_cents: "\<forall>p\<in>set ls. centAmount (pl_amount p) \<Longrightarrow> \<forall>p\<in>set (relabelFirst x ls). centAmount (pl_amount p)"
  by (induction ls) auto

lemma labelBase_cents: "\<forall>p\<in>set m. centAmount (pl_amount p) \<Longrightarrow> \<forall>p\<in>set (labelBase sgs f m). centAmount (pl_amount p)"
  by (cases "1 < length sgs"; cases "f < 1") (simp_all add: labelBase_def relabel_cents)

lemma contractualPay_shape:
  assumes "contractualPay sgs p emp = Inr c"
  shows "\<forall>l\<in>set (pc_lines c). centAmount (pl_amount l)" "pc_gross c = sumOf EARNING (pc_lines c)"
    "pc_totalDeductions c = sumOf DEDUCTION (pc_lines c)"
    "pc_net c = round2 (dsub (pc_gross c) (pc_totalDeductions c))" "pc_taxableAmount c = None"
    "pc_employerCosts c = []"
proof -
  obtain b f m where m: "addSegments emp (daysBetween (pe_start p) (pe_end p) + 1) sgs (0, 0, []) = Inr (b, f, m)"
    using assms by (auto simp: contractualPay_def res_simps)
  have c: "pc_lines c = labelBase sgs f m \<and> pc_gross c = sumOf EARNING (pc_lines c) \<and>
      pc_totalDeductions c = sumOf DEDUCTION (pc_lines c) \<and>
      pc_net c = round2 (dsub (pc_gross c) (pc_totalDeductions c)) \<and> pc_taxableAmount c = None \<and>
      pc_employerCosts c = []"
    using assms m by (auto simp: contractualPay_def Let_def)
  have "\<forall>l\<in>set (labelBase sgs f m). centAmount (pl_amount l)"
    by (rule labelBase_cents) (use addSegments_cents [OF m] in simp)
  then show "\<forall>l\<in>set (pc_lines c). centAmount (pl_amount l)" using c by simp
qed (use assms in \<open>auto simp: contractualPay_def res_simps Let_def\<close>)

lemma round2_dadd_dsum:
  assumes s: "\<bar>a\<bar> + (\<Sum>k\<leftarrow>ks. \<bar>k\<bar>) \<le> maxCents" and n: "length ks \<le> 1000"
  shows "round2 (dadd (cent a) (dsum (List.map cent ks))) = cent (a + sum_list ks)"
proof -
  have ab: "- maxCents \<le> a" "a \<le> maxCents" "(\<Sum>k\<leftarrow>ks. \<bar>k\<bar>) \<le> maxCents"
    "- maxCents \<le> a + sum_list ks" "a + sum_list ks \<le> maxCents"
    using s sum_abs_le [of ks] sum_abs_nonneg [of ks] by linarith+
  have l: "(of_nat (length ks) :: rat) \<le> 1000" using n by (metis of_nat_le_iff of_nat_numeral)
  note c = cent_near [OF ab(1,2)] dsum_near [OF ab(3) n]
  have i: "- 858993459200 \<le> (of_int a + of_int (sum_list ks) :: rat)" "(of_int a + of_int (sum_list ks) :: rat) \<le> 858993459200"
    using of_int_between [OF ab(4,5)] by simp_all
  let ?d = "dsum (List.map cent ks)"
  have d: "cent a + ?d - 17179869184 / 9007199254740992 \<le> dadd (cent a) ?d \<and>
      dadd (cent a) ?d \<le> cent a + ?d + 17179869184 / 9007199254740992"
    by (rule dadd_within) (use c i l in linarith)+
  have e: "of_int (a + sum_list ks) / 100 = (of_int a / 100 + of_int (sum_list ks) / 100 :: rat)"
    by (simp add: add_divide_distrib)
  show ?thesis by (rule round2_near, unfold e) (use c d i l in linarith)+
qed

definition total :: "line_type \<Rightarrow> payslip_line list \<Rightarrow> int" where
  "total t ls = sum_list (centsOf (List.filter (\<lambda>l. pl_type l = t) ls))"

lemma sum_abs_filter: "(\<Sum>k\<leftarrow>centsOf (List.filter P ls). \<bar>k\<bar>) + (\<Sum>k\<leftarrow>centsOf (List.filter (\<lambda>l. \<not> P l) ls). \<bar>k\<bar>)
    = (\<Sum>k\<leftarrow>centsOf ls. \<bar>k\<bar>)"
  by (induction ls) auto

lemma total_bound:
  assumes "\<forall>l\<in>set ls. centAmount (pl_amount l)" "inRange ls"
  shows "\<bar>total EARNING ls\<bar> + \<bar>total DEDUCTION ls\<bar> \<le> maxCents"
proof -
  have f: "List.filter (\<lambda>l. pl_type l = DEDUCTION) ls = List.filter (\<lambda>l. \<not> pl_type l = EARNING) ls"
    by (rule filter_cong) (auto intro: line_type.exhaust)
  have "\<bar>total EARNING ls\<bar> + \<bar>total DEDUCTION ls\<bar> \<le> (\<Sum>k\<leftarrow>centsOf ls. \<bar>k\<bar>)"
    unfolding total_def f using sum_abs_le [of "centsOf (List.filter (\<lambda>l. pl_type l = EARNING) ls)"]
      sum_abs_le [of "centsOf (List.filter (\<lambda>l. \<not> pl_type l = EARNING) ls)"]
      sum_abs_filter [of "\<lambda>l. pl_type l = EARNING" ls] by linarith
  then show ?thesis using centsOf_bound(1) [OF assms] by linarith
qed

lemma inRange_appendD: "inRange (xs @ ys) \<Longrightarrow> inRange xs \<and> inRange ys"
proof -
  have "0 \<le> (\<Sum>l\<leftarrow>zs. \<bar>pl_amount l\<bar>)" for zs by (rule sum_list_nonneg) auto
  from this [of xs] this [of ys] show "inRange (xs @ ys) \<Longrightarrow> inRange xs \<and> inRange ys"
    by (auto simp: inRange_def)
qed

definition addsUp :: "payslip_computation \<Rightarrow> bool" where
  "addsUp c \<longleftrightarrow> (\<forall>l\<in>set (pc_lines c). pl_amount l = cent (hundredths (pl_amount l))) \<and>
     pc_gross c = cent (total EARNING (pc_lines c)) \<and>
     pc_totalDeductions c = cent (total DEDUCTION (pc_lines c)) \<and>
     pc_net c = cent (total EARNING (pc_lines c) - total DEDUCTION (pc_lines c))"

lemma lines_exact:
  assumes "\<forall>l\<in>set ls. centAmount (pl_amount l)" "inRange ls"
  shows "\<forall>l\<in>set ls. pl_amount l = cent (hundredths (pl_amount l))"
proof
  fix l assume l: "l \<in> set ls"
  then have "\<bar>pl_amount l\<bar> \<le> 8589934591" using abs_amount_le [OF l] assms(2) by (simp add: inRange_def)
  then show "pl_amount l = cent (hundredths (pl_amount l))" using cent_hundredths(1) assms(1) l by simp
qed

lemma contractual_adds_up:
  assumes c: "contractualPay sgs p emp = Inr c" and r: "inRange (pc_lines c)"
  shows "addsUp c"
proof -
  note s = contractualPay_shape [OF c]
  have "pc_gross c = cent (total EARNING (pc_lines c))" "pc_totalDeductions c = cent (total DEDUCTION (pc_lines c))"
    unfolding s(2,3) total_def by (rule sumOf_cents [OF s(1) r])+
  then show ?thesis unfolding addsUp_def s(4)
    using lines_exact [OF s(1) r] cent_sub [OF total_bound [OF s(1) r]] by simp
qed

lemma own_in: "own codes ls = Some a \<Longrightarrow> \<exists>l\<in>set ls. pl_amount l = a"
  by (auto simp: own_def dest!: find_SomeD)

lemma statutory_lines:
  assumes "own [''PENSION''] ls = None \<Longrightarrow> centAmount a" "own [''NHF''] ls = None \<Longrightarrow> centAmount b"
    "own [''PAYE'', ''TAX''] ls = None \<Longrightarrow> centAmount d"
  shows "\<forall>l\<in>set (statutoryLines ls a b d). pl_type l = DEDUCTION \<and> centAmount (pl_amount l)"
  using assms by (auto simp: statutoryLines_def deductionLine_def)

lemma orElse_None [simp]: "orElse None d = d" and orElse_Some [simp]: "orElse (Some v) d = v"
  by (simp_all add: orElse_def)

lemma cumulativePaye_cent: "centAmount (cumulativePaye t ytd pb pa r)"
  unfolding cumulativePaye_def Let_def by (auto simp: centAmount_def intro: exI [of _ 0] round2_is_cent)

lemma nigeria_adds_up:
  assumes c: "contractualPay sgs p emp = Inr c" and r: "inRange (pc_lines (nigeriaStatutory c st p emp ytd))"
  shows "addsUp (nigeriaStatutory c st p emp ytd)"
proof -
  note s = contractualPay_shape [OF c]
  define stat where "stat = statutoryLines (pc_lines c) (pensionOf c) (nhfOf c) (payeOf c st p emp ytd)"
  have l: "pc_lines (nigeriaStatutory c st p emp ytd) = pc_lines c @ stat"
    and d: "pc_totalDeductions (nigeriaStatutory c st p emp ytd) =
      round2 (dadd (pc_totalDeductions c) (dsum (List.map pl_amount stat)))"
    by (simp_all add: nigeriaStatutory_def Let_def stat_def)
  have st: "\<forall>l\<in>set stat. pl_type l = DEDUCTION \<and> centAmount (pl_amount l)"
    unfolding stat_def
    by (rule statutory_lines) (simp_all add: pensionOf_def nhfOf_def payeOf_def Let_def cumulativePaye_cent)
  have n: "pc_gross (nigeriaStatutory c st p emp ytd) = pc_gross c"
    "pc_net (nigeriaStatutory c st p emp ytd) = round2 (dsub (pc_gross c) (pc_totalDeductions (nigeriaStatutory c st p emp ytd)))"
    by (simp_all add: nigeriaStatutory_def Let_def)
  have rc: "inRange (pc_lines c)" "inRange stat" using inRange_appendD [OF r [unfolded l]] by blast+
  have all: "\<forall>l\<in>set (pc_lines c @ stat). centAmount (pl_amount l)" using s(1) st by auto
  have a: "addsUp c" by (rule contractual_adds_up [OF c rc(1)])
  have te: "total EARNING (pc_lines c @ stat) = total EARNING (pc_lines c)"
    using st by (auto simp: total_def filter_empty_conv)
  have td: "total DEDUCTION (pc_lines c @ stat) = total DEDUCTION (pc_lines c) + sum_list (centsOf stat)"
    using st by (simp add: total_def)
  have b: "\<bar>total DEDUCTION (pc_lines c)\<bar> + (\<Sum>k\<leftarrow>centsOf stat. \<bar>k\<bar>) \<le> maxCents"
  proof -
    have "\<bar>total DEDUCTION (pc_lines c)\<bar> \<le> (\<Sum>k\<leftarrow>centsOf (List.filter (\<lambda>l. pl_type l = DEDUCTION) (pc_lines c)). \<bar>k\<bar>)"
      unfolding total_def by (rule sum_abs_le)
    also have "\<dots> \<le> (\<Sum>k\<leftarrow>centsOf (pc_lines c). \<bar>k\<bar>)"
      using sum_abs_filter [of "\<lambda>l. pl_type l = DEDUCTION" "pc_lines c"] sum_abs_nonneg by smt
    finally show ?thesis using centsOf_bound(1) [OF all r [unfolded l]] by simp
  qed
  have m: "List.map pl_amount stat = List.map cent (centsOf stat)"
    by (rule centsOf_bound(2)) (use st rc(2) in simp_all)
  have "round2 (dadd (cent (total DEDUCTION (pc_lines c))) (dsum (List.map pl_amount stat))) =
      cent (total DEDUCTION (pc_lines c) + sum_list (centsOf stat))"
    unfolding m by (rule round2_dadd_dsum [OF b]) (use rc(2) in \<open>simp add: inRange_def\<close>)
  moreover have "pc_totalDeductions c = cent (total DEDUCTION (pc_lines c))" using a by (simp add: addsUp_def)
  ultimately have "pc_totalDeductions (nigeriaStatutory c st p emp ytd) = cent (total DEDUCTION (pc_lines c @ stat))"
    unfolding d td by simp
  then show ?thesis unfolding addsUp_def n l
    using lines_exact [OF all r [unfolded l]] a te cent_sub [OF total_bound [OF all r [unfolded l]]]
    by (simp add: addsUp_def)
qed


section \<open>The tax of the bands\<close>

text \<open>The statute: each naira in a band is taxed at the rate of the band.\<close>

definition bandPart :: "rat \<Rightarrow> rat \<Rightarrow> rat \<Rightarrow> rat" where
  "bandPart a b t = max 0 (min t b - a)"

definition statutoryTax :: "rat \<Rightarrow> rat" where
  "statutoryTax t =
     bandPart 800000 3000000 t * (15 / 100) + bandPart 3000000 12000000 t * (18 / 100) +
     bandPart 12000000 25000000 t * (21 / 100) + bandPart 25000000 50000000 t * (23 / 100) +
     max 0 (t - 50000000) * (25 / 100)"

lemma product_slack:
  fixes d r :: rat
  assumes "0 \<le> d" "d \<le> 8589934592" "0 \<le> r" "r \<le> 1 / 4"
  shows "(d + 1 / 1048576) * (r + 1 / 9007199254740992) \<le> d * r + 1 / 524288"
proof -
  have "(d + 1 / 1048576) * (r + 1 / 9007199254740992) =
      d * r + d * (1 / 9007199254740992) + (1 / 1048576) * r + (1 / 1048576) * (1 / 9007199254740992)"
    by (simp only: distrib_left distrib_right add.assoc)
  moreover have "d * (1 / 9007199254740992) \<le> 8589934592 * (1 / 9007199254740992)"
    by (rule mult_right_mono) (use assms in simp_all)
  ultimately show ?thesis using assms by linarith
qed

lemma band_term:
  assumes d: "0 \<le> a - l" "a - l \<le> 8589934592" and r: "0 \<le> r" "r \<le> 1 / 4"
  shows "(a - l) * r - 1 / 262144 \<le> dmul (dsub a l) (fl r) \<and> dmul (dsub a l) (fl r) \<le> (a - l) * r + 1 / 262144"
proof -
  have e: "a - l - 8589934592 / 9007199254740992 \<le> dsub a l \<and> dsub a l \<le> a - l + 8589934592 / 9007199254740992"
    unfolding dsub_def by (rule fl_within) (use d in linarith)+
  have f: "r - 1 / 9007199254740992 \<le> fl r \<and> fl r \<le> r + 1 / 9007199254740992"
    by (rule fl_within) (use r in linarith)+
  have dn: "0 \<le> dsub a l" and fn: "0 \<le> fl r" using d(1) r(1) by (simp_all add: dsub_def fl_nonneg)
  have up: "dsub a l * fl r \<le> (a - l + 1 / 1048576) * (r + 1 / 9007199254740992)"
    by (rule mult_mono) (use e f dn fn in linarith)+
  have lo: "(a - l) * r - (1 / 1048576) * r - dsub a l * (1 / 9007199254740992) \<le> dsub a l * fl r"
  proof -
    have "(a - l - 1 / 1048576) * r \<le> dsub a l * r" by (rule mult_right_mono) (use e r in linarith)+
    moreover have "dsub a l * (r - 1 / 9007199254740992) \<le> dsub a l * fl r"
      by (rule mult_left_mono) (use f dn in linarith)+
    ultimately show ?thesis by (simp add: algebra_simps)
  qed
  have ar: "(a - l) * r \<le> 8589934592 * (1 / 4)" by (rule mult_mono) (use d r in linarith)+
  have ar0: "0 \<le> (a - l) * r" using d(1) r(1) by simp
  have u: "(a - l + 1 / 1048576) * (r + 1 / 9007199254740992) \<le> (a - l) * r + 1 / 524288"
    by (rule product_slack [OF d r])
  have p: "dsub a l * fl r - 8589934592 / 9007199254740992 \<le> dmul (dsub a l) (fl r) \<and>
      dmul (dsub a l) (fl r) \<le> dsub a l * fl r + 8589934592 / 9007199254740992"
  proof (rule dmul_within)
    have "0 \<le> dsub a l * fl r" using dn fn by simp
    then show "- 8589934592 \<le> dsub a l * fl r" by simp
    show "dsub a l * fl r \<le> 8589934592" using up u ar by linarith
  qed simp
  show ?thesis using p up u lo e d r by linarith
qed

text \<open>The loop in exact arithmetic, over the rates as written.\<close>

fun exactLoop :: "rat \<Rightarrow> rat \<Rightarrow> rat \<Rightarrow> (rat option \<times> rat) list \<Rightarrow> rat" where
  "exactLoop t tax lower [] = tax"
| "exactLoop t tax lower ((Some u, r) # bs) =
     (if t \<le> lower then tax else exactLoop t (tax + (min t u - lower) * r) u bs)"
| "exactLoop t tax lower ((None, r) # bs) = (if t \<le> lower then tax else tax + (t - lower) * r)"

fun bandsOk :: "rat \<Rightarrow> (rat option \<times> rat) list \<Rightarrow> bool" where
  "bandsOk lower [] \<longleftrightarrow> True"
| "bandsOk lower ((Some u, r) # bs) \<longleftrightarrow> 0 \<le> r \<and> r \<le> 1 / 4 \<and> lower \<le> u \<and> bandsOk u bs"
| "bandsOk lower ((None, r) # bs) \<longleftrightarrow> 0 \<le> r \<and> r \<le> 1 / 4"

lemma step_near:
  assumes l: "0 \<le> l" "l \<le> a" "a \<le> 8589934592" and r: "0 \<le> r" "r \<le> 1 / 4"
    and x: "0 \<le> x" "x \<le> l / 4" and e: "x - e \<le> tax" "tax \<le> x + e" "e \<le> 1"
  shows "x + (a - l) * r - (e + 1 / 131072) \<le> dadd tax (dmul (dsub a l) (fl r)) \<and>
    dadd tax (dmul (dsub a l) (fl r)) \<le> x + (a - l) * r + (e + 1 / 131072) \<and>
    0 \<le> x + (a - l) * r \<and> x + (a - l) * r \<le> a / 4"
proof -
  define y where "y = (a - l) * r"
  define z where "z = dmul (dsub a l) (fl r)"
  have b: "y - 1 / 262144 \<le> z" "z \<le> y + 1 / 262144"
  proof -
    have "(a - l) * r - 1 / 262144 \<le> dmul (dsub a l) (fl r) \<and> dmul (dsub a l) (fl r) \<le> (a - l) * r + 1 / 262144"
      by (rule band_term) (use l r in linarith)+
    then show "y - 1 / 262144 \<le> z" "z \<le> y + 1 / 262144" unfolding y_def z_def by blast+
  qed
  have "y \<le> (a - l) * (1 / 4)" unfolding y_def by (rule mult_left_mono) (use l r in linarith)+
  then have m: "y \<le> a / 4 - l / 4" by (simp add: diff_divide_distrib)
  have m0: "0 \<le> y" unfolding y_def by (rule mult_nonneg_nonneg) (use l r in linarith)+
  have "tax + z - 8589934592 / 9007199254740992 \<le> dadd tax z \<and> dadd tax z \<le> tax + z + 8589934592 / 9007199254740992"
  proof (rule dadd_within)
    show "- 8589934592 \<le> tax + z" using b m0 x e by linarith
    have "x + y \<le> a / 4" using m x(2) by linarith
    then have "tax + z \<le> a / 4 + 2" using b(2) e(2,3) by linarith
    then show "tax + z \<le> 8589934592" using l by linarith
  qed simp
  then show ?thesis unfolding y_def [symmetric] z_def [symmetric] using b m m0 x e by linarith
qed

lemma loop_near:
  assumes "bandsOk lower bs" "0 \<le> lower" "t \<le> 8589934592" "0 \<le> x" "x \<le> lower / 4"
    "x - e \<le> tax" "tax \<le> x + e" "0 \<le> e" "e + of_nat (length bs) / 131072 \<le> 1"
  shows "exactLoop t x lower bs - (e + of_nat (length bs) / 131072) \<le> payeLoop t tax lower (List.map (\<lambda>(u, r). (u, fl r)) bs) \<and>
    payeLoop t tax lower (List.map (\<lambda>(u, r). (u, fl r)) bs) \<le> exactLoop t x lower bs + (e + of_nat (length bs) / 131072)"
  using assms
proof (induction t x lower bs arbitrary: tax e rule: exactLoop.induct)
  case (1 t x lower)
  then show ?case by simp
next
  case (2 t x lower u r bs)
  have n: "0 \<le> (of_nat (length bs) / 131072 :: rat)" by simp
  have len: "(of_nat (length ((Some u, r) # bs)) / 131072 :: rat) = of_nat (length bs) / 131072 + 1 / 131072"
    by (simp add: add_divide_distrib)
  show ?case
  proof (cases "t \<le> lower")
    case True
    then show ?thesis using "2.prems" n unfolding len by (simp; linarith)
  next
    case False
    let ?a = "min t u"
    have e1: "e \<le> 1" using "2.prems"(9) n unfolding len by linarith
    have st: "x + (?a - lower) * r - (e + 1 / 131072) \<le> dadd tax (dmul (dsub ?a lower) (fl r)) \<and>
        dadd tax (dmul (dsub ?a lower) (fl r)) \<le> x + (?a - lower) * r + (e + 1 / 131072) \<and>
        0 \<le> x + (?a - lower) * r \<and> x + (?a - lower) * r \<le> ?a / 4"
      by (rule step_near) (use "2.prems" False e1 in \<open>auto simp: min_def\<close>)
    have h: "e + 1 / 131072 + of_nat (length bs) / 131072 \<le> 1" using "2.prems"(9) unfolding len by linarith
    have "exactLoop t (x + (?a - lower) * r) u bs - (e + 1 / 131072 + of_nat (length bs) / 131072)
        \<le> payeLoop t (dadd tax (dmul (dsub ?a lower) (fl r))) u (List.map (\<lambda>(u, r). (u, fl r)) bs) \<and>
      payeLoop t (dadd tax (dmul (dsub ?a lower) (fl r))) u (List.map (\<lambda>(u, r). (u, fl r)) bs)
        \<le> exactLoop t (x + (?a - lower) * r) u bs + (e + 1 / 131072 + of_nat (length bs) / 131072)"
      by (rule "2.IH" [OF False]) (use "2.prems"(1-8) st h False in \<open>auto simp: min_def split: if_splits\<close>)
    then show ?thesis using False unfolding len by (simp; linarith)
  qed
next
  case (3 t x lower r bs)
  have n: "0 \<le> (of_nat (length bs) / 131072 :: rat)" by simp
  have len: "(of_nat (length ((None, r) # bs)) / 131072 :: rat) = of_nat (length bs) / 131072 + 1 / 131072"
    by (simp add: add_divide_distrib)
  show ?case
  proof (cases "t \<le> lower")
    case True
    then show ?thesis using "3.prems" n unfolding len by (simp; linarith)
  next
    case False
    have e1: "e \<le> 1" using "3.prems"(9) n unfolding len by linarith
    have "x + (t - lower) * r - (e + 1 / 131072) \<le> dadd tax (dmul (dsub t lower) (fl r)) \<and>
        dadd tax (dmul (dsub t lower) (fl r)) \<le> x + (t - lower) * r + (e + 1 / 131072) \<and>
        0 \<le> x + (t - lower) * r \<and> x + (t - lower) * r \<le> t / 4"
      by (rule step_near) (use "3.prems" False e1 in auto)
    then show ?thesis using False n unfolding len by (simp; linarith)
  qed
qed

definition exactBands :: "(rat option \<times> rat) list" where
  "exactBands = [(Some 800000, 0), (Some 3000000, 15 / 100), (Some 12000000, 18 / 100),
      (Some 25000000, 21 / 100), (Some 50000000, 23 / 100), (None, 25 / 100)]"

lemma exactLoop_statute: "0 \<le> t \<Longrightarrow> exactLoop t 0 0 exactBands = statutoryTax t"
  by (simp add: exactBands_def statutoryTax_def bandPart_def min_def max_def)

lemma payeLoop_near:
  assumes "0 \<le> t" "t \<le> 8589934592"
  shows "statutoryTax t - 3 / 65536 \<le> payeLoop t 0 0 taxBands \<and> payeLoop t 0 0 taxBands \<le> statutoryTax t + 3 / 65536"
proof -
  have b: "taxBands = List.map (\<lambda>(u, r). (u, fl r)) exactBands" by (simp add: taxBands_def exactBands_def)
  have "exactLoop t 0 0 exactBands - (0 + of_nat (length exactBands) / 131072) \<le> payeLoop t 0 0 taxBands \<and>
      payeLoop t 0 0 taxBands \<le> exactLoop t 0 0 exactBands + (0 + of_nat (length exactBands) / 131072)"
    unfolding b by (rule loop_near) (use assms in \<open>simp_all add: exactBands_def\<close>)
  then show ?thesis unfolding exactLoop_statute [OF assms(1)] by (simp add: exactBands_def)
qed

text \<open>The loop grows with the taxable amount.\<close>

lemma fl_fl [simp]: "fl (fl x) = fl x"
proof -
  have pos: "fl (flpos y) = flpos y" if y: "0 < y" for y
  proof -
    let ?q = "quantum y"
    have q: "- 1074 \<le> ?q" "expo y + 1 \<le> ?q + 53" by (simp_all add: quantum_def)
    have "y < 2 powi (expo y + 1)" using expo_bounds [OF y] by simp
    also have "\<dots> \<le> 2 powi (?q + 53)" using q(2) by (simp add: powi_le_iff)
    also have "\<dots> = 2 ^ 53 * 2 powi ?q" using powi_shift [of ?q 53] by simp
    finally have "y / 2 powi ?q \<le> 2 ^ 53" by (simp add: divide_le_eq)
    then have "roundEven (y / 2 powi ?q) \<le> 2 ^ 53" by (intro roundEven_le_int) simp
    moreover have "0 \<le> roundEven (y / 2 powi ?q)" using y by (intro roundEven_ge_int) simp
    ultimately show ?thesis unfolding flpos_def by (intro fl_exact q(1)) simp
  qed
  show ?thesis using pos [of x] pos [of "- x"] by (cases "x < 0") (auto simp: fl_def [of x] fl_minus)
qed

lemma fl_dadd [simp]: "fl (dadd a b) = dadd a b"
  by (simp add: dadd_def)

lemma dadd_increases: "fl tax = tax \<Longrightarrow> 0 \<le> y \<Longrightarrow> tax \<le> dadd tax y"
  using fl_mono [of tax "tax + y"] by (simp add: dadd_def)

lemma dsub_nonneg: "b \<le> a \<Longrightarrow> 0 \<le> dsub a b"
  by (simp add: dsub_def fl_nonneg)

fun ratesOk :: "rat \<Rightarrow> (rat option \<times> rat) list \<Rightarrow> bool" where
  "ratesOk lower [] \<longleftrightarrow> True"
| "ratesOk lower ((Some u, r) # bs) \<longleftrightarrow> 0 \<le> r \<and> lower \<le> u \<and> ratesOk u bs"
| "ratesOk lower ((None, r) # bs) \<longleftrightarrow> 0 \<le> r"

lemma payeLoop_ge: "ratesOk lower bs \<Longrightarrow> fl tax = tax \<Longrightarrow> tax \<le> payeLoop t tax lower bs"
proof (induction t tax lower bs rule: payeLoop.induct)
  case (2 t tax lower u r bs)
  show ?case
  proof (cases "t \<le> lower")
    case False
    then have "tax \<le> dadd tax (dmul (dsub (min t u) lower) r)"
      using "2.prems" by (intro dadd_increases dmul_nonneg dsub_nonneg) auto
    also have "\<dots> \<le> payeLoop t (dadd tax (dmul (dsub (min t u) lower) r)) u bs"
      by (rule "2.IH" [OF False]) (use "2.prems" in simp_all)
    finally show ?thesis using False by simp
  qed simp
next
  case (3 t tax lower r bs)
  then show ?case by (auto intro!: dadd_increases dmul_nonneg dsub_nonneg)
qed simp

lemma payeLoop_mono:
  "t \<le> t' \<Longrightarrow> ratesOk lower bs \<Longrightarrow> tax \<le> tax' \<Longrightarrow> fl tax' = tax' \<Longrightarrow>
    payeLoop t tax lower bs \<le> payeLoop t' tax' lower bs"
proof (induction t tax lower bs arbitrary: tax' rule: payeLoop.induct)
  case (2 t tax lower u r bs)
  show ?case
  proof (cases "t \<le> lower")
    case True
    have "tax \<le> payeLoop t' tax' lower ((Some u, r) # bs)"
      using payeLoop_ge [OF "2.prems"(2,4), of t'] "2.prems"(3) by simp
    then show ?thesis using True by simp
  next
    case False
    have "dadd tax (dmul (dsub (min t u) lower) r) \<le> dadd tax' (dmul (dsub (min t' u) lower) r)"
      using "2.prems" by (intro dadd_mono dmul_mono dsub_mono) auto
    then have "payeLoop t (dadd tax (dmul (dsub (min t u) lower) r)) u bs \<le>
        payeLoop t' (dadd tax' (dmul (dsub (min t' u) lower) r)) u bs"
      using "2.prems" by (intro "2.IH" [OF False]) simp_all
    then show ?thesis using False "2.prems"(1) by simp
  qed
next
  case (3 t tax lower r bs)
  show ?case
  proof (cases "t \<le> lower")
    case True
    have "tax \<le> payeLoop t' tax' lower ((None, r) # bs)"
      using payeLoop_ge [OF "3.prems"(2,4), of t'] "3.prems"(3) by simp
    then show ?thesis using True by simp
  next
    case False
    have "dadd tax (dmul (dsub t lower) r) \<le> dadd tax' (dmul (dsub t' lower) r)"
      using "3.prems" by (intro dadd_mono dmul_mono dsub_mono) auto
    then show ?thesis using False "3.prems"(1) by simp
  qed
qed simp

lemma ratesOk_bands: "ratesOk 0 taxBands"
  by (simp add: taxBands_def fl_nonneg)

lemma statutoryTax_le:
  assumes "0 \<le> t" "t \<le> 8589934592"
  shows "statutoryTax t \<le> 2500000000"
proof -
  have p: "bandPart 800000 3000000 t \<le> 2200000" "bandPart 3000000 12000000 t \<le> 9000000"
    "bandPart 12000000 25000000 t \<le> 13000000" "bandPart 25000000 50000000 t \<le> 25000000"
    by (simp_all add: bandPart_def)
  have "max 0 (t - 50000000) \<le> 8539934592" using assms by simp
  then have "statutoryTax t \<le> 2200000 * (15 / 100) + 9000000 * (18 / 100) + 13000000 * (21 / 100) +
      25000000 * (23 / 100) + 8539934592 * (25 / 100)"
    unfolding statutoryTax_def by (intro add_mono mult_right_mono p) simp_all
  then show ?thesis by simp
qed

lemma statutoryTax_nonneg: "0 \<le> statutoryTax t"
  by (simp add: statutoryTax_def bandPart_def)

lemma annualPaye_near:
  assumes "0 \<le> t" "t \<le> 8589934592"
  shows "statutoryTax t - 11 / 2000 \<le> annualPaye t \<and> annualPaye t \<le> statutoryTax t + 11 / 2000"
proof -
  note n = payeLoop_near [OF assms] and s = statutoryTax_le [OF assms] statutoryTax_nonneg [of t]
  have "payeLoop t 0 0 taxBands - 27 / 5000 \<le> annualPaye t \<and> annualPaye t \<le> payeLoop t 0 0 taxBands + 27 / 5000"
    unfolding annualPaye_def by (rule round2_error) (use n s in linarith)+
  then show ?thesis using n by linarith
qed

lemma annualPaye_free: "0 \<le> t \<Longrightarrow> t \<le> 800000 \<Longrightarrow> annualPaye t = 0"
  by (simp add: annualPaye_def taxBands_def dmul_def dadd_def)

lemma annualPaye_mono: "t \<le> t' \<Longrightarrow> annualPaye t \<le> annualPaye t'"
  unfolding annualPaye_def by (intro round2_mono payeLoop_mono ratesOk_bands) simp_all

lemma annualPaye_nonneg: "0 \<le> annualPaye t"
  unfolding annualPaye_def by (rule round2_nonneg) (rule payeLoop_ge [OF ratesOk_bands], simp)

text \<open>
  C18. PAYE: \<open>annualPaye\<close> is the tax of the statute's bands to within half a kobo and the
  rounding of doubles, for every taxable amount up to \<open>2 ^ 33\<close> naira; it is never negative,
  nothing up to 800,000, and more taxable pay never means less tax.
\<close>

theorem annual_paye_follows_statute:
  assumes "0 \<le> t" "t \<le> 8589934592"
  shows "statutoryTax t - 11 / 2000 \<le> annualPaye t \<and> annualPaye t \<le> statutoryTax t + 11 / 2000 \<and>
    0 \<le> annualPaye t \<and> (t \<le> 800000 \<longrightarrow> annualPaye t = 0) \<and> (\<forall>t'\<ge>t. annualPaye t \<le> annualPaye t')"
  using annualPaye_near [OF assms] annualPaye_nonneg annualPaye_free [OF assms(1)] annualPaye_mono by blast

theorem annual_paye_follows_statute_witness: "330000 - 11 / 2000 \<le> annualPaye 3000000 \<and> annualPaye 3000000 \<le> 330000 + 11 / 2000"
  using annual_paye_follows_statute [of 3000000] by (simp add: statutoryTax_def bandPart_def)

section \<open>The year's tax\<close>

lemma fl_cent [simp]: "fl (cent k) = cent k"
  by (simp add: cent_def)

lemma dsub_le_self: "fl a = a \<Longrightarrow> 0 \<le> b \<Longrightarrow> dsub a b \<le> a"
  using fl_mono [of "a - b" a] by (simp add: dsub_def)

text \<open>The share of the tax that is due, when the whole year is behind: the tax.\<close>

lemma due_in_full:
  assumes T: "1 / 200 \<le> T" "T \<le> 2500000001" and P: "800000 \<le> P"
  shows "T - 1 / 262144 \<le> ddiv (dmul T P) P \<and> ddiv (dmul T P) P \<le> T + 1 / 262144"
proof -
  let ?e = "1 / 9007199254740992 :: rat"
  have x1: "1 \<le> T * P"
  proof -
    have "(1 / 200) * 800000 \<le> T * P" by (rule mult_mono) (use T P in linarith)+
    then show ?thesis by simp
  qed
  have m: "T * P - T * P / 9007199254740992 \<le> dmul T P \<and> dmul T P \<le> T * P + T * P / 9007199254740992"
    by (rule dmul_within) (use x1 in linarith)+
  have pp: "0 < P" using P by simp
  have q: "T - T / 9007199254740992 \<le> dmul T P / P \<and> dmul T P / P \<le> T + T / 9007199254740992"
    using m pp by (simp add: le_divide_eq divide_le_eq left_diff_distrib distrib_right mult.assoc mult.commute [of P T])
  have "dmul T P / P - 8589934592 / 9007199254740992 \<le> ddiv (dmul T P) P \<and>
      ddiv (dmul T P) P \<le> dmul T P / P + 8589934592 / 9007199254740992"
    unfolding ddiv_def by (rule fl_within) (use q T in linarith)+
  then show ?thesis using q T by linarith
qed

text \<open>
  Cumulative PAYE settles the year: in the last period of the tax year, with the taxable
  pay and the PAYE of the earlier periods on record, what is deducted now brings the total to
  exactly the annual tax on the year's taxable pay less relief, to the kobo; only when more
  was deducted before than the year's tax is nothing deducted and the excess stays. It holds
  for any history and up to 8.58 thousand million naira a year.
\<close>

theorem paye_settles_year:
  assumes h: "0 < yd_periods y" and a: "yd_taxable y = cent a" "0 \<le> a" and b: "t = cent b" "0 \<le> b"
    and ab: "a + b \<le> 858000000000" and q: "yd_paye y = cent q" "0 \<le> q" "q \<le> 858000000000" and r: "0 \<le> r"
  shows "\<exists>T. annualPaye (max 0 (dsub (dadd (yd_taxable y) t) r)) = cent T \<and>
    cumulativePaye t (Some y) before 0 r = cent (max 0 (T - q))"
proof -
  define P where "P = dadd (yd_taxable y) t"
  define x where "x = max 0 (dsub P r)"
  have ca: "of_int a / 100 - 1 / 1048576 \<le> cent a \<and> cent a \<le> of_int a / 100 + 1 / 1048576"
    and cb: "of_int b / 100 - 1 / 1048576 \<le> cent b \<and> cent b \<le> of_int b / 100 + 1 / 1048576"
    and cq: "of_int q / 100 - 1 / 1048576 \<le> cent q \<and> cent q \<le> of_int q / 100 + 1 / 1048576"
    by (rule cent_near; use a b ab q in linarith)+
  have i: "(of_int a + of_int b :: rat) \<le> 858000000000" "0 \<le> (of_int a :: rat)" "0 \<le> (of_int b :: rat)"
    "(of_int q :: rat) \<le> 858000000000" "0 \<le> (of_int q :: rat)"
    using ab a(2) b(2) q of_int_le_iff [of "a + b" 858000000000, where ?'a = rat]
      of_int_le_iff [of q 858000000000, where ?'a = rat] by simp_all
  have P: "P \<le> 8580000001"
  proof -
    have "cent a + cent b - 17179869184 / 9007199254740992 \<le> dadd (cent a) (cent b) \<and>
      dadd (cent a) (cent b) \<le> cent a + cent b + 17179869184 / 9007199254740992"
      by (rule dadd_within) (use ca cb i in linarith)+
    then show ?thesis using ca cb i unfolding P_def a(1) b(1) by linarith
  qed
  have flP: "fl P = P" by (simp add: P_def)
  have xP: "x \<le> P \<or> x = 0" using dsub_le_self [OF flP r] by (auto simp: x_def max_def)
  have x: "0 \<le> x" "x \<le> 8589934592" using xP P by (auto simp: x_def)
  have cum: "cumulativePaye t (Some y) before 0 r = (if P \<le> 0 then 0
      else round2 (max 0 (dsub (ddiv (dmul (annualPaye x) P) P) (cent q))))"
    using h b(1) q(1) fl_of_int [of 1] by (simp add: cumulativePaye_def Let_def dmul_def dadd_def P_def x_def)
  obtain T where T: "annualPaye x = cent T" using round2_is_cent by (auto simp: annualPaye_def)
  show ?thesis
  proof (cases "annualPaye x \<le> 0")
    case True
    then have z: "annualPaye x = 0" using annualPaye_nonneg [of x] by linarith
    have "cent 0 \<le> cent q" by (rule cent_mono [OF q(2)])
    then have "dsub 0 (cent q) \<le> 0" unfolding dsub_def by (intro fl_nonpos) simp
    then have "cumulativePaye t (Some y) before 0 r = 0" unfolding cum z by (simp add: dmul_def ddiv_def)
    then show ?thesis using z q(2) unfolding P_def x_def by (intro exI [of _ 0]) simp
  next
    case False
    have T1: "1 \<le> T"
    proof (rule ccontr)
      assume "\<not> 1 \<le> T"
      then have "cent T \<le> cent 0" by (intro cent_mono) simp
      then show False using False T by simp
    qed
    have x8: "800000 < x" using annualPaye_free [OF x(1)] False by (cases "x \<le> 800000") simp_all
    then have P8: "800000 \<le> P" using xP by auto
    have Tx: "annualPaye x \<le> 2500000001" using annualPaye_near [OF x] statutoryTax_le [OF x] by linarith
    have "1 / 100 - 1 / 1048576 \<le> cent 1" using cent_near [of 1] by simp
    then have Tl: "1 / 200 \<le> annualPaye x" using cent_mono [OF T1] T by simp
    have Tm: "T \<le> maxCents" using cent_ge [of T] Tx T by (cases "maxCents < T") simp_all
    have cT: "of_int T / 100 - 1 / 1048576 \<le> cent T \<and> cent T \<le> of_int T / 100 + 1 / 1048576"
      by (rule cent_near) (use T1 Tm in linarith)+
    define d where "d = ddiv (dmul (annualPaye x) P) P"
    have d: "cent T - 1 / 262144 \<le> d \<and> d \<le> cent T + 1 / 262144"
      using due_in_full [OF Tl Tx P8] unfolding d_def T .
    have cT9: "cent T \<le> 2500000001" "0 \<le> cent T" using Tx Tl T by simp_all
    have s: "d - cent q - 17179869184 / 9007199254740992 \<le> dsub d (cent q) \<and>
        dsub d (cent q) \<le> d - cent q + 17179869184 / 9007199254740992"
      unfolding dsub_def by (rule fl_within) (use d cT9 cq i in linarith)+
    have Pp: "\<not> P \<le> 0" using P8 by simp
    have "cumulativePaye t (Some y) before 0 r = cent (max 0 (T - q))"
    proof (cases "q \<le> T")
      case True
      have e: "of_int (T - q) / 100 = (of_int T / 100 - of_int q / 100 :: rat)" by (simp add: diff_divide_distrib)
      have "(0 :: rat) \<le> of_int T / 100 - of_int q / 100" using True by (simp add: diff_divide_distrib [symmetric])
      then have w: "of_int T / 100 - of_int q / 100 - 9 / 2000 \<le> dsub d (cent q)"
        "dsub d (cent q) \<le> of_int T / 100 - of_int q / 100 + 9 / 2000"
        "dsub d (cent q) \<le> 1099511627776" "0 \<le> (of_int T / 100 - of_int q / 100 + 9 / 2000 :: rat)"
        using s d cT cq cT9 i by linarith+
      have "round2 (max 0 (dsub d (cent q))) = cent (T - q)"
      proof (rule round2_near)
        note w = w [folded e]
        show "of_int (T - q) / 100 - 9 / 2000 \<le> max 0 (dsub d (cent q))"
          by (rule order_trans [OF w(1) max.cobounded2])
        show "max 0 (dsub d (cent q)) \<le> of_int (T - q) / 100 + 9 / 2000"
          by (rule max.boundedI [OF w(4,2)])
        show "- 1099511627776 \<le> max 0 (dsub d (cent q))" by (rule order_trans [OF _ max.cobounded1]) simp
        show "max 0 (dsub d (cent q)) \<le> 1099511627776" by (rule max.boundedI [OF _ w(3)]) simp
      qed
      then show ?thesis using True Pp unfolding cum d_def by simp
    next
      case False
      then have "(of_int T :: rat) + 1 \<le> of_int q" by (metis add1_zle_eq not_le of_int_1 of_int_add of_int_le_iff)
      then have "(of_int T / 100 :: rat) + 1 / 100 \<le> of_int q / 100" by (simp add: field_simps)
      then have "dsub d (cent q) \<le> 0" using s d cT cq by linarith
      then show ?thesis using False Pp unfolding cum d_def [symmetric] by simp
    qed
    then show ?thesis using T unfolding P_def x_def by blast
  qed
qed

theorem paye_settles_year_witness:
  "\<exists>T. annualPaye (max 0 (dsub (dadd (cent 1100000000) (cent 100000000)) 500000)) = cent T \<and>
     cumulativePaye (cent 100000000) (Some \<lparr>yd_taxable = cent 1100000000, yd_paye = cent 150000000, yd_periods = 11\<rparr>)
       11 0 500000 = cent (max 0 (T - 150000000))"
  using paye_settles_year [of "\<lparr>yd_taxable = cent 1100000000, yd_paye = cent 150000000, yd_periods = 11\<rparr>"
      1100000000 "cent 100000000" 100000000 150000000 500000 11] by simp

section \<open>Example payslips\<close>

definition demoStructure :: "rat \<Rightarrow> salary_structure" where
  "demoStructure base =
     \<lparr>ss_employeeId = 1, ss_effectiveFrom = 0, ss_effectiveTo = None, ss_currency = ''NGN'', ss_payFrequency = MONTHLY,
      ss_baseAmount = base,
      ss_lines = [\<lparr>sl_code = ''HOUSING'', sl_label = ''Housing'', sl_type = EARNING, sl_method = FIXED, sl_value = 200000\<rparr>,
        \<lparr>sl_code = ''LOAN'', sl_label = ''Loan'', sl_type = DEDUCTION, sl_method = FIXED, sl_value = 10000\<rparr>],
      ss_annualRent = None, ss_notes = None, ss_createdByUserId = None\<rparr>"

definition demoOctober :: period where
  "demoOctober = \<lparr>pe_start = dayNum 2026 10 1, pe_end = dayNum 2026 10 31\<rparr>"

lemma fl_numeral: "(numeral n :: int) \<le> 2 ^ 53 \<Longrightarrow> fl (numeral n) = numeral n"
  using fl_of_int [of "numeral n"] by simp

lemma fl_one: "fl 1 = 1"
  using fl_of_int [of 1] by simp

lemma round2_int:
  assumes k: "0 \<le> k" "k \<le> 8589934592"
  shows "round2 (of_int k) = of_int k"
proof -
  have "of_int (100 * k) / 100 = (of_int k :: rat)" by simp
  then have "cent (100 * k) = of_int k" using k by (simp add: cent_def fl_of_int)
  then show ?thesis using fl_idem_cent [of "100 * k"] k by simp
qed

lemma round2_numeral: "(numeral n :: int) \<le> 8589934592 \<Longrightarrow> round2 (numeral n) = numeral n"
  using round2_int [of "numeral n"] by simp

lemmas pay_eval = calculatePay_def contractualPay_def wholePeriod_def addSegment_def structureLines_def prorate_def
  amountFor_def mergeLines_def employedDays_def daysBetween_def sumOf_def labelBase_def dsum_def dadd_def dsub_def dmul_def
  ddiv_def fl_numeral fl_one round2_numeral Let_def

lemma demo_days: "dayNum 2026 10 1 = 20727" "dayNum 2026 10 15 = 20741" "dayNum 2026 10 16 = 20742" "dayNum 2026 10 31 = 20757"
  by code_simp+

definition demoPayslip :: payslip_computation where
  "demoPayslip =
     \<lparr>pc_baseAmount = 500000, pc_gross = 700000, pc_totalDeductions = 10000, pc_net = 690000,
      pc_lines = [\<lparr>pl_code = ''BASE'', pl_label = ''Base pay'', pl_type = EARNING, pl_amount = 500000\<rparr>,
        \<lparr>pl_code = ''HOUSING'', pl_label = ''Housing'', pl_type = EARNING, pl_amount = 200000\<rparr>,
        \<lparr>pl_code = ''LOAN'', pl_label = ''Loan'', pl_type = DEDUCTION, pl_amount = 10000\<rparr>],
      pc_employedFraction = 1, pc_taxableAmount = None, pc_employerCosts = []\<rparr>"

lemma demo_payslip:
  "calculatePay Simple (wholePeriod (demoStructure 500000) demoOctober) demoOctober None None = Inr demoPayslip"
  by (simp add: pay_eval demoStructure_def demoOctober_def demo_days demoPayslip_def)


text \<open>
  A fixed deduction is not scaled to the days of its segment: in a month in which the pay
  changes, both structures' monthly loan repayments are taken.
\<close>

lemma fixed_deduction_taken_twice:
  "\<exists>c. contractualPay [\<lparr>sg_structure = demoStructure 500000, sg_start = dayNum 2026 10 1, sg_end = dayNum 2026 10 15\<rparr>,
      \<lparr>sg_structure = demoStructure 620000, sg_start = dayNum 2026 10 16, sg_end = dayNum 2026 10 31\<rparr>] demoOctober None = Inr c \<and>
    pc_totalDeductions c = 20000"
proof -
  have s: "0 < fl (15 / 31)" "fl (15 / 31) < 1" "0 < fl (16 / 31)" "fl (16 / 31) < 1"
    using fl_within [of 1 "15 / 31"] fl_within [of 1 "16 / 31"] by simp_all
  then show ?thesis
    by (simp add: pay_eval demoStructure_def demoOctober_def demo_days)
qed

end
