(* ===== verification/Documents.thy ===== *)
theory Documents
  imports Employees Bits Paging
begin

text \<open>
  Documents (\<open>src/modules/documents\<close>): rows, their versions and the stored objects, the checks
  of an upload (\<open>common/files/file-signature.ts\<close>), who may read what, and the download links.
  The storage provider, the malware scanner, SHA-256 and the signing of URLs are parameters;
  what an upload answers (the key, or a failure) is an argument of the operations.
\<close>

section \<open>File contents\<close>

type_synonym buffer = "byte list"

definition asciiBytes :: "string \<Rightarrow> buffer" where
  "asciiBytes s = List.map (\<lambda>c. of_nat (of_char c)) s"

definition startsWith :: "buffer \<Rightarrow> byte list \<Rightarrow> bool" where
  "startsWith buf bytes \<longleftrightarrow> length bytes \<le> length buf \<and> take (length bytes) buf = bytes"

definition bufferIncludes :: "buffer \<Rightarrow> byte list \<Rightarrow> bool" where
  "bufferIncludes buf bytes \<longleftrightarrow> list_ex (\<lambda>i. startsWith (drop i buf) bytes) [0..<Suc (length buf)]"

definition isZip :: "buffer \<Rightarrow> bool" where
  "isZip buf \<longleftrightarrow> startsWith buf [0x50, 0x4b, 0x03, 0x04] \<and> bufferIncludes buf (asciiBytes ''[Content_Types].xml'')"

text \<open>What \<open>TextDecoder('utf-8', {fatal: true})\<close> accepts.\<close>

definition byteIn :: "byte \<Rightarrow> byte \<Rightarrow> byte \<Rightarrow> bool" where
  "byteIn lo hi b \<longleftrightarrow> lo \<le> b \<and> b \<le> hi"

text \<open>The range of the second byte after a lead byte, and how many bytes follow it.\<close>

definition utf8Second :: "byte \<Rightarrow> (byte \<times> byte \<times> nat) option" where
  "utf8Second b =
     (if byteIn 0xC2 0xDF b then Some (0x80, 0xBF, 0)
      else if b = 0xE0 then Some (0xA0, 0xBF, 1)
      else if b = 0xED then Some (0x80, 0x9F, 1)
      else if byteIn 0xE1 0xEF b then Some (0x80, 0xBF, 1)
      else if b = 0xF0 then Some (0x90, 0xBF, 2)
      else if byteIn 0xF1 0xF3 b then Some (0x80, 0xBF, 2)
      else if b = 0xF4 then Some (0x80, 0x8F, 2)
      else None)"

text \<open>
  The decoder between two bytes: the range the next byte must lie in and how many bytes follow
  it, or nothing when a character starts.
\<close>

fun utf8From :: "(byte \<times> byte \<times> nat) option \<Rightarrow> buffer \<Rightarrow> bool" where
  "utf8From None [] = True"
| "utf8From (Some _) [] = False"
| "utf8From None (b # bs) =
     (if b < 0x80 then utf8From None bs
      else case utf8Second b of None \<Rightarrow> False | Some need \<Rightarrow> utf8From (Some need) bs)"
| "utf8From (Some (lo, hi, n)) (b # bs) =
     (byteIn lo hi b \<and> utf8From (case n of 0 \<Rightarrow> None | Suc m \<Rightarrow> Some (0x80, 0xBF, m)) bs)"

definition isUtf8Text :: "buffer \<Rightarrow> bool" where
  "isUtf8Text buf \<longleftrightarrow> 0 \<notin> set buf \<and> utf8From None buf"

definition contentMatchesType :: "buffer \<Rightarrow> string \<Rightarrow> bool" where
  "contentMatchesType buf mime =
     (if mime = ''application/pdf'' then bufferIncludes (take 1024 buf) (asciiBytes ''%PDF-'')
      else if mime = ''application/vnd.openxmlformats-officedocument.wordprocessingml.document''
      then isZip buf \<and> bufferIncludes buf (asciiBytes ''word/'')
      else if mime = ''application/vnd.openxmlformats-officedocument.spreadsheetml.sheet''
      then isZip buf \<and> bufferIncludes buf (asciiBytes ''xl/'')
      else if mime = ''application/msword'' \<or> mime = ''application/vnd.ms-excel''
      then startsWith buf [0xd0, 0xcf, 0x11, 0xe0, 0xa1, 0xb1, 0x1a, 0xe1]
      else if mime = ''image/png'' then startsWith buf [0x89, 0x50, 0x4e, 0x47, 0x0d, 0x0a, 0x1a, 0x0a]
      else if mime = ''image/jpeg'' then startsWith buf [0xff, 0xd8, 0xff]
      else if mime = ''image/webp''
      then take 4 buf = asciiBytes ''RIFF'' \<and> take 4 (drop 8 buf) = asciiBytes ''WEBP''
      else if mime = ''text/plain'' \<or> mime = ''text/csv'' \<or> mime = ''text/markdown'' then isUtf8Text buf
      else False)"

definition ALLOWED_PHOTO_MIME :: "string list" where
  "ALLOWED_PHOTO_MIME = [''image/png'', ''image/jpeg'', ''image/webp'']"

definition ALLOWED_DOCUMENT_MIME :: "string list" where
  "ALLOWED_DOCUMENT_MIME =
     [''application/pdf'', ''application/msword'',
      ''application/vnd.openxmlformats-officedocument.wordprocessingml.document'',
      ''application/vnd.ms-excel'',
      ''application/vnd.openxmlformats-officedocument.spreadsheetml.sheet'',
      ''text/plain'', ''text/csv'', ''text/markdown'', ''image/png'', ''image/jpeg'', ''image/webp'']"

section \<open>Rows\<close>

datatype document_category = CONTRACT | ID | CERTIFICATE | PAYSLIP | POLICY | RESUME | OTHER

datatype document_visibility = PRIVATE | RESTRICTED | COMPANY

datatype resource_type = IMAGE | RAW

definition resourceTypeFor :: "string \<Rightarrow> resource_type" where
  "resourceTypeFor mime = (if isPrefixOf ''image/'' mime then IMAGE else RAW)"

record document =
  doc_ownerEmployeeId :: "id option"
  doc_title :: string
  doc_description :: "string option"
  doc_category :: document_category
  doc_visibility :: document_visibility
  doc_currentVersionId :: "id option"
  doc_uploadedByUserId :: "id option"
  doc_kbIndexedAt :: "int option"
  doc_createdAt :: int
  doc_deletedAt :: "int option"

record document_version =
  dv_documentId :: id
  dv_version :: nat
  dv_storageKey :: string
  dv_resourceType :: resource_type
  dv_originalFilename :: string
  dv_mimeType :: string
  dv_bytes :: nat
  dv_checksum :: string
  dv_uploadedByUserId :: "id option"
  dv_createdAt :: int

text \<open>A file as multer hands it over.\<close>

record uploaded_file =
  uf_originalname :: string
  uf_mimetype :: string
  uf_size :: nat
  uf_buffer :: buffer

text \<open>
  The scanner: \<open>None\<close> when switched off; a scan that throws answers \<open>None\<close>. \<open>de_signedUrl\<close> is
  given the key, the resource type, the expiry and the file name.
\<close>

record doc_env =
  de_maxBytes :: nat
  de_downloadTtl :: int
  de_scanner :: "(buffer \<Rightarrow> bool option) option"
  de_sha256 :: "buffer \<Rightarrow> string"
  de_signedUrl :: "string \<Rightarrow> resource_type \<Rightarrow> int \<Rightarrow> string \<Rightarrow> string"

text \<open>What the storage answers to an upload; a failed upload throws.\<close>

record stored_object =
  so_key :: string
  so_url :: string

record doc_state = org_state +
  documentsT :: "document table"
  versionsT :: "document_version table"
  objects :: "string \<Rightarrow> buffer option"
  docEvents :: "id list"

definition emitChanged :: "id \<Rightarrow> 'a doc_state_scheme \<Rightarrow> 'a doc_state_scheme" where
  "emitChanged k s = s\<lparr>docEvents := docEvents s @ [k]\<rparr>"

section \<open>Checks\<close>

definition validateUpload :: "doc_env \<Rightarrow> uploaded_file option \<Rightarrow> string list \<Rightarrow> nat \<Rightarrow> uploaded_file res" where
  "validateUpload D file allowed maxBytes =
     orThrow file (BadRequest ''A file is required (multipart field file)'') (\<lambda>f.
     throwIf (maxBytes < uf_size f) (PayloadTooLarge ''File exceeds the limit'')
     (throwIf (uf_mimetype f \<notin> set allowed) (UnsupportedMediaType ''Unsupported file type'')
     (throwIf (\<not> contentMatchesType (uf_buffer f) (uf_mimetype f)) (UnsupportedMediaType ''File content is not valid'')
     (case de_scanner D of None \<Rightarrow> Inr f
      | Some scan \<Rightarrow>
          orThrow (scan (uf_buffer f))
            (ServiceUnavailable ''Upload scanning is unavailable; please try again shortly'') (\<lambda>clean.
          throwIf (\<not> clean) (UnprocessableEntity ''The file was rejected by the malware scanner'') (Inr f))))))"

definition documentById :: "'a doc_state_scheme \<Rightarrow> id \<Rightarrow> document res" where
  "documentById s k = orThrow (lookup (documentsT s) k) (NotFound ''Document not found'')
     (\<lambda>d. throwIf (doc_deletedAt d \<noteq> None) (NotFound ''Document not found'') (Inr d))"

definition versionsOf :: "'a doc_state_scheme \<Rightarrow> id \<Rightarrow> (id \<times> document_version) list" where
  "versionsOf s k = List.filter (\<lambda>(j, v). dv_documentId v = k) (versionsT s)"

definition assertCanEdit :: "document \<Rightarrow> auth_user \<Rightarrow> unit res" where
  "assertCanEdit d actor =
     throwIf (DOCUMENT_MANAGE \<notin> set (au_permissions actor) \<and> doc_uploadedByUserId d \<noteq> Some (au_id actor))
       (Forbidden ''Only the uploader or HR can change this document'') (Inr ())"

definition requireProfile :: "auth_user \<Rightarrow> 'a doc_state_scheme \<Rightarrow> id res" where
  "requireProfile actor s = orThrow (findByUserId s (au_id actor))
     (NotFound ''No employee profile is linked to your login'') (\<lambda>(k, _). Inr k)"

definition HR_ONLY_CATEGORIES :: "document_category list" where
  "HR_ONLY_CATEGORIES = [document_category.CONTRACT, PAYSLIP]"

section \<open>Writing\<close>

text \<open>The unique index is on document and version; a failed upload leaves the rows as they are.\<close>

definition storeVersion ::
  "doc_env \<Rightarrow> int \<Rightarrow> stored_object option \<Rightarrow> id \<Rightarrow> id \<Rightarrow> uploaded_file \<Rightarrow> id option \<Rightarrow> nat
     \<Rightarrow> 'a doc_state_scheme \<Rightarrow> unit res \<times> 'a doc_state_scheme" where
  "storeVersion D now stored vid k f userId version s =
     (case stored of None \<Rightarrow> (Inl (InternalError ''Upload failed''), s)
      | Some so \<Rightarrow>
          (let s1 = s\<lparr>objects := (objects s)(so_key so := Some (uf_buffer f))\<rparr>
           in if list_ex (\<lambda>v. dv_documentId v = k \<and> dv_version v = version) (rows (versionsT s))
              then (Inl (Conflict ''Resource already exists''), s1)
              else (Inr (), s1\<lparr>
                versionsT := insertRow vid
                  \<lparr>dv_documentId = k, dv_version = version, dv_storageKey = so_key so,
                   dv_resourceType = resourceTypeFor (uf_mimetype f), dv_originalFilename = uf_originalname f,
                   dv_mimeType = uf_mimetype f, dv_bytes = uf_size f, dv_checksum = de_sha256 D (uf_buffer f),
                   dv_uploadedByUserId = userId, dv_createdAt = now\<rparr> (versionsT s),
                documentsT := updateRow k (\<lambda>d. d\<lparr>doc_currentVersionId := Some vid, doc_kbIndexedAt := None\<rparr>)
                  (documentsT s)\<rparr>)))"

text \<open>Store the version, then tell the consumers; the operation answers the document's key.\<close>

definition storeAndEmit ::
  "doc_env \<Rightarrow> int \<Rightarrow> stored_object option \<Rightarrow> id \<Rightarrow> id \<Rightarrow> uploaded_file \<Rightarrow> id option \<Rightarrow> nat
     \<Rightarrow> 'a doc_state_scheme \<Rightarrow> id res \<times> 'a doc_state_scheme" where
  "storeAndEmit D now stored vid k f userId version s =
     (case storeVersion D now stored vid k f userId version s of
        (Inl e, s1) \<Rightarrow> (Inl e, s1)
      | (Inr _, s1) \<Rightarrow> (Inr k, emitChanged k s1))"

definition newDocument ::
  "id option \<Rightarrow> string \<Rightarrow> string option \<Rightarrow> document_category \<Rightarrow> document_visibility \<Rightarrow> id option \<Rightarrow> int \<Rightarrow> document" where
  "newDocument owner title description category visibility uploader now =
     \<lparr>doc_ownerEmployeeId = owner, doc_title = title, doc_description = description,
      doc_category = category, doc_visibility = visibility, doc_currentVersionId = None,
      doc_uploadedByUserId = uploader, doc_kbIndexedAt = None, doc_createdAt = now, doc_deletedAt = None\<rparr>"

record create_document_dto =
  cdd_title :: string
  cdd_description :: "string option"
  cdd_category :: document_category
  cdd_visibility :: "document_visibility option"
  cdd_ownerEmployeeId :: "id option"

text \<open>The checks of \<open>create\<close>; the answer is the owner of the new document.\<close>

definition checkCreate ::
  "doc_env \<Rightarrow> uploaded_file option \<Rightarrow> create_document_dto \<Rightarrow> auth_user \<Rightarrow> 'a doc_state_scheme
     \<Rightarrow> (uploaded_file \<times> id option) res" where
  "checkCreate D file dto actor s =
     bindE (validateUpload D file ALLOWED_DOCUMENT_MIME (de_maxBytes D)) (\<lambda>f.
     let isHr = DOCUMENT_MANAGE \<in> set (au_permissions actor);
         visibility = patched PRIVATE (cdd_visibility dto)
     in bindE (case cdd_ownerEmployeeId dto of Some o' \<Rightarrow> Inr (Some o')
               | None \<Rightarrow> if isHr then Inr None else bindE (requireProfile actor s) (\<lambda>k. Inr (Some k))) (\<lambda>owner.
        bindE (if isHr then Inr () else
                 bindE (requireProfile actor s) (\<lambda>me.
                 throwIf (owner \<noteq> Some me) (Forbidden ''You can only upload documents for yourself'')
                 (throwIf (visibility = COMPANY) (Forbidden ''Only HR can publish company-wide documents'')
                 (throwIf (cdd_category dto \<in> set HR_ONLY_CATEGORIES) (Forbidden ''Documents issued by HR'')
                 (Inr ()))))) (\<lambda>_.
        bindE (whenSome owner (\<lambda>k. throwIf (findEmployee s k = None) (NotFound ''Owner employee not found'') (Inr ()))) (\<lambda>_.
        throwIf (owner = None \<and> visibility \<noteq> COMPANY)
          (BadRequest ''Company-level documents must have COMPANY visibility'')
        (Inr (f, owner))))))"

definition createDocument ::
  "doc_env \<Rightarrow> int \<Rightarrow> stored_object option \<Rightarrow> id \<Rightarrow> id \<Rightarrow> uploaded_file option \<Rightarrow> create_document_dto \<Rightarrow> auth_user
     \<Rightarrow> 'a doc_state_scheme \<Rightarrow> id res \<times> 'a doc_state_scheme" where
  "createDocument D now stored k vid file dto actor s =
     (case checkCreate D file dto actor s of
        Inl e \<Rightarrow> (Inl e, s)
      | Inr (f, owner) \<Rightarrow>
          storeAndEmit D now stored vid k f (Some (au_id actor)) 1
            (s\<lparr>documentsT := insertRow k
              (newDocument owner (cdd_title dto) (cdd_description dto) (cdd_category dto)
                (patched PRIVATE (cdd_visibility dto)) (Some (au_id actor)) now) (documentsT s)\<rparr>))"

record system_document =
  sd_ownerEmployeeId :: "id option"
  sd_title :: string
  sd_description :: "string option"
  sd_category :: document_category
  sd_visibility :: document_visibility
  sd_file :: uploaded_file
  sd_createdByUserId :: "id option"

definition createSystemDocument ::
  "doc_env \<Rightarrow> int \<Rightarrow> stored_object option \<Rightarrow> id \<Rightarrow> id \<Rightarrow> system_document \<Rightarrow> 'a doc_state_scheme
     \<Rightarrow> id res \<times> 'a doc_state_scheme" where
  "createSystemDocument D now stored k vid inp s =
     (case validateUpload D (Some (sd_file inp)) ALLOWED_DOCUMENT_MIME (de_maxBytes D) of
        Inl e \<Rightarrow> (Inl e, s)
      | Inr f \<Rightarrow>
          storeAndEmit D now stored vid k f (sd_createdByUserId inp) 1
            (s\<lparr>documentsT := insertRow k
              (newDocument (sd_ownerEmployeeId inp) (sd_title inp) (sd_description inp) (sd_category inp)
                (sd_visibility inp) (sd_createdByUserId inp) now) (documentsT s)\<rparr>))"

definition maxVersion :: "(id \<times> document_version) list \<Rightarrow> nat" where
  "maxVersion vs = foldl (\<lambda>m (_, v). max m (dv_version v)) 0 vs"

definition addVersion ::
  "doc_env \<Rightarrow> int \<Rightarrow> stored_object option \<Rightarrow> id \<Rightarrow> id \<Rightarrow> uploaded_file option \<Rightarrow> auth_user
     \<Rightarrow> 'a doc_state_scheme \<Rightarrow> id res \<times> 'a doc_state_scheme" where
  "addVersion D now stored vid k file actor s =
     (case bindE (documentById s k) (\<lambda>d. bindE (assertCanEdit d actor) (\<lambda>_.
             validateUpload D file ALLOWED_DOCUMENT_MIME (de_maxBytes D))) of
        Inl e \<Rightarrow> (Inl e, s)
      | Inr f \<Rightarrow> storeAndEmit D now stored vid k f (Some (au_id actor)) (maxVersion (versionsOf s k) + 1) s)"

record update_document_dto =
  udd_title :: "string option"
  udd_description :: "string option option"
  udd_category :: "document_category option"
  udd_visibility :: "document_visibility option"

definition updateDocument ::
  "id \<Rightarrow> update_document_dto \<Rightarrow> auth_user \<Rightarrow> 'a doc_state_scheme \<Rightarrow> 'a doc_state_scheme res" where
  "updateDocument k dto actor s =
     bindE (documentById s k) (\<lambda>d.
     bindE (assertCanEdit d actor) (\<lambda>_.
     let isHr = DOCUMENT_MANAGE \<in> set (au_permissions actor)
     in throwIf (\<not> isHr \<and> udd_visibility dto = Some COMPANY) (Forbidden ''Only HR can publish company-wide documents'')
       (throwIf (\<not> isHr \<and> (case udd_category dto of None \<Rightarrow> False | Some c \<Rightarrow> c \<in> set HR_ONLY_CATEGORIES))
          (Forbidden ''Documents issued by HR'')
       (Inr (emitChanged k (s\<lparr>documentsT := updateRow k (\<lambda>_. d
          \<lparr>doc_title := patched (doc_title d) (udd_title dto),
           doc_description := patched (doc_description d) (udd_description dto),
           doc_category := patched (doc_category d) (udd_category dto),
           doc_visibility := patched (doc_visibility d) (udd_visibility dto),
           doc_kbIndexedAt := None\<rparr>) (documentsT s)\<rparr>))))))"

definition removeDocument :: "int \<Rightarrow> id \<Rightarrow> auth_user \<Rightarrow> 'a doc_state_scheme \<Rightarrow> 'a doc_state_scheme res" where
  "removeDocument now k actor s =
     bindE (documentById s k) (\<lambda>d.
     bindE (assertCanEdit d actor) (\<lambda>_.
     Inr (emitChanged k (s\<lparr>documentsT := updateRow k (\<lambda>d. d\<lparr>doc_deletedAt := Some now\<rparr>) (documentsT s)\<rparr>))))"

text \<open>\<open>ok\<close> answers, for each object, whether the provider deletes it; a failure ends the purge.\<close>

fun deleteObjects :: "(string \<Rightarrow> bool) \<Rightarrow> string list \<Rightarrow> (string \<Rightarrow> buffer option) \<Rightarrow> unit res \<times> (string \<Rightarrow> buffer option)" where
  "deleteObjects ok [] m = (Inr (), m)"
| "deleteObjects ok (x # xs) m =
     (if ok x then deleteObjects ok xs (m(x := None)) else (Inl (InternalError ''Delete failed''), m))"

definition purgeDocument :: "(string \<Rightarrow> bool) \<Rightarrow> id \<Rightarrow> 'a doc_state_scheme \<Rightarrow> unit res \<times> 'a doc_state_scheme" where
  "purgeDocument ok k s =
     (if lookup (documentsT s) k = None then (Inr (), s)
      else case deleteObjects ok (List.map (\<lambda>(_, v). dv_storageKey v) (versionsOf s k)) (objects s) of
        (Inl e, m) \<Rightarrow> (Inl e, s\<lparr>objects := m\<rparr>)
      | (Inr _, m) \<Rightarrow> (Inr (), emitChanged k (s\<lparr>objects := m, documentsT := deleteRow k (documentsT s),
          versionsT := deleteWhere (\<lambda>v. dv_documentId v = k) (versionsT s)\<rparr>)))"

definition setProfilePhoto ::
  "doc_env \<Rightarrow> stored_object option \<Rightarrow> id \<Rightarrow> uploaded_file option \<Rightarrow> 'a doc_state_scheme
     \<Rightarrow> unit res \<times> 'a doc_state_scheme" where
  "setProfilePhoto D stored k file s =
     (case bindE (validateUpload D file ALLOWED_PHOTO_MIME (5 * 1024 * 1024)) (\<lambda>f.
             bindE (employeeById s k) (\<lambda>_. Inr f)) of
        Inl e \<Rightarrow> (Inl e, s)
      | Inr f \<Rightarrow>
          (case stored of None \<Rightarrow> (Inl (InternalError ''Upload failed''), s)
           | Some so \<Rightarrow>
               (let s1 = s\<lparr>objects := (objects s)(so_key so := Some (uf_buffer f))\<rparr>
                in case updateEmployee k
                     \<lparr>us_personalEmail = None, us_phone = None, us_address = None, us_emergencyContact = None,
                      ue_firstName = None, ue_lastName = None, ue_workEmail = None, ue_dateOfBirth = None,
                      ue_employmentType = None, ue_photoUrl = Some (Some (so_url so))\<rparr> s1 of
                   Inl e \<Rightarrow> (Inl e, s1) | Inr s2 \<Rightarrow> (Inr (), s2))))"

section \<open>Reading\<close>

text \<open>
  The \<open>tree\<close> query of the reports: levels of everyone whose manager is in the level before,
  former employees included. It stops at 5000 rows; a level that is not the last has a row, so
  5000 levels hold them.
\<close>

definition reportsOf :: "employee table \<Rightarrow> id list \<Rightarrow> id list" where
  "reportsOf T level = nextLevel e_managerId T level"

definition reportIds :: "'a org_state_scheme \<Rightarrow> id \<Rightarrow> id list" where
  "reportIds s m = take 5000 (levels (reportsOf (employeesT s)) 4999 (reportsOf (employeesT s) [m]))"

record document_query = page_query +
  dq_ownerEmployeeId :: "id option"
  dq_category :: "document_category option"
  dq_visibility :: "document_visibility option"
  dq_search :: "string option"

definition documentMatches :: "document_query \<Rightarrow> document \<Rightarrow> bool" where
  "documentMatches q d \<longleftrightarrow>
     (case dq_ownerEmployeeId q of None \<Rightarrow> True | Some o' \<Rightarrow> doc_ownerEmployeeId d = Some o') \<and>
     (case dq_category q of None \<Rightarrow> True | Some c \<Rightarrow> doc_category d = c) \<and>
     (case dq_visibility q of None \<Rightarrow> True | Some v \<Rightarrow> doc_visibility d = v) \<and>
     (case dq_search q of None \<Rightarrow> True | Some w \<Rightarrow> w = [] \<or> ilikeInfix w (doc_title d))"

text \<open>The scope of \<open>list\<close>: the condition it adds for callers without \<open>document:read_all\<close>.\<close>

definition listScope :: "auth_user \<Rightarrow> 'a doc_state_scheme \<Rightarrow> document \<Rightarrow> bool" where
  "listScope actor s d \<longleftrightarrow>
     DOCUMENT_READ_ALL \<in> set (au_permissions actor) \<or>
     doc_visibility d = COMPANY \<or>
     (case findByUserId s (au_id actor) of None \<Rightarrow> False
      | Some (me, _) \<Rightarrow>
          doc_ownerEmployeeId d = Some me \<or>
          (doc_visibility d = PRIVATE \<and>
           (case doc_ownerEmployeeId d of None \<Rightarrow> False | Some o' \<Rightarrow> o' \<in> set (reportIds s me))))"

definition documentsFor :: "document_query \<Rightarrow> auth_user \<Rightarrow> 'a doc_state_scheme \<Rightarrow> (id \<times> document) list" where
  "documentsFor q actor s = sort_key (\<lambda>(k, d). - doc_createdAt d)
     (List.filter (\<lambda>(k, d). doc_deletedAt d = None \<and> listScope actor s d \<and> documentMatches q d) (documentsT s))"

definition listDocuments :: "document_query \<Rightarrow> auth_user \<Rightarrow> 'a doc_state_scheme \<Rightarrow> (id \<times> document) list \<times> page_meta" where
  "listDocuments q actor s = pageOf q (documentsFor q actor s)"

definition myDocuments :: "document_query \<Rightarrow> auth_user \<Rightarrow> 'a doc_state_scheme \<Rightarrow> ((id \<times> document) list \<times> page_meta) res" where
  "myDocuments q actor s = bindE (requireProfile actor s) (\<lambda>me.
     Inr (listDocuments (q\<lparr>dq_ownerEmployeeId := Some me\<rparr>) actor s))"

definition canRead :: "'a doc_state_scheme \<Rightarrow> document \<Rightarrow> auth_user \<Rightarrow> bool" where
  "canRead s d actor =
     (if DOCUMENT_READ_ALL \<in> set (au_permissions actor) then True
      else if doc_visibility d = COMPANY then True
      else case doc_ownerEmployeeId d of None \<Rightarrow> False
      | Some owner \<Rightarrow>
          (case findByUserId s (au_id actor) of None \<Rightarrow> False
           | Some (me, _) \<Rightarrow>
               if owner = me then True
               else if doc_visibility d = RESTRICTED then False
               else isInReportingChain s me owner))"

definition getDocument :: "id \<Rightarrow> auth_user \<Rightarrow> 'a doc_state_scheme \<Rightarrow> document res" where
  "getDocument k actor s = bindE (documentById s k) (\<lambda>d.
     throwIf (\<not> canRead s d actor) (Forbidden ''Forbidden'') (Inr d))"

record download_link =
  dl_url :: string
  dl_expiresAt :: int
  dl_filename :: string
  dl_version :: nat

text \<open>Version 0 is falsy in the code, and asks for the current one.\<close>

definition linkFor :: "doc_env \<Rightarrow> int \<Rightarrow> id \<Rightarrow> document \<Rightarrow> int option \<Rightarrow> 'a doc_state_scheme \<Rightarrow> download_link res" where
  "linkFor D now k d version s =
     orThrow (if version = None \<or> version = Some 0
              then (case doc_currentVersionId d of None \<Rightarrow> None | Some vid \<Rightarrow> lookup (versionsT s) vid)
              else map_option snd (List.find (\<lambda>(_, v). version = Some (int (dv_version v))) (versionsOf s k)))
       (NotFound ''Version not found'') (\<lambda>v.
     Inr \<lparr>dl_url = de_signedUrl D (dv_storageKey v) (dv_resourceType v) (now div 1000 + de_downloadTtl D) (dv_originalFilename v),
          dl_expiresAt = now + de_downloadTtl D * 1000, dl_filename = dv_originalFilename v, dl_version = dv_version v\<rparr>)"

definition downloadLink :: "doc_env \<Rightarrow> int \<Rightarrow> id \<Rightarrow> auth_user \<Rightarrow> int option \<Rightarrow> 'a doc_state_scheme \<Rightarrow> download_link res" where
  "downloadLink D now k actor version s = bindE (documentById s k) (\<lambda>d.
     throwIf (\<not> canRead s d actor) (Forbidden ''Forbidden'') (linkFor D now k d version s))"

definition downloadLinkUnchecked :: "doc_env \<Rightarrow> int \<Rightarrow> id \<Rightarrow> int option \<Rightarrow> 'a doc_state_scheme \<Rightarrow> download_link res" where
  "downloadLinkUnchecked D now k version s = bindE (documentById s k) (\<lambda>d. linkFor D now k d version s)"

end
