(* ===== verification/DocProps.thy ===== *)
theory DocProps
  imports Documents OrgViews
begin

text \<open>
  What the documents component guarantees: the list, the record and the download link follow
  one rule of access, and every version that is recorded can be served as it was checked.
\<close>

section \<open>Reports\<close>

lemma rowParent_mgrOf: "rowParent e_managerId T = mgrOf T"
  by (simp add: fun_eq_iff rowParent_def mgrOf_def)

lemmas report_facts = tree.set_levels [where f = "e_managerId :: employee \<Rightarrow> _", unfolded rowParent_mgrOf]
  tree.distinct_levels [where f = "e_managerId :: employee \<Rightarrow> _", unfolded rowParent_mgrOf]
  nextLevel_iff [where f = "e_managerId :: employee \<Rightarrow> _", unfolded rowParent_mgrOf]

lemma reportIds_exact:
  assumes l: "lineInv (employeesT s)" and n: "length (employeesT s) \<le> 5000"
  shows "k \<in> set (reportIds s m) \<longleftrightarrow> reaches (managerOf s) k m"
proof -
  let ?T = "employeesT s"
  have kd: "keyed ?T" and a: "acyclicUp (mgrOf ?T)" using l by (simp_all add: lineInv_def)
  let ?L = "levels (nextLevel e_managerId ?T) 4999 (nextLevel e_managerId ?T [m])"
  have mem: "k \<in> set ?L \<longleftrightarrow> (\<exists>i\<le>4999. up (mgrOf ?T) k (Suc i) = Some m)" for k
    unfolding report_facts(1) [OF kd] Bex_def report_facts(3) [OF kd] up_Suc_end by (fastforce split: option.splits)
  have sub: "x \<in> set (keys ?T)" if "up (mgrOf ?T) x (Suc i) = Some y" for x y i
    using that lookup_Some_keys [of ?T x] by (auto simp: mgrOf_def split: option.splits)
  have "distinct ?L"
  proof (rule report_facts(2) [OF kd a])
    show "distinct (nextLevel e_managerId ?T [m])" by (simp add: distinct_nextLevel [OF kd])
    fix x y assume xy: "x \<in> set (nextLevel e_managerId ?T [m])" "y \<in> set (nextLevel e_managerId ?T [m])"
    show "\<not> reaches (mgrOf ?T) x y"
    proof
      assume r: "reaches (mgrOf ?T) x y"
      have px: "mgrOf ?T x = Some m" "mgrOf ?T y = Some m" using xy by (simp_all add: report_facts(3) [OF kd])
      have "m = y \<or> reaches (mgrOf ?T) m y" using reaches_cases [OF r] px(1) by auto
      then have "reaches (mgrOf ?T) m m" using px(2) reaches_step reaches_trans by metis
      then show False using acyclicD [OF a] by blast
    qed
  qed
  moreover have "set ?L \<subseteq> set (keys ?T)" using mem sub by blast
  ultimately have "length ?L \<le> card (set (keys ?T))"
    using card_mono [of "set (keys ?T)" "set ?L"] by (simp add: distinct_card)
  also have "\<dots> \<le> length ?T" using card_length [of "keys ?T"] by (simp add: keys_def)
  finally have "length ?L \<le> 5000" using n by simp
  moreover have "reportsOf ?T = nextLevel e_managerId ?T" by (simp add: fun_eq_iff reportsOf_def)
  ultimately have "reportIds s m = ?L" by (simp add: reportIds_def)
  moreover have "i \<le> 4999" if i: "up (mgrOf ?T) k (Suc i) = Some m" for i
  proof (rule ccontr)
    assume c: "\<not> i \<le> 4999"
    have "card (set (keys ?T)) \<le> 5000" using card_length [of "keys ?T"] n by (simp add: keys_def)
    then have "Suc (card (set (keys ?T))) \<le> Suc i" using c by simp
    moreover have "up (mgrOf ?T) k (Suc (card (set (keys ?T)))) = None"
    proof (rule acyclic_terminates [OF a finite_set])
      show "k' \<in> set (keys ?T)" if "mgrOf ?T k' = Some m'" for k' m'
        using that by (auto simp: mgrOf_def split: option.splits intro: lookup_Some_keys)
    qed
    ultimately have "up (mgrOf ?T) k (Suc i) = None" using up_None_mono by blast
    then show False using i by (simp del: up.simps)
  qed
  ultimately show ?thesis using mem [of k] by (auto simp: reaches_def managerOf_mgrOf simp del: up.simps)
qed

section \<open>One rule of access\<close>

text \<open>The rule: everything for HR; company documents; one's own; the PRIVATE ones of one's reports.\<close>

definition mayRead :: "'a doc_state_scheme \<Rightarrow> auth_user \<Rightarrow> document \<Rightarrow> bool" where
  "mayRead s actor d \<longleftrightarrow>
     DOCUMENT_READ_ALL \<in> set (au_permissions actor) \<or> doc_visibility d = COMPANY \<or>
     (\<exists>owner me e. doc_ownerEmployeeId d = Some owner \<and> findByUserId s (au_id actor) = Some (me, e) \<and>
        (owner = me \<or> doc_visibility d = PRIVATE \<and> reaches (managerOf s) owner me))"

lemma canRead_rule:
  assumes "shallow s"
  shows "canRead s d actor = mayRead s actor d"
proof -
  have "isInReportingChain s me owner \<longleftrightarrow> owner \<noteq> me \<and> reaches (managerOf s) owner me" for me owner
    using chain_sound chain_complete [OF assms, of owner me] by (auto simp: isInReportingChain_def)
  then show ?thesis
    by (cases "doc_visibility d") (auto simp: canRead_def mayRead_def split: option.splits)
qed

lemma listScope_rule:
  assumes "lineInv (employeesT s)" "length (employeesT s) \<le> 5000"
  shows "listScope actor s d = mayRead s actor d"
  using reportIds_exact [OF assms] by (auto simp: listScope_def mayRead_def split: option.splits)

lemma documentsFor_iff:
  assumes "keyed (documentsT s)"
  shows "(k, d) \<in> set (documentsFor q actor s) \<longleftrightarrow>
    documentById s k = Inr d \<and> listScope actor s d \<and> documentMatches q d"
  using row_lookup [OF assms, of k d]
  by (auto simp: documentsFor_def documentById_def orThrow_def throwIf_def split: option.splits if_splits)

text \<open>
  C19. The record of a document, its download link and the list of documents follow one rule:
  \<open>document:read_all\<close> sees everything, everybody the COMPANY documents, the owner his own, and a
  manager the PRIVATE documents of everyone below him; RESTRICTED documents stay with the owner
  and HR. The rule holds while no reporting line is longer than 50 and there are at most 5000
  employees, which is how far the two recursive queries look.
\<close>

theorem document_access_rule:
  assumes "orgInv s" and "shallow s" and "length (employeesT s) \<le> 5000"
    and "keyed (documentsT s)" and "documentById s k = Inr d"
  shows "getDocument k actor s = (if mayRead s actor d then Inr d else Inl (Forbidden ''Forbidden'')) \<and>
    (downloadLink D now k actor version s = Inl (Forbidden ''Forbidden'') \<longleftrightarrow> \<not> mayRead s actor d) \<and>
    ((k, d) \<in> set (documentsFor q actor s) \<longleftrightarrow> mayRead s actor d \<and> documentMatches q d)"
proof (intro conjI)
  have l: "lineInv (employeesT s)" using assms(1) by (simp add: orgInv_def)
  show "getDocument k actor s = (if mayRead s actor d then Inr d else Inl (Forbidden ''Forbidden''))"
    using assms(5) canRead_rule [OF assms(2), of d actor] by (simp add: getDocument_def throwIf_def)
  show "downloadLink D now k actor version s = Inl (Forbidden ''Forbidden'') \<longleftrightarrow> \<not> mayRead s actor d"
    using assms(5) canRead_rule [OF assms(2), of d actor]
    by (auto simp: downloadLink_def throwIf_def linkFor_def orThrow_def split: option.splits)
  show "(k, d) \<in> set (documentsFor q actor s) \<longleftrightarrow> mayRead s actor d \<and> documentMatches q d"
    using assms(5) by (simp add: documentsFor_iff [OF assms(4)] listScope_rule [OF l assms(3)])
qed

text \<open>An organisation with a login: ada (1) manages ben (2).\<close>

definition demoLinked :: org_state where
  "demoLinked = saveEmployee 1 (\<lambda>e. e\<lparr>e_userId := Some 5\<rparr>) (demoOrg3\<lparr>usersT := [(5, demoAdmin)]\<rparr>)"

lemma demo_linked_tables: "employeesT demoLinked =
    [(1, (newEmployee (demoHire ''ada'' None) (nextEmployeeNumber demoOrg1))\<lparr>e_userId := Some 5\<rparr>),
     (2, newEmployee (demoHire ''ben'' (Some 1)) (nextEmployeeNumber demoOrg2))]"
  by (simp add: demoLinked_def saveEmployee_def demo_tables updateRow_def)

lemma demo_linked_inv: "orgInv demoLinked" and demo_linked_shallow: "shallow demoLinked"
proof -
  let ?s = "demoOrg3\<lparr>usersT := [(5, demoAdmin)]\<rparr>"
  have "orgInv demoOrg3" by (rule org.reach_inv [OF demo_init demo_path])
  then have i: "orgInv ?s"
    by (rule orgInv_kept [rotated]) (simp add: orgKept_def demoOrg3_def demo_tables demoHired_def Let_def emitOrg_def addHistory_def keys_def)
  have l: "linkUser 1 5 ?s = Inr demoLinked"
    by (simp add: linkUser_def employeeById_def findEmployee_def demo_tables lookup_def newEmployee_def demoHire_def
        assertUserLinkable_def userLinked_def rows_def findById_def findUser_def demoAdmin_def invitedUser_def demoLinked_def throwIf_def)
  show o: "orgInv demoLinked" by (rule linkUser_inv [OF i l])
  show "shallow demoLinked" by (rule small_shallow [OF o]) (simp add: demo_linked_tables)
qed

text \<open>The same organisation with the tables of the modules on top.\<close>

lemma org_extend [simp]:
  "employeesT (org_state.extend s m) = employeesT s" "departmentsT (org_state.extend s m) = departmentsT s"
  "usersT (org_state.extend s m) = usersT s"
  by (cases s; simp add: org_state.defs)+

lemma orgInv_extend [simp]: "orgInv (org_state.extend s m) = orgInv s" "shallow (org_state.extend s m) = shallow s"
  by (simp_all add: orgInv_def shallow_def managerOf_mgrOf)

definition demoDocument :: "document_visibility \<Rightarrow> document" where
  "demoDocument v = newDocument (Some 2) ''Review'' None OTHER v (Some 9) 0"

definition demoDocs :: doc_state where
  "demoDocs = org_state.extend demoLinked
     (doc_state.fields [(1, demoDocument PRIVATE), (2, demoDocument RESTRICTED)] [] (\<lambda>_. None) [])"

theorem document_access_rule_witness:
  "getDocument 1 demoActor demoDocs = Inr (demoDocument PRIVATE) \<and>
   getDocument 2 demoActor demoDocs = Inl (Forbidden ''Forbidden'')"
proof -
  have t: "employeesT demoDocs = employeesT demoLinked"
    "documentsT demoDocs = [(1, demoDocument PRIVATE), (2, demoDocument RESTRICTED)]"
    by (simp_all add: demoDocs_def) (cases demoLinked, simp add: org_state.defs doc_state.defs)
  have i: "orgInv demoDocs" "shallow demoDocs" "length (employeesT demoDocs) \<le> 5000"
    using demo_linked_inv demo_linked_shallow by (simp_all add: demoDocs_def demo_linked_tables)
  have k: "keyed (documentsT demoDocs)" by (simp add: t keyed_def keys_def)
  have d: "documentById demoDocs 1 = Inr (demoDocument PRIVATE)" "documentById demoDocs 2 = Inr (demoDocument RESTRICTED)"
    by (simp_all add: documentById_def t lookup_def demoDocument_def newDocument_def)
  have me: "findByUserId demoDocs 5 = Some (1, (newEmployee (demoHire ''ada'' None) (nextEmployeeNumber demoOrg1))\<lparr>e_userId := Some 5\<rparr>)"
    by (simp add: findByUserId_def t demo_linked_tables newEmployee_def)
  have "managerOf demoDocs 2 = Some 1"
    by (simp add: managerOf_def t demo_linked_tables lookup_def newEmployee_def demoHire_def)
  then have "mayRead demoDocs demoActor (demoDocument PRIVATE)" "\<not> mayRead demoDocs demoActor (demoDocument RESTRICTED)"
    using me reaches_step [of "managerOf demoDocs" 2 1]
    by (simp_all add: mayRead_def demoActor_def demoDocument_def newDocument_def)
  then show ?thesis
    using document_access_rule [OF i k d(1), of demoActor] document_access_rule [OF i k d(2), of demoActor] by simp
qed

section \<open>Versions\<close>

definition versionsIn :: "document_version table \<Rightarrow> id \<Rightarrow> (id \<times> document_version) list" where
  "versionsIn V k = List.filter (\<lambda>(j, v). dv_documentId v = k) V"

text \<open>The versions of a document are numbered 1, 2, ... in the order they came; the last is current.\<close>

definition numbered :: "document_version table \<Rightarrow> id \<Rightarrow> document \<Rightarrow> bool" where
  "numbered V k d \<longleftrightarrow>
     List.map (\<lambda>(_, v). dv_version v) (versionsIn V k) = [1..<Suc (length (versionsIn V k))] \<and>
     doc_currentVersionId d = (if versionsIn V k = [] then None else Some (fst (last (versionsIn V k))))"

text \<open>What is stored under the key of a version is what was checked and hashed.\<close>

definition intact :: "doc_env \<Rightarrow> (string \<Rightarrow> buffer option) \<Rightarrow> document_version \<Rightarrow> bool" where
  "intact D m v \<longleftrightarrow> (\<exists>buf. m (dv_storageKey v) = Some buf \<and> dv_checksum v = de_sha256 D buf \<and>
     contentMatchesType buf (dv_mimeType v) \<and> dv_mimeType v \<in> set ALLOWED_DOCUMENT_MIME \<and>
     dv_bytes v \<le> de_maxBytes D \<and> (\<forall>scan. de_scanner D = Some scan \<longrightarrow> scan buf = Some True))"

definition docInv :: "doc_env \<Rightarrow> 'a doc_state_scheme \<Rightarrow> bool" where
  "docInv D s \<longleftrightarrow> keyed (documentsT s) \<and> keyed (versionsT s) \<and>
     (\<forall>k d. lookup (documentsT s) k = Some d \<longrightarrow> numbered (versionsT s) k d) \<and>
     (\<forall>v\<in>set (rows (versionsT s)). lookup (documentsT s) (dv_documentId v) \<noteq> None \<and> intact D (objects s) v) \<and>
     distinct (List.map dv_storageKey (rows (versionsT s)))"

lemma versionsOf_in: "versionsOf s k = versionsIn (versionsT s) k"
  by (simp add: versionsOf_def versionsIn_def)

lemma versionsIn_insert:
  "versionsIn (insertRow vid v V) k = versionsIn V k @ (if dv_documentId v = k then [(vid, v)] else [])"
  by (simp add: versionsIn_def insertRow_def)

lemma versionsIn_delete:
  "versionsIn (deleteWhere (\<lambda>v. dv_documentId v = k) V) j = (if j = k then [] else versionsIn V j)"
  by (auto simp: versionsIn_def deleteWhere_def filter_empty_conv intro: filter_cong)

lemma versionsIn_none: "(\<And>v. v \<in> set (rows V) \<Longrightarrow> dv_documentId v \<noteq> k) \<Longrightarrow> versionsIn V k = []"
  by (fastforce simp: versionsIn_def rows_def filter_empty_conv)

lemma maxVersion_append: "maxVersion (vs @ [(vid, v)]) = max (maxVersion vs) (dv_version v)"
  by (simp add: maxVersion_def)

lemma maxVersion_numbered:
  "List.map (\<lambda>(_, v). dv_version v) vs = [1..<Suc (length vs)] \<Longrightarrow> maxVersion vs = length vs"
proof (induction vs rule: rev_induct)
  case (snoc x vs)
  obtain vid v where x: "x = (vid, v)" by (cases x)
  have "List.map (\<lambda>(_, v). dv_version v) vs = [1..<Suc (length vs)]" "dv_version v = Suc (length vs)"
    using snoc.prems x by simp_all
  then show ?case using snoc.IH x by (simp add: maxVersion_append)
qed (simp add: maxVersion_def)

lemma validateUpload_ok:
  assumes "validateUpload D file allowed n = Inr f"
  shows "file = Some f \<and> uf_size f \<le> n \<and> uf_mimetype f \<in> set allowed \<and>
    contentMatchesType (uf_buffer f) (uf_mimetype f) \<and>
    (\<forall>scan. de_scanner D = Some scan \<longrightarrow> scan (uf_buffer f) = Some True)"
  using assms by (auto simp: validateUpload_def res_simps split: option.splits)

text \<open>An upload under a key that is not in use leaves the other objects as they are.\<close>

lemma intact_upload: "intact D m v \<Longrightarrow> m x = None \<Longrightarrow> intact D (m(x := Some buf)) v"
  unfolding intact_def by force

lemma storeVersion_inv:
  assumes i: "docInv D s" and vid: "vid \<notin> set (keys (versionsT s))"
    and so: "\<And>x. so = Some x \<Longrightarrow> objects s (so_key x) = None"
    and d: "lookup (documentsT s) k = Some d" and n: "n = Suc (length (versionsOf s k))"
    and ok: "uf_size f \<le> de_maxBytes D" "uf_mimetype f \<in> set ALLOWED_DOCUMENT_MIME"
      "contentMatchesType (uf_buffer f) (uf_mimetype f)"
      "\<forall>scan. de_scanner D = Some scan \<longrightarrow> scan (uf_buffer f) = Some True"
    and r: "storeAndEmit D now so vid k f u n s = (r, s')"
  shows "docInv D s'"
proof (cases so)
  case None
  then have "s' = s" using r by (simp add: storeAndEmit_def storeVersion_def)
  then show ?thesis using i by simp
next
  case (Some x)
  have fresh: "objects s (so_key x) = None" by (rule so [OF Some])
  have kept: "intact D ((objects s)(so_key x := Some (uf_buffer f))) v" if "v \<in> set (rows (versionsT s))" for v
    using i that fresh intact_upload by (auto simp: docInv_def)
  show ?thesis
  proof (cases "list_ex (\<lambda>v. dv_documentId v = k \<and> dv_version v = n) (rows (versionsT s))")
    case True
    then have "s' = s\<lparr>objects := (objects s)(so_key x := Some (uf_buffer f))\<rparr>"
      using r Some by (simp add: storeAndEmit_def storeVersion_def Let_def)
    then show ?thesis using i kept by (simp add: docInv_def)
  next
    case False
    define v where "v = \<lparr>dv_documentId = k, dv_version = n, dv_storageKey = so_key x,
      dv_resourceType = resourceTypeFor (uf_mimetype f), dv_originalFilename = uf_originalname f,
      dv_mimeType = uf_mimetype f, dv_bytes = uf_size f, dv_checksum = de_sha256 D (uf_buffer f),
      dv_uploadedByUserId = u, dv_createdAt = now\<rparr>"
    have s': "objects s' = (objects s)(so_key x := Some (uf_buffer f))" "versionsT s' = insertRow vid v (versionsT s)"
      "documentsT s' = updateRow k (\<lambda>d. d\<lparr>doc_currentVersionId := Some vid, doc_kbIndexedAt := None\<rparr>) (documentsT s)"
      using r Some False by (auto simp: storeAndEmit_def storeVersion_def Let_def v_def emitChanged_def)
    have "numbered (versionsT s') j d'" if j: "lookup (documentsT s') j = Some d'" for j d'
    proof (cases "j = k")
      case True
      have "numbered (versionsT s) k d" using i d by (simp add: docInv_def)
      then show ?thesis using j d True n
        by (auto simp: s' numbered_def versionsIn_insert versionsOf_in lookup_updateRow v_def)
    next
      case False
      then have "numbered (versionsT s) j d'" using i j by (simp add: docInv_def s' lookup_updateRow)
      then show ?thesis using False by (simp add: numbered_def s' versionsIn_insert v_def)
    qed
    moreover have "intact D (objects s') v" using ok by (auto simp: intact_def s' v_def)
    moreover have "so_key x \<notin> dv_storageKey ` set (rows (versionsT s))"
      using i fresh by (force simp: docInv_def intact_def)
    then have "distinct (List.map dv_storageKey (rows (versionsT s')))"
      using i by (simp add: docInv_def s' v_def)
    ultimately show ?thesis using i kept vid d
      by (auto simp: docInv_def s' lookup_updateRow v_def)
  qed
qed

text \<open>A new row has no versions yet.\<close>

lemma docInv_insert:
  assumes i: "docInv D s" and k: "k \<notin> set (keys (documentsT s))" and c: "doc_currentVersionId d = None"
  shows "docInv D (s\<lparr>documentsT := insertRow k d (documentsT s)\<rparr>) \<and> versionsOf s k = []"
proof -
  have e: "versionsIn (versionsT s) k = []"
    using i k lookup_None_iff [of "documentsT s" k] by (intro versionsIn_none) (auto simp: docInv_def)
  then have "numbered (versionsT s) j d'" if "lookup (insertRow k d (documentsT s)) j = Some d'" for j d'
    using that i c by (auto simp: lookup_insertRow [OF k] numbered_def docInv_def split: if_splits)
  then show ?thesis using i k e by (auto simp: docInv_def lookup_insertRow versionsOf_in)
qed

lemma docInv_edit:
  assumes "docInv D s" "\<And>d. doc_currentVersionId (f d) = doc_currentVersionId d"
  shows "docInv D (s\<lparr>documentsT := updateRow k f (documentsT s)\<rparr>)"
  using assms by (auto simp: docInv_def lookup_updateRow numbered_def split: if_splits)

definition freshKey :: "'a doc_state_scheme \<Rightarrow> stored_object option \<Rightarrow> bool" where
  "freshKey s so \<longleftrightarrow> (\<forall>x. so = Some x \<longrightarrow> objects s (so_key x) = None)"

definition docKept :: "'a doc_state_scheme \<Rightarrow> 'a doc_state_scheme \<Rightarrow> bool" where
  "docKept s s' \<longleftrightarrow> documentsT s' = documentsT s \<and> versionsT s' = versionsT s \<and> objects s' = objects s"

lemma docInv_kept: "docInv D s \<Longrightarrow> docKept s s' \<Longrightarrow> docInv D s'"
  by (simp add: docInv_def docKept_def)

lemma storeNew_inv:
  assumes i: "docInv D s" and k: "k \<notin> set (keys (documentsT s))" and vid: "vid \<notin> set (keys (versionsT s))"
    and so: "freshKey s so" and c: "doc_currentVersionId d = None"
    and f: "validateUpload D file ALLOWED_DOCUMENT_MIME (de_maxBytes D) = Inr f"
  shows "docInv D (snd (storeAndEmit D now so vid k f u 1 (s\<lparr>documentsT := insertRow k d (documentsT s)\<rparr>)))"
proof -
  let ?s = "s\<lparr>documentsT := insertRow k d (documentsT s)\<rparr>"
  obtain r s' where r: "storeAndEmit D now so vid k f u 1 ?s = (r, s')" by (cases "storeAndEmit D now so vid k f u 1 ?s")
  have n: "docInv D ?s" "versionsOf s k = []" using docInv_insert [OF i k c] by simp_all
  have "docInv D s'"
    by (rule storeVersion_inv [OF n(1) _ _ _ _ _ _ _ _ r])
      (use validateUpload_ok [OF f] vid so n(2) in \<open>auto simp: freshKey_def lookup_insertRow [OF k] versionsOf_def\<close>)
  then show ?thesis using r by simp
qed

lemma createDocument_inv:
  assumes "docInv D s" "k \<notin> set (keys (documentsT s))" "vid \<notin> set (keys (versionsT s))" "freshKey s so"
  shows "docInv D (snd (createDocument D now so k vid file dto actor s))"
proof (cases "checkCreate D file dto actor s")
  case (Inr x)
  obtain f owner where x: "x = (f, owner)" by (cases x)
  then obtain g where g: "validateUpload D file ALLOWED_DOCUMENT_MIME (de_maxBytes D) = Inr g" "g = f"
    using Inr unfolding checkCreate_def Let_def by (auto simp: res_simps)
  have "doc_currentVersionId (newDocument o' t d c v u n) = None" for o' t d c v u n by (simp add: newDocument_def)
  then show ?thesis using storeNew_inv [OF assms _ g(1)] g(2) x Inr by (simp add: createDocument_def)
qed (use assms in \<open>simp add: createDocument_def\<close>)

lemma createSystemDocument_inv:
  assumes "docInv D s" "k \<notin> set (keys (documentsT s))" "vid \<notin> set (keys (versionsT s))" "freshKey s so"
  shows "docInv D (snd (createSystemDocument D now so k vid inp s))"
proof (cases "validateUpload D (Some (sd_file inp)) ALLOWED_DOCUMENT_MIME (de_maxBytes D)")
  case (Inr f)
  then show ?thesis using storeNew_inv [OF assms _ Inr] by (simp add: createSystemDocument_def newDocument_def)
qed (use assms in \<open>simp add: createSystemDocument_def\<close>)

lemma documentById_lookup: "documentById s k = Inr d \<Longrightarrow> lookup (documentsT s) k = Some d \<and> doc_deletedAt d = None"
  by (auto simp: documentById_def res_simps)

lemma addVersion_inv:
  assumes i: "docInv D s" and vid: "vid \<notin> set (keys (versionsT s))" and so: "freshKey s so"
  shows "docInv D (snd (addVersion D now so vid k file actor s))"
proof (cases "bindE (documentById s k) (\<lambda>d. bindE (assertCanEdit d actor) (\<lambda>_.
    validateUpload D file ALLOWED_DOCUMENT_MIME (de_maxBytes D)))")
  case (Inr f)
  then obtain d where d: "documentById s k = Inr d" "validateUpload D file ALLOWED_DOCUMENT_MIME (de_maxBytes D) = Inr f"
    by (auto simp: res_simps)
  have l: "lookup (documentsT s) k = Some d" using documentById_lookup [OF d(1)] by simp
  then have "List.map (\<lambda>(_, v). dv_version v) (versionsOf s k) = [1..<Suc (length (versionsOf s k))]"
    using i by (auto simp: docInv_def numbered_def versionsOf_in)
  then have n: "maxVersion (versionsOf s k) + 1 = Suc (length (versionsOf s k))" by (simp add: maxVersion_numbered)
  obtain r s' where r: "storeAndEmit D now so vid k f (Some (au_id actor)) (maxVersion (versionsOf s k) + 1) s = (r, s')"
    by (cases "storeAndEmit D now so vid k f (Some (au_id actor)) (maxVersion (versionsOf s k) + 1) s")
  have "docInv D s'"
    by (rule storeVersion_inv [OF i vid _ l n _ _ _ _ r]) (use validateUpload_ok [OF d(2)] so in \<open>auto simp: freshKey_def\<close>)
  then show ?thesis using Inr r by (simp add: addVersion_def)
qed (use i in \<open>simp add: addVersion_def\<close>)

lemma updateDocument_inv: "docInv D s \<Longrightarrow> updateDocument k dto actor s = Inr s' \<Longrightarrow> docInv D s'"
proof -
  assume i: "docInv D s" and u: "updateDocument k dto actor s = Inr s'"
  obtain d t ds c v where d: "documentById s k = Inr d" and
    s': "s' = emitChanged k (s\<lparr>documentsT := updateRow k (\<lambda>_. d\<lparr>doc_title := t, doc_description := ds, doc_category := c,
      doc_visibility := v, doc_kbIndexedAt := None\<rparr>) (documentsT s)\<rparr>)"
    using u unfolding updateDocument_def Let_def by (auto simp: res_simps)
  have "docInv D (s\<lparr>documentsT := updateRow k (\<lambda>_. d\<lparr>doc_title := t, doc_description := ds, doc_category := c,
      doc_visibility := v, doc_kbIndexedAt := None\<rparr>) (documentsT s)\<rparr>)"
    using i documentById_lookup [OF d] by (auto simp: docInv_def lookup_updateRow numbered_def split: if_splits)
  then show ?thesis unfolding s' by (rule docInv_kept) (simp add: docKept_def emitChanged_def)
qed

lemma removeDocument_inv: "docInv D s \<Longrightarrow> removeDocument now k actor s = Inr s' \<Longrightarrow> docInv D s'"
proof -
  assume i: "docInv D s" and u: "removeDocument now k actor s = Inr s'"
  have s': "s' = emitChanged k (s\<lparr>documentsT := updateRow k (\<lambda>d. d\<lparr>doc_deletedAt := Some now\<rparr>) (documentsT s)\<rparr>)"
    using u by (auto simp: removeDocument_def res_simps)
  show ?thesis unfolding s' by (rule docInv_kept [OF docInv_edit [OF i]]) (auto simp: docKept_def emitChanged_def)
qed

lemma deleteObjects_all: "deleteObjects (\<lambda>_. True) xs m = (Inr (), \<lambda>x. if x \<in> set xs then None else m x)"
  by (induction xs arbitrary: m) (auto simp: fun_eq_iff)

lemma purgeDocument_inv:
  assumes i: "docInv D s"
  shows "docInv D (snd (purgeDocument (\<lambda>_. True) k s))"
proof (cases "lookup (documentsT s) k")
  case (Some d)
  let ?xs = "List.map (\<lambda>(_, v). dv_storageKey v) (versionsOf s k)"
  have "List.map (\<lambda>(_, v). f v) (List.filter (\<lambda>(_, v). p v) V) = List.map f (List.filter p (rows V))"
    for f p and V :: "document_version table"
    by (induction V) (auto simp: rows_def)
  then have xs: "?xs = List.map dv_storageKey (List.filter (\<lambda>v. dv_documentId v = k) (rows (versionsT s)))"
    by (simp add: versionsOf_def)
  have keep: "dv_storageKey v \<notin> set ?xs" if v: "v \<in> set (rows (versionsT s))" "dv_documentId v \<noteq> k" for v
  proof
    assume "dv_storageKey v \<in> set ?xs"
    then obtain w where w: "w \<in> set (rows (versionsT s))" "dv_documentId w = k" "dv_storageKey w = dv_storageKey v"
      unfolding xs by auto
    have "inj_on dv_storageKey (set (rows (versionsT s)))" using i by (simp add: docInv_def distinct_map)
    then have "w = v" using w(1,3) v(1) by (simp add: inj_on_def)
    then show False using w(2) v(2) by simp
  qed
  have "intact D (\<lambda>x. if x \<in> set ?xs then None else objects s x) v"
    if "v \<in> set (rows (versionsT s))" "dv_documentId v \<noteq> k" for v
    using i that keep [OF that] by (simp add: docInv_def intact_def)
  moreover have "distinct (keys (deleteWhere p T))" if "keyed T" for p and T :: "document_version table"
    using that by (simp add: keyed_def keys_def deleteWhere_def distinct_map_filter)
  moreover have "distinct (List.map dv_storageKey (List.filter p (rows (versionsT s))))" for p
    using i by (simp add: docInv_def distinct_map_filter)
  ultimately show ?thesis using i Some
    by (simp add: purgeDocument_def deleteObjects_all docInv_def emitChanged_def lookup_deleteRow keyed_deleteRow
        rows_deleteWhere numbered_def versionsIn_delete) (simp add: keyed_def)
qed (use i in \<open>simp add: purgeDocument_def\<close>)

lemma setProfilePhoto_inv:
  assumes i: "docInv D s" and so: "freshKey s so"
  shows "docInv D (snd (setProfilePhoto D so k file s))"
proof -
  have "docInv D (s\<lparr>objects := (objects s)(so_key x := Some b)\<rparr>)" if "so = Some x" for x b
    using i so that intact_upload by (auto simp: docInv_def freshKey_def)
  moreover have "docKept t t'" if "updateEmployee k dto t = Inr t'" for dto and t t' :: "'a doc_state_scheme"
    using that by (auto simp: updateEmployee_def res_simps docKept_def saveEmployee_def)
  ultimately show ?thesis using i docInv_kept
    by (fastforce simp: setProfilePhoto_def Let_def split: sum.splits option.splits)
qed

inductive doc_step :: "doc_env \<Rightarrow> 'a doc_state_scheme \<Rightarrow> 'a doc_state_scheme \<Rightarrow> bool" for D where
  create: "k \<notin> set (keys (documentsT s)) \<Longrightarrow> vid \<notin> set (keys (versionsT s)) \<Longrightarrow> freshKey s so \<Longrightarrow>
    doc_step D s (snd (createDocument D now so k vid file dto actor s))"
| system: "k \<notin> set (keys (documentsT s)) \<Longrightarrow> vid \<notin> set (keys (versionsT s)) \<Longrightarrow> freshKey s so \<Longrightarrow>
    doc_step D s (snd (createSystemDocument D now so k vid inp s))"
| version: "vid \<notin> set (keys (versionsT s)) \<Longrightarrow> freshKey s so \<Longrightarrow>
    doc_step D s (snd (addVersion D now so vid k file actor s))"
| edit: "updateDocument k udto actor s = Inr s' \<Longrightarrow> doc_step D s s'"
| drop: "removeDocument now k actor s = Inr s' \<Longrightarrow> doc_step D s s'"
| purge: "doc_step D s (snd (purgeDocument (\<lambda>_. True) k s))"
| photo: "freshKey s so \<Longrightarrow> doc_step D s (snd (setProfilePhoto D so k file s))"
| other: "docKept s s' \<Longrightarrow> doc_step D s s'"

definition docInit :: "'a doc_state_scheme \<Rightarrow> bool" where
  "docInit s \<longleftrightarrow> documentsT s = [] \<and> versionsT s = []"

interpretation docs: step_system docInit "doc_step D" "docInv D"
proof
  show "docInv D s" if "docInit s" for s :: "'a doc_state_scheme"
    using that by (simp add: docInit_def docInv_def keyed_def keys_def rows_def lookup_def)
  show "docInv D t" if "docInv D s" "doc_step D s t" for s t :: "'a doc_state_scheme"
    using that(2,1)
    by (induction rule: doc_step.induct)
      (auto intro: createDocument_inv createSystemDocument_inv addVersion_inv updateDocument_inv removeDocument_inv
        purgeDocument_inv setProfilePhoto_inv docInv_kept)
qed


text \<open>
  The row of a new document is saved before the file is uploaded, outside any transaction: a
  failed upload is answered with an error, and the row stays, without a version to serve.
\<close>

lemma failed_upload_leaves_row:
  assumes "checkCreate D file dto actor s = Inr (f, owner)" and "k \<notin> set (keys (documentsT s))"
  shows "\<exists>s' d. createDocument D now None k vid file dto actor s = (Inl (InternalError ''Upload failed''), s') \<and>
    documentById s' k = Inr d \<and> linkFor D now k d None s' = Inl (NotFound ''Version not found'')"
  using assms(1)
  by (simp add: createDocument_def storeAndEmit_def storeVersion_def documentById_def lookup_insertRow [OF assms(2)]
      newDocument_def linkFor_def)

definition demoDocEnv :: doc_env where
  "demoDocEnv = \<lparr>de_maxBytes = 10, de_downloadTtl = 60, de_scanner = None, de_sha256 = (\<lambda>_. ''hash''),
     de_signedUrl = (\<lambda>key _ _ _. key)\<rparr>"

definition demoUpload :: system_document where
  "demoUpload = \<lparr>sd_ownerEmployeeId = Some 2, sd_title = ''Note'', sd_description = None, sd_category = OTHER,
     sd_visibility = PRIVATE, sd_file =
       \<lparr>uf_originalname = ''n.txt'', uf_mimetype = ''text/plain'', uf_size = 2, uf_buffer = [104, 105]\<rparr>,
     sd_createdByUserId = None\<rparr>"

definition demoDocs0 :: doc_state where
  "demoDocs0 = org_state.extend demoLinked (doc_state.fields [] [] (\<lambda>_. None) [])"


end
