(* ===== verification/Payroll.thy ===== *)
theory Payroll
  imports Documents PayCalc
begin

text \<open>
  Payroll (\<open>payroll.service.ts\<close>): salary structures with their effective dates, the segments of
  a period, payroll runs from draft to paid, payslips, and who may see them. Amounts are doubles;
  a column \<open>numeric(14,2)\<close> keeps amounts in whole cents as they are, so storing is the identity on
  what the calculators answer. The PDF renderer is a parameter; notifications are a list of
  (login, payslip).
\<close>

section \<open>Rows\<close>

datatype run_status = DRAFT | CALCULATED | APPROVED | PAID

record run_totals =
  rt_employees :: nat
  rt_gross :: rat
  rt_deductions :: rat
  rt_net :: rat
  rt_employerCost :: rat
  rt_skipped :: nat

record payroll_run =
  pr_periodStart :: date
  pr_periodEnd :: date
  pr_payDate :: date
  pr_status :: run_status
  pr_departmentId :: "id option"
  pr_currency :: string
  pr_totals :: "run_totals option"
  pr_fxRates :: "(string \<times> rat) list"
  pr_notes :: "string option"
  pr_createdByUserId :: "id option"
  pr_approvedByUserId :: "id option"
  pr_approvedAt :: "int option"
  pr_paidAt :: "int option"

record payslip =
  ps_runId :: id
  ps_employeeId :: id
  ps_structureId :: "id option"
  ps_currency :: string
  ps_baseAmount :: rat
  ps_gross :: rat
  ps_totalDeductions :: rat
  ps_net :: rat
  ps_employerCosts :: "employer_cost list"
  ps_taxableAmount :: "rat option"
  ps_lines :: "payslip_line list"
  ps_documentId :: "id option"

record pay_state = doc_state +
  structuresT :: "salary_structure table"
  runsT :: "payroll_run table"
  payslipsT :: "payslip table"
  payNotices :: "(id \<times> id) list"

text \<open>The renderer is given the employee, the name of the department, the run and the payslip.\<close>

record pay_env =
  py_docs :: doc_env
  py_calculator :: calculator
  py_defaultCurrency :: string
  py_renderPdf :: "employee \<Rightarrow> string \<Rightarrow> payroll_run \<Rightarrow> payslip \<Rightarrow> buffer"

section \<open>Salary structures\<close>

record create_structure_dto =
  cs_employeeId :: id
  cs_effectiveFrom :: date
  cs_currency :: "string option"
  cs_payFrequency :: "pay_frequency option"
  cs_baseAmount :: rat
  cs_annualRent :: "rat option"
  cs_lines :: "structure_line list option"
  cs_notes :: "string option"

definition newStructure :: "pay_env \<Rightarrow> create_structure_dto \<Rightarrow> id \<Rightarrow> salary_structure" where
  "newStructure P dto actor =
     \<lparr>ss_employeeId = cs_employeeId dto, ss_effectiveFrom = cs_effectiveFrom dto, ss_effectiveTo = None,
      ss_currency = patched (py_defaultCurrency P) (cs_currency dto),
      ss_payFrequency = patched MONTHLY (cs_payFrequency dto), ss_baseAmount = cs_baseAmount dto,
      ss_lines = patched [] (cs_lines dto), ss_annualRent = cs_annualRent dto, ss_notes = cs_notes dto,
      ss_createdByUserId = Some actor\<rparr>"

definition currentStructure :: "'a pay_state_scheme \<Rightarrow> id \<Rightarrow> (id \<times> salary_structure) option" where
  "currentStructure s k =
     List.find (\<lambda>(_, st). ss_employeeId st = k \<and> ss_effectiveTo st = None) (structuresT s)"

definition createStructure ::
  "pay_env \<Rightarrow> id \<Rightarrow> create_structure_dto \<Rightarrow> id \<Rightarrow> 'a pay_state_scheme \<Rightarrow> 'a pay_state_scheme res" where
  "createStructure P sid dto actor s =
     bindE (employeeById s (cs_employeeId dto)) (\<lambda>_.
     let ls = patched [] (cs_lines dto)
     in throwIf (\<not> distinct (List.map sl_code ls)) (BadRequest ''Line codes must be unique'')
       (throwIf (list_ex (\<lambda>l. sl_type l = EARNING \<and> sl_method l = PERCENT_OF_GROSS) ls)
          (BadRequest ''PERCENT_OF_GROSS is only valid for deductions'')
       (bindE (case currentStructure s (cs_employeeId dto) of
          None \<Rightarrow> Inr (structuresT s)
        | Some (k, cur) \<Rightarrow>
            throwIf (cs_effectiveFrom dto \<le> ss_effectiveFrom cur)
              (BadRequest ''New structure must start after the current one'')
            (Inr (updateRow k (\<lambda>_. cur\<lparr>ss_effectiveTo := Some (addDays (cs_effectiveFrom dto) (-1))\<rparr>) (structuresT s))))
        (\<lambda>T. Inr (s\<lparr>structuresT := insertRow sid (newStructure P dto actor) T\<rparr>)))))"

definition structuresFor :: "'a pay_state_scheme \<Rightarrow> id \<Rightarrow> (id \<times> salary_structure) list" where
  "structuresFor s k = sort_key (\<lambda>(_, st). - ss_effectiveFrom st)
     (List.filter (\<lambda>(_, st). ss_employeeId st = k) (structuresT s))"

text \<open>In force on some day from \<open>a\<close> to \<open>b\<close>.\<close>

definition inForce :: "id \<Rightarrow> date \<Rightarrow> date \<Rightarrow> salary_structure \<Rightarrow> bool" where
  "inForce k a b st \<longleftrightarrow> ss_employeeId st = k \<and> ss_effectiveFrom st \<le> b \<and>
     (case ss_effectiveTo st of None \<Rightarrow> True | Some t \<Rightarrow> a \<le> t)"

definition clipSegment :: "period \<Rightarrow> salary_structure \<Rightarrow> pay_segment" where
  "clipSegment p st =
     \<lparr>sg_structure = st,
      sg_start = (if pe_start p < ss_effectiveFrom st then ss_effectiveFrom st else pe_start p),
      sg_end = (case ss_effectiveTo st of Some t \<Rightarrow> if t < pe_end p then t else pe_end p | None \<Rightarrow> pe_end p)\<rparr>"

definition segmentsFor :: "'a pay_state_scheme \<Rightarrow> id \<Rightarrow> period \<Rightarrow> (id \<times> pay_segment) list" where
  "segmentsFor s k p = List.map (\<lambda>(j, st). (j, clipSegment p st))
     (sort_key (\<lambda>(_, st). ss_effectiveFrom st)
       (List.filter (\<lambda>(_, st). inForce k (pe_start p) (pe_end p) st) (structuresT s)))"

definition structureOn :: "'a pay_state_scheme \<Rightarrow> id \<Rightarrow> date \<Rightarrow> (id \<times> salary_structure) option" where
  "structureOn s k d =
     (case sort_key (\<lambda>(_, st). - ss_effectiveFrom st) (List.filter (\<lambda>(_, st). inForce k d d st) (structuresT s)) of
        [] \<Rightarrow> None | x # _ \<Rightarrow> Some x)"

section \<open>Runs\<close>

definition findRun :: "'a pay_state_scheme \<Rightarrow> id \<Rightarrow> payroll_run res" where
  "findRun s rid = orThrow (lookup (runsT s) rid) (NotFound ''Payroll run not found'') Inr"

definition openRun :: "payroll_run \<Rightarrow> bool" where
  "openRun r \<longleftrightarrow> pr_status r \<in> {DRAFT, CALCULATED}"

definition saveRun :: "id \<Rightarrow> payroll_run \<Rightarrow> 'a pay_state_scheme \<Rightarrow> 'a pay_state_scheme" where
  "saveRun rid r s = s\<lparr>runsT := updateRow rid (\<lambda>_. r) (runsT s)\<rparr>"

definition setFxRates :: "id \<Rightarrow> (string \<times> rat) list \<Rightarrow> 'a pay_state_scheme \<Rightarrow> 'a pay_state_scheme res" where
  "setFxRates rid rates s =
     bindE (findRun s rid) (\<lambda>r.
     throwIf (\<not> openRun r) (BadRequest ''Cannot change rates on this run'')
     (Inr (saveRun rid (r\<lparr>pr_fxRates := rates\<rparr>) s)))"

record create_run_dto =
  cr_periodStart :: date
  cr_periodEnd :: date
  cr_payDate :: date
  cr_departmentId :: "id option"
  cr_currency :: "string option"
  cr_fxRates :: "(string \<times> rat) list option"
  cr_notes :: "string option"

definition overlapsRun :: "create_run_dto \<Rightarrow> payroll_run \<Rightarrow> bool" where
  "overlapsRun dto r \<longleftrightarrow> pr_status r \<noteq> DRAFT \<and> pr_departmentId r = cr_departmentId dto \<and>
     pr_periodStart r \<le> cr_periodEnd dto \<and> cr_periodStart dto \<le> pr_periodEnd r"

definition createRun ::
  "pay_env \<Rightarrow> id \<Rightarrow> create_run_dto \<Rightarrow> id \<Rightarrow> 'a pay_state_scheme \<Rightarrow> 'a pay_state_scheme res" where
  "createRun P rid dto actor s =
     throwIf (cr_periodEnd dto < cr_periodStart dto) (BadRequest ''periodEnd must be on or after periodStart'')
     (throwIf (list_ex (overlapsRun dto) (rows (runsT s))) (BadRequest ''Overlaps a run'')
     (Inr (s\<lparr>runsT := insertRow rid
       \<lparr>pr_periodStart = cr_periodStart dto, pr_periodEnd = cr_periodEnd dto, pr_payDate = cr_payDate dto,
        pr_status = DRAFT, pr_departmentId = cr_departmentId dto,
        pr_currency = patched (py_defaultCurrency P) (cr_currency dto), pr_totals = None,
        pr_fxRates = patched [] (cr_fxRates dto), pr_notes = cr_notes dto, pr_createdByUserId = Some actor,
        pr_approvedByUserId = None, pr_approvedAt = None, pr_paidAt = None\<rparr> (runsT s)\<rparr>)))"

record run_query = page_query +
  rq_status :: "run_status option"

definition listRuns :: "run_query \<Rightarrow> 'a pay_state_scheme \<Rightarrow> (id \<times> payroll_run) list \<times> page_meta" where
  "listRuns q s = pageOf q (sort_key (\<lambda>(_, r). - pr_periodStart r)
     (List.filter (\<lambda>(_, r). rq_status q = None \<or> rq_status q = Some (pr_status r)) (runsT s)))"

section \<open>Calculating\<close>

text \<open>A rate that is missing or zero is falsy.\<close>

definition fxRate :: "(string \<times> rat) list \<Rightarrow> string \<Rightarrow> rat option" where
  "fxRate rates c = (case map_of rates c of None \<Rightarrow> None | Some r \<Rightarrow> if r = 0 then None else Some r)"

text \<open>Without a rate the code would compute NaN; \<open>calculate\<close> has skipped the employee by then.\<close>

definition toCurrency :: "salary_structure \<Rightarrow> string \<Rightarrow> (string \<times> rat) list \<Rightarrow> salary_structure" where
  "toCurrency st currency rates =
     (if ss_currency st = currency then st
      else case map_of rates (ss_currency st) of None \<Rightarrow> st
      | Some rate \<Rightarrow> st\<lparr>ss_currency := currency, ss_baseAmount := round2 (dmul (ss_baseAmount st) rate),
          ss_lines := List.map (\<lambda>l. if sl_method l = FIXED then l\<lparr>sl_value := round2 (dmul (sl_value l) rate)\<rparr> else l)
            (ss_lines st),
          ss_annualRent := map_option (\<lambda>r. round2 (dmul r rate)) (ss_annualRent st)\<rparr>)"

text \<open>A double with two decimals as SQL sees it.\<close>

definition decimalOf :: "rat \<Rightarrow> rat" where
  "decimalOf x = of_int (round (x * 100)) / 100"

definition payeOfSlip :: "payslip \<Rightarrow> rat" where
  "payeOfSlip p = sum_list (List.map (decimalOf \<circ> pl_amount)
     (List.filter (\<lambda>l. pl_type l = DEDUCTION \<and> upper (pl_code l) \<in> {''PAYE'', ''TAX''}) (ps_lines p)))"

text \<open>The payslips of the tax year before the run, in approved or paid runs.\<close>

definition ytdSlip :: "'a pay_state_scheme \<Rightarrow> payroll_run \<Rightarrow> id \<Rightarrow> payslip \<Rightarrow> bool" where
  "ytdSlip s run k p \<longleftrightarrow> ps_employeeId p = k \<and> ps_taxableAmount p \<noteq> None \<and>
     (case lookup (runsT s) (ps_runId p) of None \<Rightarrow> False
      | Some r \<Rightarrow> pr_status r \<in> {APPROVED, PAID} \<and> dayNum (yearOf (pr_periodEnd run)) 1 1 \<le> pr_periodEnd r \<and>
          pr_periodEnd r < pr_periodStart run)"

definition yearToDate :: "'a pay_state_scheme \<Rightarrow> payroll_run \<Rightarrow> id \<Rightarrow> year_to_date option" where
  "yearToDate s run k =
     (let ps = List.filter (ytdSlip s run k) (rows (payslipsT s))
      in if ps = [] then None
         else Some \<lparr>yd_taxable = fl (sum_list (List.map (\<lambda>p. decimalOf (orElse (ps_taxableAmount p) 0)) ps)),
                    yd_paye = fl (sum_list (List.map payeOfSlip ps)), yd_periods = of_nat (length ps)\<rparr>)"

definition employeesInScope :: "'a pay_state_scheme \<Rightarrow> payroll_run \<Rightarrow> (id \<times> employee) list" where
  "employeesInScope s run = sort_key (\<lambda>(_, e). e_lastName e)
     (List.filter (\<lambda>(_, e). e_deletedAt e = None \<and> e_hireDate e \<le> pr_periodEnd run \<and>
        (case pr_departmentId run of None \<Rightarrow> True | Some d \<Rightarrow> e_departmentId e = d) \<and>
        (case e_terminationDate e of None \<Rightarrow> True | Some t \<Rightarrow> pr_periodStart run \<le> t)) (employeesT s))"

definition runPeriod :: "payroll_run \<Rightarrow> period" where
  "runPeriod run = \<lparr>pe_start = pr_periodStart run, pe_end = pr_periodEnd run\<rparr>"

text \<open>One turn of the loop: an employee is skipped with a reason or gets a payslip and a cost.\<close>

datatype pay_outcome = Skipped string | Slip payslip rat

definition payOutcome ::
  "pay_env \<Rightarrow> id \<Rightarrow> payroll_run \<Rightarrow> (id \<Rightarrow> year_to_date option) \<Rightarrow> 'a pay_state_scheme \<Rightarrow> id \<times> employee
     \<Rightarrow> pay_outcome res" where
  "payOutcome P rid run ytd s ke =
     (let k = fst ke; e = snd ke; segments = segmentsFor s k (runPeriod run)
      in if segments = [] then Inr (Skipped ''no salary structure'')
         else if list_ex (\<lambda>(_, sg). ss_currency (sg_structure sg) \<noteq> pr_currency run \<and>
                fxRate (pr_fxRates run) (ss_currency (sg_structure sg)) = None) segments
         then Inr (Skipped ''no FX rate on this run'')
         else bindE (calculatePay (py_calculator P)
                (List.map (\<lambda>(_, sg). sg\<lparr>sg_structure := toCurrency (sg_structure sg) (pr_currency run) (pr_fxRates run)\<rparr>)
                  segments)
                (runPeriod run) (Some \<lparr>em_hireDate = e_hireDate e, em_terminationDate = e_terminationDate e\<rparr>) (ytd k))
              (\<lambda>c. if pc_employedFraction c = 0 then Inr (Skipped ''not employed during the period'')
                   else Inr (Slip
                     \<lparr>ps_runId = rid, ps_employeeId = k, ps_structureId = Some (fst (last segments)),
                      ps_currency = pr_currency run, ps_baseAmount = pc_baseAmount c, ps_gross = pc_gross c,
                      ps_totalDeductions = pc_totalDeductions c, ps_net = pc_net c,
                      ps_employerCosts = pc_employerCosts c, ps_taxableAmount = pc_taxableAmount c,
                      ps_lines = pc_lines c, ps_documentId = None\<rparr>
                     (round2 (dsum (List.map ec_amount (pc_employerCosts c)))))))"

definition addTotals :: "payslip \<Rightarrow> rat \<Rightarrow> run_totals \<Rightarrow> run_totals" where
  "addTotals p cost t =
     t\<lparr>rt_employees := rt_employees t + 1, rt_gross := round2 (dadd (rt_gross t) (ps_gross p)),
       rt_deductions := round2 (dadd (rt_deductions t) (ps_totalDeductions p)),
       rt_net := round2 (dadd (rt_net t) (ps_net p)),
       rt_employerCost := round2 (dadd (rt_employerCost t) cost)\<rparr>"

definition noTotals :: run_totals where
  "noTotals = \<lparr>rt_employees = 0, rt_gross = 0, rt_deductions = 0, rt_net = 0, rt_employerCost = 0, rt_skipped = 0\<rparr>"

text \<open>
  The loop: payslips are saved one by one, under the key \<open>newId\<close> gives the employee's payslip; an
  error leaves those already saved.
\<close>

fun payLoop ::
  "pay_env \<Rightarrow> (id \<Rightarrow> id) \<Rightarrow> id \<Rightarrow> payroll_run \<Rightarrow> (id \<Rightarrow> year_to_date option) \<Rightarrow> (id \<times> employee) list
     \<Rightarrow> 'a pay_state_scheme \<times> run_totals \<times> (id \<times> string) list
     \<Rightarrow> unit res \<times> 'a pay_state_scheme \<times> run_totals \<times> (id \<times> string) list" where
  "payLoop P newId rid run ytd [] acc = (Inr (), acc)"
| "payLoop P newId rid run ytd (ke # es) (s, t, sk) =
     (case payOutcome P rid run ytd s ke of
        Inl err \<Rightarrow> (Inl err, (s, t, sk))
      | Inr (Skipped reason) \<Rightarrow> payLoop P newId rid run ytd es (s, t, sk @ [(fst ke, reason)])
      | Inr (Slip p cost) \<Rightarrow> payLoop P newId rid run ytd es
          (s\<lparr>payslipsT := insertRow (newId (fst ke)) p (payslipsT s)\<rparr>, addTotals p cost t, sk))"

definition calculate ::
  "pay_env \<Rightarrow> (id \<Rightarrow> id) \<Rightarrow> id \<Rightarrow> 'a pay_state_scheme \<Rightarrow> (id \<times> string) list res \<times> 'a pay_state_scheme" where
  "calculate P newId rid s =
     (case bindE (findRun s rid) (\<lambda>r. throwIf (\<not> openRun r) (BadRequest ''Cannot recalculate this run'') (Inr r)) of
        Inl err \<Rightarrow> (Inl err, s)
      | Inr run \<Rightarrow>
          (let emps = employeesInScope s run;
               s1 = s\<lparr>payslipsT := deleteWhere (\<lambda>p. ps_runId p = rid) (payslipsT s)\<rparr>
           in case payLoop P newId rid run (yearToDate s1 run) emps (s1, noTotals, []) of
                (Inl err, (s2, _, _)) \<Rightarrow> (Inl err, s2)
              | (Inr _, (s2, t, sk)) \<Rightarrow>
                  (Inr sk, saveRun rid (run\<lparr>pr_status := CALCULATED, pr_totals := Some (t\<lparr>rt_skipped := length sk\<rparr>)\<rparr>) s2)))"

section \<open>Approval\<close>

definition slipsOf :: "'a pay_state_scheme \<Rightarrow> id \<Rightarrow> (id \<times> payslip) list" where
  "slipsOf s rid = List.filter (\<lambda>(_, p). ps_runId p = rid) (payslipsT s)"

text \<open>The document of a payslip; its title has an en dash between the dates.\<close>

definition payslipDocument :: "pay_env \<Rightarrow> payroll_run \<Rightarrow> employee \<Rightarrow> string \<Rightarrow> payslip \<Rightarrow> id \<Rightarrow> system_document" where
  "payslipDocument P run e dept p actor =
     (let pdf = py_renderPdf P e dept run p
      in \<lparr>sd_ownerEmployeeId = Some (ps_employeeId p),
          sd_title = ''Payslip '' @ isoOfDay (pr_periodStart run) @ '' - '' @ isoOfDay (pr_periodEnd run),
          sd_description = None, sd_category = PAYSLIP, sd_visibility = RESTRICTED,
          sd_file = \<lparr>uf_originalname = ''payslip-'' @ isoOfDay (pr_periodEnd run) @ ''.pdf'',
            uf_mimetype = ''application/pdf'', uf_size = length pdf, uf_buffer = pdf\<rparr>,
          sd_createdByUserId = Some actor\<rparr>)"

text \<open>
  What the documents need from outside, for each payslip: what the storage answers, the keys of
  the document and of its version.
\<close>

record doc_supply =
  dsu_stored :: "id \<Rightarrow> stored_object option"
  dsu_docId :: "id \<Rightarrow> id"
  dsu_versionId :: "id \<Rightarrow> id"

fun approveSlips ::
  "pay_env \<Rightarrow> int \<Rightarrow> doc_supply \<Rightarrow> payroll_run \<Rightarrow> id \<Rightarrow> (id \<times> payslip) list \<Rightarrow> 'a pay_state_scheme
     \<Rightarrow> unit res \<times> 'a pay_state_scheme" where
  "approveSlips P now ds run actor [] s = (Inr (), s)"
| "approveSlips P now ds run actor ((sid, p) # ps) s =
     (case findEmployee s (ps_employeeId p) of None \<Rightarrow> (Inl (InternalError ''An unexpected error occurred''), s)
      | Some e \<Rightarrow>
          (case lookup (departmentsT s) (e_departmentId e) of
             None \<Rightarrow> (Inl (InternalError ''An unexpected error occurred''), s)
           | Some d \<Rightarrow>
               (case createSystemDocument (py_docs P) now (dsu_stored ds sid) (dsu_docId ds sid) (dsu_versionId ds sid)
                       (payslipDocument P run e (d_name d) p actor) s of
                  (Inl err, s1) \<Rightarrow> (Inl err, s1)
                | (Inr doc, s1) \<Rightarrow> approveSlips P now ds run actor ps
                    (s1\<lparr>payslipsT := updateRow sid (\<lambda>q. q\<lparr>ps_documentId := Some doc\<rparr>) (payslipsT s1)\<rparr>))))"

definition payslipNotices :: "'a pay_state_scheme \<Rightarrow> (id \<times> payslip) list \<Rightarrow> (id \<times> id) list" where
  "payslipNotices s ps = List.concat (List.map (\<lambda>(sid, p).
     case findEmployee s (ps_employeeId p) of None \<Rightarrow> []
     | Some e \<Rightarrow> (case e_userId e of None \<Rightarrow> [] | Some u \<Rightarrow> [(u, sid)])) ps)"

definition approve ::
  "pay_env \<Rightarrow> int \<Rightarrow> doc_supply \<Rightarrow> id \<Rightarrow> id \<Rightarrow> 'a pay_state_scheme \<Rightarrow> unit res \<times> 'a pay_state_scheme" where
  "approve P now ds rid actor s =
     (case bindE (findRun s rid) (\<lambda>r. throwIf (pr_status r \<noteq> CALCULATED) (BadRequest ''Calculate the run before approving'')
             (throwIf (slipsOf s rid = []) (BadRequest ''Run has no payslips'') (Inr r))) of
        Inl err \<Rightarrow> (Inl err, s)
      | Inr run \<Rightarrow>
          (case approveSlips P now ds run actor (slipsOf s rid) s of
             (Inl err, s1) \<Rightarrow> (Inl err, s1)
           | (Inr _, s1) \<Rightarrow>
               (let s2 = saveRun rid (run\<lparr>pr_status := APPROVED, pr_approvedByUserId := Some actor,
                           pr_approvedAt := Some now\<rparr>) s1
                in (Inr (), s2\<lparr>payNotices := payNotices s2 @ payslipNotices s (slipsOf s rid)\<rparr>))))"

definition markPaid :: "int \<Rightarrow> id \<Rightarrow> 'a pay_state_scheme \<Rightarrow> 'a pay_state_scheme res" where
  "markPaid now rid s =
     bindE (findRun s rid) (\<lambda>r.
     throwIf (pr_status r \<noteq> APPROVED) (BadRequest ''Only approved runs can be marked paid'')
     (Inr (saveRun rid (r\<lparr>pr_status := PAID, pr_paidAt := Some now\<rparr>) s)))"

text \<open>Removing a run takes its payslips with it (\<open>ON DELETE CASCADE\<close>).\<close>

definition deleteRun :: "id \<Rightarrow> 'a pay_state_scheme \<Rightarrow> 'a pay_state_scheme res" where
  "deleteRun rid s =
     bindE (findRun s rid) (\<lambda>r.
     throwIf (\<not> openRun r) (BadRequest ''Approved or paid runs cannot be deleted'')
     (Inr (s\<lparr>runsT := deleteRow rid (runsT s), payslipsT := deleteWhere (\<lambda>p. ps_runId p = rid) (payslipsT s)\<rparr>)))"

section \<open>Payslips\<close>

record payslip_query = page_query +
  psq_runId :: "id option"
  psq_employeeId :: "id option"

definition runVisible :: "payroll_run \<Rightarrow> bool" where
  "runVisible r \<longleftrightarrow> pr_status r \<in> {APPROVED, PAID}"

text \<open>The inner joins: the run and the employee of a payslip.\<close>

definition joined :: "'a pay_state_scheme \<Rightarrow> payslip \<Rightarrow> (payroll_run \<times> employee) option" where
  "joined s p = (case (lookup (runsT s) (ps_runId p), findEmployee s (ps_employeeId p)) of
     (Some r, Some e) \<Rightarrow> Some (r, e) | _ \<Rightarrow> None)"

definition payslipMatches :: "payslip_query \<Rightarrow> id option \<Rightarrow> 'a pay_state_scheme \<Rightarrow> payslip \<Rightarrow> bool" where
  "payslipMatches q me s p \<longleftrightarrow>
     (case joined s p of None \<Rightarrow> False
      | Some (r, e) \<Rightarrow> (case me of None \<Rightarrow> True | Some k \<Rightarrow> ps_employeeId p = k \<and> runVisible r)) \<and>
     (case psq_runId q of None \<Rightarrow> True | Some r \<Rightarrow> ps_runId p = r) \<and>
     (case psq_employeeId q of None \<Rightarrow> True | Some k \<Rightarrow> ps_employeeId p = k)"

definition payslipsFor :: "payslip_query \<Rightarrow> id option \<Rightarrow> 'a pay_state_scheme \<Rightarrow> (id \<times> payslip) list" where
  "payslipsFor q me s =
     sort_key (\<lambda>(_, p). case joined s p of None \<Rightarrow> 0 | Some (r, _) \<Rightarrow> - pr_periodStart r)
       (sort_key (\<lambda>(_, p). case joined s p of None \<Rightarrow> [] | Some (_, e) \<Rightarrow> e_lastName e)
         (List.filter (\<lambda>(_, p). payslipMatches q me s p) (payslipsT s)))"

definition listPayslips :: "payslip_query \<Rightarrow> id option \<Rightarrow> 'a pay_state_scheme \<Rightarrow> (id \<times> payslip) list \<times> page_meta" where
  "listPayslips q me s = pageOf q (payslipsFor q me s)"

definition myPayslips :: "payslip_query \<Rightarrow> auth_user \<Rightarrow> 'a pay_state_scheme \<Rightarrow> ((id \<times> payslip) list \<times> page_meta) res" where
  "myPayslips q actor s = bindE (requireProfile actor s) (\<lambda>me. Inr (listPayslips q (Some me) s))"

definition myStructures :: "auth_user \<Rightarrow> 'a pay_state_scheme \<Rightarrow> (id \<times> salary_structure) list res" where
  "myStructures actor s = bindE (requireProfile actor s) (\<lambda>me. Inr (structuresFor s me))"

definition findPayslip :: "id \<Rightarrow> auth_user \<Rightarrow> 'a pay_state_scheme \<Rightarrow> payslip res" where
  "findPayslip sid actor s =
     orThrow (lookup (payslipsT s) sid) (NotFound ''Payslip not found'') (\<lambda>p.
     if PAYROLL_MANAGE \<in> set (au_permissions actor) then Inr p
     else case findByUserId s (au_id actor) of None \<Rightarrow> Inl (Forbidden ''Forbidden'')
     | Some (me, _) \<Rightarrow>
         throwIf (me \<noteq> ps_employeeId p \<or>
             \<not> (case lookup (runsT s) (ps_runId p) of None \<Rightarrow> False | Some r \<Rightarrow> runVisible r))
           (Forbidden ''Forbidden'') (Inr p))"

end
