(* ===== verification/PayRuns.thy ===== *)
theory PayRuns
  imports Payroll DocProps "HOL-Library.Sublist"
begin

text \<open>
  What payroll guarantees: salary structures never overlap and a period splits into segments
  paid under the structure in force, a calculation reaches everyone in scope, and an approved
  run is frozen.
\<close>

section \<open>Structures do not overlap\<close>

definition startsBy :: "date \<Rightarrow> date option \<Rightarrow> bool" where
  "startsBy a b \<longleftrightarrow> (case b of None \<Rightarrow> True | Some t \<Rightarrow> a \<le> t)"

lemma startsBy_simps [simp]: "startsBy a None" "startsBy a (Some t) \<longleftrightarrow> a \<le> t"
  by (simp_all add: startsBy_def)

definition overlapping :: "salary_structure \<Rightarrow> salary_structure \<Rightarrow> bool" where
  "overlapping r q \<longleftrightarrow> ss_employeeId r = ss_employeeId q \<and>
     startsBy (ss_effectiveFrom r) (ss_effectiveTo q) \<and> startsBy (ss_effectiveFrom q) (ss_effectiveTo r)"

text \<open>
  Per employee: no two structures overlap, and once there is one there is one without an end;
  earnings are never a percentage of gross.
\<close>

definition noGrossEarning :: "salary_structure \<Rightarrow> bool" where
  "noGrossEarning st \<longleftrightarrow> (\<forall>l\<in>set (ss_lines st). \<not> (sl_type l = EARNING \<and> sl_method l = PERCENT_OF_GROSS))"

definition structInv :: "salary_structure table \<Rightarrow> bool" where
  "structInv T \<longleftrightarrow> keyed T \<and> uniqueBy overlapping T \<and>
     (\<forall>j st. lookup T j = Some st \<longrightarrow> startsBy (ss_effectiveFrom st) (ss_effectiveTo st) \<and> noGrossEarning st \<and>
        (\<exists>i cur. lookup T i = Some cur \<and> ss_employeeId cur = ss_employeeId st \<and> ss_effectiveTo cur = None))"

lemma structInvD:
  assumes "structInv T" "lookup T j = Some st"
  shows "startsBy (ss_effectiveFrom st) (ss_effectiveTo st)" "noGrossEarning st"
    "\<exists>i cur. lookup T i = Some cur \<and> ss_employeeId cur = ss_employeeId st \<and> ss_effectiveTo cur = None"
  using assms unfolding structInv_def by blast+

lemma inForce_startsBy: "inForce k a b st \<longleftrightarrow>
    ss_employeeId st = k \<and> ss_effectiveFrom st \<le> b \<and> startsBy a (ss_effectiveTo st)"
  by (simp add: inForce_def startsBy_def)

lemma structInv_first:
  assumes i: "structInv T" and sid: "sid \<notin> set (keys T)" and g: "noGrossEarning st" and n: "ss_effectiveTo st = None"
    and o: "\<And>j q. lookup T j = Some q \<Longrightarrow> ss_employeeId q \<noteq> ss_employeeId st"
  shows "structInv (insertRow sid st T)"
proof -
  have "uniqueBy overlapping (insertRow sid st T)"
  proof (rule uniqueBy_insert [OF _ sid])
    show "uniqueBy overlapping T" using i by (simp add: structInv_def)
    show "\<not> overlapping q st \<and> \<not> overlapping st q" if "lookup T j = Some q" for j q
      using o [OF that] by (auto simp: overlapping_def)
  qed
  moreover have "lookup (insertRow sid st T) i = Some cur" if "lookup T i = Some cur" for i cur
    using that lookup_Some_keys [OF that] sid by (auto simp: lookup_insertRow [OF sid])
  ultimately show ?thesis using i g n sid
    unfolding structInv_def keyed_insertRow [OF sid] lookup_insertRow [OF sid] by (fastforce split: if_splits)
qed

lemma structInv_next:
  assumes i: "structInv T" and sid: "sid \<notin> set (keys T)" and g: "noGrossEarning st" and n: "ss_effectiveTo st = None"
    and c: "lookup T k = Some cur" "ss_effectiveTo cur = None" "ss_employeeId cur = ss_employeeId st"
    and b: "ss_effectiveFrom cur < ss_effectiveFrom st"
  shows "structInv (insertRow sid st (updateRow k (\<lambda>_. cur\<lparr>ss_effectiveTo := Some (ss_effectiveFrom st - 1)\<rparr>) T))"
proof -
  let ?cl = "cur\<lparr>ss_effectiveTo := Some (ss_effectiveFrom st - 1)\<rparr>"
  let ?T = "updateRow k (\<lambda>_. ?cl) T"
  have u: "uniqueBy overlapping T" using i by (simp add: structInv_def)
  have before: "\<not> startsBy (ss_effectiveFrom st) (ss_effectiveTo q)"
    if q: "lookup T j = Some q" "ss_employeeId q = ss_employeeId st" "j \<noteq> k" for j q
  proof -
    have "\<not> overlapping cur q" using uniqueByD [OF u c(1) q(1)] q(3) by blast
    then have "\<not> startsBy (ss_effectiveFrom cur) (ss_effectiveTo q)" using c(2,3) q(2) by (simp add: overlapping_def)
    then show ?thesis using b by (auto simp: startsBy_def split: option.splits)
  qed
  have sid': "sid \<notin> set (keys ?T)" using sid by simp
  have "uniqueBy overlapping ?T"
  proof (rule uniqueBy_updateRow [OF u])
    fix r j q assume "lookup T k = Some r" and q: "lookup T j = Some q" "j \<noteq> k"
    have "\<not> overlapping cur q" "\<not> overlapping q cur" using uniqueByD [OF u] c(1) q by blast+
    then show "\<not> overlapping ?cl q \<and> \<not> overlapping q ?cl" using c(2) by (auto simp: overlapping_def)
  qed
  then have "uniqueBy overlapping (insertRow sid st ?T)"
  proof (rule uniqueBy_insert [OF _ sid'])
    fix j q assume q: "lookup ?T j = Some q"
    have "\<not> startsBy (ss_effectiveFrom st) (ss_effectiveTo q)" if "ss_employeeId q = ss_employeeId st"
      using q that before [of j q] by (auto simp: lookup_updateRow split: if_splits)
    then show "\<not> overlapping q st \<and> \<not> overlapping st q" by (auto simp: overlapping_def)
  qed
  moreover have ex: "\<exists>i cur. lookup (insertRow sid st ?T) i = Some cur \<and> ss_employeeId cur = e \<and> ss_effectiveTo cur = None"
    if q0: "lookup T j = Some q" "ss_employeeId q = e" for j q e
  proof (cases "e = ss_employeeId st")
    case True
    have "lookup (insertRow sid st ?T) sid = Some st" by (simp add: lookup_insertRow [OF sid'])
    then show ?thesis using n True by blast
  next
    case False
    obtain i o' where o: "lookup T i = Some o'" "ss_employeeId o' = e" "ss_effectiveTo o' = None"
      using structInvD(3) [OF i q0(1)] q0(2) by blast
    have "i \<noteq> k" using o(1,2) c(1,3) False by force
    moreover have "i \<noteq> sid" using lookup_Some_keys [OF o(1)] sid by blast
    ultimately have "lookup (insertRow sid st ?T) i = Some o'"
      using o(1) lookup_insertRow [OF sid', of st i] lookup_updateRow [of k _ T i] by simp
    then show ?thesis using o(2,3) by blast
  qed
  moreover have "startsBy (ss_effectiveFrom q) (ss_effectiveTo q) \<and> noGrossEarning q"
    if "lookup (insertRow sid st ?T) j = Some q" for j q
    using that i g n c b unfolding lookup_insertRow [OF sid'] lookup_updateRow
    by (auto simp: structInv_def noGrossEarning_def split: if_splits)
  moreover have "\<exists>i r. lookup (insertRow sid st ?T) i = Some r \<and> ss_employeeId r = ss_employeeId q \<and> ss_effectiveTo r = None"
    if l: "lookup (insertRow sid st ?T) j = Some q" for j q
  proof (cases "j = sid \<or> j = k")
    case True
    then have "ss_employeeId q = ss_employeeId cur"
      using l c(1,3) unfolding lookup_insertRow [OF sid'] lookup_updateRow by (auto split: if_splits)
    then show ?thesis using ex [OF c(1), of "ss_employeeId q"] by simp
  next
    case False
    then have "lookup T j = Some q" using l unfolding lookup_insertRow [OF sid'] lookup_updateRow by simp
    then show ?thesis using ex by blast
  qed
  moreover have "keyed (insertRow sid st ?T)" using i sid' by (simp add: structInv_def)
  ultimately show ?thesis unfolding structInv_def by blast
qed

lemma createStructure_inv:
  assumes i: "structInv (structuresT s)" and sid: "sid \<notin> set (keys (structuresT s))"
    and r: "createStructure P sid dto actor s = Inr s'"
  shows "structInv (structuresT s')"
proof -
  let ?st = "newStructure P dto actor"
  have g: "noGrossEarning ?st" and n: "ss_effectiveTo ?st = None" "ss_employeeId ?st = cs_employeeId dto"
    "ss_effectiveFrom ?st = cs_effectiveFrom dto"
    using r unfolding createStructure_def Let_def noGrossEarning_def
    by (auto simp: res_simps newStructure_def list_ex_iff)
  show ?thesis
  proof (cases "currentStructure s (cs_employeeId dto)")
    case None
    then have s': "structuresT s' = insertRow sid ?st (structuresT s)"
      using r unfolding createStructure_def Let_def by (auto simp: res_simps)
    have no: "ss_effectiveTo q \<noteq> None" if "lookup (structuresT s) j = Some q" "ss_employeeId q = cs_employeeId dto" for j q
      using find_NoneD [OF None [unfolded currentStructure_def], of "(j, q)"] that
      by (auto simp: lookup_def dest: map_of_SomeD)
    show ?thesis unfolding s'
    proof (rule structInv_first [OF i sid g n(1)])
      fix j q assume q: "lookup (structuresT s) j = Some q"
      show "ss_employeeId q \<noteq> ss_employeeId ?st"
      proof
        assume "ss_employeeId q = ss_employeeId ?st"
        then show False using structInvD(3) [OF i q] n(2) no by metis
      qed
    qed
  next
    case (Some x)
    obtain k cur where x: "x = (k, cur)" by (cases x)
    have f: "(k, cur) \<in> set (structuresT s)" "ss_employeeId cur = cs_employeeId dto" "ss_effectiveTo cur = None"
      using find_SomeD [OF Some [unfolded currentStructure_def]] x by auto
    have s': "structuresT s' = insertRow sid ?st (updateRow k (\<lambda>_. cur\<lparr>ss_effectiveTo := Some (ss_effectiveFrom ?st - 1)\<rparr>)
        (structuresT s))" and b: "ss_effectiveFrom cur < ss_effectiveFrom ?st"
      using r Some x n(3) unfolding createStructure_def Let_def by (auto simp: res_simps addDays_def)
    have "lookup (structuresT s) k = Some cur" using i f(1) keyed_lookup by (auto simp: structInv_def)
    then show ?thesis unfolding s' by (intro structInv_next [OF i sid g n(1)]) (use f b n in auto)
  qed
qed

section \<open>Segments of a period\<close>

lemma sorted_wrt_refine:
  assumes "sorted_wrt R xs" "distinct (List.map fst xs)"
    and "\<And>x y. x \<in> set xs \<Longrightarrow> y \<in> set xs \<Longrightarrow> fst x \<noteq> fst y \<Longrightarrow> R x y \<Longrightarrow> Q x y"
  shows "sorted_wrt Q xs"
  using assms by (induction xs) (force simp: image_iff)+

lemma segment_iff:
  assumes "keyed (structuresT s)"
  shows "(j, sg) \<in> set (segmentsFor s k p) \<longleftrightarrow>
    (\<exists>st. lookup (structuresT s) j = Some st \<and> inForce k (pe_start p) (pe_end p) st \<and> sg = clipSegment p st)"
  using row_lookup [OF assms, of j] by (force simp: segmentsFor_def)

lemma clip_day:
  assumes "pe_start p \<le> d" "d \<le> pe_end p"
  shows "sg_start (clipSegment p st) \<le> d \<and> d \<le> sg_end (clipSegment p st) \<longleftrightarrow>
    ss_effectiveFrom st \<le> d \<and> startsBy d (ss_effectiveTo st)"
  using assms by (auto simp: clipSegment_def startsBy_def split: option.splits)

lemma structureOn_iff:
  assumes i: "structInv (structuresT s)"
  shows "structureOn s k d = Some (j, st) \<longleftrightarrow> lookup (structuresT s) j = Some st \<and> inForce k d d st"
proof -
  let ?F = "List.filter (\<lambda>(_, st). inForce k d d st) (structuresT s)"
  let ?S = "sort_key (\<lambda>(_, st). - ss_effectiveFrom st) ?F"
  have mem: "(j, st) \<in> set ?S \<longleftrightarrow> lookup (structuresT s) j = Some st \<and> inForce k d d st" for j st
    using row_lookup [of "structuresT s" j st] i by (auto simp: structInv_def)
  have one: "(j, st) = (j', st')" if m: "(j, st) \<in> set ?S" "(j', st') \<in> set ?S" for j st j' st'
  proof -
    have l: "lookup (structuresT s) j = Some st" "inForce k d d st" "lookup (structuresT s) j' = Some st'" "inForce k d d st'"
      using m unfolding mem by blast+
    have "overlapping st st'" using l(2,4) by (auto simp: inForce_startsBy overlapping_def startsBy_def split: option.splits)
    then have "j = j'" using l(1,3) i uniqueByD [of overlapping "structuresT s" j st j' st'] by (simp add: structInv_def)
    then show ?thesis using l(1,3) by simp
  qed
  show ?thesis
  proof (cases ?S)
    case Nil
    then show ?thesis using mem [of j st] by (simp add: structureOn_def)
  next
    case (Cons x xs)
    obtain i0 q where x: "x = (i0, q)" by (cases x)
    have "x \<in> set ?S" using Cons by simp
    then show ?thesis using Cons one [of i0 q j st] mem [of j st] x by (auto simp: structureOn_def)
  qed
qed
section \<open>Operations and what they leave alone\<close>

definition payKept :: "'a pay_state_scheme \<Rightarrow> 'a pay_state_scheme \<Rightarrow> bool" where
  "payKept s s' \<longleftrightarrow> structuresT s' = structuresT s \<and> runsT s' = runsT s \<and> payslipsT s' = payslipsT s"

lemma createSystemDocument_pay: "payKept s (snd (createSystemDocument D now so k vid inp s))"
  by (simp add: payKept_def createSystemDocument_def storeAndEmit_def storeVersion_def Let_def emitChanged_def
      split: sum.splits option.splits)

lemma updateRow_absent: "k \<notin> set (keys T) \<Longrightarrow> updateRow k f T = T"
  by (induction T) (auto simp: updateRow_def keys_def)

lemma slips_updateRow:
  "(\<And>p. ps_runId (f p) = ps_runId p) \<Longrightarrow>
   List.filter (\<lambda>(_, p). ps_runId p = rid) (updateRow k f T) = updateRow k f (List.filter (\<lambda>(_, p). ps_runId p = rid) T)"
proof (induction T)
  case (Cons x T)
  then show ?case by (cases x; cases "fst x = k") (simp_all add: updateRow_def)
qed (simp add: updateRow_def)

text \<open>The loop of the approval touches only the payslips it is given, and nothing but their document.\<close>

lemma approveSlips_frame:
  "approveSlips P now ds run actor ps s = (r, s') \<Longrightarrow>
     runsT s' = runsT s \<and> structuresT s' = structuresT s \<and> keys (payslipsT s') = keys (payslipsT s) \<and>
     (\<forall>rid. (\<forall>sid\<in>fst ` set ps. sid \<notin> set (keys (slipsOf s rid))) \<longrightarrow> slipsOf s' rid = slipsOf s rid)"
proof (induction P now ds run actor ps s rule: approveSlips.induct)
  case (2 P now ds run actor sid p ps s)
  show ?case
  proof (cases "approveSlips P now ds run actor ((sid, p) # ps) s = (r, s) \<and> s' = s")
    case True
    then show ?thesis by simp
  next
    case False
    then obtain e d where e: "findEmployee s (ps_employeeId p) = Some e" "lookup (departmentsT s) (e_departmentId e) = Some d"
      using "2.prems" by (auto split: option.splits)
    obtain c s1 where c: "createSystemDocument (py_docs P) now (dsu_stored ds sid) (dsu_docId ds sid) (dsu_versionId ds sid)
        (payslipDocument P run e (d_name d) p actor) s = (c, s1)"
      by (meson surj_pair)
    have k: "payKept s s1" using createSystemDocument_pay [of s "py_docs P"] c by (metis snd_conv)
    show ?thesis
    proof (cases c)
      case (Inl err)
      then have "s' = s1" using "2.prems" e c by simp
      then show ?thesis using k by (simp add: payKept_def slipsOf_def)
    next
      case (Inr doc)
      let ?s = "s1\<lparr>payslipsT := updateRow sid (\<lambda>q. q\<lparr>ps_documentId := Some doc\<rparr>) (payslipsT s1)\<rparr>"
      have ih: "runsT s' = runsT ?s \<and> structuresT s' = structuresT ?s \<and> keys (payslipsT s') = keys (payslipsT ?s) \<and>
          (\<forall>rid. (\<forall>sid\<in>fst ` set ps. sid \<notin> set (keys (slipsOf ?s rid))) \<longrightarrow> slipsOf s' rid = slipsOf ?s rid)"
        by (rule "2.IH" [OF e c [symmetric] Inr]) (use "2.prems" e c Inr in simp_all)
      have "slipsOf ?s rid = slipsOf s rid" if "sid \<notin> set (keys (slipsOf s rid))" for rid
        using that k by (simp add: slipsOf_def slips_updateRow payKept_def updateRow_absent)
      then show ?thesis using ih k by (auto simp: payKept_def)
    qed
  qed
qed simp

lemma findRun_Inr: "findRun s rid = Inr r \<longleftrightarrow> lookup (runsT s) rid = Some r"
  by (auto simp: findRun_def res_simps)

lemma slipsOf_delete: "List.filter (\<lambda>(_, p). ps_runId p = rid) (deleteWhere (\<lambda>p. ps_runId p = rid') T) =
    (if rid = rid' then [] else List.filter (\<lambda>(_, p). ps_runId p = rid) T)"
  by (induction T) (auto simp: deleteWhere_def)

lemma keyed_deleteWhere: "keyed T \<Longrightarrow> keyed (deleteWhere p T)"
  by (simp add: keyed_def keys_def deleteWhere_def distinct_map_filter)

section \<open>The loop of a calculation\<close>

lemma payOutcome_cong: "structuresT s' = structuresT s \<Longrightarrow> payOutcome P rid run ytd s' ke = payOutcome P rid run ytd s ke"
  by (simp add: payOutcome_def Let_def segmentsFor_def)

definition newSlips :: "pay_env \<Rightarrow> (id \<Rightarrow> id) \<Rightarrow> id \<Rightarrow> payroll_run \<Rightarrow> (id \<Rightarrow> year_to_date option) \<Rightarrow> 'a pay_state_scheme
    \<Rightarrow> (id \<times> employee) list \<Rightarrow> (id \<times> payslip) list" where
  "newSlips P newId rid run ytd s es = List.concat (List.map (\<lambda>ke.
     case payOutcome P rid run ytd s ke of Inr (Slip p cost) \<Rightarrow> [(newId (fst ke), p)] | _ \<Rightarrow> []) es)"

definition newSkipped :: "pay_env \<Rightarrow> id \<Rightarrow> payroll_run \<Rightarrow> (id \<Rightarrow> year_to_date option) \<Rightarrow> 'a pay_state_scheme
    \<Rightarrow> (id \<times> employee) list \<Rightarrow> (id \<times> string) list" where
  "newSkipped P rid run ytd s es = List.concat (List.map (\<lambda>ke.
     case payOutcome P rid run ytd s ke of Inr (Skipped r) \<Rightarrow> [(fst ke, r)] | _ \<Rightarrow> []) es)"

text \<open>Whatever the result, the loop appends payslips of this run under the keys it was given.\<close>

lemma payLoop_frame:
  "payLoop P newId rid run ytd es (s, t, sk) = (r, (s', t', sk')) \<Longrightarrow>
     \<exists>new. s' = s\<lparr>payslipsT := payslipsT s @ new\<rparr> \<and> (\<forall>(j, p)\<in>set new. ps_runId p = rid) \<and>
       subseq (List.map fst new) (List.map (newId \<circ> fst) es)"
proof (induction es arbitrary: s t sk)
  case Nil
  then show ?case by (intro exI [of _ "[]"]) simp
next
  case (Cons ke es)
  show ?case
  proof (cases "payOutcome P rid run ytd s ke")
    case (Inl err)
    then show ?thesis using Cons.prems by (intro exI [of _ "[]"]) simp
  next
    case (Inr out)
    show ?thesis
    proof (cases out)
      case (Skipped reason)
      then show ?thesis using Cons.prems Inr Cons.IH [of s t "sk @ [(fst ke, reason)]"] by (auto intro: list_emb_Cons)
    next
      case (Slip p cost)
      let ?s = "s\<lparr>payslipsT := insertRow (newId (fst ke)) p (payslipsT s)\<rparr>"
      have "payLoop P newId rid run ytd es (?s, addTotals p cost t, sk) = (r, (s', t', sk'))"
        using Cons.prems Inr Slip by simp
      from Cons.IH [OF this] obtain new where n: "s' = ?s\<lparr>payslipsT := payslipsT ?s @ new\<rparr>"
        "\<forall>(j, p)\<in>set new. ps_runId p = rid" "subseq (List.map fst new) (List.map (newId \<circ> fst) es)"
        by blast
      have "ps_runId p = rid" using Inr Slip by (auto simp: payOutcome_def Let_def res_simps split: if_splits)
      then show ?thesis using n by (intro exI [of _ "(newId (fst ke), p) # new"]) (simp add: insertRow_def comp_def)
    qed
  qed
qed

lemma payLoop_total:
  assumes ok: "\<And>ke. ke \<in> set es \<Longrightarrow> \<exists>out. payOutcome P rid run ytd s ke = Inr out"
  shows "\<exists>t'. payLoop P newId rid run ytd es (s, t, sk) =
      (Inr (), (s\<lparr>payslipsT := payslipsT s @ newSlips P newId rid run ytd s es\<rparr>, t', sk @ newSkipped P rid run ytd s es)) \<and>
    rt_employees t' = rt_employees t + length (newSlips P newId rid run ytd s es) \<and>
    rt_gross t' = foldl (\<lambda>a p. round2 (dadd a (ps_gross (snd p)))) (rt_gross t) (newSlips P newId rid run ytd s es) \<and>
    rt_net t' = foldl (\<lambda>a p. round2 (dadd a (ps_net (snd p)))) (rt_net t) (newSlips P newId rid run ytd s es)"
  using ok
proof (induction es arbitrary: s t sk)
  case Nil
  then show ?case by (simp add: newSlips_def newSkipped_def)
next
  case (Cons ke es)
  obtain out where o: "payOutcome P rid run ytd s ke = Inr out" using Cons.prems [of ke] by auto
  show ?case
  proof (cases out)
    case (Skipped reason)
    then show ?thesis using o Cons.IH [of s t "sk @ [(fst ke, reason)]"] Cons.prems
      by (auto simp: newSlips_def newSkipped_def)
  next
    case (Slip p cost)
    let ?s = "s\<lparr>payslipsT := insertRow (newId (fst ke)) p (payslipsT s)\<rparr>"
    have c: "payOutcome P rid run ytd ?s ke' = payOutcome P rid run ytd s ke'" for ke' by (rule payOutcome_cong) simp
    have ih: "\<exists>out. payOutcome P rid run ytd ?s ke' = Inr out" if "ke' \<in> set es" for ke'
      using Cons.prems that unfolding c by simp
    have same: "newSlips P newId rid run ytd ?s es = newSlips P newId rid run ytd s es"
      "newSkipped P rid run ytd ?s es = newSkipped P rid run ytd s es"
      unfolding newSlips_def newSkipped_def c by simp_all
    have cons: "newSlips P newId rid run ytd s (ke # es) = (newId (fst ke), p) # newSlips P newId rid run ytd s es"
      "newSkipped P rid run ytd s (ke # es) = newSkipped P rid run ytd s es"
      by (simp_all add: newSlips_def newSkipped_def o Slip)
    show ?thesis using Cons.IH [OF ih, of "addTotals p cost t" sk]
      unfolding same cons by (auto simp: o Slip insertRow_def addTotals_def)
  qed
qed

section \<open>Reachable states\<close>

definition payInv :: "'a pay_state_scheme \<Rightarrow> bool" where
  "payInv s \<longleftrightarrow> structInv (structuresT s) \<and> keyed (runsT s) \<and> keyed (payslipsT s)"

text \<open>Keys given to new payslips are not in use.\<close>

definition freshSlips :: "'a pay_state_scheme \<Rightarrow> (id \<Rightarrow> id) \<Rightarrow> bool" where
  "freshSlips s newId \<longleftrightarrow> inj newId \<and> (\<forall>k. newId k \<notin> set (keys (payslipsT s)))"

inductive pay_step :: "pay_env \<Rightarrow> 'a pay_state_scheme \<Rightarrow> 'a pay_state_scheme \<Rightarrow> bool" for P where
  newPay: "sid \<notin> set (keys (structuresT s)) \<Longrightarrow> createStructure P sid sdto actor s = Inr s' \<Longrightarrow> pay_step P s s'"
| rates: "setFxRates rid fx s = Inr s' \<Longrightarrow> pay_step P s s'"
| newRun: "rid \<notin> set (keys (runsT s)) \<Longrightarrow> createRun P rid rdto actor s = Inr s' \<Longrightarrow> pay_step P s s'"
| compute: "keyed (employeesT s) \<Longrightarrow> freshSlips s newId \<Longrightarrow> pay_step P s (snd (calculate P newId rid s))"
| approval: "pay_step P s (snd (approve P now ds rid actor s))"
| payment: "markPaid now rid s = Inr s' \<Longrightarrow> pay_step P s s'"
| removal: "deleteRun rid s = Inr s' \<Longrightarrow> pay_step P s s'"
| other: "payKept s s' \<Longrightarrow> pay_step P s s'"

definition payInit :: "'a pay_state_scheme \<Rightarrow> bool" where
  "payInit s \<longleftrightarrow> structuresT s = [] \<and> runsT s = [] \<and> payslipsT s = []"
lemma distinct_sorted_rows: "keyed T \<Longrightarrow> distinct (List.map fst (sort_key f (List.filter p T)))"
proof -
  assume "keyed T"
  then have "distinct (List.map fst (List.filter p T))" by (simp add: keyed_def keys_def distinct_map_filter)
  moreover have "mset (List.map fst (sort_key f (List.filter p T))) = mset (List.map fst (List.filter p T))" by simp
  ultimately show ?thesis using mset_eq_imp_distinct_iff by blast
qed

lemma employeesInScope_distinct: "keyed (employeesT s) \<Longrightarrow> distinct (List.map fst (employeesInScope s run))"
  unfolding employeesInScope_def by (rule distinct_sorted_rows)

text \<open>What a calculation does when it does not stop at its checks.\<close>

lemma calculate_cases:
  assumes "lookup (runsT s) rid = Some run" "openRun run"
  shows "calculate P newId rid s =
    (case payLoop P newId rid run (yearToDate (s\<lparr>payslipsT := deleteWhere (\<lambda>p. ps_runId p = rid) (payslipsT s)\<rparr>) run)
       (employeesInScope s run) (s\<lparr>payslipsT := deleteWhere (\<lambda>p. ps_runId p = rid) (payslipsT s)\<rparr>, noTotals, []) of
       (Inl err, (s2, _, _)) \<Rightarrow> (Inl err, s2)
     | (Inr _, (s2, t, sk)) \<Rightarrow>
         (Inr sk, saveRun rid (run\<lparr>pr_status := CALCULATED, pr_totals := Some (t\<lparr>rt_skipped := length sk\<rparr>)\<rparr>) s2))"
  using assms by (simp add: calculate_def findRun_def Let_def)

lemma subseq_distinct: "subseq xs ys \<Longrightarrow> distinct ys \<Longrightarrow> distinct xs"
proof (induction rule: list_emb.induct)
  case (list_emb_Cons2 x y xs ys)
  have "set xs \<subseteq> set ys" using list_emb_set [OF list_emb_Cons2(2)] by blast
  then show ?case using list_emb_Cons2 by auto
qed simp_all

lemma calculate_frame:
  assumes k: "keyed (employeesT s)" and fr: "freshSlips s newId" and i: "keyed (payslipsT s)"
    and c: "s' = snd (calculate P newId rid s)"
  shows "structuresT s' = structuresT s \<and> keyed (payslipsT s') \<and> keys (runsT s') = keys (runsT s) \<and>
    (\<forall>rid'. (rid' = rid \<longrightarrow> \<not> (\<exists>r. lookup (runsT s) rid = Some r \<and> openRun r)) \<longrightarrow>
       slipsOf s' rid' = slipsOf s rid' \<and> lookup (runsT s') rid' = lookup (runsT s) rid')"
proof (cases "\<exists>r. lookup (runsT s) rid = Some r \<and> openRun r")
  case False
  then have "s' = s" using c by (cases "lookup (runsT s) rid") (simp_all add: calculate_def findRun_def)
  then show ?thesis using i by simp
next
  case True
  then obtain run where run: "lookup (runsT s) rid = Some run" "openRun run" by blast
  let ?s = "s\<lparr>payslipsT := deleteWhere (\<lambda>p. ps_runId p = rid) (payslipsT s)\<rparr>"
  let ?es = "employeesInScope s run"
  obtain r s2 t sk where l: "payLoop P newId rid run (yearToDate ?s run) ?es (?s, noTotals, []) = (r, (s2, t, sk))"
    by (metis prod_cases4)
  obtain new where n: "s2 = ?s\<lparr>payslipsT := payslipsT ?s @ new\<rparr>" "\<forall>(j, p)\<in>set new. ps_runId p = rid"
    "subseq (List.map fst new) (List.map (newId \<circ> fst) ?es)"
    using payLoop_frame [OF l] by blast
  have s': "structuresT s' = structuresT s" "payslipsT s' = payslipsT ?s @ new"
    "runsT s' = runsT s \<or> (\<exists>q. runsT s' = updateRow rid (\<lambda>_. q) (runsT s))"
    using c n(1) unfolding calculate_cases [OF run] l by (cases r; auto simp: saveRun_def)+
  have "distinct (List.map newId (List.map fst ?es))"
    using employeesInScope_distinct [OF k, of run] fr by (simp only: distinct_map freshSlips_def) (meson inj_on_subset subset_UNIV)
  then have d: "distinct (List.map fst new)" using n(3) subseq_distinct by (simp add: comp_def)
  have "set (List.map fst new) \<subseteq> set (List.map (newId \<circ> fst) ?es)" using list_emb_set [OF n(3)] by blast
  then have "set (List.map fst new) \<subseteq> range newId" by auto
  then have "set (List.map fst new) \<inter> set (keys (payslipsT s)) = {}" using fr by (auto simp: freshSlips_def)
  moreover have "set (keys (payslipsT ?s)) \<subseteq> set (keys (payslipsT s))" by (auto simp: keys_def deleteWhere_def)
  ultimately have dj: "set (keys (payslipsT ?s)) \<inter> set (List.map fst new) = {}" by blast
  have "keys (payslipsT s') = keys (payslipsT ?s) @ List.map fst new" by (simp add: s' keys_def)
  then have "keyed (payslipsT s')" using d dj keyed_deleteWhere [OF i] by (simp add: keyed_def)
  moreover have "List.filter (\<lambda>(_, p). ps_runId p = rid') new = []" if "rid' \<noteq> rid" for rid'
    using n(2) that by (auto simp: filter_empty_conv)
  then have "slipsOf s' rid' = slipsOf s rid'" if "rid' \<noteq> rid" for rid'
    using that by (simp add: slipsOf_def s' slipsOf_delete)
  moreover have "lookup (runsT s') rid' = lookup (runsT s) rid'" if "rid' \<noteq> rid" for rid'
    using that s'(3) by (auto simp: lookup_updateRow)
  moreover have "keys (runsT s') = keys (runsT s)" using s'(3) by auto
  ultimately show ?thesis using s'(1) True by blast
qed

lemma approve_frame:
  assumes i: "keyed (payslipsT s)" and c: "s' = snd (approve P now ds rid actor s)"
  shows "structuresT s' = structuresT s \<and> keys (payslipsT s') = keys (payslipsT s) \<and> keys (runsT s') = keys (runsT s) \<and>
    (\<forall>rid'. (rid' = rid \<longrightarrow> \<not> (\<exists>r. lookup (runsT s) rid = Some r \<and> pr_status r = CALCULATED)) \<longrightarrow>
       slipsOf s' rid' = slipsOf s rid' \<and> lookup (runsT s') rid' = lookup (runsT s) rid')"
proof (cases "\<exists>r. lookup (runsT s) rid = Some r \<and> pr_status r = CALCULATED \<and> slipsOf s rid \<noteq> []")
  case False
  then have "s' = s" using c by (cases "lookup (runsT s) rid") (auto simp: approve_def findRun_def throwIf_def)
  then show ?thesis by simp
next
  case True
  then obtain run where run: "lookup (runsT s) rid = Some run" "pr_status run = CALCULATED" "slipsOf s rid \<noteq> []" by blast
  obtain r s1 where l: "approveSlips P now ds run actor (slipsOf s rid) s = (r, s1)" by (meson surj_pair)
  note f = approveSlips_frame [OF l]
  have s': "structuresT s' = structuresT s1" "payslipsT s' = payslipsT s1"
    "runsT s' = runsT s1 \<or> (\<exists>q. runsT s' = updateRow rid (\<lambda>_. q) (runsT s1))"
    using c run l by (auto simp: approve_def findRun_def throwIf_def saveRun_def Let_def split: sum.splits)
  have "sid \<notin> set (keys (slipsOf s rid'))" if d: "rid' \<noteq> rid" "sid \<in> fst ` set (slipsOf s rid)" for rid' sid
  proof
    assume "sid \<in> set (keys (slipsOf s rid'))"
    then obtain p q where "(sid, p) \<in> set (payslipsT s)" "ps_runId p = rid" "(sid, q) \<in> set (payslipsT s)" "ps_runId q = rid'"
      using d(2) by (auto simp: slipsOf_def keys_def)
    moreover from this have "lookup (payslipsT s) sid = Some p" "lookup (payslipsT s) sid = Some q"
      using keyed_lookup [OF i] by blast+
    ultimately show False using d(1) by simp
  qed
  then have "slipsOf s1 rid' = slipsOf s rid'" if "rid' \<noteq> rid" for rid' using f that by blast
  then have "slipsOf s' rid' = slipsOf s rid'" if "rid' \<noteq> rid" for rid' using that s'(2) by (simp add: slipsOf_def)
  moreover have "lookup (runsT s') rid' = lookup (runsT s) rid'" if "rid' \<noteq> rid" for rid'
    using that s'(3) f by (auto simp: lookup_updateRow)
  ultimately show ?thesis using f s' run by auto
qed

lemma pay_step_inv: "pay_step P s t \<Longrightarrow> payInv s \<Longrightarrow> payInv t"
proof (induction rule: pay_step.induct)
  case (newPay sid s sdto actor s')
  then have "structInv (structuresT s')" using createStructure_inv unfolding payInv_def by blast
  moreover have "runsT s' = runsT s \<and> payslipsT s' = payslipsT s"
    using newPay(2) unfolding createStructure_def Let_def by (auto simp: res_simps split: option.splits)
  ultimately show ?case using newPay by (simp add: payInv_def)
next
  case (compute s newId rid)
  then show ?case using calculate_frame [OF compute(1,2) _ refl, of P rid] by (simp add: payInv_def keyed_def)
next
  case (approval s now ds rid actor)
  then show ?case using approve_frame [OF _ refl, of s P now ds rid actor] by (simp add: payInv_def keyed_def)
next
  case (removal rid s s')
  then show ?case by (auto simp: deleteRun_def res_simps payInv_def keyed_deleteRow keyed_deleteWhere)
qed (auto simp: setFxRates_def createRun_def markPaid_def res_simps payInv_def saveRun_def payKept_def)

lemma payInit_inv: "payInit s \<Longrightarrow> payInv s"
  by (simp add: payInit_def payInv_def structInv_def keyed_def keys_def lookup_def)

interpretation payroll: step_system payInit "pay_step P" payInv
  by unfold_locales (auto intro: payInit_inv pay_step_inv)
section \<open>No calculation fails\<close>

lemma isInr_bind: "isInr m \<Longrightarrow> (\<And>x. m = Inr x \<Longrightarrow> isInr (k x)) \<Longrightarrow> isInr (bindE m k)"
  by (cases m) simp_all

lemma addLines_ok:
  "(\<And>l. l \<in> set ls \<Longrightarrow> gross = None \<Longrightarrow> sl_method l \<noteq> PERCENT_OF_GROSS) \<Longrightarrow> isInr (addLines base gross ls acc)"
proof (induction ls arbitrary: acc)
  case (Cons l ls)
  have "isInr (amountFor l base gross)"
    using Cons.prems [of l] by (cases "sl_method l"; cases gross) (simp_all add: amountFor_def)
  then show ?case unfolding addLines.simps by (rule isInr_bind) (rule Cons.IH, use Cons.prems in simp)
qed simp

lemma structureLines_ok: "noGrossEarning st \<Longrightarrow> isInr (structureLines st)"
  unfolding structureLines_def Let_def
  by (intro isInr_bind addLines_ok) (auto simp: noGrossEarning_def)

lemma noGrossEarning_scaled [simp]:
  "noGrossEarning (prorate st x) = noGrossEarning st" "noGrossEarning (toCurrency st c r) = noGrossEarning st"
  by (auto simp: noGrossEarning_def prorate_def toCurrency_def split: option.splits)

lemma addSegments_ok:
  "(\<And>sg. sg \<in> set sgs \<Longrightarrow> noGrossEarning (sg_structure sg)) \<Longrightarrow> isInr (addSegments emp n sgs acc)"
proof (induction sgs arbitrary: acc)
  case (Cons sg sgs)
  obtain b f m where acc: "acc = (b, f, m)" by (cases acc)
  have "isInr (structureLines (prorate (sg_structure sg) x))" for x
    using structureLines_ok Cons.prems [of sg] by simp
  then have "isInr (addSegment emp n sg acc)"
    unfolding addSegment_def acc Let_def prod.case by (auto intro!: isInr_bind simp: case_prod_beta)
  then show ?case unfolding addSegments.simps by (rule isInr_bind) (rule Cons.IH, use Cons.prems in simp)
qed simp

lemma calculatePay_ok:
  assumes "\<And>sg. sg \<in> set sgs \<Longrightarrow> noGrossEarning (sg_structure sg)"
  shows "isInr (calculatePay calc sgs p emp ytd)"
proof -
  have "isInr (contractualPay sgs p emp)"
    unfolding contractualPay_def by (rule isInr_bind [OF addSegments_ok [OF assms]]) (auto simp: case_prod_beta Let_def)
  then show ?thesis
    unfolding calculatePay_def by (rule isInr_bind) (auto simp: Let_def split: calculator.splits)
qed

lemma payOutcome_ok:
  assumes i: "structInv (structuresT s)"
  shows "isInr (payOutcome P rid run ytd s ke)"
proof -
  let ?sgs = "segmentsFor s (fst ke) (runPeriod run)"
  have g: "noGrossEarning (sg_structure sg)" if "(j, sg) \<in> set ?sgs" for j sg
    using that i segment_iff [of s j sg] structInvD(2) [OF i, of j]
    by (auto simp: structInv_def clipSegment_def)
  have "isInr (calculatePay c (List.map (\<lambda>(_, sg). sg\<lparr>sg_structure := toCurrency (sg_structure sg) (pr_currency run)
      (pr_fxRates run)\<rparr>) ?sgs) p emp y)" for c p emp y
    by (rule calculatePay_ok) (use g in auto)
  then show ?thesis unfolding payOutcome_def Let_def by (auto intro!: isInr_bind)
qed

lemma segment_within:
  assumes i: "structInv (structuresT s)" and p: "pe_start p \<le> pe_end p" and m: "(j, sg) \<in> set (segmentsFor s k p)"
  shows "pe_start p \<le> sg_start sg \<and> sg_start sg \<le> sg_end sg \<and> sg_end sg \<le> pe_end p"
proof -
  have kd: "keyed (structuresT s)" using i by (simp add: structInv_def)
  obtain st where st: "lookup (structuresT s) j = Some st" "inForce k (pe_start p) (pe_end p) st" "sg = clipSegment p st"
    using m segment_iff [OF kd] by blast
  then show ?thesis using structInvD(1) [OF i st(1)] p
    by (auto simp: clipSegment_def inForce_startsBy startsBy_def split: option.splits)
qed

lemma segments_sorted:
  assumes i: "structInv (structuresT s)"
  shows "sorted_wrt (\<lambda>(_, a) (_, b). sg_end a < sg_start b) (segmentsFor s k p)"
proof -
  have kd: "keyed (structuresT s)" and u: "uniqueBy overlapping (structuresT s)" using i by (simp_all add: structInv_def)
  let ?F = "List.filter (\<lambda>(_, st). inForce k (pe_start p) (pe_end p) st) (structuresT s)"
  let ?S = "sort_key (\<lambda>(_, st). ss_effectiveFrom st) ?F"
  have mem: "(j, st) \<in> set ?S \<longleftrightarrow> lookup (structuresT s) j = Some st \<and> inForce k (pe_start p) (pe_end p) st" for j st
    using row_lookup [OF kd, of j st] by auto
  have "sorted_wrt (\<lambda>x y. ss_effectiveFrom (snd x) \<le> ss_effectiveFrom (snd y)) ?S"
    using sorted_sort_key [of "\<lambda>(_, st). ss_effectiveFrom st" ?F] by (simp add: sorted_map sorted_wrt_map case_prod_beta)
  then have "sorted_wrt (\<lambda>x y. sg_end (clipSegment p (snd x)) < sg_start (clipSegment p (snd y))) ?S"
  proof (rule sorted_wrt_refine [OF _ distinct_sorted_rows [OF kd]])
    fix x y assume x: "x \<in> set ?S" and y: "y \<in> set ?S" and ne: "fst x \<noteq> fst y"
      and le: "ss_effectiveFrom (snd x) \<le> ss_effectiveFrom (snd y)"
    have lx: "lookup (structuresT s) (fst x) = Some (snd x)" "inForce k (pe_start p) (pe_end p) (snd x)"
      and ly: "lookup (structuresT s) (fst y) = Some (snd y)" "inForce k (pe_start p) (pe_end p) (snd y)"
      using mem [of "fst x" "snd x"] mem [of "fst y" "snd y"] x y by simp_all
    have "\<not> overlapping (snd x) (snd y)" using uniqueByD [OF u lx(1) ly(1)] ne by blast
    then have "\<not> startsBy (ss_effectiveFrom (snd y)) (ss_effectiveTo (snd x))"
      using lx(2) ly(2) le structInvD(1) [OF i ly(1)]
      by (auto simp: overlapping_def inForce_startsBy startsBy_def split: option.splits)
    then show "sg_end (clipSegment p (snd x)) < sg_start (clipSegment p (snd y))"
      by (auto simp: clipSegment_def startsBy_def split: option.splits)
  qed
  then show ?thesis
    by (simp add: segmentsFor_def sorted_wrt_map case_prod_beta)
qed

lemma payOutcome_own:
  assumes "payOutcome P rid run y s ke = Inr (Slip p cost)"
  shows "ps_runId p = rid" "ps_employeeId p = fst ke"
  using assms by (auto simp: payOutcome_def Let_def res_simps split: if_splits)

text \<open>Everybody gets a payslip or is skipped.\<close>

lemma slips_or_skipped:
  assumes ok: "\<And>ke. \<exists>out. payOutcome P rid run y q ke = Inr out"
  shows "mset (List.map (\<lambda>(_, p). ps_employeeId p) (newSlips P newId rid run y q es)) +
      mset (List.map fst (newSkipped P rid run y q es)) = mset (List.map fst es)"
proof (induction es)
  case (Cons ke es)
  obtain out where "payOutcome P rid run y q ke = Inr out" using ok by blast
  then show ?case using Cons payOutcome_own [of P rid run y q ke]
    by (cases out) (simp_all add: newSlips_def newSkipped_def)
qed (simp add: newSlips_def newSkipped_def)

lemma totals_cents:
  fixes xs :: "(id \<times> payslip) list"
  assumes "List.map (\<lambda>x. f (snd x)) xs = List.map cent ks" "(\<Sum>k\<leftarrow>ks. \<bar>k\<bar>) \<le> maxCents"
  shows "foldl (\<lambda>a p. round2 (dadd a (f (snd p)))) 0 xs = cent (sum_list ks)"
  using assms
proof (induction ks arbitrary: xs rule: rev_induct)
  case Nil
  then show ?case by (simp add: cent_def fl_0)
next
  case (snoc k ks)
  obtain ys y where xs1: "xs = ys @ [y]" using snoc.prems(1) by (cases xs rule: rev_cases) simp_all
  have xs2: "List.map (\<lambda>x. f (snd x)) ys = List.map cent ks" "f (snd y) = cent k"
    using snoc.prems(1) unfolding xs1 by simp_all
  have "\<bar>sum_list ks\<bar> + \<bar>k\<bar> \<le> maxCents" using snoc.prems(2) sum_abs_le [of ks] by simp
  moreover have "(\<Sum>k\<leftarrow>ks. \<bar>k\<bar>) \<le> maxCents" using snoc.prems(2) by simp
  ultimately show ?case using snoc.IH [OF xs2(1)] xs1 xs2(2) cent_add by simp
qed

section \<open>The properties\<close>


text \<open>What may happen to a run that is approved: it is marked paid.\<close>

definition advanced :: "payroll_run \<Rightarrow> payroll_run \<Rightarrow> bool" where
  "advanced r r' \<longleftrightarrow> r' = r \<or> (pr_status r = APPROVED \<and> (\<exists>now. r' = r\<lparr>pr_status := PAID, pr_paidAt := Some now\<rparr>))"

lemma advanced_refl [simp]: "advanced r r"
  by (simp add: advanced_def)

lemma advanced_paid: "pr_status r = APPROVED \<Longrightarrow> advanced r (r\<lparr>pr_status := PAID, pr_paidAt := Some now\<rparr>)"
  unfolding advanced_def by blast

lemma frozen_step:
  assumes "pay_step P s t" "payInv s" "lookup (runsT s) rid = Some r" "runVisible r"
  shows "(\<exists>r'. lookup (runsT t) rid = Some r' \<and> advanced r r') \<and> slipsOf t rid = slipsOf s rid"
  using assms
proof (induction rule: pay_step.induct)
  case (newPay sid s sdto actor s')
  then have "runsT s' = runsT s \<and> payslipsT s' = payslipsT s"
    unfolding createStructure_def Let_def by (auto simp: res_simps split: option.splits)
  then show ?case using newPay by (auto simp: advanced_def slipsOf_def)
next
  case (newRun r0 s rdto actor s')
  then have "r0 \<noteq> rid" using lookup_Some_keys by metis
  then show ?case using newRun by (auto simp: createRun_def res_simps lookup_insertRow advanced_def slipsOf_def)
next
  case (compute s newId rid')
  have "\<not> openRun r" using compute by (auto simp: openRun_def runVisible_def)
  moreover have "keyed (payslipsT s)" using compute by (simp add: payInv_def)
  ultimately have "slipsOf (snd (calculate P newId rid' s)) rid = slipsOf s rid \<and>
      lookup (runsT (snd (calculate P newId rid' s))) rid = lookup (runsT s) rid"
    using calculate_frame [OF compute(1,2) _ refl, of P rid'] compute(4) by (cases "rid = rid'") auto
  then show ?case using compute(4) by (simp add: advanced_def)
next
  case (approval s now ds rid' actor)
  have "pr_status r \<noteq> CALCULATED" "keyed (payslipsT s)" using approval by (auto simp: payInv_def runVisible_def)
  then have "slipsOf (snd (approve P now ds rid' actor s)) rid = slipsOf s rid \<and>
      lookup (runsT (snd (approve P now ds rid' actor s))) rid = lookup (runsT s) rid"
    using approve_frame [OF _ refl, of s P now ds rid' actor] approval(2) by (cases "rid = rid'") auto
  then show ?case using approval(2) by (simp add: advanced_def)
next
  case (payment now rid' s s')
  then show ?case by (auto simp: markPaid_def res_simps findRun_Inr saveRun_def lookup_updateRow advanced_paid slipsOf_def)
next
  case (removal rid' s s')
  then have "rid' \<noteq> rid" by (auto simp: deleteRun_def res_simps findRun_Inr openRun_def runVisible_def)
  then show ?case using removal
    by (auto simp: deleteRun_def res_simps lookup_deleteRow advanced_def slipsOf_def slipsOf_delete)
qed (auto simp: setFxRates_def res_simps findRun_Inr openRun_def runVisible_def saveRun_def lookup_updateRow advanced_def
    slipsOf_def payKept_def)

text \<open>
  C23. An approved or paid run is frozen: whatever payroll does afterwards, the run stays, with its
  period, scope, currency and totals (only an approved one becomes paid), and its payslips are
  the same rows, amounts, lines and documents included.
\<close>

theorem approved_runs_frozen:
  assumes "payInv s" and "(pay_step P)\<^sup>*\<^sup>* s t" and "lookup (runsT s) rid = Some r" and "runVisible r"
  shows "(\<exists>r'. lookup (runsT t) rid = Some r' \<and> advanced r r') \<and> slipsOf t rid = slipsOf s rid"
  using assms(2)
proof (induction rule: rtranclp_induct)
  case base
  then show ?case using assms(3) by (simp add: advanced_def)
next
  case (step t u)
  obtain r' where r: "lookup (runsT t) rid = Some r'" "advanced r r'" using step.IH by blast
  have v: "runVisible r'" "advanced r' q \<Longrightarrow> advanced r q" for q
    using r(2) assms(4) by (auto simp: advanced_def runVisible_def)
  have "payInv t" using payroll.inv_steps [OF step.hyps(1) assms(1)] .
  from frozen_step [OF step.hyps(2) this r(1) v(1)] show ?case using v(2) step.IH by auto
qed

section \<open>Examples\<close>

definition demoPayWith :: "salary_structure table \<Rightarrow> payroll_run table \<Rightarrow> payslip table \<Rightarrow> pay_state" where
  "demoPayWith T R S = doc_state.extend demoDocs (pay_state.fields T R S [])"

lemma demo_pay_tables [simp]:
  "structuresT (demoPayWith T R S) = T" "runsT (demoPayWith T R S) = R" "payslipsT (demoPayWith T R S) = S"
  "employeesT (demoPayWith T R S) = employeesT demoLinked"
  by (cases demoLinked; simp add: demoPayWith_def demoDocs_def org_state.defs doc_state.defs pay_state.defs)+

definition demoPayEnv :: pay_env where
  "demoPayEnv = \<lparr>py_docs = demoDocEnv, py_calculator = Simple, py_defaultCurrency = ''NGN'',
     py_renderPdf = (\<lambda>_ _ _ _. asciiBytes ''%PDF-'')\<rparr>"

definition demoStructDto :: create_structure_dto where
  "demoStructDto = \<lparr>cs_employeeId = 1, cs_effectiveFrom = 100, cs_currency = None, cs_payFrequency = None,
     cs_baseAmount = 1000, cs_annualRent = None, cs_lines = None, cs_notes = None\<rparr>"

definition demoRun :: "run_status \<Rightarrow> payroll_run" where
  "demoRun st = \<lparr>pr_periodStart = 90, pr_periodEnd = 119, pr_payDate = 119, pr_status = st, pr_departmentId = None,
     pr_currency = ''NGN'', pr_totals = None, pr_fxRates = [], pr_notes = None, pr_createdByUserId = Some 5,
     pr_approvedByUserId = None, pr_approvedAt = None, pr_paidAt = None\<rparr>"

definition demoRunDto :: create_run_dto where
  "demoRunDto = \<lparr>cr_periodStart = 90, cr_periodEnd = 119, cr_payDate = 119, cr_departmentId = None,
     cr_currency = None, cr_fxRates = None, cr_notes = None\<rparr>"

lemma demo_structured:
  "(pay_step demoPayEnv)\<^sup>*\<^sup>* (demoPayWith [] [] []) (demoPayWith [(1, newStructure demoPayEnv demoStructDto 5)] [] [])"
proof -
  have "createStructure demoPayEnv 1 demoStructDto 5 (demoPayWith [] [] []) =
      Inr (demoPayWith [(1, newStructure demoPayEnv demoStructDto 5)] [] [])"
    by (simp add: createStructure_def employeeById_def findEmployee_def demo_linked_tables lookup_def newEmployee_def
        demoStructDto_def patched_def currentStructure_def insertRow_def)
      (simp add: demoPayWith_def pay_state.defs doc_state.defs)
  then show ?thesis by (intro r_into_rtranclp pay_step.newPay) (simp_all add: keys_def)
qed


lemma demo_pay_run: "(pay_step demoPayEnv)\<^sup>*\<^sup>* (demoPayWith [] [] []) (demoPayWith [] [(1, demoRun DRAFT)] [])"
proof -
  have "createRun demoPayEnv 1 demoRunDto 5 (demoPayWith [] [] []) = Inr (demoPayWith [] [(1, demoRun DRAFT)] [])"
    by (simp add: createRun_def demoRunDto_def rows_def insertRow_def patched_def demoPayEnv_def)
      (simp add: demoPayWith_def demoRun_def pay_state.defs doc_state.defs)
  then show ?thesis by (intro r_into_rtranclp pay_step.newRun) (simp_all add: keys_def)
qed


theorem approved_runs_frozen_witness:
  "\<exists>r'. lookup (runsT (saveRun 1 ((demoRun APPROVED)\<lparr>pr_status := PAID, pr_paidAt := Some 7\<rparr>)
     (demoPayWith [] [(1, demoRun APPROVED)] []))) 1 = Some r' \<and> advanced (demoRun APPROVED) r'"
proof -
  let ?s = "demoPayWith [] [(1, demoRun APPROVED)] []"
  let ?t = "saveRun 1 ((demoRun APPROVED)\<lparr>pr_status := PAID, pr_paidAt := Some 7\<rparr>) ?s"
  have inv: "payInv ?s" by (simp add: payInv_def structInv_def keyed_def keys_def lookup_def)
  have l: "lookup (runsT ?s) 1 = Some (demoRun APPROVED)" "runVisible (demoRun APPROVED)"
    by (simp_all add: lookup_def runVisible_def demoRun_def)
  have "markPaid 7 1 ?s = Inr ?t" by (simp add: markPaid_def findRun_def lookup_def demoRun_def throwIf_def)
  then have "pay_step demoPayEnv ?s ?t" by (rule pay_step.payment)
  then have "(pay_step demoPayEnv)\<^sup>*\<^sup>* ?s ?t" by blast
  from approved_runs_frozen [OF inv this l] show ?thesis by blast
qed

text \<open>
  Runs that overlap: only runs past DRAFT are looked at, only when a run is created, and only
  those of the same department. So two drafts of one period are both accepted; nothing later
  looks at the other, and both can be calculated, approved and paid.
\<close>

lemma overlapping_drafts_accepted:
  assumes "\<And>r. r \<in> set (rows (runsT s)) \<Longrightarrow> pr_status r = DRAFT \<or> pr_departmentId r \<noteq> cr_departmentId dto"
    and "cr_periodStart dto \<le> cr_periodEnd dto"
  shows "isInr (createRun P rid dto actor s)"
  using assms by (auto simp: createRun_def throwIf_def list_ex_iff overlapsRun_def)

end
