(* ===== verification/Steps.thy ===== *)
theory Steps
  imports Prelude
begin

text \<open>
  Methods that write before they may fail. Nothing is rolled back outside a transaction, so such a
  method is a function from the state to its result and the state it leaves, whatever the result:
  an error ends the method and keeps the writes made before it. A property of the state that every
  part keeps is kept by the whole; the collection \<open>keeps\<close> holds the rules.
\<close>

named_theorems keeps \<open>a property of the state every part keeps\<close>

type_synonym ('s, 'a) act = "'s \<Rightarrow> 'a res \<times> 's"

definition returnS :: "'a \<Rightarrow> ('s, 'a) act" where
  "returnS x s = (Inr x, s)"

text \<open>A step that reads the state and may throw.\<close>

definition readS :: "('s \<Rightarrow> 'a res) \<Rightarrow> ('s, 'a) act" where
  "readS f s = (f s, s)"

text \<open>A step that either throws and writes nothing or leaves a new state.\<close>

definition tryS :: "('s \<Rightarrow> 's res) \<Rightarrow> ('s, unit) act" where
  "tryS f s = (case f s of Inl e \<Rightarrow> (Inl e, s) | Inr t \<Rightarrow> (Inr (), t))"

definition writeS :: "('s \<Rightarrow> 's) \<Rightarrow> ('s, unit) act" where
  "writeS f s = (Inr (), f s)"

definition guardS :: "bool \<Rightarrow> http_error \<Rightarrow> ('s, unit) act" where
  "guardS c e s = (if c then Inl e else Inr (), s)"

definition bindS :: "('s, 'a) act \<Rightarrow> ('a \<Rightarrow> ('s, 'b) act) \<Rightarrow> ('s, 'b) act" where
  "bindS m k s = (case m s of (Inl e, t) \<Rightarrow> (Inl e, t) | (Inr x, t) \<Rightarrow> k x t)"

definition thenS :: "('s, unit) act \<Rightarrow> ('s, 'b) act \<Rightarrow> ('s, 'b) act" where
  "thenS m k = bindS m (\<lambda>_. k)"

definition whenS :: "bool \<Rightarrow> ('s, unit) act \<Rightarrow> ('s, unit) act" where
  "whenS c m = (if c then m else returnS ())"

text \<open>\<open>for (const x of xs) await f(x)\<close>.\<close>

fun eachS :: "('x \<Rightarrow> ('s, unit) act) \<Rightarrow> 'x list \<Rightarrow> ('s, unit) act" where
  "eachS f [] = returnS ()"
| "eachS f (x # xs) = thenS (f x) (eachS f xs)"

text \<open>\<open>Promise.all(xs.map(f))\<close> taken in order.\<close>

fun mapS :: "('x \<Rightarrow> ('s, 'y) act) \<Rightarrow> 'x list \<Rightarrow> ('s, 'y list) act" where
  "mapS f [] = returnS []"
| "mapS f (x # xs) = bindS (f x) (\<lambda>y. bindS (mapS f xs) (\<lambda>ys. returnS (y # ys)))"

section \<open>Successful runs\<close>

lemma bindS_Inr: "bindS m k s = (Inr y, t) \<longleftrightarrow> (\<exists>x u. m s = (Inr x, u) \<and> k x u = (Inr y, t))"
  by (auto simp: bindS_def split: prod.split sum.split)

lemma thenS_Inr: "thenS m k s = (Inr y, t) \<longleftrightarrow> (\<exists>u. m s = (Inr (), u) \<and> k u = (Inr y, t))"
  by (simp add: thenS_def bindS_Inr)

lemma guardS_Inr: "guardS c e s = (Inr x, t) \<longleftrightarrow> \<not> c \<and> t = s"
  by (auto simp: guardS_def)

lemma readS_Inr: "readS f s = (Inr x, t) \<longleftrightarrow> f s = Inr x \<and> t = s"
  by (auto simp: readS_def)

lemma tryS_Inr: "tryS f s = (Inr x, t) \<longleftrightarrow> f s = Inr t"
  by (auto simp: tryS_def split: sum.split)

lemma writeS_Inr: "writeS f s = (Inr x, t) \<longleftrightarrow> t = f s"
  by (auto simp: writeS_def)

lemma returnS_Inr: "returnS y s = (Inr x, t) \<longleftrightarrow> x = y \<and> t = s"
  by (auto simp: returnS_def)

lemma whenS_Inr: "whenS c m s = (Inr x, t) \<longleftrightarrow> (if c then m s = (Inr x, t) else t = s)"
  by (simp add: whenS_def returnS_Inr)

lemmas stepS_Inr = bindS_Inr thenS_Inr guardS_Inr readS_Inr tryS_Inr writeS_Inr returnS_Inr whenS_Inr

text \<open>Evaluation.\<close>

lemma bindS_run:
  "m s = (Inr x, t) \<Longrightarrow> bindS m k s = k x t"
  "m s = (Inl e, t) \<Longrightarrow> bindS m k s = (Inl e, t)"
  by (simp_all add: bindS_def)

lemma stepS_run:
  "returnS x s = (Inr x, s)"
  "readS f s = (f s, s)"
  "writeS g s = (Inr (), g s)"
  "guardS c e s = (if c then (Inl e, s) else (Inr (), s))"
  by (simp_all add: returnS_def readS_def writeS_def guardS_def)

section \<open>What the parts keep, the whole keeps\<close>

definition keepsS :: "('s \<Rightarrow> bool) \<Rightarrow> ('s, 'a) act \<Rightarrow> bool" where
  "keepsS P m \<longleftrightarrow> (\<forall>s. P s \<longrightarrow> P (snd (m s)))"

lemma keepsS_I: "(\<And>s. P s \<Longrightarrow> P (snd (m s))) \<Longrightarrow> keepsS P m"
  by (simp add: keepsS_def)

lemma keepsS_D: "keepsS P m \<Longrightarrow> P s \<Longrightarrow> P (snd (m s))"
  by (simp add: keepsS_def)

lemma keepsS_run: "keepsS P m \<Longrightarrow> P s \<Longrightarrow> m s = (r, t) \<Longrightarrow> P t"
  by (metis keepsS_D snd_conv)

lemma keeps_returnS [keeps]: "keepsS P (returnS x)"
  by (simp add: keepsS_def returnS_def)

lemma keeps_readS [keeps]: "keepsS P (readS f)"
  by (simp add: keepsS_def readS_def)

lemma keeps_guardS [keeps]: "keepsS P (guardS c e)"
  by (simp add: keepsS_def guardS_def)

lemma keeps_writeS: "(\<And>s. P s \<Longrightarrow> P (f s)) \<Longrightarrow> keepsS P (writeS f)"
  by (simp add: keepsS_def writeS_def)

lemma keeps_tryS: "(\<And>s t. P s \<Longrightarrow> f s = Inr t \<Longrightarrow> P t) \<Longrightarrow> keepsS P (tryS f)"
  by (auto simp: keepsS_def tryS_def split: sum.split)

lemma keeps_bindS [keeps]: "keepsS P m \<Longrightarrow> (\<And>x. keepsS P (k x)) \<Longrightarrow> keepsS P (bindS m k)"
  by (auto simp: keepsS_def bindS_def split: prod.split sum.split)

lemma keeps_thenS [keeps]: "keepsS P m \<Longrightarrow> keepsS P k \<Longrightarrow> keepsS P (thenS m k)"
  unfolding thenS_def by (rule keeps_bindS)

lemma keeps_whenS [keeps]: "keepsS P m \<Longrightarrow> keepsS P (whenS c m)"
  by (simp add: whenS_def keeps_returnS)

lemma keeps_eachS: "(\<And>x. x \<in> set xs \<Longrightarrow> keepsS P (f x)) \<Longrightarrow> keepsS P (eachS f xs)"
  by (induction xs) (auto intro: keeps)

lemma keeps_mapS: "(\<And>x. x \<in> set xs \<Longrightarrow> keepsS P (f x)) \<Longrightarrow> keepsS P (mapS f xs)"
  by (induction xs) (auto intro!: keeps)

text \<open>The rest of a method may rely on what the step before it found out.\<close>

lemma bindS_state:
  assumes "bindS m k s = (r, t)"
  obtains (stopped) e where "m s = (Inl e, t)" "r = Inl e"
    | (went_on) x u where "m s = (Inr x, u)" "k x u = (r, t)"
  using assms that unfolding bindS_def by (cases "m s"; cases "fst (m s)") auto

end
