(* ===== verification/LeavePolicy.thy ===== *)
theory LeavePolicy
  imports Steps Payroll Holidays
begin

text \<open>
  Leave policy (\<open>leave-policy.service.ts\<close>): leave types, public holidays, the count of working days
  and the balances, one per employee, type and year, that are provisioned when first touched.
  Days are multiples of a half below a thousand (\<open>IsHalfStep\<close>, \<open>numeric(5,1)\<close>), on which double
  addition is exact; only \<open>proRate\<close> divides, and its division rounds.
\<close>

section \<open>Rows\<close>

record leave_type =
  lt_code :: string
  lt_name :: string
  lt_description :: "string option"
  lt_defaultDays :: rat
  lt_isPaid :: bool
  lt_requiresBalance :: bool
  lt_carryOverMaxDays :: rat
  lt_carryOverExpiresOn :: "(nat \<times> nat) option"
  lt_allowHalfDay :: bool
  lt_isActive :: bool
  lt_sortOrder :: nat

record public_holiday =
  ph_date :: date
  ph_name :: string

record leave_balance =
  lb_employeeId :: id
  lb_leaveTypeId :: id
  lb_year :: int
  lb_entitled :: rat
  lb_carriedOver :: rat
  lb_carryOverExpiresOn :: "date option"
  lb_adjustment :: rat
  lb_used :: rat
  lb_pending :: rat

record balance_adjustment =
  ba_balanceId :: id
  ba_delta :: rat
  ba_reason :: string
  ba_byUserId :: "id option"

datatype leave_status = PENDING | APPROVED | REJECTED | CANCELLED

datatype half_day = NONE | AM | PM

record leave_request =
  lr_employeeId :: id
  lr_leaveTypeId :: id
  lr_startDate :: date
  lr_endDate :: date
  lr_halfDay :: half_day
  lr_days :: rat
  lr_year :: int
  lr_allocations :: "(int \<times> rat) list option"
  lr_reason :: "string option"
  lr_status :: leave_status
  lr_approverUserId :: "id option"
  lr_decidedByUserId :: "id option"
  lr_decidedAt :: "int option"
  lr_decisionNote :: "string option"
  lr_attachmentDocumentId :: "id option"
  lr_statusApplied :: bool

text \<open>The notifications sent: of which request, and to which login.\<close>

datatype leave_notice =
    LeaveRequested id id
  | LeaveDecided id id leave_status
  | LeaveCancelled id id

record leave_state = pay_state +
  leaveTypesT :: "leave_type table"
  holidaysT :: "public_holiday table"
  balancesT :: "leave_balance table"
  adjustmentsT :: "balance_adjustment table"
  requestsT :: "leave_request table"
  leaveNotices :: "leave_notice list"

section \<open>Leave types\<close>

record create_type_dto =
  ct_code :: string
  ct_name :: string
  ct_description :: "string option"
  ct_defaultDays :: rat
  ct_isPaid :: "bool option"
  ct_requiresBalance :: "bool option"
  ct_carryOverMaxDays :: "rat option"
  ct_carryOverExpiresOn :: "(nat \<times> nat) option"
  ct_allowHalfDay :: "bool option"
  ct_sortOrder :: "nat option"

record update_type_dto =
  ut_code :: "string option"
  ut_name :: "string option"
  ut_description :: "string option option"
  ut_defaultDays :: "rat option"
  ut_isPaid :: "bool option"
  ut_requiresBalance :: "bool option"
  ut_carryOverMaxDays :: "rat option"
  ut_carryOverExpiresOn :: "(nat \<times> nat) option option"
  ut_allowHalfDay :: "bool option"
  ut_sortOrder :: "nat option"
  ut_isActive :: "bool option"

definition findTypes :: "bool \<Rightarrow> 'a leave_state_scheme \<Rightarrow> (id \<times> leave_type) list" where
  "findTypes includeInactive s =
     sort_key (\<lambda>(_, t). lt_sortOrder t) (sort_key (\<lambda>(_, t). lt_name t)
       (List.filter (\<lambda>(_, t). includeInactive \<or> lt_isActive t) (leaveTypesT s)))"

definition findType :: "'a leave_state_scheme \<Rightarrow> id \<Rightarrow> leave_type res" where
  "findType s k = orThrow (lookup (leaveTypesT s) k) (NotFound ''Leave type not found'') Inr"

definition typeCodeTaken :: "'a leave_state_scheme \<Rightarrow> string \<Rightarrow> bool" where
  "typeCodeTaken s c \<longleftrightarrow> list_ex (\<lambda>t. lt_code t = c) (rows (leaveTypesT s))"

definition createType :: "id \<Rightarrow> create_type_dto \<Rightarrow> 'a leave_state_scheme \<Rightarrow> 'a leave_state_scheme res" where
  "createType k dto s =
     throwIf (typeCodeTaken s (ct_code dto)) (Conflict ''Leave type already exists'')
     (Inr (s\<lparr>leaveTypesT := insertRow k
       \<lparr>lt_code = ct_code dto, lt_name = ct_name dto, lt_description = ct_description dto,
        lt_defaultDays = ct_defaultDays dto, lt_isPaid = patched True (ct_isPaid dto),
        lt_requiresBalance = patched True (ct_requiresBalance dto),
        lt_carryOverMaxDays = patched 0 (ct_carryOverMaxDays dto),
        lt_carryOverExpiresOn = ct_carryOverExpiresOn dto, lt_allowHalfDay = patched True (ct_allowHalfDay dto),
        lt_isActive = True, lt_sortOrder = patched 0 (ct_sortOrder dto)\<rparr> (leaveTypesT s)\<rparr>))"

definition patchType :: "update_type_dto \<Rightarrow> leave_type \<Rightarrow> leave_type" where
  "patchType dto t =
     \<lparr>lt_code = patched (lt_code t) (ut_code dto), lt_name = patched (lt_name t) (ut_name dto),
      lt_description = patched (lt_description t) (ut_description dto),
      lt_defaultDays = patched (lt_defaultDays t) (ut_defaultDays dto),
      lt_isPaid = patched (lt_isPaid t) (ut_isPaid dto),
      lt_requiresBalance = patched (lt_requiresBalance t) (ut_requiresBalance dto),
      lt_carryOverMaxDays = patched (lt_carryOverMaxDays t) (ut_carryOverMaxDays dto),
      lt_carryOverExpiresOn = patched (lt_carryOverExpiresOn t) (ut_carryOverExpiresOn dto),
      lt_allowHalfDay = patched (lt_allowHalfDay t) (ut_allowHalfDay dto),
      lt_isActive = patched (lt_isActive t) (ut_isActive dto),
      lt_sortOrder = patched (lt_sortOrder t) (ut_sortOrder dto)\<rparr>"

definition updateType :: "id \<Rightarrow> update_type_dto \<Rightarrow> 'a leave_state_scheme \<Rightarrow> 'a leave_state_scheme res" where
  "updateType k dto s =
     bindE (findType s k) (\<lambda>t.
     throwIf (case ut_code dto of None \<Rightarrow> False | Some c \<Rightarrow> c \<noteq> [] \<and> c \<noteq> lt_code t \<and> typeCodeTaken s c)
       (Conflict ''Leave type already exists'')
     (Inr (s\<lparr>leaveTypesT := updateRow k (\<lambda>_. patchType dto t) (leaveTypesT s)\<rparr>)))"

section \<open>Public holidays\<close>

text \<open>The year 0 is falsy.\<close>

definition findHolidays :: "int option \<Rightarrow> 'a leave_state_scheme \<Rightarrow> (id \<times> public_holiday) list" where
  "findHolidays year s = sort_key (\<lambda>(_, h). ph_date h)
     (List.filter (\<lambda>(_, h). case year of None \<Rightarrow> True
        | Some y \<Rightarrow> y = 0 \<or> dayNum y 1 1 \<le> ph_date h \<and> ph_date h \<le> dayNum y 12 31) (holidaysT s))"

definition holidayOn :: "'a leave_state_scheme \<Rightarrow> date \<Rightarrow> bool" where
  "holidayOn s d \<longleftrightarrow> list_ex (\<lambda>h. ph_date h = d) (rows (holidaysT s))"

definition addHoliday :: "id \<Rightarrow> public_holiday \<Rightarrow> 'a leave_state_scheme \<Rightarrow> 'a leave_state_scheme res" where
  "addHoliday k h s =
     throwIf (holidayOn s (ph_date h)) (Conflict ''A holiday already exists on that date'')
     (Inr (s\<lparr>holidaysT := insertRow k h (holidaysT s)\<rparr>))"

text \<open>The row of a new holiday has the key \<open>newId\<close> gives its date.\<close>

fun addHolidays ::
  "(date \<Rightarrow> id) \<Rightarrow> holiday list \<Rightarrow> 'a leave_state_scheme \<Rightarrow> 'a leave_state_scheme \<times> holiday list \<times> date list" where
  "addHolidays newId [] s = (s, [], [])"
| "addHolidays newId ((d, n) # hs) s =
     (if holidayOn s d
      then (case addHolidays newId hs s of (t, added, skipped) \<Rightarrow> (t, added, d # skipped))
      else case addHolidays newId hs (s\<lparr>holidaysT := insertRow (newId d) \<lparr>ph_date = d, ph_name = n\<rparr> (holidaysT s)\<rparr>) of
        (t, added, skipped) \<Rightarrow> (t, (d, n) # added, skipped))"

definition addNigerianHolidays ::
  "(date \<Rightarrow> id) \<Rightarrow> int \<Rightarrow> 'a leave_state_scheme \<Rightarrow> 'a leave_state_scheme \<times> holiday list \<times> date list" where
  "addNigerianHolidays newId year s = addHolidays newId (nigerianPublicHolidays year) s"

definition addNigerianYear ::
  "(date \<Rightarrow> id) \<Rightarrow> int \<Rightarrow> 'a leave_state_scheme \<Rightarrow> ('a leave_state_scheme \<times> holiday list \<times> date list) res" where
  "addNigerianYear newId year s =
     throwIf (year < 2000 \<or> 2100 < year) (BadRequest ''year must be between 2000 and 2100'')
     (Inr (addNigerianHolidays newId year s))"

definition removeHoliday :: "id \<Rightarrow> 'a leave_state_scheme \<Rightarrow> 'a leave_state_scheme res" where
  "removeHoliday k s =
     orThrow (lookup (holidaysT s) k) (NotFound ''Holiday not found'') (\<lambda>_.
     Inr (s\<lparr>holidaysT := deleteRow k (holidaysT s)\<rparr>))"

section \<open>Working days\<close>

definition countWorkingDays :: "'a leave_state_scheme \<Rightarrow> date \<Rightarrow> date \<Rightarrow> half_day \<Rightarrow> rat res" where
  "countWorkingDays s a b half =
     throwIf (b < a) (BadRequest ''endDate must be on or after startDate'')
     (throwIf (half \<noteq> NONE \<and> a \<noteq> b) (BadRequest ''Half days are only allowed on single-day requests'')
     (let days = length (List.filter (\<lambda>d. \<not> (isWeekend d \<or> holidayOn s d)) [a..b])
      in Inr (if half \<noteq> NONE then (if days = 0 then 0 else 1 / 2) else of_nat days)))"

section \<open>Balances\<close>

text \<open>\<open>round1\<close>: to the half day, halves of it upwards.\<close>

definition round1 :: "rat \<Rightarrow> rat" where
  "round1 n = of_int (jsRound (n * 2)) / 2"

definition proRate :: "rat \<Rightarrow> date \<Rightarrow> int \<Rightarrow> rat" where
  "proRate defaultDays hire year =
     (if year < yearOf hire then 0 else if yearOf hire < year then defaultDays
      else round1 (ddiv (dmul defaultDays (of_int (12 - (monthOf hire - 1)))) 12))"

definition effectiveCarryOver :: "leave_balance \<Rightarrow> date \<Rightarrow> rat" where
  "effectiveCarryOver b asOf =
     (case lb_carryOverExpiresOn b of None \<Rightarrow> lb_carriedOver b
      | Some x \<Rightarrow> if x < asOf then 0 else lb_carriedOver b)"

definition available :: "leave_balance \<Rightarrow> date \<Rightarrow> rat" where
  "available b asOf =
     round1 (lb_entitled b + effectiveCarryOver b asOf + lb_adjustment b - lb_used b - lb_pending b)"

definition ofTriple :: "id \<Rightarrow> id \<Rightarrow> int \<Rightarrow> leave_balance \<Rightarrow> bool" where
  "ofTriple e t y b \<longleftrightarrow> lb_employeeId b = e \<and> lb_leaveTypeId b = t \<and> lb_year b = y"

definition findBalance :: "'a leave_state_scheme \<Rightarrow> id \<Rightarrow> id \<Rightarrow> int \<Rightarrow> (id \<times> leave_balance) option" where
  "findBalance s e t y = List.find (\<lambda>(_, b). ofTriple e t y b) (balancesT s)"

definition carriedOver :: "leave_type \<Rightarrow> leave_balance option \<Rightarrow> int \<Rightarrow> rat" where
  "carriedOver t prev year =
     (if 0 < lt_carryOverMaxDays t then
        (case prev of None \<Rightarrow> 0
         | Some p \<Rightarrow>
             (let remaining = lb_entitled p + effectiveCarryOver p (dayNum (year - 1) 12 31) + lb_adjustment p - lb_used p
              in round1 (max 0 (min remaining (lt_carryOverMaxDays t)))))
      else 0)"

text \<open>
  The row \<open>ensureBalance\<close> inserts. Its expiry is the policy's month and day in the year; \<open>None\<close>
  when that is no date (29 February of a common year, 31 April): the insert then fails.
\<close>

definition provision :: "leave_type \<Rightarrow> employee \<Rightarrow> leave_balance option \<Rightarrow> id \<Rightarrow> id \<Rightarrow> int \<Rightarrow> leave_balance option" where
  "provision t emp prev e k year =
     (let c = carriedOver t prev year;
          row = \<lambda>x. \<lparr>lb_employeeId = e, lb_leaveTypeId = k, lb_year = year,
            lb_entitled = proRate (lt_defaultDays t) (e_hireDate emp) year, lb_carriedOver = c,
            lb_carryOverExpiresOn = x, lb_adjustment = 0, lb_used = 0, lb_pending = 0\<rparr>
      in if 0 < c then
           (case lt_carryOverExpiresOn t of None \<Rightarrow> Some (row None)
            | Some (m, d) \<Rightarrow> if validDate year (int m) (int d) then Some (row (Some (dayNum year (int m) (int d)))) else None)
         else Some (row None))"

text \<open>
  The error of a failed insert is swallowed as a lost race; \<open>findOneOrFail\<close> then throws.
  A new balance of a type and a year has the key \<open>newId\<close> gives them.
\<close>

definition ensureBalance ::
  "(id \<Rightarrow> int \<Rightarrow> id) \<Rightarrow> id \<Rightarrow> id \<Rightarrow> int \<Rightarrow> ('a leave_state_scheme, id \<times> leave_balance) act" where
  "ensureBalance newId e k year s =
     (case findBalance s e k year of
        Some jb \<Rightarrow> (Inr jb, s)
      | None \<Rightarrow>
          (case bindE (findType s k) (\<lambda>t. orThrow (findEmployee s e) (InternalError ''EntityNotFound'') (\<lambda>emp. Inr (t, emp))) of
             Inl err \<Rightarrow> (Inl err, s)
           | Inr (t, emp) \<Rightarrow>
               (case provision t emp (map_option snd (findBalance s e k (year - 1))) e k year of
                  None \<Rightarrow> (Inl (InternalError ''EntityNotFound''), s)
                | Some b \<Rightarrow> (Inr (newId k year, b), s\<lparr>balancesT := insertRow (newId k year) b (balancesT s)\<rparr>))))"

definition balancesFor ::
  "(id \<Rightarrow> int \<Rightarrow> id) \<Rightarrow> id \<Rightarrow> int \<Rightarrow> date \<Rightarrow> ('a leave_state_scheme, (leave_balance \<times> rat) list) act" where
  "balancesFor newId e year today s =
     (let types = List.filter (\<lambda>(_, t). lt_requiresBalance t) (findTypes False s)
      in bindS (mapS (\<lambda>(k, _). ensureBalance newId e k year) types)
           (\<lambda>bs. returnS (List.map (\<lambda>(_, b). (b, available b today)) bs)) s)"

record adjust_dto =
  ad_employeeId :: id
  ad_leaveTypeId :: id
  ad_year :: int
  ad_delta :: rat
  ad_reason :: string

definition saveBalance :: "id \<Rightarrow> leave_balance \<Rightarrow> 'a leave_state_scheme \<Rightarrow> 'a leave_state_scheme" where
  "saveBalance j b s = s\<lparr>balancesT := updateRow j (\<lambda>_. b) (balancesT s)\<rparr>"

definition adjust ::
  "(id \<Rightarrow> int \<Rightarrow> id) \<Rightarrow> id \<Rightarrow> adjust_dto \<Rightarrow> id \<Rightarrow> date \<Rightarrow> ('a leave_state_scheme, leave_balance \<times> rat) act" where
  "adjust newId aid dto byUser today =
     bindS (readS (\<lambda>s. bindE (findType s (ad_leaveTypeId dto)) (\<lambda>t.
       throwIf (\<not> lt_requiresBalance t) (BadRequest ''This leave type has no balance'') (Inr ())))) (\<lambda>_.
     bindS (ensureBalance newId (ad_employeeId dto) (ad_leaveTypeId dto) (ad_year dto)) (\<lambda>(j, b).
     thenS (guardS (available b today + ad_delta dto < 0) (BadRequest ''Adjustment would make the available balance negative''))
     (let b' = b\<lparr>lb_adjustment := round1 (lb_adjustment b + ad_delta dto)\<rparr>
      in thenS (writeS (\<lambda>s. (saveBalance j b' s)\<lparr>adjustmentsT := insertRow aid
             \<lparr>ba_balanceId = j, ba_delta = ad_delta dto, ba_reason = ad_reason dto, ba_byUserId = Some byUser\<rparr> (adjustmentsT s)\<rparr>))
           (returnS (b', available b' today)))))"

text \<open>A change of the pending and of the used days.\<close>

type_synonym balance_change = "rat \<times> rat"

definition applyToBalance :: "id \<Rightarrow> leave_balance \<Rightarrow> balance_change \<Rightarrow> 'a leave_state_scheme \<Rightarrow> 'a leave_state_scheme" where
  "applyToBalance j b c = saveBalance j
     (b\<lparr>lb_pending := round1 (lb_pending b + fst c), lb_used := round1 (lb_used b + snd c)\<rparr>)"

end
