(* ===== verification/Leave.thy ===== *)
theory Leave
  imports LeavePolicy
begin

text \<open>
  Leave requests (\<open>leave-requests.service.ts\<close>, \<open>leave.controller.ts\<close>, \<open>leave.processor.ts\<close>): submitting,
  deciding and withdrawing requests, the days they reserve and use of the balances, who may see and
  decide them, and the switch of long leave to the status ON_LEAVE and back. A notification is an
  entry of \<open>leaveNotices\<close>.
\<close>

section \<open>Days charged to each year\<close>

definition LONG_LEAVE_CALENDAR_DAYS :: int where
  "LONG_LEAVE_CALENDAR_DAYS = 30"

definition isLongLeave :: "leave_request \<Rightarrow> bool" where
  "isLongLeave r \<longleftrightarrow> LONG_LEAVE_CALENDAR_DAYS \<le> daysBetween (lr_startDate r) (lr_endDate r) + 1"

definition activeRequest :: "leave_request \<Rightarrow> bool" where
  "activeRequest r \<longleftrightarrow> lr_status r \<in> {PENDING, APPROVED}"

definition allocate :: "'a leave_state_scheme \<Rightarrow> date \<Rightarrow> date \<Rightarrow> half_day \<Rightarrow> (int \<times> rat) list res" where
  "allocate s a b half =
     (let y = yearOf a
      in if yearOf b = y then bindE (countWorkingDays s a b half) (\<lambda>d. Inr [(y, d)])
         else bindE (countWorkingDays s a (dayNum y 12 31) half) (\<lambda>d1.
              bindE (countWorkingDays s (dayNum (y + 1) 1 1) b half) (\<lambda>d2.
              Inr ((if 0 < d1 then [(y, d1)] else []) @ (if 0 < d2 then [(y + 1, d2)] else [])))))"

text \<open>Rows from before allocations were stored charge all their days to their year.\<close>

definition allocationsOf :: "leave_request \<Rightarrow> (int \<times> rat) list" where
  "allocationsOf r = (case lr_allocations r of Some (a # cs) \<Rightarrow> a # cs | _ \<Rightarrow> [(lr_year r, lr_days r)])"

definition chargeBalances ::
  "(id \<Rightarrow> int \<Rightarrow> id) \<Rightarrow> id \<Rightarrow> id \<Rightarrow> (rat \<Rightarrow> balance_change) \<Rightarrow> (int \<times> rat) list \<Rightarrow> ('a leave_state_scheme, unit) act" where
  "chargeBalances newId e k change =
     eachS (\<lambda>(y, d). bindS (ensureBalance newId e k y) (\<lambda>(j, b). writeS (applyToBalance j b (change d))))"

section \<open>Submitting\<close>

record create_request_dto =
  cl_leaveTypeId :: id
  cl_startDate :: date
  cl_endDate :: date
  cl_halfDay :: "half_day option"
  cl_reason :: "string option"
  cl_attachmentDocumentId :: "id option"

definition overlapping :: "id \<Rightarrow> date \<Rightarrow> date \<Rightarrow> leave_request \<Rightarrow> bool" where
  "overlapping e a b r \<longleftrightarrow> lr_employeeId r = e \<and> activeRequest r \<and> lr_startDate r \<le> b \<and> a \<le> lr_endDate r"

text \<open>The checks before any balance is touched: the employee, the type and the days of each year.\<close>

definition checkRequest ::
  "id \<Rightarrow> create_request_dto \<Rightarrow> 'a leave_state_scheme \<Rightarrow> (employee \<times> leave_type \<times> (int \<times> rat) list) res" where
  "checkRequest e dto s =
     bindE (employeeById s e) (\<lambda>emp.
     throwIf (e_status emp = TERMINATED) (BadRequest ''Employee is terminated'')
     (bindE (findType s (cl_leaveTypeId dto)) (\<lambda>t.
     throwIf (\<not> lt_isActive t) (BadRequest ''Leave type is inactive'')
     (let half = patched NONE (cl_halfDay dto); startYear = yearOf (cl_startDate dto)
      in throwIf (half \<noteq> NONE \<and> \<not> lt_allowHalfDay t) (BadRequest ''Half days are not allowed'')
        (throwIf (startYear + 1 < yearOf (cl_endDate dto)) (BadRequest ''A request can span at most two calendar years'')
        (throwIf (cl_startDate dto < e_hireDate emp) (BadRequest ''Leave cannot start before the hire date'')
        (bindE (allocate s (cl_startDate dto) (cl_endDate dto) half) (\<lambda>allocations.
        throwIf (sum_list (List.map snd allocations) = 0) (BadRequest ''The selected dates contain no working days'')
        (throwIf (list_ex (overlapping e (cl_startDate dto) (cl_endDate dto)) (rows (requestsT s)))
          (Conflict ''Overlaps an existing request'')
        (Inr (emp, t, allocations)))))))))))"

text \<open>The loop that checks, and provisions, the balance of each year.\<close>

definition checkBalances ::
  "(id \<Rightarrow> int \<Rightarrow> id) \<Rightarrow> id \<Rightarrow> id \<Rightarrow> date \<Rightarrow> (int \<times> rat) list \<Rightarrow> ('a leave_state_scheme, unit) act" where
  "checkBalances newId e k start =
     eachS (\<lambda>(y, d). bindS (ensureBalance newId e k y) (\<lambda>(j, b).
       guardS (available b (if y = yearOf start then start else dayNum y 1 1) < d) (BadRequest ''Insufficient balance'')))"

definition newRequest :: "id \<Rightarrow> create_request_dto \<Rightarrow> (int \<times> rat) list \<Rightarrow> id option \<Rightarrow> leave_request" where
  "newRequest e dto allocations approver =
     \<lparr>lr_employeeId = e, lr_leaveTypeId = cl_leaveTypeId dto, lr_startDate = cl_startDate dto,
      lr_endDate = cl_endDate dto, lr_halfDay = patched NONE (cl_halfDay dto),
      lr_days = sum_list (List.map snd allocations), lr_year = yearOf (cl_startDate dto),
      lr_allocations = Some allocations, lr_reason = cl_reason dto, lr_status = PENDING,
      lr_approverUserId = approver, lr_decidedByUserId = None, lr_decidedAt = None, lr_decisionNote = None,
      lr_attachmentDocumentId = cl_attachmentDocumentId dto, lr_statusApplied = False\<rparr>"

text \<open>
  The insert of the request: the foreign key of the attachment is checked by the database, and the
  failure (23503) is answered as a bad request.
\<close>

definition insertRequest :: "id \<Rightarrow> leave_request \<Rightarrow> 'a leave_state_scheme \<Rightarrow> 'a leave_state_scheme res" where
  "insertRequest rid r s =
     throwIf (case lr_attachmentDocumentId r of None \<Rightarrow> False | Some d \<Rightarrow> lookup (documentsT s) d = None)
       (BadRequest ''Referenced resource does not exist'')
     (Inr (s\<lparr>requestsT := insertRow rid r (requestsT s)\<rparr>))"

definition notify :: "leave_notice \<Rightarrow> 'a leave_state_scheme \<Rightarrow> 'a leave_state_scheme" where
  "notify n s = s\<lparr>leaveNotices := leaveNotices s @ [n]\<rparr>"

definition notifyApprover :: "id \<Rightarrow> leave_request \<Rightarrow> id \<Rightarrow> 'a leave_state_scheme \<Rightarrow> 'a leave_state_scheme" where
  "notifyApprover rid r actor s =
     (case lr_approverUserId r of None \<Rightarrow> s
      | Some u \<Rightarrow> if u \<noteq> actor then notify (LeaveRequested rid u) s else s)"

definition managerLogin :: "'a leave_state_scheme \<Rightarrow> employee \<Rightarrow> id option" where
  "managerLogin s emp = (case e_managerId emp of None \<Rightarrow> None
     | Some m \<Rightarrow> (case findEmployee s m of None \<Rightarrow> None | Some me \<Rightarrow> e_userId me))"

definition submit ::
  "(id \<Rightarrow> int \<Rightarrow> id) \<Rightarrow> id \<Rightarrow> id \<Rightarrow> create_request_dto \<Rightarrow> id \<Rightarrow> ('a leave_state_scheme, unit) act" where
  "submit newId rid e dto actor =
     bindS (readS (checkRequest e dto)) (\<lambda>(emp, t, allocations).
     thenS (whenS (lt_requiresBalance t)
       (thenS (checkBalances newId e (cl_leaveTypeId dto) (cl_startDate dto) allocations)
              (chargeBalances newId e (cl_leaveTypeId dto) (\<lambda>d. (d, 0)) allocations)))
     (bindS (readS (\<lambda>s. Inr (managerLogin s emp))) (\<lambda>approver.
      let r = newRequest e dto allocations approver
      in thenS (tryS (insertRequest rid r)) (writeS (notifyApprover rid r actor)))))"

section \<open>Deciding\<close>

definition requestById :: "'a leave_state_scheme \<Rightarrow> id \<Rightarrow> leave_request res" where
  "requestById s rid = orThrow (lookup (requestsT s) rid) (NotFound ''Leave request not found'') Inr"

text \<open>The joined rows; reading a field of a missing one is a \<open>TypeError\<close>.\<close>

definition requestEmployee :: "'a leave_state_scheme \<Rightarrow> leave_request \<Rightarrow> employee res" where
  "requestEmployee s r = orThrow (findEmployee s (lr_employeeId r)) (InternalError ''TypeError'') Inr"

definition requestType :: "'a leave_state_scheme \<Rightarrow> leave_request \<Rightarrow> leave_type res" where
  "requestType s r = orThrow (lookup (leaveTypesT s) (lr_leaveTypeId r)) (InternalError ''TypeError'') Inr"

definition inChainOf :: "'a leave_state_scheme \<Rightarrow> auth_user \<Rightarrow> id \<Rightarrow> bool" where
  "inChainOf s actor k = (case findByUserId s (au_id actor) of None \<Rightarrow> False
     | Some (me, _) \<Rightarrow> isInReportingChain s me k)"

definition loadForDecision ::
  "id \<Rightarrow> auth_user \<Rightarrow> 'a leave_state_scheme \<Rightarrow> (leave_request \<times> employee \<times> leave_type) res" where
  "loadForDecision rid actor s =
     bindE (requestById s rid) (\<lambda>r.
     throwIf (lr_status r \<noteq> PENDING) (BadRequest ''Request is already decided'')
     (bindE (requestEmployee s r) (\<lambda>emp.
      throwIf (e_userId emp = Some (au_id actor)) (Forbidden ''You cannot decide your own request'')
      (throwIf (LEAVE_READ_ALL \<notin> set (au_permissions actor) \<and> lr_approverUserId r \<noteq> Some (au_id actor) \<and>
         \<not> inChainOf s actor (lr_employeeId r)) (Forbidden ''Not your report'')
      (bindE (requestType s r) (\<lambda>t. Inr (r, emp, t)))))))"

definition decide :: "id \<Rightarrow> leave_status \<Rightarrow> id \<Rightarrow> int \<Rightarrow> string option \<Rightarrow> 'a leave_state_scheme \<Rightarrow> 'a leave_state_scheme" where
  "decide rid st actor now note s =
     s\<lparr>requestsT := updateRow rid (\<lambda>r. r\<lparr>lr_status := st, lr_decidedByUserId := Some actor,
        lr_decidedAt := Some now, lr_decisionNote := note\<rparr>) (requestsT s)\<rparr>"

definition markApplied :: "id \<Rightarrow> bool \<Rightarrow> 'a leave_state_scheme \<Rightarrow> 'a leave_state_scheme" where
  "markApplied rid b s = s\<lparr>requestsT := updateRow rid (\<lambda>r. r\<lparr>lr_statusApplied := b\<rparr>) (requestsT s)\<rparr>"

text \<open>\<open>emp\<close> is the employee as loaded with the request; the answer says whether the status changed.\<close>

definition setOnLeave ::
  "int \<Rightarrow> id \<Rightarrow> id \<Rightarrow> leave_request \<Rightarrow> employee \<Rightarrow> id option \<Rightarrow> ('a leave_state_scheme, bool) act" where
  "setOnLeave now hid rid r emp actor =
     (if e_status emp \<noteq> ACTIVE then returnS False
      else thenS (tryS (changeStatus now hid (lr_employeeId r) ON_LEAVE (lr_startDate r)
                   (Some (''Leave request '' @ decString rid)) actor))
             (thenS (writeS (markApplied rid True)) (returnS True)))"

definition revertLongLeaveStatus :: "int \<Rightarrow> id \<Rightarrow> id \<Rightarrow> leave_request \<Rightarrow> ('a leave_state_scheme, unit) act" where
  "revertLongLeaveStatus now hid rid r =
     bindS (readS (\<lambda>s. employeeById s (lr_employeeId r))) (\<lambda>emp.
     thenS (whenS (e_status emp = ON_LEAVE)
       (tryS (changeStatus now hid (lr_employeeId r) ACTIVE (addDays (lr_endDate r) 1)
          (Some (''Returned from leave '' @ decString rid)) None)))
     (writeS (markApplied rid False)))"

definition applyLongLeaveStatus ::
  "int \<Rightarrow> id \<Rightarrow> id \<Rightarrow> leave_request \<Rightarrow> employee \<Rightarrow> id option \<Rightarrow> ('a leave_state_scheme, unit) act" where
  "applyLongLeaveStatus now hid rid r emp actor =
     whenS (isLongLeave r \<and> lr_startDate r \<le> dayOfMs now \<and> dayOfMs now \<le> lr_endDate r)
       (bindS (setOnLeave now hid rid r emp actor) (\<lambda>_. returnS ()))"

definition notifyDecision :: "id \<Rightarrow> employee \<Rightarrow> leave_status \<Rightarrow> 'a leave_state_scheme \<Rightarrow> 'a leave_state_scheme" where
  "notifyDecision rid emp st s = (case e_userId emp of None \<Rightarrow> s | Some u \<Rightarrow> notify (LeaveDecided rid u st) s)"

definition approve ::
  "(id \<Rightarrow> int \<Rightarrow> id) \<Rightarrow> int \<Rightarrow> id \<Rightarrow> id \<Rightarrow> auth_user \<Rightarrow> string option \<Rightarrow> ('a leave_state_scheme, unit) act" where
  "approve newId now hid rid actor note =
     bindS (readS (loadForDecision rid actor)) (\<lambda>(r, emp, t).
     thenS (whenS (lt_requiresBalance t)
       (chargeBalances newId (lr_employeeId r) (lr_leaveTypeId r) (\<lambda>d. (- d, d)) (allocationsOf r)))
     (thenS (writeS (decide rid APPROVED (au_id actor) now note))
     (thenS (applyLongLeaveStatus now hid rid r emp (Some (au_id actor)))
     (writeS (notifyDecision rid emp APPROVED)))))"

text \<open>Pending days or used days are given back.\<close>

definition released :: "leave_request \<Rightarrow> rat \<Rightarrow> balance_change" where
  "released r d = (if lr_status r = PENDING then (- d, 0) else (0, - d))"

definition releaseReservation :: "(id \<Rightarrow> int \<Rightarrow> id) \<Rightarrow> leave_request \<Rightarrow> leave_type \<Rightarrow> ('a leave_state_scheme, unit) act" where
  "releaseReservation newId r t = whenS (lt_requiresBalance t)
     (chargeBalances newId (lr_employeeId r) (lr_leaveTypeId r) (released r) (allocationsOf r))"

definition reject ::
  "(id \<Rightarrow> int \<Rightarrow> id) \<Rightarrow> int \<Rightarrow> id \<Rightarrow> auth_user \<Rightarrow> string option \<Rightarrow> ('a leave_state_scheme, unit) act" where
  "reject newId now rid actor note =
     bindS (readS (loadForDecision rid actor)) (\<lambda>(r, emp, t).
     thenS (releaseReservation newId r t)
     (thenS (writeS (decide rid REJECTED (au_id actor) now note))
     (writeS (notifyDecision rid emp REJECTED))))"

definition checkCancel ::
  "id \<Rightarrow> auth_user \<Rightarrow> date \<Rightarrow> 'a leave_state_scheme \<Rightarrow> (leave_request \<times> leave_type) res" where
  "checkCancel rid actor today s =
     bindE (requestById s rid) (\<lambda>r.
     bindE (requestEmployee s r) (\<lambda>emp.
     let isHr = LEAVE_READ_ALL \<in> set (au_permissions actor); isOwner = e_userId emp = Some (au_id actor)
     in throwIf (\<not> isHr \<and> \<not> isOwner) (Forbidden ''Forbidden'')
       (throwIf (\<not> activeRequest r) (BadRequest ''Request is already closed'')
       (throwIf (lr_status r = APPROVED \<and> \<not> isHr \<and> lr_startDate r \<le> today)
         (BadRequest ''Approved leave that has started can only be cancelled by HR'')
       (bindE (requestType s r) (\<lambda>t. Inr (r, t)))))))"

definition cancel ::
  "(id \<Rightarrow> int \<Rightarrow> id) \<Rightarrow> int \<Rightarrow> id \<Rightarrow> id \<Rightarrow> auth_user \<Rightarrow> string option \<Rightarrow> ('a leave_state_scheme, unit) act" where
  "cancel newId now hid rid actor note =
     bindS (readS (checkCancel rid actor (dayOfMs now))) (\<lambda>(r, t).
     thenS (releaseReservation newId r t)
     (thenS (writeS (decide rid CANCELLED (au_id actor) now note))
     (thenS (whenS (lr_statusApplied r) (revertLongLeaveStatus now hid rid r))
     (writeS (\<lambda>s. case lr_approverUserId r of None \<Rightarrow> s
        | Some u \<Rightarrow> if u \<noteq> au_id actor then notify (LeaveCancelled rid u) s else s)))))"

section \<open>Reading\<close>

record request_query = page_query +
  lq_employeeId :: "id option"
  lq_departmentId :: "id option"
  lq_leaveTypeId :: "id option"
  lq_status :: "leave_status option"
  lq_from :: "date option"
  lq_to :: "date option"

definition requestMatches :: "'a leave_state_scheme \<Rightarrow> request_query \<Rightarrow> leave_request \<Rightarrow> bool" where
  "requestMatches s q r \<longleftrightarrow>
     (case findEmployee s (lr_employeeId r) of None \<Rightarrow> False
      | Some emp \<Rightarrow> lq_departmentId q \<in> {None, Some (e_departmentId emp)}) \<and>
     lookup (leaveTypesT s) (lr_leaveTypeId r) \<noteq> None \<and>
     lq_employeeId q \<in> {None, Some (lr_employeeId r)} \<and>
     lq_leaveTypeId q \<in> {None, Some (lr_leaveTypeId r)} \<and>
     lq_status q \<in> {None, Some (lr_status r)} \<and>
     (case lq_from q of None \<Rightarrow> True | Some a \<Rightarrow> a \<le> lr_endDate r) \<and>
     (case lq_to q of None \<Rightarrow> True | Some b \<Rightarrow> lr_startDate r \<le> b)"

definition listRequests ::
  "request_query \<Rightarrow> id list option \<Rightarrow> 'a leave_state_scheme \<Rightarrow> (id \<times> leave_request) list \<times> page_meta" where
  "listRequests q only s =
     (if only = Some [] then paginatedResponse [] 0 q
      else pageOf q (sort_key (\<lambda>(_, r). - lr_startDate r)
        (List.filter (\<lambda>(_, r). (case only of None \<Rightarrow> True | Some ids \<Rightarrow> lr_employeeId r \<in> set ids) \<and> requestMatches s q r)
          (requestsT s))))"

definition pendingFor :: "auth_user \<Rightarrow> 'a leave_state_scheme \<Rightarrow> (id \<times> leave_request) list" where
  "pendingFor actor s = sort_key (\<lambda>(_, r). lr_startDate r)
     (List.filter (\<lambda>(_, r). lr_status r = PENDING \<and> findEmployee s (lr_employeeId r) \<noteq> None \<and>
        lookup (leaveTypesT s) (lr_leaveTypeId r) \<noteq> None \<and>
        (lr_approverUserId r = Some (au_id actor) \<or>
         LEAVE_READ_ALL \<in> set (au_permissions actor) \<and> lr_approverUserId r = None)) (requestsT s))"

definition canViewRequest :: "leave_request \<Rightarrow> auth_user \<Rightarrow> 'a leave_state_scheme \<Rightarrow> bool res" where
  "canViewRequest r actor s =
     (if LEAVE_READ_ALL \<in> set (au_permissions actor) then Inr True
      else bindE (requestEmployee s r) (\<lambda>emp.
        Inr (e_userId emp = Some (au_id actor) \<or> lr_approverUserId r = Some (au_id actor) \<or>
             LEAVE_READ_TEAM \<in> set (au_permissions actor) \<and> inChainOf s actor (lr_employeeId r))))"

section \<open>The daily synchronisation\<close>

definition startingLeave :: "date \<Rightarrow> 'a leave_state_scheme \<Rightarrow> (id \<times> leave_request \<times> employee option) list" where
  "startingLeave today s = List.map (\<lambda>(k, r). (k, r, findEmployee s (lr_employeeId r)))
     (List.filter (\<lambda>(_, r). lr_status r = APPROVED \<and> \<not> lr_statusApplied r \<and>
        lr_startDate r \<le> today \<and> today \<le> lr_endDate r) (requestsT s))"

definition endingLeave :: "date \<Rightarrow> 'a leave_state_scheme \<Rightarrow> (id \<times> leave_request) list" where
  "endingLeave today s =
     List.filter (\<lambda>(_, r). lr_status r = APPROVED \<and> lr_statusApplied r \<and> lr_endDate r \<le> addDays today (-1)) (requestsT s)"

text \<open>An employee that was not loaded is looked up again, and is not found.\<close>

definition syncStart :: "int \<Rightarrow> (id \<Rightarrow> id) \<Rightarrow> id \<times> leave_request \<times> employee option \<Rightarrow> ('a leave_state_scheme, nat) act" where
  "syncStart now hk = (\<lambda>(rid, r, oe).
     if \<not> isLongLeave r then returnS 0
     else bindS (readS (\<lambda>s. case oe of Some emp \<Rightarrow> Inr emp | None \<Rightarrow> employeeById s (lr_employeeId r))) (\<lambda>emp.
          bindS (setOnLeave now (hk rid) rid r emp None) (\<lambda>b. returnS (if b then 1 else 0))))"

definition syncEmployeeStatuses ::
  "int \<Rightarrow> (id \<Rightarrow> id) \<Rightarrow> date \<Rightarrow> ('a leave_state_scheme, nat \<times> nat) act" where
  "syncEmployeeStatuses now hk today =
     bindS (readS (\<lambda>s. Inr (startingLeave today s))) (\<lambda>starting.
     bindS (mapS (syncStart now hk) starting) (\<lambda>ns.
     bindS (readS (\<lambda>s. Inr (endingLeave today s))) (\<lambda>ending.
     thenS (eachS (\<lambda>(rid, r). revertLongLeaveStatus now (hk rid) rid r) ending)
     (returnS (sum_list ns, length ending)))))"

text \<open>The job: at five past midnight UTC, with the day of that instant.\<close>

definition processLeaveJob :: "int \<Rightarrow> (id \<Rightarrow> id) \<Rightarrow> string \<Rightarrow> ('a leave_state_scheme, nat \<times> nat) act" where
  "processLeaveJob now hk name =
     (if name \<noteq> ''status-sync'' then readS (\<lambda>_. Inl (InternalError ''Unknown leave job''))
      else syncEmployeeStatuses now hk (dayOfMs now))"

section \<open>The controller\<close>

definition assertTeamAccess :: "id \<Rightarrow> auth_user \<Rightarrow> 'a leave_state_scheme \<Rightarrow> unit res" where
  "assertTeamAccess k actor s =
     (if LEAVE_READ_ALL \<in> set (au_permissions actor) then Inr ()
      else bindE (requireProfile actor s) (\<lambda>me.
        throwIf (\<not> isInReportingChain s me k) (Forbidden ''Not your report'') (Inr ())))"

definition myBalances ::
  "(id \<Rightarrow> int \<Rightarrow> id) \<Rightarrow> auth_user \<Rightarrow> int option \<Rightarrow> int \<Rightarrow> ('a leave_state_scheme, (leave_balance \<times> rat) list) act" where
  "myBalances newId actor year now =
     bindS (readS (requireProfile actor)) (\<lambda>me.
     balancesFor newId me (patched (yearOf (dayOfMs now)) year) (dayOfMs now))"

definition balancesOf ::
  "(id \<Rightarrow> int \<Rightarrow> id) \<Rightarrow> id \<Rightarrow> auth_user \<Rightarrow> int option \<Rightarrow> int \<Rightarrow> ('a leave_state_scheme, (leave_balance \<times> rat) list) act" where
  "balancesOf newId e actor year now =
     thenS (readS (assertTeamAccess e actor)) (balancesFor newId e (patched (yearOf (dayOfMs now)) year) (dayOfMs now))"

definition submitMine ::
  "(id \<Rightarrow> int \<Rightarrow> id) \<Rightarrow> id \<Rightarrow> create_request_dto \<Rightarrow> auth_user \<Rightarrow> ('a leave_state_scheme, unit) act" where
  "submitMine newId rid dto actor =
     bindS (readS (requireProfile actor)) (\<lambda>me. submit newId rid me dto (au_id actor))"

definition myRequests ::
  "request_query \<Rightarrow> auth_user \<Rightarrow> 'a leave_state_scheme \<Rightarrow> ((id \<times> leave_request) list \<times> page_meta) res" where
  "myRequests q actor s = bindE (requireProfile actor s) (\<lambda>me.
     Inr (listRequests (q\<lparr>lq_employeeId := Some me\<rparr>) None s))"

definition teamRequests ::
  "request_query \<Rightarrow> auth_user \<Rightarrow> 'a leave_state_scheme \<Rightarrow> ((id \<times> leave_request) list \<times> page_meta) res" where
  "teamRequests q actor s = bindE (requireProfile actor s) (\<lambda>me.
     Inr (listRequests q (Some (List.map fst (directReports s me))) s))"

definition getRequest :: "id \<Rightarrow> auth_user \<Rightarrow> 'a leave_state_scheme \<Rightarrow> leave_request res" where
  "getRequest rid actor s = bindE (requestById s rid) (\<lambda>r. bindE (canViewRequest r actor s) (\<lambda>ok.
     throwIf (\<not> ok) (Forbidden ''Forbidden'') (Inr r)))"

end
