(* ===== verification/LeaveProps.thy ===== *)
theory LeaveProps
  imports Leave
begin

text \<open>
  The accounts of leave: the pending and used days of every balance are the days of the pending and
  approved requests charged to it, no two open requests of a person overlap, whatever the history of
  submissions, decisions, withdrawals, corrections and synchronisations.
\<close>

section \<open>Half days\<close>

definition halfStep :: "rat \<Rightarrow> bool" where
  "halfStep x \<longleftrightarrow> 2 * x \<in> \<int>"

lemma halfStep_simps [simp]: "halfStep 0" "halfStep (1 / 2)" "halfStep (of_nat n)"
  by (simp_all add: halfStep_def)

lemma halfStep_one: "d * 2 = 1 \<Longrightarrow> halfStep d"
  by (metis halfStep_def Ints_1 mult.commute)

lemma halfStep_add [intro]: "halfStep x \<Longrightarrow> halfStep y \<Longrightarrow> halfStep (x + y)"
  unfolding halfStep_def distrib_left by (rule Ints_add)

lemma halfStep_minus [simp]: "halfStep (- x) \<longleftrightarrow> halfStep x"
  by (simp add: halfStep_def)

lemma halfStep_sum: "(\<And>x. x \<in> set xs \<Longrightarrow> halfStep x) \<Longrightarrow> halfStep (sum_list xs)"
  by (induction xs) auto

lemma round1_add: "halfStep d \<Longrightarrow> round1 (x + d) = round1 x + d"
proof -
  assume "halfStep d"
  then obtain k where k: "2 * d = of_int k" unfolding halfStep_def by (auto elim: Ints_cases)
  have "\<lfloor>(x + d) * 2 + 1 / 2\<rfloor> = \<lfloor>(x * 2 + 1 / 2) + of_int k\<rfloor>" using k by (simp add: algebra_simps)
  then have "\<lfloor>(x + d) * 2 + 1 / 2\<rfloor> = \<lfloor>x * 2 + 1 / 2\<rfloor> + k" by (simp only: floor_add_int)
  then show ?thesis using k by (simp add: round1_def jsRound_def add_divide_distrib)
qed

lemma round1_half: "halfStep x \<Longrightarrow> round1 x = x"
  using round1_add [of x 0] by (simp add: round1_def jsRound_def floor_eq_iff)

section \<open>Balances in the table\<close>

definition sameTriple :: "leave_balance \<Rightarrow> leave_balance \<Rightarrow> bool" where
  "sameTriple a b \<longleftrightarrow> ofTriple (lb_employeeId a) (lb_leaveTypeId a) (lb_year a) b"

lemma sameTriple_of: "ofTriple e k y a \<Longrightarrow> sameTriple a b \<longleftrightarrow> ofTriple e k y b"
  by (auto simp: sameTriple_def ofTriple_def)

lemma findBalance_Some:
  assumes "keyed (balancesT s)" "uniqueBy sameTriple (balancesT s)"
  shows "findBalance s e k y = Some (j, b) \<longleftrightarrow> lookup (balancesT s) j = Some b \<and> ofTriple e k y b"
proof
  assume "findBalance s e k y = Some (j, b)"
  then show "lookup (balancesT s) j = Some b \<and> ofTriple e k y b"
    using find_SomeD [of _ "balancesT s" "(j, b)"] keyed_lookup [OF assms(1)] unfolding findBalance_def by fastforce
next
  assume r: "lookup (balancesT s) j = Some b \<and> ofTriple e k y b"
  then have "(j, b) \<in> set (balancesT s)" by (simp add: lookup_def map_of_SomeD)
  then obtain i c where f: "findBalance s e k y = Some (i, c)"
    using find_Some_iff_ex [of "\<lambda>(_, b). ofTriple e k y b" "balancesT s"] r unfolding findBalance_def by fastforce
  then have c: "(i, c) \<in> set (balancesT s)" "ofTriple e k y c"
    using find_SomeD [of _ "balancesT s" "(i, c)"] unfolding findBalance_def by auto
  then have "lookup (balancesT s) i = Some c" by (simp add: keyed_lookup [OF assms(1)])
  then have "i = j" using uniqueByD [OF assms(2), of i c j b] r c(2) by (simp add: sameTriple_of)
  then show "findBalance s e k y = Some (j, b)" using f r \<open>lookup (balancesT s) i = Some c\<close> by simp
qed

lemma find_append_Some: "List.find P xs = Some x \<Longrightarrow> List.find P (xs @ ys) = Some x"
  by (induction xs) (auto split: if_splits)

lemma find_requests [simp]: "findBalance (s\<lparr>requestsT := T\<rparr>) e k y = findBalance s e k y"
  by (simp add: findBalance_def)

definition grows :: "'a leave_state_scheme \<Rightarrow> 'a leave_state_scheme \<Rightarrow> bool" where
  "grows s t \<longleftrightarrow> (\<exists>T. t = s\<lparr>balancesT := balancesT s @ T\<rparr>)"

lemma grows_refl [simp]: "grows s s"
  unfolding grows_def by (rule exI [where x = "[]"]) simp

lemma grows_trans: "grows s t \<Longrightarrow> grows t u \<Longrightarrow> grows s u"
  unfolding grows_def by force

lemma grows_find: "grows s t \<Longrightarrow> findBalance s e k y = Some x \<Longrightarrow> findBalance t e k y = Some x"
  unfolding grows_def findBalance_def by (auto intro: find_append_Some)

lemma grows_same: "grows s t \<Longrightarrow> leaveTypesT t = leaveTypesT s \<and> requestsT t = requestsT s \<and>
    employeesT t = employeesT s \<and> documentsT t = documentsT s \<and> holidaysT t = holidaysT s"
  unfolding grows_def by force

section \<open>The days charged to a balance\<close>

definition daysIn :: "int \<Rightarrow> (int \<times> rat) list \<Rightarrow> rat" where
  "daysIn y ds = sum_list (List.map snd (List.filter (\<lambda>(z, _). z = y) ds))"

definition chargedTo :: "leave_status \<Rightarrow> id \<Rightarrow> id \<Rightarrow> int \<Rightarrow> leave_request \<Rightarrow> rat" where
  "chargedTo st e k y r =
     (if lr_status r = st \<and> lr_employeeId r = e \<and> lr_leaveTypeId r = k then daysIn y (allocationsOf r) else 0)"

definition charged :: "leave_status \<Rightarrow> id \<Rightarrow> id \<Rightarrow> int \<Rightarrow> leave_request table \<Rightarrow> rat" where
  "charged st e k y T = sum_list (List.map (chargedTo st e k y) (rows T))"

lemma daysIn_simps [simp]:
  "daysIn y [] = 0"
  "daysIn y ((z, d) # ds) = (if z = y then d else 0) + daysIn y ds"
  by (simp_all add: daysIn_def)

lemma daysIn_absent: "(\<And>d. (y, d) \<notin> set ds) \<Longrightarrow> daysIn y ds = 0"
  by (induction ds) (simp, fastforce)

lemma halfStep_daysIn: "(\<And>z d. (z, d) \<in> set ds \<Longrightarrow> halfStep d) \<Longrightarrow> halfStep (daysIn y ds)"
  unfolding daysIn_def by (rule halfStep_sum) auto

lemma sum_updateRow:
  fixes f :: "'r \<Rightarrow> rat"
  assumes "keyed T" "lookup T k = Some r"
  shows "sum_list (List.map f (rows (updateRow k g T))) = sum_list (List.map f (rows T)) - f r + f (g r)"
  using assms
proof (induction T)
  case Nil
  then show ?case by (simp add: lookup_def)
next
  case (Cons x T)
  obtain j q where x: "x = (j, q)" by (cases x)
  have out: "updateRow k g T = T" if "k \<notin> set (keys T)"
    using that by (induction T) (auto simp: updateRow_def keys_def)
  show ?case
  proof (cases "j = k")
    case True
    then have "k \<notin> set (keys T)" "q = r" using Cons.prems x by (auto simp: keyed_def keys_def lookup_def)
    then show ?thesis using True x out by (simp add: rows_def updateRow_def)
  next
    case False
    then have "keyed T" "lookup T k = Some r" using Cons.prems x by (auto simp: keyed_def keys_def lookup_def)
    from Cons.IH [OF this] show ?thesis using False x by (simp add: rows_def updateRow_def)
  qed
qed

lemma charged_update:
  assumes "keyed T" "lookup T rid = Some r"
  shows "charged st e k y (updateRow rid g T) = charged st e k y T - chargedTo st e k y r + chargedTo st e k y (g r)"
  unfolding charged_def by (rule sum_updateRow [OF assms])

lemma charged_insert: "charged st e k y (insertRow rid r T) = charged st e k y T + chargedTo st e k y r"
  by (simp add: charged_def)

lemma halfStep_charged:
  assumes "\<And>r z d. r \<in> set (rows T) \<Longrightarrow> (z, d) \<in> set (allocationsOf r) \<Longrightarrow> halfStep d"
  shows "halfStep (charged st e k y T)"
  unfolding charged_def by (rule halfStep_sum) (auto simp: chargedTo_def intro!: halfStep_daysIn dest: assms)

section \<open>The invariant\<close>

definition needsBalance :: "'a leave_state_scheme \<Rightarrow> id \<Rightarrow> bool" where
  "needsBalance s k \<longleftrightarrow> (\<exists>t. lookup (leaveTypesT s) k = Some t \<and> lt_requiresBalance t)"

definition clash :: "leave_request \<Rightarrow> leave_request \<Rightarrow> bool" where
  "clash r q \<longleftrightarrow> activeRequest r \<and> overlapping (lr_employeeId r) (lr_startDate r) (lr_endDate r) q"

definition balanced :: "'a leave_state_scheme \<Rightarrow> leave_balance \<Rightarrow> bool" where
  "balanced s b \<longleftrightarrow>
     lb_pending b = charged PENDING (lb_employeeId b) (lb_leaveTypeId b) (lb_year b) (requestsT s) \<and>
     lb_used b = charged APPROVED (lb_employeeId b) (lb_leaveTypeId b) (lb_year b) (requestsT s) \<and>
     needsBalance s (lb_leaveTypeId b)"

definition wellCharged :: "'a leave_state_scheme \<Rightarrow> leave_request \<Rightarrow> bool" where
  "wellCharged s r \<longleftrightarrow> lookup (leaveTypesT s) (lr_leaveTypeId r) \<noteq> None \<and>
     (\<forall>(y, d)\<in>set (allocationsOf r). halfStep d \<and>
        (needsBalance s (lr_leaveTypeId r) \<longrightarrow> activeRequest r \<longrightarrow>
          findBalance s (lr_employeeId r) (lr_leaveTypeId r) y \<noteq> None))"

definition tablesInv :: "'a leave_state_scheme \<Rightarrow> bool" where
  "tablesInv s \<longleftrightarrow> keyed (balancesT s) \<and> keyed (requestsT s) \<and> keyed (leaveTypesT s) \<and>
     uniqueBy sameTriple (balancesT s)"

definition leaveInv :: "'a leave_state_scheme \<Rightarrow> bool" where
  "leaveInv s \<longleftrightarrow> tablesInv s \<and> uniqueBy clash (requestsT s) \<and>
     (\<forall>j b. lookup (balancesT s) j = Some b \<longrightarrow> balanced s b) \<and>
     (\<forall>j r. lookup (requestsT s) j = Some r \<longrightarrow> wellCharged s r)"

lemma leaveInv_tables: "leaveInv s \<Longrightarrow> tablesInv s"
  by (simp add: leaveInv_def)

lemma leaveInv_clash: "leaveInv s \<Longrightarrow> uniqueBy clash (requestsT s)"
  by (simp add: leaveInv_def)

lemma leaveInv_balanced: "leaveInv s \<Longrightarrow> lookup (balancesT s) j = Some b \<Longrightarrow> balanced s b"
  by (simp add: leaveInv_def)

lemma leaveInv_request: "leaveInv s \<Longrightarrow> lookup (requestsT s) j = Some r \<Longrightarrow> wellCharged s r"
  by (simp add: leaveInv_def)

lemma find_tables: "tablesInv s \<Longrightarrow>
    findBalance s e k y = Some (j, b) \<longleftrightarrow> lookup (balancesT s) j = Some b \<and> ofTriple e k y b"
  by (simp add: findBalance_Some tablesInv_def)

lemma leaveInv_row: "leaveInv s \<Longrightarrow> r \<in> set (rows (requestsT s)) \<Longrightarrow> wellCharged s r"
  using rows_lookup leaveInv_request leaveInv_tables tablesInv_def by metis

lemma leaveInv_find: "leaveInv s \<Longrightarrow> findBalance s e k y = Some (j, b) \<Longrightarrow> balanced s b \<and> ofTriple e k y b"
  using find_tables [OF leaveInv_tables] leaveInv_balanced by blast

text \<open>The rest of the state does not matter.\<close>

lemma leaveInv_cong:
  "balancesT t = balancesT s \<Longrightarrow> requestsT t = requestsT s \<Longrightarrow> leaveTypesT t = leaveTypesT s \<Longrightarrow> leaveInv t = leaveInv s"
  by (simp add: leaveInv_def tablesInv_def balanced_def wellCharged_def needsBalance_def findBalance_def)

lemma halfStep_balance:
  assumes i: "leaveInv s" and b: "lookup (balancesT s) j = Some b"
  shows "halfStep (lb_pending b)" "halfStep (lb_used b)"
proof -
  have h: "halfStep (charged st e k y (requestsT s))" for st e k y
  proof (rule halfStep_charged)
    fix r z d assume "r \<in> set (rows (requestsT s))" and a: "(z, d) \<in> set (allocationsOf r)"
    from leaveInv_row [OF i this(1)] a show "halfStep d" by (auto simp: wellCharged_def)
  qed
  show "halfStep (lb_pending b)" "halfStep (lb_used b)"
    using leaveInv_balanced [OF i b] h by (simp_all add: balanced_def)
qed

section \<open>Provisioning keeps the accounts\<close>

text \<open>The keys a request may give to the balances it provisions for \<open>e\<close>: unused, or already theirs.\<close>

definition keysFor :: "(id \<Rightarrow> int \<Rightarrow> id) \<Rightarrow> id \<Rightarrow> 'a leave_state_scheme \<Rightarrow> bool" where
  "keysFor newId e s \<longleftrightarrow> inj (\<lambda>(k, y). newId k y) \<and>
     (\<forall>k y. newId k y \<in> set (keys (balancesT s)) \<longrightarrow> findBalance s e k y \<noteq> None)"

lemma insert_balance:
  assumes i: "leaveInv s" and f: "findBalance s e k y = None" and b: "ofTriple e k y b" "lb_pending b = 0" "lb_used b = 0"
    and n: "needsBalance s k" and j: "j \<notin> set (keys (balancesT s))"
  shows "leaveInv (s\<lparr>balancesT := insertRow j b (balancesT s)\<rparr>)" (is "leaveInv ?t")
proof -
  have g: "grows s ?t" unfolding grows_def insertRow_def by blast
  have none: "\<not> ofTriple e k y c" if "lookup (balancesT s) i = Some c" for i c
    using that f leaveInv_tables [OF i] find_tables [of s e k y i c] by auto
  have z: "charged st e k y (requestsT s) = 0" if st: "st \<in> {PENDING, APPROVED}" for st
  proof -
    have "chargedTo st e k y r = 0" if "r \<in> set (rows (requestsT s))" for r
    proof -
      have w: "wellCharged s r" by (rule leaveInv_row [OF i that])
      show ?thesis
        unfolding chargedTo_def using w f n st
        by (auto simp: wellCharged_def activeRequest_def intro!: daysIn_absent)
    qed
    then show ?thesis unfolding charged_def by (simp add: sum_list_0 cong: map_cong)
  qed
  have tb: "tablesInv ?t"
    using leaveInv_tables [OF i] j b none unfolding tablesInv_def
    by (auto simp: sameTriple_of intro!: uniqueBy_insert) (auto simp: sameTriple_def ofTriple_def)
  have l: "lookup (balancesT ?t) i = (if i = j then Some b else lookup (balancesT s) i)" for i
    by (simp add: lookup_insertRow [OF j])
  have "balanced ?t c" if "lookup (balancesT ?t) i = Some c" for i c
    using that leaveInv_balanced [OF i, of i c] b z n unfolding l
    by (auto simp: balanced_def ofTriple_def needsBalance_def split: if_splits)
  moreover have "wellCharged ?t r" if "lookup (requestsT ?t) i = Some r" for i r
  proof -
    have "wellCharged s r" using that by (intro leaveInv_request [OF i]) simp
    then show ?thesis using grows_find [OF g]
      unfolding wellCharged_def needsBalance_def by fastforce
  qed
  ultimately show ?thesis using tb leaveInv_clash [OF i] by (simp add: leaveInv_def)
qed

lemma provision_fresh: "provision t emp prev e k y = Some b \<Longrightarrow> ofTriple e k y b \<and> lb_pending b = 0 \<and> lb_used b = 0"
  by (auto simp: provision_def ofTriple_def Let_def split: if_splits option.splits)

definition ensured :: "(id \<Rightarrow> int \<Rightarrow> id) \<Rightarrow> id \<Rightarrow> 'a leave_state_scheme \<Rightarrow> 'a leave_state_scheme \<Rightarrow> bool" where
  "ensured newId e s t \<longleftrightarrow> grows s t \<and> leaveInv t \<and> keysFor newId e t"

lemma ensureBalance_ok:
  assumes i: "leaveInv s" and ks: "keysFor newId e s" and n: "needsBalance s k"
    and run: "ensureBalance newId e k y s = (r, t)"
  shows "ensured newId e s t" "\<And>j b. r = Inr (j, b) \<Longrightarrow> findBalance t e k y = Some (j, b)"
proof -
  consider (same) "t = s" "\<And>j b. r = Inr (j, b) \<Longrightarrow> findBalance s e k y = Some (j, b)"
    | (new) b where "findBalance s e k y = None" "ofTriple e k y b" "lb_pending b = 0" "lb_used b = 0"
        "t = s\<lparr>balancesT := insertRow (newId k y) b (balancesT s)\<rparr>" "r = Inr (newId k y, b)"
    using run provision_fresh unfolding ensureBalance_def by (fastforce split: option.splits sum.splits)
  then have "ensured newId e s t \<and> (\<forall>j b. r = Inr (j, b) \<longrightarrow> findBalance t e k y = Some (j, b))"
  proof cases
    case same
    then show ?thesis using i ks by (simp add: ensured_def)
  next
    case (new b)
    have f: "newId k y \<notin> set (keys (balancesT s))" using ks new(1) unfolding keysFor_def by blast
    have it: "leaveInv t" unfolding new(5) by (rule insert_balance [OF i new(1-4) n f])
    have g: "grows s t" unfolding new(5) grows_def insertRow_def by blast
    have ft: "findBalance t e k y = Some (newId k y, b)"
      using find_tables [OF leaveInv_tables [OF it]] new by (simp add: lookup_insertRow [OF f])
    have "findBalance t e k' y' \<noteq> None" if u: "newId k' y' \<in> set (keys (balancesT t))" for k' y'
    proof (cases "newId k' y' = newId k y")
      case True
      then have "k' = k \<and> y' = y" using ks unfolding keysFor_def inj_def by fastforce
      then show ?thesis using ft by simp
    next
      case False
      then have "newId k' y' \<in> set (keys (balancesT s))" using u new(5) by simp
      then show ?thesis using ks grows_find [OF g] unfolding keysFor_def by fastforce
    qed
    then show ?thesis using it g ft new(6) ks by (simp add: ensured_def keysFor_def)
  qed
  then show "ensured newId e s t" "\<And>j b. r = Inr (j, b) \<Longrightarrow> findBalance t e k y = Some (j, b)" by auto
qed

lemma ensured_refl: "leaveInv s \<Longrightarrow> keysFor newId e s \<Longrightarrow> ensured newId e s s"
  by (simp add: ensured_def)

lemma ensured_trans: "ensured newId e s t \<Longrightarrow> ensured newId e t u \<Longrightarrow> ensured newId e s u"
  unfolding ensured_def using grows_trans by blast

lemma ensured_needs: "ensured newId e s t \<Longrightarrow> needsBalance t k = needsBalance s k"
  using grows_same [of s t] by (simp add: ensured_def needsBalance_def)

lemma ensured_D: "ensured newId e s t \<Longrightarrow> leaveInv t \<and> keysFor newId e t \<and> grows s t"
  by (simp add: ensured_def)

text \<open>A loop of provisioning steps, each followed by a check, only adds rows.\<close>

lemma checkBalances_ok:
  assumes "leaveInv s" "keysFor newId e s" "needsBalance s k" "checkBalances newId e k start ds s = (r, t)"
  shows "ensured newId e s t \<and> (r = Inr () \<longrightarrow> (\<forall>(y, d)\<in>set ds. \<exists>j b. findBalance t e k y = Some (j, b) \<and>
    d \<le> available b (if y = yearOf start then start else dayNum y 1 1)))"
  using assms
proof (induction ds arbitrary: s)
  case Nil
  then show ?case by (simp add: checkBalances_def returnS_def ensured_refl)
next
  case (Cons x ds)
  obtain y d where x: "x = (y, d)" by (cases x)
  obtain r1 u where m: "ensureBalance newId e k y s = (r1, u)" by (cases "ensureBalance newId e k y s")
  note en = ensureBalance_ok [OF Cons.prems(1-3) m]
  show ?case
  proof (cases r1)
    case (Inl err)
    then have "r = Inl err \<and> t = u" using Cons.prems(4) m x by (simp add: checkBalances_def thenS_def bindS_def)
    then show ?thesis using en(1) by simp
  next
    case (Inr jb)
    obtain j b where jb: "jb = (j, b)" by (cases jb)
    have f: "findBalance u e k y = Some (j, b)" using en(2) Inr jb by simp
    show ?thesis
    proof (cases "available b (if y = yearOf start then start else dayNum y 1 1) < d")
      case True
      then have "t = u \<and> r \<noteq> Inr ()"
        using Cons.prems(4) m x Inr jb by (auto simp: checkBalances_def thenS_def bindS_def guardS_def)
      then show ?thesis using en(1) by simp
    next
      case False
      then have rest: "checkBalances newId e k start ds u = (r, t)"
        using Cons.prems(4) m x Inr jb by (simp add: checkBalances_def thenS_def bindS_def guardS_def)
      have "needsBalance u k" using ensured_needs [OF en(1)] Cons.prems(3) by simp
      from Cons.IH [OF _ _ this rest] ensured_D [OF en(1)]
      have ih: "ensured newId e u t" "r = Inr () \<longrightarrow> (\<forall>(y, d)\<in>set ds. \<exists>j b. findBalance t e k y = Some (j, b) \<and>
          d \<le> available b (if y = yearOf start then start else dayNum y 1 1))" by blast+
      have "findBalance t e k y = Some (j, b)" using grows_find [OF _ f] ensured_D [OF ih(1)] by blast
      then show ?thesis using ih False x ensured_trans [OF en(1) ih(1)] by (auto simp: not_less)
    qed
  qed
qed

section \<open>Charging is exact\<close>

definition moved :: "(rat \<Rightarrow> rat) \<Rightarrow> (int \<times> rat) list \<Rightarrow> (int \<times> rat) list" where
  "moved f = List.map (\<lambda>(y, d). (y, f d))"

definition chargeRow :: "id \<Rightarrow> id \<Rightarrow> (rat \<Rightarrow> balance_change) \<Rightarrow> (int \<times> rat) list \<Rightarrow> leave_balance \<Rightarrow> leave_balance" where
  "chargeRow e k change ds b =
     (if lb_employeeId b = e \<and> lb_leaveTypeId b = k
      then b\<lparr>lb_pending := lb_pending b + daysIn (lb_year b) (moved (fst \<circ> change) ds),
             lb_used := lb_used b + daysIn (lb_year b) (moved (snd \<circ> change) ds)\<rparr>
      else b)"

definition recharge ::
  "id \<Rightarrow> id \<Rightarrow> (rat \<Rightarrow> balance_change) \<Rightarrow> (int \<times> rat) list \<Rightarrow> 'a leave_state_scheme \<Rightarrow> 'a leave_state_scheme" where
  "recharge e k change ds s = s\<lparr>balancesT := updateWhere (\<lambda>_. True) (chargeRow e k change ds) (balancesT s)\<rparr>"

lemma moved_simps [simp]: "moved f [] = []" "moved f ((y, d) # ds) = (y, f d) # moved f ds"
  by (simp_all add: moved_def)

lemma daysIn_scale: "daysIn y (moved (\<lambda>d. w * d) ds) = w * daysIn y ds"
  by (induction ds) (auto simp: distrib_left)

lemma chargeRow_Nil [simp]: "chargeRow e k change [] b = b"
  by (simp add: chargeRow_def)

lemma chargeRow_triple [simp]: "ofTriple e' k' y' (chargeRow e k change ds b) = ofTriple e' k' y' b"
  by (simp add: chargeRow_def ofTriple_def)

lemma chargeRow_fields [simp]:
  "lb_employeeId (chargeRow e k change ds b) = lb_employeeId b"
  "lb_leaveTypeId (chargeRow e k change ds b) = lb_leaveTypeId b"
  "lb_year (chargeRow e k change ds b) = lb_year b"
  "lb_entitled (chargeRow e k change ds b) = lb_entitled b"
  "lb_carriedOver (chargeRow e k change ds b) = lb_carriedOver b"
  "lb_carryOverExpiresOn (chargeRow e k change ds b) = lb_carryOverExpiresOn b"
  "lb_adjustment (chargeRow e k change ds b) = lb_adjustment b"
  by (simp_all add: chargeRow_def)

lemma chargeRow_Cons: "chargeRow e k change ds (chargeRow e k change [x] b) = chargeRow e k change (x # ds) b"
  by (cases x) (auto simp: chargeRow_def)

lemma updateWhere_all: "updateWhere (\<lambda>_. True) f T = List.map (\<lambda>(j, r). (j, f r)) T"
  by (simp add: updateWhere_def)

lemma find_map: "List.find P (List.map f xs) = map_option f (List.find (\<lambda>x. P (f x)) xs)"
  by (induction xs) simp_all

lemma find_recharge: "findBalance (recharge e k change ds s) e' k' y' =
    map_option (\<lambda>(j, b). (j, chargeRow e k change ds b)) (findBalance s e' k' y')"
  by (simp add: findBalance_def recharge_def updateWhere_all find_map case_prod_unfold)

lemma recharge_fields [simp]:
  "requestsT (recharge e k change ds s) = requestsT s" "leaveTypesT (recharge e k change ds s) = leaveTypesT s"
  "documentsT (recharge e k change ds s) = documentsT s" "employeesT (recharge e k change ds s) = employeesT s"
  by (simp_all add: recharge_def)

lemma lookup_recharge: "lookup (balancesT (recharge e k change ds s)) j =
    map_option (chargeRow e k change ds) (lookup (balancesT s) j)"
  by (simp add: recharge_def lookup_updateWhere)

lemma recharge_Cons: "recharge e k change ds (recharge e k change [x] s) = recharge e k change (x # ds) s"
  by (simp add: recharge_def updateWhere_all comp_def case_prod_unfold chargeRow_Cons)

lemma tables_recharge:
  assumes "tablesInv s"
  shows "tablesInv (recharge e k change ds s)"
proof -
  have "uniqueBy sameTriple (balancesT (recharge e k change ds s))"
  proof (rule uniqueByI)
    fix i j a b
    assume "lookup (balancesT (recharge e k change ds s)) i = Some a"
      "lookup (balancesT (recharge e k change ds s)) j = Some b" and c: "sameTriple a b"
    then obtain a0 b0 where "lookup (balancesT s) i = Some a0" "lookup (balancesT s) j = Some b0"
      "a = chargeRow e k change ds a0" "b = chargeRow e k change ds b0" by (auto simp: lookup_recharge)
    then show "i = j" using assms c uniqueByD [of sameTriple "balancesT s" i a0 j b0]
      by (simp add: tablesInv_def sameTriple_def)
  qed
  then show ?thesis using assms by (simp add: tablesInv_def recharge_def)
qed

lemma charge_one:
  assumes t: "tablesInv s" and f: "findBalance s e k y = Some (j, b)"
    and h: "halfStep (lb_pending b)" "halfStep (lb_used b)" "halfStep (fst (change d))" "halfStep (snd (change d))"
  shows "applyToBalance j b (change d) s = recharge e k change [(y, d)] s"
proof -
  have b: "lookup (balancesT s) j = Some b" "ofTriple e k y b" using f find_tables [OF t] by auto
  have "updateRow j (\<lambda>_. b\<lparr>lb_pending := round1 (lb_pending b + fst (change d)), lb_used := round1 (lb_used b + snd (change d))\<rparr>)
      (balancesT s) = updateWhere (\<lambda>_. True) (chargeRow e k change [(y, d)]) (balancesT s)"
    unfolding updateRow_def updateWhere_all
  proof (rule map_cong [OF refl])
    fix ic assume m: "ic \<in> set (balancesT s)"
    obtain i c where ic: "ic = (i, c)" by (cases ic)
    have c: "lookup (balancesT s) i = Some c" using t keyed_lookup [of "balancesT s" i c] m ic by (simp add: tablesInv_def)
    have "(if i = j then b\<lparr>lb_pending := round1 (lb_pending b + fst (change d)), lb_used := round1 (lb_used b + snd (change d))\<rparr> else c) =
      chargeRow e k change [(y, d)] c"
    proof (cases "i = j")
      case True
      then show ?thesis using b c h by (auto simp: chargeRow_def ofTriple_def round1_half halfStep_add)
    next
      case False
      then have "\<not> ofTriple e k y c" using find_tables [OF t, of e k y i c] f c by auto
      then show ?thesis using False by (auto simp: chargeRow_def ofTriple_def)
    qed
    then show "(case ic of (i, r) \<Rightarrow> (i, if i = j then b\<lparr>lb_pending := round1 (lb_pending b + fst (change d)),
        lb_used := round1 (lb_used b + snd (change d))\<rparr> else r)) = (case ic of (i, r) \<Rightarrow> (i, chargeRow e k change [(y, d)] r))"
      by (simp add: ic)
  qed
  then show ?thesis by (simp add: applyToBalance_def saveBalance_def recharge_def)
qed

definition halfBalances :: "'a leave_state_scheme \<Rightarrow> bool" where
  "halfBalances s \<longleftrightarrow> (\<forall>j b. lookup (balancesT s) j = Some b \<longrightarrow> halfStep (lb_pending b) \<and> halfStep (lb_used b))"

lemma leaveInv_half: "leaveInv s \<Longrightarrow> halfBalances s"
  using halfStep_balance unfolding halfBalances_def by blast

lemma half_recharge:
  assumes h: "halfBalances s" and c: "\<And>y d. (y, d) \<in> set ds \<Longrightarrow> halfStep (fst (change d)) \<and> halfStep (snd (change d))"
  shows "halfBalances (recharge e k change ds s)"
proof -
  have d: "halfStep (daysIn y (moved (fst \<circ> change) ds))" "halfStep (daysIn y (moved (snd \<circ> change) ds))" for y
    by (rule halfStep_daysIn; use c in \<open>auto simp: moved_def\<close>)+
  show ?thesis
    unfolding halfBalances_def
  proof (intro allI impI)
    fix j b assume l: "lookup (balancesT (recharge e k change ds s)) j = Some b"
    then obtain a where a: "lookup (balancesT s) j = Some a" "b = chargeRow e k change ds a" by (auto simp: lookup_recharge)
    then have "halfStep (lb_pending a)" "halfStep (lb_used a)" using h by (auto simp: halfBalances_def)
    then show "halfStep (lb_pending b) \<and> halfStep (lb_used b)"
      using d [of "lb_year a"] by (simp add: a chargeRow_def halfStep_add)
  qed
qed

lemma chargeBalances_exact:
  assumes "tablesInv s" "halfBalances s"
    and "\<forall>(y, d)\<in>set ds. findBalance s e k y \<noteq> None \<and> halfStep (fst (change d)) \<and> halfStep (snd (change d))"
  shows "chargeBalances newId e k change ds s = (Inr (), recharge e k change ds s)"
  using assms
proof (induction ds arbitrary: s)
  case Nil
  have "updateWhere (\<lambda>_. True) (chargeRow e k change []) (balancesT s) = balancesT s"
    by (simp add: updateWhere_all case_prod_unfold)
  then show ?case by (simp add: chargeBalances_def returnS_def recharge_def)
next
  case (Cons x ds)
  obtain y d where x: "x = (y, d)" by (cases x)
  obtain j b where f: "findBalance s e k y = Some (j, b)" using Cons.prems(3) x by fastforce
  have h: "halfStep (fst (change d))" "halfStep (snd (change d))" using Cons.prems(3) x by auto
  have b: "lookup (balancesT s) j = Some b" using f find_tables [OF Cons.prems(1)] by simp
  have hb: "halfStep (lb_pending b)" "halfStep (lb_used b)" using Cons.prems(2) b by (auto simp: halfBalances_def)
  let ?u = "recharge e k change [x] s"
  have u: "applyToBalance j b (change d) s = ?u" unfolding x by (rule charge_one [where change = change, OF Cons.prems(1) f hb h])
  have half: "halfBalances ?u" by (rule half_recharge [OF Cons.prems(2)]) (use h x in auto)
  have "\<forall>(y, d)\<in>set ds. findBalance ?u e k y \<noteq> None \<and> halfStep (fst (change d)) \<and> halfStep (snd (change d))"
    using Cons.prems(3) by (auto simp: find_recharge)
  from Cons.IH [OF tables_recharge [OF Cons.prems(1)] half this]
  have "chargeBalances newId e k change ds ?u = (Inr (), recharge e k change (x # ds) s)"
    by (simp add: recharge_Cons)
  then show ?case using f u x
    by (simp add: chargeBalances_def thenS_def bindS_def ensureBalance_def writeS_def)
qed

section \<open>A request moves its days\<close>

lemma balance_of_type: "leaveInv s \<Longrightarrow> lookup (balancesT s) j = Some b \<Longrightarrow> needsBalance s (lb_leaveTypeId b)"
  using leaveInv_balanced [of s j b] by (simp add: balanced_def)

lemma recharge_untracked:
  assumes i: "leaveInv s" and n: "\<not> needsBalance s k"
  shows "recharge e k change ds s = s"
proof -
  have "List.map (\<lambda>(j, b). (j, chargeRow e k change ds b)) (balancesT s) = List.map (\<lambda>jb. jb) (balancesT s)"
  proof (rule map_cong [OF refl])
    fix jb assume m: "jb \<in> set (balancesT s)"
    obtain j b where jb: "jb = (j, b)" by (cases jb)
    then have "lookup (balancesT s) j = Some b" using leaveInv_tables [OF i] keyed_lookup [of "balancesT s" j b] m by (simp add: tablesInv_def)
    then have "lb_leaveTypeId b \<noteq> k" using balance_of_type [OF i] n by auto
    then show "(case jb of (j, b) \<Rightarrow> (j, chargeRow e k change ds b)) = jb" by (simp add: chargeRow_def jb)
  qed
  then show ?thesis by (simp add: recharge_def updateWhere_all)
qed

text \<open>Charging, where the type keeps balances, in one equation.\<close>

lemma charge_step:
  assumes i: "leaveInv s" and t: "lookup (leaveTypesT s) k = Some t"
    and a: "needsBalance s k \<longrightarrow> (\<forall>(y, d)\<in>set ds. findBalance s e k y \<noteq> None)"
    and h: "\<And>y d. (y, d) \<in> set ds \<Longrightarrow> halfStep (fst (change d)) \<and> halfStep (snd (change d))"
  shows "whenS (lt_requiresBalance t) (chargeBalances newId e k change ds) s = (Inr (), recharge e k change ds s)"
proof (cases "lt_requiresBalance t")
  case True
  then have "chargeBalances newId e k change ds s = (Inr (), recharge e k change ds s)"
    using t a h by (intro chargeBalances_exact leaveInv_tables [OF i] leaveInv_half [OF i]) (auto simp: needsBalance_def)
  then show ?thesis using True by (simp add: whenS_def)
next
  case False
  then have "recharge e k change ds s = s" using t by (intro recharge_untracked [OF i]) (simp add: needsBalance_def)
  then show ?thesis using False by (simp add: whenS_def returnS_def)
qed

definition weight :: "leave_status \<Rightarrow> leave_status \<Rightarrow> leave_status \<Rightarrow> rat" where
  "weight old new st = of_bool (new = st) - of_bool (old = st)"

lemma wellCharged_same:
  assumes "wellCharged s r" "lr_employeeId q = lr_employeeId r" "lr_leaveTypeId q = lr_leaveTypeId r"
    "allocationsOf q = allocationsOf r" "activeRequest q \<longrightarrow> activeRequest r" "leaveTypesT t = leaveTypesT s"
    "\<And>e k y. findBalance s e k y \<noteq> None \<Longrightarrow> findBalance t e k y \<noteq> None"
  shows "wellCharged t q"
  using assms unfolding wellCharged_def needsBalance_def by fastforce

lemma clash_mono:
  assumes "clash a b" "lr_employeeId a' = lr_employeeId a" "lr_employeeId b' = lr_employeeId b"
    "lr_startDate a' = lr_startDate a" "lr_startDate b' = lr_startDate b"
    "lr_endDate a' = lr_endDate a" "lr_endDate b' = lr_endDate b"
    "activeRequest a \<longrightarrow> activeRequest a'" "activeRequest b \<longrightarrow> activeRequest b'"
  shows "clash a' b'"
  using assms by (simp add: clash_def overlapping_def)

lemma clash_update:
  assumes u: "uniqueBy clash T"
    and g: "\<And>r. lookup T rid = Some r \<Longrightarrow> lr_employeeId (g r) = lr_employeeId r \<and> lr_startDate (g r) = lr_startDate r \<and>
      lr_endDate (g r) = lr_endDate r \<and> (activeRequest (g r) \<longrightarrow> activeRequest r)"
  shows "uniqueBy clash (updateRow rid g T)"
proof (rule uniqueBy_orig [OF u])
  fix j r k q
  assume r: "lookup (updateRow rid g T) j = Some r" and q: "lookup (updateRow rid g T) k = Some q" and c: "clash r q"
  obtain r0 where r0: "lookup T j = Some r0" "r = (if j = rid then g r0 else r0)"
    using r by (auto simp: lookup_updateRow split: if_splits)
  obtain q0 where q0: "lookup T k = Some q0" "q = (if k = rid then g q0 else q0)"
    using q by (auto simp: lookup_updateRow split: if_splits)
  have "clash r0 q0"
    by (rule clash_mono [OF c]) (use r0 q0 g in auto)
  then show "\<exists>r' q'. lookup T j = Some r' \<and> lookup T k = Some q' \<and> clash r' q'" using r0 q0 by blast
qed

lemma allocationsOf_decided [simp]:
  "allocationsOf (r\<lparr>lr_status := a, lr_decidedByUserId := b, lr_decidedAt := c, lr_decisionNote := d\<rparr>) = allocationsOf r"
  "allocationsOf (r\<lparr>lr_statusApplied := e\<rparr>) = allocationsOf r"
  by (simp_all add: allocationsOf_def split: option.split list.split)

lemma decide_recharged:
  assumes i: "leaveInv s" and r: "lookup (requestsT s) rid = Some r" "activeRequest r"
    and ch: "\<And>d. fst (change d) = weight (lr_status r) st PENDING * d" "\<And>d. snd (change d) = weight (lr_status r) st APPROVED * d"
  shows "leaveInv (decide rid st actor now note
    (recharge (lr_employeeId r) (lr_leaveTypeId r) change (allocationsOf r) s))" (is "leaveInv ?t")
proof -
  let ?e = "lr_employeeId r" let ?k = "lr_leaveTypeId r" let ?ds = "allocationsOf r"
  let ?g = "\<lambda>r. r\<lparr>lr_status := st, lr_decidedByUserId := Some actor, lr_decidedAt := Some now, lr_decisionNote := note\<rparr>"
  let ?u = "recharge ?e ?k change ?ds s"
  have kt: "keyed (requestsT s)" using leaveInv_tables [OF i] by (simp add: tablesInv_def)
  have rt: "requestsT ?t = updateRow rid ?g (requestsT s)" "balancesT ?t = balancesT ?u" "leaveTypesT ?t = leaveTypesT s"
    by (simp_all add: decide_def)
  have cs: "(fst \<circ> change) = (\<lambda>d. weight (lr_status r) st PENDING * d)" "(snd \<circ> change) = (\<lambda>d. weight (lr_status r) st APPROVED * d)"
    using ch by auto
  have cg: "charged x e k y (requestsT ?t) = charged x e k y (requestsT s) +
      (if ?e = e \<and> ?k = k then weight (lr_status r) st x * daysIn y ?ds else 0)" for x e k y
    unfolding rt charged_update [OF kt r(1)] by (auto simp: chargedTo_def weight_def)
  have "balanced ?t b" if l: "lookup (balancesT ?t) j = Some b" for j b
  proof -
    obtain c where c: "lookup (balancesT s) j = Some c" "b = chargeRow ?e ?k change ?ds c"
      using l unfolding rt lookup_recharge by auto
    have "balanced s c" by (rule leaveInv_balanced [OF i c(1)])
    then show ?thesis unfolding c(2) balanced_def cg
      by (auto simp: chargeRow_def cs daysIn_scale needsBalance_def rt)
  qed
  moreover have "wellCharged ?t q" if "lookup (requestsT ?t) j = Some q" for j q
  proof -
    obtain q0 where q0: "lookup (requestsT s) j = Some q0" "q = (if j = rid then ?g q0 else q0)"
      using \<open>lookup (requestsT ?t) j = Some q\<close> by (auto simp: rt lookup_updateRow split: if_splits)
    show ?thesis
      by (rule wellCharged_same [OF leaveInv_request [OF i q0(1)]])
        (use q0 r in \<open>auto simp: decide_def find_recharge\<close>)
  qed
  moreover have "uniqueBy clash (requestsT ?t)" unfolding rt
    by (rule clash_update [OF leaveInv_clash [OF i]]) (use r in auto)
  moreover have "tablesInv ?t"
    using tables_recharge [OF leaveInv_tables [OF i]] by (simp add: tablesInv_def decide_def)
  ultimately show ?thesis by (simp add: leaveInv_def)
qed

section \<open>What does not touch the accounts\<close>

lemma leaveInv_notify [simp]: "leaveInv (notify n s) = leaveInv s"
  by (rule leaveInv_cong) (simp_all add: notify_def)

lemma charged_same:
  assumes "\<And>r. chargedTo st e k y (g r) = chargedTo st e k y r"
  shows "charged st e k y (updateRow rid g T) = charged st e k y T"
  by (induction T) (auto simp: charged_def rows_def updateRow_def assms)

lemma leaveInv_markApplied: "leaveInv s \<Longrightarrow> leaveInv (markApplied rid v s)"
proof -
  assume i: "leaveInv s"
  let ?t = "markApplied rid v s"
  have rt: "requestsT ?t = updateRow rid (\<lambda>r. r\<lparr>lr_statusApplied := v\<rparr>) (requestsT s)" "balancesT ?t = balancesT s"
    "leaveTypesT ?t = leaveTypesT s" by (simp_all add: markApplied_def)
  have f: "findBalance ?t e k y = findBalance s e k y" for e k y by (simp add: markApplied_def)
  have "charged st e k y (requestsT ?t) = charged st e k y (requestsT s)" for st e k y
    unfolding rt by (rule charged_same) (simp add: chargedTo_def)
  then have "balanced ?t b" if "lookup (balancesT ?t) j = Some b" for j b
    using leaveInv_balanced [OF i, of j b] that by (simp add: balanced_def needsBalance_def rt)
  moreover have "wellCharged ?t q" if l: "lookup (requestsT ?t) j = Some q" for j q
  proof -
    obtain q0 where q0: "lookup (requestsT s) j = Some q0" "q = (if j = rid then q0\<lparr>lr_statusApplied := v\<rparr> else q0)"
      using l by (auto simp: rt lookup_updateRow split: if_splits)
    show ?thesis
      by (rule wellCharged_same [OF leaveInv_request [OF i q0(1)]]) (use q0 in \<open>auto simp: rt f activeRequest_def\<close>)
  qed
  moreover have "uniqueBy clash (requestsT ?t)" unfolding rt
    by (rule clash_update [OF leaveInv_clash [OF i]]) (auto simp: activeRequest_def)
  moreover have "tablesInv ?t" using leaveInv_tables [OF i] by (simp add: tablesInv_def rt)
  ultimately show ?thesis by (simp add: leaveInv_def)
qed

lemma changeStatus_leave:
  "changeStatus now hid k st d n a s = Inr t \<Longrightarrow>
     balancesT t = balancesT s \<and> requestsT t = requestsT s \<and> leaveTypesT t = leaveTypesT s"
  by (auto simp: changeStatus_def res_simps emitOrg_def addHistory_def saveEmployee_def)

lemma keeps_changeStatus [keeps]: "keepsS leaveInv (tryS (changeStatus now hid k st d n a))"
  by (rule keeps_tryS) (metis changeStatus_leave leaveInv_cong)

lemma keeps_markApplied [keeps]: "keepsS leaveInv (writeS (markApplied rid v))"
  by (rule keeps_writeS) (rule leaveInv_markApplied)

lemma keeps_setOnLeave [keeps]: "keepsS leaveInv (setOnLeave now hid rid r emp actor)"
  by (simp add: setOnLeave_def) (intro conjI impI keeps)

lemma keeps_applyLong [keeps]: "keepsS leaveInv (applyLongLeaveStatus now hid rid r emp actor)"
  unfolding applyLongLeaveStatus_def by (intro keeps)

lemma keeps_revert [keeps]: "keepsS leaveInv (revertLongLeaveStatus now hid rid r)"
  unfolding revertLongLeaveStatus_def by (intro keeps)

lemma keeps_notifyDecision [keeps]: "keepsS leaveInv (writeS (notifyDecision rid emp st))"
  by (rule keeps_writeS) (simp add: notifyDecision_def split: option.split)

lemma keeps_sync: "keepsS leaveInv (syncEmployeeStatuses now hk today)"
proof -
  have "keepsS leaveInv (syncStart now hk x)" for x
    by (cases x) (simp add: syncStart_def keeps)
  moreover have "keepsS leaveInv (case x of (rid, r) \<Rightarrow> revertLongLeaveStatus now (hk rid) rid r)" for x
    by (cases x) (simp add: keeps)
  ultimately show ?thesis
    unfolding syncEmployeeStatuses_def by (intro keeps keeps_mapS keeps_eachS)
qed

section \<open>Decisions\<close>

definition mayDecide :: "'a leave_state_scheme \<Rightarrow> auth_user \<Rightarrow> leave_request \<Rightarrow> bool" where
  "mayDecide s actor r \<longleftrightarrow> LEAVE_READ_ALL \<in> set (au_permissions actor) \<or> lr_approverUserId r = Some (au_id actor) \<or>
     inChainOf s actor (lr_employeeId r)"

lemma loadForDecision_Inr:
  "loadForDecision rid actor s = Inr (r, emp, t) \<longleftrightarrow>
     lookup (requestsT s) rid = Some r \<and> lr_status r = PENDING \<and> findEmployee s (lr_employeeId r) = Some emp \<and>
     e_userId emp \<noteq> Some (au_id actor) \<and> mayDecide s actor r \<and> lookup (leaveTypesT s) (lr_leaveTypeId r) = Some t"
  by (auto simp: loadForDecision_def requestById_def requestEmployee_def requestType_def mayDecide_def res_simps)

lemma checkCancel_Inr:
  "checkCancel rid actor today s = Inr (r, t) \<longleftrightarrow>
     lookup (requestsT s) rid = Some r \<and> activeRequest r \<and> lookup (leaveTypesT s) (lr_leaveTypeId r) = Some t \<and>
     (\<exists>emp. findEmployee s (lr_employeeId r) = Some emp \<and>
       (LEAVE_READ_ALL \<in> set (au_permissions actor) \<or> e_userId emp = Some (au_id actor) \<and>
         (lr_status r = APPROVED \<longrightarrow> today < lr_startDate r)))"
  by (auto simp: checkCancel_def requestById_def requestEmployee_def requestType_def Let_def res_simps)

lemma request_charge:
  assumes i: "leaveInv s" and r: "lookup (requestsT s) rid = Some r" "activeRequest r"
    and t: "lookup (leaveTypesT s) (lr_leaveTypeId r) = Some t"
    and ch: "\<And>d. halfStep d \<Longrightarrow> halfStep (fst (change d)) \<and> halfStep (snd (change d))"
  shows "whenS (lt_requiresBalance t) (chargeBalances newId (lr_employeeId r) (lr_leaveTypeId r) change (allocationsOf r)) s =
    (Inr (), recharge (lr_employeeId r) (lr_leaveTypeId r) change (allocationsOf r) s)"
proof (rule charge_step [OF i t])
  have w: "wellCharged s r" by (rule leaveInv_request [OF i r(1)])
  show "needsBalance s (lr_leaveTypeId r) \<longrightarrow>
      (\<forall>(y, d)\<in>set (allocationsOf r). findBalance s (lr_employeeId r) (lr_leaveTypeId r) y \<noteq> None)"
    using w r(2) by (auto simp: wellCharged_def)
  show "halfStep (fst (change d)) \<and> halfStep (snd (change d))" if "(y, d) \<in> set (allocationsOf r)" for y d
    using w that ch by (auto simp: wellCharged_def)
qed

text \<open>The state in which a decision has charged the balances and set the status.\<close>

definition decided ::
  "id \<Rightarrow> leave_status \<Rightarrow> (rat \<Rightarrow> balance_change) \<Rightarrow> leave_request \<Rightarrow> id \<Rightarrow> int \<Rightarrow> string option \<Rightarrow> 'a leave_state_scheme
     \<Rightarrow> 'a leave_state_scheme" where
  "decided rid st change r actor now note s =
     decide rid st actor now note (recharge (lr_employeeId r) (lr_leaveTypeId r) change (allocationsOf r) s)"

lemma thenS_done: "m s = (Inr (), u) \<Longrightarrow> thenS m k s = k u"
  by (simp add: thenS_def bindS_def)

lemma bindS_read: "f s = Inr x \<Longrightarrow> bindS (readS f) k s = k x s"
  by (simp add: bindS_def readS_def)

lemma thenS_write: "thenS (writeS f) k s = k (f s)"
  by (simp add: thenS_def bindS_def writeS_def)

lemma approve_run:
  assumes i: "leaveInv s" and l: "loadForDecision rid actor s = Inr (r, emp, t)"
  shows "approve newId now hid rid actor note s =
    thenS (applyLongLeaveStatus now hid rid r emp (Some (au_id actor))) (writeS (notifyDecision rid emp APPROVED))
      (decided rid APPROVED (\<lambda>d. (- d, d)) r (au_id actor) now note s)"
proof -
  have a: "activeRequest r" "lookup (requestsT s) rid = Some r" "lookup (leaveTypesT s) (lr_leaveTypeId r) = Some t"
    using l by (simp_all add: loadForDecision_Inr activeRequest_def)
  note ch = request_charge [OF i a(2,1,3), where change = "\<lambda>d. (- d, d)"]
  show ?thesis
    unfolding approve_def by (simp add: bindS_read l thenS_done ch thenS_write decided_def)
qed

lemma release_run:
  assumes "leaveInv s" "lookup (requestsT s) rid = Some r" "activeRequest r" "lookup (leaveTypesT s) (lr_leaveTypeId r) = Some t"
  shows "thenS (releaseReservation newId r t) (thenS (writeS (decide rid st actor now note)) k) s =
    k (decided rid st (released r) r actor now note s)"
proof -
  have h: "\<And>d. halfStep d \<Longrightarrow> halfStep (fst (released r d)) \<and> halfStep (snd (released r d))"
    by (simp add: released_def)
  show ?thesis
    unfolding releaseReservation_def
    by (simp add: thenS_done request_charge [OF assms, where change = "released r", OF h] thenS_write decided_def)
qed

lemma reject_run:
  assumes i: "leaveInv s" and l: "loadForDecision rid actor s = Inr (r, emp, t)"
  shows "reject newId now rid actor note s =
    writeS (notifyDecision rid emp REJECTED) (decided rid REJECTED (released r) r (au_id actor) now note s)"
  unfolding reject_def
  by (simp add: bindS_read l) (rule release_run [OF i], use l in \<open>simp_all add: loadForDecision_Inr activeRequest_def\<close>)

lemma decided_inv:
  assumes "leaveInv s" "lookup (requestsT s) rid = Some r" "activeRequest r"
  shows "st \<in> {REJECTED, CANCELLED} \<Longrightarrow> leaveInv (decided rid st (released r) r actor now note s)"
    "lr_status r = PENDING \<Longrightarrow> leaveInv (decided rid APPROVED (\<lambda>d. (- d, d)) r actor now note s)"
  unfolding decided_def
  by (rule decide_recharged [OF assms]; use assms(3) in \<open>auto simp: weight_def released_def activeRequest_def\<close>)+

lemma approve_inv:
  assumes i: "leaveInv s"
  shows "leaveInv (snd (approve newId now hid rid actor note s))"
proof (cases "loadForDecision rid actor s")
  case (Inl e)
  then show ?thesis using i by (simp add: approve_def bindS_def readS_def)
next
  case (Inr x)
  obtain r emp t where x: "x = (r, emp, t)" by (cases x)
  have d: "leaveInv (decided rid APPROVED (\<lambda>d. (- d, d)) r (au_id actor) now note s)"
    using Inr x by (intro decided_inv [OF i]) (auto simp: loadForDecision_Inr activeRequest_def)
  show ?thesis
    unfolding approve_run [OF i Inr [unfolded x]] by (rule keepsS_D [where P = leaveInv, OF _ d]) (intro keeps)
qed

lemma reject_inv:
  assumes i: "leaveInv s"
  shows "leaveInv (snd (reject newId now rid actor note s))"
proof (cases "loadForDecision rid actor s")
  case (Inl e)
  then show ?thesis using i by (simp add: reject_def bindS_def readS_def)
next
  case (Inr x)
  obtain r emp t where x: "x = (r, emp, t)" by (cases x)
  have d: "leaveInv (decided rid REJECTED (released r) r (au_id actor) now note s)"
    using Inr x by (intro decided_inv [OF i]) (auto simp: loadForDecision_Inr activeRequest_def)
  show ?thesis
    unfolding reject_run [OF i Inr [unfolded x]] by (rule keepsS_D [where P = leaveInv, OF _ d]) (intro keeps)
qed

lemma cancel_inv:
  assumes i: "leaveInv s"
  shows "leaveInv (snd (cancel newId now hid rid actor note s))"
proof (cases "checkCancel rid actor (dayOfMs now) s")
  case (Inl e)
  then show ?thesis using i by (simp add: cancel_def bindS_def readS_def)
next
  case (Inr x)
  obtain r t where x: "x = (r, t)" by (cases x)
  have r: "lookup (requestsT s) rid = Some r" "activeRequest r" "lookup (leaveTypesT s) (lr_leaveTypeId r) = Some t"
    using Inr x by (auto simp: checkCancel_Inr)
  have d: "leaveInv (decided rid CANCELLED (released r) r (au_id actor) now note s)"
    by (rule decided_inv [OF i r(1,2)]) simp
  have n: "keepsS leaveInv (writeS (\<lambda>s. case lr_approverUserId r of None \<Rightarrow> s
      | Some u \<Rightarrow> if u \<noteq> au_id actor then notify (LeaveCancelled rid u) s else s))"
    by (rule keeps_writeS) (simp split: option.split)
  show ?thesis
    unfolding cancel_def bindS_read [where f = "checkCancel rid actor (dayOfMs now)", OF Inr] x case_prod_conv release_run [OF i r]
    by (rule keepsS_D [where P = leaveInv, OF _ d]) (intro keeps n)
qed

section \<open>Submission\<close>

lemma countWorkingDays_half: "countWorkingDays s a b h = Inr d \<Longrightarrow> halfStep d \<and> 0 \<le> d \<and> a \<le> b"
  by (auto simp: countWorkingDays_def res_simps Let_def split: if_splits intro: halfStep_one)

lemma allocate_half:
  assumes "allocate s a b h = Inr ds" "(y, d) \<in> set ds"
  shows "halfStep d \<and> 0 \<le> d"
  using assms countWorkingDays_half by (fastforce simp: allocate_def Let_def res_simps split: if_splits)

lemma checkRequest_Inr:
  assumes "checkRequest e dto s = Inr (emp, t, ds)"
  shows "findEmployee s e = Some emp" "e_status emp \<noteq> TERMINATED" "lookup (leaveTypesT s) (cl_leaveTypeId dto) = Some t"
    "allocate s (cl_startDate dto) (cl_endDate dto) (patched NONE (cl_halfDay dto)) = Inr ds"
    "sum_list (List.map snd ds) \<noteq> 0" "e_hireDate emp \<le> cl_startDate dto"
    "\<And>r. r \<in> set (rows (requestsT s)) \<Longrightarrow> \<not> overlapping e (cl_startDate dto) (cl_endDate dto) r"
  using assms by (auto simp: checkRequest_def employeeById_def findType_def Let_def res_simps list_ex_iff)

lemma allocationsOf_new: "ds \<noteq> [] \<Longrightarrow> allocationsOf (newRequest e dto ds a) = ds"
  by (cases ds) (simp_all add: allocationsOf_def newRequest_def)

lemma newRequest_simps [simp]:
  "lr_employeeId (newRequest e dto ds a) = e" "lr_leaveTypeId (newRequest e dto ds a) = cl_leaveTypeId dto"
  "lr_startDate (newRequest e dto ds a) = cl_startDate dto" "lr_endDate (newRequest e dto ds a) = cl_endDate dto"
  "lr_status (newRequest e dto ds a) = PENDING" "lr_approverUserId (newRequest e dto ds a) = a"
  "lr_attachmentDocumentId (newRequest e dto ds a) = cl_attachmentDocumentId dto"
  by (simp_all add: newRequest_def)

definition submitted :: "id \<Rightarrow> leave_request \<Rightarrow> (int \<times> rat) list \<Rightarrow> 'a leave_state_scheme \<Rightarrow> 'a leave_state_scheme" where
  "submitted rid r ds s =
     (recharge (lr_employeeId r) (lr_leaveTypeId r) (\<lambda>d. (d, 0)) ds s)\<lparr>requestsT := insertRow rid r (requestsT s)\<rparr>"

lemma submitted_inv:
  assumes i: "leaveInv s" and f: "rid \<notin> set (keys (requestsT s))"
    and t: "lookup (leaveTypesT s) (lr_leaveTypeId r) = Some t"
    and a: "needsBalance s (lr_leaveTypeId r) \<longrightarrow>
      (\<forall>(y, d)\<in>set ds. findBalance s (lr_employeeId r) (lr_leaveTypeId r) y \<noteq> None)"
    and h: "\<And>y d. (y, d) \<in> set ds \<Longrightarrow> halfStep d"
    and r: "lr_status r = PENDING" "allocationsOf r = ds"
    and o': "\<And>q. q \<in> set (rows (requestsT s)) \<Longrightarrow> \<not> overlapping (lr_employeeId r) (lr_startDate r) (lr_endDate r) q"
  shows "leaveInv (submitted rid r ds s)" (is "leaveInv ?t")
proof -
  let ?u = "recharge (lr_employeeId r) (lr_leaveTypeId r) (\<lambda>d. (d, 0)) ds s"
  have rt: "requestsT ?t = insertRow rid r (requestsT s)" "balancesT ?t = balancesT ?u" "leaveTypesT ?t = leaveTypesT s"
    by (simp_all add: submitted_def)
  have z: "daysIn y (moved (snd \<circ> (\<lambda>d. (d, 0))) ds) = 0" "daysIn y (moved (fst \<circ> (\<lambda>d. (d, 0))) ds) = daysIn y ds" for y
    by (induction ds) auto
  have "balanced ?t b" if l: "lookup (balancesT ?t) j = Some b" for j b
  proof -
    obtain c where c: "lookup (balancesT s) j = Some c" "b = chargeRow (lr_employeeId r) (lr_leaveTypeId r) (\<lambda>d. (d, 0)) ds c"
      using l unfolding rt lookup_recharge by auto
    have "balanced s c" by (rule leaveInv_balanced [OF i c(1)])
    then show ?thesis unfolding c(2) balanced_def rt charged_insert
      by (auto simp: chargeRow_def z chargedTo_def r needsBalance_def rt)
  qed
  moreover have "wellCharged ?t q" if l: "lookup (requestsT ?t) j = Some q" for j q
  proof (cases "j = rid")
    case True
    then have "q = r" using l by (simp add: rt lookup_insertRow [OF f])
    then show ?thesis using t a h r
      by (auto simp: wellCharged_def rt needsBalance_def submitted_def find_recharge)
  next
    case False
    then have "lookup (requestsT s) j = Some q" using l by (simp add: rt lookup_insertRow [OF f])
    from leaveInv_request [OF i this] show ?thesis
      by (rule wellCharged_same) (auto simp: rt submitted_def find_recharge)
  qed
  moreover have "uniqueBy clash (requestsT ?t)"
    unfolding rt
  proof (rule uniqueBy_insert [OF leaveInv_clash [OF i] f])
    fix k q assume "lookup (requestsT s) k = Some q"
    then have "\<not> overlapping (lr_employeeId r) (lr_startDate r) (lr_endDate r) q" using o' lookup_in_rows by metis
    then show "\<not> clash q r \<and> \<not> clash r q" by (auto simp: clash_def overlapping_def)
  qed
  moreover have "tablesInv ?t"
    using tables_recharge [OF leaveInv_tables [OF i]] f by (simp add: tablesInv_def submitted_def)
  ultimately show ?thesis by (simp add: leaveInv_def)
qed

definition attachmentKnown :: "'a leave_state_scheme \<Rightarrow> create_request_dto \<Rightarrow> bool" where
  "attachmentKnown s dto \<longleftrightarrow> (\<forall>d. cl_attachmentDocumentId dto = Some d \<longrightarrow> lookup (documentsT s) d \<noteq> None)"

definition covered :: "'a leave_state_scheme \<Rightarrow> id \<Rightarrow> id \<Rightarrow> date \<Rightarrow> (int \<times> rat) list \<Rightarrow> bool" where
  "covered u e k start ds \<longleftrightarrow> (\<forall>(y, d)\<in>set ds. \<exists>j b. findBalance u e k y = Some (j, b) \<and>
     d \<le> available b (if y = yearOf start then start else dayNum y 1 1))"

lemma submit_outcome:
  assumes i: "leaveInv s" and ks: "keysFor newId e s" and a: "attachmentKnown s dto"
    and run: "submit newId rid e dto actor s = (res, s')"
  obtains (failed) err where "res = Inl err" "ensured newId e s s'"
    | (accepted) emp t ds u r where "checkRequest e dto s = Inr (emp, t, ds)" "res = Inr ()" "ensured newId e s u"
        "lt_requiresBalance t \<longrightarrow> covered u e (cl_leaveTypeId dto) (cl_startDate dto) ds"
        "r = newRequest e dto ds (managerLogin u emp)" "s' = notifyApprover rid r actor (submitted rid r ds u)"
proof (cases "checkRequest e dto s")
  case (Inl err)
  then have "res = Inl err" "s' = s" using run by (auto simp: submit_def bindS_def readS_def)
  then show ?thesis using failed ensured_refl [OF i ks] by simp
next
  case (Inr x)
  obtain emp t ds where x: "x = (emp, t, ds)" by (cases x)
  let ?k = "cl_leaveTypeId dto"
  note c = checkRequest_Inr [OF Inr [unfolded x]]
  obtain r1 u where m: "whenS (lt_requiresBalance t) (checkBalances newId e ?k (cl_startDate dto) ds) s = (r1, u)"
    by (cases "whenS (lt_requiresBalance t) (checkBalances newId e ?k (cl_startDate dto) ds) s")
  have en: "ensured newId e s u \<and> (r1 = Inr () \<longrightarrow> lt_requiresBalance t \<longrightarrow> covered u e ?k (cl_startDate dto) ds)"
  proof (cases "lt_requiresBalance t")
    case True
    then have "needsBalance s ?k" using c(3) by (simp add: needsBalance_def)
    then show ?thesis using checkBalances_ok [OF i ks] m True by (simp add: whenS_def covered_def)
  next
    case False
    then show ?thesis using m ensured_refl [OF i ks] by (simp add: whenS_def returnS_def)
  qed
  show ?thesis
  proof (cases r1)
    case (Inl err)
    then have "res = Inl err" "s' = u"
      using run Inr x m by (auto simp: submit_def bindS_def readS_def thenS_def whenS_def returnS_def split: if_splits)
    then show ?thesis using failed en by blast
  next
    case r1: (Inr v)
    have iu: "leaveInv u" and g: "grows s u" using en ensured_D by blast+
    have tu: "lookup (leaveTypesT u) ?k = Some t" using c(3) grows_same [OF g] by simp
    have ch: "whenS (lt_requiresBalance t) (chargeBalances newId e ?k (\<lambda>d. (d, 0)) ds) u =
        (Inr (), recharge e ?k (\<lambda>d. (d, 0)) ds u)"
      by (rule charge_step [OF iu tu])
        (use en r1 tu allocate_half [OF c(4)] in \<open>auto simp: covered_def needsBalance_def\<close>)
    have al: "whenS (lt_requiresBalance t) (thenS (checkBalances newId e ?k (cl_startDate dto) ds)
        (chargeBalances newId e ?k (\<lambda>d. (d, 0)) ds)) s = (Inr (), recharge e ?k (\<lambda>d. (d, 0)) ds u)"
      using m ch r1 by (auto simp: whenS_def thenS_def bindS_def returnS_def split: if_splits)
    let ?r = "newRequest e dto ds (managerLogin u emp)"
    have ml: "managerLogin (recharge e ?k (\<lambda>d. (d, 0)) ds u) emp = managerLogin u emp"
      unfolding managerLogin_def findEmployee_def recharge_fields ..
    have "insertRequest rid ?r (recharge e ?k (\<lambda>d. (d, 0)) ds u) = Inr (submitted rid ?r ds u)"
      using a grows_same [OF g] by (auto simp: insertRequest_def attachmentKnown_def submitted_def throwIf_def split: option.split)
    then have "submit newId rid e dto actor s = (Inr (), notifyApprover rid ?r actor (submitted rid ?r ds u))"
      unfolding submit_def
      by (simp add: bindS_read Inr x thenS_done al bindS_read ml Let_def tryS_def writeS_def)
    then have "res = Inr ()" "s' = notifyApprover rid ?r actor (submitted rid ?r ds u)" using run by simp_all
    then show ?thesis by (intro accepted [of emp t ds u ?r]) (use Inr x en r1 in auto)
  qed
qed

lemma leaveInv_notifyApprover [simp]: "leaveInv (notifyApprover rid r actor s) = leaveInv s"
  by (simp add: notifyApprover_def split: option.split)

lemma submit_inv:
  assumes i: "leaveInv s" and ks: "keysFor newId e s" and a: "attachmentKnown s dto" and f: "rid \<notin> set (keys (requestsT s))"
  shows "leaveInv (snd (submit newId rid e dto actor s))"
proof -
  obtain res s' where run: "submit newId rid e dto actor s = (res, s')" by (cases "submit newId rid e dto actor s")
  show ?thesis
  proof (rule submit_outcome [OF i ks a run])
    fix err assume "ensured newId e s s'"
    then show ?thesis using run ensured_D by (metis snd_conv)
  next
    fix emp t ds u r
    assume c: "checkRequest e dto s = Inr (emp, t, ds)" and en: "ensured newId e s u"
      and cv: "lt_requiresBalance t \<longrightarrow> covered u e (cl_leaveTypeId dto) (cl_startDate dto) ds"
      and r: "r = newRequest e dto ds (managerLogin u emp)" and s': "s' = notifyApprover rid r actor (submitted rid r ds u)"
    note d = checkRequest_Inr [OF c]
    have g: "leaveInv u" "grows s u" using ensured_D [OF en] by blast+
    have "ds \<noteq> []" using d(5) by auto
    then have al: "allocationsOf r = ds" by (simp add: r allocationsOf_new)
    have "leaveInv (submitted rid r ds u)"
    proof (rule submitted_inv [OF g(1) _ _ _ _ _ al])
      show "lookup (leaveTypesT u) (lr_leaveTypeId r) = Some t" using d(3) grows_same [OF g(2)] r by simp
      show "needsBalance u (lr_leaveTypeId r) \<longrightarrow>
          (\<forall>(y, d)\<in>set ds. findBalance u (lr_employeeId r) (lr_leaveTypeId r) y \<noteq> None)"
        using cv d(3) grows_same [OF g(2)] r by (auto simp: covered_def needsBalance_def)
    qed (use f d(7) grows_same [OF g(2)] allocate_half [OF d(4)] r in auto)
    then show ?thesis using run s' by simp
  qed
qed

end
