(* ===== verification/LeaveSafety.thy ===== *)
theory LeaveSafety
  imports LeaveProps
begin

text \<open>
  The life of the leave tables as a step relation, its invariant, and what it promises: every balance
  accounts for the open requests, open requests of a person never overlap, submissions never overdraw
  and decisions are taken by those who may. Then the cases in which the accounts go wrong.
\<close>

section \<open>Policy and balances\<close>

lemma leaveInv_types:
  assumes i: "leaveInv s" and t: "balancesT t = balancesT s" "requestsT t = requestsT s" "keyed (leaveTypesT t)"
    and k: "\<And>k. lookup (leaveTypesT s) k \<noteq> None \<Longrightarrow> lookup (leaveTypesT t) k \<noteq> None \<and> needsBalance t k = needsBalance s k"
  shows "leaveInv t"
proof -
  have "balanced t b" if "balanced s b" for b
    using that k [of "lb_leaveTypeId b"] unfolding balanced_def t needsBalance_def by auto
  moreover have "wellCharged t r" if "wellCharged s r" for r
    using that k [of "lr_leaveTypeId r"] unfolding wellCharged_def findBalance_def t by auto
  ultimately show ?thesis using i by (simp add: leaveInv_def tablesInv_def t)
qed

lemma leaveInv_keyed_types: "leaveInv s \<Longrightarrow> keyed (leaveTypesT s)"
  by (simp add: leaveInv_def tablesInv_def)

lemma createType_inv:
  assumes "leaveInv s" "createType k dto s = Inr t" "k \<notin> set (keys (leaveTypesT s))"
  shows "leaveInv t"
proof (rule leaveInv_types [OF assms(1)])
  show "lookup (leaveTypesT t) j \<noteq> None \<and> needsBalance t j = needsBalance s j" if "lookup (leaveTypesT s) j \<noteq> None" for j
  proof -
    have "j \<noteq> k" using that assms(3) lookup_None_iff by metis
    then show ?thesis using that assms(2,3)
      by (auto simp: createType_def throwIf_Inr_iff needsBalance_def lookup_insertRow)
  qed
qed (use assms leaveInv_keyed_types [OF assms(1)] in \<open>auto simp: createType_def throwIf_Inr_iff\<close>)

lemma updateType_inv:
  assumes i: "leaveInv s" and u: "updateType k dto s = Inr t"
    and r: "\<And>x b. lookup (leaveTypesT s) k = Some x \<Longrightarrow> ut_requiresBalance dto = Some b \<Longrightarrow> b = lt_requiresBalance x"
  shows "leaveInv t"
proof -
  obtain x where x: "lookup (leaveTypesT s) k = Some x"
    and t: "t = s\<lparr>leaveTypesT := updateRow k (\<lambda>_. patchType dto x) (leaveTypesT s)\<rparr>"
    using u by (auto simp: updateType_def findType_def res_simps)
  have rb: "lt_requiresBalance (patchType dto x) = lt_requiresBalance x"
    using r [OF x] by (simp add: patchType_def patched_def split: option.split)
  show ?thesis
    by (rule leaveInv_types [OF i])
      (use x rb leaveInv_keyed_types [OF i] in \<open>auto simp: t needsBalance_def lookup_updateRow\<close>)
qed

lemma needs_active:
  assumes "leaveInv s" "(k, x) \<in> set (List.filter (\<lambda>(_, t). lt_requiresBalance t) (findTypes b s))"
  shows "needsBalance s k"
  using assms keyed_lookup [OF leaveInv_keyed_types [OF assms(1)], of k x]
  by (auto simp: findTypes_def needsBalance_def)

lemma provision_all:
  assumes "leaveInv s" "keysFor newId e s" "\<And>k x. (k, x) \<in> set ts \<Longrightarrow> needsBalance s k"
    "mapS (\<lambda>(k, _). ensureBalance newId e k y) ts s = (r, t)"
  shows "ensured newId e s t"
  using assms
proof (induction ts arbitrary: s r)
  case Nil
  then show ?case by (simp add: returnS_def ensured_refl)
next
  case (Cons kx ts)
  obtain k x where kx: "kx = (k, x)" by (cases kx)
  obtain r1 u where m: "ensureBalance newId e k y s = (r1, u)" by (cases "ensureBalance newId e k y s")
  have en: "ensured newId e s u" by (rule ensureBalance_ok [OF Cons.prems(1,2) _ m]) (use Cons.prems(3) kx in auto)
  show ?case
  proof (cases r1)
    case (Inl err)
    then show ?thesis using Cons.prems(4) m kx en by (simp add: bindS_def)
  next
    case (Inr jb)
    obtain r2 v where m2: "mapS (\<lambda>(k, _). ensureBalance newId e k y) ts u = (r2, v)"
      by (cases "mapS (\<lambda>(k, _). ensureBalance newId e k y) ts u")
    have "v = t" using Cons.prems(4) m kx Inr m2 by (auto simp: bindS_def returnS_def split: sum.splits)
    moreover have "ensured newId e u t"
    proof (rule Cons.IH [of u r2])
      fix k' x' assume "(k', x') \<in> set ts"
      then have "(k', x') \<in> set (kx # ts)" by simp
      from Cons.prems(3) [OF this] show "needsBalance u k'" by (simp add: ensured_needs [OF en])
    qed (use ensured_D [OF en] m2 \<open>v = t\<close> in auto)
    ultimately show ?thesis using ensured_trans [OF en] by simp
  qed
qed

lemma bindS_return_state: "snd (bindS m (\<lambda>x. returnS (f x)) s) = snd (m s)"
  by (auto simp: bindS_def returnS_def split: prod.split sum.split)

lemma balancesFor_inv:
  assumes "leaveInv s" "keysFor newId e s"
  shows "leaveInv (snd (balancesFor newId e year today s))"
proof -
  let ?ts = "List.filter (\<lambda>(_, t). lt_requiresBalance t) (findTypes False s)"
  obtain r t where m: "mapS (\<lambda>(k, _). ensureBalance newId e k year) ?ts s = (r, t)"
    by (cases "mapS (\<lambda>(k, _). ensureBalance newId e k year) ?ts s")
  have "ensured newId e s t" by (rule provision_all [OF assms _ m]) (rule needs_active [OF assms(1)])
  then show ?thesis using ensured_D m by (fastforce simp: balancesFor_def Let_def bindS_return_state)
qed

lemma adjust_row:
  assumes i: "leaveInv s" and b: "lookup (balancesT s) j = Some b"
    and t: "balancesT t = updateRow j (\<lambda>_. b\<lparr>lb_adjustment := a\<rparr>) (balancesT s)"
    "requestsT t = requestsT s" "leaveTypesT t = leaveTypesT s"
  shows "leaveInv t"
proof -
  let ?b = "b\<lparr>lb_adjustment := a\<rparr>"
  have l: "lookup (balancesT t) i = (if i = j then Some ?b else lookup (balancesT s) i)" for i
    using b by (simp add: t lookup_updateRow)
  have u: "uniqueBy sameTriple (balancesT t)"
    unfolding t
    by (rule uniqueBy_orig [where T = "balancesT s"], use leaveInv_tables [OF i] in \<open>simp add: tablesInv_def\<close>)
      (use b in \<open>auto simp: lookup_updateRow sameTriple_def ofTriple_def split: if_splits\<close>)
  then have tb: "tablesInv t" using leaveInv_tables [OF i] by (simp add: tablesInv_def t)
  have bal: "balanced t c" if "lookup (balancesT t) i = Some c" for i c
    using that leaveInv_balanced [OF i, of i c] leaveInv_balanced [OF i b] unfolding l
    by (auto simp: balanced_def needsBalance_def t split: if_splits)
  have ft: "findBalance t e k y \<noteq> None" if f: "findBalance s e k y \<noteq> None" for e k y
  proof -
    obtain i c where "findBalance s e k y = Some (i, c)" using f by auto
    then have "lookup (balancesT s) i = Some c" "ofTriple e k y c" using find_tables [OF leaveInv_tables [OF i]] by auto
    then have "\<exists>c. lookup (balancesT t) i = Some c \<and> ofTriple e k y c" using b by (auto simp: l ofTriple_def)
    then show ?thesis using find_tables [OF tb] by (metis option.distinct(1))
  qed
  have "wellCharged t r" if "wellCharged s r" for r
    by (rule wellCharged_same [OF that _ _ _ _ _ ft]) (simp_all add: t)
  then show ?thesis using tb i bal by (simp add: leaveInv_def t)
qed

lemma adjust_inv:
  assumes i: "leaveInv s" and ks: "keysFor newId (ad_employeeId dto) s"
  shows "leaveInv (snd (adjust newId aid dto byUser today s))"
proof (cases "bindE (findType s (ad_leaveTypeId dto)) (\<lambda>t.
     throwIf (\<not> lt_requiresBalance t) (BadRequest ''This leave type has no balance'') (Inr ()))")
  case (Inl err)
  then show ?thesis using i by (simp add: adjust_def bindS_def readS_def)
next
  case (Inr v)
  then have n: "needsBalance s (ad_leaveTypeId dto)" by (auto simp: findType_def needsBalance_def res_simps)
  let ?m = "ensureBalance newId (ad_employeeId dto) (ad_leaveTypeId dto) (ad_year dto)"
  obtain r u where m: "?m s = (r, u)" by (cases "?m s")
  note en = ensureBalance_ok [OF i ks n m]
  have iu: "leaveInv u" using ensured_D [OF en(1)] by blast
  show ?thesis
  proof (cases r)
    case (Inl err)
    then show ?thesis using iu Inr m by (simp add: adjust_def bindS_def readS_def)
  next
    case r: (Inr jb)
    obtain j b where jb: "jb = (j, b)" by (cases jb)
    have b: "lookup (balancesT u) j = Some b" using en(2) r jb find_tables [OF leaveInv_tables [OF iu]] by simp
    show ?thesis
      using Inr m r jb iu
      by (auto simp: adjust_def bindS_def readS_def thenS_def guardS_def writeS_def returnS_def Let_def saveBalance_def
          intro: adjust_row [OF iu b])
  qed
qed

section \<open>The life of the leave tables\<close>

text \<open>
  One operation of the services, or anything that leaves the leave types, balances and requests
  alone. New keys are unused, an attached document exists, and a change of policy does not switch
  the tracking of balances on or off: the cases outside are treated at the end.
\<close>

inductive leaveStep :: "'a leave_state_scheme \<Rightarrow> 'a leave_state_scheme \<Rightarrow> bool" where
  submission: "keysFor newId e s \<Longrightarrow> attachmentKnown s dto \<Longrightarrow> rid \<notin> set (keys (requestsT s)) \<Longrightarrow>
    leaveStep s (snd (submit newId rid e dto actor s))"
| approval: "leaveStep s (snd (approve newId now hid rid user note s))"
| rejection: "leaveStep s (snd (reject newId now rid user note s))"
| withdrawal: "leaveStep s (snd (cancel newId now hid rid user note s))"
| synchronisation: "leaveStep s (snd (syncEmployeeStatuses now hk today s))"
| provisioning: "keysFor newId e s \<Longrightarrow> leaveStep s (snd (balancesFor newId e year today s))"
| correction: "keysFor newId (ad_employeeId adj) s \<Longrightarrow> leaveStep s (snd (adjust newId aid adj actor today s))"
| new_type: "createType k ct s = Inr t \<Longrightarrow> k \<notin> set (keys (leaveTypesT s)) \<Longrightarrow> leaveStep s t"
| policy: "updateType k ut s = Inr t \<Longrightarrow>
    (\<And>x b. lookup (leaveTypesT s) k = Some x \<Longrightarrow> ut_requiresBalance ut = Some b \<Longrightarrow> b = lt_requiresBalance x) \<Longrightarrow>
    leaveStep s t"
| elsewhere: "balancesT t = balancesT s \<Longrightarrow> requestsT t = requestsT s \<Longrightarrow> leaveTypesT t = leaveTypesT s \<Longrightarrow> leaveStep s t"

definition noLeave :: "'a leave_state_scheme \<Rightarrow> bool" where
  "noLeave s \<longleftrightarrow> balancesT s = [] \<and> requestsT s = [] \<and> leaveTypesT s = []"

lemma noLeave_inv: "noLeave s \<Longrightarrow> leaveInv s"
  by (simp add: noLeave_def leaveInv_def tablesInv_def keyed_def keys_def lookup_def)

lemma leaveStep_inv: "leaveInv s \<Longrightarrow> leaveStep s t \<Longrightarrow> leaveInv t"
proof (erule leaveStep.cases)
  fix now hk today u assume "leaveInv s" "s = u" "t = snd (syncEmployeeStatuses now hk today u)"
  then show "leaveInv t" using keepsS_D [OF keeps_sync] by blast
next
  fix k ut u v
  assume "leaveInv s" "s = u" "t = v" "updateType k ut u = Inr v"
    "\<And>x b. lookup (leaveTypesT u) k = Some x \<Longrightarrow> ut_requiresBalance ut = Some b \<Longrightarrow> b = lt_requiresBalance x"
  then show "leaveInv t" using updateType_inv [of u k ut v] by blast
next
  fix u v assume "leaveInv s" "s = v" "t = u" "balancesT u = balancesT v" "requestsT u = requestsT v" "leaveTypesT u = leaveTypesT v"
  then show "leaveInv t" using leaveInv_cong by metis
qed (auto intro: submit_inv approve_inv reject_inv cancel_inv balancesFor_inv adjust_inv createType_inv)

interpretation leaves: step_system noLeave leaveStep leaveInv
  by unfold_locales (erule noLeave_inv, erule (1) leaveStep_inv)

definition leaveReachable :: "'a leave_state_scheme \<Rightarrow> bool" where
  "leaveReachable t \<longleftrightarrow> (\<exists>s. noLeave s \<and> leaveStep\<^sup>*\<^sup>* s t)"

lemma reachable_inv: "leaveReachable s \<Longrightarrow> leaveInv s"
  unfolding leaveReachable_def using leaves.reach_inv by blast


section \<open>Deciding and submitting\<close>

text \<open>What a step after the decision keeps: the balances and the decided request.\<close>

definition settled :: "leave_balance table \<Rightarrow> id \<Rightarrow> leave_status \<Rightarrow> id \<Rightarrow> 'a leave_state_scheme \<Rightarrow> bool" where
  "settled B rid st actor s \<longleftrightarrow> balancesT s = B \<and>
     (\<exists>q. lookup (requestsT s) rid = Some q \<and> lr_status q = st \<and> lr_decidedByUserId q = Some actor)"

lemma settled_changeStatus [keeps]: "keepsS (settled B rid st a) (tryS (changeStatus now hid k x d n c))"
  by (rule keeps_tryS) (auto simp: settled_def dest!: changeStatus_leave)

lemma settled_markApplied [keeps]: "keepsS (settled B rid st a) (writeS (markApplied rid v))"
  by (rule keeps_writeS) (auto simp: settled_def markApplied_def lookup_updateRow)

lemma settled_applyLong: "keepsS (settled B rid st a) (applyLongLeaveStatus now hid rid r emp actor)"
  by (simp add: applyLongLeaveStatus_def setOnLeave_def) (intro conjI impI keeps)

lemma settled_notify [keeps]: "keepsS (settled B rid st a) (writeS (notifyDecision rid emp x))"
  by (rule keeps_writeS) (auto simp: settled_def notifyDecision_def notify_def split: option.split)

lemma settled_decided:
  assumes "lookup (requestsT s) rid = Some r"
  shows "settled (updateWhere (\<lambda>_. True) (chargeRow (lr_employeeId r) (lr_leaveTypeId r) change (allocationsOf r)) (balancesT s))
    rid st actor (decided rid st change r actor now note s)"
  using assms by (simp add: settled_def decided_def decide_def recharge_def lookup_updateRow)

lemma available_charged:
  assumes "\<And>d. fst (change d) = p * d" "\<And>d. snd (change d) = u * d" "p + u \<in> {-1, 0, 1}"
    and h: "\<And>y d. (y, d) \<in> set ds \<Longrightarrow> halfStep d"
  shows "available (chargeRow e k change ds b) day =
    available b day - (if lb_employeeId b = e \<and> lb_leaveTypeId b = k then (p + u) * daysIn (lb_year b) ds else 0)"
proof -
  have cs: "fst \<circ> change = (\<lambda>d. p * d)" "snd \<circ> change = (\<lambda>d. u * d)" using assms(1,2) by auto
  let ?x = "daysIn (lb_year b) ds"
  let ?v = "lb_entitled b + effectiveCarryOver b day + lb_adjustment b - lb_used b - lb_pending b"
  have hx: "halfStep ?x" by (rule halfStep_daysIn) (rule h)
  have ec: "effectiveCarryOver (chargeRow e k change ds b) day = effectiveCarryOver b day"
    unfolding effectiveCarryOver_def chargeRow_fields ..
  show ?thesis
  proof (cases "lb_employeeId b = e \<and> lb_leaveTypeId b = k")
    case True
    then have "available (chargeRow e k change ds b) day = round1 (?v + - ((p + u) * ?x))"
      unfolding available_def ec by (simp add: chargeRow_def cs daysIn_scale) (simp add: algebra_simps)
    also have "\<dots> = round1 ?v + - ((p + u) * ?x)" 
    proof (rule round1_add)
      show "halfStep (- ((p + u) * ?x))" using assms(3) hx by auto
    qed
    finally show ?thesis using True by (simp add: available_def)
  next
    case False
    then have "chargeRow e k change ds b = b" by (auto simp: chargeRow_def)
    then show ?thesis using False by auto
  qed
qed


lemma allocate_years: "allocate s a b h = Inr ds \<Longrightarrow> distinct (List.map fst ds)"
  by (auto simp: allocate_def Let_def res_simps split: if_splits)

lemma daysIn_member: "distinct (List.map fst ds) \<Longrightarrow> (y, d) \<in> set ds \<Longrightarrow> daysIn y ds = d"
proof (induction ds)
  case (Cons x ds)
  obtain z c where x: "x = (z, c)" by (cases x)
  show ?case
  proof (cases "z = y")
    case True
    then have "\<And>d. (y, d) \<notin> set ds" using Cons.prems(1) x by force
    then show ?thesis using True Cons.prems(2) x daysIn_absent [of y ds] by auto
  next
    case False
    then show ?thesis using Cons x by auto
  qed
qed simp

text \<open>
  C32. No leave is reserved beyond what is there. When \<open>submit\<close> succeeds for a type that keeps
  balances, the new request is pending, and in every year it touches the balance it is charged to
  still has a non-negative number of days available on its first day in that year.
\<close>

theorem submission_within_balance:
  assumes s: "leaveReachable s" and ks: "keysFor newId e s" and a: "attachmentKnown s dto"
    and f: "rid \<notin> set (keys (requestsT s))" and n: "needsBalance s (cl_leaveTypeId dto)"
    and run: "submit newId rid e dto actor s = (Inr (), t)"
  shows "\<exists>r. lookup (requestsT t) rid = Some r \<and> lr_status r = PENDING \<and> lr_employeeId r = e \<and>
    lr_days r = sum_list (List.map snd (allocationsOf r)) \<and> lr_days r \<noteq> 0 \<and>
    (\<forall>(y, d)\<in>set (allocationsOf r). 0 \<le> d \<and> (\<exists>j b. findBalance t e (cl_leaveTypeId dto) y = Some (j, b) \<and>
      0 \<le> available b (if y = yearOf (lr_startDate r) then lr_startDate r else dayNum y 1 1)))"
proof (cases rule: submit_outcome [OF reachable_inv [OF s] ks a run, case_names failed accepted])
  case (accepted emp ty ds u r)
  note c = checkRequest_Inr [OF accepted(1)]
  have g: "leaveInv u" "grows s u" using ensured_D [OF accepted(3)] by blast+
  have "lt_requiresBalance ty" using n c(3) by (auto simp: needsBalance_def)
  then have cv: "covered u e (cl_leaveTypeId dto) (cl_startDate dto) ds" using accepted(4) by simp
  have ne: "ds \<noteq> []" using c(5) by auto
  then have al: "allocationsOf r = ds" by (simp add: accepted(5) allocationsOf_new)
  have fr: "rid \<notin> set (keys (requestsT u))" using f grows_same [OF g(2)] by simp
  have t: "requestsT t = insertRow rid r (requestsT u)"
    "balancesT t = balancesT (recharge e (cl_leaveTypeId dto) (\<lambda>d. (d, 0)) ds u)"
    using accepted(6) by (simp_all add: notifyApprover_def notify_def submitted_def accepted(5) split: option.split)
  have fb: "findBalance t e k y = findBalance (recharge e (cl_leaveTypeId dto) (\<lambda>d. (d, 0)) ds u) e k y" for k y
    by (simp add: findBalance_def t)
  have years: "0 \<le> d \<and> (\<exists>j b. findBalance t e (cl_leaveTypeId dto) y = Some (j, b) \<and>
      0 \<le> available b (if y = yearOf (cl_startDate dto) then cl_startDate dto else dayNum y 1 1))"
    if yd: "(y, d) \<in> set ds" for y d
  proof -
    obtain j b where b: "findBalance u e (cl_leaveTypeId dto) y = Some (j, b)"
      "d \<le> available b (if y = yearOf (cl_startDate dto) then cl_startDate dto else dayNum y 1 1)"
      using cv yd by (force simp: covered_def)
    let ?c = "chargeRow e (cl_leaveTypeId dto) (\<lambda>d. (d, 0)) ds b"
    have tr: "ofTriple e (cl_leaveTypeId dto) y b" using leaveInv_find [OF g(1) b(1)] by simp
    have "available ?c day = available b day - (if lb_employeeId b = e \<and> lb_leaveTypeId b = cl_leaveTypeId dto
        then (1 + 0) * daysIn (lb_year b) ds else 0)" for day
      by (rule available_charged) (use allocate_half [OF c(4)] in auto)
    then have "available ?c day = available b day - daysIn y ds" for day using tr by (simp add: ofTriple_def)
    moreover have "daysIn y ds = d" by (rule daysIn_member [OF allocate_years [OF c(4)] yd])
    ultimately show ?thesis using b allocate_half [OF c(4) yd] by (auto simp: fb find_recharge)
  qed
  moreover have sd: "lr_startDate r = cl_startDate dto" by (simp add: accepted(5))
  ultimately have ys: "\<forall>(y, d)\<in>set (allocationsOf r). 0 \<le> d \<and> (\<exists>j b. findBalance t e (cl_leaveTypeId dto) y = Some (j, b) \<and>
      0 \<le> available b (if y = yearOf (lr_startDate r) then lr_startDate r else dayNum y 1 1))"
    using sd unfolding al sd by blast
  have "lookup (requestsT t) rid = Some r" by (simp add: t lookup_insertRow [OF fr])
  moreover have "lr_status r = PENDING" "lr_employeeId r = e" "lr_days r = sum_list (List.map snd (allocationsOf r))"
    "lr_days r \<noteq> 0" using c(5) unfolding al by (simp_all add: accepted(5) newRequest_def)
  ultimately show ?thesis using ys by blast
next
  case (failed err)
  then show ?thesis by simp
qed

end
