(* ===== verification/LeaveCases.thy ===== *)
theory LeaveCases
  imports LeaveSafety PayRuns
begin

text \<open>
  Leave on concrete requests: witnesses of the properties, and the cases in which the code departs
  from what it means to do.
\<close>

section \<open>A small leave desk\<close>

definition demoLeaveType :: leave_type where
  "demoLeaveType = \<lparr>lt_code = ''ANNUAL'', lt_name = ''Annual'', lt_description = None, lt_defaultDays = 20, lt_isPaid = True,
     lt_requiresBalance = True, lt_carryOverMaxDays = 5, lt_carryOverExpiresOn = Some (3, 31), lt_allowHalfDay = True,
     lt_isActive = True, lt_sortOrder = 0\<rparr>"

definition demoTypeDto :: create_type_dto where
  "demoTypeDto = \<lparr>ct_code = ''ANNUAL'', ct_name = ''Annual'', ct_description = None, ct_defaultDays = 20, ct_isPaid = None,
     ct_requiresBalance = None, ct_carryOverMaxDays = Some 5, ct_carryOverExpiresOn = Some (3, 31), ct_allowHalfDay = None,
     ct_sortOrder = None\<rparr>"

definition demoLeaveWith :: "leave_type table \<Rightarrow> leave_balance table \<Rightarrow> leave_request table \<Rightarrow> leave_state" where
  "demoLeaveWith T B R = pay_state.extend (demoPayWith [] [] []) (leave_state.fields T [] B [] R [])"

lemma demo_leave_tables [simp]:
  "leaveTypesT (demoLeaveWith T B R) = T" "balancesT (demoLeaveWith T B R) = B" "requestsT (demoLeaveWith T B R) = R"
  "holidaysT (demoLeaveWith T B R) = []"
  by (simp_all add: demoLeaveWith_def pay_state.defs leave_state.defs)

definition demoDesk :: leave_state where
  "demoDesk = demoLeaveWith [(1, demoLeaveType)] [] []"

text \<open>Three days of June 2026 for ben (2).\<close>

definition demoAsk :: create_request_dto where
  "demoAsk = \<lparr>cl_leaveTypeId = 1, cl_startDate = dayNum 2026 6 15, cl_endDate = dayNum 2026 6 17, cl_halfDay = None,
     cl_reason = None, cl_attachmentDocumentId = None\<rparr>"

definition demoKey :: "id \<Rightarrow> int \<Rightarrow> id" where
  "demoKey k y = 2 ^ k * (if 0 \<le> y then 4 * nat y + 1 else 4 * nat (- y) + 3)"

definition demoAsked :: leave_state where
  "demoAsked = snd (submit demoKey 1 2 demoAsk 9 demoDesk)"

lemma odd_part_unique:
  fixes a b :: nat
  assumes "2 ^ j * a = 2 ^ k * b" "odd a" "odd b"
  shows "j \<le> k"
proof (rule ccontr)
  assume "\<not> j \<le> k"
  then obtain n where "j = k + Suc n" using less_imp_Suc_add by (metis not_le add_Suc_right)
  then have "b = 2 * (2 ^ n * a)" using assms(1) by (simp add: power_add mult.assoc)
  then show False using assms(3) by simp
qed

lemma demoKey_inj: "inj (\<lambda>(k, y). demoKey k y)"
proof (rule injI, clarify)
  fix j x k y assume e: "demoKey j x = demoKey k y"
  define f where "f z = (if 0 \<le> z then 4 * nat z + 1 else 4 * nat (- z) + 3)" for z :: int
  have o': "odd (f z)" for z by (simp add: f_def)
  have e: "2 ^ j * f x = 2 ^ k * f y" using e by (simp add: demoKey_def f_def)
  have "j = k" using odd_part_unique [OF e o' o'] odd_part_unique [OF e [symmetric] o' o'] by simp
  then have "f x = f y" using e by simp
  moreover have "f x mod 4 = (if 0 \<le> x then 1 else 3)" for x by (simp add: f_def mod_add_left_eq [symmetric])
  ultimately have "(0 \<le> x) = (0 \<le> y)" by (metis numeral_eq_one_iff semiring_norm(84))
  then have "x = y" using \<open>f x = f y\<close> by (auto simp: f_def split: if_splits)
  then show "j = k \<and> x = y" using \<open>j = k\<close> by simp
qed

lemma demoKey_free: "balancesT s = [] \<Longrightarrow> keysFor demoKey e s"
  by (simp add: keysFor_def demoKey_inj keys_def)

lemma demo_desk_reachable: "leaveReachable demoDesk"
proof -
  have "createType 1 demoTypeDto (demoLeaveWith [] [] []) = Inr demoDesk"
    by (simp add: createType_def demoTypeDto_def demoDesk_def demoLeaveType_def typeCodeTaken_def rows_def throwIf_def
        patched_def insertRow_def demoLeaveWith_def pay_state.defs leave_state.defs)
  then have "leaveStep (demoLeaveWith [] [] []) demoDesk" by (rule new_type) (simp add: keys_def)
  moreover have "noLeave (demoLeaveWith [] [] [])" by (simp add: noLeave_def)
  ultimately show ?thesis unfolding leaveReachable_def by blast
qed

lemma demo_desk_conds: "keysFor demoKey e demoDesk" "attachmentKnown demoDesk demoAsk" "rid \<notin> set (keys (requestsT demoDesk))"
  "needsBalance demoDesk (cl_leaveTypeId demoAsk)"
  by (simp_all add: demoKey_free demoDesk_def attachmentKnown_def demoAsk_def keys_def needsBalance_def lookup_def demoLeaveType_def)

lemma demo_asked_reachable: "leaveReachable demoAsked"
proof -
  have "leaveStep demoDesk demoAsked"
    unfolding demoAsked_def by (rule submission) (rule demo_desk_conds)+
  then show ?thesis using demo_desk_reachable unfolding leaveReachable_def by (meson rtranclp.rtrancl_into_rtrancl)
qed

lemma demo_asked_run:
  "let (r, s) = submit demoKey 1 2 demoAsk 9 demoDesk in
     (r, map_option lb_pending (lookup (balancesT s) (demoKey 1 2026)),
       map_option (\<lambda>r. (lr_status r, lr_employeeId r, lr_leaveTypeId r, lr_approverUserId r, isLongLeave r))
         (lookup (requestsT s) 1)) =
     (Inr (), Some 3, Some (PENDING, 2, 1, Some 5, False))"
  by code_simp

lemma demo_asked_ok: "fst (submit demoKey 1 2 demoAsk 9 demoDesk) = Inr ()"
  and demo_asked_balance: "map_option lb_pending (lookup (balancesT demoAsked) (demoKey 1 2026)) = Some 3"
  and demo_asked_request: "map_option (\<lambda>r. (lr_status r, lr_employeeId r, lr_leaveTypeId r, lr_approverUserId r,
    isLongLeave r)) (lookup (requestsT demoAsked) 1) = Some (PENDING, 2, 1, Some 5, False)"
  using demo_asked_run unfolding demoAsked_def Let_def by (auto simp only: split_beta prod.inject)


lemma submit_frame:
  assumes "leaveInv s" "keysFor newId e s" "attachmentKnown s dto"
  shows "employeesT (snd (submit newId rid e dto actor s)) = employeesT s \<and>
    leaveTypesT (snd (submit newId rid e dto actor s)) = leaveTypesT s"
proof -
  obtain res s' where run: "submit newId rid e dto actor s = (res, s')" by (cases "submit newId rid e dto actor s")
  show ?thesis
    by (rule submit_outcome [OF assms run])
      (auto simp: run notifyApprover_def notify_def submitted_def dest!: ensured_D grows_same split: option.split)
qed

lemma demo_asked_rows: "employeesT demoAsked = employeesT demoLinked" "leaveTypesT demoAsked = [(1, demoLeaveType)]"
proof -
  have e: "employeesT demoDesk = employeesT demoLinked"
    by (cases demoLinked, simp add: demoDesk_def demoLeaveWith_def demoPayWith_def demoDocs_def org_state.defs doc_state.defs
      pay_state.defs leave_state.defs)
  show "employeesT demoAsked = employeesT demoLinked" "leaveTypesT demoAsked = [(1, demoLeaveType)]"
    using submit_frame [OF reachable_inv [OF demo_desk_reachable] demo_desk_conds(1,2)] e
    by (simp_all add: demoAsked_def) (simp add: demoDesk_def)
qed

lemma demo_approved: "fst (approve demoKey 0 3 1 demoActor None demoAsked) = Inr ()"
proof -
  obtain r where r: "lookup (requestsT demoAsked) 1 = Some r" "lr_status r = PENDING" "lr_employeeId r = 2"
    "lr_leaveTypeId r = 1" "lr_approverUserId r = Some 5" "\<not> isLongLeave r" using demo_asked_request by auto
  obtain emp t where "findEmployee demoAsked 2 = Some emp" "e_userId emp = None" "lookup (leaveTypesT demoAsked) 1 = Some t"
    by (auto simp: findEmployee_def demo_asked_rows demo_linked_tables lookup_def newEmployee_def demoHire_def)
  then have "loadForDecision 1 demoActor demoAsked = Inr (r, emp, t)"
    using r by (simp add: loadForDecision_Inr mayDecide_def demoActor_def)
  from approve_run [OF reachable_inv [OF demo_asked_reachable] this] show ?thesis
    using r by (simp add: applyLongLeaveStatus_def whenS_def thenS_def bindS_def returnS_def writeS_def)
qed


theorem submission_within_balance_witness:
  "\<exists>r. lookup (requestsT demoAsked) 1 = Some r \<and> lr_status r = PENDING \<and> lr_days r \<noteq> 0"
proof -
  have "submit demoKey 1 2 demoAsk 9 demoDesk = (Inr (), demoAsked)"
    using demo_asked_ok unfolding demoAsked_def by (metis prod.collapse)
  from submission_within_balance [OF demo_desk_reachable demo_desk_conds this] show ?thesis by blast
qed

section \<open>Where the accounts go wrong\<close>

text \<open>
  The days are reserved before the request is inserted, without a transaction. A request that names a
  document that does not exist is refused by its foreign key, and the reservation stays.
\<close>

theorem unknown_attachment_keeps_reservation:
  assumes i: "leaveInv s" and c: "checkRequest e dto s = Inr (emp, t, ds)" and n: "lt_requiresBalance t"
    and v: "covered s e (cl_leaveTypeId dto) (cl_startDate dto) ds"
    and a: "cl_attachmentDocumentId dto = Some d" "lookup (documentsT s) d = None"
  shows "submit newId rid e dto actor s =
    (Inl (BadRequest ''Referenced resource does not exist''), recharge e (cl_leaveTypeId dto) (\<lambda>d. (d, 0)) ds s)"
proof -
  let ?k = "cl_leaveTypeId dto"
  have ch: "checkBalances newId e ?k (cl_startDate dto) ds s = (Inr (), s)"
    using v
  proof (induction ds)
    case Nil
    then show ?case by (simp add: checkBalances_def returnS_def)
  next
    case (Cons x ds)
    then show ?case
      by (cases x) (auto simp: checkBalances_def covered_def thenS_def bindS_def guardS_def ensureBalance_def)
  qed
  have g: "chargeBalances newId e ?k (\<lambda>d. (d, 0)) ds s = (Inr (), recharge e ?k (\<lambda>d. (d, 0)) ds s)"
    by (rule chargeBalances_exact [OF leaveInv_tables [OF i] leaveInv_half [OF i]])
      (use v allocate_half [OF checkRequest_Inr(4) [OF c]] in \<open>auto simp: covered_def\<close>)
  show ?thesis
    unfolding submit_def
    by (simp add: bindS_read c n whenS_def thenS_def bindS_def [of "checkBalances a b c d e" for a b c d e] ch
        thenS_done g bindS_def [of "bindS a b" for a b] bindS_def [of "chargeBalances a b c d e" for a b c d e]
        bindS_def [of "tryS a" for a] Let_def tryS_def insertRequest_def a)
qed

text \<open>
  A balance is provisioned, with its carry-over, when it is first looked at, and then never again:
  looked at in January of the year before, it carries the whole of that year's days over.
\<close>

theorem early_look_freezes_carry_over:
  "findBalance s e k y = Some jb \<Longrightarrow> ensureBalance newId e k y s = (Inr jb, s)"
  "carriedOver demoLeaveType (Some \<lparr>lb_employeeId = 2, lb_leaveTypeId = 1, lb_year = 2026, lb_entitled = 20,
     lb_carriedOver = 0, lb_carryOverExpiresOn = None, lb_adjustment = 0, lb_used = 0, lb_pending = 0\<rparr>) 2027 = 5"
  "carriedOver demoLeaveType (Some \<lparr>lb_employeeId = 2, lb_leaveTypeId = 1, lb_year = 2026, lb_entitled = 20,
     lb_carriedOver = 0, lb_carryOverExpiresOn = None, lb_adjustment = 0, lb_used = 20, lb_pending = 0\<rparr>) 2027 = 0"
  by (simp_all add: ensureBalance_def carriedOver_def demoLeaveType_def effectiveCarryOver_def round1_def jsRound_def
      floor_eq_iff Let_def split: option.split)

text \<open>
  Days taken from the carry-over before it expires are charged to the year's own days afterwards:
  of 20 days and 5 carried over, all 5 taken by 31 March, 15 are left in April.
\<close>

theorem expired_carry_over_charged_twice:
  fixes b :: leave_balance
  defines "b \<equiv> \<lparr>lb_employeeId = 2, lb_leaveTypeId = 1, lb_year = 2026, lb_entitled = 20, lb_carriedOver = 5,
     lb_carryOverExpiresOn = Some (dayNum 2026 3 31), lb_adjustment = 0, lb_used = 5, lb_pending = 0\<rparr>"
  shows "available b (dayNum 2026 3 31) = 20" "available b (dayNum 2026 4 1) = 15"
  unfolding b_def by code_simp+

text \<open>
  A policy may let carry-over expire on 29 February. In a common year the insert of the new balance
  fails, the failure is taken for a lost race, and every use of the balance then fails.
\<close>

theorem leap_day_expiry_blocks_balances:
  assumes "findBalance s e k 2027 = None" "findType s k = Inr (demoLeaveType\<lparr>lt_carryOverExpiresOn := Some (2, 29)\<rparr>)"
    "findEmployee s e = Some emp" "findBalance s e k 2026 = Some (j, b)" "lb_used b = 0" "lb_entitled b = 20"
    "lb_adjustment b = 0" "lb_carriedOver b = 0"
  shows "ensureBalance newId e k 2027 s = (Inl (InternalError ''EntityNotFound''), s)"
proof -
  have "carriedOver (demoLeaveType\<lparr>lt_carryOverExpiresOn := Some (2, 29)\<rparr>) (Some b) 2027 = 5"
    using assms(5-8)
    by (simp add: carriedOver_def demoLeaveType_def effectiveCarryOver_def round1_def jsRound_def floor_eq_iff Let_def split: option.split)
  then show ?thesis
    using assms by (simp add: ensureBalance_def provision_def Let_def demoLeaveType_def validDate_def monthLen_def cumDays_def leap_def)
qed

text \<open>
  Half days are for single days, but the check is made on the part of each year: a half day from
  31 December to 1 January passes it, and charges half a day to both years.
\<close>

theorem half_day_over_new_year:
  "allocate demoDesk (dayNum 2026 12 31) (dayNum 2027 1 1) AM = Inr [(2026, 1 / 2), (2027, 1 / 2)]"
  by code_simp

end
