(* ===== verification/Attendance.thy ===== *)
theory Attendance
  imports Leave
begin

text \<open>
  Attendance (\<open>attendance.service.ts\<close>, \<open>attendance.controller.ts\<close>, \<open>attendance.processor.ts\<close>): clocking in
  and out, entries and corrections by HR, daily and monthly totals, and the hourly job that closes
  forgotten sessions. Instants are milliseconds; an instant parsed from a request is \<open>None\<close> when it is
  an Invalid Date (a JSON null is the epoch).
\<close>

section \<open>Records\<close>

datatype attendance_source = CLOCK | MANUAL

record attendance_record =
  ar_employeeId :: id
  ar_date :: date
  ar_clockIn :: int
  ar_clockOut :: "int option"
  ar_workedMinutes :: "int option"
  ar_source :: attendance_source
  ar_autoClosed :: bool
  ar_note :: "string option"
  ar_createdByUserId :: "id option"

record attendance_state = leave_state +
  recordsT :: "attendance_record table"

definition MAX_SESSION_HOURS :: int where
  "MAX_SESSION_HOURS = 16"

definition minutesBetween :: "int \<Rightarrow> int \<Rightarrow> int" where
  "minutesBetween a b = max 0 (jsRound (ddiv (of_int (b - a)) 60000))"

definition isOpen :: "attendance_record \<Rightarrow> bool" where
  "isOpen r \<longleftrightarrow> ar_clockOut r = None"

text \<open>The column is \<open>varchar(500)\<close>: a longer note makes the save fail.\<close>

definition noteFits :: "attendance_record \<Rightarrow> bool" where
  "noteFits r \<longleftrightarrow> (case ar_note r of None \<Rightarrow> True | Some n \<Rightarrow> length n \<le> 500)"

definition insertRecord :: "id \<Rightarrow> attendance_record \<Rightarrow> 'a attendance_state_scheme \<Rightarrow> 'a attendance_state_scheme res" where
  "insertRecord k r s = throwIf (\<not> noteFits r) (InternalError ''QueryFailedError'')
     (Inr (s\<lparr>recordsT := insertRow k r (recordsT s)\<rparr>))"

definition saveRecord :: "id \<Rightarrow> attendance_record \<Rightarrow> 'a attendance_state_scheme \<Rightarrow> 'a attendance_state_scheme res" where
  "saveRecord k r s = throwIf (\<not> noteFits r) (InternalError ''QueryFailedError'')
     (Inr (s\<lparr>recordsT := updateRow k (\<lambda>_. r) (recordsT s)\<rparr>))"

section \<open>Clocking\<close>

text \<open>The newest open session first.\<close>

definition openSession :: "'a attendance_state_scheme \<Rightarrow> id \<Rightarrow> (id \<times> attendance_record) option" where
  "openSession s e =
     (case sort_key (\<lambda>(_, r). - ar_clockIn r)
             (List.filter (\<lambda>(_, r). ar_employeeId r = e \<and> isOpen r) (recordsT s)) of
        [] \<Rightarrow> None | x # _ \<Rightarrow> Some x)"

definition clockIn ::
  "id \<Rightarrow> id \<Rightarrow> string option \<Rightarrow> int \<Rightarrow> 'a attendance_state_scheme \<Rightarrow> 'a attendance_state_scheme res" where
  "clockIn k e note now s =
     throwIf (openSession s e \<noteq> None) (Conflict ''You already have an open session; clock out first'')
     (insertRecord k
       \<lparr>ar_employeeId = e, ar_date = dayOfMs now, ar_clockIn = now, ar_clockOut = None, ar_workedMinutes = None,
        ar_source = CLOCK, ar_autoClosed = False, ar_note = note, ar_createdByUserId = None\<rparr> s)"

text \<open>An empty note is falsy.\<close>

definition appendNote :: "string option \<Rightarrow> string \<Rightarrow> string" where
  "appendNote old note = (case old of None \<Rightarrow> note | Some n \<Rightarrow> if n = [] then note else n @ CHR 0x0A # note)"

definition clockOut ::
  "id \<Rightarrow> string option \<Rightarrow> int \<Rightarrow> 'a attendance_state_scheme \<Rightarrow> 'a attendance_state_scheme res" where
  "clockOut e note now s =
     orThrow (openSession s e) (BadRequest ''No open session to clock out of'') (\<lambda>(k, r).
     let r1 = r\<lparr>ar_clockOut := Some now, ar_workedMinutes := Some (minutesBetween (ar_clockIn r) now)\<rparr>
     in saveRecord k (if note \<in> {None, Some []} then r1 else r1\<lparr>ar_note := Some (appendNote (ar_note r) (the note))\<rparr>) s)"

section \<open>Entries by HR\<close>

definition assertRange :: "int option \<Rightarrow> int option option \<Rightarrow> unit res" where
  "assertRange ci co =
     orThrow ci (BadRequest ''Invalid clockIn'') (\<lambda>a.
     case co of None \<Rightarrow> Inr ()
     | Some b' \<Rightarrow> orThrow b' (BadRequest ''Invalid clockOut'') (\<lambda>b.
         throwIf (b \<le> a) (BadRequest ''clockOut must be after clockIn'')
         (throwIf (24 * 60 < minutesBetween a b) (BadRequest ''A session cannot exceed 24 hours'') (Inr ()))))"

record manual_dto =
  md_employeeId :: id
  md_clockIn :: "int option"
  md_clockOut :: "int option option"
  md_note :: "string option"

definition createManual ::
  "id \<Rightarrow> manual_dto \<Rightarrow> id \<Rightarrow> 'a attendance_state_scheme \<Rightarrow> 'a attendance_state_scheme res" where
  "createManual k dto byUser s =
     bindE (assertRange (md_clockIn dto) (md_clockOut dto)) (\<lambda>_.
     let ci = the (md_clockIn dto); co = (case md_clockOut dto of None \<Rightarrow> None | Some b \<Rightarrow> b)
     in throwIf (findEmployee s (md_employeeId dto) = None) (NotFound ''Employee not found'')
       (throwIf (co = None \<and> openSession s (md_employeeId dto) \<noteq> None) (Conflict ''Employee already has an open session'')
       (insertRecord k
         \<lparr>ar_employeeId = md_employeeId dto, ar_date = dayOfMs ci, ar_clockIn = ci, ar_clockOut = co,
          ar_workedMinutes = map_option (minutesBetween ci) co, ar_source = MANUAL, ar_autoClosed = False,
          ar_note = md_note dto, ar_createdByUserId = Some byUser\<rparr> s)))"

definition recordById :: "'a attendance_state_scheme \<Rightarrow> id \<Rightarrow> attendance_record res" where
  "recordById s k = orThrow (lookup (recordsT s) k) (NotFound ''Attendance record not found'') Inr"

text \<open>\<open>None\<close> is an absent field, \<open>Some None\<close> for the note and the clock-out a null.\<close>

record update_record_dto =
  ur_clockIn :: "int option option"
  ur_clockOut :: "int option option option"
  ur_note :: "string option option"

definition updateRecord ::
  "id \<Rightarrow> update_record_dto \<Rightarrow> 'a attendance_state_scheme \<Rightarrow> 'a attendance_state_scheme res" where
  "updateRecord k dto s =
     bindE (recordById s k) (\<lambda>r.
     let ci = patched (Some (ar_clockIn r)) (ur_clockIn dto);
         co = patched (map_option Some (ar_clockOut r)) (ur_clockOut dto);
         note = patched (ar_note r) (ur_note dto)
     in bindE (assertRange ci co) (\<lambda>_.
        let a = the ci; b = (case co of None \<Rightarrow> None | Some b \<Rightarrow> b)
        in saveRecord k (r\<lparr>ar_clockIn := a, ar_clockOut := b, ar_note := note, ar_date := dayOfMs a,
             ar_workedMinutes := map_option (minutesBetween a) b, ar_source := MANUAL, ar_autoClosed := False\<rparr>) s))"

definition removeRecord :: "id \<Rightarrow> 'a attendance_state_scheme \<Rightarrow> 'a attendance_state_scheme res" where
  "removeRecord k s = bindE (recordById s k) (\<lambda>_. Inr (s\<lparr>recordsT := deleteRow k (recordsT s)\<rparr>))"

section \<open>Daily and monthly totals\<close>

record daily_summary =
  ds_date :: date
  ds_workedMinutes :: int
  ds_sessions :: nat
  ds_hasOpenSession :: bool

definition countRecord :: "attendance_record \<Rightarrow> daily_summary \<Rightarrow> daily_summary" where
  "countRecord r d = d\<lparr>ds_sessions := Suc (ds_sessions d),
     ds_workedMinutes := ds_workedMinutes d + patched 0 (ar_workedMinutes r),
     ds_hasOpenSession := (ds_hasOpenSession d \<or> isOpen r)\<rparr>"

text \<open>A \<open>Map\<close> by date in the order of insertion: an entry found is replaced in place.\<close>

fun putDay :: "attendance_record \<Rightarrow> daily_summary list \<Rightarrow> daily_summary list" where
  "putDay r [] = [countRecord r \<lparr>ds_date = ar_date r, ds_workedMinutes = 0, ds_sessions = 0, ds_hasOpenSession = False\<rparr>]"
| "putDay r (d # ds) = (if ds_date d = ar_date r then countRecord r d # ds else d # putDay r ds)"

definition dailyOf :: "attendance_record list \<Rightarrow> daily_summary list" where
  "dailyOf rs = foldl (\<lambda>ds r. putDay r ds) [] rs"

definition recordsFor ::
  "'a attendance_state_scheme \<Rightarrow> id \<Rightarrow> date \<Rightarrow> date \<Rightarrow> (id \<times> attendance_record) list \<times> daily_summary list" where
  "recordsFor s e a b =
     (let rs = sort_key (\<lambda>(_, r). ar_clockIn r)
            (List.filter (\<lambda>(_, r). ar_employeeId r = e \<and> a \<le> ar_date r \<and> ar_date r \<le> b) (recordsT s))
      in (rs, dailyOf (List.map snd rs)))"

record monthly_row =
  mo_employeeId :: id
  mo_employeeNumber :: string
  mo_fullName :: string
  mo_department :: string
  mo_daysPresent :: nat
  mo_workedMinutes :: int
  mo_leaveDays :: rat
  mo_autoClosedSessions :: nat

text \<open>The month is a year and a number from 1 to 12; \<open>Date.UTC(y, m, 0)\<close> is its last day.\<close>

definition lastDayOfMonth :: "int \<Rightarrow> int \<Rightarrow> date" where
  "lastDayOfMonth y m = dayNum y m (monthLen y m)"

definition departmentName :: "'a attendance_state_scheme \<Rightarrow> employee \<Rightarrow> string" where
  "departmentName s e = (case lookup (departmentsT s) (e_departmentId e) of None \<Rightarrow> [] | Some d \<Rightarrow> d_name d)"

definition monthlyRow :: "'a attendance_state_scheme \<Rightarrow> date \<Rightarrow> date \<Rightarrow> id \<times> employee \<Rightarrow> monthly_row" where
  "monthlyRow s a b = (\<lambda>(k, e).
     let att = List.filter (\<lambda>r. ar_employeeId r = k \<and> a \<le> ar_date r \<and> ar_date r \<le> b) (rows (recordsT s));
         lv = List.filter (\<lambda>l. lr_employeeId l = k \<and> lr_status l = APPROVED \<and> lr_startDate l \<le> b \<and> a \<le> lr_endDate l)
                (rows (requestsT s))
     in \<lparr>mo_employeeId = k, mo_employeeNumber = e_employeeNumber e, mo_fullName = fullName e,
         mo_department = departmentName s e, mo_daysPresent = length (remdups (List.map ar_date att)),
         mo_workedMinutes = sum_list (List.map (\<lambda>r. patched 0 (ar_workedMinutes r)) att),
         mo_leaveDays = sum_list (List.map lr_days lv),
         mo_autoClosedSessions = length (List.filter ar_autoClosed att)\<rparr>)"

definition monthlyReport ::
  "int \<Rightarrow> int \<Rightarrow> id option \<Rightarrow> id list option \<Rightarrow> 'a attendance_state_scheme \<Rightarrow> monthly_row list" where
  "monthlyReport y m dept ids s =
     List.map (monthlyRow s (dayNum y m 1) (lastDayOfMonth y m))
       (sort_key (\<lambda>(_, e). e_lastName e)
         (List.filter (\<lambda>(k, e). employed e \<and> lookup (departmentsT s) (e_departmentId e) \<noteq> None \<and>
            dept \<in> {None, Some (e_departmentId e)} \<and> (case ids of None \<Rightarrow> True | Some js \<Rightarrow> k \<in> set js)) (employeesT s)))"

section \<open>The hourly job\<close>

definition staleSession :: "int \<Rightarrow> attendance_record \<Rightarrow> bool" where
  "staleSession now r \<longleftrightarrow> isOpen r \<and> ar_clockIn r < now - MAX_SESSION_HOURS * 3600000"

definition closeStale :: "attendance_record \<Rightarrow> attendance_record" where
  "closeStale r = r\<lparr>ar_clockOut := Some (ar_clockIn r + MAX_SESSION_HOURS * 3600000),
     ar_workedMinutes := Some (MAX_SESSION_HOURS * 60), ar_autoClosed := True,
     ar_note := Some (case ar_note r of
        None \<Rightarrow> ''[auto-closed: forgot to clock out]''
      | Some n \<Rightarrow> if n = [] then ''[auto-closed: forgot to clock out]'' else n @ CHR 0x0A # ''[auto-closed]'')\<rparr>"

text \<open>The rows are saved together: one that does not fit fails them all.\<close>

definition autoCloseStaleSessions ::
  "int \<Rightarrow> 'a attendance_state_scheme \<Rightarrow> (nat \<times> 'a attendance_state_scheme) res" where
  "autoCloseStaleSessions now s =
     (let stale = List.filter (staleSession now) (rows (recordsT s))
      in throwIf (\<not> list_all (\<lambda>r. noteFits (closeStale r)) stale) (InternalError ''QueryFailedError'')
         (Inr (length stale, s\<lparr>recordsT := updateWhere (staleSession now) closeStale (recordsT s)\<rparr>)))"

definition processAttendanceJob ::
  "int \<Rightarrow> string \<Rightarrow> 'a attendance_state_scheme \<Rightarrow> (nat \<times> 'a attendance_state_scheme) res" where
  "processAttendanceJob now name s =
     throwIf (name \<noteq> ''auto-close'') (InternalError ''Unknown attendance job'') (autoCloseStaleSessions now s)"

section \<open>The controller\<close>

definition clockInMe ::
  "id \<Rightarrow> string option \<Rightarrow> auth_user \<Rightarrow> int \<Rightarrow> 'a attendance_state_scheme \<Rightarrow> 'a attendance_state_scheme res" where
  "clockInMe k note actor now s = bindE (requireProfile actor s) (\<lambda>me. clockIn k me note now s)"

definition clockOutMe ::
  "string option \<Rightarrow> auth_user \<Rightarrow> int \<Rightarrow> 'a attendance_state_scheme \<Rightarrow> 'a attendance_state_scheme res" where
  "clockOutMe note actor now s = bindE (requireProfile actor s) (\<lambda>me. clockOut me note now s)"

definition attendanceRange :: "date option \<Rightarrow> date option \<Rightarrow> date \<Rightarrow> date \<times> date" where
  "attendanceRange qfrom qto today =
     (let t = patched today qto in (patched (addDays t (-30)) qfrom, t))"

definition assertAttendanceAccess :: "id \<Rightarrow> auth_user \<Rightarrow> 'a attendance_state_scheme \<Rightarrow> unit res" where
  "assertAttendanceAccess k actor s =
     (if ATTENDANCE_MANAGE \<in> set (au_permissions actor) then Inr ()
      else bindE (requireProfile actor s) (\<lambda>me.
        throwIf (\<not> isInReportingChain s me k) (Forbidden ''Not your report'') (Inr ())))"

definition myAttendance ::
  "date option \<Rightarrow> date option \<Rightarrow> auth_user \<Rightarrow> int \<Rightarrow> 'a attendance_state_scheme
     \<Rightarrow> ((id \<times> attendance_record) option \<times> (id \<times> attendance_record) list \<times> daily_summary list) res" where
  "myAttendance qfrom qto actor now s = bindE (requireProfile actor s) (\<lambda>me.
     let (a, b) = attendanceRange qfrom qto (dayOfMs now) in Inr (openSession s me, recordsFor s me a b))"

definition employeeAttendance ::
  "id \<Rightarrow> date option \<Rightarrow> date option \<Rightarrow> auth_user \<Rightarrow> int \<Rightarrow> 'a attendance_state_scheme
     \<Rightarrow> ((id \<times> attendance_record) list \<times> daily_summary list) res" where
  "employeeAttendance e qfrom qto actor now s = bindE (assertAttendanceAccess e actor s) (\<lambda>_.
     let (a, b) = attendanceRange qfrom qto (dayOfMs now) in Inr (recordsFor s e a b))"

definition attendanceReport ::
  "int \<Rightarrow> int \<Rightarrow> id option \<Rightarrow> auth_user \<Rightarrow> 'a attendance_state_scheme \<Rightarrow> monthly_row list res" where
  "attendanceReport y m dept actor s =
     (if ATTENDANCE_MANAGE \<in> set (au_permissions actor) then Inr (monthlyReport y m dept None s)
      else bindE (requireProfile actor s) (\<lambda>me.
        Inr (monthlyReport y m None (Some (List.map fst (directReports s me))) s)))"

end
