(* ===== verification/AttendProps.thy ===== *)
theory AttendProps
  imports Attendance LeaveCases
begin

text \<open>
  Attendance over any history: one open session per person, hours that match the clock, forgotten
  sessions closed; daily totals against their specification; and where the code departs from them.
\<close>

section \<open>The invariant\<close>

definition consistent :: "attendance_record \<Rightarrow> bool" where
  "consistent r \<longleftrightarrow> ar_date r = dayOfMs (ar_clockIn r) \<and>
     ar_workedMinutes r = map_option (minutesBetween (ar_clockIn r)) (ar_clockOut r) \<and>
     (ar_autoClosed r \<longrightarrow> ar_clockOut r = Some (ar_clockIn r + 57600000))"

definition bothOpen :: "attendance_record \<Rightarrow> attendance_record \<Rightarrow> bool" where
  "bothOpen r q \<longleftrightarrow> ar_employeeId r = ar_employeeId q \<and> isOpen r \<and> isOpen q"

definition attendInv :: "'a attendance_state_scheme \<Rightarrow> bool" where
  "attendInv s \<longleftrightarrow> keyed (recordsT s) \<and> uniqueBy bothOpen (recordsT s) \<and>
     (\<forall>k r. lookup (recordsT s) k = Some r \<longrightarrow> consistent r)"

lemma attendInv_D: "attendInv s \<Longrightarrow> lookup (recordsT s) k = Some r \<Longrightarrow> consistent r"
  by (simp add: attendInv_def)

lemma attendInv_open: "attendInv s \<Longrightarrow> uniqueBy bothOpen (recordsT s)"
  by (simp add: attendInv_def)

lemma attendInv_keyed: "attendInv s \<Longrightarrow> keyed (recordsT s)"
  by (simp add: attendInv_def)

lemma sort_key_Nil: "sort_key f xs = [] \<longleftrightarrow> xs = []"
  by (metis length_0_conv length_sort)

lemma openSession_None:
  "openSession s e = None \<longleftrightarrow> (\<forall>(k, r)\<in>set (recordsT s). ar_employeeId r = e \<longrightarrow> \<not> isOpen r)"
proof -
  have c: "(case l of [] \<Rightarrow> None | x # _ \<Rightarrow> Some x) = None \<longleftrightarrow> l = []" for l :: "(id \<times> attendance_record) list"
    by (cases l) auto
  show ?thesis unfolding openSession_def c sort_key_Nil filter_empty_conv by auto
qed

lemma openSession_Some:
  assumes "keyed (recordsT s)" "openSession s e = Some (k, r)"
  shows "lookup (recordsT s) k = Some r \<and> ar_employeeId r = e \<and> isOpen r"
proof -
  let ?l = "sort_key (\<lambda>(_, r). - ar_clockIn r) (List.filter (\<lambda>(_, r). ar_employeeId r = e \<and> isOpen r) (recordsT s))"
  obtain xs where "?l = (k, r) # xs" using assms(2) by (auto simp: openSession_def split: list.splits)
  then have "(k, r) \<in> set ?l" by simp
  then show ?thesis using keyed_lookup [OF assms(1)] by auto
qed

lemma no_open: "openSession s e = None \<Longrightarrow> lookup (recordsT s) k = Some r \<Longrightarrow> ar_employeeId r = e \<Longrightarrow> \<not> isOpen r"
  unfolding openSession_None lookup_def by (fastforce dest: map_of_SomeD)

lemma insertRecord_inv:
  assumes i: "attendInv s" and k: "k \<notin> set (keys (recordsT s))" and c: "consistent r"
    and o': "isOpen r \<Longrightarrow> \<forall>x. openSession s (ar_employeeId r) \<noteq> Some x" and u: "insertRecord k r s = Inr t"
  shows "attendInv t"
proof -
  have t: "recordsT t = insertRow k r (recordsT s)" using u by (auto simp: insertRecord_def throwIf_Inr_iff)
  have "uniqueBy bothOpen (insertRow k r (recordsT s))"
  proof (rule uniqueBy_insert [OF attendInv_open [OF i] k])
    fix j q assume "lookup (recordsT s) j = Some q"
    then show "\<not> bothOpen q r \<and> \<not> bothOpen r q" using o' no_open by (metis bothOpen_def not_Some_eq)
  qed
  then show ?thesis
    using attendInv_D [OF i] attendInv_keyed [OF i] k c
    by (auto simp: attendInv_def t lookup_insertRow split: if_splits)
qed

lemma saveRecord_inv:
  assumes i: "attendInv s" and l: "lookup (recordsT s) k = Some q" and c: "consistent r"
    and o': "\<And>j p. isOpen r \<Longrightarrow> j \<noteq> k \<Longrightarrow> lookup (recordsT s) j = Some p \<Longrightarrow> ar_employeeId p = ar_employeeId r \<Longrightarrow> \<not> isOpen p"
    and u: "saveRecord k r s = Inr t"
  shows "attendInv t"
proof -
  have t: "recordsT t = updateRow k (\<lambda>_. r) (recordsT s)" using u by (auto simp: saveRecord_def throwIf_Inr_iff)
  have "uniqueBy bothOpen (updateRow k (\<lambda>_. r) (recordsT s))"
    by (rule uniqueBy_updateRow [OF attendInv_open [OF i]]) (metis o' bothOpen_def)
  then show ?thesis
    using attendInv_D [OF i] attendInv_keyed [OF i] l c
    by (auto simp: attendInv_def t lookup_updateRow split: if_splits)
qed

lemma not_Some_pair: "(\<forall>a b. m \<noteq> Some (a, b)) \<longleftrightarrow> m = None"
  by (cases m) auto

lemma clockIn_inv:
  assumes "attendInv s" "clockIn k e note now s = Inr t" "k \<notin> set (keys (recordsT s))"
  shows "attendInv t"
  using assms by (auto simp: clockIn_def throwIf_Inr_iff consistent_def isOpen_def not_Some_pair elim!: insertRecord_inv [rotated 4])

lemma clockOut_inv:
  assumes i: "attendInv s" and u: "clockOut e note now s = Inr t"
  shows "attendInv t"
proof -
  obtain k r q where o': "openSession s e = Some (k, r)" and sv: "saveRecord k q s = Inr t"
    and q: "ar_employeeId q = ar_employeeId r" "ar_clockIn q = ar_clockIn r" "ar_clockOut q = Some now"
      "ar_date q = ar_date r" "ar_autoClosed q = ar_autoClosed r" "ar_workedMinutes q = Some (minutesBetween (ar_clockIn r) now)"
    using u by (fastforce simp: clockOut_def orThrow_Inr_iff Let_def split: if_splits)
  note l = openSession_Some [OF attendInv_keyed [OF i] o']
  have "consistent r" using attendInv_D [OF i] l by blast
  then have "consistent q" using q l by (auto simp: consistent_def isOpen_def)
  then show ?thesis using l q by (intro saveRecord_inv [OF i _ _ _ sv]) (auto simp: isOpen_def)
qed

lemma createManual_inv:
  assumes "attendInv s" "createManual k dto a s = Inr t" "k \<notin> set (keys (recordsT s))"
  shows "attendInv t"
  using assms
  by (auto simp: createManual_def bindE_Inr_iff throwIf_Inr_iff Let_def consistent_def isOpen_def not_Some_pair
      elim!: insertRecord_inv [rotated 4])

text \<open>A correction may not reopen a session beside another one: the code does not check it (below).\<close>

definition reopens :: "'a attendance_state_scheme \<Rightarrow> id \<Rightarrow> update_record_dto \<Rightarrow> bool" where
  "reopens s k dto \<longleftrightarrow> ur_clockOut dto = Some None \<and>
     (\<exists>r j q. lookup (recordsT s) k = Some r \<and> lookup (recordsT s) j = Some q \<and> j \<noteq> k \<and>
        ar_employeeId q = ar_employeeId r \<and> isOpen q)"

lemma updateRecord_inv:
  assumes i: "attendInv s" and u: "updateRecord k dto s = Inr t" and n: "\<not> reopens s k dto"
  shows "attendInv t"
proof -
  obtain r where l: "lookup (recordsT s) k = Some r" using u by (auto simp: updateRecord_def recordById_def res_simps)
  define co where "co = patched (map_option Some (ar_clockOut r)) (ur_clockOut dto)"
  define q where "q = r\<lparr>ar_clockIn := the (patched (Some (ar_clockIn r)) (ur_clockIn dto)),
     ar_clockOut := (case co of None \<Rightarrow> None | Some b \<Rightarrow> b), ar_note := patched (ar_note r) (ur_note dto),
     ar_date := dayOfMs (the (patched (Some (ar_clockIn r)) (ur_clockIn dto))),
     ar_workedMinutes := map_option (minutesBetween (the (patched (Some (ar_clockIn r)) (ur_clockIn dto))))
       (case co of None \<Rightarrow> None | Some b \<Rightarrow> b), ar_source := MANUAL, ar_autoClosed := False\<rparr>"
  have sv: "saveRecord k q s = Inr t" and rg: "assertRange (patched (Some (ar_clockIn r)) (ur_clockIn dto)) co = Inr ()"
    using u l unfolding updateRecord_def recordById_def Let_def q_def co_def by (auto simp: bindE_Inr_iff)
  have op: "isOpen q \<longrightarrow> ur_clockOut dto = Some None \<or> isOpen r"
    using rg by (auto simp: q_def isOpen_def co_def patched_def assertRange_def orThrow_def split: option.splits)
  show ?thesis
  proof (rule saveRecord_inv [OF i l _ _ sv])
    show "consistent q" by (simp add: consistent_def q_def)
    fix j p assume a: "isOpen q" "j \<noteq> k" "lookup (recordsT s) j = Some p" "ar_employeeId p = ar_employeeId q"
    have e: "ar_employeeId q = ar_employeeId r" by (simp add: q_def)
    show "\<not> isOpen p"
    proof
      assume "isOpen p"
      moreover have "isOpen r" using op a n l e \<open>isOpen p\<close> unfolding reopens_def by metis
      ultimately show False using uniqueByD [OF attendInv_open [OF i] a(3) l] a e by (simp add: bothOpen_def)
    qed
  qed
qed

lemma lookup_filtered: "keyed T \<Longrightarrow> lookup (deleteRow k T) j = Some r \<Longrightarrow> lookup T j = Some r"
  by (simp add: lookup_deleteRow split: if_splits)

lemma removeRecord_inv:
  assumes i: "attendInv s" and u: "removeRecord k s = Inr t"
  shows "attendInv t"
proof -
  have t: "recordsT t = deleteRow k (recordsT s)" using u by (auto simp: removeRecord_def bindE_Inr_iff)
  have "uniqueBy bothOpen (deleteRow k (recordsT s))"
    by (rule uniqueBy_orig [OF attendInv_open [OF i]]) (metis lookup_filtered attendInv_keyed [OF i])
  then show ?thesis
    using attendInv_D [OF i] attendInv_keyed [OF i] by (auto simp: attendInv_def t keyed_deleteRow dest: lookup_filtered)
qed

lemma sixteen_hours: "minutesBetween a (a + 57600000) = 960"
proof -
  have "ddiv 57600000 60000 = (960 :: rat)" using fl_of_int [of 960] by (simp add: ddiv_def)
  then show ?thesis using jsRound_of_int [of 960] by (simp add: minutesBetween_def)
qed

lemma closeStale_consistent: "consistent r \<Longrightarrow> consistent (closeStale r)"
  by (simp add: consistent_def closeStale_def sixteen_hours MAX_SESSION_HOURS_def)

lemma closeStale_closed: "\<not> isOpen (closeStale r)"
  by (simp add: closeStale_def isOpen_def)

lemma autoClose_inv:
  assumes i: "attendInv s" and u: "autoCloseStaleSessions now s = Inr (n, t)"
  shows "attendInv t"
proof -
  have t: "recordsT t = updateWhere (staleSession now) closeStale (recordsT s)"
    using u by (auto simp: autoCloseStaleSessions_def Let_def throwIf_Inr_iff)
  have l: "\<exists>r. lookup (recordsT s) k = Some r \<and> q = (if staleSession now r then closeStale r else r)"
    if "lookup (recordsT t) k = Some q" for k q
    using that by (auto simp: t lookup_updateWhere)
  have "uniqueBy bothOpen (recordsT t)"
  proof (rule uniqueBy_orig [OF attendInv_open [OF i]])
    fix j r k q assume "lookup (recordsT t) j = Some r" "lookup (recordsT t) k = Some q" "bothOpen r q"
    then show "\<exists>r' q'. lookup (recordsT s) j = Some r' \<and> lookup (recordsT s) k = Some q' \<and> bothOpen r' q'"
      using l [of j r] l [of k q] closeStale_closed by (auto simp: bothOpen_def split: if_splits)
  qed
  moreover have "consistent q" if "lookup (recordsT t) k = Some q" for k q
    using l [OF that] attendInv_D [OF i] closeStale_consistent by fastforce
  ultimately show ?thesis using attendInv_keyed [OF i] by (simp add: attendInv_def t)
qed

lemma autoClose_leaves_none:
  assumes "autoCloseStaleSessions now s = Inr (n, t)" "r \<in> set (rows (recordsT t))" "isOpen r"
  shows "now - 57600000 \<le> ar_clockIn r"
  using assms closeStale_closed
  by (auto simp: autoCloseStaleSessions_def Let_def throwIf_Inr_iff rows_updateWhere staleSession_def MAX_SESSION_HOURS_def
      split: if_splits)

section \<open>The life of the records\<close>

inductive attendStep :: "'a attendance_state_scheme \<Rightarrow> 'a attendance_state_scheme \<Rightarrow> bool" where
  clocked_in: "clockIn k e note now s = Inr t \<Longrightarrow> k \<notin> set (keys (recordsT s)) \<Longrightarrow> attendStep s t"
| clocked_out: "clockOut e note now s = Inr t \<Longrightarrow> attendStep s t"
| entered: "createManual k md actor s = Inr t \<Longrightarrow> k \<notin> set (keys (recordsT s)) \<Longrightarrow> attendStep s t"
| corrected: "updateRecord k ur s = Inr t \<Longrightarrow> \<not> reopens s k ur \<Longrightarrow> attendStep s t"
| removed: "removeRecord k s = Inr t \<Longrightarrow> attendStep s t"
| auto_closed: "autoCloseStaleSessions now s = Inr (n, t) \<Longrightarrow> attendStep s t"
| elsewhere: "recordsT t = recordsT s \<Longrightarrow> attendStep s t"

lemma attendInv_cong: "recordsT t = recordsT s \<Longrightarrow> attendInv t = attendInv s"
  by (simp add: attendInv_def)

lemma attendStep_inv: "attendInv s \<Longrightarrow> attendStep s t \<Longrightarrow> attendInv t"
  by (erule attendStep.cases)
    (auto intro: clockIn_inv clockOut_inv createManual_inv updateRecord_inv removeRecord_inv autoClose_inv
      dest: attendInv_cong)

definition noRecords :: "'a attendance_state_scheme \<Rightarrow> bool" where
  "noRecords s \<longleftrightarrow> recordsT s = []"

interpretation attendance: step_system noRecords attendStep attendInv
  by unfold_locales (simp add: attendInv_def noRecords_def keyed_def keys_def lookup_def, erule (1) attendStep_inv)

definition attendReachable :: "'a attendance_state_scheme \<Rightarrow> bool" where
  "attendReachable t \<longleftrightarrow> (\<exists>s. noRecords s \<and> attendStep\<^sup>*\<^sup>* s t)"

lemma attend_reachable_inv: "attendReachable s \<Longrightarrow> attendInv s"
  unfolding attendReachable_def using attendance.reach_inv by blast



section \<open>Daily totals\<close>

definition dayEntry :: "attendance_record list \<Rightarrow> date \<Rightarrow> daily_summary" where
  "dayEntry rs d = (let own = List.filter (\<lambda>r. ar_date r = d) rs
     in \<lparr>ds_date = d, ds_workedMinutes = sum_list (List.map (\<lambda>r. patched 0 (ar_workedMinutes r)) own),
         ds_sessions = length own, ds_hasOpenSession = list_ex isOpen own\<rparr>)"

text \<open>The days in the order of their first record.\<close>

definition daysOf :: "attendance_record list \<Rightarrow> date list" where
  "daysOf rs = rev (remdups (rev (List.map ar_date rs)))"

lemma set_daysOf: "set (daysOf rs) = ar_date ` set rs"
  by (simp add: daysOf_def)

lemma sum_list_mset: "mset xs = mset ys \<Longrightarrow> sum_list (List.map f xs) = (sum_list (List.map f ys) :: int)"
  by (metis mset_map sum_mset_sum_list)

lemma daysOf_snoc: "daysOf (rs @ [r]) = (if ar_date r \<in> set (daysOf rs) then daysOf rs else daysOf rs @ [ar_date r])"
  by (simp add: daysOf_def)

lemma dayEntry_snoc: "dayEntry (rs @ [r]) d = (if ar_date r = d then countRecord r (dayEntry rs d) else dayEntry rs d)"
  by (simp add: dayEntry_def Let_def countRecord_def)

lemma putDay_absent: "ar_date r \<notin> set (List.map ds_date ds) \<Longrightarrow>
    putDay r ds = ds @ [countRecord r \<lparr>ds_date = ar_date r, ds_workedMinutes = 0, ds_sessions = 0, ds_hasOpenSession = False\<rparr>]"
  by (induction ds) auto

lemma putDay_present: "distinct (List.map ds_date ds) \<Longrightarrow> ar_date r \<in> set (List.map ds_date ds) \<Longrightarrow>
    putDay r ds = List.map (\<lambda>d. if ds_date d = ar_date r then countRecord r d else d) ds"
proof (induction ds)
  case (Cons d ds)
  show ?case
  proof (cases "ds_date d = ar_date r")
    case True
    then have "ds_date x \<noteq> ar_date r" if "x \<in> set ds" for x using Cons.prems(1) that by force
    then have "List.map (\<lambda>d. if ds_date d = ar_date r then countRecord r d else d) ds = List.map (\<lambda>d. d) ds"
      by (intro map_cong) auto
    then show ?thesis using True by simp
  next
    case False
    then show ?thesis using Cons by auto
  qed
qed simp

lemma dayEntry_date [simp]: "ds_date (dayEntry rs d) = d"
  by (simp add: dayEntry_def Let_def)

lemma dailyOf_spec: "dailyOf rs = List.map (dayEntry rs) (daysOf rs)"
proof (induction rs rule: rev_induct)
  case Nil
  then show ?case by (simp add: dailyOf_def daysOf_def)
next
  case (snoc r rs)
  have step: "dailyOf (rs @ [r]) = putDay r (List.map (dayEntry rs) (daysOf rs))"
    using snoc by (simp add: dailyOf_def)
  have dates: "List.map ds_date (List.map (dayEntry rs) (daysOf rs)) = daysOf rs" by (simp add: comp_def)
  show ?case
  proof (cases "ar_date r \<in> set (daysOf rs)")
    case True
    have "distinct (daysOf rs)" by (simp add: daysOf_def)
    then have "putDay r (List.map (dayEntry rs) (daysOf rs)) =
        List.map (\<lambda>d. if ds_date d = ar_date r then countRecord r d else d) (List.map (dayEntry rs) (daysOf rs))"
      using True by (intro putDay_present) (simp_all only: dates)
    then show ?thesis using True step by (auto simp: daysOf_snoc dayEntry_snoc)
  next
    case False
    then have "ar_date r \<notin> set (List.map ds_date (List.map (dayEntry rs) (daysOf rs)))" by (simp only: dates) simp
    then have "dailyOf (rs @ [r]) = List.map (dayEntry rs) (daysOf rs) @
        [countRecord r \<lparr>ds_date = ar_date r, ds_workedMinutes = 0, ds_sessions = 0, ds_hasOpenSession = False\<rparr>]"
      unfolding step by (rule putDay_absent)
    moreover have "dayEntry rs (ar_date r) = \<lparr>ds_date = ar_date r, ds_workedMinutes = 0, ds_sessions = 0, ds_hasOpenSession = False\<rparr>"
    proof -
      have "List.filter (\<lambda>q. ar_date q = ar_date r) rs = []"
        using False unfolding set_daysOf filter_empty_conv by (metis image_eqI)
      then show ?thesis by (simp add: dayEntry_def)
    qed
    ultimately show ?thesis using False by (auto simp: daysOf_snoc dayEntry_snoc)
  qed
qed


lemma daysOf_sorted:
  assumes "sorted (List.map g rs)" "\<And>r. r \<in> set rs \<Longrightarrow> ar_date r = dayOfMs (g r)"
  shows "sorted (daysOf rs)"
  using assms
proof (induction rs rule: rev_induct)
  case (snoc r rs)
  have "d \<le> ar_date r" if dd: "d \<in> set (daysOf rs)" for d
  proof -
    obtain q where "q \<in> set rs" "d = ar_date q" using dd by (auto simp: daysOf_def)
    then have "g q \<le> g r" using snoc.prems(1) by (auto simp: sorted_append)
    then show ?thesis using snoc.prems(2) \<open>d = ar_date q\<close> \<open>q \<in> set rs\<close> by (simp add: dayOfMs_def zdiv_mono1)
  qed
  moreover have "sorted (daysOf rs)" using snoc by (simp add: sorted_append)
  ultimately show ?case by (auto simp: daysOf_snoc sorted_append)
qed (simp add: daysOf_def)

text \<open>
  C27. The daily totals are the totals of the days. In every reachable state, the daily list
  \<open>recordsFor\<close> builds in one pass has each day with a session in the range exactly once, in ascending
  order, with the number of its sessions, the sum of their minutes and whether one is open.
\<close>

theorem daily_totals_exact:
  assumes "attendReachable s"
  shows "let own = List.filter (\<lambda>r. ar_employeeId r = e \<and> a \<le> ar_date r \<and> ar_date r \<le> b) (rows (recordsT s));
      daily = snd (recordsFor s e a b)
    in sorted_wrt (<) (List.map ds_date daily) \<and> set (List.map ds_date daily) = ar_date ` set own \<and>
      (\<forall>d\<in>set daily. \<exists>day. day = List.filter (\<lambda>r. ar_date r = ds_date d) own \<and>
         ds_sessions d = length day \<and> ds_workedMinutes d = sum_list (List.map (\<lambda>r. patched 0 (ar_workedMinutes r)) day) \<and>
         ds_hasOpenSession d = list_ex isOpen day)"
proof -
  have i: "attendInv s" by (rule attend_reachable_inv [OF assms])
  let ?P = "\<lambda>r. ar_employeeId r = e \<and> a \<le> ar_date r \<and> ar_date r \<le> b"
  define own where "own = List.filter ?P (rows (recordsT s))"
  define rs where "rs = sort_key (\<lambda>(_, r). ar_clockIn r) (List.filter (\<lambda>(_, r). ?P r) (recordsT s))"
  have own: "own = List.map snd (List.filter (\<lambda>(_, r). ?P r) (recordsT s))"
    by (simp add: own_def rows_def filter_map comp_def case_prod_unfold)
  have ms: "mset (List.map snd rs) = mset own" by (simp add: own rs_def)
  have dl: "snd (recordsFor s e a b) = List.map (dayEntry (List.map snd rs)) (daysOf (List.map snd rs))"
    by (simp add: recordsFor_def rs_def dailyOf_spec Let_def)
  have st: "set (List.map snd rs) = set own" using ms by (metis mset_eq_setD)
  have cons: "ar_date r = dayOfMs (ar_clockIn r)" if "r \<in> set own" for r
    using that rows_lookup [OF attendInv_keyed [OF i]] attendInv_D [OF i] by (fastforce simp: own_def consistent_def)
  have "sorted (List.map (\<lambda>(_, r). ar_clockIn r) rs)" unfolding rs_def by (rule sorted_sort_key)
  then have "sorted (List.map ar_clockIn (List.map snd rs))" by (simp add: comp_def case_prod_unfold)
  then have "sorted (daysOf (List.map snd rs))" by (rule daysOf_sorted) (use cons st in blast)
  then have so: "sorted_wrt (<) (daysOf (List.map snd rs))"
    by (simp add: strict_sorted_iff daysOf_def)
  have day: "mset (List.filter (\<lambda>r. ar_date r = d) (List.map snd rs)) = mset (List.filter (\<lambda>r. ar_date r = d) own)" for d
    using ms by (metis mset_filter)
  have en: "ds_sessions (dayEntry (List.map snd rs) d) = length (List.filter (\<lambda>r. ar_date r = d) own)"
    "ds_workedMinutes (dayEntry (List.map snd rs) d) =
      sum_list (List.map (\<lambda>r. patched 0 (ar_workedMinutes r)) (List.filter (\<lambda>r. ar_date r = d) own))"
    "ds_hasOpenSession (dayEntry (List.map snd rs) d) = list_ex isOpen (List.filter (\<lambda>r. ar_date r = d) own)" for d
  proof -
    show "ds_sessions (dayEntry (List.map snd rs) d) = length (List.filter (\<lambda>r. ar_date r = d) own)"
      using mset_eq_length [OF day] by (simp add: dayEntry_def Let_def)
    show "ds_workedMinutes (dayEntry (List.map snd rs) d) =
        sum_list (List.map (\<lambda>r. patched 0 (ar_workedMinutes r)) (List.filter (\<lambda>r. ar_date r = d) own))"
      unfolding dayEntry_def Let_def daily_summary.simps by (rule sum_list_mset [OF day])
    show "ds_hasOpenSession (dayEntry (List.map snd rs) d) = list_ex isOpen (List.filter (\<lambda>r. ar_date r = d) own)"
      using mset_eq_setD [OF day [of d]] by (simp add: dayEntry_def Let_def list_ex_iff)
  qed
  have "sorted_wrt (<) (List.map ds_date (snd (recordsFor s e a b)))" using so by (simp add: dl comp_def)
  moreover have "set (List.map ds_date (snd (recordsFor s e a b))) = ar_date ` set own"
  proof -
    have "set (List.map ds_date (snd (recordsFor s e a b))) = set (daysOf (List.map snd rs))" by (simp add: dl comp_def)
    then show ?thesis unfolding set_daysOf st .
  qed
  moreover have "\<forall>d\<in>set (snd (recordsFor s e a b)). \<exists>day. day = List.filter (\<lambda>r. ar_date r = ds_date d) own \<and>
         ds_sessions d = length day \<and> ds_workedMinutes d = sum_list (List.map (\<lambda>r. patched 0 (ar_workedMinutes r)) day) \<and>
         ds_hasOpenSession d = list_ex isOpen day"
    by (auto simp: dl en)
  ultimately show ?thesis by (simp add: own_def Let_def)
qed


section \<open>Witnesses\<close>

definition demoAttend :: "attendance_record table \<Rightarrow> attendance_state" where
  "demoAttend T = leave_state.extend demoDesk (attendance_state.fields T)"

lemma demo_attend_records [simp]: "recordsT (demoAttend T) = T"
  by (simp add: demoAttend_def leave_state.defs attendance_state.defs)

text \<open>Ben (2) comes at eight on 1 January 2026 and goes at five.\<close>

definition demoIn :: int where "demoIn = dayNum 2026 1 1 * 86400000 + 8 * 3600000"

definition demoSession :: "int option \<Rightarrow> string option \<Rightarrow> attendance_record" where
  "demoSession co n = \<lparr>ar_employeeId = 2, ar_date = dayOfMs demoIn, ar_clockIn = demoIn, ar_clockOut = co,
     ar_workedMinutes = map_option (minutesBetween demoIn) co, ar_source = CLOCK, ar_autoClosed = False, ar_note = n,
     ar_createdByUserId = None\<rparr>"

definition demoPresent :: attendance_state where
  "demoPresent = demoAttend [(1, demoSession (Some (demoIn + 9 * 3600000)) None)]"

lemma demo_attend_update: "(demoAttend T)\<lparr>recordsT := U\<rparr> = demoAttend U"
  by (simp add: demoAttend_def leave_state.defs attendance_state.defs)

lemma demo_present_reachable: "attendReachable demoPresent"
proof -
  have i: "clockIn 1 2 None demoIn (demoAttend []) = Inr (demoAttend [(1, demoSession None None)])"
    by (simp add: clockIn_def openSession_def insertRecord_def noteFits_def insertRow_def demoSession_def demo_attend_update)
  have f: "\<not> reopens (demoAttend []) 1 x" for x by (simp add: reopens_def lookup_def)
  have "clockOut 2 None (demoIn + 9 * 3600000) (demoAttend [(1, demoSession None None)]) = Inr demoPresent"
    by (simp add: clockOut_def openSession_def saveRecord_def noteFits_def updateRow_def demoSession_def isOpen_def
        demo_attend_update demoPresent_def Let_def)
  then have "attendStep (demoAttend [(1, demoSession None None)]) demoPresent" by (rule clocked_out)
  moreover have "attendStep (demoAttend []) (demoAttend [(1, demoSession None None)])"
    by (rule clocked_in [OF i]) (simp add: keys_def)
  moreover have "noRecords (demoAttend [])" by (simp add: noRecords_def)
  ultimately show ?thesis unfolding attendReachable_def by (meson rtranclp.rtrancl_into_rtrancl rtranclp.rtrancl_refl)
qed


theorem daily_totals_exact_witness:
  "List.map ds_date (snd (recordsFor demoPresent 2 0 30000)) = [dayNum 2026 1 1]"
proof -
  have "rows (recordsT demoPresent) = [demoSession (Some (demoIn + 9 * 3600000)) None]" by (simp add: demoPresent_def rows_def)
  moreover have "ar_employeeId (demoSession x n) = 2" "ar_date (demoSession x n) = dayNum 2026 1 1"
    "dayNum 2026 1 1 \<in> {0..30000}" for x n
    by (simp_all add: demoSession_def dayOfMs_def demoIn_def dayNum_def yearStart_def cumDays_def)
  ultimately have "set (List.map ds_date (snd (recordsFor demoPresent 2 0 30000))) = {dayNum 2026 1 1}"
    "sorted_wrt (<) (List.map ds_date (snd (recordsFor demoPresent 2 0 30000)))"
    using daily_totals_exact [OF demo_present_reachable, of 2 0 30000] by (simp_all add: Let_def)
  then show ?thesis using strict_sorted_equal [of "[dayNum 2026 1 1]"] by simp
qed

section \<open>Where the code departs\<close>

text \<open>
  A correction that clears the clock-out of a record reopens it whether or not the person has another
  open session, so there can be two.
\<close>

theorem correction_opens_second_session:
  "updateRecord 1 \<lparr>ur_clockIn = None, ur_clockOut = Some None, ur_note = None\<rparr>
     (demoAttend [(1, demoSession (Some (demoIn + 60000)) None), (2, demoSession None None)])
   = Inr (demoAttend [(1, (demoSession None None)\<lparr>ar_source := MANUAL\<rparr>), (2, demoSession None None)])"
  by (simp add: updateRecord_def recordById_def lookup_def Let_def patched_def assertRange_def saveRecord_def noteFits_def
      updateRow_def demo_attend_update demoSession_def)

text \<open>
  The job appends a line to the note of each session it closes and saves them together. One stale
  session with a note of 487 characters or more makes every run fail: no forgotten session of anyone
  is closed any more.
\<close>

theorem long_note_stops_auto_close:
  assumes "r \<in> set (rows (recordsT s))" "staleSession now r" "ar_note r = Some n" "487 \<le> length n"
  shows "autoCloseStaleSessions now s = Inl (InternalError ''QueryFailedError'')"
proof -
  have "\<not> noteFits (closeStale r)" using assms(3,4) by (auto simp: noteFits_def closeStale_def)
  then have "\<not> list_all (\<lambda>r. noteFits (closeStale r)) (List.filter (staleSession now) (rows (recordsT s)))"
    using assms(1,2) by (auto simp: list_all_iff)
  then show ?thesis by (simp add: autoCloseStaleSessions_def throwIf_def Let_def)
qed

text \<open>
  The monthly report adds all days of every approved request that touches the month: leave over a
  month's end is counted in full in both months.
\<close>

theorem month_end_leave_counted_twice:
  assumes "rows (requestsT s) = [l]" "lr_status l = APPROVED" "lr_employeeId l = k"
    "lr_startDate l \<le> lastDayOfMonth 2026 1" "dayNum 2026 2 1 \<le> lr_endDate l"
    "dayNum 2026 1 1 \<le> lr_startDate l" "lr_endDate l \<le> lastDayOfMonth 2026 2"
  shows "mo_leaveDays (monthlyRow s (dayNum 2026 1 1) (lastDayOfMonth 2026 1) (k, e)) = lr_days l \<and>
    mo_leaveDays (monthlyRow s (dayNum 2026 2 1) (lastDayOfMonth 2026 2) (k, e)) = lr_days l"
proof -
  have "dayNum 2026 1 1 \<le> dayNum 2026 2 1" "lastDayOfMonth 2026 1 \<le> lastDayOfMonth 2026 2"
    by (simp_all add: lastDayOfMonth_def dayNum_def cumDays_def monthLen_def leap_def)
  then show ?thesis using assms by (simp add: monthlyRow_def Let_def)
qed

end
