(* ===== verification/Onboarding.thy ===== *)
theory Onboarding
  imports Attendance
begin

text \<open>
  Onboarding and offboarding (\<open>onboarding.service.ts\<close>, \<open>checklist-templates.service.ts\<close> with their
  controller, listener and processor): templates of tasks, the checklists made from them for one
  employee, the tasks' life, activation of the employee, and the daily digests. A digest is an entry of
  \<open>digests\<close> (login, tasks, day), an emitted event one of \<open>checklistEvents\<close>.
\<close>

section \<open>Rows\<close>

datatype checklist_type = ONBOARDING | OFFBOARDING

datatype assignee_rule = EMPLOYEE | MANAGER | HR | ROLE

datatype task_status = PENDING | IN_PROGRESS | DONE | SKIPPED

datatype checklist_status = IN_PROGRESS | COMPLETED | CANCELLED

record checklist_template =
  tp_name :: string
  tp_type :: checklist_type
  tp_description :: "string option"
  tp_departmentId :: "id option"
  tp_isActive :: bool

record template_item =
  ti_templateId :: id
  ti_title :: string
  ti_description :: "string option"
  ti_assigneeRule :: assignee_rule
  ti_assigneeRoleName :: "string option"
  ti_dueOffsetDays :: int
  ti_sortOrder :: nat
  ti_isRequired :: bool

record checklist =
  ck_employeeId :: id
  ck_templateId :: "id option"
  ck_type :: checklist_type
  ck_status :: checklist_status
  ck_anchorDate :: date
  ck_completedAt :: "int option"
  ck_createdByUserId :: "id option"

record checklist_task =
  tk_checklistId :: id
  tk_templateItemId :: "id option"
  tk_title :: string
  tk_description :: "string option"
  tk_assigneeRule :: assignee_rule
  tk_assigneeUserId :: "id option"
  tk_assigneeRoleName :: "string option"
  tk_dueDate :: date
  tk_status :: task_status
  tk_isRequired :: bool
  tk_sortOrder :: nat
  tk_notes :: "string option"
  tk_documentId :: "id option"
  tk_completedAt :: "int option"
  tk_completedByUserId :: "id option"
  tk_lastRemindedAt :: "int option"

datatype checklist_event = ChecklistStarted id id checklist_type | ChecklistCompleted id id checklist_type

record onboarding_state = attendance_state +
  templatesT :: "checklist_template table"
  itemsT :: "template_item table"
  checklistsT :: "checklist table"
  tasksT :: "checklist_task table"
  checklistEvents :: "checklist_event list"
  digests :: "(id \<times> id list \<times> date) list"

definition emitChecklist :: "checklist_event \<Rightarrow> 'a onboarding_state_scheme \<Rightarrow> 'a onboarding_state_scheme" where
  "emitChecklist e s = s\<lparr>checklistEvents := checklistEvents s @ [e]\<rparr>"

section \<open>Templates\<close>

record item_dto =
  it_title :: string
  it_description :: "string option"
  it_assigneeRule :: assignee_rule
  it_assigneeRoleName :: "string option"
  it_dueOffsetDays :: "int option"
  it_sortOrder :: "nat option"
  it_isRequired :: "bool option"

record create_template_dto =
  tc_name :: string
  tc_type :: checklist_type
  tc_description :: "string option"
  tc_departmentId :: "id option"
  tc_items :: "item_dto list option"

text \<open>For nullable fields \<open>Some None\<close> is a null.\<close>

record update_template_dto =
  tu_name :: "string option"
  tu_type :: "checklist_type option"
  tu_description :: "string option option"
  tu_departmentId :: "id option option"
  tu_isActive :: "bool option"
  tu_items :: "item_dto list option"

record update_item_dto =
  iu_title :: "string option"
  iu_description :: "string option"
  iu_assigneeRule :: "assignee_rule option"
  iu_assigneeRoleName :: "string option"
  iu_dueOffsetDays :: "int option"
  iu_sortOrder :: "nat option"
  iu_isRequired :: "bool option"

definition templateItems :: "'a onboarding_state_scheme \<Rightarrow> id \<Rightarrow> (id \<times> template_item) list" where
  "templateItems s k = sort_key (\<lambda>(_, i). ti_sortOrder i) (List.filter (\<lambda>(_, i). ti_templateId i = k) (itemsT s))"

definition findTemplates ::
  "checklist_type option \<Rightarrow> bool \<Rightarrow> 'a onboarding_state_scheme \<Rightarrow> (id \<times> checklist_template \<times> (id \<times> template_item) list) list" where
  "findTemplates ty includeInactive s =
     List.map (\<lambda>(k, t). (k, t, templateItems s k))
       (sort_key (\<lambda>(_, t). case tp_type t of ONBOARDING \<Rightarrow> 0 | OFFBOARDING \<Rightarrow> (1 :: nat))
         (sort_key (\<lambda>(_, t). tp_name t)
           (List.filter (\<lambda>(_, t). ty \<in> {None, Some (tp_type t)} \<and> (includeInactive \<or> tp_isActive t)) (templatesT s))))"

definition templateById :: "'a onboarding_state_scheme \<Rightarrow> id \<Rightarrow> checklist_template res" where
  "templateById s k = orThrow (lookup (templatesT s) k) (NotFound ''Checklist template not found'') Inr"

text \<open>The template of the department first, then the company-wide one.\<close>

definition resolveFor :: "'a onboarding_state_scheme \<Rightarrow> checklist_type \<Rightarrow> id \<Rightarrow> (id \<times> checklist_template) option" where
  "resolveFor s ty d =
     (case List.find (\<lambda>(_, t). tp_type t = ty \<and> tp_departmentId t = Some d \<and> tp_isActive t) (templatesT s) of
        Some x \<Rightarrow> Some x
      | None \<Rightarrow> List.find (\<lambda>(_, t). tp_type t = ty \<and> tp_departmentId t = None \<and> tp_isActive t) (templatesT s))"

text \<open>An empty role name is falsy.\<close>

definition validateItem :: "'a onboarding_state_scheme \<Rightarrow> item_dto \<Rightarrow> unit res" where
  "validateItem s dto =
     (if it_assigneeRule dto \<noteq> ROLE then Inr ()
      else throwIf (it_assigneeRoleName dto \<in> {None, Some []}) (BadRequest ''assigneeRoleName is required for ROLE items'')
        (bindE (findRolesByNames s [the (it_assigneeRoleName dto)]) (\<lambda>_. Inr ())))"

fun validateItems :: "'a onboarding_state_scheme \<Rightarrow> item_dto list \<Rightarrow> unit res" where
  "validateItems s [] = Inr ()"
| "validateItems s (i # is) = bindE (validateItem s i) (\<lambda>_. validateItems s is)"

definition toItem :: "id \<Rightarrow> item_dto \<Rightarrow> nat \<Rightarrow> template_item" where
  "toItem k dto defaultOrder =
     \<lparr>ti_templateId = k, ti_title = it_title dto, ti_description = it_description dto,
      ti_assigneeRule = it_assigneeRule dto,
      ti_assigneeRoleName = (case it_assigneeRule dto of ROLE \<Rightarrow> it_assigneeRoleName dto | HR \<Rightarrow> Some ''HR_MANAGER'' | _ \<Rightarrow> None),
      ti_dueOffsetDays = patched 0 (it_dueOffsetDays dto), ti_sortOrder = patched defaultOrder (it_sortOrder dto),
      ti_isRequired = patched True (it_isRequired dto)\<rparr>"

text \<open>The items of a template are inserted with the keys \<open>newId\<close> gives their positions.\<close>

definition newItems :: "(nat \<Rightarrow> id) \<Rightarrow> id \<Rightarrow> item_dto list \<Rightarrow> template_item table" where
  "newItems newId k is = List.map (\<lambda>(n, i). (newId n, toItem k i n)) (List.zip [0..<length is] is)"

text \<open>The foreign key of the department, checked when the template is saved.\<close>

definition departmentKnown :: "'a onboarding_state_scheme \<Rightarrow> id option \<Rightarrow> bool" where
  "departmentKnown s d \<longleftrightarrow> (case d of None \<Rightarrow> True | Some k \<Rightarrow> lookup (departmentsT s) k \<noteq> None)"

definition createTemplate ::
  "id \<Rightarrow> (nat \<Rightarrow> id) \<Rightarrow> create_template_dto \<Rightarrow> 'a onboarding_state_scheme \<Rightarrow> 'a onboarding_state_scheme res" where
  "createTemplate k newId dto s =
     bindE (validateItems s (patched [] (tc_items dto))) (\<lambda>_.
     throwIf (\<not> departmentKnown s (tc_departmentId dto)) (BadRequest ''Referenced resource does not exist'')
     (Inr (s\<lparr>templatesT := insertRow k
         \<lparr>tp_name = tc_name dto, tp_type = tc_type dto, tp_description = tc_description dto,
          tp_departmentId = tc_departmentId dto, tp_isActive = True\<rparr> (templatesT s),
       itemsT := itemsT s @ newItems newId k (patched [] (tc_items dto))\<rparr>)))"

text \<open>Passing items deletes the old ones before the template is saved.\<close>

definition updateTemplate ::
  "id \<Rightarrow> (nat \<Rightarrow> id) \<Rightarrow> update_template_dto \<Rightarrow> ('a onboarding_state_scheme, unit) act" where
  "updateTemplate k newId dto =
     bindS (readS (\<lambda>s. templateById s k)) (\<lambda>t.
     let t' = \<lparr>tp_name = patched (tp_name t) (tu_name dto), tp_type = patched (tp_type t) (tu_type dto),
           tp_description = patched (tp_description t) (tu_description dto),
           tp_departmentId = patched (tp_departmentId t) (tu_departmentId dto),
           tp_isActive = patched (tp_isActive t) (tu_isActive dto)\<rparr>
     in thenS (case tu_items dto of None \<Rightarrow> returnS ()
           | Some is \<Rightarrow> thenS (readS (\<lambda>s. validateItems s is))
               (writeS (\<lambda>s. s\<lparr>itemsT := deleteWhere (\<lambda>i. ti_templateId i = k) (itemsT s)\<rparr>)))
        (tryS (\<lambda>s. throwIf (\<not> departmentKnown s (tp_departmentId t')) (BadRequest ''Referenced resource does not exist'')
          (Inr (s\<lparr>templatesT := updateRow k (\<lambda>_. t') (templatesT s),
                  itemsT := itemsT s @ newItems newId k (patched [] (tu_items dto))\<rparr>)))))"

text \<open>Items go with their template; checklists made from it keep no reference.\<close>

definition removeTemplate :: "id \<Rightarrow> 'a onboarding_state_scheme \<Rightarrow> 'a onboarding_state_scheme res" where
  "removeTemplate k s = bindE (templateById s k) (\<lambda>_.
     Inr (s\<lparr>templatesT := deleteRow k (templatesT s),
            itemsT := deleteWhere (\<lambda>i. ti_templateId i = k) (itemsT s),
            checklistsT := updateWhere (\<lambda>c. ck_templateId c = Some k) (\<lambda>c. c\<lparr>ck_templateId := None\<rparr>) (checklistsT s)\<rparr>))"

definition addItem ::
  "id \<Rightarrow> id \<Rightarrow> item_dto \<Rightarrow> 'a onboarding_state_scheme \<Rightarrow> 'a onboarding_state_scheme res" where
  "addItem k iid dto s = bindE (templateById s k) (\<lambda>_. bindE (validateItem s dto) (\<lambda>_.
     Inr (s\<lparr>itemsT := insertRow iid (toItem k dto (length (List.filter (\<lambda>i. ti_templateId i = k) (rows (itemsT s))))) (itemsT s)\<rparr>)))"

definition mergeItem :: "update_item_dto \<Rightarrow> template_item \<Rightarrow> item_dto" where
  "mergeItem dto i =
     \<lparr>it_title = patched (ti_title i) (iu_title dto),
      it_description = (case iu_description dto of None \<Rightarrow> ti_description i | d \<Rightarrow> d),
      it_assigneeRule = patched (ti_assigneeRule i) (iu_assigneeRule dto),
      it_assigneeRoleName = (case iu_assigneeRoleName dto of None \<Rightarrow> ti_assigneeRoleName i | n \<Rightarrow> n),
      it_dueOffsetDays = Some (patched (ti_dueOffsetDays i) (iu_dueOffsetDays dto)),
      it_sortOrder = Some (patched (ti_sortOrder i) (iu_sortOrder dto)),
      it_isRequired = Some (patched (ti_isRequired i) (iu_isRequired dto))\<rparr>"

definition itemById :: "'a onboarding_state_scheme \<Rightarrow> id \<Rightarrow> template_item res" where
  "itemById s k = orThrow (lookup (itemsT s) k) (NotFound ''Template item not found'') Inr"

definition updateItem ::
  "id \<Rightarrow> update_item_dto \<Rightarrow> 'a onboarding_state_scheme \<Rightarrow> 'a onboarding_state_scheme res" where
  "updateItem iid dto s = bindE (itemById s iid) (\<lambda>i. bindE (validateItem s (mergeItem dto i)) (\<lambda>_.
     Inr (s\<lparr>itemsT := updateRow iid (\<lambda>_. toItem (ti_templateId i) (mergeItem dto i) (ti_sortOrder i)) (itemsT s)\<rparr>)))"

definition removeItem :: "id \<Rightarrow> 'a onboarding_state_scheme \<Rightarrow> 'a onboarding_state_scheme res" where
  "removeItem iid s = bindE (itemById s iid) (\<lambda>_. Inr (s\<lparr>itemsT := deleteRow iid (itemsT s)\<rparr>))"

section \<open>Starting a checklist\<close>

definition checklistById :: "'a onboarding_state_scheme \<Rightarrow> id \<Rightarrow> checklist res" where
  "checklistById s c = orThrow (lookup (checklistsT s) c) (NotFound ''Checklist not found'') Inr"

definition tasksOf :: "'a onboarding_state_scheme \<Rightarrow> id \<Rightarrow> (id \<times> checklist_task) list" where
  "tasksOf s c = List.filter (\<lambda>(_, t). tk_checklistId t = c) (tasksT s)"

definition openTask :: "checklist_task \<Rightarrow> bool" where
  "openTask t \<longleftrightarrow> tk_status t \<in> {PENDING, task_status.IN_PROGRESS}"

definition resolveAssignee :: "'a onboarding_state_scheme \<Rightarrow> assignee_rule \<Rightarrow> employee \<Rightarrow> id option" where
  "resolveAssignee s rule emp = (case rule of EMPLOYEE \<Rightarrow> e_userId emp | MANAGER \<Rightarrow> managerLogin s emp | _ \<Rightarrow> None)"

definition newTask ::
  "'a onboarding_state_scheme \<Rightarrow> id \<Rightarrow> date \<Rightarrow> employee \<Rightarrow> id \<times> template_item \<Rightarrow> checklist_task" where
  "newTask s c anchor emp = (\<lambda>(iid, i).
     \<lparr>tk_checklistId = c, tk_templateItemId = Some iid, tk_title = ti_title i, tk_description = ti_description i,
      tk_assigneeRule = ti_assigneeRule i, tk_assigneeUserId = resolveAssignee s (ti_assigneeRule i) emp,
      tk_assigneeRoleName = ti_assigneeRoleName i, tk_dueDate = addDays anchor (ti_dueOffsetDays i),
      tk_status = PENDING, tk_isRequired = ti_isRequired i, tk_sortOrder = ti_sortOrder i, tk_notes = None,
      tk_documentId = None, tk_completedAt = None, tk_completedByUserId = None, tk_lastRemindedAt = None\<rparr>)"

text \<open>The end of a checklist: the row, the event, and activation of an employee being onboarded.\<close>

definition complete :: "int \<Rightarrow> id \<Rightarrow> id \<Rightarrow> checklist \<Rightarrow> ('a onboarding_state_scheme, unit) act" where
  "complete now hid c ck =
     thenS (writeS (\<lambda>s. emitChecklist (ChecklistCompleted c (ck_employeeId ck) (ck_type ck))
       (s\<lparr>checklistsT := updateRow c (\<lambda>r. r\<lparr>ck_status := COMPLETED, ck_completedAt := Some now\<rparr>) (checklistsT s)\<rparr>)))
     (if ck_type ck \<noteq> ONBOARDING then returnS ()
      else bindS (readS (\<lambda>s. employeeById s (ck_employeeId ck))) (\<lambda>emp.
        whenS (e_status emp = employee_status.ONBOARDING)
          (tryS (changeStatus now hid (ck_employeeId ck) ACTIVE (max (e_hireDate emp) (dayOfMs now))
             (Some ''Onboarding checklist completed'') None))))"

record start_opts =
  so_templateId :: "id option"
  so_anchorDate :: "date option"
  so_actorUserId :: "id option"

definition chooseTemplate ::
  "'a onboarding_state_scheme \<Rightarrow> checklist_type \<Rightarrow> start_opts \<Rightarrow> employee \<Rightarrow> (id \<times> checklist_template) option res" where
  "chooseTemplate s ty opts emp =
     (case so_templateId opts of
        Some k \<Rightarrow> bindE (templateById s k) (\<lambda>t. Inr (Some (k, t)))
      | None \<Rightarrow> Inr (resolveFor s ty (e_departmentId emp)))"

definition inProgressFor :: "'a onboarding_state_scheme \<Rightarrow> id \<Rightarrow> checklist_type \<Rightarrow> bool" where
  "inProgressFor s e ty \<longleftrightarrow>
     list_ex (\<lambda>c. ck_employeeId c = e \<and> ck_type c = ty \<and> ck_status c = IN_PROGRESS) (rows (checklistsT s))"

text \<open>\<open>taskId\<close> gives the keys of the new tasks by position; the answer is \<open>None\<close> when no template is configured.\<close>

definition start ::
  "int \<Rightarrow> id \<Rightarrow> id \<Rightarrow> (nat \<Rightarrow> id) \<Rightarrow> id \<Rightarrow> checklist_type \<Rightarrow> start_opts \<Rightarrow> ('a onboarding_state_scheme, id option) act" where
  "start now hid c taskId e ty opts =
     bindS (readS (\<lambda>s. bindE (employeeById s e) (\<lambda>emp.
       throwIf (inProgressFor s e ty) (Conflict ''Employee already has an in-progress checklist'')
       (bindE (chooseTemplate s ty opts emp) (\<lambda>t. Inr (emp, t)))))) (\<lambda>(emp, ot).
     case ot of None \<Rightarrow> returnS None
     | Some (k, t) \<Rightarrow>
         thenS (guardS (tp_type t \<noteq> ty) (BadRequest ''Template is for another type''))
         (let anchor = (case so_anchorDate opts of Some d \<Rightarrow> d
               | None \<Rightarrow> if ty = ONBOARDING then e_hireDate emp else patched (dayOfMs now) (e_terminationDate emp));
              ck = \<lparr>ck_employeeId = e, ck_templateId = Some k, ck_type = ty, ck_status = IN_PROGRESS,
                    ck_anchorDate = anchor, ck_completedAt = None, ck_createdByUserId = so_actorUserId opts\<rparr>
          in bindS (readS (\<lambda>s. Inr (templateItems s k))) (\<lambda>is.
             thenS (writeS (\<lambda>s. s\<lparr>checklistsT := insertRow c ck (checklistsT s),
                 tasksT := tasksT s @ List.map (\<lambda>(n, i). (taskId n, newTask s c anchor emp i)) (List.zip [0..<length is] is)\<rparr>))
             (thenS (whenS (is = []) (complete now hid c ck))
             (thenS (writeS (emitChecklist (ChecklistStarted c e ty))) (returnS (Some c)))))))"

section \<open>Reading\<close>

record progress =
  po_total :: nat
  po_done :: nat
  po_required :: nat
  po_requiredDone :: nat
  po_overdue :: nat
  po_percent :: int

definition progressOf :: "date \<Rightarrow> checklist_task list \<Rightarrow> progress" where
  "progressOf today ts =
     (let required = List.filter tk_isRequired ts;
          doneN = length (List.filter (\<lambda>t. \<not> openTask t) ts)
      in \<lparr>po_total = length ts, po_done = doneN, po_required = length required,
          po_requiredDone = length (List.filter (\<lambda>t. \<not> openTask t) required),
          po_overdue = length (List.filter (\<lambda>t. openTask t \<and> tk_dueDate t < today) ts),
          po_percent = (if ts = [] then 100
            else jsRound (dmul (ddiv (of_nat doneN) (of_nat (length ts))) 100))\<rparr>)"

record checklist_query = page_query +
  cq_employeeId :: "id option"
  cq_type :: "checklist_type option"
  cq_status :: "checklist_status option"

text \<open>Newest first: rows are in the order of creation.\<close>

definition listChecklists ::
  "checklist_query \<Rightarrow> 'a onboarding_state_scheme \<Rightarrow> (id \<times> checklist) list \<times> page_meta" where
  "listChecklists q s = pageOf q (rev (List.filter (\<lambda>(_, c). cq_employeeId q \<in> {None, Some (ck_employeeId c)} \<and>
     cq_type q \<in> {None, Some (ck_type c)} \<and> cq_status q \<in> {None, Some (ck_status c)}) (checklistsT s)))"

definition checklistsFor ::
  "'a onboarding_state_scheme \<Rightarrow> id \<Rightarrow> (id \<times> checklist \<times> (id \<times> checklist_task) list) list" where
  "checklistsFor s e = List.map (\<lambda>(k, c). (k, c, sort_key (\<lambda>(_, t). tk_sortOrder t) (tasksOf s k)))
     (rev (List.filter (\<lambda>(_, c). ck_employeeId c = e) (checklistsT s)))"

definition taskChecklist :: "'a onboarding_state_scheme \<Rightarrow> checklist_task \<Rightarrow> checklist option" where
  "taskChecklist s t = lookup (checklistsT s) (tk_checklistId t)"

definition myTasks :: "auth_user \<Rightarrow> 'a onboarding_state_scheme \<Rightarrow> (id \<times> checklist_task) list" where
  "myTasks actor s = sort_key (\<lambda>(_, t). tk_dueDate t) (sort_key (\<lambda>(_, t). tk_sortOrder t)
     (List.filter (\<lambda>(_, t). openTask t \<and>
        (case taskChecklist s t of None \<Rightarrow> False
         | Some c \<Rightarrow> ck_status c = IN_PROGRESS \<and> findEmployee s (ck_employeeId c) \<noteq> None) \<and>
        (tk_assigneeUserId t = Some (au_id actor) \<or>
         (case tk_assigneeRoleName t of None \<Rightarrow> False
          | Some r \<Rightarrow> r \<in> set (if au_roles actor = [] then [''__none__''] else au_roles actor)))) (tasksT s)))"

section \<open>The life of a task\<close>

definition taskById :: "'a onboarding_state_scheme \<Rightarrow> id \<Rightarrow> (checklist_task \<times> checklist) res" where
  "taskById s k = orThrow (lookup (tasksT s) k) (NotFound ''Task not found'') (\<lambda>t.
     orThrow (taskChecklist s t) (InternalError ''TypeError'') (\<lambda>c. Inr (t, c)))"

definition canActOn :: "checklist_task \<Rightarrow> auth_user \<Rightarrow> bool" where
  "canActOn t actor \<longleftrightarrow> ONBOARDING_MANAGE \<in> set (au_permissions actor) \<or>
     tk_assigneeUserId t = Some (au_id actor) \<or>
     (case tk_assigneeRoleName t of None \<Rightarrow> False | Some r \<Rightarrow> r \<noteq> [] \<and> r \<in> set (au_roles actor))"

record update_task_dto =
  td_status :: "task_status option"
  td_notes :: "string option option"
  td_documentId :: "id option option"

definition patchTask :: "int \<Rightarrow> id \<Rightarrow> update_task_dto \<Rightarrow> checklist_task \<Rightarrow> checklist_task" where
  "patchTask now actor dto t =
     (let t1 = t\<lparr>tk_notes := patched (tk_notes t) (td_notes dto),
                 tk_documentId := patched (tk_documentId t) (td_documentId dto)\<rparr>
      in case td_status dto of None \<Rightarrow> t1
         | Some st \<Rightarrow> if st = tk_status t then t1
             else let closed = st \<in> {DONE, SKIPPED}
                  in t1\<lparr>tk_status := st, tk_completedAt := (if closed then Some now else None),
                        tk_completedByUserId := (if closed then Some actor else None)\<rparr>)"

definition saveTask :: "id \<Rightarrow> checklist_task \<Rightarrow> 'a onboarding_state_scheme \<Rightarrow> 'a onboarding_state_scheme res" where
  "saveTask k t s =
     throwIf ((case tk_documentId t of None \<Rightarrow> False | Some d \<Rightarrow> lookup (documentsT s) d = None) \<or>
              (case tk_assigneeUserId t of None \<Rightarrow> False | Some u \<Rightarrow> lookup (usersT s) u = None))
       (BadRequest ''Referenced resource does not exist'')
     (Inr (s\<lparr>tasksT := updateRow k (\<lambda>_. t) (tasksT s)\<rparr>))"

definition blocking :: "'a onboarding_state_scheme \<Rightarrow> id \<Rightarrow> bool" where
  "blocking s c \<longleftrightarrow> list_ex (\<lambda>(_, t). tk_isRequired t \<and> openTask t) (tasksOf s c)"

definition completeIfFinished :: "int \<Rightarrow> id \<Rightarrow> id \<Rightarrow> ('a onboarding_state_scheme, unit) act" where
  "completeIfFinished now hid c =
     bindS (readS (\<lambda>s. Inr (lookup (checklistsT s) c, blocking s c))) (\<lambda>(oc, b).
     case oc of None \<Rightarrow> returnS ()
     | Some ck \<Rightarrow> whenS (ck_status ck = IN_PROGRESS \<and> \<not> b) (complete now hid c ck))"

definition updateTask ::
  "int \<Rightarrow> id \<Rightarrow> id \<Rightarrow> update_task_dto \<Rightarrow> auth_user \<Rightarrow> ('a onboarding_state_scheme, unit) act" where
  "updateTask now hid k dto actor =
     bindS (readS (\<lambda>s. taskById s k)) (\<lambda>(t, c).
     thenS (guardS (\<not> canActOn t actor) (Forbidden ''Not your task''))
     (thenS (guardS (ck_status c \<noteq> IN_PROGRESS) (BadRequest ''Checklist is no longer in progress''))
     (thenS (tryS (saveTask k (patchTask now (au_id actor) dto t)))
     (completeIfFinished now hid (tk_checklistId t)))))"

record reassign_dto =
  rd_assigneeUserId :: "id option option"
  rd_assigneeRoleName :: "string option option"

definition reassignTask ::
  "id \<Rightarrow> reassign_dto \<Rightarrow> 'a onboarding_state_scheme \<Rightarrow> 'a onboarding_state_scheme res" where
  "reassignTask k dto s =
     bindE (taskById s k) (\<lambda>(t, _).
     let u = patched (tk_assigneeUserId t) (rd_assigneeUserId dto);
         r = patched (tk_assigneeRoleName t) (rd_assigneeRoleName dto)
     in throwIf (u = None \<and> r \<in> {None, Some []}) (BadRequest ''A task needs a user or a role assignee'')
       (saveTask k (t\<lparr>tk_assigneeUserId := u, tk_assigneeRoleName := r\<rparr>) s))"

definition cancelChecklist :: "id \<Rightarrow> 'a onboarding_state_scheme \<Rightarrow> 'a onboarding_state_scheme res" where
  "cancelChecklist c s =
     bindE (checklistById s c) (\<lambda>ck.
     throwIf (ck_status ck \<noteq> IN_PROGRESS) (BadRequest ''Checklist is not in progress'')
     (Inr (s\<lparr>checklistsT := updateRow c (\<lambda>r. r\<lparr>ck_status := CANCELLED\<rparr>) (checklistsT s)\<rparr>)))"

definition canViewChecklist :: "checklist \<Rightarrow> auth_user \<Rightarrow> 'a onboarding_state_scheme \<Rightarrow> bool res" where
  "canViewChecklist ck actor s =
     (if ONBOARDING_READ \<in> set (au_permissions actor) then Inr True
      else bindE (employeeById s (ck_employeeId ck)) (\<lambda>emp.
        Inr (e_userId emp = Some (au_id actor) \<or> inChainOf s actor (ck_employeeId ck))))"

section \<open>Reminders\<close>

definition dueTasks :: "date \<Rightarrow> date \<Rightarrow> 'a onboarding_state_scheme \<Rightarrow> (id \<times> checklist_task) list" where
  "dueTasks today cutoff s =
     List.filter (\<lambda>(_, t). case tk_lastRemindedAt t of None \<Rightarrow> True | Some r \<Rightarrow> r < today * 86400000)
       (sort_key (\<lambda>(_, t). tk_dueDate t)
         (List.filter (\<lambda>(_, t). openTask t \<and> tk_dueDate t \<le> cutoff \<and>
            (case taskChecklist s t of None \<Rightarrow> False | Some c \<Rightarrow> ck_status c = IN_PROGRESS)) (tasksT s)))"

text \<open>The \<open>Map\<close> by login, in the order of insertion.\<close>

fun putTask :: "id \<Rightarrow> id \<times> checklist_task \<Rightarrow> (id \<times> (id \<times> checklist_task) list) list \<Rightarrow> (id \<times> (id \<times> checklist_task) list) list" where
  "putTask u kt [] = [(u, [kt])]"
| "putTask u kt ((v, kts) # m) = (if v = u then (v, kts @ [kt]) # m else (v, kts) # putTask u kt m)"

definition byAssignee :: "(id \<times> checklist_task) list \<Rightarrow> (id \<times> (id \<times> checklist_task) list) list" where
  "byAssignee kts = foldl (\<lambda>m kt. case tk_assigneeUserId (snd kt) of None \<Rightarrow> m | Some u \<Rightarrow> putTask u kt m) [] kts"

text \<open>The name of the employee is read for each line; a missing employee is a \<open>TypeError\<close>.\<close>

definition linesReadable :: "'a onboarding_state_scheme \<Rightarrow> (id \<times> checklist_task) list \<Rightarrow> bool" where
  "linesReadable s kts \<longleftrightarrow> list_all (\<lambda>(_, t). case taskChecklist s t of None \<Rightarrow> False
     | Some c \<Rightarrow> findEmployee s (ck_employeeId c) \<noteq> None) kts"

definition sendDigest :: "int \<Rightarrow> date \<Rightarrow> id \<times> (id \<times> checklist_task) list \<Rightarrow> ('a onboarding_state_scheme, unit) act" where
  "sendDigest now today = (\<lambda>(u, kts).
     thenS (readS (\<lambda>s. throwIf (\<not> linesReadable s kts) (InternalError ''TypeError'') (Inr ())))
     (writeS (\<lambda>s. s\<lparr>digests := digests s @ [(u, List.map fst kts, today)],
        tasksT := List.map (\<lambda>(k, t). (k, if k \<in> set (List.map fst kts) then t\<lparr>tk_lastRemindedAt := Some now\<rparr> else t)) (tasksT s)\<rparr>)))"

definition sendReminders :: "int \<Rightarrow> int \<Rightarrow> ('a onboarding_state_scheme, nat) act" where
  "sendReminders horizonDays now =
     (let today = dayOfMs now
      in bindS (readS (\<lambda>s. Inr (byAssignee (dueTasks today (addDays today horizonDays) s)))) (\<lambda>groups.
         thenS (eachS (sendDigest now today) groups) (returnS (length groups))))"

definition processOnboardingJob :: "string \<Rightarrow> int option \<Rightarrow> int \<Rightarrow> ('a onboarding_state_scheme, nat) act" where
  "processOnboardingJob name horizon now =
     (if name = ''daily-reminders'' then sendReminders (patched 1 horizon) now
      else readS (\<lambda>_. Inl (InternalError ''Unknown onboarding job'')))"

section \<open>Listeners and controller\<close>

text \<open>The listeners log an error and swallow it: the state is what \<open>start\<close> left.\<close>

definition onCreated ::
  "int \<Rightarrow> id \<Rightarrow> id \<Rightarrow> (nat \<Rightarrow> id) \<Rightarrow> id \<Rightarrow> date \<Rightarrow> id \<Rightarrow> 'a onboarding_state_scheme \<Rightarrow> 'a onboarding_state_scheme" where
  "onCreated now hid c taskId e hire actor s =
     (case employeeById s e of Inl _ \<Rightarrow> s
      | Inr emp \<Rightarrow> if e_status emp \<noteq> employee_status.ONBOARDING then s
          else snd (start now hid c taskId e ONBOARDING
            \<lparr>so_templateId = None, so_anchorDate = Some hire, so_actorUserId = Some actor\<rparr> s))"

definition onTerminated ::
  "int \<Rightarrow> id \<Rightarrow> id \<Rightarrow> (nat \<Rightarrow> id) \<Rightarrow> id \<Rightarrow> date \<Rightarrow> id \<Rightarrow> 'a onboarding_state_scheme \<Rightarrow> 'a onboarding_state_scheme" where
  "onTerminated now hid c taskId e lastDay actor s =
     snd (start now hid c taskId e OFFBOARDING
       \<lparr>so_templateId = None, so_anchorDate = Some lastDay, so_actorUserId = Some actor\<rparr> s)"

definition startChecklist ::
  "int \<Rightarrow> id \<Rightarrow> id \<Rightarrow> (nat \<Rightarrow> id) \<Rightarrow> id \<Rightarrow> checklist_type \<Rightarrow> id option \<Rightarrow> date option \<Rightarrow> id
     \<Rightarrow> ('a onboarding_state_scheme, id) act" where
  "startChecklist now hid c taskId e ty tpl anchor actor =
     bindS (start now hid c taskId e ty \<lparr>so_templateId = tpl, so_anchorDate = anchor, so_actorUserId = Some actor\<rparr>) (\<lambda>oc.
     case oc of None \<Rightarrow> readS (\<lambda>_. Inl (NotFound ''No active template is configured'')) | Some k \<Rightarrow> returnS k)"

definition myChecklists ::
  "auth_user \<Rightarrow> 'a onboarding_state_scheme \<Rightarrow> (id \<times> checklist \<times> (id \<times> checklist_task) list) list res" where
  "myChecklists actor s = bindE (requireProfile actor s) (\<lambda>me. Inr (checklistsFor s me))"

definition getChecklist :: "id \<Rightarrow> auth_user \<Rightarrow> date \<Rightarrow> 'a onboarding_state_scheme \<Rightarrow> (checklist \<times> progress) res" where
  "getChecklist c actor today s = bindE (checklistById s c) (\<lambda>ck. bindE (canViewChecklist ck actor s) (\<lambda>ok.
     throwIf (\<not> ok) (Forbidden ''Forbidden'') (Inr (ck, progressOf today (List.map snd (tasksOf s c))))))"

end
