(* ===== verification/OnboardProps.thy ===== *)
theory OnboardProps
  imports Onboarding AttendProps
begin

text \<open>
  Checklists over any history: what completion means, when it happens and what it does to the employee,
  and the digests of a day; and where the code departs from its intent.
\<close>

section \<open>The invariant\<close>

definition bothRunning :: "checklist \<Rightarrow> checklist \<Rightarrow> bool" where
  "bothRunning a b \<longleftrightarrow> ck_employeeId a = ck_employeeId b \<and> ck_type a = ck_type b \<and>
     ck_status a = IN_PROGRESS \<and> ck_status b = IN_PROGRESS"

definition stamped :: "checklist_task \<Rightarrow> bool" where
  "stamped t \<longleftrightarrow> (openTask t \<longleftrightarrow> tk_completedAt t = None) \<and> (openTask t \<longleftrightarrow> tk_completedByUserId t = None)"

definition finishedRight :: "'a onboarding_state_scheme \<Rightarrow> id \<Rightarrow> checklist \<Rightarrow> bool" where
  "finishedRight s c ck \<longleftrightarrow> (ck_status ck = COMPLETED \<longleftrightarrow> ck_completedAt ck \<noteq> None) \<and>
     (ck_status ck = COMPLETED \<longrightarrow> \<not> blocking s c)"

definition onboardInv :: "'a onboarding_state_scheme \<Rightarrow> bool" where
  "onboardInv s \<longleftrightarrow> keyed (checklistsT s) \<and> keyed (tasksT s) \<and> uniqueBy bothRunning (checklistsT s) \<and>
     (\<forall>c ck. lookup (checklistsT s) c = Some ck \<longrightarrow> finishedRight s c ck) \<and>
     (\<forall>k t. lookup (tasksT s) k = Some t \<longrightarrow> stamped t \<and> lookup (checklistsT s) (tk_checklistId t) \<noteq> None)"

lemma onboardInv_keyed: "onboardInv s \<Longrightarrow> keyed (checklistsT s)" "onboardInv s \<Longrightarrow> keyed (tasksT s)"
  by (simp_all add: onboardInv_def)

lemma onboardInv_running: "onboardInv s \<Longrightarrow> uniqueBy bothRunning (checklistsT s)"
  by (simp add: onboardInv_def)

lemma onboardInv_checklist: "onboardInv s \<Longrightarrow> lookup (checklistsT s) c = Some ck \<Longrightarrow> finishedRight s c ck"
  by (simp add: onboardInv_def)

lemma onboardInv_task: "onboardInv s \<Longrightarrow> lookup (tasksT s) k = Some t \<Longrightarrow>
    stamped t \<and> lookup (checklistsT s) (tk_checklistId t) \<noteq> None"
  by (simp add: onboardInv_def)

lemma onboardInv_cong:
  "checklistsT t = checklistsT s \<Longrightarrow> tasksT t = tasksT s \<Longrightarrow> onboardInv t = onboardInv s"
  by (simp add: onboardInv_def finishedRight_def blocking_def tasksOf_def)

lemma blocking_iff: "keyed (tasksT s) \<Longrightarrow> blocking s c \<longleftrightarrow>
    (\<exists>k t. lookup (tasksT s) k = Some t \<and> tk_checklistId t = c \<and> tk_isRequired t \<and> openTask t)"
  unfolding blocking_def tasksOf_def list_ex_iff lookup_def
  by (auto simp: keyed_def keys_def dest: map_of_SomeD intro: map_of_is_SomeI)

section \<open>Changing the status of a checklist\<close>

lemma checklist_update:
  assumes i: "onboardInv s" and l: "lookup (checklistsT s) c = Some ck"
    and f: "ck_employeeId (f ck) = ck_employeeId ck" "ck_type (f ck) = ck_type ck"
      "ck_status (f ck) = IN_PROGRESS \<Longrightarrow> ck_status ck = IN_PROGRESS"
      "ck_status (f ck) = COMPLETED \<longleftrightarrow> ck_completedAt (f ck) \<noteq> None" "ck_status (f ck) = COMPLETED \<Longrightarrow> \<not> blocking s c"
    and t: "checklistsT t = updateRow c f (checklistsT s)" "tasksT t = tasksT s"
  shows "onboardInv t"
proof -
  have b: "blocking t = blocking s" by (simp add: fun_eq_iff blocking_def tasksOf_def t)
  have "uniqueBy bothRunning (checklistsT t)"
    unfolding t
  proof (rule uniqueBy_orig [OF onboardInv_running [OF i]])
    fix j r k q
    assume r: "lookup (updateRow c f (checklistsT s)) j = Some r" and q: "lookup (updateRow c f (checklistsT s)) k = Some q"
      and br: "bothRunning r q"
    obtain r0 where r0: "lookup (checklistsT s) j = Some r0" "r = (if j = c then f r0 else r0)"
      using r by (auto simp: lookup_updateRow split: if_splits)
    obtain q0 where q0: "lookup (checklistsT s) k = Some q0" "q = (if k = c then f q0 else q0)"
      using q by (auto simp: lookup_updateRow split: if_splits)
    have "bothRunning r0 q0" using br r0 q0 l f by (auto simp: bothRunning_def split: if_splits)
    then show "\<exists>r' q'. lookup (checklistsT s) j = Some r' \<and> lookup (checklistsT s) k = Some q' \<and> bothRunning r' q'"
      using r0 q0 by blast
  qed
  then show ?thesis
    using onboardInv_checklist [OF i] onboardInv_task [OF i] onboardInv_keyed [OF i] l f(4,5)
    by (auto simp: onboardInv_def t b finishedRight_def lookup_updateRow split: if_splits)
qed

lemma changeStatus_checklists:
  "changeStatus now hid k st d n a s = Inr t \<Longrightarrow> checklistsT t = checklistsT s \<and> tasksT t = tasksT s"
  by (auto simp: changeStatus_def res_simps emitOrg_def addHistory_def saveEmployee_def)

lemma keeps_onboard_changeStatus [keeps]: "keepsS onboardInv (tryS (changeStatus now hid k st d n a))"
  by (rule keeps_tryS) (metis changeStatus_checklists onboardInv_cong)

lemma keeps_if [keeps]: "keepsS P a \<Longrightarrow> keepsS P b \<Longrightarrow> keepsS P (if c then a else b)"
  by simp

lemma thenS_state:
  assumes "thenS m k s = (r, t)"
  obtains (stopped) e where "m s = (Inl e, t)" "r = Inl e"
    | (went_on) u where "m s = (Inr (), u)" "k u = (r, t)"
  using assms that unfolding thenS_def by (rule bindS_state) auto

lemma emitChecklist_tables [simp]:
  "checklistsT (emitChecklist e s) = checklistsT s" "tasksT (emitChecklist e s) = tasksT s"
  "employeesT (emitChecklist e s) = employeesT s"
  by (simp_all add: emitChecklist_def)

lemma complete_inv:
  assumes i: "onboardInv s" and l: "lookup (checklistsT s) c = Some ck" and b: "\<not> blocking s c"
  shows "onboardInv (snd (complete now hid c ck s))"
proof -
  let ?u = "emitChecklist (ChecklistCompleted c (ck_employeeId ck) (ck_type ck))
    (s\<lparr>checklistsT := updateRow c (\<lambda>r. r\<lparr>ck_status := COMPLETED, ck_completedAt := Some now\<rparr>) (checklistsT s)\<rparr>)"
  have u: "onboardInv ?u"
    by (rule checklist_update [OF i l, where f = "\<lambda>r. r\<lparr>ck_status := COMPLETED, ck_completedAt := Some now\<rparr>"])
      (use b in simp_all)
  have "keepsS onboardInv (if ck_type ck \<noteq> ONBOARDING then returnS ()
      else bindS (readS (\<lambda>s. employeeById s (ck_employeeId ck))) (\<lambda>emp.
        whenS (e_status emp = employee_status.ONBOARDING)
          (tryS (changeStatus now hid (ck_employeeId ck) ACTIVE (max (e_hireDate emp) (dayOfMs now))
             (Some ''Onboarding checklist completed'') None))))"
    by (intro keeps)
  from keepsS_D [where P = onboardInv, OF this u] show ?thesis by (simp add: complete_def thenS_write)
qed

lemma completeIfFinished_inv:
  assumes i: "onboardInv s"
  shows "onboardInv (snd (completeIfFinished now hid c s))"
  using i complete_inv [OF i]
  by (auto simp: completeIfFinished_def bindS_read whenS_def returnS_def split: option.split)

section \<open>Tasks\<close>

lemma task_update:
  assumes i: "onboardInv s" and l: "lookup (tasksT s) k = Some t" "lookup (checklistsT s) (tk_checklistId t) = Some ck"
    and q: "tk_checklistId q = tk_checklistId t" "stamped q"
    and o': "ck_status ck = COMPLETED \<Longrightarrow> tk_isRequired q = tk_isRequired t \<and> tk_status q = tk_status t"
    and u: "checklistsT u = checklistsT s" "tasksT u = updateRow k (\<lambda>_. q) (tasksT s)"
  shows "onboardInv u"
proof -
  have ku: "keyed (tasksT u)" using onboardInv_keyed [OF i] by (simp add: u)
  have "\<not> blocking u c" if c: "lookup (checklistsT s) c = Some d" "ck_status d = COMPLETED" for c d
  proof
    assume "blocking u c"
    then obtain j p where p: "lookup (tasksT u) j = Some p" "tk_checklistId p = c" "tk_isRequired p" "openTask p"
      by (auto simp: blocking_iff [OF ku])
    have "\<exists>p0. lookup (tasksT s) j = Some p0 \<and> tk_checklistId p0 = c \<and> tk_isRequired p0 \<and> openTask p0"
    proof (cases "j = k")
      case True
      then have "p = q" using p(1) l by (simp add: u lookup_updateRow)
      moreover from this have "ck = d" using p(2) q(1) l(2) c(1) by simp
      ultimately show ?thesis using o' c(2) p q(1) l(1) True by (auto simp: openTask_def)
    next
      case False
      then show ?thesis using p by (simp add: u lookup_updateRow)
    qed
    then have "blocking s c" unfolding blocking_iff [OF onboardInv_keyed(2) [OF i]] by blast
    then show False using onboardInv_checklist [OF i c(1)] c(2) by (simp add: finishedRight_def)
  qed
  moreover have "stamped p \<and> lookup (checklistsT s) (tk_checklistId p) \<noteq> None" if "lookup (tasksT u) j = Some p" for j p
  proof (cases "j = k")
    case True
    then show ?thesis using that l q by (simp add: u lookup_updateRow)
  next
    case False
    then show ?thesis using that onboardInv_task [OF i, of j p] by (simp add: u lookup_updateRow)
  qed
  ultimately show ?thesis
    using onboardInv_keyed [OF i] onboardInv_running [OF i] onboardInv_checklist [OF i] ku
    by (auto simp: onboardInv_def finishedRight_def u)
qed

lemma taskById_Inr: "taskById s k = Inr (t, c) \<longleftrightarrow> lookup (tasksT s) k = Some t \<and> lookup (checklistsT s) (tk_checklistId t) = Some c"
  by (auto simp: taskById_def taskChecklist_def res_simps)

lemma saveTask_Inr: "saveTask k t s = Inr u \<Longrightarrow> u = s\<lparr>tasksT := updateRow k (\<lambda>_. t) (tasksT s)\<rparr>"
  by (auto simp: saveTask_def throwIf_Inr_iff)

lemma patchTask_fields [simp]:
  "tk_checklistId (patchTask now a dto t) = tk_checklistId t" "tk_isRequired (patchTask now a dto t) = tk_isRequired t"
  "tk_assigneeUserId (patchTask now a dto t) = tk_assigneeUserId t"
  by (simp_all add: patchTask_def Let_def split: option.split)

lemma patchTask_stamped: "stamped t \<Longrightarrow> stamped (patchTask now a dto t)"
  by (auto simp: patchTask_def stamped_def openTask_def Let_def split: option.split task_status.splits)
     (metis task_status.exhaust)+

lemma updateTask_cases:
  assumes run: "updateTask now hid k dto actor s = (r, u)"
  obtains (refused) err where "r = Inl err" "u = s"
    | (saved) t c v where "lookup (tasksT s) k = Some t" "lookup (checklistsT s) (tk_checklistId t) = Some c"
        "canActOn t actor" "ck_status c = IN_PROGRESS" "saveTask k (patchTask now (au_id actor) dto t) s = Inr v"
        "completeIfFinished now hid (tk_checklistId t) v = (r, u)"
proof (cases "taskById s k")
  case (Inl e)
  then show ?thesis using run refused by (auto simp: updateTask_def bindS_def readS_def)
next
  case (Inr x)
  obtain t c where x: "x = (t, c)" by (cases x)
  show ?thesis
  proof (cases "canActOn t actor \<and> ck_status c = IN_PROGRESS")
    case True
    show ?thesis
    proof (cases "saveTask k (patchTask now (au_id actor) dto t) s")
      case (Inl e)
      then show ?thesis using run Inr x True refused
        by (auto simp: updateTask_def bindS_def readS_def thenS_def guardS_def tryS_def)
    next
      case sv: (Inr v)
      then have "completeIfFinished now hid (tk_checklistId t) v = (r, u)" using run Inr x True
        by (simp add: updateTask_def bindS_def readS_def thenS_def guardS_def tryS_def)
      then show ?thesis using saved Inr x True sv by (auto simp: taskById_Inr)
    qed
  next
    case False
    then show ?thesis using run Inr x refused
      by (auto simp: updateTask_def bindS_def readS_def thenS_def guardS_def split: if_splits)
  qed
qed

lemma updateTask_saved:
  assumes i: "onboardInv s" and l: "lookup (tasksT s) k = Some t" "lookup (checklistsT s) (tk_checklistId t) = Some c"
    and c: "ck_status c = IN_PROGRESS" and sv: "saveTask k (patchTask now a dto t) s = Inr v"
  shows "onboardInv v"
  by (rule task_update [OF i l, where q = "patchTask now a dto t"])
    (use c saveTask_Inr [OF sv] onboardInv_task [OF i l(1)] in \<open>simp_all add: patchTask_stamped\<close>)

lemma updateTask_inv:
  assumes i: "onboardInv s"
  shows "onboardInv (snd (updateTask now hid k dto actor s))"
proof -
  obtain r u where run: "updateTask now hid k dto actor s = (r, u)" by (cases "updateTask now hid k dto actor s")
  then show ?thesis
  proof (cases rule: updateTask_cases)
    case (refused err)
    then show ?thesis using i run by simp
  next
    case (saved t c v)
    have "onboardInv v" by (rule updateTask_saved [OF i saved(1,2,4,5)])
    from completeIfFinished_inv [OF this, of now hid "tk_checklistId t"] show ?thesis using saved(6) run by simp
  qed
qed

lemma reassignTask_inv:
  assumes i: "onboardInv s" and u: "reassignTask k dto s = Inr u"
  shows "onboardInv u"
proof -
  obtain t c a r where t: "lookup (tasksT s) k = Some t" "lookup (checklistsT s) (tk_checklistId t) = Some c"
    and sv: "saveTask k (t\<lparr>tk_assigneeUserId := a, tk_assigneeRoleName := r\<rparr>) s = Inr u"
    using u by (auto simp: reassignTask_def bindE_Inr_iff taskById_Inr Let_def throwIf_Inr_iff)
  show ?thesis
    by (rule task_update [OF i t, where q = "t\<lparr>tk_assigneeUserId := a, tk_assigneeRoleName := r\<rparr>"])
      (use saveTask_Inr [OF sv] onboardInv_task [OF i t(1)] in \<open>auto simp: stamped_def openTask_def\<close>)
qed

lemma cancelChecklist_inv:
  assumes i: "onboardInv s" and u: "cancelChecklist c s = Inr u"
  shows "onboardInv u"
proof -
  obtain ck where l: "lookup (checklistsT s) c = Some ck" "ck_status ck = IN_PROGRESS"
    and u: "u = s\<lparr>checklistsT := updateRow c (\<lambda>r. r\<lparr>ck_status := CANCELLED\<rparr>) (checklistsT s)\<rparr>"
    using u by (auto simp: cancelChecklist_def checklistById_def res_simps)
  show ?thesis
    by (rule checklist_update [OF i l(1), where f = "\<lambda>r. r\<lparr>ck_status := CANCELLED\<rparr>"])
      (use l(2) u onboardInv_checklist [OF i l(1)] in \<open>auto simp: finishedRight_def\<close>)
qed

section \<open>Starting\<close>

lemma insert_checklist:
  assumes i: "onboardInv s" and c: "c \<notin> set (keys (checklistsT s))"
    and n: "\<not> inProgressFor s (ck_employeeId ck) (ck_type ck)" and ck: "ck_status ck = IN_PROGRESS" "ck_completedAt ck = None"
    and ts: "keyed (tasksT s @ ts)" "\<And>k t. (k, t) \<in> set ts \<Longrightarrow> tk_checklistId t = c \<and> stamped t"
    and u: "checklistsT u = insertRow c ck (checklistsT s)" "tasksT u = tasksT s @ ts"
  shows "onboardInv u"
proof -
  have lc: "lookup (checklistsT u) j = (if j = c then Some ck else lookup (checklistsT s) j)" for j
    by (simp add: u lookup_insertRow [OF c])
  have lt: "lookup (tasksT s) k = Some t \<or> tk_checklistId t = c \<and> stamped t" if "lookup (tasksT u) k = Some t" for k t
    using that ts(2) unfolding u lookup_def by (auto simp: map_add_def split: option.splits dest: map_of_SomeD)
  have b: "\<not> blocking u d" if d: "lookup (checklistsT s) d = Some e" "ck_status e = COMPLETED" for d e
  proof
    assume "blocking u d"
    then obtain k t where t: "lookup (tasksT u) k = Some t" "tk_checklistId t = d" "tk_isRequired t" "openTask t"
      using blocking_iff [of u d] ts(1) by (auto simp: u)
    have "d \<noteq> c" using d(1) c lookup_Some_keys by metis
    then have "lookup (tasksT s) k = Some t" using lt [OF t(1)] t(2) by simp
    then have "blocking s d" using t unfolding blocking_iff [OF onboardInv_keyed(2) [OF i]] by blast
    then show False using onboardInv_checklist [OF i d(1)] d(2) by (simp add: finishedRight_def)
  qed
  have "uniqueBy bothRunning (checklistsT u)"
    unfolding u
  proof (rule uniqueBy_insert [OF onboardInv_running [OF i] c])
    fix k q assume "lookup (checklistsT s) k = Some q"
    then have "q \<in> set (rows (checklistsT s))" by (rule lookup_in_rows)
    then show "\<not> bothRunning q ck \<and> \<not> bothRunning ck q"
      using n unfolding inProgressFor_def list_ex_iff bothRunning_def by metis
  qed
  moreover have "finishedRight u d e" if "lookup (checklistsT u) d = Some e" for d e
    using that ck b onboardInv_checklist [OF i, of d e] by (auto simp: lc finishedRight_def split: if_splits)
  moreover have "stamped t \<and> lookup (checklistsT u) (tk_checklistId t) \<noteq> None" if "lookup (tasksT u) k = Some t" for k t
    using lt [OF that] onboardInv_task [OF i, of k t] by (auto simp: lc)
  ultimately show ?thesis
    using onboardInv_keyed [OF i] c ts(1) by (simp add: onboardInv_def u)
qed

definition freshTasks :: "(nat \<Rightarrow> id) \<Rightarrow> 'a onboarding_state_scheme \<Rightarrow> bool" where
  "freshTasks f s \<longleftrightarrow> inj f \<and> range f \<inter> set (keys (tasksT s)) = {}"

definition startedTasks :: "'a onboarding_state_scheme \<Rightarrow> id \<Rightarrow> (nat \<Rightarrow> id) \<Rightarrow> date \<Rightarrow> employee \<Rightarrow> (id \<times> template_item) list \<Rightarrow> checklist_task table" where
  "startedTasks s c f anchor emp is = List.map (\<lambda>(n, i). (f n, newTask s c anchor emp i)) (List.zip [0..<length is] is)"

lemma startedTasks_keyed:
  assumes f: "freshTasks f s" and k: "keyed (tasksT s)"
  shows "keyed (tasksT s @ startedTasks s c f anchor emp is)"
proof -
  have "keys (startedTasks s c f anchor emp is) = List.map f [0..<length is]"
    by (simp add: keys_def startedTasks_def comp_def case_prod_unfold map_fst_zip flip: map_map [of f fst, unfolded comp_def])
  moreover have "distinct (List.map f [0..<length is])" using f by (auto simp: freshTasks_def distinct_map inj_on_def)
  ultimately show ?thesis using k f by (auto simp: keyed_def keys_def freshTasks_def)
qed

lemma startedTasks_row: "(k, t) \<in> set (startedTasks s c f anchor emp is) \<Longrightarrow> tk_checklistId t = c \<and> stamped t"
  by (auto simp: startedTasks_def newTask_def stamped_def openTask_def split: prod.splits)

lemma start_cases:
  assumes run: "start now hid c f e ty opts s = (r, u)"
  obtains (nothing) "u = s"
    | (started) emp k ck v anchor where "\<not> inProgressFor s e ty" "ck_status ck = IN_PROGRESS" "ck_completedAt ck = None"
        "ck_employeeId ck = e" "ck_type ck = ty"
        "v = s\<lparr>checklistsT := insertRow c ck (checklistsT s), tasksT := tasksT s @ startedTasks s c f anchor emp (templateItems s k)\<rparr>"
        "thenS (whenS (templateItems s k = []) (complete now hid c ck))
           (thenS (writeS (emitChecklist (ChecklistStarted c e ty))) (returnS (Some c))) v = (r, u)"
proof (cases "bindE (employeeById s e) (\<lambda>emp.
       throwIf (inProgressFor s e ty) (Conflict ''Employee already has an in-progress checklist'')
       (bindE (chooseTemplate s ty opts emp) (\<lambda>t. Inr (emp, t))))")
  case (Inl err)
  then have "u = s" using run by (auto simp: start_def bindS_def readS_def)
  then show ?thesis by (rule nothing)
next
  case (Inr x)
  obtain emp ot where x: "x = (emp, ot)" by (cases x)
  have np: "\<not> inProgressFor s e ty" using Inr by (auto simp: res_simps)
  show ?thesis
  proof (cases ot)
    case None
    then have "u = s" using run Inr x by (auto simp: start_def bindS_def readS_def returnS_def)
    then show ?thesis by (rule nothing)
  next
    case (Some kt)
    obtain k t where kt: "kt = (k, t)" by (cases kt)
    show ?thesis
    proof (cases "tp_type t = ty")
      case False
      then have "u = s" using run Inr x Some kt
        by (auto simp: start_def bindS_def readS_def thenS_def guardS_def)
      then show ?thesis by (rule nothing)
    next
      case True
      define anchor where "anchor = (case so_anchorDate opts of Some d \<Rightarrow> d
        | None \<Rightarrow> if ty = ONBOARDING then e_hireDate emp else patched (dayOfMs now) (e_terminationDate emp))"
      define ck where "ck = \<lparr>ck_employeeId = e, ck_templateId = Some k, ck_type = ty, ck_status = IN_PROGRESS,
        ck_anchorDate = anchor, ck_completedAt = None, ck_createdByUserId = so_actorUserId opts\<rparr>"
      define v where "v = s\<lparr>checklistsT := insertRow c ck (checklistsT s),
        tasksT := tasksT s @ startedTasks s c f anchor emp (templateItems s k)\<rparr>"
      have "start now hid c f e ty opts s = thenS (whenS (templateItems s k = []) (complete now hid c ck))
           (thenS (writeS (emitChecklist (ChecklistStarted c e ty))) (returnS (Some c))) v"
        using Inr x Some kt True
        unfolding v_def ck_def anchor_def startedTasks_def start_def
        by (simp add: bindS_read thenS_done [where m = "guardS a b" for a b] guardS_def Let_def thenS_write)
      then show ?thesis using run by (intro started [OF np, of ck v anchor emp k]) (simp_all add: ck_def v_def)
    qed
  qed
qed

lemma start_inv:
  assumes i: "onboardInv s" and c: "c \<notin> set (keys (checklistsT s))" and f: "freshTasks f s"
  shows "onboardInv (snd (start now hid c f e ty opts s))"
proof -
  obtain r u where run: "start now hid c f e ty opts s = (r, u)" by (cases "start now hid c f e ty opts s")
  then show ?thesis
  proof (cases rule: start_cases)
    case nothing
    then show ?thesis using i run by simp
  next
    case (started emp k ck v anchor)
    have v: "onboardInv v"
      by (rule insert_checklist [OF i c _ started(2,3) startedTasks_keyed [OF f onboardInv_keyed(2) [OF i]] startedTasks_row])
        (use started in simp_all)
    have w: "onboardInv (snd (whenS (templateItems s k = []) (complete now hid c ck) v))"
    proof (cases "templateItems s k = []")
      case True
      have "lookup (checklistsT v) c = Some ck" by (simp add: started(6) lookup_insertRow [OF c])
      moreover have "\<not> blocking v c"
      proof
        assume "blocking v c"
        then obtain j t where "lookup (tasksT v) j = Some t" "tk_checklistId t = c"
          by (auto simp: blocking_iff [OF onboardInv_keyed(2) [OF v]])
        moreover have "tasksT v = tasksT s" using True by (simp add: started(6) startedTasks_def)
        ultimately show False using onboardInv_task [OF i, of j t] c lookup_Some_keys by fastforce
      qed
      ultimately show ?thesis using complete_inv [OF v] True by (simp add: whenS_def)
    next
      case False
      then show ?thesis using v by (simp add: whenS_def returnS_def)
    qed
    have e: "keepsS onboardInv (thenS (writeS (emitChecklist (ChecklistStarted c e ty))) (returnS (Some c)))"
      by (intro keeps keeps_writeS) (metis emitChecklist_tables(1,2) onboardInv_cong)
    have "onboardInv u"
      using started(7)
    proof (cases rule: thenS_state)
      case (stopped err)
      then show ?thesis using w by simp
    next
      case (went_on v')
      then show ?thesis using w keepsS_run [OF e, of v' r u] by simp
    qed
    then show ?thesis using run by simp
  qed
qed

section \<open>Digests\<close>

lemma lookup_map_row: "lookup (List.map (\<lambda>(k, t). (k, g k t)) T) j = map_option (g j) (lookup T j)"
  by (induction T) (auto simp: lookup_def)

lemma keys_map_row: "keys (List.map (\<lambda>(k, t). (k, g k t)) T) = keys T"
  by (simp add: keys_def comp_def case_prod_unfold)

lemma remind_inv:
  assumes i: "onboardInv s"
    and u: "tasksT u = List.map (\<lambda>(k, t). (k, if k \<in> K then t\<lparr>tk_lastRemindedAt := Some now\<rparr> else t)) (tasksT s)"
      "checklistsT u = checklistsT s"
  shows "onboardInv u"
proof -
  have k: "keyed (tasksT u)" using onboardInv_keyed(2) [OF i] by (simp add: keyed_def u keys_map_row)
  have l: "\<exists>t0. lookup (tasksT s) k = Some t0 \<and> tk_checklistId t = tk_checklistId t0 \<and> tk_status t = tk_status t0 \<and>
      tk_isRequired t = tk_isRequired t0 \<and> tk_completedAt t = tk_completedAt t0 \<and> tk_completedByUserId t = tk_completedByUserId t0"
    if "lookup (tasksT u) k = Some t" for k t
    using that by (auto simp: u lookup_map_row)
  have "\<not> blocking u c" if "\<not> blocking s c" for c
    using that l unfolding blocking_iff [OF k] blocking_iff [OF onboardInv_keyed(2) [OF i]] openTask_def by metis
  then show ?thesis
    using onboardInv_keyed [OF i] onboardInv_running [OF i] onboardInv_checklist [OF i] onboardInv_task [OF i] k l
    unfolding onboardInv_def finishedRight_def stamped_def openTask_def u(2) by metis
qed

lemma keeps_sendDigest: "keepsS onboardInv (sendDigest now today g)"
proof (cases g)
  case (Pair u kts)
  show ?thesis
    unfolding sendDigest_def Pair prod.case
    by (intro keeps keeps_writeS, rule remind_inv [where K = "set (List.map fst kts)" and now = now]) simp_all
qed

lemma keeps_sendReminders: "keepsS onboardInv (sendReminders h now)"
  unfolding sendReminders_def Let_def by (intro keeps keeps_eachS keeps_sendDigest)

section \<open>Reachable states\<close>

lemma removeTemplate_inv:
  assumes i: "onboardInv s" and u: "removeTemplate k s = Inr u"
  shows "onboardInv u"
proof -
  let ?f = "\<lambda>c. if ck_templateId c = Some k then c\<lparr>ck_templateId := None\<rparr> else c"
  have t: "tasksT u = tasksT s" and l: "lookup (checklistsT u) c = map_option ?f (lookup (checklistsT s) c)"
    and k: "keyed (checklistsT u)" for c
    using u onboardInv_keyed [OF i] by (auto simp: removeTemplate_def bindE_Inr_iff lookup_updateWhere)
  have b: "blocking u = blocking s" by (simp add: fun_eq_iff blocking_def tasksOf_def t)
  have "uniqueBy bothRunning (checklistsT u)"
    by (rule uniqueBy_orig [OF onboardInv_running [OF i]]) (auto simp: l bothRunning_def split: if_splits)
  then show ?thesis
    using onboardInv_checklist [OF i] onboardInv_task [OF i] onboardInv_keyed [OF i] k
    by (auto simp: onboardInv_def t l b finishedRight_def split: if_splits)
qed

inductive onboardStep :: "'a onboarding_state_scheme \<Rightarrow> 'a onboarding_state_scheme \<Rightarrow> bool" where
  begun: "start now hid c f e ty opts s = (r, t) \<Longrightarrow> c \<notin> set (keys (checklistsT s)) \<Longrightarrow> freshTasks f s \<Longrightarrow> onboardStep s t"
| worked: "updateTask now hid k dto actor s = (r, t) \<Longrightarrow> onboardStep s t"
| reassigned: "reassignTask k rd s = Inr t \<Longrightarrow> onboardStep s t"
| cancelled: "cancelChecklist c s = Inr t \<Longrightarrow> onboardStep s t"
| reminded: "sendReminders h now s = (r, t) \<Longrightarrow> onboardStep s t"
| unlinked: "removeTemplate k s = Inr t \<Longrightarrow> onboardStep s t"
| other: "checklistsT t = checklistsT s \<Longrightarrow> tasksT t = tasksT s \<Longrightarrow> onboardStep s t"

lemma onboardStep_inv:
  assumes i: "onboardInv s" and st: "onboardStep s t"
  shows "onboardInv t"
  using st
proof cases
  case (begun now hid c f e ty opts r)
  show ?thesis using start_inv [OF i begun(2,3), of now hid e ty opts] begun(1) by simp
next
  case (worked now hid k dto actor r)
  show ?thesis using updateTask_inv [OF i, of now hid k dto actor] worked by simp
next
  case (reminded h now r)
  show ?thesis by (rule keepsS_run [OF keeps_sendReminders i reminded])
next
  case other
  then show ?thesis using i onboardInv_cong by blast
qed (use reassignTask_inv [OF i] cancelChecklist_inv [OF i] removeTemplate_inv [OF i] in blast)+

definition noChecklists :: "'a onboarding_state_scheme \<Rightarrow> bool" where
  "noChecklists s \<longleftrightarrow> checklistsT s = [] \<and> tasksT s = []"

interpretation onboarding: step_system noChecklists onboardStep onboardInv
  by unfold_locales (simp add: onboardInv_def noChecklists_def keyed_def keys_def lookup_def, erule (1) onboardStep_inv)

definition onboardReachable :: "'a onboarding_state_scheme \<Rightarrow> bool" where
  "onboardReachable t \<longleftrightarrow> (\<exists>s. noChecklists s \<and> onboardStep\<^sup>*\<^sup>* s t)"

lemma onboard_reachable_inv: "onboardReachable s \<Longrightarrow> onboardInv s"
  unfolding onboardReachable_def using onboarding.reach_inv by blast

text \<open>
  C28. Completion means what it says. Whatever happens to checklists (starts, work on tasks,
  reassignments, cancellations, reminders, removal of templates), a person has at most one checklist of
  a type in progress; a checklist is completed exactly when it has a completion instant, and then none
  of its required tasks is open; and a task is closed exactly when it says when and by whom.
\<close>

theorem completed_checklists_sound:
  assumes "onboardReachable s"
  shows "uniqueBy (\<lambda>a b. ck_employeeId a = ck_employeeId b \<and> ck_type a = ck_type b \<and>
      ck_status a = IN_PROGRESS \<and> ck_status b = IN_PROGRESS) (checklistsT s) \<and>
    (\<forall>c ck. lookup (checklistsT s) c = Some ck \<longrightarrow> (ck_status ck = COMPLETED \<longleftrightarrow> ck_completedAt ck \<noteq> None) \<and>
      (ck_status ck = COMPLETED \<longrightarrow>
        (\<forall>k t. lookup (tasksT s) k = Some t \<and> tk_checklistId t = c \<and> tk_isRequired t \<longrightarrow> tk_status t \<in> {DONE, SKIPPED}))) \<and>
    (\<forall>k t. lookup (tasksT s) k = Some t \<longrightarrow>
      (tk_status t \<in> {DONE, SKIPPED} \<longleftrightarrow> tk_completedAt t \<noteq> None \<and> tk_completedByUserId t \<noteq> None))"
proof (intro conjI allI impI)
  have i: "onboardInv s" by (rule onboard_reachable_inv [OF assms])
  show "uniqueBy (\<lambda>a b. ck_employeeId a = ck_employeeId b \<and> ck_type a = ck_type b \<and>
      ck_status a = IN_PROGRESS \<and> ck_status b = IN_PROGRESS) (checklistsT s)"
    using onboardInv_running [OF i] by (simp add: bothRunning_def [abs_def])
  have closed: "tk_status t \<in> {DONE, SKIPPED} \<longleftrightarrow> \<not> openTask t" for t
    by (cases "tk_status t") (simp_all add: openTask_def)
  fix c ck assume l: "lookup (checklistsT s) c = Some ck"
  have f: "finishedRight s c ck" by (rule onboardInv_checklist [OF i l])
  then show "ck_status ck = COMPLETED \<longleftrightarrow> ck_completedAt ck \<noteq> None" by (simp add: finishedRight_def)
  fix k t assume "ck_status ck = COMPLETED" "lookup (tasksT s) k = Some t \<and> tk_checklistId t = c \<and> tk_isRequired t"
  then show "tk_status t \<in> {DONE, SKIPPED}"
    using f unfolding closed finishedRight_def blocking_iff [OF onboardInv_keyed(2) [OF i]] by blast
next
  fix k t assume "lookup (tasksT s) k = Some t"
  then have "stamped t" using onboardInv_task [OF onboard_reachable_inv [OF assms]] by blast
  then show "tk_status t \<in> {DONE, SKIPPED} \<longleftrightarrow> tk_completedAt t \<noteq> None \<and> tk_completedByUserId t \<noteq> None"
    by (cases "tk_status t") (auto simp: stamped_def openTask_def)
qed

section \<open>The end of a checklist\<close>

lemma employeesT_cong_find: "employeesT t = employeesT s \<Longrightarrow> findEmployee t = findEmployee s"
  by (simp add: findEmployee_def fun_eq_iff)

lemma changeStatus_find:
  assumes "changeStatus now hid k st d n a s = Inr t"
  shows "findEmployee t e = (if e = k then map_option (\<lambda>r. r\<lparr>e_status := st\<rparr>) (findEmployee s e) else findEmployee s e)"
  using assms
  by (auto simp: changeStatus_def res_simps employeeById_def emitOrg_def addHistory_def saveEmployee_def findEmployee_def
      lookup_updateRow split: option.splits if_splits)

lemma complete_effect:
  assumes run: "complete now hid c ck s = (Inr (), u)"
  shows "checklistsT u = updateRow c (\<lambda>r. r\<lparr>ck_status := COMPLETED, ck_completedAt := Some now\<rparr>) (checklistsT s)"
    and "tasksT u = tasksT s"
    and "findEmployee u e = (if e = ck_employeeId ck \<and> ck_type ck = ONBOARDING
        then map_option (\<lambda>r. if e_status r = employee_status.ONBOARDING then r\<lparr>e_status := ACTIVE\<rparr> else r) (findEmployee s e)
        else findEmployee s e)"
proof -
  let ?v = "emitChecklist (ChecklistCompleted c (ck_employeeId ck) (ck_type ck))
    (s\<lparr>checklistsT := updateRow c (\<lambda>r. r\<lparr>ck_status := COMPLETED, ck_completedAt := Some now\<rparr>) (checklistsT s)\<rparr>)"
  have fv: "findEmployee ?v = findEmployee s" by (rule employeesT_cong_find) simp
  consider (off) "ck_type ck = OFFBOARDING" "u = ?v"
    | (idle) emp where "ck_type ck = ONBOARDING" "findEmployee s (ck_employeeId ck) = Some emp"
        "e_status emp \<noteq> employee_status.ONBOARDING" "u = ?v"
    | (act) emp where "ck_type ck = ONBOARDING" "findEmployee s (ck_employeeId ck) = Some emp"
        "e_status emp = employee_status.ONBOARDING"
        "changeStatus now hid (ck_employeeId ck) ACTIVE (max (e_hireDate emp) (dayOfMs now))
           (Some ''Onboarding checklist completed'') None ?v = Inr u"
    using run fv
    by (cases "ck_type ck") (auto simp: complete_def thenS_write stepS_Inr employeeById_def orThrow_Inr_iff split: if_splits)
  then show "checklistsT u = updateRow c (\<lambda>r. r\<lparr>ck_status := COMPLETED, ck_completedAt := Some now\<rparr>) (checklistsT s)"
    "tasksT u = tasksT s"
    "findEmployee u e = (if e = ck_employeeId ck \<and> ck_type ck = ONBOARDING
        then map_option (\<lambda>r. if e_status r = employee_status.ONBOARDING then r\<lparr>e_status := ACTIVE\<rparr> else r) (findEmployee s e)
        else findEmployee s e)"
    using fv by (cases; auto dest: changeStatus_checklists simp: changeStatus_find)+
qed


lemma completeIfFinished_Inr:
  assumes "completeIfFinished now hid c v = (Inr (), u)"
  obtains (kept) "u = v" "\<And>ck. lookup (checklistsT v) c = Some ck \<Longrightarrow> ck_status ck \<noteq> IN_PROGRESS \<or> blocking v c"
    | (completed) ck where "lookup (checklistsT v) c = Some ck" "ck_status ck = IN_PROGRESS" "\<not> blocking v c"
        "complete now hid c ck v = (Inr (), u)"
  using assms by (auto simp: completeIfFinished_def stepS_Inr split: option.splits if_splits)


section \<open>The digests of a day\<close>

lemma map_of_putTask: "map_of (putTask u kt m) v =
    (if v = u then Some ((case map_of m u of None \<Rightarrow> [] | Some x \<Rightarrow> x) @ [kt]) else map_of m v)"
  by (induction m) (auto split: option.splits)

lemma fst_putTask: "List.map fst (putTask u kt m) =
    (if u \<in> fst ` set m then List.map fst m else List.map fst m @ [u])"
proof (induction m)
  case (Cons p m)
  obtain v x where p: "p = (v, x)" by (cases p)
  show ?case
  proof (cases "v = u")
    case False
    then have "u \<noteq> v" by simp
    then show ?thesis using Cons False unfolding p by (cases "u \<in> fst ` set m") simp_all
  qed (simp add: p)
qed simp

definition assignedIn :: "(id \<times> checklist_task) list \<Rightarrow> id \<Rightarrow> (id \<times> checklist_task) list" where
  "assignedIn kts v = List.filter (\<lambda>kt. tk_assigneeUserId (snd kt) = Some v) kts"

lemma byAssignee_snoc: "byAssignee (kts @ [kt]) =
    (case tk_assigneeUserId (snd kt) of None \<Rightarrow> byAssignee kts | Some u \<Rightarrow> putTask u kt (byAssignee kts))"
  by (simp add: byAssignee_def split: option.split)

lemma map_of_byAssignee: "map_of (byAssignee kts) v = (if assignedIn kts v = [] then None else Some (assignedIn kts v))"
proof (induction kts rule: rev_induct)
  case (snoc kt kts)
  then show ?case by (cases "tk_assigneeUserId (snd kt)") (auto simp: byAssignee_snoc map_of_putTask assignedIn_def)
qed (simp add: byAssignee_def assignedIn_def)

lemma distinct_byAssignee: "distinct (List.map fst (byAssignee kts))"
proof (induction kts rule: rev_induct)
  case (snoc kt kts)
  then show ?case by (cases "tk_assigneeUserId (snd kt)") (auto simp: byAssignee_snoc fst_putTask)
qed (simp add: byAssignee_def)

lemma byAssignee_mem: "(v, ks) \<in> set (byAssignee kts) \<longleftrightarrow> ks = assignedIn kts v \<and> ks \<noteq> []"
  using map_of_eq_Some_iff [OF distinct_byAssignee, of kts v ks] by (auto simp: map_of_byAssignee split: if_splits)

definition remindedIn :: "(id \<times> (id \<times> checklist_task) list) list \<Rightarrow> id set" where
  "remindedIn gs = (\<Union>g\<in>set gs. fst ` set (snd g))"

lemma sendDigests_effect:
  "eachS (sendDigest now today) gs s = (Inr (), u) \<Longrightarrow>
    digests u = digests s @ List.map (\<lambda>(v, kts). (v, List.map fst kts, today)) gs \<and>
    tasksT u = List.map (\<lambda>(k, t). (k, if k \<in> remindedIn gs then t\<lparr>tk_lastRemindedAt := Some now\<rparr> else t)) (tasksT s) \<and>
    checklistsT u = checklistsT s"
proof (induction gs arbitrary: s)
  case Nil
  then show ?case by (auto simp: returnS_def remindedIn_def case_prod_unfold)
next
  case (Cons g gs)
  obtain v kts where g: "g = (v, kts)" by (cases g)
  let ?s' = "s\<lparr>digests := digests s @ [(v, List.map fst kts, today)],
     tasksT := List.map (\<lambda>(k, t). (k, if k \<in> set (List.map fst kts) then t\<lparr>tk_lastRemindedAt := Some now\<rparr> else t)) (tasksT s)\<rparr>"
  have "eachS (sendDigest now today) gs ?s' = (Inr (), u)"
    using Cons.prems g by (auto simp: stepS_Inr sendDigest_def)
  from Cons.IH [OF this] show ?case by (auto simp: g remindedIn_def comp_def case_prod_unfold)
qed

lemma sendReminders_Inr: "sendReminders h now s = (Inr n, u) \<longleftrightarrow>
    (let gs = byAssignee (dueTasks (dayOfMs now) (addDays (dayOfMs now) h) s)
     in n = length gs \<and> eachS (sendDigest now (dayOfMs now)) gs s = (Inr (), u))"
  by (auto simp: sendReminders_def Let_def stepS_Inr)

lemma dueTasks_mem: "(k, t) \<in> set (dueTasks today cutoff s) \<longleftrightarrow> (k, t) \<in> set (tasksT s) \<and> openTask t \<and> tk_dueDate t \<le> cutoff \<and>
    (case taskChecklist s t of None \<Rightarrow> False | Some c \<Rightarrow> ck_status c = IN_PROGRESS) \<and>
    (case tk_lastRemindedAt t of None \<Rightarrow> True | Some r \<Rightarrow> r < today * 86400000)"
  by (auto simp: dueTasks_def)

lemma reminded_not_due:
  assumes gs: "gs = byAssignee (dueTasks (dayOfMs now) cutoff s)"
    and t: "tasksT u = List.map (\<lambda>(k, t). (k, if k \<in> remindedIn gs then t\<lparr>tk_lastRemindedAt := Some now\<rparr> else t)) (tasksT s)"
    and c: "checklistsT u = checklistsT s"
  shows "byAssignee (dueTasks (dayOfMs now) cutoff u) = []"
proof (rule ccontr)
  assume "byAssignee (dueTasks (dayOfMs now) cutoff u) \<noteq> []"
  then obtain v ks where "(v, ks) \<in> set (byAssignee (dueTasks (dayOfMs now) cutoff u))" by (metis list.set_intros(1) neq_Nil_conv surj_pair)
  then obtain k q where q: "(k, q) \<in> set (dueTasks (dayOfMs now) cutoff u)" "tk_assigneeUserId q = Some v"
    by (auto simp: byAssignee_mem assignedIn_def filter_empty_conv)
  obtain q0 where q0: "(k, q0) \<in> set (tasksT s)" "q = (if k \<in> remindedIn gs then q0\<lparr>tk_lastRemindedAt := Some now\<rparr> else q0)"
    using q(1) by (auto simp: dueTasks_mem t)
  show False
  proof (cases "k \<in> remindedIn gs")
    case True
    then have "now < dayOfMs now * 86400000" using q(1) q0 by (auto simp: dueTasks_mem)
    then show False unfolding dayOfMs_def by (metis div_mult_mod_eq less_add_same_cancel1 not_less pos_mod_sign zero_less_numeral add.commute le_add_same_cancel1 linorder_not_le)
  next
    case False
    then have "(k, q) \<in> set (dueTasks (dayOfMs now) cutoff s)" using q(1) q0 by (auto simp: dueTasks_mem taskChecklist_def c)
    then have "(v, assignedIn (dueTasks (dayOfMs now) cutoff s) v) \<in> set gs" "(k, q) \<in> set (assignedIn (dueTasks (dayOfMs now) cutoff s) v)"
      using q(2) unfolding gs byAssignee_mem assignedIn_def filter_empty_conv by fastforce+
    then have "k \<in> remindedIn gs" unfolding remindedIn_def by force
    then show False using False by simp
  qed
qed

text \<open>
  One digest per person and day. A run of the daily job gives each login with due tasks (open, due
  within the horizon, of a running checklist and not reminded of today) one digest with exactly those
  tasks, and answers their number; running it again the same day sends nothing and changes nothing.
\<close>

theorem one_digest_a_day:
  assumes "sendReminders h now s = (Inr n, u)" "dayOfMs now' = dayOfMs now"
  shows "let due = dueTasks (dayOfMs now) (addDays (dayOfMs now) h) s;
      new = drop (length (digests s)) (digests u)
    in digests u = digests s @ new \<and> length new = n \<and> distinct (List.map fst new) \<and>
      (\<forall>v ks d. (v, ks, d) \<in> set new \<longleftrightarrow> d = dayOfMs now \<and> ks \<noteq> [] \<and>
         ks = List.map fst (List.filter (\<lambda>(k, t). tk_assigneeUserId t = Some v) due)) \<and>
      sendReminders h now' u = (Inr 0, u)"
proof -
  define due where "due = dueTasks (dayOfMs now) (addDays (dayOfMs now) h) s"
  define gs where "gs = byAssignee due"
  have run: "n = length gs" "eachS (sendDigest now (dayOfMs now)) gs s = (Inr (), u)"
    using assms(1) by (simp_all add: sendReminders_Inr Let_def gs_def due_def)
  let ?new = "List.map (\<lambda>(v, kts). (v, List.map fst kts, dayOfMs now)) gs"
  have u: "digests u = digests s @ ?new" "checklistsT u = checklistsT s"
    "tasksT u = List.map (\<lambda>(k, t). (k, if k \<in> remindedIn gs then t\<lparr>tk_lastRemindedAt := Some now\<rparr> else t)) (tasksT s)"
    using sendDigests_effect [OF run(2)] by auto
  have "byAssignee (dueTasks (dayOfMs now) (addDays (dayOfMs now) h) u) = []"
    by (rule reminded_not_due [OF _ u(3,2)]) (simp add: gs_def due_def)
  then have again: "sendReminders h now' u = (Inr 0, u)"
    using assms(2) by (simp add: sendReminders_Inr Let_def returnS_def)
  have "distinct (List.map fst ?new)"
    using distinct_byAssignee [of due] by (simp add: gs_def comp_def case_prod_unfold)
  moreover have "(v, ks, d) \<in> set ?new \<longleftrightarrow> d = dayOfMs now \<and> ks \<noteq> [] \<and>
      ks = List.map fst (List.filter (\<lambda>(k, t). tk_assigneeUserId t = Some v) due)" for v ks d
  proof -
    have "(v, ks, d) \<in> set ?new \<longleftrightarrow> (\<exists>kts. (v, kts) \<in> set gs \<and> ks = List.map fst kts \<and> d = dayOfMs now)" by force
    then show ?thesis by (auto simp: gs_def byAssignee_mem assignedIn_def case_prod_unfold)
  qed
  ultimately show ?thesis using u(1) run(1) again by (simp add: Let_def due_def)
qed


section \<open>Witnesses\<close>

definition demoTemplate :: checklist_template where
  "demoTemplate = \<lparr>tp_name = ''Joiner'', tp_type = ONBOARDING, tp_description = None, tp_departmentId = None, tp_isActive = True\<rparr>"

definition demoItem :: template_item where
  "demoItem = \<lparr>ti_templateId = 1, ti_title = ''Contract'', ti_description = None, ti_assigneeRule = EMPLOYEE,
     ti_assigneeRoleName = None, ti_dueOffsetDays = 0, ti_sortOrder = 0, ti_isRequired = True\<rparr>"

definition demoOnboard :: onboarding_state where
  "demoOnboard = saveEmployee 1 (\<lambda>e. e\<lparr>e_status := employee_status.ONBOARDING\<rparr>)
     (attendance_state.extend (demoAttend []) (onboarding_state.fields [(1, demoTemplate)] [(1, demoItem)] [] [] [] []))"

text \<open>Ada (1), who logs in as 5, gets her checklist and closes its one task.\<close>

definition demoBegun :: onboarding_state where
  "demoBegun = snd (start demoIn 1 1 (\<lambda>n. n) 1 ONBOARDING
     \<lparr>so_templateId = None, so_anchorDate = Some (dayOfMs demoIn), so_actorUserId = None\<rparr> demoOnboard)"

definition demoDone :: update_task_dto where
  "demoDone = \<lparr>td_status = Some DONE, td_notes = None, td_documentId = None\<rparr>"

definition demoEnded :: onboarding_state where
  "demoEnded = snd (updateTask (demoIn + 60000) 2 0 demoDone demoActor demoBegun)"

text \<open>What these runs answer, evaluated once.\<close>

lemma demo_checklist_runs:
  "(let s = demoBegun in (lookup (tasksT s) 0, lookup (checklistsT s) 1, map_option e_status (findEmployee s 1),
      fst (sendReminders 1 demoIn s),
      let (r, t) = updateTask (demoIn + 60000) 2 0 demoDone demoActor s in
        (r, blocking t 1, map_option ck_status (lookup (checklistsT t) 1)))) =
   (Some (newTask demoOnboard 1 (dayOfMs demoIn) (snd (hd (employeesT demoLinked))) (1, demoItem)),
    Some \<lparr>ck_employeeId = 1, ck_templateId = Some 1, ck_type = ONBOARDING,
      ck_status = IN_PROGRESS, ck_anchorDate = dayOfMs demoIn, ck_completedAt = None, ck_createdByUserId = None\<rparr>,
    Some employee_status.ONBOARDING, Inr 1, Inr (), False, Some COMPLETED)"
  by code_simp

lemmas demo_checklist_facts = demo_checklist_runs [unfolded Let_def split_beta prod.inject, folded demoEnded_def]

lemma demo_begun_tasks: "lookup (tasksT demoBegun) 0 = Some (newTask demoOnboard 1 (dayOfMs demoIn) (snd (hd (employeesT demoLinked))) (1, demoItem))"
  using demo_checklist_facts by (elim conjE)

lemma demo_done_runs: "fst (updateTask (demoIn + 60000) 2 0 demoDone demoActor demoBegun) = Inr ()"
  using demo_checklist_facts by (elim conjE)

lemma demo_begun_reachable: "onboardReachable demoBegun"
proof -
  have "noChecklists demoOnboard" by (simp add: noChecklists_def demoOnboard_def saveEmployee_def demoAttend_def leave_state.defs
    attendance_state.defs onboarding_state.defs)
  then have e: "checklistsT demoOnboard = []" "tasksT demoOnboard = []" by (simp_all add: noChecklists_def)
  have "onboardStep demoOnboard demoBegun"
    unfolding demoBegun_def
    by (rule begun [OF surjective_pairing]) (simp_all add: e keys_def freshTasks_def)
  then show ?thesis using \<open>noChecklists demoOnboard\<close> unfolding onboardReachable_def by blast
qed

lemma demo_ended_reachable: "onboardReachable demoEnded"
proof -
  have "onboardStep demoBegun demoEnded" unfolding demoEnded_def by (rule worked [OF surjective_pairing])
  then show ?thesis using demo_begun_reachable unfolding onboardReachable_def by (meson rtranclp.rtrancl_into_rtrancl)
qed


theorem completed_checklists_sound_witness:
  "ck_completedAt (the (lookup (checklistsT demoEnded) 1)) \<noteq> None"
proof -
  have "map_option ck_status (lookup (checklistsT demoEnded) 1) = Some COMPLETED" using demo_checklist_facts by (elim conjE)
  then show ?thesis using completed_checklists_sound [OF demo_ended_reachable] by auto
qed

theorem one_digest_a_day_witness:
  "sendReminders 1 (demoIn + 60000) (snd (sendReminders 1 demoIn demoBegun)) =
     (Inr 0, snd (sendReminders 1 demoIn demoBegun))"
proof -
  have "fst (sendReminders 1 demoIn demoBegun) = Inr 1" using demo_checklist_facts by (elim conjE)
  then have run: "sendReminders 1 demoIn demoBegun = (Inr 1, snd (sendReminders 1 demoIn demoBegun))"
    by (simp add: prod_eq_iff)
  have "dayOfMs (demoIn + 60000) = dayOfMs demoIn" by (simp add: dayOfMs_def demoIn_def)
  from one_digest_a_day [OF run this] show ?thesis by (simp add: Let_def)
qed

section \<open>Where the code departs\<close>

text \<open>
  Replacing the items of a template deletes the old ones before the template is saved, outside a
  transaction: with a department that does not exist the save fails and the items are gone.
\<close>

theorem failed_update_loses_items:
  assumes "templateById s k = Inr t" "tu_items dto = Some is" "validateItems s is = Inr ()"
    "tu_departmentId dto = Some (Some d)" "lookup (departmentsT s) d = None"
  shows "updateTemplate k newId dto s = (Inl (BadRequest ''Referenced resource does not exist''),
      s\<lparr>itemsT := deleteWhere (\<lambda>i. ti_templateId i = k) (itemsT s)\<rparr>)"
  using assms
  by (simp add: updateTemplate_def Let_def bindS_def thenS_def readS_def writeS_def tryS_def throwIf_def departmentKnown_def patched_def)

end
