(* ===== verification/Performance.thy ===== *)
theory Performance
  imports Onboarding
begin

text \<open>
  Performance reviews (\<open>modules/performance\<close>): cycles and their phases, the reviews of a cycle from the
  self-assessment to the acknowledgement, peer feedback, goals and the reminders. A notification is an
  entry of \<open>reviewNotices\<close>.
\<close>

section \<open>Rows\<close>

datatype cycle_phase = DRAFT | SELF_REVIEW | MANAGER_REVIEW | CALIBRATION | CLOSED

definition PHASE_ORDER :: "cycle_phase list" where
  "PHASE_ORDER = [cycle_phase.DRAFT, SELF_REVIEW, MANAGER_REVIEW, CALIBRATION, CLOSED]"

record rating_level =
  rl_value :: int
  rl_label :: string

definition DEFAULT_RATING_SCALE :: "rating_level list" where
  "DEFAULT_RATING_SCALE =
     [\<lparr>rl_value = 1, rl_label = ''Needs improvement''\<rparr>, \<lparr>rl_value = 2, rl_label = ''Developing''\<rparr>,
      \<lparr>rl_value = 3, rl_label = ''Meets expectations''\<rparr>, \<lparr>rl_value = 4, rl_label = ''Exceeds expectations''\<rparr>,
      \<lparr>rl_value = 5, rl_label = ''Exceptional''\<rparr>]"

record review_cycle =
  cy_name :: string
  cy_description :: "string option"
  cy_periodStart :: date
  cy_periodEnd :: date
  cy_phase :: cycle_phase
  cy_selfReviewDeadline :: date
  cy_managerReviewDeadline :: date
  cy_departmentId :: "id option"
  cy_ratingScale :: "rating_level list"
  cy_competencies :: "string list"
  cy_launchedAt :: "int option"
  cy_closedAt :: "int option"
  cy_createdByUserId :: "id option"

datatype review_status = PENDING_SELF | PENDING_MANAGER | PENDING_CALIBRATION | COMPLETED | ACKNOWLEDGED

text \<open>The scores arrive as any JSON value, in the order of \<open>Object.entries\<close>.\<close>

datatype score = Score rat | NoNumber

record assessment =
  as_summary :: string
  as_achievements :: "string option"
  as_challenges :: "string option"
  as_competencies :: "(string \<times> score) list"

record assessment_dto = assessment +
  ad_rating :: int

record review =
  rv_cycleId :: id
  rv_employeeId :: id
  rv_reviewerUserId :: "id option"
  rv_status :: review_status
  rv_selfAssessment :: "assessment option"
  rv_selfRating :: "int option"
  rv_selfSubmittedAt :: "int option"
  rv_managerAssessment :: "assessment option"
  rv_managerRating :: "int option"
  rv_managerSubmittedAt :: "int option"
  rv_finalRating :: "int option"
  rv_calibrated :: bool
  rv_calibrationNote :: "string option"
  rv_acknowledgedAt :: "int option"
  rv_employeeComment :: "string option"

datatype feedback_status = REQUESTED | SUBMITTED | DECLINED

record feedback_answers =
  fa_strengths :: string
  fa_improvements :: string
  fa_rating :: "int option"

record review_feedback =
  fb_reviewId :: id
  fb_requestedByUserId :: "id option"
  fb_giverUserId :: id
  fb_status :: feedback_status
  fb_answers :: "feedback_answers option"
  fb_submittedAt :: "int option"

datatype goal_status = DRAFT | ACTIVE | COMPLETED | CANCELLED

record goal =
  go_employeeId :: id
  go_cycleId :: "id option"
  go_title :: string
  go_description :: "string option"
  go_weight :: int
  go_status :: goal_status
  go_progress :: int
  go_dueDate :: "date option"
  go_approvedByUserId :: "id option"
  go_approvedAt :: "int option"
  go_createdByUserId :: "id option"

datatype review_notice =
    CycleLaunched id id id
  | ReviewCompleted id id string
  | FeedbackRequested id id
  | SelfReviewDue id id date
  | TeamReviewsDue id id nat date

record performance_state = onboarding_state +
  cyclesT :: "review_cycle table"
  reviewsT :: "review table"
  feedbackT :: "review_feedback table"
  goalsT :: "goal table"
  reviewNotices :: "review_notice list"

definition notifyReview :: "review_notice \<Rightarrow> 'a performance_state_scheme \<Rightarrow> 'a performance_state_scheme" where
  "notifyReview n s = s\<lparr>reviewNotices := reviewNotices s @ [n]\<rparr>"

section \<open>Cycles\<close>

record create_cycle_dto =
  cc_name :: string
  cc_description :: "string option"
  cc_periodStart :: date
  cc_periodEnd :: date
  cc_selfReviewDeadline :: date
  cc_managerReviewDeadline :: date
  cc_departmentId :: "id option"
  cc_ratingScale :: "rating_level list option"
  cc_competencies :: "string list option"

text \<open>For nullable fields \<open>Some None\<close> is a null.\<close>

record update_cycle_dto =
  cu_name :: "string option"
  cu_description :: "string option option"
  cu_periodStart :: "date option"
  cu_periodEnd :: "date option"
  cu_selfReviewDeadline :: "date option"
  cu_managerReviewDeadline :: "date option"
  cu_departmentId :: "id option option"
  cu_ratingScale :: "rating_level list option"
  cu_competencies :: "string list option"

record cycle_query = page_query +
  yq_phase :: "cycle_phase option"

definition listCycles :: "cycle_query \<Rightarrow> 'a performance_state_scheme \<Rightarrow> (id \<times> review_cycle) list \<times> page_meta" where
  "listCycles q s = pageOf q (sort_key (\<lambda>(_, c). - cy_periodStart c)
     (List.filter (\<lambda>(_, c). yq_phase q \<in> {None, Some (cy_phase c)}) (cyclesT s)))"

definition cycleById :: "'a performance_state_scheme \<Rightarrow> id \<Rightarrow> review_cycle res" where
  "cycleById s k = orThrow (lookup (cyclesT s) k) (NotFound ''Review cycle not found'') Inr"

definition normaliseScale :: "rating_level list \<Rightarrow> rating_level list res" where
  "normaliseScale scale =
     (let sorted = sort_key rl_value scale
      in throwIf (\<not> distinct (List.map rl_value sorted)) (BadRequest ''Rating scale values must be unique'') (Inr sorted))"

definition validateDates :: "date \<Rightarrow> date \<Rightarrow> date \<Rightarrow> date \<Rightarrow> unit res" where
  "validateDates periodStart periodEnd selfDeadline managerDeadline =
     throwIf (periodEnd < periodStart) (BadRequest ''periodEnd must be on or after periodStart'')
     (throwIf (managerDeadline < selfDeadline)
        (BadRequest ''managerReviewDeadline must be on or after selfReviewDeadline'') (Inr ()))"

definition createCycle ::
  "id \<Rightarrow> create_cycle_dto \<Rightarrow> id \<Rightarrow> 'a performance_state_scheme \<Rightarrow> 'a performance_state_scheme res" where
  "createCycle k dto actor s =
     bindE (validateDates (cc_periodStart dto) (cc_periodEnd dto) (cc_selfReviewDeadline dto) (cc_managerReviewDeadline dto)) (\<lambda>_.
     bindE (normaliseScale (patched DEFAULT_RATING_SCALE (cc_ratingScale dto))) (\<lambda>scale.
     throwIf (\<not> departmentKnown s (cc_departmentId dto)) (BadRequest ''Referenced resource does not exist'')
     (Inr (s\<lparr>cyclesT := insertRow k
        \<lparr>cy_name = cc_name dto, cy_description = cc_description dto, cy_periodStart = cc_periodStart dto,
         cy_periodEnd = cc_periodEnd dto, cy_phase = cycle_phase.DRAFT,
         cy_selfReviewDeadline = cc_selfReviewDeadline dto, cy_managerReviewDeadline = cc_managerReviewDeadline dto,
         cy_departmentId = cc_departmentId dto, cy_ratingScale = scale, cy_competencies = patched [] (cc_competencies dto),
         cy_launchedAt = None, cy_closedAt = None, cy_createdByUserId = Some actor\<rparr> (cyclesT s)\<rparr>))))"

definition patchCycle :: "update_cycle_dto \<Rightarrow> rating_level list \<Rightarrow> review_cycle \<Rightarrow> review_cycle" where
  "patchCycle dto scale c = c
     \<lparr>cy_ratingScale := scale, cy_competencies := patched (cy_competencies c) (cu_competencies dto),
      cy_departmentId := patched (cy_departmentId c) (cu_departmentId dto), cy_name := patched (cy_name c) (cu_name dto),
      cy_description := patched (cy_description c) (cu_description dto),
      cy_periodStart := patched (cy_periodStart c) (cu_periodStart dto), cy_periodEnd := patched (cy_periodEnd c) (cu_periodEnd dto),
      cy_selfReviewDeadline := patched (cy_selfReviewDeadline c) (cu_selfReviewDeadline dto),
      cy_managerReviewDeadline := patched (cy_managerReviewDeadline c) (cu_managerReviewDeadline dto)\<rparr>"

definition updateCycle ::
  "id \<Rightarrow> update_cycle_dto \<Rightarrow> 'a performance_state_scheme \<Rightarrow> 'a performance_state_scheme res" where
  "updateCycle k dto s =
     bindE (cycleById s k) (\<lambda>c.
     throwIf (cy_phase c \<noteq> cycle_phase.DRAFT \<and> (cu_departmentId dto \<noteq> None \<or> cu_ratingScale dto \<noteq> None \<or> cu_competencies dto \<noteq> None))
       (BadRequest ''Scope, rating scale and competencies cannot change after launch'')
     (bindE (case cu_ratingScale dto of None \<Rightarrow> Inr (cy_ratingScale c) | Some sc \<Rightarrow> normaliseScale sc) (\<lambda>scale.
     let c' = patchCycle dto scale c
     in bindE (validateDates (cy_periodStart c') (cy_periodEnd c') (cy_selfReviewDeadline c') (cy_managerReviewDeadline c')) (\<lambda>_.
       throwIf (\<not> departmentKnown s (cy_departmentId c')) (BadRequest ''Referenced resource does not exist'')
       (Inr (s\<lparr>cyclesT := updateRow k (\<lambda>_. c') (cyclesT s)\<rparr>))))))"

text \<open>Reviews and their feedback go with the cycle, goals lose the reference.\<close>

definition removeCycle :: "id \<Rightarrow> 'a performance_state_scheme \<Rightarrow> 'a performance_state_scheme res" where
  "removeCycle k s =
     bindE (cycleById s k) (\<lambda>c.
     throwIf (cy_phase c \<noteq> cycle_phase.DRAFT) (BadRequest ''Only draft cycles can be deleted'')
     (Inr (s\<lparr>cyclesT := deleteRow k (cyclesT s),
        feedbackT := deleteWhere (\<lambda>f. case lookup (reviewsT s) (fb_reviewId f) of None \<Rightarrow> False | Some r \<Rightarrow> rv_cycleId r = k) (feedbackT s),
        reviewsT := deleteWhere (\<lambda>r. rv_cycleId r = k) (reviewsT s),
        goalsT := updateWhere (\<lambda>g. go_cycleId g = Some k) (\<lambda>g. g\<lparr>go_cycleId := None\<rparr>) (goalsT s)\<rparr>)))"

text \<open>
  The query of the departments below has no depth limit; \<open>None\<close> is a query that has not ended within
  more levels than there are departments.
\<close>

definition departmentSubtree :: "'a performance_state_scheme \<Rightarrow> id \<Rightarrow> id list option" where
  "departmentSubtree s d =
     subLevels (departmentsT s) (Suc (length (departmentsT s))) (if lookup (departmentsT s) d = None then [] else [d])"

definition inScope :: "id list option \<Rightarrow> employee \<Rightarrow> bool" where
  "inScope scope e \<longleftrightarrow> e_deletedAt e = None \<and> e_status e \<noteq> TERMINATED \<and>
     (case scope of None \<Rightarrow> True | Some ds \<Rightarrow> e_departmentId e \<in> set ds)"

definition newReview :: "'a performance_state_scheme \<Rightarrow> id \<Rightarrow> id \<times> employee \<Rightarrow> review" where
  "newReview s k = (\<lambda>(e, emp).
     \<lparr>rv_cycleId = k, rv_employeeId = e, rv_reviewerUserId = managerLogin s emp, rv_status = PENDING_SELF,
      rv_selfAssessment = None, rv_selfRating = None, rv_selfSubmittedAt = None, rv_managerAssessment = None,
      rv_managerRating = None, rv_managerSubmittedAt = None, rv_finalRating = None, rv_calibrated = False,
      rv_calibrationNote = None, rv_acknowledgedAt = None, rv_employeeComment = None\<rparr>)"

text \<open>\<open>newId\<close> gives the key of the review of an employee.\<close>

definition launchIn ::
  "int \<Rightarrow> (id \<Rightarrow> id) \<Rightarrow> id \<Rightarrow> id list option \<Rightarrow> ('a performance_state_scheme, nat) act" where
  "launchIn now newId k scope =
     bindS (readS (\<lambda>s. let emps = List.filter (\<lambda>(_, e). inScope scope e) (employeesT s)
        in throwIf (emps = []) (BadRequest ''No employees in scope'') (Inr emps))) (\<lambda>emps.
     thenS (tryS (\<lambda>s. throwIf (list_ex (\<lambda>r. rv_cycleId r = k \<and> rv_employeeId r \<in> fst ` set emps) (rows (reviewsT s)))
        (Conflict ''Resource already exists'')
        (Inr (s\<lparr>reviewsT := reviewsT s @ List.map (\<lambda>ke. (newId (fst ke), newReview s k ke)) emps\<rparr>))))
     (thenS (writeS (\<lambda>s. s\<lparr>cyclesT := updateRow k (\<lambda>c. c\<lparr>cy_phase := SELF_REVIEW, cy_launchedAt := Some now\<rparr>) (cyclesT s)\<rparr>))
     (thenS (eachS (\<lambda>(e, emp). case e_userId emp of None \<Rightarrow> returnS () | Some u \<Rightarrow> writeS (notifyReview (CycleLaunched k e u))) emps)
     (returnS (length emps)))))"

definition launch ::
  "int \<Rightarrow> (id \<Rightarrow> id) \<Rightarrow> id \<Rightarrow> 'a performance_state_scheme \<Rightarrow> (nat res \<times> 'a performance_state_scheme) option" where
  "launch now newId k s =
     (case bindE (cycleById s k) (\<lambda>c. throwIf (cy_phase c \<noteq> cycle_phase.DRAFT) (BadRequest ''Cycle has already been launched'') (Inr c)) of
        Inl e \<Rightarrow> Some (Inl e, s)
      | Inr c \<Rightarrow> map_option (\<lambda>scope. launchIn now newId k scope s)
          (case cy_departmentId c of None \<Rightarrow> Some None | Some d \<Rightarrow> map_option Some (departmentSubtree s d)))"

text \<open>Names of departments are compared by \<open>localeCompare\<close>, an order given by the keys \<open>coll\<close>.\<close>

record report_row =
  rr_departmentId :: id
  rr_department :: string
  rr_reviews :: nat
  rr_completed :: nat
  rr_acknowledged :: nat
  rr_distribution :: "(int \<times> nat) list"
  rr_sum :: int
  rr_rated :: nat

definition reportRows :: "'a performance_state_scheme \<Rightarrow> id \<Rightarrow> (id \<times> string \<times> review_status \<times> int option) list" where
  "reportRows s k = List.map_filter (\<lambda>r. if rv_cycleId r \<noteq> k then None else
       (case findEmployee s (rv_employeeId r) of None \<Rightarrow> None
        | Some e \<Rightarrow> map_option (\<lambda>d. (e_departmentId e, d_name d, rv_status r, rv_finalRating r)) (lookup (departmentsT s) (e_departmentId e))))
     (rows (reviewsT s))"

fun bumpCount :: "int \<Rightarrow> (int \<times> nat) list \<Rightarrow> (int \<times> nat) list" where
  "bumpCount v [] = [(v, 1)]"
| "bumpCount v ((w, n) # m) = (if w = v then (w, Suc n) # m else (w, n) # bumpCount v m)"

definition countReview :: "review_status \<Rightarrow> int option \<Rightarrow> report_row \<Rightarrow> report_row" where
  "countReview st fr row =
     (let r1 = row\<lparr>rr_reviews := Suc (rr_reviews row),
                   rr_completed := (if st \<in> {review_status.COMPLETED, ACKNOWLEDGED} then Suc (rr_completed row) else rr_completed row),
                   rr_acknowledged := (if st = ACKNOWLEDGED then Suc (rr_acknowledged row) else rr_acknowledged row)\<rparr>
      in case fr of None \<Rightarrow> r1
         | Some v \<Rightarrow> r1\<lparr>rr_sum := rr_sum r1 + v, rr_rated := Suc (rr_rated r1), rr_distribution := bumpCount v (rr_distribution r1)\<rparr>)"

fun putReview :: "id \<times> string \<times> review_status \<times> int option \<Rightarrow> report_row list \<Rightarrow> report_row list" where
  "putReview (d, nm, st, fr) [] = [countReview st fr
     \<lparr>rr_departmentId = d, rr_department = nm, rr_reviews = 0, rr_completed = 0, rr_acknowledged = 0, rr_distribution = [],
      rr_sum = 0, rr_rated = 0\<rparr>]"
| "putReview (d, nm, st, fr) (row # m) = (if rr_departmentId row = d then countReview st fr row # m else row # putReview (d, nm, st, fr) m)"

definition averageOf :: "report_row \<Rightarrow> rat option" where
  "averageOf row = (if rr_rated row = 0 then None
     else Some (ddiv (of_int (jsRound (dmul (ddiv (of_int (rr_sum row)) (of_nat (rr_rated row))) 100))) 100))"

definition cycleReport :: "(string \<Rightarrow> 'k :: linorder) \<Rightarrow> id \<Rightarrow> 'a performance_state_scheme \<Rightarrow> (report_row \<times> rat option) list res" where
  "cycleReport coll k s = bindE (cycleById s k) (\<lambda>_.
     Inr (sort_key (\<lambda>(row, _). coll (rr_department row))
       (List.map (\<lambda>row. (row, averageOf row)) (foldl (\<lambda>m x. putReview x m) [] (reportRows s k)))))"

section \<open>The phases of a cycle\<close>

definition labelOf :: "review_cycle \<Rightarrow> int \<Rightarrow> string" where
  "labelOf c v = (case List.find (\<lambda>l. rl_value l = v) (cy_ratingScale c) of Some l \<Rightarrow> rl_label l | None \<Rightarrow> decString (nat v))"

definition notifyClosed :: "id \<Rightarrow> review_cycle \<Rightarrow> ('a performance_state_scheme, unit) act" where
  "notifyClosed k c =
     bindS (readS (\<lambda>s. Inr (List.filter (\<lambda>(_, r). rv_cycleId r = k) (reviewsT s)))) (\<lambda>rs.
     eachS (\<lambda>(j, r). bindS (readS (\<lambda>s. orThrow (findEmployee s (rv_employeeId r)) (InternalError ''TypeError'') Inr)) (\<lambda>e.
       case (e_userId e, rv_finalRating r) of (Some u, Some v) \<Rightarrow> writeS (notifyReview (ReviewCompleted j u (labelOf c v)))
       | _ \<Rightarrow> returnS ())) rs)"

definition closeReview :: "review \<Rightarrow> review" where
  "closeReview r = r\<lparr>rv_finalRating := (case rv_finalRating r of None \<Rightarrow> rv_managerRating r | x \<Rightarrow> x), rv_status := review_status.COMPLETED\<rparr>"

definition nextPhase :: "cycle_phase \<Rightarrow> cycle_phase" where
  "nextPhase p = (case List.find (\<lambda>(x, _). x = p) (List.zip PHASE_ORDER (tl PHASE_ORDER)) of Some (_, y) \<Rightarrow> y | None \<Rightarrow> p)"

definition moveReviews :: "id \<Rightarrow> cycle_phase \<Rightarrow> review table \<Rightarrow> review table" where
  "moveReviews k nxt T =
     (if nxt = MANAGER_REVIEW then updateWhere (\<lambda>r. rv_cycleId r = k \<and> rv_status r = PENDING_SELF) (\<lambda>r. r\<lparr>rv_status := PENDING_MANAGER\<rparr>) T
      else if nxt = CALIBRATION then
        updateWhere (\<lambda>r. rv_cycleId r = k \<and> rv_status r = PENDING_MANAGER) (\<lambda>r. r\<lparr>rv_status := PENDING_CALIBRATION\<rparr>) T
      else if nxt = CLOSED then updateWhere (\<lambda>r. rv_cycleId r = k \<and> rv_status r \<noteq> ACKNOWLEDGED) closeReview T
      else T)"

definition advance :: "int \<Rightarrow> id \<Rightarrow> ('a performance_state_scheme, unit) act" where
  "advance now k =
     bindS (readS (\<lambda>s. bindE (cycleById s k) (\<lambda>c.
       throwIf (cy_phase c = cycle_phase.DRAFT) (BadRequest ''Launch the cycle first'')
       (throwIf (cy_phase c = CLOSED) (BadRequest ''Cycle is already closed'') (Inr c))))) (\<lambda>c.
     let nxt = nextPhase (cy_phase c)
     in thenS (writeS (\<lambda>s. s\<lparr>reviewsT := moveReviews k nxt (reviewsT s),
          cyclesT := updateRow k (\<lambda>_. c\<lparr>cy_phase := nxt, cy_closedAt := (if nxt = CLOSED then Some now else cy_closedAt c)\<rparr>) (cyclesT s)\<rparr>))
        (whenS (nxt = CLOSED) (notifyClosed k c)))"

section \<open>Reviews\<close>

text \<open>The review with its cycle; the employee is missing once removed, and reading it then is a \<open>TypeError\<close>.\<close>

definition reviewById :: "'a performance_state_scheme \<Rightarrow> id \<Rightarrow> (review \<times> review_cycle) res" where
  "reviewById s k = orThrow (lookup (reviewsT s) k) (NotFound ''Review not found'') (\<lambda>r.
     orThrow (lookup (cyclesT s) (rv_cycleId r)) (InternalError ''TypeError'') (\<lambda>c. Inr (r, c)))"

definition revieweeOf :: "'a performance_state_scheme \<Rightarrow> review \<Rightarrow> employee res" where
  "revieweeOf s r = orThrow (findEmployee s (rv_employeeId r)) (InternalError ''TypeError'') Inr"

record review_query = page_query +
  wq_cycleId :: "id option"
  wq_employeeId :: "id option"
  wq_departmentId :: "id option"
  wq_status :: "review_status option"

definition listReviews ::
  "review_query \<Rightarrow> id list option \<Rightarrow> 'a performance_state_scheme \<Rightarrow> (id \<times> review) list \<times> page_meta" where
  "listReviews q only s =
     (if only = Some [] then pageOf q []
      else pageOf q (List.map (\<lambda>(j, r, _, _). (j, r))
        (sort_key (\<lambda>(_, _, c, _). - cy_periodStart c) (sort_key (\<lambda>(_, _, _, e). e_lastName e)
          (List.map_filter (\<lambda>(j, r). case (lookup (cyclesT s) (rv_cycleId r), findEmployee s (rv_employeeId r)) of
             (Some c, Some e) \<Rightarrow>
               if (case only of None \<Rightarrow> True | Some ids \<Rightarrow> rv_employeeId r \<in> set ids) \<and> wq_cycleId q \<in> {None, Some (rv_cycleId r)} \<and>
                  wq_employeeId q \<in> {None, Some (rv_employeeId r)} \<and> wq_departmentId q \<in> {None, Some (e_departmentId e)} \<and>
                  wq_status q \<in> {None, Some (rv_status r)}
               then Some (j, r, c, e) else None
             | _ \<Rightarrow> None) (reviewsT s))))))"

definition pendingForReviewer :: "id \<Rightarrow> 'a performance_state_scheme \<Rightarrow> (id \<times> review) list" where
  "pendingForReviewer u s =
     List.filter (\<lambda>(_, r). rv_reviewerUserId r = Some u \<and> rv_status r \<in> {PENDING_SELF, PENDING_MANAGER}) (reviewsT s)"

datatype review_role = HrRole | ReviewerRole | EmployeeRole | NoRole

definition roleFor :: "'a performance_state_scheme \<Rightarrow> review \<Rightarrow> auth_user \<Rightarrow> review_role res" where
  "roleFor s r actor =
     (if REVIEW_MANAGE_CYCLES \<in> set (au_permissions actor) then Inr HrRole
      else bindE (revieweeOf s r) (\<lambda>e. Inr
        (if e_userId e = Some (au_id actor) then EmployeeRole
         else if rv_reviewerUserId r = Some (au_id actor) then ReviewerRole
         else if REVIEW_WRITE_TEAM \<in> set (au_permissions actor) \<and> inChainOf s actor (rv_employeeId r) then ReviewerRole
         else NoRole)))"

text \<open>Feedback as it is shown: the giver, with the name, is left out for the reviewee.\<close>

record feedback_view =
  fv_id :: id
  fv_status :: feedback_status
  fv_answers :: "feedback_answers option"
  fv_submittedAt :: "int option"
  fv_giver :: "(id \<times> string option) option"

definition fullName :: "user \<Rightarrow> string" where
  "fullName u = u_firstName u @ '' '' @ u_lastName u"

definition feedbackOf :: "'a performance_state_scheme \<Rightarrow> id \<Rightarrow> (id \<times> review_feedback) list" where
  "feedbackOf s k = List.filter (\<lambda>(_, f). fb_reviewId f = k) (feedbackT s)"

definition namedFeedback :: "'a performance_state_scheme \<Rightarrow> id \<times> review_feedback \<Rightarrow> feedback_view" where
  "namedFeedback s = (\<lambda>(j, f).
     \<lparr>fv_id = j, fv_status = fb_status f, fv_answers = fb_answers f, fv_submittedAt = fb_submittedAt f,
      fv_giver = Some (fb_giverUserId f, map_option fullName (findUser s (fb_giverUserId f)))\<rparr>)"

definition anonymousFeedback :: "id \<times> review_feedback \<Rightarrow> feedback_view" where
  "anonymousFeedback = (\<lambda>(j, f).
     \<lparr>fv_id = j, fv_status = fb_status f, fv_answers = fb_answers f, fv_submittedAt = fb_submittedAt f, fv_giver = None\<rparr>)"

definition viewReview :: "id \<Rightarrow> auth_user \<Rightarrow> 'a performance_state_scheme \<Rightarrow> (review \<times> feedback_view list) res" where
  "viewReview k actor s =
     bindE (reviewById s k) (\<lambda>(r, c). bindE (roleFor s r actor) (\<lambda>role.
     throwIf (role = NoRole) (Forbidden ''Forbidden'')
     (if role = EmployeeRole then
        let closed = (cy_phase c = CLOSED); r1 = r\<lparr>rv_calibrationNote := None\<rparr>
        in Inr (if closed then r1 else r1\<lparr>rv_managerAssessment := None, rv_managerRating := None, rv_finalRating := None\<rparr>,
            if closed then List.map anonymousFeedback (List.filter (\<lambda>(_, f). fb_status f = SUBMITTED) (feedbackOf s k)) else [])
      else Inr (if role = ReviewerRole then r\<lparr>rv_calibrationNote := None\<rparr> else r, List.map (namedFeedback s) (feedbackOf s k)))))"

section \<open>Assessments\<close>

definition onScale :: "review_cycle \<Rightarrow> rat \<Rightarrow> bool" where
  "onScale c v \<longleftrightarrow> list_ex (\<lambda>l. of_int (rl_value l) = v) (cy_ratingScale c)"

definition assertOnScale :: "rat \<Rightarrow> review_cycle \<Rightarrow> unit res" where
  "assertOnScale v c = throwIf (\<not> onScale c v) (BadRequest ''Rating must be one of the scale'') (Inr ())"

fun scoresValid :: "review_cycle \<Rightarrow> (string \<times> score) list \<Rightarrow> unit res" where
  "scoresValid c [] = Inr ()"
| "scoresValid c ((k, v) # xs) =
     throwIf (k \<notin> set (cy_competencies c)) (BadRequest ''Unknown competency'')
     (bindE (case v of Score q \<Rightarrow> assertOnScale q c | NoNumber \<Rightarrow> Inl (BadRequest ''Rating must be one of the scale''))
        (\<lambda>_. scoresValid c xs))"

definition scored :: "assessment_dto \<Rightarrow> string \<Rightarrow> bool" where
  "scored dto k \<longleftrightarrow> (case map_of (as_competencies dto) k of Some (Score _) \<Rightarrow> True | _ \<Rightarrow> False)"

definition validateAssessment :: "assessment_dto \<Rightarrow> review_cycle \<Rightarrow> unit res" where
  "validateAssessment dto c =
     bindE (assertOnScale (of_int (ad_rating dto)) c) (\<lambda>_.
     throwIf (\<not> list_all (scored dto) (cy_competencies c)) (BadRequest ''Score every competency'')
     (scoresValid c (as_competencies dto)))"

definition toAssessment :: "assessment_dto \<Rightarrow> assessment" where
  "toAssessment dto = \<lparr>as_summary = as_summary dto, as_achievements = as_achievements dto,
     as_challenges = as_challenges dto, as_competencies = as_competencies dto\<rparr>"

definition saveReview :: "id \<Rightarrow> review \<Rightarrow> 'a performance_state_scheme \<Rightarrow> 'a performance_state_scheme" where
  "saveReview k r s = s\<lparr>reviewsT := updateRow k (\<lambda>_. r) (reviewsT s)\<rparr>"

definition submitSelf ::
  "int \<Rightarrow> id \<Rightarrow> assessment_dto \<Rightarrow> auth_user \<Rightarrow> 'a performance_state_scheme \<Rightarrow> 'a performance_state_scheme res" where
  "submitSelf now k dto actor s =
     bindE (reviewById s k) (\<lambda>(r, c). bindE (revieweeOf s r) (\<lambda>e.
     throwIf (e_userId e \<noteq> Some (au_id actor)) (Forbidden ''Not your review'')
     (throwIf (cy_phase c \<notin> {SELF_REVIEW, MANAGER_REVIEW}) (BadRequest ''Self-review window is closed'')
     (throwIf (rv_managerSubmittedAt r \<noteq> None) (BadRequest ''Your manager has already submitted; self-review is locked'')
     (bindE (validateAssessment dto c) (\<lambda>_.
     Inr (saveReview k (r\<lparr>rv_selfAssessment := Some (toAssessment dto), rv_selfRating := Some (ad_rating dto),
        rv_selfSubmittedAt := Some now,
        rv_status := (if rv_status r = PENDING_SELF then PENDING_MANAGER else rv_status r)\<rparr>) s)))))))"

definition submitManager ::
  "int \<Rightarrow> id \<Rightarrow> assessment_dto \<Rightarrow> auth_user \<Rightarrow> 'a performance_state_scheme \<Rightarrow> 'a performance_state_scheme res" where
  "submitManager now k dto actor s =
     bindE (reviewById s k) (\<lambda>(r, c). bindE (roleFor s r actor) (\<lambda>role.
     throwIf (role \<notin> {ReviewerRole, HrRole}) (Forbidden ''Only the reviewer or HR can assess'')
     (throwIf (cy_phase c \<notin> {MANAGER_REVIEW, CALIBRATION}) (BadRequest ''Manager-review window is not open'')
     (bindE (validateAssessment dto c) (\<lambda>_.
     Inr (saveReview k (r\<lparr>rv_managerAssessment := Some (toAssessment dto), rv_managerRating := Some (ad_rating dto),
        rv_managerSubmittedAt := Some now,
        rv_status := (if cy_phase c = CALIBRATION then PENDING_CALIBRATION else PENDING_MANAGER)\<rparr>) s))))))"

definition calibrate ::
  "id \<Rightarrow> int \<Rightarrow> string option \<Rightarrow> 'a performance_state_scheme \<Rightarrow> 'a performance_state_scheme res" where
  "calibrate k rating note s =
     bindE (reviewById s k) (\<lambda>(r, c).
     throwIf (cy_phase c \<noteq> CALIBRATION) (BadRequest ''Cycle is not in calibration'')
     (bindE (assertOnScale (of_int rating) c) (\<lambda>_.
     Inr (saveReview k (r\<lparr>rv_finalRating := Some rating, rv_calibrated := True, rv_calibrationNote := note\<rparr>) s))))"

definition acknowledge ::
  "int \<Rightarrow> id \<Rightarrow> string option \<Rightarrow> auth_user \<Rightarrow> 'a performance_state_scheme \<Rightarrow> 'a performance_state_scheme res" where
  "acknowledge now k comment actor s =
     bindE (reviewById s k) (\<lambda>(r, c). bindE (revieweeOf s r) (\<lambda>e.
     throwIf (e_userId e \<noteq> Some (au_id actor)) (Forbidden ''Not your review'')
     (throwIf (rv_status r \<noteq> review_status.COMPLETED) (BadRequest ''Review is not ready to acknowledge'')
     (Inr (saveReview k (r\<lparr>rv_status := ACKNOWLEDGED, rv_acknowledgedAt := Some now, rv_employeeComment := comment\<rparr>) s)))))"

definition reassignReviewer ::
  "id \<Rightarrow> id option \<Rightarrow> 'a performance_state_scheme \<Rightarrow> 'a performance_state_scheme res" where
  "reassignReviewer k reviewer s =
     bindE (reviewById s k) (\<lambda>(r, c).
     bindE (case reviewer of None \<Rightarrow> Inr ()
       | Some u \<Rightarrow> bindE (findById s u) (\<lambda>_. bindE (revieweeOf s r) (\<lambda>e.
           throwIf (e_userId e = Some u) (BadRequest ''An employee cannot review themselves'') (Inr ())))) (\<lambda>_.
     Inr (saveReview k (r\<lparr>rv_reviewerUserId := reviewer\<rparr>) s)))"

section \<open>Peer feedback\<close>

definition askGiver :: "id \<Rightarrow> review \<Rightarrow> id \<Rightarrow> (id \<Rightarrow> id) \<Rightarrow> id \<Rightarrow> ('a performance_state_scheme, id list) act" where
  "askGiver k r actor newId u =
     bindS (readS (\<lambda>s. bindE (revieweeOf s r) (\<lambda>e.
        throwIf (e_userId e = Some u) (BadRequest ''Cannot request feedback from the reviewee'')
        (bindE (findById s u) (\<lambda>_. Inr (list_ex (\<lambda>f. fb_reviewId f = k \<and> fb_giverUserId f = u) (rows (feedbackT s))))))))
     (\<lambda>exists. if exists then returnS []
       else thenS (writeS (\<lambda>s. notifyReview (FeedbackRequested (newId u) u)
           (s\<lparr>feedbackT := insertRow (newId u)
              \<lparr>fb_reviewId = k, fb_requestedByUserId = Some actor, fb_giverUserId = u, fb_status = REQUESTED,
               fb_answers = None, fb_submittedAt = None\<rparr> (feedbackT s)\<rparr>))) (returnS [newId u]))"

definition requestFeedback ::
  "id \<Rightarrow> id list \<Rightarrow> (id \<Rightarrow> id) \<Rightarrow> auth_user \<Rightarrow> ('a performance_state_scheme, id list) act" where
  "requestFeedback k givers newId actor =
     bindS (readS (\<lambda>s. bindE (reviewById s k) (\<lambda>(r, c). bindE (roleFor s r actor) (\<lambda>role.
        throwIf (role = NoRole) (Forbidden ''Forbidden'')
        (throwIf (cy_phase c \<in> {CLOSED, cycle_phase.DRAFT}) (BadRequest ''Feedback can only be requested while the cycle is open'')
        (Inr r)))))) (\<lambda>r.
     bindS (mapS (askGiver k r (au_id actor) newId) givers) (\<lambda>xss. returnS (concat xss)))"

definition myFeedbackRequests :: "id \<Rightarrow> 'a performance_state_scheme \<Rightarrow> (id \<times> review_feedback) list" where
  "myFeedbackRequests u s = List.filter (\<lambda>(_, f). fb_giverUserId f = u \<and> fb_status f = REQUESTED) (feedbackT s)"

text \<open>The answers are \<open>None\<close> when the request is declined.\<close>

definition submitFeedback ::
  "int \<Rightarrow> id \<Rightarrow> feedback_answers option \<Rightarrow> auth_user \<Rightarrow> 'a performance_state_scheme \<Rightarrow> 'a performance_state_scheme res" where
  "submitFeedback now k answers actor s =
     orThrow (lookup (feedbackT s) k) (NotFound ''Feedback request not found'') (\<lambda>f.
     throwIf (fb_giverUserId f \<noteq> au_id actor) (Forbidden ''Not your feedback request'')
     (throwIf (fb_status f \<noteq> REQUESTED) (BadRequest ''Already answered'')
     (bindE (reviewById s (fb_reviewId f)) (\<lambda>(r, c).
     throwIf (cy_phase c = CLOSED) (BadRequest ''Cycle is closed'')
     (bindE (case answers of None \<Rightarrow> Inr ()
        | Some a \<Rightarrow> whenSome (fa_rating a) (\<lambda>v. assertOnScale (of_int v) c)) (\<lambda>_.
     Inr (s\<lparr>feedbackT := updateRow k (\<lambda>_. f\<lparr>fb_status := (if answers = None then DECLINED else SUBMITTED),
        fb_answers := (case answers of None \<Rightarrow> fb_answers f | a \<Rightarrow> a), fb_submittedAt := Some now\<rparr>) (feedbackT s)\<rparr>)))))))"

section \<open>Reminders\<close>

definition sumS :: "('x \<Rightarrow> ('s, nat) act) \<Rightarrow> 'x list \<Rightarrow> ('s, nat) act" where
  "sumS f xs = bindS (mapS f xs) (\<lambda>ns. returnS (sum_list ns))"

definition dueCycles :: "cycle_phase \<Rightarrow> (review_cycle \<Rightarrow> date) \<Rightarrow> date \<Rightarrow> 'a performance_state_scheme \<Rightarrow> (id \<times> review_cycle) list" where
  "dueCycles p deadline soon s = List.filter (\<lambda>(_, c). cy_phase c = p \<and> deadline c \<le> soon) (cyclesT s)"

definition reviewsIn :: "review_status \<Rightarrow> id \<Rightarrow> 'a performance_state_scheme \<Rightarrow> (id \<times> review) list" where
  "reviewsIn st k s = List.filter (\<lambda>(_, r). rv_cycleId r = k \<and> rv_status r = st) (reviewsT s)"

definition remindSelf :: "date \<Rightarrow> id \<times> review_cycle \<Rightarrow> ('a performance_state_scheme, nat) act" where
  "remindSelf today = (\<lambda>(k, c). bindS (readS (\<lambda>s. Inr (reviewsIn PENDING_SELF k s))) (sumS (\<lambda>(j, r).
     bindS (readS (\<lambda>s. revieweeOf s r)) (\<lambda>e.
     case e_userId e of None \<Rightarrow> returnS 0
     | Some u \<Rightarrow> thenS (writeS (notifyReview (SelfReviewDue j u today))) (returnS 1)))))"

text \<open>The \<open>Map\<close> by reviewer, in the order of insertion.\<close>

fun countFor :: "id \<Rightarrow> (id \<times> nat) list \<Rightarrow> (id \<times> nat) list" where
  "countFor u [] = [(u, 1)]"
| "countFor u ((v, n) # m) = (if v = u then (v, Suc n) # m else (v, n) # countFor u m)"

definition byReviewer :: "review list \<Rightarrow> (id \<times> nat) list" where
  "byReviewer rs = foldl (\<lambda>m r. case rv_reviewerUserId r of None \<Rightarrow> m
     | Some u \<Rightarrow> if rv_managerSubmittedAt r \<noteq> None then m else countFor u m) [] rs"

definition remindManagers :: "date \<Rightarrow> id \<times> review_cycle \<Rightarrow> ('a performance_state_scheme, nat) act" where
  "remindManagers today = (\<lambda>(k, c). bindS (readS (\<lambda>s. Inr (byReviewer (List.map snd (reviewsIn PENDING_MANAGER k s)))))
     (sumS (\<lambda>(u, n). thenS (writeS (notifyReview (TeamReviewsDue k u n today))) (returnS 1))))"

definition sendReviewReminders :: "date \<Rightarrow> ('a performance_state_scheme, nat) act" where
  "sendReviewReminders today =
     (let soon = addDays today 2
      in bindS (bindS (readS (\<lambda>s. Inr (dueCycles SELF_REVIEW cy_selfReviewDeadline soon s))) (sumS (remindSelf today))) (\<lambda>n.
         bindS (bindS (readS (\<lambda>s. Inr (dueCycles MANAGER_REVIEW cy_managerReviewDeadline soon s))) (sumS (remindManagers today))) (\<lambda>m.
         returnS (n + m))))"

section \<open>Goals\<close>

definition goalById :: "'a performance_state_scheme \<Rightarrow> id \<Rightarrow> goal res" where
  "goalById s k = orThrow (lookup (goalsT s) k) (NotFound ''Goal not found'') Inr"

datatype goal_role = GoalHr | GoalManager | GoalOwner | GoalNone

definition goalRole :: "'a performance_state_scheme \<Rightarrow> id \<Rightarrow> auth_user \<Rightarrow> goal_role" where
  "goalRole s e actor =
     (if REVIEW_MANAGE_CYCLES \<in> set (au_permissions actor) then GoalHr
      else case findByUserId s (au_id actor) of None \<Rightarrow> GoalNone
      | Some (me, _) \<Rightarrow> if me = e then GoalOwner
          else if REVIEW_WRITE_TEAM \<in> set (au_permissions actor) \<and> isInReportingChain s me e then GoalManager else GoalNone)"

record goal_query = page_query +
  gq_employeeId :: "id option"
  gq_cycleId :: "id option"
  gq_status :: "goal_status option"

definition listGoals :: "goal_query \<Rightarrow> auth_user \<Rightarrow> 'a performance_state_scheme \<Rightarrow> (id \<times> goal) list \<times> page_meta" where
  "listGoals q actor s =
     (let found = (\<lambda>visible. pageOf q (rev (List.filter (\<lambda>(_, g). visible (go_employeeId g) \<and>
            findEmployee s (go_employeeId g) \<noteq> None \<and> gq_employeeId q \<in> {None, Some (go_employeeId g)} \<and>
            (gq_cycleId q = None \<or> gq_cycleId q = go_cycleId g) \<and> gq_status q \<in> {None, Some (go_status g)}) (goalsT s))))
      in if REVIEW_MANAGE_CYCLES \<in> set (au_permissions actor) then found (\<lambda>_. True)
         else case findByUserId s (au_id actor) of None \<Rightarrow> pageOf q []
         | Some (me, _) \<Rightarrow> found (\<lambda>e. e \<in> set (me # reportIds s me)))"

definition weightTotal :: "'a performance_state_scheme \<Rightarrow> id \<Rightarrow> id option \<Rightarrow> int" where
  "weightTotal s e exceptId = sum_list (List.map (\<lambda>(_, g). go_weight g)
     (List.filter (\<lambda>(j, g). go_employeeId g = e \<and> go_status g \<in> {goal_status.DRAFT, ACTIVE} \<and> Some j \<noteq> exceptId) (goalsT s)))"

definition assertWeight :: "'a performance_state_scheme \<Rightarrow> id \<Rightarrow> int \<Rightarrow> id option \<Rightarrow> unit res" where
  "assertWeight s e weight exceptId =
     throwIf (100 < weightTotal s e exceptId + weight) (BadRequest ''Goal weights are at most 100%'') (Inr ())"

record create_goal_dto =
  cg_employeeId :: "id option"
  cg_cycleId :: "id option"
  cg_title :: string
  cg_description :: "string option"
  cg_weight :: "int option"
  cg_dueDate :: "date option"

definition newGoal :: "int \<Rightarrow> id \<Rightarrow> create_goal_dto \<Rightarrow> bool \<Rightarrow> id \<Rightarrow> goal" where
  "newGoal now e dto approved approver =
     \<lparr>go_employeeId = e, go_cycleId = cg_cycleId dto, go_title = cg_title dto, go_description = cg_description dto,
      go_weight = patched 0 (cg_weight dto), go_status = (if approved then ACTIVE else goal_status.DRAFT), go_progress = 0,
      go_dueDate = cg_dueDate dto, go_approvedByUserId = (if approved then Some approver else None),
      go_approvedAt = (if approved then Some now else None), go_createdByUserId = Some approver\<rparr>"

definition createGoal ::
  "int \<Rightarrow> id \<Rightarrow> create_goal_dto \<Rightarrow> auth_user \<Rightarrow> 'a performance_state_scheme \<Rightarrow> 'a performance_state_scheme res" where
  "createGoal now k dto actor s =
     orThrow (case cg_employeeId dto of None \<Rightarrow> map_option fst (findByUserId s (au_id actor)) | e \<Rightarrow> e)
       (NotFound ''No employee profile is linked to your login'') (\<lambda>e.
     let role = goalRole s e actor; approved = (role \<in> {GoalHr, GoalManager})
     in throwIf (role = GoalNone) (Forbidden ''You can only set goals for yourself or your reports'')
       (bindE (assertWeight s e (patched 0 (cg_weight dto)) None) (\<lambda>_.
       throwIf (lookup (employeesT s) e = None \<or> (case cg_cycleId dto of None \<Rightarrow> False | Some c \<Rightarrow> lookup (cyclesT s) c = None))
         (BadRequest ''Referenced resource does not exist'')
       (Inr (s\<lparr>goalsT := insertRow k (newGoal now e dto approved (au_id actor)) (goalsT s)\<rparr>)))))"

text \<open>The status of the DTO is \<open>COMPLETED\<close> or \<open>CANCELLED\<close>; an empty title is falsy.\<close>

record update_goal_dto =
  gu_title :: "string option"
  gu_description :: "string option option"
  gu_weight :: "int option"
  gu_progress :: "int option"
  gu_dueDate :: "date option option"
  gu_status :: "goal_status option"

definition patchGoal :: "update_goal_dto \<Rightarrow> goal \<Rightarrow> goal" where
  "patchGoal dto g = g\<lparr>go_title := patched (go_title g) (gu_title dto), go_description := patched (go_description g) (gu_description dto),
     go_weight := patched (go_weight g) (gu_weight dto), go_progress := patched (go_progress g) (gu_progress dto),
     go_dueDate := patched (go_dueDate g) (gu_dueDate dto)\<rparr>"

definition saveGoal :: "id \<Rightarrow> goal \<Rightarrow> 'a performance_state_scheme \<Rightarrow> 'a performance_state_scheme" where
  "saveGoal k g s = s\<lparr>goalsT := updateRow k (\<lambda>_. g) (goalsT s)\<rparr>"

definition updateGoal ::
  "id \<Rightarrow> update_goal_dto \<Rightarrow> auth_user \<Rightarrow> 'a performance_state_scheme \<Rightarrow> 'a performance_state_scheme res" where
  "updateGoal k dto actor s =
     bindE (goalById s k) (\<lambda>g.
     let role = goalRole s (go_employeeId g) actor
     in throwIf (role = GoalNone) (Forbidden ''Forbidden'')
       (throwIf (go_status g = CANCELLED) (BadRequest ''Goal is cancelled'')
       (throwIf (role = GoalOwner \<and> go_status g \<noteq> goal_status.DRAFT \<and>
            (gu_title dto \<notin> {None, Some []} \<or> gu_description dto \<noteq> None \<or> gu_weight dto \<noteq> None \<or> gu_dueDate dto \<noteq> None))
          (BadRequest ''Approved goals can only be re-scoped by your manager'')
       (bindE (whenSome (gu_weight dto) (\<lambda>w. assertWeight s (go_employeeId g) w (Some k))) (\<lambda>_.
       let g1 = patchGoal dto g
       in if gu_status dto = Some COMPLETED then Inr (saveGoal k (g1\<lparr>go_status := COMPLETED, go_progress := 100\<rparr>) s)
          else if gu_status dto = Some CANCELLED then
            throwIf (role = GoalOwner \<and> go_status g1 \<noteq> goal_status.DRAFT) (Forbidden ''Ask your manager to cancel an approved goal'')
              (Inr (saveGoal k (g1\<lparr>go_status := CANCELLED\<rparr>) s))
          else Inr (saveGoal k g1 s))))))"

definition approveGoal ::
  "int \<Rightarrow> id \<Rightarrow> auth_user \<Rightarrow> 'a performance_state_scheme \<Rightarrow> 'a performance_state_scheme res" where
  "approveGoal now k actor s =
     bindE (goalById s k) (\<lambda>g.
     throwIf (goalRole s (go_employeeId g) actor \<notin> {GoalHr, GoalManager}) (Forbidden ''Only the manager or HR can approve goals'')
     (throwIf (go_status g \<noteq> goal_status.DRAFT) (BadRequest ''Goal is not awaiting approval'')
     (Inr (saveGoal k (g\<lparr>go_status := ACTIVE, go_approvedByUserId := Some (au_id actor), go_approvedAt := Some now\<rparr>) s))))"

definition removeGoal ::
  "id \<Rightarrow> auth_user \<Rightarrow> 'a performance_state_scheme \<Rightarrow> 'a performance_state_scheme res" where
  "removeGoal k actor s =
     bindE (goalById s k) (\<lambda>g.
     let role = goalRole s (go_employeeId g) actor
     in throwIf (role = GoalNone) (Forbidden ''Forbidden'')
       (throwIf (role = GoalOwner \<and> go_status g \<noteq> goal_status.DRAFT) (Forbidden ''Only draft goals can be deleted by their owner'')
       (Inr (s\<lparr>goalsT := deleteRow k (goalsT s)\<rparr>))))"

section \<open>The endpoints that pick the reviews\<close>

definition myReviews :: "review_query \<Rightarrow> auth_user \<Rightarrow> 'a performance_state_scheme \<Rightarrow> ((id \<times> review) list \<times> page_meta) res" where
  "myReviews q actor s = bindE (requireProfile actor s) (\<lambda>me. Inr (listReviews q (Some [me]) s))"

definition teamReviews :: "review_query \<Rightarrow> auth_user \<Rightarrow> 'a performance_state_scheme \<Rightarrow> ((id \<times> review) list \<times> page_meta) res" where
  "teamReviews q actor s =
     bindE (requireProfile actor s) (\<lambda>me. Inr (listReviews q (Some (List.map fst (directReports s me))) s))"

definition processReviewJob :: "string \<Rightarrow> date \<Rightarrow> ('a performance_state_scheme, nat) act" where
  "processReviewJob name today =
     (if name = ''review-reminders'' then sendReviewReminders today
      else readS (\<lambda>_. Inl (InternalError ''Unknown performance job'')))"

end
