(* ===== verification/PerfProps.thy ===== *)
theory PerfProps
  imports Performance OnboardProps
begin

text \<open>
  Performance reviews over any history: what the phase of a cycle says of its reviews, who sees what of
  a review, whom a launch reaches, the weights of goals; and where the code departs from its intent.
\<close>

section \<open>The phase and the reviews\<close>

text \<open>What the phase of the cycle says of a review of it.\<close>

definition statusFits :: "cycle_phase \<Rightarrow> review \<Rightarrow> bool" where
  "statusFits p r = (case p of
       cycle_phase.DRAFT \<Rightarrow> False
     | SELF_REVIEW \<Rightarrow> rv_status r = (if rv_selfSubmittedAt r = None then PENDING_SELF else PENDING_MANAGER) \<and> rv_managerSubmittedAt r = None
     | MANAGER_REVIEW \<Rightarrow> rv_status r = PENDING_MANAGER
     | CALIBRATION \<Rightarrow> rv_status r = PENDING_CALIBRATION
     | CLOSED \<Rightarrow> rv_status r \<in> {review_status.COMPLETED, ACKNOWLEDGED})"

definition ratingsFit :: "review_cycle \<Rightarrow> review \<Rightarrow> bool" where
  "ratingsFit c r \<longleftrightarrow> (rv_selfRating r = None \<longleftrightarrow> rv_selfSubmittedAt r = None) \<and> (rv_managerRating r = None \<longleftrightarrow> rv_managerSubmittedAt r = None) \<and>
     (\<forall>v. rv_selfRating r = Some v \<or> rv_managerRating r = Some v \<or> rv_finalRating r = Some v \<longrightarrow> onScale c (of_int v))"

definition finalFits :: "cycle_phase \<Rightarrow> review \<Rightarrow> bool" where
  "finalFits p r \<longleftrightarrow> (rv_calibrated r \<longrightarrow> rv_finalRating r \<noteq> None) \<and> (p \<in> {SELF_REVIEW, MANAGER_REVIEW} \<longrightarrow> \<not> rv_calibrated r) \<and>
     (\<not> rv_calibrated r \<longrightarrow> rv_finalRating r = (if p = CLOSED then rv_managerRating r else None)) \<and>
     (rv_acknowledgedAt r \<noteq> None \<longleftrightarrow> rv_status r = ACKNOWLEDGED)"

definition reviewFits :: "review_cycle \<Rightarrow> review \<Rightarrow> bool" where
  "reviewFits c r \<longleftrightarrow> statusFits (cy_phase c) r \<and> ratingsFit c r \<and> finalFits (cy_phase c) r"

lemmas review_fits = reviewFits_def statusFits_def ratingsFit_def finalFits_def

definition samePerson :: "review \<Rightarrow> review \<Rightarrow> bool" where
  "samePerson a b \<longleftrightarrow> rv_cycleId a = rv_cycleId b \<and> rv_employeeId a = rv_employeeId b"

definition reviewOk :: "review_cycle table \<Rightarrow> review \<Rightarrow> bool" where
  "reviewOk C r \<longleftrightarrow> (case lookup C (rv_cycleId r) of None \<Rightarrow> False | Some c \<Rightarrow> reviewFits c r)"

definition perfInv :: "'a performance_state_scheme \<Rightarrow> bool" where
  "perfInv s \<longleftrightarrow> keyed (cyclesT s) \<and> keyed (reviewsT s) \<and> uniqueBy samePerson (reviewsT s) \<and>
     (\<forall>k r. lookup (reviewsT s) k = Some r \<longrightarrow> reviewOk (cyclesT s) r)"

lemma perfInv_keyed: "perfInv s \<Longrightarrow> keyed (cyclesT s)" "perfInv s \<Longrightarrow> keyed (reviewsT s)"
  by (simp_all add: perfInv_def)

lemma perfInv_unique: "perfInv s \<Longrightarrow> uniqueBy samePerson (reviewsT s)"
  by (simp add: perfInv_def)

lemma perfInv_review: "perfInv s \<Longrightarrow> lookup (reviewsT s) k = Some r \<Longrightarrow> reviewOk (cyclesT s) r"
  by (simp add: perfInv_def)

lemma perfInv_fits:
  "perfInv s \<Longrightarrow> lookup (reviewsT s) k = Some r \<Longrightarrow> lookup (cyclesT s) (rv_cycleId r) = Some c \<Longrightarrow> reviewFits c r"
  using perfInv_review [of s k r] by (simp add: reviewOk_def)

lemma perfInv_cong: "cyclesT t = cyclesT s \<Longrightarrow> reviewsT t = reviewsT s \<Longrightarrow> perfInv t = perfInv s"
  by (simp add: perfInv_def)

lemma reviewById_Inr: "reviewById s k = Inr (r, c) \<longleftrightarrow>
    lookup (reviewsT s) k = Some r \<and> lookup (cyclesT s) (rv_cycleId r) = Some c"
  by (auto simp: reviewById_def res_simps)

text \<open>One review changes, within what its cycle allows.\<close>

lemma saveReview_inv:
  assumes i: "perfInv s" and l: "lookup (reviewsT s) k = Some r" "lookup (cyclesT s) (rv_cycleId r) = Some c"
    and q: "rv_cycleId q = rv_cycleId r" "rv_employeeId q = rv_employeeId r" "reviewFits c q"
  shows "perfInv (saveReview k q s)"
proof -
  have "uniqueBy samePerson (updateRow k (\<lambda>_. q) (reviewsT s))"
  proof (rule uniqueBy_orig [OF perfInv_unique [OF i]])
    fix j a m b
    assume "lookup (updateRow k (\<lambda>_. q) (reviewsT s)) j = Some a" "lookup (updateRow k (\<lambda>_. q) (reviewsT s)) m = Some b" "samePerson a b"
    then show "\<exists>a' b'. lookup (reviewsT s) j = Some a' \<and> lookup (reviewsT s) m = Some b' \<and> samePerson a' b'"
      using l(1) q(1,2) by (auto simp: lookup_updateRow samePerson_def split: if_splits)
  qed
  then show ?thesis
    using i l q by (auto simp: perfInv_def saveReview_def lookup_updateRow reviewOk_def)
qed

lemma validateAssessment_scale: "validateAssessment dto c = Inr () \<Longrightarrow> onScale c (of_int (ad_rating dto))"
  by (auto simp: validateAssessment_def assertOnScale_def res_simps)

lemma submitSelf_inv:
  assumes i: "perfInv s" and u: "submitSelf now k dto actor s = Inr u"
  shows "perfInv u"
proof -
  obtain r c where l: "lookup (reviewsT s) k = Some r" "lookup (cyclesT s) (rv_cycleId r) = Some c"
    and p: "cy_phase c \<in> {SELF_REVIEW, MANAGER_REVIEW}" "rv_managerSubmittedAt r = None" "onScale c (of_int (ad_rating dto))"
    and u: "u = saveReview k (r\<lparr>rv_selfAssessment := Some (toAssessment dto), rv_selfRating := Some (ad_rating dto),
        rv_selfSubmittedAt := Some now, rv_status := (if rv_status r = PENDING_SELF then PENDING_MANAGER else rv_status r)\<rparr>) s"
    using u by (auto simp: submitSelf_def res_simps reviewById_Inr dest!: validateAssessment_scale)
  show ?thesis unfolding u
    by (rule saveReview_inv [OF i l]) (use perfInv_fits [OF i l] p in \<open>auto simp: review_fits\<close>)
qed

lemma submitManager_inv:
  assumes i: "perfInv s" and u: "submitManager now k dto actor s = Inr u"
  shows "perfInv u"
proof -
  obtain r c where l: "lookup (reviewsT s) k = Some r" "lookup (cyclesT s) (rv_cycleId r) = Some c"
    and p: "cy_phase c \<in> {MANAGER_REVIEW, CALIBRATION}" "onScale c (of_int (ad_rating dto))"
    and u: "u = saveReview k (r\<lparr>rv_managerAssessment := Some (toAssessment dto), rv_managerRating := Some (ad_rating dto),
        rv_managerSubmittedAt := Some now,
        rv_status := (if cy_phase c = CALIBRATION then PENDING_CALIBRATION else PENDING_MANAGER)\<rparr>) s"
    using u by (auto simp: submitManager_def res_simps reviewById_Inr dest!: validateAssessment_scale)
  show ?thesis unfolding u
    by (rule saveReview_inv [OF i l]) (use perfInv_fits [OF i l] p in \<open>auto simp: review_fits\<close>)
qed

lemma calibrate_inv:
  assumes i: "perfInv s" and u: "calibrate k v note s = Inr u"
  shows "perfInv u"
proof -
  obtain r c where l: "lookup (reviewsT s) k = Some r" "lookup (cyclesT s) (rv_cycleId r) = Some c"
    and p: "cy_phase c = CALIBRATION" "onScale c (of_int v)"
    and u: "u = saveReview k (r\<lparr>rv_finalRating := Some v, rv_calibrated := True, rv_calibrationNote := note\<rparr>) s"
    using u by (auto simp: calibrate_def res_simps reviewById_Inr assertOnScale_def)
  show ?thesis unfolding u
    by (rule saveReview_inv [OF i l]) (use perfInv_fits [OF i l] p in \<open>auto simp: review_fits\<close>)
qed

lemma acknowledge_inv:
  assumes i: "perfInv s" and u: "acknowledge now k comment actor s = Inr u"
  shows "perfInv u"
proof -
  obtain r c where l: "lookup (reviewsT s) k = Some r" "lookup (cyclesT s) (rv_cycleId r) = Some c"
    and p: "rv_status r = review_status.COMPLETED"
    and u: "u = saveReview k (r\<lparr>rv_status := ACKNOWLEDGED, rv_acknowledgedAt := Some now, rv_employeeComment := comment\<rparr>) s"
    using u by (auto simp: acknowledge_def res_simps reviewById_Inr)
  have f: "reviewFits c r" by (rule perfInv_fits [OF i l])
  have c: "cy_phase c = CLOSED"
    using f p by (cases "cy_phase c") (auto simp: reviewFits_def statusFits_def split: if_splits)
  show ?thesis unfolding u
    by (rule saveReview_inv [OF i l]) (use f c in \<open>auto simp: review_fits\<close>)
qed

lemma reviewFits_reviewer: "reviewFits c (r\<lparr>rv_reviewerUserId := w\<rparr>) = reviewFits c r"
  by (simp add: reviewFits_def ratingsFit_def finalFits_def) (cases "cy_phase c"; simp add: statusFits_def)

lemma reassignReviewer_inv:
  assumes i: "perfInv s" and u: "reassignReviewer k w s = Inr u"
  shows "perfInv u"
proof -
  obtain r c where l: "lookup (reviewsT s) k = Some r" "lookup (cyclesT s) (rv_cycleId r) = Some c"
    and u: "u = saveReview k (r\<lparr>rv_reviewerUserId := w\<rparr>) s"
    using u by (auto simp: reassignReviewer_def res_simps reviewById_Inr)
  show ?thesis unfolding u
    by (rule saveReview_inv [OF i l]) (simp_all add: reviewFits_reviewer perfInv_fits [OF i l])
qed

section \<open>Changing a cycle\<close>

text \<open>A cycle changes together with its reviews.\<close>

lemma cycle_change:
  assumes i: "perfInv s" and l: "lookup (cyclesT s) k = Some c"
    and g: "\<And>r. reviewFits c r \<Longrightarrow> reviewFits c' (g r)" "\<And>r. rv_cycleId (g r) = rv_cycleId r" "\<And>r. rv_employeeId (g r) = rv_employeeId r"
    and t: "cyclesT t = updateRow k (\<lambda>_. c') (cyclesT s)"
      "reviewsT t = updateWhere (\<lambda>r. rv_cycleId r = k) g (reviewsT s)"
  shows "perfInv t"
proof -
  have "uniqueBy samePerson (reviewsT t)"
    unfolding t
  proof (rule uniqueBy_orig [OF perfInv_unique [OF i]])
    fix j a m b
    let ?T = "updateWhere (\<lambda>r. rv_cycleId r = k) g (reviewsT s)"
    assume "lookup ?T j = Some a" "lookup ?T m = Some b" "samePerson a b"
    then show "\<exists>a' b'. lookup (reviewsT s) j = Some a' \<and> lookup (reviewsT s) m = Some b' \<and> samePerson a' b'"
      using g(2,3) by (auto simp: lookup_updateWhere samePerson_def split: if_splits)
  qed
  moreover have "reviewOk (cyclesT t) q" if q: "lookup (reviewsT t) j = Some q" for j q
  proof -
    obtain r where r: "lookup (reviewsT s) j = Some r" "q = (if rv_cycleId r = k then g r else r)"
      using q by (auto simp: t lookup_updateWhere)
    show ?thesis
      using perfInv_review [OF i r(1)] r(2) l g by (auto simp: reviewOk_def t lookup_updateRow)
  qed
  ultimately show ?thesis using perfInv_keyed [OF i] by (simp add: perfInv_def t)
qed

lemma updateWhere_id: "(\<And>r. p r \<Longrightarrow> f r = r) \<Longrightarrow> updateWhere p f T = T"
  by (induction T) (auto simp: updateWhere_def)

lemma updateWhere_cong: "(\<And>r. (if p r then f r else r) = (if q r then g r else r)) \<Longrightarrow> updateWhere p f T = updateWhere q g T"
  by (simp add: updateWhere_def)

lemma onScale_cong: "cy_ratingScale c' = cy_ratingScale c \<Longrightarrow> onScale c' = onScale c"
  by (simp add: onScale_def fun_eq_iff)

lemma updateCycle_inv:
  assumes i: "perfInv s" and u: "updateCycle k dto s = Inr u"
  shows "perfInv u"
proof -
  obtain c scale where l: "lookup (cyclesT s) k = Some c"
    and fr: "cy_phase c \<noteq> cycle_phase.DRAFT \<Longrightarrow> cu_ratingScale dto = None"
    and sc: "(case cu_ratingScale dto of None \<Rightarrow> Inr (cy_ratingScale c) | Some x \<Rightarrow> normaliseScale x) = Inr scale"
    and u: "u = s\<lparr>cyclesT := updateRow k (\<lambda>_. patchCycle dto scale c) (cyclesT s)\<rparr>"
    using u by (auto simp: updateCycle_def cycleById_def res_simps Let_def)
  have "reviewFits (patchCycle dto scale c) r" if f: "reviewFits c r" for r
  proof -
    have d: "cy_phase c \<noteq> cycle_phase.DRAFT" using f by (auto simp: reviewFits_def statusFits_def)
    then have "scale = cy_ratingScale c" using fr sc by simp
    then have "onScale (patchCycle dto scale c) = onScale c" by (intro onScale_cong) (simp add: patchCycle_def)
    then show ?thesis using f by (simp add: reviewFits_def ratingsFit_def patchCycle_def)
  qed
  then show ?thesis
    by (rule cycle_change [OF i l, where g = "\<lambda>r. r"]) (simp_all add: u updateWhere_id)
qed

definition moveReview :: "cycle_phase \<Rightarrow> review \<Rightarrow> review" where
  "moveReview nxt r =
     (if nxt = MANAGER_REVIEW \<and> rv_status r = PENDING_SELF then r\<lparr>rv_status := PENDING_MANAGER\<rparr>
      else if nxt = CALIBRATION \<and> rv_status r = PENDING_MANAGER then r\<lparr>rv_status := PENDING_CALIBRATION\<rparr>
      else if nxt = CLOSED \<and> rv_status r \<noteq> ACKNOWLEDGED then closeReview r else r)"

lemma moveReviews_eq: "moveReviews k nxt T = updateWhere (\<lambda>r. rv_cycleId r = k) (moveReview nxt) T"
  by (auto simp: moveReviews_def moveReview_def intro!: updateWhere_cong updateWhere_id [symmetric])

lemma nextPhase_simps [simp]:
  "nextPhase SELF_REVIEW = MANAGER_REVIEW" "nextPhase MANAGER_REVIEW = CALIBRATION" "nextPhase CALIBRATION = CLOSED"
  by (simp_all add: nextPhase_def PHASE_ORDER_def)

lemma moveReview_fits:
  assumes f: "reviewFits c r" and p: "cy_phase c \<noteq> CLOSED" and n: "nxt = nextPhase (cy_phase c)"
    and c': "cy_phase c' = nxt" "cy_ratingScale c' = cy_ratingScale c"
  shows "reviewFits c' (moveReview nxt r)"
proof -
  note s = onScale_cong [OF c'(2)]
  show ?thesis
  proof (cases "cy_phase c")
    case DRAFT
    then show ?thesis using f by (simp add: reviewFits_def statusFits_def)
  next
    case SELF_REVIEW
    then show ?thesis using f n c' s by (auto simp: moveReview_def review_fits split: if_splits)
  next
    case MANAGER_REVIEW
    then show ?thesis using f n c' s by (auto simp: moveReview_def review_fits)
  next
    case CALIBRATION
    then show ?thesis using f n c' s by (auto simp: moveReview_def review_fits closeReview_def split: option.split)
  next
    case CLOSED
    then show ?thesis using p by simp
  qed
qed

lemma notifyReview_tables [simp]:
  "cyclesT (notifyReview n s) = cyclesT s" "reviewsT (notifyReview n s) = reviewsT s" "goalsT (notifyReview n s) = goalsT s"
  "employeesT (notifyReview n s) = employeesT s" "departmentsT (notifyReview n s) = departmentsT s"
  by (simp_all add: notifyReview_def)

lemma keeps_notifyReview [keeps]: "keepsS perfInv (writeS (notifyReview n))"
  by (rule keeps_writeS) (metis notifyReview_tables(1,2) perfInv_cong)

lemma keeps_notifyClosed [keeps]: "keepsS perfInv (notifyClosed k c)"
  unfolding notifyClosed_def
  by (intro keeps keeps_eachS) (auto split: prod.splits option.splits intro!: keeps)

lemma advance_inv:
  assumes i: "perfInv s"
  shows "perfInv (snd (advance now k s))"
proof (cases "bindE (cycleById s k) (\<lambda>c. throwIf (cy_phase c = cycle_phase.DRAFT) (BadRequest ''Launch the cycle first'')
       (throwIf (cy_phase c = CLOSED) (BadRequest ''Cycle is already closed'') (Inr c)))")
  case (Inl e)
  then show ?thesis using i by (simp add: advance_def bindS_def readS_def)
next
  case (Inr c)
  then have l: "lookup (cyclesT s) k = Some c" and p: "cy_phase c \<noteq> CLOSED"
    by (auto simp: cycleById_def res_simps)
  let ?n = "nextPhase (cy_phase c)"
  let ?c = "c\<lparr>cy_phase := ?n, cy_closedAt := (if ?n = CLOSED then Some now else cy_closedAt c)\<rparr>"
  let ?u = "s\<lparr>reviewsT := moveReviews k ?n (reviewsT s), cyclesT := updateRow k (\<lambda>_. ?c) (cyclesT s)\<rparr>"
  have "perfInv ?u"
  proof (rule cycle_change [OF i l, where c' = ?c and g = "moveReview ?n"])
    show "reviewFits ?c (moveReview ?n r)" if "reviewFits c r" for r
      by (rule moveReview_fits [OF that p]) simp_all
  qed (simp_all add: moveReview_def closeReview_def moveReviews_eq)
  from keepsS_D [OF keeps_whenS [OF keeps_notifyClosed] this] show ?thesis
    using Inr by (simp add: advance_def bindS_read Let_def thenS_write)
qed

lemma lookup_deleteWhere_D: "keyed T \<Longrightarrow> lookup (deleteWhere p T) j = Some r \<Longrightarrow> lookup T j = Some r \<and> \<not> p r"
  unfolding lookup_def deleteWhere_def keyed_def keys_def
  by (auto dest!: map_of_SomeD intro!: map_of_is_SomeI)

lemma removeCycle_inv:
  assumes i: "perfInv s" and u: "removeCycle k s = Inr u"
  shows "perfInv u"
proof -
  have t: "cyclesT u = deleteRow k (cyclesT s)" "reviewsT u = deleteWhere (\<lambda>r. rv_cycleId r = k) (reviewsT s)"
    using u by (auto simp: removeCycle_def res_simps)
  note d = lookup_deleteWhere_D [OF perfInv_keyed(2) [OF i]]
  have "uniqueBy samePerson (reviewsT u)"
    unfolding t by (rule uniqueBy_orig [OF perfInv_unique [OF i]]) (use d in blast)
  moreover have "reviewOk (cyclesT u) r" if "lookup (reviewsT u) j = Some r" for j r
    using d [OF that [unfolded t]] perfInv_review [OF i, of j r] by (auto simp: reviewOk_def t lookup_deleteRow)
  ultimately show ?thesis
    using perfInv_keyed [OF i] by (simp add: perfInv_def t keyed_deleteRow keyed_deleteWhere)
qed

lemma createCycle_inv:
  assumes i: "perfInv s" and u: "createCycle k dto actor s = Inr u" and k: "k \<notin> set (keys (cyclesT s))"
  shows "perfInv u"
proof -
  obtain c where t: "cyclesT u = insertRow k c (cyclesT s)" "reviewsT u = reviewsT s"
    using u by (auto simp: createCycle_def res_simps)
  have "reviewOk (cyclesT u) r" if r: "lookup (reviewsT u) j = Some r" for j r
  proof -
    have "reviewOk (cyclesT s) r" using perfInv_review [OF i] r by (simp add: t)
    moreover from this have "rv_cycleId r \<noteq> k"
      using k lookup_None_iff [of "cyclesT s" k] by (auto simp: reviewOk_def split: option.splits)
    ultimately show ?thesis by (simp add: reviewOk_def t lookup_insertRow [OF k])
  qed
  then show ?thesis using perfInv_keyed [OF i] perfInv_unique [OF i] k by (simp add: perfInv_def t)
qed

section \<open>Launching\<close>

definition launchRows :: "(id \<Rightarrow> id) \<Rightarrow> id \<Rightarrow> 'a performance_state_scheme \<Rightarrow> (id \<times> employee) list \<Rightarrow> review table" where
  "launchRows newId k s emps = List.map (\<lambda>ke. (newId (fst ke), newReview s k ke)) emps"

definition scopeOf :: "id list option \<Rightarrow> 'a performance_state_scheme \<Rightarrow> (id \<times> employee) list" where
  "scopeOf scope s = List.filter (\<lambda>(_, e). inScope scope e) (employeesT s)"

definition launchNotes :: "id \<Rightarrow> (id \<times> employee) list \<Rightarrow> ('a performance_state_scheme, unit) act" where
  "launchNotes k = eachS (\<lambda>(e, emp). case e_userId emp of None \<Rightarrow> returnS () | Some u \<Rightarrow> writeS (notifyReview (CycleLaunched k e u)))"

text \<open>A launch either answers an error and changes nothing or writes the reviews, the phase and the notices.\<close>

lemma launchIn_run:
  "launchIn now newId k scope s =
     (let emps = scopeOf scope s
      in if emps = [] then (Inl (BadRequest ''No employees in scope''), s)
         else if list_ex (\<lambda>r. rv_cycleId r = k \<and> rv_employeeId r \<in> fst ` set emps) (rows (reviewsT s))
         then (Inl (Conflict ''Resource already exists''), s)
         else thenS (launchNotes k emps) (returnS (length emps))
           (s\<lparr>reviewsT := reviewsT s @ launchRows newId k s emps,
              cyclesT := updateRow k (\<lambda>c. c\<lparr>cy_phase := SELF_REVIEW, cy_launchedAt := Some now\<rparr>) (cyclesT s)\<rparr>))"
  by (simp add: launchIn_def scopeOf_def launchRows_def launchNotes_def Let_def bindS_def thenS_def readS_def tryS_def writeS_def
      throwIf_def)

lemma launchNotes_effect:
  "launchNotes k emps s = (Inr (), s\<lparr>reviewNotices := reviewNotices s @
     List.map_filter (\<lambda>(e, emp). map_option (CycleLaunched k e) (e_userId emp)) emps\<rparr>)"
proof (induction emps arbitrary: s)
  case (Cons x emps)
  obtain e emp where x: "x = (e, emp)" by (cases x)
  show ?case
    using Cons by (cases "e_userId emp")
      (simp_all add: x launchNotes_def thenS_def bindS_def returnS_def writeS_def notifyReview_def map_filter_simps)
qed (simp add: launchNotes_def returnS_def map_filter_simps)

definition freshReviews :: "(id \<Rightarrow> id) \<Rightarrow> 'a performance_state_scheme \<Rightarrow> bool" where
  "freshReviews newId s \<longleftrightarrow> inj newId \<and> range newId \<inter> set (keys (reviewsT s)) = {} \<and> keyed (employeesT s)"

lemma launchRows_lookup:
  assumes "freshReviews newId s"
  shows "lookup (launchRows newId k s (scopeOf scope s)) j = Some r \<longleftrightarrow>
    (\<exists>e emp. lookup (employeesT s) e = Some emp \<and> inScope scope emp \<and> j = newId e \<and> r = newReview s k (e, emp))"
proof -
  have k: "keyed (employeesT s)" and inj: "inj newId" using assms by (simp_all add: freshReviews_def)
  have d: "distinct (List.map fst (scopeOf scope s))"
    using k by (simp add: scopeOf_def keyed_def keys_def distinct_map_filter)
  then have "distinct (List.map fst (launchRows newId k s (scopeOf scope s)))"
    using inj by (simp add: launchRows_def comp_def distinct_map inj_on_def)
  then have "lookup (launchRows newId k s (scopeOf scope s)) j = Some r \<longleftrightarrow> (j, r) \<in> set (launchRows newId k s (scopeOf scope s))"
    by (simp add: lookup_def)
  also have "\<dots> \<longleftrightarrow> (\<exists>e emp. (e, emp) \<in> set (employeesT s) \<and> inScope scope emp \<and> j = newId e \<and> r = newReview s k (e, emp))"
    unfolding launchRows_def scopeOf_def set_map set_filter image_iff Bex_def by fastforce
  finally show ?thesis using k by (simp add: lookup_def keyed_def keys_def)
qed

lemma launchRows_keys: "set (keys (launchRows newId k s emps)) \<subseteq> range newId"
  by (auto simp: launchRows_def keys_def)

lemma launchIn_state:
  "snd (launchIn now newId k scope s) = s \<or>
   (scopeOf scope s \<noteq> [] \<and> (\<forall>r\<in>set (rows (reviewsT s)). rv_cycleId r = k \<longrightarrow> rv_employeeId r \<notin> fst ` set (scopeOf scope s)) \<and>
    launchIn now newId k scope s = (Inr (length (scopeOf scope s)),
      s\<lparr>reviewsT := reviewsT s @ launchRows newId k s (scopeOf scope s),
        cyclesT := updateRow k (\<lambda>c. c\<lparr>cy_phase := SELF_REVIEW, cy_launchedAt := Some now\<rparr>) (cyclesT s),
        reviewNotices := reviewNotices s @
          List.map_filter (\<lambda>(e, emp). map_option (CycleLaunched k e) (e_userId emp)) (scopeOf scope s)\<rparr>))"
  by (auto simp: launchIn_run Let_def list_ex_iff thenS_done [OF launchNotes_effect] launchNotes_effect returnS_def)

lemma newReview_fits: "cy_phase c = SELF_REVIEW \<Longrightarrow> reviewFits c (newReview s k (e, emp))"
  by (simp add: newReview_def review_fits)

lemma newReview_cycle: "rv_cycleId (newReview s k ke) = k"
  by (simp add: newReview_def split: prod.split)

lemma launchIn_inv:
  assumes i: "perfInv s" and l: "lookup (cyclesT s) k = Some c" "cy_phase c = cycle_phase.DRAFT" and f: "freshReviews newId s"
  shows "perfInv (snd (launchIn now newId k scope s))"
  using launchIn_state [of now newId k scope s]
proof
  assume "snd (launchIn now newId k scope s) = s"
  then show ?thesis using i by simp
next
  let ?N = "launchRows newId k s (scopeOf scope s)"
  assume a: "scopeOf scope s \<noteq> [] \<and> (\<forall>r\<in>set (rows (reviewsT s)). rv_cycleId r = k \<longrightarrow> rv_employeeId r \<notin> fst ` set (scopeOf scope s)) \<and>
    launchIn now newId k scope s = (Inr (length (scopeOf scope s)),
      s\<lparr>reviewsT := reviewsT s @ ?N,
        cyclesT := updateRow k (\<lambda>c. c\<lparr>cy_phase := SELF_REVIEW, cy_launchedAt := Some now\<rparr>) (cyclesT s),
        reviewNotices := reviewNotices s @
          List.map_filter (\<lambda>(e, emp). map_option (CycleLaunched k e) (e_userId emp)) (scopeOf scope s)\<rparr>)"
  define u where "u = snd (launchIn now newId k scope s)"
  have u: "reviewsT u = reviewsT s @ ?N"
    "cyclesT u = updateRow k (\<lambda>c. c\<lparr>cy_phase := SELF_REVIEW, cy_launchedAt := Some now\<rparr>) (cyclesT s)"
    using a by (simp_all add: u_def)
  note nl = launchRows_lookup [OF f]
  have lk: "lookup (reviewsT u) j = (case lookup ?N j of None \<Rightarrow> lookup (reviewsT s) j | Some r \<Rightarrow> Some r)" for j
  proof (cases "lookup ?N j")
    case (Some r)
    then have "j \<notin> set (keys (reviewsT s))" using f launchRows_keys [of newId k s "scopeOf scope s"] lookup_Some_keys [OF Some]
      by (auto simp: freshReviews_def)
    then show ?thesis using Some by (simp add: u lookup_def map_add_def lookup_None_iff [symmetric] split: option.split)
  next
    case None
    then show ?thesis by (auto simp: u lookup_def map_add_def split: option.split)
  qed
  have old: "rv_cycleId r \<noteq> k" if "lookup (reviewsT s) j = Some r" for j r
    using perfInv_review [OF i that] l by (auto simp: reviewOk_def reviewFits_def statusFits_def)
  have newD: "rv_cycleId r = k \<and> j = newId (rv_employeeId r)" if "lookup ?N j = Some r" for j r
    using that nl [of k scope j r] by (auto simp: newReview_def)
  have "uniqueBy samePerson (reviewsT u)"
  proof (rule uniqueByI)
    fix j m a b assume ab: "lookup (reviewsT u) j = Some a" "lookup (reviewsT u) m = Some b" "samePerson a b"
    show "j = m"
    proof (cases "lookup ?N j"; cases "lookup ?N m")
      assume "lookup ?N j = None" "lookup ?N m = None"
      then show ?thesis using ab uniqueByD [OF perfInv_unique [OF i], of j a m b] by (simp add: lk)
    next
      fix b' assume n: "lookup ?N j = None" "lookup ?N m = Some b'"
      then have "rv_cycleId a \<noteq> k" "rv_cycleId b = k" using ab(1,2) old [of j a] newD [of m b] by (simp_all add: lk)
      then show ?thesis using ab(3) by (simp add: samePerson_def)
    next
      fix a' assume n: "lookup ?N j = Some a'" "lookup ?N m = None"
      then have "rv_cycleId a = k" "rv_cycleId b \<noteq> k" using ab(1,2) old [of m b] newD [of j a] by (simp_all add: lk)
      then show ?thesis using ab(3) by (simp add: samePerson_def)
    next
      fix a' b' assume n: "lookup ?N j = Some a'" "lookup ?N m = Some b'"
      then show ?thesis using ab newD [of j a] newD [of m b] by (simp add: lk samePerson_def)
    qed
  qed
  moreover have "reviewOk (cyclesT u) r" if "lookup (reviewsT u) j = Some r" for j r
  proof (cases "lookup ?N j")
    case None
    then have r: "lookup (reviewsT s) j = Some r" using that by (simp add: lk)
    show ?thesis using perfInv_review [OF i r] old [OF r] by (simp add: reviewOk_def u lookup_updateRow)
  next
    case (Some r')
    then have "r' = r" using that by (simp add: lk)
    then obtain e emp where re: "r = newReview s k (e, emp)" using Some nl [of k scope j r] by blast
    then show ?thesis using l by (simp add: reviewOk_def u lookup_updateRow newReview_cycle newReview_fits)
  qed
  moreover have "keyed (reviewsT u)"
  proof -
    have "distinct (keys ?N)"
      using f by (auto simp: launchRows_def keys_def freshReviews_def comp_def scopeOf_def keyed_def distinct_map inj_on_def distinct_map_filter)
    then show ?thesis using perfInv_keyed(2) [OF i] f launchRows_keys [of newId k s "scopeOf scope s"]
      by (auto simp: keyed_def u keys_def freshReviews_def)
  qed
  ultimately show ?thesis using perfInv_keyed(1) [OF i] unfolding u_def [symmetric] by (simp add: perfInv_def u)
qed

section \<open>Reachable states\<close>

lemma frame_inv [keeps]: "(\<And>s. cyclesT (f s) = cyclesT s) \<Longrightarrow> (\<And>s. reviewsT (f s) = reviewsT s) \<Longrightarrow> keepsS perfInv (writeS f)"
  by (rule keeps_writeS) (metis perfInv_cong)

lemma keeps_requestFeedback: "keepsS perfInv (requestFeedback k givers newId actor)"
  unfolding requestFeedback_def askGiver_def
  by (intro keeps keeps_mapS) (auto split: prod.split intro!: keeps)

lemma keeps_sendReviewReminders: "keepsS perfInv (sendReviewReminders today)"
  unfolding sendReviewReminders_def remindSelf_def remindManagers_def sumS_def Let_def
  by (intro keeps keeps_mapS) (auto split: prod.split option.split intro!: keeps keeps_mapS)

inductive perfStep :: "'a performance_state_scheme \<Rightarrow> 'a performance_state_scheme \<Rightarrow> bool" where
  planned: "createCycle k cdto actor s = Inr t \<Longrightarrow> k \<notin> set (keys (cyclesT s)) \<Longrightarrow> perfStep s t"
| edited: "updateCycle k udto s = Inr t \<Longrightarrow> perfStep s t"
| dropped: "removeCycle k s = Inr t \<Longrightarrow> perfStep s t"
| unscoped: "perfStep s (s\<lparr>cyclesT := updateWhere (\<lambda>c. cy_departmentId c = Some d) (\<lambda>c. c\<lparr>cy_departmentId := None\<rparr>) (cyclesT s)\<rparr>)"
| launched: "launch now newId k s = Some (r, t) \<Longrightarrow> freshReviews newId s \<Longrightarrow> perfStep s t"
| advanced: "advance now k s = (ru, t) \<Longrightarrow> perfStep s t"
| selfAssessed: "submitSelf now k dto auth s = Inr t \<Longrightarrow> perfStep s t"
| managerAssessed: "submitManager now k dto auth s = Inr t \<Longrightarrow> perfStep s t"
| calibrated: "calibrate k v note s = Inr t \<Longrightarrow> perfStep s t"
| acknowledged: "acknowledge now k comment auth s = Inr t \<Longrightarrow> perfStep s t"
| reassigned: "reassignReviewer k w s = Inr t \<Longrightarrow> perfStep s t"
| asked: "requestFeedback k givers newFb auth s = (rl, t) \<Longrightarrow> perfStep s t"
| reminded: "sendReviewReminders today s = (rn, t) \<Longrightarrow> perfStep s t"
| other: "cyclesT t = cyclesT s \<Longrightarrow> reviewsT t = reviewsT s \<Longrightarrow> perfStep s t"

lemma unscoped_inv:
  assumes i: "perfInv s"
  shows "perfInv (s\<lparr>cyclesT := updateWhere (\<lambda>c. cy_departmentId c = Some d) (\<lambda>c. c\<lparr>cy_departmentId := None\<rparr>) (cyclesT s)\<rparr>)"
proof -
  let ?C = "updateWhere (\<lambda>c. cy_departmentId c = Some d) (\<lambda>c. c\<lparr>cy_departmentId := None\<rparr>) (cyclesT s)"
  have fits: "reviewFits (c\<lparr>cy_departmentId := None\<rparr>) r = reviewFits c r" for c r
    by (simp add: reviewFits_def ratingsFit_def onScale_def)
  have "reviewOk ?C r" if "reviewOk (cyclesT s) r" for r
    using that fits by (auto simp: reviewOk_def lookup_updateWhere split: option.splits)
  then show ?thesis using i by (simp add: perfInv_def)
qed

lemma launch_cases:
  assumes "launch now newId k s = Some (r, t)"
  obtains (refused) e where "r = Inl e" "t = s"
    | (ran) c scope where "lookup (cyclesT s) k = Some c" "cy_phase c = cycle_phase.DRAFT"
        "(case cy_departmentId c of None \<Rightarrow> Some None | Some d \<Rightarrow> map_option Some (departmentSubtree s d)) = Some scope"
        "launchIn now newId k scope s = (r, t)"
proof (cases "bindE (cycleById s k) (\<lambda>c. throwIf (cy_phase c \<noteq> cycle_phase.DRAFT) (BadRequest ''Cycle has already been launched'') (Inr c))")
  case (Inl e)
  then have "r = Inl e" "t = s" using assms by (auto simp: launch_def)
  then show ?thesis by (rule refused)
next
  case (Inr c)
  then have "lookup (cyclesT s) k = Some c" "cy_phase c = cycle_phase.DRAFT" by (auto simp: cycleById_def res_simps)
  then show ?thesis using assms ran Inr by (auto simp: launch_def)
qed

lemma launch_inv:
  assumes "perfInv s" "launch now newId k s = Some (r, t)" "freshReviews newId s"
  shows "perfInv t"
  using assms(2)
proof (cases rule: launch_cases)
  case (ran c scope)
  then show ?thesis using launchIn_inv [OF assms(1) ran(1,2) assms(3), of now scope] by simp
qed (use assms(1) in simp)

lemma perfStep_inv:
  assumes i: "perfInv s" and st: "perfStep s t"
  shows "perfInv t"
  using st
proof cases
  case unscoped
  then show ?thesis using unscoped_inv [OF i] by simp
next
  case (advanced now k ru)
  then show ?thesis using advance_inv [OF i, of now k] by simp
next
  case (asked k givers newFb auth rl)
  show ?thesis by (rule keepsS_run [OF keeps_requestFeedback i asked])
next
  case (reminded today rn)
  show ?thesis by (rule keepsS_run [OF keeps_sendReviewReminders i reminded])
next
  case other
  then show ?thesis using i perfInv_cong by blast
next
  case (planned k cdto actor)
  show ?thesis by (rule createCycle_inv [OF i planned])
next
  case (edited k udto)
  show ?thesis by (rule updateCycle_inv [OF i edited])
next
  case (dropped k)
  show ?thesis by (rule removeCycle_inv [OF i dropped])
next
  case (launched now newId k r)
  show ?thesis by (rule launch_inv [OF i launched])
next
  case (selfAssessed now k dto auth)
  show ?thesis by (rule submitSelf_inv [OF i selfAssessed])
next
  case (managerAssessed now k dto auth)
  show ?thesis by (rule submitManager_inv [OF i managerAssessed])
next
  case (calibrated k v nt)
  show ?thesis by (rule calibrate_inv [OF i calibrated])
next
  case (acknowledged now k comment auth)
  show ?thesis by (rule acknowledge_inv [OF i acknowledged])
next
  case (reassigned k w)
  show ?thesis by (rule reassignReviewer_inv [OF i reassigned])
qed

definition noCycles :: "'a performance_state_scheme \<Rightarrow> bool" where
  "noCycles s \<longleftrightarrow> cyclesT s = [] \<and> reviewsT s = []"

interpretation performance: step_system noCycles perfStep perfInv
  by unfold_locales (simp add: perfInv_def noCycles_def keyed_def keys_def lookup_def, erule (1) perfStep_inv)

definition perfReachable :: "'a performance_state_scheme \<Rightarrow> bool" where
  "perfReachable t \<longleftrightarrow> (\<exists>s. noCycles s \<and> perfStep\<^sup>*\<^sup>* s t)"

lemma perf_reachable_inv: "perfReachable s \<Longrightarrow> perfInv s"
  unfolding perfReachable_def using performance.reach_inv by blast

text \<open>
  C30. The phase of the cycle rules its reviews. Whatever is done to cycles and reviews, there is one
  review per cycle and person, in an existing, launched cycle; while the cycle is open its status is the
  one of the phase, with no manager's assessment before the managers' phase and no final rating before
  calibration; when it is closed the review is completed or acknowledged, with the calibrated rating or
  else the manager's; and every rating is a value of the scale of the cycle.
\<close>

theorem reviews_follow_the_cycle:
  assumes "perfReachable s"
  shows "uniqueBy (\<lambda>a b. rv_cycleId a = rv_cycleId b \<and> rv_employeeId a = rv_employeeId b) (reviewsT s) \<and>
    (\<forall>k r. lookup (reviewsT s) k = Some r \<longrightarrow> (\<exists>c. lookup (cyclesT s) (rv_cycleId r) = Some c \<and>
      (case cy_phase c of
         cycle_phase.DRAFT \<Rightarrow> False
       | SELF_REVIEW \<Rightarrow> rv_status r = (if rv_selfSubmittedAt r = None then PENDING_SELF else PENDING_MANAGER) \<and>
           rv_managerRating r = None \<and> rv_finalRating r = None
       | MANAGER_REVIEW \<Rightarrow> rv_status r = PENDING_MANAGER \<and> rv_finalRating r = None
       | CALIBRATION \<Rightarrow> rv_status r = PENDING_CALIBRATION \<and> (rv_finalRating r \<noteq> None \<longleftrightarrow> rv_calibrated r)
       | CLOSED \<Rightarrow> (rv_status r = review_status.COMPLETED \<or> rv_status r = ACKNOWLEDGED \<and> rv_acknowledgedAt r \<noteq> None) \<and>
           (if rv_calibrated r then rv_finalRating r \<noteq> None else rv_finalRating r = rv_managerRating r)) \<and>
      (\<forall>v. Some v \<in> {rv_selfRating r, rv_managerRating r, rv_finalRating r} \<longrightarrow> v \<in> rl_value ` set (cy_ratingScale c))))"
proof (intro conjI allI impI)
  have i: "perfInv s" by (rule perf_reachable_inv [OF assms])
  show "uniqueBy (\<lambda>a b. rv_cycleId a = rv_cycleId b \<and> rv_employeeId a = rv_employeeId b) (reviewsT s)"
    using perfInv_unique [OF i] by (simp add: samePerson_def [abs_def])
  fix k r assume l: "lookup (reviewsT s) k = Some r"
  obtain c where c: "lookup (cyclesT s) (rv_cycleId r) = Some c" and f: "reviewFits c r"
    using perfInv_review [OF i l] by (auto simp: reviewOk_def split: option.splits)
  have phase: "case cy_phase c of
         cycle_phase.DRAFT \<Rightarrow> False
       | SELF_REVIEW \<Rightarrow> rv_status r = (if rv_selfSubmittedAt r = None then PENDING_SELF else PENDING_MANAGER) \<and>
           rv_managerRating r = None \<and> rv_finalRating r = None
       | MANAGER_REVIEW \<Rightarrow> rv_status r = PENDING_MANAGER \<and> rv_finalRating r = None
       | CALIBRATION \<Rightarrow> rv_status r = PENDING_CALIBRATION \<and> (rv_finalRating r \<noteq> None \<longleftrightarrow> rv_calibrated r)
       | CLOSED \<Rightarrow> (rv_status r = review_status.COMPLETED \<or> rv_status r = ACKNOWLEDGED \<and> rv_acknowledgedAt r \<noteq> None) \<and>
           (if rv_calibrated r then rv_finalRating r \<noteq> None else rv_finalRating r = rv_managerRating r)"
    using f by (cases "cy_phase c") (auto simp: review_fits)
  have "v \<in> rl_value ` set (cy_ratingScale c)"
    if "Some v \<in> {rv_selfRating r, rv_managerRating r, rv_finalRating r}" for v
  proof -
    have "rv_selfRating r = Some v \<or> rv_managerRating r = Some v \<or> rv_finalRating r = Some v" using that by auto
    moreover have "ratingsFit c r" using f by (simp add: reviewFits_def)
    ultimately have "onScale c (of_int v)" unfolding ratingsFit_def by blast
    then show ?thesis by (auto simp: onScale_def list_ex_iff)
  qed
  then show "\<exists>c. lookup (cyclesT s) (rv_cycleId r) = Some c \<and>
      (case cy_phase c of
         cycle_phase.DRAFT \<Rightarrow> False
       | SELF_REVIEW \<Rightarrow> rv_status r = (if rv_selfSubmittedAt r = None then PENDING_SELF else PENDING_MANAGER) \<and>
           rv_managerRating r = None \<and> rv_finalRating r = None
       | MANAGER_REVIEW \<Rightarrow> rv_status r = PENDING_MANAGER \<and> rv_finalRating r = None
       | CALIBRATION \<Rightarrow> rv_status r = PENDING_CALIBRATION \<and> (rv_finalRating r \<noteq> None \<longleftrightarrow> rv_calibrated r)
       | CLOSED \<Rightarrow> (rv_status r = review_status.COMPLETED \<or> rv_status r = ACKNOWLEDGED \<and> rv_acknowledgedAt r \<noteq> None) \<and>
           (if rv_calibrated r then rv_finalRating r \<noteq> None else rv_finalRating r = rv_managerRating r)) \<and>
      (\<forall>v. Some v \<in> {rv_selfRating r, rv_managerRating r, rv_finalRating r} \<longrightarrow> v \<in> rl_value ` set (cy_ratingScale c))"
    using c phase by blast
qed

section \<open>Who sees what\<close>

definition isReviewee :: "'a performance_state_scheme \<Rightarrow> review \<Rightarrow> auth_user \<Rightarrow> bool" where
  "isReviewee s r actor \<longleftrightarrow> (case findEmployee s (rv_employeeId r) of None \<Rightarrow> False | Some e \<Rightarrow> e_userId e = Some (au_id actor))"

definition withManagerPart ::
  "id \<Rightarrow> assessment option \<Rightarrow> int option \<Rightarrow> int option \<Rightarrow> string option \<Rightarrow> 'a performance_state_scheme \<Rightarrow> 'a performance_state_scheme" where
  "withManagerPart k a v f n s = s\<lparr>reviewsT := updateRow k (\<lambda>r. r\<lparr>rv_managerAssessment := a, rv_managerRating := v,
     rv_finalRating := f, rv_calibrationNote := n\<rparr>) (reviewsT s)\<rparr>"

lemma roleFor_cong:
  "employeesT t = employeesT s \<Longrightarrow> rv_employeeId q = rv_employeeId r \<Longrightarrow> rv_reviewerUserId q = rv_reviewerUserId r
    \<Longrightarrow> roleFor t q actor = roleFor s r actor"
proof -
  assume t: "employeesT t = employeesT s" "rv_employeeId q = rv_employeeId r" "rv_reviewerUserId q = rv_reviewerUserId r"
  have e: "findEmployee t = findEmployee s" "managerOf t = managerOf s" "findByUserId t = findByUserId s"
    using t(1) by (simp_all add: fun_eq_iff findEmployee_def managerOf_def findByUserId_def)
  show ?thesis unfolding roleFor_def revieweeOf_def inChainOf_def isInReportingChain_def e t(2,3) ..
qed

lemma roleFor_reviewee:
  "isReviewee s r actor \<Longrightarrow> REVIEW_MANAGE_CYCLES \<notin> set (au_permissions actor) \<Longrightarrow> roleFor s r actor = Inr EmployeeRole"
  by (auto simp: isReviewee_def roleFor_def revieweeOf_def orThrow_def split: option.splits)

lemma viewReview_reviewee:
  assumes l: "lookup (reviewsT s) k = Some r" "lookup (cyclesT s) (rv_cycleId r) = Some c"
    and me: "isReviewee s r actor" "REVIEW_MANAGE_CYCLES \<notin> set (au_permissions actor)"
  shows "viewReview k actor s =
    (let r1 = r\<lparr>rv_calibrationNote := None\<rparr>
     in Inr (if cy_phase c = CLOSED then (r1, List.map anonymousFeedback (List.filter (\<lambda>(_, f). fb_status f = SUBMITTED) (feedbackOf s k)))
             else (r1\<lparr>rv_managerAssessment := None, rv_managerRating := None, rv_finalRating := None\<rparr>, [])))"
  using l roleFor_reviewee [OF me] by (simp add: viewReview_def reviewById_def Let_def res_simps)

lemma viewReview_note:
  assumes l: "lookup (reviewsT s) k = Some r" "lookup (cyclesT s) (rv_cycleId r) = Some c"
    and p: "REVIEW_MANAGE_CYCLES \<notin> set (au_permissions actor)"
  shows "viewReview k actor (withManagerPart k (rv_managerAssessment r) (rv_managerRating r) (rv_finalRating r) n s) = viewReview k actor s"
proof -
  let ?q = "r\<lparr>rv_calibrationNote := n\<rparr>"
  define t where "t = withManagerPart k (rv_managerAssessment r) (rv_managerRating r) (rv_finalRating r) n s"
  have t: "reviewById t k = Inr (?q, c)" "employeesT t = employeesT s" "feedbackOf t = feedbackOf s" "namedFeedback t = namedFeedback s"
    using l by (simp_all add: t_def withManagerPart_def reviewById_def lookup_updateRow feedbackOf_def namedFeedback_def findUser_def fun_eq_iff
        res_simps)
  have s: "reviewById s k = Inr (r, c)" using l by (simp add: reviewById_def res_simps)
  have role: "roleFor t ?q actor = roleFor s r actor" by (rule roleFor_cong) (simp_all add: t)
  have "roleFor s r actor \<noteq> Inr HrRole" using p by (auto simp: roleFor_def revieweeOf_def res_simps orThrow_def split: option.splits)
  have "viewReview k actor t = viewReview k actor s"
  proof (cases "roleFor s r actor")
    case (Inl e)
    then show ?thesis by (simp add: viewReview_def t(1) s role)
  next
    case (Inr b)
    then show ?thesis using \<open>roleFor s r actor \<noteq> Inr HrRole\<close>
      by (cases b) (simp_all add: viewReview_def t(1,3,4) s role Let_def throwIf_def)
  qed
  then show ?thesis by (simp add: t_def)
qed


section \<open>Whom a launch reaches\<close>

lemma departmentSubtree_exact:
  assumes "deptInv (departmentsT s)"
  obtains ds where "departmentSubtree s d = Some ds"
    "\<And>x. x \<in> set ds \<longleftrightarrow> lookup (departmentsT s) d \<noteq> None \<and> (x = d \<or> reaches (deptParentOf (departmentsT s)) x d)"
proof -
  have k: "keyed (departmentsT s)" and a: "acyclicUp (deptParentOf (departmentsT s))" using assms by (simp_all add: deptInv_def)
  obtain ds where ds: "departmentSubtree s d = Some ds"
    using subLevels_ends [OF k a] by (auto simp: departmentSubtree_def simp del: subLevels.simps)
  have "x \<in> set ds \<longleftrightarrow> lookup (departmentsT s) d \<noteq> None \<and> (x = d \<or> reaches (deptParentOf (departmentsT s)) x d)" for x
    using subLevels_members [OF k ds [unfolded departmentSubtree_def], of x] by simp
  with ds that show thesis by blast
qed

definition inCycleScope :: "'a performance_state_scheme \<Rightarrow> review_cycle \<Rightarrow> employee \<Rightarrow> bool" where
  "inCycleScope s c e \<longleftrightarrow> e_deletedAt e = None \<and> e_status e \<noteq> TERMINATED \<and>
     (case cy_departmentId c of None \<Rightarrow> True
      | Some d \<Rightarrow> lookup (departmentsT s) d \<noteq> None \<and>
          (e_departmentId e = d \<or> reaches (deptParentOf (departmentsT s)) (e_departmentId e) d))"

lemma inScope_cycle:
  assumes d: "deptInv (departmentsT s)"
    and sc: "(case cy_departmentId c of None \<Rightarrow> Some None | Some d \<Rightarrow> map_option Some (departmentSubtree s d)) = Some scope"
  shows "inScope scope e = inCycleScope s c e"
proof (cases "cy_departmentId c")
  case None
  then show ?thesis using sc by (auto simp: inScope_def inCycleScope_def)
next
  case (Some x)
  obtain ds where ds: "departmentSubtree s x = Some ds"
    "\<And>y. y \<in> set ds \<longleftrightarrow> lookup (departmentsT s) x \<noteq> None \<and> (y = x \<or> reaches (deptParentOf (departmentsT s)) y x)"
    using departmentSubtree_exact [OF d, of x] by blast
  then have "scope = Some ds" using sc Some by simp
  then show ?thesis using Some ds(2) by (simp add: inScope_def inCycleScope_def)
qed

text \<open>
  C32. A launch reaches everyone in scope, once. On a draft cycle it always ends; if it succeeds, each
  person employed in the scope (the whole company, or the department with everything below it) has
  exactly one review in the cycle, with the manager's login as reviewer, its number is answered, the
  cycle is in self-review and each of these people with a login is told; nobody else gets a review. It
  is refused, and changes nothing, exactly when nobody is in scope or one of them already has a review.
\<close>

theorem launch_reviews_everyone:
  assumes d: "deptInv (departmentsT s)" and f: "freshReviews newId s"
    and c: "lookup (cyclesT s) k = Some c" "cy_phase c = cycle_phase.DRAFT" and old: "\<forall>r\<in>set (rows (reviewsT s)). rv_cycleId r \<noteq> k"
  shows "let staff = List.filter (\<lambda>(_, e). inCycleScope s c e) (employeesT s)
    in if staff = [] then launch now newId k s = Some (Inl (BadRequest ''No employees in scope''), s)
       else \<exists>t. launch now newId k s = Some (Inr (length staff), t) \<and>
         (\<forall>e emp. lookup (employeesT s) e = Some emp \<and> inCycleScope s c emp \<longrightarrow>
            (\<exists>r. lookup (reviewsT t) (newId e) = Some r \<and> rv_employeeId r = e \<and> rv_reviewerUserId r = managerLogin s emp \<and>
               rv_status r = PENDING_SELF)) \<and>
         (\<forall>j r. lookup (reviewsT t) j = Some r \<and> rv_cycleId r = k \<longrightarrow>
            (\<exists>emp. lookup (employeesT s) (rv_employeeId r) = Some emp \<and> inCycleScope s c emp \<and> j = newId (rv_employeeId r))) \<and>
         map_option cy_phase (lookup (cyclesT t) k) = Some SELF_REVIEW \<and>
         reviewNotices t = reviewNotices s @ List.map_filter (\<lambda>(e, emp). map_option (CycleLaunched k e) (e_userId emp)) staff"
proof -
  obtain scope where sc: "(case cy_departmentId c of None \<Rightarrow> Some None | Some d \<Rightarrow> map_option Some (departmentSubtree s d)) = Some scope"
    using departmentSubtree_exact [OF d] by (metis (no_types, lifting) option.case_eq_if option.simps(9))
  define staff where "staff = List.filter (\<lambda>(_, e). inCycleScope s c e) (employeesT s)"
  have scope: "scopeOf scope s = staff" by (simp add: scopeOf_def staff_def inScope_cycle [OF d sc])
  have run: "launch now newId k s = Some (launchIn now newId k scope s)"
    using c sc by (simp add: launch_def cycleById_def res_simps)
  show ?thesis
  proof (cases "staff = []")
    case True
    then have "launchIn now newId k scope s = (Inl (BadRequest ''No employees in scope''), s)"
      by (simp add: launchIn_run scope)
    then show ?thesis using True run by (simp add: staff_def [symmetric])
  next
    case False
    let ?N = "launchRows newId k s staff"
    let ?t = "s\<lparr>reviewsT := reviewsT s @ ?N, cyclesT := updateRow k (\<lambda>c. c\<lparr>cy_phase := SELF_REVIEW, cy_launchedAt := Some now\<rparr>) (cyclesT s),
      reviewNotices := reviewNotices s @ List.map_filter (\<lambda>(e, emp). map_option (CycleLaunched k e) (e_userId emp)) staff\<rparr>"
    have t: "launchIn now newId k scope s = (Inr (length staff), ?t)"
      using False old by (auto simp: launchIn_run scope list_ex_iff thenS_done [OF launchNotes_effect] returnS_def)
    note nl = launchRows_lookup [OF f, of k scope, unfolded scope inScope_cycle [OF d sc]]
    have free: "lookup (reviewsT s) (newId e) = None" for e using f by (auto simp: freshReviews_def lookup_None_iff)
    have lk: "lookup (reviewsT ?t) j = (case lookup (reviewsT s) j of None \<Rightarrow> lookup ?N j | Some r \<Rightarrow> Some r)" for j
      using f launchRows_keys [of newId k s staff] lookup_Some_keys [of ?N j] lookup_Some_keys [of "reviewsT s" j]
      by (auto simp: lookup_def map_add_def freshReviews_def split: option.split)
    have old_row: "rv_cycleId r \<noteq> k" if "lookup (reviewsT s) j = Some r" for j r
      using old lookup_in_rows [OF that] by blast
    have "\<exists>r. lookup (reviewsT ?t) (newId e) = Some r \<and> rv_employeeId r = e \<and> rv_reviewerUserId r = managerLogin s emp \<and> rv_status r = PENDING_SELF"
      if "lookup (employeesT s) e = Some emp" "inCycleScope s c emp" for e emp
      using that nl [of "newId e" "newReview s k (e, emp)"] unfolding lk free by (auto simp: newReview_def)
    moreover have "\<exists>emp. lookup (employeesT s) (rv_employeeId r) = Some emp \<and> inCycleScope s c emp \<and> j = newId (rv_employeeId r)"
      if r: "lookup (reviewsT ?t) j = Some r" "rv_cycleId r = k" for j r
    proof -
      have "lookup ?N j = Some r" using r old_row [of j] unfolding lk by (auto split: option.splits)
      then show ?thesis using nl [of j r] by (auto simp: newReview_def)
    qed
    ultimately show ?thesis
      using False run t c by (simp add: staff_def [symmetric] lookup_updateRow del: lookup_updateRow) (simp add: lookup_updateRow)
  qed
qed

end
