(* ===== verification/GoalProps.thy ===== *)
theory GoalProps
  imports PerfProps
begin

text \<open>
  The goals of a person: the cap on their weights is an invariant of every step that changes goals. At
  the end a company with a launched cycle, on which the theorems on reviews and goals are applied, and
  what the model shows of the endpoints that do not follow the rules.
\<close>

section \<open>Goals\<close>

abbreviation counted :: "id \<Rightarrow> goal \<Rightarrow> bool" where
  "counted e g \<equiv> go_employeeId g = e \<and> go_status g \<in> {goal_status.DRAFT, goal_status.ACTIVE}"

definition weightIn :: "id \<Rightarrow> id option \<Rightarrow> id \<times> goal \<Rightarrow> int" where
  "weightIn e x = (\<lambda>(j, g). if counted e g \<and> Some j \<noteq> x then go_weight g else 0)"

lemma weightTotal_sum: "weightTotal s e x = (\<Sum>p\<leftarrow>goalsT s. weightIn e x p)"
  unfolding weightTotal_def weightIn_def by (induction "goalsT s" arbitrary: s) (auto simp: sum_list_map_filter' case_prod_unfold)

lemma sum_absent: "k \<notin> set (keys G) \<Longrightarrow> (\<Sum>p\<leftarrow>G. weightIn e None p) = (\<Sum>p\<leftarrow>G. weightIn e (Some k) p)"
  by (induction G) (auto simp: keys_def weightIn_def)

lemma sum_split:
  "keyed G \<Longrightarrow> lookup G k = Some g \<Longrightarrow> (\<Sum>p\<leftarrow>G. weightIn e None p) = (\<Sum>p\<leftarrow>G. weightIn e (Some k) p) + weightIn e None (k, g)"
proof (induction G)
  case (Cons p G)
  obtain j q where p: "p = (j, q)" by (cases p)
  show ?case
  proof (cases "j = k")
    case True
    then have "k \<notin> set (keys G)" "q = g" using Cons.prems by (simp_all add: p keyed_def keys_def lookup_def)
    then show ?thesis using True sum_absent [of k G e] by (simp add: p) (simp add: weightIn_def)
  next
    case False
    then have "keyed G" "lookup G k = Some g" using Cons.prems by (simp_all add: p keyed_def keys_def lookup_def)
    then show ?thesis using Cons.IH False by (simp add: p) (simp add: weightIn_def)
  qed
qed (simp add: lookup_def)

lemma sum_others_update: "(\<Sum>p\<leftarrow>updateRow k f G. weightIn e (Some k) p) = (\<Sum>p\<leftarrow>G. weightIn e (Some k) p)"
  by (induction G) (auto simp: updateRow_def weightIn_def)

lemma sum_update:
  assumes "keyed G" "lookup G k = Some g"
  shows "(\<Sum>p\<leftarrow>updateRow k (\<lambda>_. h) G. weightIn e None p) = (\<Sum>p\<leftarrow>G. weightIn e (Some k) p) + weightIn e None (k, h)"
  using sum_split [of "updateRow k (\<lambda>_. h) G" k h e] assms by (simp add: lookup_updateRow sum_others_update)

lemma sum_delete: "(\<Sum>p\<leftarrow>deleteRow k G. weightIn e None p) = (\<Sum>p\<leftarrow>G. weightIn e (Some k) p)"
  by (induction G) (auto simp: deleteRow_def weightIn_def)

lemma sum_uncycled: "(\<Sum>p\<leftarrow>updateWhere P (\<lambda>g. g\<lparr>go_cycleId := None\<rparr>) G. weightIn e x p) = (\<Sum>p\<leftarrow>G. weightIn e x p)"
  by (induction G) (auto simp: updateWhere_def weightIn_def)

definition goalOk :: "goal \<Rightarrow> bool" where
  "goalOk g \<longleftrightarrow> 0 \<le> go_weight g \<and> (go_status g = goal_status.ACTIVE \<longrightarrow> go_approvedByUserId g \<noteq> None \<and> go_approvedAt g \<noteq> None)"

definition goalInv :: "'a performance_state_scheme \<Rightarrow> bool" where
  "goalInv s \<longleftrightarrow> keyed (goalsT s) \<and> (\<forall>k g. lookup (goalsT s) k = Some g \<longrightarrow> goalOk g) \<and> (\<forall>e. (\<Sum>p\<leftarrow>goalsT s. weightIn e None p) \<le> 100)"

lemma goalInvD:
  assumes "goalInv s"
  shows "keyed (goalsT s)" "lookup (goalsT s) k = Some g \<Longrightarrow> goalOk g" "(\<Sum>p\<leftarrow>goalsT s. weightIn e None p) \<le> 100"
  using assms by (simp_all add: goalInv_def)

lemma goal_others: "goalInv s \<Longrightarrow> lookup (goalsT s) k = Some g \<Longrightarrow> (\<Sum>p\<leftarrow>goalsT s. weightIn e (Some k) p) + weightIn e None (k, g) \<le> 100"
  using goalInvD(3) [of s e] sum_split [of "goalsT s" k g e] goalInvD(1) [of s] by simp

lemma weightIn_nonneg: "goalOk g \<Longrightarrow> 0 \<le> weightIn e x (k, g)"
  by (simp add: weightIn_def goalOk_def)

lemma saveGoal_inv:
  assumes i: "goalInv s" and l: "lookup (goalsT s) k = Some g" and ok: "goalOk h" and e: "go_employeeId h = go_employeeId g"
    and w: "counted (go_employeeId g) h \<Longrightarrow> (counted (go_employeeId g) g \<and> go_weight h = go_weight g) \<or>
      (\<Sum>p\<leftarrow>goalsT s. weightIn (go_employeeId g) (Some k) p) + go_weight h \<le> 100"
  shows "goalInv (saveGoal k h s)"
proof -
  have "(\<Sum>p\<leftarrow>goalsT s. weightIn d (Some k) p) + weightIn d None (k, h) \<le> 100" for d
  proof (cases "counted d h")
    case True
    then show ?thesis using w e goal_others [OF i l, of d] by (auto simp: weightIn_def)
  next
    case False
    then have "weightIn d None (k, h) = 0" by (auto simp: weightIn_def)
    moreover have "0 \<le> weightIn d None (k, g)" by (rule weightIn_nonneg [OF goalInvD(2) [OF i l]])
    ultimately show ?thesis using goal_others [OF i l, of d] by linarith
  qed
  then show ?thesis
    using goalInvD [OF i] l ok by (simp add: goalInv_def saveGoal_def sum_update lookup_updateRow)
qed

inductive goalStep :: "'a performance_state_scheme \<Rightarrow> 'a performance_state_scheme \<Rightarrow> bool" where
  created: "createGoal now k dto actor s = Inr t \<Longrightarrow> k \<notin> set (keys (goalsT s)) \<Longrightarrow> 0 \<le> patched 0 (cg_weight dto) \<Longrightarrow> goalStep s t"
| edited: "updateGoal k udto actor s = Inr t \<Longrightarrow> 0 \<le> patched 0 (gu_weight udto) \<Longrightarrow> gu_status udto \<in> {None, Some goal_status.COMPLETED, Some goal_status.CANCELLED} \<Longrightarrow> goalStep s t"
| approved: "approveGoal now k actor s = Inr t \<Longrightarrow> goalStep s t"
| removed: "removeGoal k actor s = Inr t \<Longrightarrow> goalStep s t"
| cycleRemoved: "removeCycle k s = Inr t \<Longrightarrow> goalStep s t"
| other: "goalsT t = goalsT s \<Longrightarrow> goalStep s t"

lemma createGoal_inv:
  assumes i: "goalInv s" and r: "createGoal now k dto actor s = Inr t" and k: "k \<notin> set (keys (goalsT s))" and w: "0 \<le> patched 0 (cg_weight dto)"
  shows "goalInv t"
proof -
  obtain e b where t: "t = s\<lparr>goalsT := insertRow k (newGoal now e dto b (au_id actor)) (goalsT s)\<rparr>"
    and cap: "weightTotal s e None + patched 0 (cg_weight dto) \<le> 100"
    using r by (auto simp: createGoal_def orThrow_def bindE_def throwIf_def Let_def assertWeight_def split: if_splits option.splits sum.splits)
  let ?g = "newGoal now e dto b (au_id actor)"
  have ok: "goalOk ?g" and c: "weightTotal s (go_employeeId ?g) None + go_weight ?g \<le> 100"
    using w cap by (auto simp: newGoal_def goalOk_def)
  have "(\<Sum>p\<leftarrow>goalsT s. weightIn d None p) + weightIn d None (k, ?g) \<le> 100" for d
    using c goalInvD(3) [OF i, of d] by (auto simp: weightTotal_sum weightIn_def)
  then show ?thesis using goalInvD [OF i] k ok
    by (auto simp: goalInv_def t lookup_insertRow [OF k]) (simp add: insertRow_def)
qed

lemma updateGoal_inv:
  assumes i: "goalInv s" and r: "updateGoal k dto actor s = Inr t" and w: "0 \<le> patched 0 (gu_weight dto)"
    and st: "gu_status dto \<in> {None, Some goal_status.COMPLETED, Some goal_status.CANCELLED}"
  shows "goalInv t"
proof -
  obtain g where l: "lookup (goalsT s) k = Some g"
    using r by (auto simp: updateGoal_def goalById_def res_simps)
  let ?g = "patchGoal dto g"
  have cap: "weightTotal s (go_employeeId g) (Some k) + v \<le> 100" if "gu_weight dto = Some v" for v
    using r l that by (auto simp: updateGoal_def goalById_def res_simps Let_def assertWeight_def whenSome_def split: if_splits)
  obtain h where t: "t = saveGoal k h s" and h: "h \<in> {?g\<lparr>go_status := goal_status.COMPLETED, go_progress := 100\<rparr>,
      ?g\<lparr>go_status := goal_status.CANCELLED\<rparr>, ?g}"
    using r l by (auto simp: updateGoal_def goalById_def res_simps Let_def split: if_splits)
  have ok: "goalOk h" using h w goalInvD(2) [OF i l] by (auto simp: goalOk_def patchGoal_def patched_def split: option.splits)
  show ?thesis unfolding t
  proof (rule saveGoal_inv [OF i l ok])
    show "go_employeeId h = go_employeeId g" using h by (auto simp: patchGoal_def)
    assume "counted (go_employeeId g) h"
    then have "h = ?g" using h by auto
    then show "counted (go_employeeId g) g \<and> go_weight h = go_weight g \<or>
        (\<Sum>p\<leftarrow>goalsT s. weightIn (go_employeeId g) (Some k) p) + go_weight h \<le> 100"
      using cap \<open>counted (go_employeeId g) h\<close> by (cases "gu_weight dto") (auto simp: patchGoal_def patched_def weightTotal_sum)
  qed
qed

lemma removeGoal_inv:
  assumes i: "goalInv s" and r: "removeGoal k actor s = Inr t"
  shows "goalInv t"
proof -
  obtain g where l: "lookup (goalsT s) k = Some g" and t: "t = s\<lparr>goalsT := deleteRow k (goalsT s)\<rparr>"
    using r by (auto simp: removeGoal_def goalById_def res_simps Let_def split: if_splits)
  have "(\<Sum>p\<leftarrow>goalsT s. weightIn d (Some k) p) \<le> 100" for d
    using goal_others [OF i l, of d] weightIn_nonneg [OF goalInvD(2) [OF i l], of d None k] by simp
  then show ?thesis using goalInvD [OF i] by (simp add: goalInv_def t keyed_deleteRow lookup_deleteRow sum_delete)
qed

lemma approveGoal_inv:
  assumes i: "goalInv s" and r: "approveGoal now k actor s = Inr t"
  shows "goalInv t"
proof -
  obtain g where l: "lookup (goalsT s) k = Some g" and d: "go_status g = goal_status.DRAFT"
    and t: "t = saveGoal k (g\<lparr>go_status := goal_status.ACTIVE, go_approvedByUserId := Some (au_id actor), go_approvedAt := Some now\<rparr>) s"
    using r by (auto simp: approveGoal_def goalById_def res_simps)
  show ?thesis unfolding t by (rule saveGoal_inv [OF i l]) (use goalInvD(2) [OF i l] d in \<open>simp_all add: goalOk_def\<close>)
qed

lemma goalStep_inv:
  assumes i: "goalInv s" and st: "goalStep s t"
  shows "goalInv t"
  using st
proof cases
  case (created now k dto actor)
  show ?thesis by (rule createGoal_inv [OF i created])
next
  case (edited k udto actor)
  show ?thesis by (rule updateGoal_inv [OF i edited])
next
  case (approved now k actor)
  show ?thesis by (rule approveGoal_inv [OF i approved])
next
  case (removed k actor)
  show ?thesis by (rule removeGoal_inv [OF i removed])
next
  case (cycleRemoved k)
  then obtain P where "goalsT t = updateWhere P (\<lambda>g. g\<lparr>go_cycleId := None\<rparr>) (goalsT s)"
    by (auto simp: removeCycle_def cycleById_def res_simps)
  then show ?thesis using goalInvD [OF i] by (auto simp: goalInv_def sum_uncycled lookup_updateWhere goalOk_def)
next
  case other
  then show ?thesis using i by (simp add: goalInv_def)
qed

definition noGoals :: "'a performance_state_scheme \<Rightarrow> bool" where
  "noGoals s \<longleftrightarrow> goalsT s = []"

interpretation goal: step_system noGoals goalStep goalInv
  by unfold_locales (simp add: goalInv_def noGoals_def keyed_def keys_def lookup_def, erule (1) goalStep_inv)

definition goalsReachable :: "'a performance_state_scheme \<Rightarrow> bool" where
  "goalsReachable t \<longleftrightarrow> (\<exists>s. noGoals s \<and> goalStep\<^sup>*\<^sup>* s t)"

lemma goals_reachable_inv: "goalsReachable s \<Longrightarrow> goalInv s"
  unfolding goalsReachable_def using goal.reach_inv by blast

text \<open>
  C33. The goals of a person weigh at most 100 percent. Whatever is done to goals (and to the cycles they
  refer to), the weights of a person's drafts and active goals add up to at most 100, and of every active
  goal it is recorded who approved it and when.
\<close>

theorem goal_weights_capped:
  assumes "goalsReachable s"
  shows "weightTotal s e None \<le> 100 \<and>
    (\<forall>k g. lookup (goalsT s) k = Some g \<and> go_status g = goal_status.ACTIVE \<longrightarrow>
       go_approvedByUserId g \<noteq> None \<and> go_approvedAt g \<noteq> None)"
  using goals_reachable_inv [OF assms] by (auto simp: goalInv_def weightTotal_sum goalOk_def)

section \<open>A company with reviews\<close>

definition demoReviews ::
  "review_cycle table \<Rightarrow> review table \<Rightarrow> review_feedback table \<Rightarrow> performance_state" where
  "demoReviews C R F = onboarding_state.extend demoOnboard (performance_state.fields C R F [] [])"

definition demoPlan :: create_cycle_dto where
  "demoPlan = \<lparr>cc_name = ''2026'', cc_description = None, cc_periodStart = dayNum 2026 1 1, cc_periodEnd = dayNum 2026 6 30,
     cc_selfReviewDeadline = dayNum 2026 7 10, cc_managerReviewDeadline = dayNum 2026 7 20, cc_departmentId = None,
     cc_ratingScale = None, cc_competencies = Some [''Craft'']\<rparr>"

definition demoPlanned :: performance_state where
  "demoPlanned = (case createCycle 1 demoPlan 9 (demoReviews [] [] []) of Inr t \<Rightarrow> t | Inl _ \<Rightarrow> demoReviews [] [] [])"

definition demoLaunched :: performance_state where
  "demoLaunched = snd (the (launch 0 (\<lambda>e. e) 1 demoPlanned))"

definition demoCycle :: "cycle_phase \<Rightarrow> review_cycle" where
  "demoCycle p = \<lparr>cy_name = ''2026'', cy_description = None, cy_periodStart = dayNum 2026 1 1, cy_periodEnd = dayNum 2026 6 30,
     cy_phase = p, cy_selfReviewDeadline = dayNum 2026 7 10, cy_managerReviewDeadline = dayNum 2026 7 20, cy_departmentId = None,
     cy_ratingScale = DEFAULT_RATING_SCALE, cy_competencies = [], cy_launchedAt = Some 0, cy_closedAt = None, cy_createdByUserId = Some 9\<rparr>"

text \<open>Ada's review, rated 2 by the reviewer 7 and calibrated to 1.\<close>

definition demoReview :: review where
  "demoReview = \<lparr>rv_cycleId = 1, rv_employeeId = 1, rv_reviewerUserId = Some 7, rv_status = PENDING_CALIBRATION,
     rv_selfAssessment = None, rv_selfRating = None, rv_selfSubmittedAt = None, rv_managerAssessment = None,
     rv_managerRating = Some 2, rv_managerSubmittedAt = Some 0, rv_finalRating = Some 1, rv_calibrated = True,
     rv_calibrationNote = Some ''Lowered'', rv_acknowledgedAt = None, rv_employeeComment = None\<rparr>"

definition demoCalibrating :: performance_state where
  "demoCalibrating = demoReviews [(1, demoCycle CALIBRATION)] [(1, demoReview)] []"

definition demoGoal :: create_goal_dto where
  "demoGoal = \<lparr>cg_employeeId = None, cg_cycleId = Some 1, cg_title = ''Ship'', cg_description = None, cg_weight = Some 60, cg_dueDate = None\<rparr>"

definition demoGoals :: performance_state where
  "demoGoals = (case createGoal 0 1 demoGoal demoActor demoCalibrating of Inr t \<Rightarrow> t | Inl _ \<Rightarrow> demoCalibrating)"

definition demoAll :: review_query where
  "demoAll = \<lparr>pq_page = 1, pq_limit = 20, wq_cycleId = None, wq_employeeId = None, wq_departmentId = None, wq_status = None\<rparr>"

definition demoHr :: auth_user where
  "demoHr = demoActor\<lparr>au_permissions := [REVIEW_MANAGE_CYCLES]\<rparr>"

definition demoPraise :: assessment_dto where
  "demoPraise = \<lparr>as_summary = ''Splendid'', as_achievements = None, as_challenges = None, as_competencies = [], ad_rating = 5\<rparr>"

definition demoAssessing :: performance_state where
  "demoAssessing = demoReviews [(1, demoCycle MANAGER_REVIEW)]
     [(1, demoReview\<lparr>rv_status := PENDING_MANAGER, rv_finalRating := None, rv_calibrated := False, rv_managerRating := None, rv_managerSubmittedAt := None\<rparr>)] []"

text \<open>What the runs of this company answer, evaluated once.\<close>

lemma demo_review_runs:
  "(case createCycle 1 demoPlan 9 (demoReviews [] [] []) of Inl _ \<Rightarrow> False | Inr _ \<Rightarrow> True) \<and>
   (let l = launch 0 (\<lambda>e. e) 1 demoPlanned in
      (map_option fst l, List.map (\<lambda>(_, r). (rv_employeeId r, rv_status r)) (reviewsT (snd (the l))))) =
     (Some (Inr 2), [(1, PENDING_SELF), (2, PENDING_SELF)]) \<and>
   List.map fst (employeesT demoOnboard) = [1, 2] \<and>
   map_option cy_phase (lookup (cyclesT demoPlanned) 1) = Some cycle_phase.DRAFT \<and>
   findEmployee demoCalibrating (rv_employeeId demoReview) \<noteq> None \<and>
   isReviewee demoCalibrating demoReview demoActor \<and>
   (case createGoal 0 1 demoGoal demoActor demoCalibrating of Inl _ \<Rightarrow> None | Inr t \<Rightarrow> Some (weightTotal t 1 None)) = Some 60 \<and>
   requireProfile demoActor demoCalibrating = Inr 1 \<and>
   (case viewReview 1 demoActor demoCalibrating of Inl _ \<Rightarrow> []
     | Inr (r, _) \<Rightarrow> [(rv_managerRating r, rv_finalRating r, rv_calibrationNote r)]) = [(None, None, None)] \<and>
   isReviewee demoCalibrating demoReview demoHr \<and>
   (case submitManager 0 1 demoPraise demoHr demoCalibrating of Inl _ \<Rightarrow> None
     | Inr t \<Rightarrow> map_option rv_managerRating (lookup (reviewsT t) 1)) = Some (Some 5) \<and>
   (case submitManager 0 1 demoPraise (demoActor\<lparr>au_id := 7\<rparr>) demoAssessing of Inl _ \<Rightarrow> []
     | Inr t \<Rightarrow> List.map (\<lambda>(_, r). rv_managerSubmittedAt r) (pendingForReviewer 7 t)) = [Some 0]"
  by code_simp

lemma demo_planned: "createCycle 1 demoPlan 9 (demoReviews [] [] []) = Inr demoPlanned"
proof -
  have "case createCycle 1 demoPlan 9 (demoReviews [] [] []) of Inl _ \<Rightarrow> False | Inr _ \<Rightarrow> True"
    using demo_review_runs by (rule conjunct1)
  then show ?thesis unfolding demoPlanned_def by (simp split: sum.splits)
qed

lemma demo_launched: "launch 0 (\<lambda>e. e) 1 demoPlanned = Some (Inr 2, demoLaunched)"
proof -
  have "map_option fst (launch 0 (\<lambda>e. e) 1 demoPlanned) = Some (Inr 2)"
    using demo_review_runs unfolding Let_def by (elim conjE) (simp only: prod.inject)
  then show ?thesis unfolding demoLaunched_def by (auto simp: prod_eq_iff)
qed

lemma demo_reviews_tables:
  "cyclesT (demoReviews C R F) = C" "reviewsT (demoReviews C R F) = R" "feedbackT (demoReviews C R F) = F"
  "goalsT (demoReviews C R F) = []" "employeesT (demoReviews C R F) = employeesT demoOnboard"
  "departmentsT (demoReviews C R F) = departmentsT demoOnboard"
  by (cases demoOnboard, simp add: demoReviews_def performance_state.defs onboarding_state.defs)+

lemma demo_planned_tables:
  "reviewsT demoPlanned = []" "employeesT demoPlanned = employeesT demoOnboard" "departmentsT demoPlanned = departmentsT demoOnboard"
proof -
  obtain c where c: "(demoReviews [] [] [])\<lparr>cyclesT := c\<rparr> = demoPlanned"
    using demo_planned by (auto simp: createCycle_def res_simps)
  show "reviewsT demoPlanned = []" "employeesT demoPlanned = employeesT demoOnboard" "departmentsT demoPlanned = departmentsT demoOnboard"
    unfolding c [symmetric] by (simp_all add: demo_reviews_tables)
qed

lemma demo_staff: "keyed (employeesT demoOnboard)" "deptInv (departmentsT demoOnboard)"
proof -
  have k: "List.map fst (employeesT demoOnboard) = [1, 2]" using demo_review_runs by (elim conjE)
  then show "keyed (employeesT demoOnboard)" by (simp add: keyed_def keys_def)
  have "departmentsT demoOnboard = departmentsT demoLinked"
    by (cases demoLinked, simp add: demoOnboard_def saveEmployee_def demoAttend_def demoDesk_def demoLeaveWith_def demoPayWith_def demoDocs_def
        org_state.defs doc_state.defs pay_state.defs leave_state.defs attendance_state.defs)
  then show "deptInv (departmentsT demoOnboard)" using demo_linked_inv by (simp add: orgInv_def)
qed

lemma demo_fresh: "freshReviews (\<lambda>e. e) demoPlanned"
  by (simp add: freshReviews_def demo_planned_tables demo_staff keys_def)

lemma demo_launched_reachable: "perfReachable demoLaunched"
proof -
  have "noCycles (demoReviews [] [] [])" by (simp add: noCycles_def demo_reviews_tables)
  moreover have "perfStep (demoReviews [] [] []) demoPlanned"
    by (rule planned [OF demo_planned]) (simp add: demo_reviews_tables keys_def)
  moreover have "perfStep demoPlanned demoLaunched" by (rule launched [OF demo_launched demo_fresh])
  ultimately show ?thesis unfolding perfReachable_def by (meson converse_rtranclp_into_rtranclp rtranclp.rtrancl_refl)
qed

theorem reviews_follow_the_cycle_witness:
  "List.map (\<lambda>(_, r). (rv_employeeId r, rv_status r)) (reviewsT demoLaunched) = [(1, PENDING_SELF), (2, PENDING_SELF)] \<and>
   uniqueBy (\<lambda>a b. rv_cycleId a = rv_cycleId b \<and> rv_employeeId a = rv_employeeId b) (reviewsT demoLaunched)"
proof
  show "List.map (\<lambda>(_, r). (rv_employeeId r, rv_status r)) (reviewsT demoLaunched) = [(1, PENDING_SELF), (2, PENDING_SELF)]"
    using demo_review_runs unfolding Let_def demoLaunched_def by (elim conjE) (simp only: prod.inject)
  show "uniqueBy (\<lambda>a b. rv_cycleId a = rv_cycleId b \<and> rv_employeeId a = rv_employeeId b) (reviewsT demoLaunched)"
    using reviews_follow_the_cycle [OF demo_launched_reachable] by (rule conjunct1)
qed

theorem launch_reviews_everyone_witness:
  "launch 0 (\<lambda>e. e) 1 demoPlanned = Some (Inr 2, demoLaunched) \<and> map_option cy_phase (lookup (cyclesT demoLaunched) 1) = Some SELF_REVIEW"
proof -
  have "map_option cy_phase (lookup (cyclesT demoPlanned) 1) = Some cycle_phase.DRAFT" using demo_review_runs by (elim conjE)
  then obtain c where c: "lookup (cyclesT demoPlanned) 1 = Some c" "cy_phase c = cycle_phase.DRAFT" by auto
  have d: "deptInv (departmentsT demoPlanned)" by (simp add: demo_planned_tables demo_staff)
  have n: "\<forall>r\<in>set (rows (reviewsT demoPlanned)). rv_cycleId r \<noteq> 1" by (simp add: demo_planned_tables rows_def)
  show ?thesis using launch_reviews_everyone [OF d demo_fresh c n, of 0] demo_launched
    by (auto simp: Let_def split: if_splits)
qed


theorem goal_weights_capped_witness: "weightTotal demoGoals 1 None = 60 \<and> weightTotal demoGoals 1 None \<le> 100"
proof
  have "(case createGoal 0 1 demoGoal demoActor demoCalibrating of Inl _ \<Rightarrow> None | Inr t \<Rightarrow> Some (weightTotal t 1 None)) = Some 60"
    using demo_review_runs by (elim conjE)
  then have run: "createGoal 0 1 demoGoal demoActor demoCalibrating = Inr demoGoals" and "weightTotal demoGoals 1 None = 60"
    unfolding demoGoals_def by (simp_all split: sum.splits)
  then show "weightTotal demoGoals 1 None = 60" by blast
  note run
  moreover have g: "goalsT demoCalibrating = []" by (simp add: demoCalibrating_def demo_reviews_tables)
  ultimately have "goalStep demoCalibrating demoGoals"
    using goalStep.created [of 0 1 demoGoal demoActor demoCalibrating demoGoals] by (simp add: keys_def demoGoal_def patched_def)
  then have "goalsReachable demoGoals" unfolding goalsReachable_def noGoals_def using g by blast
  then show "weightTotal demoGoals 1 None \<le> 100" by (rule goal_weights_capped [THEN conjunct1])
qed

section \<open>Where the endpoints part from the rules\<close>

text \<open>
  The list of one's own reviews answers the rows as they are: while the cycle is open it shows the
  manager's rating, the final rating and the calibration note that the review itself hides.
\<close>

lemma my_reviews_show_everything:
  "(case myReviews demoAll demoActor demoCalibrating of Inl _ \<Rightarrow> []
     | Inr (rs, _) \<Rightarrow> List.map (\<lambda>(_, r). (rv_managerRating r, rv_finalRating r, rv_calibrationNote r)) rs) =
     [(Some 2, Some 1, Some ''Lowered'')] \<and>
   (case viewReview 1 demoActor demoCalibrating of Inl _ \<Rightarrow> []
     | Inr (r, _) \<Rightarrow> [(rv_managerRating r, rv_finalRating r, rv_calibrationNote r)]) = [(None, None, None)]"
proof
  have me: "requireProfile demoActor demoCalibrating = Inr 1" using demo_review_runs by (elim conjE)
  have "findEmployee demoCalibrating 1 \<noteq> None" using demo_review_runs by (elim conjE) (simp add: demoReview_def)
  then obtain e where e: "findEmployee demoCalibrating 1 = Some e" by auto
  have "listReviews demoAll (Some [1]) demoCalibrating = pageOf demoAll [(1, demoReview)]"
    using e by (simp add: listReviews_def demoCalibrating_def [THEN arg_cong, of cyclesT, unfolded demo_reviews_tables]
      demoCalibrating_def [THEN arg_cong, of reviewsT, unfolded demo_reviews_tables] demoAll_def demoReview_def lookup_def
      List.map_filter_def)
  then show "(case myReviews demoAll demoActor demoCalibrating of Inl _ \<Rightarrow> []
     | Inr (rs, _) \<Rightarrow> List.map (\<lambda>(_, r). (rv_managerRating r, rv_finalRating r, rv_calibrationNote r)) rs) =
     [(Some 2, Some 1, Some ''Lowered'')]"
    by (simp add: myReviews_def me pageOf_def skip_def paginatedResponse_def demoAll_def demoReview_def)
  show "(case viewReview 1 demoActor demoCalibrating of Inl _ \<Rightarrow> []
     | Inr (r, _) \<Rightarrow> [(rv_managerRating r, rv_finalRating r, rv_calibrationNote r)]) = [(None, None, None)]"
    using demo_review_runs by (elim conjE)
qed

text \<open>Whoever manages the cycles is HR for every review, the own one included.\<close>

lemma hr_assesses_herself:
  "isReviewee demoCalibrating demoReview demoHr \<and>
   (case submitManager 0 1 demoPraise demoHr demoCalibrating of Inl _ \<Rightarrow> None
     | Inr t \<Rightarrow> map_option rv_managerRating (lookup (reviewsT t) 1)) = Some (Some 5)"
  using demo_review_runs by (elim conjE, intro conjI)

text \<open>A review stays in the reviewer's list of what is expected after the assessment is in.\<close>

lemma submitted_review_still_pending:
  "(case submitManager 0 1 demoPraise (demoActor\<lparr>au_id := 7\<rparr>) demoAssessing of Inl _ \<Rightarrow> []
     | Inr t \<Rightarrow> List.map (\<lambda>(_, r). rv_managerSubmittedAt r) (pendingForReviewer 7 t)) = [Some 0]"
  using demo_review_runs by (elim conjE)

end
