(* ===== verification/Templates.thy ===== *)
theory Templates
  imports Prelude Complex_Main
begin

text \<open>
  \<open>notifications/templates/index.ts\<close>: the messages the program sends, with their mails (subject, text,
  HTML) and Slack texts. A message has the fields of \<open>TemplateData\<close> in their order. Typographic dashes
  and arrows are written in ASCII. How a number is printed and an instant spelled out belongs to the
  context. At the end: no value can inject markup into a mail.
\<close>

datatype notification_channel = EMAIL | SLACK

datatype message =
    UserInvitedMsg string string string
  | PasswordResetMsg string string string
  | PasswordChangedMsg string
  | AccountLockedMsg string string string
  | EmployeeWelcomeMsg string string string "string option"
  | NewHireForManagerMsg string string string string "string option"
  | EmployeeTerminatedMsg string string string
  | TasksDueMsg string rat rat string
  | LeaveRequestedMsg string string string string rat string
  | LeaveDecidedMsg string string string string rat string string
  | LeaveCancelledMsg string string string string
  | ReviewCycleLaunchedMsg string string string
  | ReviewActionRequiredMsg string string string string
  | ReviewCompletedMsg string string string
  | FeedbackRequestedMsg string string string string
  | PayslipAvailableMsg string string string string
  | TestMsg string

record rendered_email =
  re_subject :: string
  re_text :: string
  re_html :: string

record template_context =
  tc_appName :: string
  tc_appUrl :: string
  tc_utc :: "string \<Rightarrow> string"
  tc_num :: "rat \<Rightarrow> string"

definition nl :: string where "nl = [CHR 0x0A]"

fun escChar :: "char \<Rightarrow> string" where
  "escChar ch =
     (if ch = CHR ''&'' then ''&amp;'' else if ch = CHR ''<'' then ''&lt;'' else if ch = CHR ''>'' then ''&gt;''
      else if ch = CHR 0x22 then ''&quot;'' else if ch = CHR 0x27 then ''&#39;'' else [ch])"

definition esc :: "string \<Rightarrow> string" where
  "esc s = concat (List.map escChar s)"

definition layout :: "template_context \<Rightarrow> string \<Rightarrow> string \<Rightarrow> string" where
  "layout c title bodyHtml =
     ''<!doctype html><html><body style=\"font-family:Arial,sans-serif;color:#1f2937;max-width:560px;margin:0 auto;padding:24px\">'' @ nl @
     ''<h2 style=\"margin:0 0 16px\">'' @ esc title @ ''</h2>'' @ nl @ bodyHtml @ nl @
     ''<hr style=\"border:none;border-top:1px solid #e5e7eb;margin:24px 0\">'' @ nl @
     ''<p style=\"font-size:12px;color:#6b7280\">'' @ esc (tc_appName c) @ '' - <a href=\"'' @ esc (tc_appUrl c) @ ''\">'' @
     esc (tc_appUrl c) @ ''</a></p>'' @ nl @ ''</body></html>''"

definition para :: "string \<Rightarrow> string" where
  "para s = ''<p style=\"margin:0 0 12px\">'' @ s @ ''</p>''"

definition button :: "string \<Rightarrow> string \<Rightarrow> string" where
  "button href label =
     ''<p style=\"margin:20px 0\"><a href=\"'' @ esc href @
     ''\" style=\"background:#2563eb;color:#fff;padding:10px 18px;border-radius:6px;text-decoration:none\">'' @ esc label @ ''</a></p>''"

text \<open>A field that may be null: null and the empty string are falsy.\<close>

definition truthy :: "string option \<Rightarrow> string option" where
  "truthy v = (if v = Some [] then None else v)"

section \<open>The registry\<close>

definition userInvitedEmail :: "template_context \<Rightarrow> string \<Rightarrow> string \<Rightarrow> string \<Rightarrow> rendered_email" where
  "userInvitedEmail c firstName inviteUrl expiresAt =
     \<lparr>re_subject = ''You're invited to '' @ tc_appName c,
      re_text = ''Hi '' @ firstName @ '','' @ nl @ nl @ ''You've been invited to '' @ tc_appName c @ ''. Set your password here:'' @
        nl @ inviteUrl @ nl @ nl @ ''This link expires '' @ tc_utc c (expiresAt) @ ''.'',
      re_html = layout c (''Welcome to '' @ tc_appName c) (para (''Hi '' @ esc (firstName) @ '','') @ para (''You've been invited to '' @
        esc (tc_appName c) @ ''. Click below to set your password.'') @ button (inviteUrl) (''Accept invitation'') @
        para (''<small>This link expires '' @ esc (tc_utc c (expiresAt)) @ ''.</small>''))\<rparr>"

definition passwordResetEmail :: "template_context \<Rightarrow> string \<Rightarrow> string \<Rightarrow> string \<Rightarrow> rendered_email" where
  "passwordResetEmail c firstName resetUrl expiresAt =
     \<lparr>re_subject = ''Reset your '' @ tc_appName c @ '' password'',
      re_text = ''Hi '' @ firstName @ '','' @ nl @ nl @ ''Reset your password here:'' @ nl @ resetUrl @ nl @ nl @ ''This link expires '' @
        tc_utc c (expiresAt) @ ''. If you didn't request this, ignore this email.'',
      re_html = layout c (''Password reset'') (para (''Hi '' @ esc (firstName) @ '','') @ para (''We received a request to reset your password.'') @
        button (resetUrl) (''Reset password'') @ para (''<small>This link expires '' @ esc (tc_utc c (expiresAt)) @
        ''. If you didn't request this, you can ignore this email.</small>''))\<rparr>"

definition passwordChangedEmail :: "template_context \<Rightarrow> string \<Rightarrow> rendered_email" where
  "passwordChangedEmail c firstName =
     \<lparr>re_subject = ''Your '' @ tc_appName c @ '' password was changed'',
      re_text = ''Hi '' @ firstName @ '','' @ nl @ nl @ ''Your password was just changed and all other sessions were signed out. If this wasn't you, contact HR immediately.'',
      re_html = layout c (''Password changed'') (para (''Hi '' @ esc (firstName) @ '','') @ para (''Your password was just changed and all other sessions were signed out.'') @
        para (''<strong>If this wasn't you, contact HR immediately.</strong>''))\<rparr>"

definition accountLockedEmail :: "template_context \<Rightarrow> string \<Rightarrow> string \<Rightarrow> string \<Rightarrow> rendered_email" where
  "accountLockedEmail c firstName lockedUntil resetUrl =
     \<lparr>re_subject = ''Your '' @ tc_appName c @ '' account was temporarily locked'',
      re_text = ''Hi '' @ firstName @ '','' @ nl @ nl @ ''After several failed sign-in attempts your account is locked until '' @
        tc_utc c (lockedUntil) @ ''. If this wasn't you, reset your password now: '' @ resetUrl @ nl @ nl @
        ''An administrator can also unlock it.'',
      re_html = layout c (''Account temporarily locked'') (para (''Hi '' @ esc (firstName) @ '','') @ para (''After several failed sign-in attempts your account is locked until <strong>'' @
        esc (tc_utc c (lockedUntil)) @ ''</strong>.'') @ para (''If this wasn't you, reset your password now:'') @
        button (resetUrl) (''Reset password'') @ para (''<small>An administrator can also unlock the account.</small>''))\<rparr>"

definition employeeWelcomeEmail :: "template_context \<Rightarrow> string \<Rightarrow> string \<Rightarrow> string \<Rightarrow> string option \<Rightarrow> rendered_email" where
  "employeeWelcomeEmail c firstName startDate department managerName =
     \<lparr>re_subject = ''Welcome to the team, '' @ firstName @ ''!'',
      re_text = ''Hi '' @ firstName @ '','' @ nl @ nl @ ''We're excited to have you join '' @ department @ '' on '' @
        startDate @ ''.'' @ (case truthy managerName of Some managerName \<Rightarrow> '' Your manager will be '' @
        managerName @ ''.'' | None \<Rightarrow> '''') @ nl @ nl @ ''See you soon!'',
      re_html = layout c (''Welcome, '' @ firstName @ ''!'') (para (''We're excited to have you join <strong>'' @ esc (department) @
        ''</strong> on <strong>'' @ esc (startDate) @ ''</strong>.'') @ (case truthy managerName of Some managerName \<Rightarrow> para (''Your manager will be '' @
        esc (managerName) @ ''.'') | None \<Rightarrow> '''') @ para (''See you soon!''))\<rparr>"

definition newHireForManagerEmail :: "template_context \<Rightarrow> string \<Rightarrow> string \<Rightarrow> string \<Rightarrow> string \<Rightarrow> string option \<Rightarrow> rendered_email" where
  "newHireForManagerEmail c managerFirstName employeeName startDate department position =
     \<lparr>re_subject = ''New hire joining your team: '' @ employeeName,
      re_text = ''Hi '' @ managerFirstName @ '','' @ nl @ nl @ employeeName @ '' joins '' @ department @ (case truthy position of Some position \<Rightarrow> '' as '' @
        position | None \<Rightarrow> '''') @ '' on '' @ startDate @ '' and will report to you.'',
      re_html = layout c (''New team member'') (para (''Hi '' @ esc (managerFirstName) @ '','') @ para (''<strong>'' @ esc (employeeName) @
        ''</strong> joins '' @ esc (department) @ (case truthy position of Some position \<Rightarrow> '' as '' @
        esc (position) | None \<Rightarrow> '''') @ '' on <strong>'' @ esc (startDate) @ ''</strong> and will report to you.''))\<rparr>"
definition newHireForManagerSlack :: "template_context \<Rightarrow> string \<Rightarrow> string \<Rightarrow> string \<Rightarrow> string \<Rightarrow> string option \<Rightarrow> string" where
  "newHireForManagerSlack c managerFirstName employeeName startDate department position = '':wave: *'' @ employeeName @ ''* joins '' @ department @ (case truthy position of Some position \<Rightarrow> '' as '' @
        position | None \<Rightarrow> '''') @ '' on '' @ startDate @ '' and will report to you.''"

definition employeeTerminatedEmail :: "template_context \<Rightarrow> string \<Rightarrow> string \<Rightarrow> string \<Rightarrow> rendered_email" where
  "employeeTerminatedEmail c employeeName department terminationDate =
     \<lparr>re_subject = ''Offboarding: '' @ employeeName,
      re_text = employeeName @ '' ('' @ department @ '') - last day '' @ terminationDate @ ''.'',
      re_html = layout c (''Offboarding'') (para (''<strong>'' @ esc (employeeName) @ ''</strong> ('' @ esc (department) @
        '') - last day '' @ esc (terminationDate) @ ''.''))\<rparr>"
definition employeeTerminatedSlack :: "template_context \<Rightarrow> string \<Rightarrow> string \<Rightarrow> string \<Rightarrow> string" where
  "employeeTerminatedSlack c employeeName department terminationDate = '':door: *'' @ employeeName @ ''* ('' @ department @ '') - last day '' @ terminationDate @ ''. Offboarding checklist applies.''"

definition tasksDueEmail :: "template_context \<Rightarrow> string \<Rightarrow> rat \<Rightarrow> rat \<Rightarrow> string \<Rightarrow> rendered_email" where
  "tasksDueEmail c firstName taskCount overdueCount taskSummary =
     \<lparr>re_subject = tc_num c taskCount @ '' onboarding task'' @ (if taskCount = 1 then '''' else ''s'') @ '' need your attention'' @
        (if overdueCount \<noteq> 0 then '' ('' @ tc_num c overdueCount @ '' overdue)'' else ''''),
      re_text = ''Hi '' @ firstName @ '','' @ nl @ nl @ ''These tasks are due soon or overdue:'' @ nl @ nl @ taskSummary @
        nl @ nl @ ''Open '' @ tc_appUrl c @ '' to complete them.'',
      re_html = layout c (''Tasks due'') (para (''Hi '' @ esc (firstName) @ '','') @ para (''These tasks are due soon or overdue:'') @
        ''<pre style=\"white-space:pre-wrap;font-family:inherit\">'' @ esc (taskSummary) @ ''</pre>'' @ button (tc_appUrl c) (''Open my tasks''))\<rparr>"
definition tasksDueSlack :: "template_context \<Rightarrow> string \<Rightarrow> rat \<Rightarrow> rat \<Rightarrow> string \<Rightarrow> string" where
  "tasksDueSlack c firstName taskCount overdueCount taskSummary = '':clipboard: *'' @ tc_num c taskCount @ '' task'' @ (if taskCount = 1 then '''' else ''s'') @ ''* need your attention'' @
        (if overdueCount \<noteq> 0 then '' ('' @ tc_num c overdueCount @ '' overdue)'' else '''') @ '':'' @
        nl @ taskSummary"

definition leaveRequestedEmail :: "template_context \<Rightarrow> string \<Rightarrow> string \<Rightarrow> string \<Rightarrow> string \<Rightarrow> rat \<Rightarrow> string \<Rightarrow> rendered_email" where
  "leaveRequestedEmail c employeeName leaveType startDate endDate days reason =
     \<lparr>re_subject = ''Leave request from '' @ employeeName @ '': '' @ leaveType @ '', '' @ startDate @ '' -> '' @ endDate,
      re_text = employeeName @ '' requested '' @ tc_num c days @ '' day(s) of '' @ leaveType @ '' from '' @ startDate @
        '' to '' @ endDate @ ''.'' @ (if reason \<noteq> [] then nl @ ''Reason: '' @ reason else '''') @ nl @
        nl @ ''Review it at '' @ tc_appUrl c @ ''.'',
      re_html = layout c (''Leave request'') (para (''<strong>'' @ esc (employeeName) @ ''</strong> requested <strong>'' @
        tc_num c days @ ''</strong> day(s) of '' @ esc (leaveType) @ '' from <strong>'' @ esc (startDate) @
        ''</strong> to <strong>'' @ esc (endDate) @ ''</strong>.'') @ (if reason \<noteq> [] then para (''Reason: '' @
        esc (reason)) else '''') @ button (tc_appUrl c) (''Review request''))\<rparr>"
definition leaveRequestedSlack :: "template_context \<Rightarrow> string \<Rightarrow> string \<Rightarrow> string \<Rightarrow> string \<Rightarrow> rat \<Rightarrow> string \<Rightarrow> string" where
  "leaveRequestedSlack c employeeName leaveType startDate endDate days reason = '':palm_tree: *'' @ employeeName @ ''* requested '' @ tc_num c days @ '' day(s) of '' @ leaveType @
        '': '' @ startDate @ '' -> '' @ endDate @ (if reason \<noteq> [] then '' - _'' @ reason @ ''_'' else '''')"

definition leaveDecidedEmail :: "template_context \<Rightarrow> string \<Rightarrow> string \<Rightarrow> string \<Rightarrow> string \<Rightarrow> rat \<Rightarrow> string \<Rightarrow> string \<Rightarrow> rendered_email" where
  "leaveDecidedEmail c firstName leaveType startDate endDate days decision note =
     \<lparr>re_subject = ''Your '' @ leaveType @ '' request was '' @ decision,
      re_text = ''Hi '' @ firstName @ '','' @ nl @ nl @ ''Your '' @ leaveType @ '' request ('' @ startDate @ '' -> '' @
        endDate @ '', '' @ tc_num c days @ '' day(s)) was '' @ decision @ ''.'' @ (if note \<noteq> [] then nl @
        ''Note: '' @ note else ''''),
      re_html = layout c (''Leave '' @ decision) (para (''Hi '' @ esc (firstName) @ '','') @ para (''Your '' @ esc (leaveType) @
        '' request (<strong>'' @ esc (startDate) @ ''</strong> -> <strong>'' @ esc (endDate) @ ''</strong>, '' @
        tc_num c days @ '' day(s)) was <strong>'' @ esc (decision) @ ''</strong>.'') @ (if note \<noteq> [] then para (''Note: '' @
        esc (note)) else ''''))\<rparr>"
definition leaveDecidedSlack :: "template_context \<Rightarrow> string \<Rightarrow> string \<Rightarrow> string \<Rightarrow> string \<Rightarrow> rat \<Rightarrow> string \<Rightarrow> string \<Rightarrow> string" where
  "leaveDecidedSlack c firstName leaveType startDate endDate days decision note = (if decision = ''approved'' then '':white_check_mark:'' else '':x:'') @ '' Your '' @ leaveType @ '' request ('' @
        startDate @ '' -> '' @ endDate @ '') was *'' @ decision @ ''*'' @ (if note \<noteq> [] then '' - _'' @
        note @ ''_'' else '''')"

definition leaveCancelledEmail :: "template_context \<Rightarrow> string \<Rightarrow> string \<Rightarrow> string \<Rightarrow> string \<Rightarrow> rendered_email" where
  "leaveCancelledEmail c employeeName leaveType startDate endDate =
     \<lparr>re_subject = ''Leave cancelled: '' @ employeeName,
      re_text = employeeName @ '' cancelled their '' @ leaveType @ '' request ('' @ startDate @ '' -> '' @ endDate @
        '').'',
      re_html = layout c (''Leave cancelled'') (para (''<strong>'' @ esc (employeeName) @ ''</strong> cancelled their '' @
        esc (leaveType) @ '' request ('' @ esc (startDate) @ '' -> '' @ esc (endDate) @ '').''))\<rparr>"
definition leaveCancelledSlack :: "template_context \<Rightarrow> string \<Rightarrow> string \<Rightarrow> string \<Rightarrow> string \<Rightarrow> string" where
  "leaveCancelledSlack c employeeName leaveType startDate endDate = '':leftwards_arrow_with_hook: *'' @ employeeName @ ''* cancelled their '' @ leaveType @ '' request ('' @
        startDate @ '' -> '' @ endDate @ '').''"

definition reviewCycleLaunchedEmail :: "template_context \<Rightarrow> string \<Rightarrow> string \<Rightarrow> string \<Rightarrow> rendered_email" where
  "reviewCycleLaunchedEmail c firstName cycleName selfReviewDeadline =
     \<lparr>re_subject = cycleName @ '': your self-review is open'',
      re_text = ''Hi '' @ firstName @ '','' @ nl @ nl @ ''The '' @ cycleName @ '' review cycle has started. Please complete your self-review by '' @
        selfReviewDeadline @ ''.'' @ nl @ nl @ tc_appUrl c,
      re_html = layout c (''Self-review open'') (para (''Hi '' @ esc (firstName) @ '','') @ para (''The <strong>'' @ esc (cycleName) @
        ''</strong> review cycle has started. Please complete your self-review by <strong>'' @ esc (selfReviewDeadline) @
        ''</strong>.'') @ button (tc_appUrl c) (''Start self-review''))\<rparr>"
definition reviewCycleLaunchedSlack :: "template_context \<Rightarrow> string \<Rightarrow> string \<Rightarrow> string \<Rightarrow> string" where
  "reviewCycleLaunchedSlack c firstName cycleName selfReviewDeadline = '':memo: *'' @ cycleName @ ''* has started - complete your self-review by '' @ selfReviewDeadline @
        ''.''"

definition reviewActionRequiredEmail :: "template_context \<Rightarrow> string \<Rightarrow> string \<Rightarrow> string \<Rightarrow> string \<Rightarrow> rendered_email" where
  "reviewActionRequiredEmail c firstName action cycleName deadline =
     \<lparr>re_subject = ''Reminder: '' @ action @ '' for '' @ cycleName @ '' by '' @ deadline,
      re_text = ''Hi '' @ firstName @ '','' @ nl @ nl @ ''Please '' @ action @ '' for '' @ cycleName @ ''. Deadline: '' @
        deadline @ ''.'' @ nl @ nl @ tc_appUrl c,
      re_html = layout c (''Review reminder'') (para (''Hi '' @ esc (firstName) @ '','') @ para (''Please '' @ esc (action) @
        '' for <strong>'' @ esc (cycleName) @ ''</strong>. Deadline: <strong>'' @ esc (deadline) @ ''</strong>.'') @
        button (tc_appUrl c) (''Open reviews''))\<rparr>"
definition reviewActionRequiredSlack :: "template_context \<Rightarrow> string \<Rightarrow> string \<Rightarrow> string \<Rightarrow> string \<Rightarrow> string" where
  "reviewActionRequiredSlack c firstName action cycleName deadline = '':alarm_clock: Please '' @ action @ '' for *'' @ cycleName @ ''* - deadline '' @ deadline @ ''.''"

definition reviewCompletedEmail :: "template_context \<Rightarrow> string \<Rightarrow> string \<Rightarrow> string \<Rightarrow> rendered_email" where
  "reviewCompletedEmail c firstName cycleName ratingLabel =
     \<lparr>re_subject = ''Your '' @ cycleName @ '' review is ready'',
      re_text = ''Hi '' @ firstName @ '','' @ nl @ nl @ ''Your '' @ cycleName @ '' review is complete (overall: '' @
        ratingLabel @ ''). Please read it and acknowledge.'' @ nl @ nl @ tc_appUrl c,
      re_html = layout c (''Review complete'') (para (''Hi '' @ esc (firstName) @ '','') @ para (''Your <strong>'' @ esc (cycleName) @
        ''</strong> review is complete (overall: <strong>'' @ esc (ratingLabel) @ ''</strong>). Please read it and acknowledge.'') @
        button (tc_appUrl c) (''View review''))\<rparr>"
definition reviewCompletedSlack :: "template_context \<Rightarrow> string \<Rightarrow> string \<Rightarrow> string \<Rightarrow> string" where
  "reviewCompletedSlack c firstName cycleName ratingLabel = '':star: Your *'' @ cycleName @ ''* review is ready to read and acknowledge.''"

definition feedbackRequestedEmail :: "template_context \<Rightarrow> string \<Rightarrow> string \<Rightarrow> string \<Rightarrow> string \<Rightarrow> rendered_email" where
  "feedbackRequestedEmail c firstName aboutName cycleName deadline =
     \<lparr>re_subject = ''Feedback requested: '' @ aboutName @ '' ('' @ cycleName @ '')'',
      re_text = ''Hi '' @ firstName @ '','' @ nl @ nl @ ''You've been asked for feedback on '' @ aboutName @ '' for '' @
        cycleName @ ''. Please respond by '' @ deadline @ ''.'' @ nl @ nl @ tc_appUrl c,
      re_html = layout c (''Feedback requested'') (para (''Hi '' @ esc (firstName) @ '','') @ para (''You've been asked for feedback on <strong>'' @
        esc (aboutName) @ ''</strong> for '' @ esc (cycleName) @ ''. Please respond by <strong>'' @ esc (deadline) @
        ''</strong>.'') @ button (tc_appUrl c) (''Give feedback''))\<rparr>"
definition feedbackRequestedSlack :: "template_context \<Rightarrow> string \<Rightarrow> string \<Rightarrow> string \<Rightarrow> string \<Rightarrow> string" where
  "feedbackRequestedSlack c firstName aboutName cycleName deadline = '':speech_balloon: Feedback requested on *'' @ aboutName @ ''* ('' @ cycleName @ '') - by '' @ deadline @
        ''.''"

definition payslipAvailableEmail :: "template_context \<Rightarrow> string \<Rightarrow> string \<Rightarrow> string \<Rightarrow> string \<Rightarrow> rendered_email" where
  "payslipAvailableEmail c firstName periodStart periodEnd payDate =
     \<lparr>re_subject = ''Your payslip for '' @ periodStart @ '' - '' @ periodEnd @ '' is available'',
      re_text = ''Hi '' @ firstName @ '','' @ nl @ nl @ ''Your payslip for '' @ periodStart @ '' - '' @ periodEnd @
        '' (pay date '' @ payDate @ '') is ready. Sign in to view or download it.'' @ nl @ nl @ tc_appUrl c,
      re_html = layout c (''Payslip available'') (para (''Hi '' @ esc (firstName) @ '','') @ para (''Your payslip for <strong>'' @
        esc (periodStart) @ '' - '' @ esc (periodEnd) @ ''</strong> (pay date '' @ esc (payDate) @ '') is ready.'') @
        button (tc_appUrl c) (''View payslip''))\<rparr>"
definition payslipAvailableSlack :: "template_context \<Rightarrow> string \<Rightarrow> string \<Rightarrow> string \<Rightarrow> string \<Rightarrow> string" where
  "payslipAvailableSlack c firstName periodStart periodEnd payDate = '':moneybag: Your payslip for '' @ periodStart @ '' - '' @ periodEnd @ '' is available in the HR portal.''"

definition testEmail :: "template_context \<Rightarrow> string \<Rightarrow> rendered_email" where
  "testEmail c firstName =
     \<lparr>re_subject = tc_appName c @ '' test notification'',
      re_text = ''Hi '' @ firstName @ '', this is a test. If you can read this, email delivery works.'',
      re_html = layout c (''Test notification'') (para (''Hi '' @ esc (firstName) @ '', this is a test. If you can read this, email delivery works.''))\<rparr>"
definition testSlack :: "template_context \<Rightarrow> string \<Rightarrow> string" where
  "testSlack c firstName = ''Hi '' @ firstName @ '', this is a test. Slack delivery works. :white_check_mark:''"

fun defaultChannels :: "message \<Rightarrow> notification_channel list" where
  "defaultChannels (UserInvitedMsg _ _ _) = [EMAIL]"
| "defaultChannels (PasswordResetMsg _ _ _) = [EMAIL]"
| "defaultChannels (PasswordChangedMsg _) = [EMAIL]"
| "defaultChannels (AccountLockedMsg _ _ _) = [EMAIL]"
| "defaultChannels (EmployeeWelcomeMsg _ _ _ _) = [EMAIL]"
| "defaultChannels (NewHireForManagerMsg _ _ _ _ _) = [SLACK, EMAIL]"
| "defaultChannels (EmployeeTerminatedMsg _ _ _) = [SLACK]"
| "defaultChannels (TasksDueMsg _ _ _ _) = [SLACK, EMAIL]"
| "defaultChannels (LeaveRequestedMsg _ _ _ _ _ _) = [SLACK, EMAIL]"
| "defaultChannels (LeaveDecidedMsg _ _ _ _ _ _ _) = [SLACK, EMAIL]"
| "defaultChannels (LeaveCancelledMsg _ _ _ _) = [SLACK]"
| "defaultChannels (ReviewCycleLaunchedMsg _ _ _) = [SLACK, EMAIL]"
| "defaultChannels (ReviewActionRequiredMsg _ _ _ _) = [SLACK, EMAIL]"
| "defaultChannels (ReviewCompletedMsg _ _ _) = [EMAIL]"
| "defaultChannels (FeedbackRequestedMsg _ _ _ _) = [SLACK, EMAIL]"
| "defaultChannels (PayslipAvailableMsg _ _ _ _) = [EMAIL]"
| "defaultChannels (TestMsg _) = [EMAIL, SLACK]"

fun emailOf :: "template_context \<Rightarrow> message \<Rightarrow> rendered_email option" where
  "emailOf c (UserInvitedMsg firstName inviteUrl expiresAt) = Some (userInvitedEmail c firstName inviteUrl expiresAt)"
| "emailOf c (PasswordResetMsg firstName resetUrl expiresAt) = Some (passwordResetEmail c firstName resetUrl expiresAt)"
| "emailOf c (PasswordChangedMsg firstName) = Some (passwordChangedEmail c firstName)"
| "emailOf c (AccountLockedMsg firstName lockedUntil resetUrl) = Some (accountLockedEmail c firstName lockedUntil resetUrl)"
| "emailOf c (EmployeeWelcomeMsg firstName startDate department managerName) = Some (employeeWelcomeEmail c firstName startDate department managerName)"
| "emailOf c (NewHireForManagerMsg managerFirstName employeeName startDate department position) = Some (newHireForManagerEmail c managerFirstName employeeName startDate department position)"
| "emailOf c (EmployeeTerminatedMsg employeeName department terminationDate) = Some (employeeTerminatedEmail c employeeName department terminationDate)"
| "emailOf c (TasksDueMsg firstName taskCount overdueCount taskSummary) = Some (tasksDueEmail c firstName taskCount overdueCount taskSummary)"
| "emailOf c (LeaveRequestedMsg employeeName leaveType startDate endDate days reason) = Some (leaveRequestedEmail c employeeName leaveType startDate endDate days reason)"
| "emailOf c (LeaveDecidedMsg firstName leaveType startDate endDate days decision note) = Some (leaveDecidedEmail c firstName leaveType startDate endDate days decision note)"
| "emailOf c (LeaveCancelledMsg employeeName leaveType startDate endDate) = Some (leaveCancelledEmail c employeeName leaveType startDate endDate)"
| "emailOf c (ReviewCycleLaunchedMsg firstName cycleName selfReviewDeadline) = Some (reviewCycleLaunchedEmail c firstName cycleName selfReviewDeadline)"
| "emailOf c (ReviewActionRequiredMsg firstName action cycleName deadline) = Some (reviewActionRequiredEmail c firstName action cycleName deadline)"
| "emailOf c (ReviewCompletedMsg firstName cycleName ratingLabel) = Some (reviewCompletedEmail c firstName cycleName ratingLabel)"
| "emailOf c (FeedbackRequestedMsg firstName aboutName cycleName deadline) = Some (feedbackRequestedEmail c firstName aboutName cycleName deadline)"
| "emailOf c (PayslipAvailableMsg firstName periodStart periodEnd payDate) = Some (payslipAvailableEmail c firstName periodStart periodEnd payDate)"
| "emailOf c (TestMsg firstName) = Some (testEmail c firstName)"

fun slackOf :: "template_context \<Rightarrow> message \<Rightarrow> string option" where
  "slackOf c (UserInvitedMsg firstName inviteUrl expiresAt) = None"
| "slackOf c (PasswordResetMsg firstName resetUrl expiresAt) = None"
| "slackOf c (PasswordChangedMsg firstName) = None"
| "slackOf c (AccountLockedMsg firstName lockedUntil resetUrl) = None"
| "slackOf c (EmployeeWelcomeMsg firstName startDate department managerName) = None"
| "slackOf c (NewHireForManagerMsg managerFirstName employeeName startDate department position) = Some (newHireForManagerSlack c managerFirstName employeeName startDate department position)"
| "slackOf c (EmployeeTerminatedMsg employeeName department terminationDate) = Some (employeeTerminatedSlack c employeeName department terminationDate)"
| "slackOf c (TasksDueMsg firstName taskCount overdueCount taskSummary) = Some (tasksDueSlack c firstName taskCount overdueCount taskSummary)"
| "slackOf c (LeaveRequestedMsg employeeName leaveType startDate endDate days reason) = Some (leaveRequestedSlack c employeeName leaveType startDate endDate days reason)"
| "slackOf c (LeaveDecidedMsg firstName leaveType startDate endDate days decision note) = Some (leaveDecidedSlack c firstName leaveType startDate endDate days decision note)"
| "slackOf c (LeaveCancelledMsg employeeName leaveType startDate endDate) = Some (leaveCancelledSlack c employeeName leaveType startDate endDate)"
| "slackOf c (ReviewCycleLaunchedMsg firstName cycleName selfReviewDeadline) = Some (reviewCycleLaunchedSlack c firstName cycleName selfReviewDeadline)"
| "slackOf c (ReviewActionRequiredMsg firstName action cycleName deadline) = Some (reviewActionRequiredSlack c firstName action cycleName deadline)"
| "slackOf c (ReviewCompletedMsg firstName cycleName ratingLabel) = Some (reviewCompletedSlack c firstName cycleName ratingLabel)"
| "slackOf c (FeedbackRequestedMsg firstName aboutName cycleName deadline) = Some (feedbackRequestedSlack c firstName aboutName cycleName deadline)"
| "slackOf c (PayslipAvailableMsg firstName periodStart periodEnd payDate) = Some (payslipAvailableSlack c firstName periodStart periodEnd payDate)"
| "slackOf c (TestMsg firstName) = Some (testSlack c firstName)"

text \<open>The fields as the log and the job carry them.\<close>

datatype payload_value = PText string | PNum rat | PNull

definition optText :: "string option \<Rightarrow> payload_value" where
  "optText v = (case v of None \<Rightarrow> PNull | Some s \<Rightarrow> PText s)"

fun entries :: "message \<Rightarrow> (string \<times> payload_value) list" where
  "entries (UserInvitedMsg firstName inviteUrl expiresAt) =
     [(''firstName'', PText firstName), (''inviteUrl'', PText inviteUrl), (''expiresAt'', PText expiresAt)]"
| "entries (PasswordResetMsg firstName resetUrl expiresAt) =
     [(''firstName'', PText firstName), (''resetUrl'', PText resetUrl), (''expiresAt'', PText expiresAt)]"
| "entries (PasswordChangedMsg firstName) =
     [(''firstName'', PText firstName)]"
| "entries (AccountLockedMsg firstName lockedUntil resetUrl) =
     [(''firstName'', PText firstName), (''lockedUntil'', PText lockedUntil), (''resetUrl'', PText resetUrl)]"
| "entries (EmployeeWelcomeMsg firstName startDate department managerName) =
     [(''firstName'', PText firstName), (''startDate'', PText startDate), (''department'', PText department), (''managerName'', optText managerName)]"
| "entries (NewHireForManagerMsg managerFirstName employeeName startDate department position) =
     [(''managerFirstName'', PText managerFirstName), (''employeeName'', PText employeeName), (''startDate'', PText startDate), (''department'', PText department), (''position'', optText position)]"
| "entries (EmployeeTerminatedMsg employeeName department terminationDate) =
     [(''employeeName'', PText employeeName), (''department'', PText department), (''terminationDate'', PText terminationDate)]"
| "entries (TasksDueMsg firstName taskCount overdueCount taskSummary) =
     [(''firstName'', PText firstName), (''taskCount'', PNum taskCount), (''overdueCount'', PNum overdueCount), (''taskSummary'', PText taskSummary)]"
| "entries (LeaveRequestedMsg employeeName leaveType startDate endDate days reason) =
     [(''employeeName'', PText employeeName), (''leaveType'', PText leaveType), (''startDate'', PText startDate), (''endDate'', PText endDate), (''days'', PNum days), (''reason'', PText reason)]"
| "entries (LeaveDecidedMsg firstName leaveType startDate endDate days decision note) =
     [(''firstName'', PText firstName), (''leaveType'', PText leaveType), (''startDate'', PText startDate), (''endDate'', PText endDate), (''days'', PNum days), (''decision'', PText decision), (''note'', PText note)]"
| "entries (LeaveCancelledMsg employeeName leaveType startDate endDate) =
     [(''employeeName'', PText employeeName), (''leaveType'', PText leaveType), (''startDate'', PText startDate), (''endDate'', PText endDate)]"
| "entries (ReviewCycleLaunchedMsg firstName cycleName selfReviewDeadline) =
     [(''firstName'', PText firstName), (''cycleName'', PText cycleName), (''selfReviewDeadline'', PText selfReviewDeadline)]"
| "entries (ReviewActionRequiredMsg firstName action cycleName deadline) =
     [(''firstName'', PText firstName), (''action'', PText action), (''cycleName'', PText cycleName), (''deadline'', PText deadline)]"
| "entries (ReviewCompletedMsg firstName cycleName ratingLabel) =
     [(''firstName'', PText firstName), (''cycleName'', PText cycleName), (''ratingLabel'', PText ratingLabel)]"
| "entries (FeedbackRequestedMsg firstName aboutName cycleName deadline) =
     [(''firstName'', PText firstName), (''aboutName'', PText aboutName), (''cycleName'', PText cycleName), (''deadline'', PText deadline)]"
| "entries (PayslipAvailableMsg firstName periodStart periodEnd payDate) =
     [(''firstName'', PText firstName), (''periodStart'', PText periodStart), (''periodEnd'', PText periodEnd), (''payDate'', PText payDate)]"
| "entries (TestMsg firstName) =
     [(''firstName'', PText firstName)]"

fun templateName :: "message \<Rightarrow> string" where
  "templateName (UserInvitedMsg _ _ _) = ''USER_INVITED''"
| "templateName (PasswordResetMsg _ _ _) = ''PASSWORD_RESET''"
| "templateName (PasswordChangedMsg _) = ''PASSWORD_CHANGED''"
| "templateName (AccountLockedMsg _ _ _) = ''ACCOUNT_LOCKED''"
| "templateName (EmployeeWelcomeMsg _ _ _ _) = ''EMPLOYEE_WELCOME''"
| "templateName (NewHireForManagerMsg _ _ _ _ _) = ''NEW_HIRE_FOR_MANAGER''"
| "templateName (EmployeeTerminatedMsg _ _ _) = ''EMPLOYEE_TERMINATED''"
| "templateName (TasksDueMsg _ _ _ _) = ''TASKS_DUE''"
| "templateName (LeaveRequestedMsg _ _ _ _ _ _) = ''LEAVE_REQUESTED''"
| "templateName (LeaveDecidedMsg _ _ _ _ _ _ _) = ''LEAVE_DECIDED''"
| "templateName (LeaveCancelledMsg _ _ _ _) = ''LEAVE_CANCELLED''"
| "templateName (ReviewCycleLaunchedMsg _ _ _) = ''REVIEW_CYCLE_LAUNCHED''"
| "templateName (ReviewActionRequiredMsg _ _ _ _) = ''REVIEW_ACTION_REQUIRED''"
| "templateName (ReviewCompletedMsg _ _ _) = ''REVIEW_COMPLETED''"
| "templateName (FeedbackRequestedMsg _ _ _ _) = ''FEEDBACK_REQUESTED''"
| "templateName (PayslipAvailableMsg _ _ _ _) = ''PAYSLIP_AVAILABLE''"
| "templateName (TestMsg _) = ''TEST''"

section \<open>No markup from values\<close>

text \<open>The characters with a meaning in HTML, in the order they occur.\<close>

definition markup :: "string \<Rightarrow> string" where
  "markup s = List.filter (\<lambda>ch. ch \<in> {CHR ''<'', CHR ''>'', CHR 0x22, CHR 0x27}) s"

lemma markup_append [simp]: "markup (a @ b) = markup a @ markup b"
  by (simp add: markup_def)

lemma markup_Nil [simp]: "markup [] = []"
  by (simp add: markup_def)

lemma markup_escChar: "markup (escChar ch) = []"
  by (simp add: markup_def)

lemma markup_esc [simp]: "markup (esc s) = []"
  by (induction s) (simp_all add: esc_def markup_escChar del: escChar.simps)

text \<open>The same template with the same optional parts.\<close>

fun optionalPart :: "message \<Rightarrow> bool" where
  "optionalPart (EmployeeWelcomeMsg _ _ _ managerName) \<longleftrightarrow> truthy managerName \<noteq> None"
| "optionalPart (NewHireForManagerMsg _ _ _ _ position) \<longleftrightarrow> truthy position \<noteq> None"
| "optionalPart (LeaveRequestedMsg _ _ _ _ _ reason) \<longleftrightarrow> reason \<noteq> []"
| "optionalPart (LeaveDecidedMsg _ _ _ _ _ _ note) \<longleftrightarrow> note \<noteq> []"
| "optionalPart _ \<longleftrightarrow> True"

text \<open>A message with nothing in it but its optional part.\<close>

fun blank :: "message \<Rightarrow> message" where
  "blank (UserInvitedMsg _ _ _) = UserInvitedMsg [] [] []"
| "blank (PasswordResetMsg _ _ _) = PasswordResetMsg [] [] []"
| "blank (PasswordChangedMsg _) = PasswordChangedMsg []"
| "blank (AccountLockedMsg _ _ _) = AccountLockedMsg [] [] []"
| "blank (EmployeeWelcomeMsg _ _ _ managerName) = EmployeeWelcomeMsg [] [] [] (map_option (\<lambda>_. ''x'') (truthy managerName))"
| "blank (NewHireForManagerMsg _ _ _ _ position) = NewHireForManagerMsg [] [] [] [] (map_option (\<lambda>_. ''x'') (truthy position))"
| "blank (EmployeeTerminatedMsg _ _ _) = EmployeeTerminatedMsg [] [] []"
| "blank (TasksDueMsg _ _ _ _) = TasksDueMsg [] 0 0 []"
| "blank (LeaveRequestedMsg _ _ _ _ _ reason) = LeaveRequestedMsg [] [] [] [] 0 (if reason \<noteq> [] then ''x'' else [])"
| "blank (LeaveDecidedMsg _ _ _ _ _ _ note) = LeaveDecidedMsg [] [] [] [] 0 [] (if note \<noteq> [] then ''x'' else [])"
| "blank (LeaveCancelledMsg _ _ _ _) = LeaveCancelledMsg [] [] [] []"
| "blank (ReviewCycleLaunchedMsg _ _ _) = ReviewCycleLaunchedMsg [] [] []"
| "blank (ReviewActionRequiredMsg _ _ _ _) = ReviewActionRequiredMsg [] [] [] []"
| "blank (ReviewCompletedMsg _ _ _) = ReviewCompletedMsg [] [] []"
| "blank (FeedbackRequestedMsg _ _ _ _) = FeedbackRequestedMsg [] [] [] []"
| "blank (PayslipAvailableMsg _ _ _ _) = PayslipAvailableMsg [] [] [] []"
| "blank (TestMsg _) = TestMsg []"

lemma blank_eq:
  assumes "templateName m = templateName n" "optionalPart m = optionalPart n"
  shows "blank m = blank n"
  using assms by (cases m; cases n) (auto simp: truthy_def)

definition blankContext :: template_context where
  "blankContext = \<lparr>tc_appName = [], tc_appUrl = [], tc_utc = (\<lambda>_. []), tc_num = (\<lambda>_. [])\<rparr>"

definition htmlOf :: "template_context \<Rightarrow> message \<Rightarrow> string" where
  "htmlOf c m = (case emailOf c m of None \<Rightarrow> [] | Some e \<Rightarrow> re_html e)"

lemmas mail_defs = layout_def para_def button_def userInvitedEmail_def passwordResetEmail_def passwordChangedEmail_def accountLockedEmail_def employeeWelcomeEmail_def newHireForManagerEmail_def employeeTerminatedEmail_def tasksDueEmail_def leaveRequestedEmail_def leaveDecidedEmail_def leaveCancelledEmail_def reviewCycleLaunchedEmail_def reviewActionRequiredEmail_def reviewCompletedEmail_def feedbackRequestedEmail_def payslipAvailableEmail_def testEmail_def

lemma mail_markup:
  assumes num: "\<And>x. markup (tc_num c x) = []"
  shows "markup (htmlOf c m) = markup (htmlOf blankContext (blank m))"
proof -
  have b: "markup (tc_num blankContext x) = []" for x by (simp add: blankContext_def)
  have t: "truthy (map_option (\<lambda>_. ''x'') (truthy v)) = map_option (\<lambda>_. ''x'') (truthy v)" for v
    by (cases v) (auto simp: truthy_def)
  have x: "((if v \<noteq> [] then ''x'' else []) \<noteq> []) = (v \<noteq> [])" for v :: string by simp
  show ?thesis
    by (cases m; (simp only: htmlOf_def emailOf.simps blank.simps option.case rendered_email.simps mail_defs markup_append markup_Nil
          markup_esc num b t x append_Nil append_Nil2 option.map split: option.split if_split; simp?)?)
qed

text \<open>
  C36. No value gets markup into a mail. Two mails of the same template with the same optional parts have
  the same characters \<open>< > " '\<close> in the same order in their HTML, whatever the names, dates, reasons,
  links and the application's name and address are (as long as printed numbers have none).
\<close>

theorem mails_carry_no_markup:
  assumes "emailOf c m = Some e" "emailOf d n = Some f"
    and "templateName m = templateName n" "optionalPart m = optionalPart n"
    and "\<And>x. markup (tc_num c x) = []" "\<And>x. markup (tc_num d x) = []"
  shows "markup (re_html e) = markup (re_html f)"
  using mail_markup [of c m] mail_markup [of d n] blank_eq [OF assms(3,4)] assms(1,2,5,6) by (simp add: htmlOf_def)

theorem mails_carry_no_markup_witness:
  "markup (re_html (leaveRequestedEmail blankContext ''<b>Ada</b>'' [] [] [] 0 ''<script>'')) =
   markup (re_html (leaveRequestedEmail blankContext ''Ben'' [] [] [] 0 ''Holiday''))"
  by (rule mails_carry_no_markup
      [of blankContext "LeaveRequestedMsg ''<b>Ada</b>'' [] [] [] 0 ''<script>''" _
        blankContext "LeaveRequestedMsg ''Ben'' [] [] [] 0 ''Holiday''"]) (simp_all add: blankContext_def)

text \<open>Slack texts are not escaped: a reason can hold a broadcast or a link of Slack's markup.\<close>

lemma slack_text_is_raw:
  "slackOf blankContext (LeaveRequestedMsg ''Ada'' ''Annual'' ''2026-01-05'' ''2026-01-06'' 2 ''<!channel>'') =
   Some ('':palm_tree: *Ada* requested  day(s) of Annual: 2026-01-05 -> 2026-01-06 - _<!channel>_'')"
  by (simp add: leaveRequestedSlack_def blankContext_def)

end
