(* ===== verification/Notifications.thy ===== *)
theory Notifications
  imports Templates Performance
begin

text \<open>
  \<open>notifications.service.ts\<close>, \<open>notifications.processor.ts\<close>, the controller and the listeners: what
  \<open>notify\<close> writes to the log and hands to the queue, how a job of the queue is delivered, and the
  preferences. The queue is a table of jobs by the key of their log row; whether it takes a job and what
  the mail server and Slack answer are arguments. What has been sent is part of the state.
\<close>

datatype notification_status = QUEUED | SENT | FAILED | SKIPPED

record notification_log =
  nl_channel :: notification_channel
  nl_template :: string
  nl_recipientUserId :: "id option"
  nl_recipientAddress :: "string option"
  nl_status :: notification_status
  nl_dedupeKey :: "(string \<times> int list \<times> notification_channel) option"
  nl_payload :: "(string \<times> payload_value) list"
  nl_jobId :: "id option"
  nl_attempts :: nat
  nl_error :: "string option"
  nl_providerRef :: "string option"
  nl_sentAt :: "int option"
  nl_createdAt :: int

record notification_preference =
  np_emailEnabled :: bool
  np_slackEnabled :: bool
  np_slackUserId :: "string option"

record recipient =
  rc_userId :: "id option"
  rc_email :: "string option"
  rc_slackChannel :: "string option"
  rc_name :: "string option"

text \<open>A deduplication key is kept as its constant part and the numbers in it.\<close>

record notify_options =
  no_message :: message
  no_to :: recipient
  no_channels :: "notification_channel list option"
  no_dedupeKey :: "(string \<times> int list) option"

record notification_job =
  nj_channel :: notification_channel
  nj_to :: recipient
  nj_message :: message
  nj_attemptsMade :: nat

datatype sent_message = Mail string rendered_email | SlackPost string string

record notify_state = performance_state +
  notificationsT :: "notification_log table"
  preferencesT :: "notification_preference table"
  notifyJobs :: "notification_job table"
  sentMessages :: "(id \<times> sent_message) list"

text \<open>
  The configuration: \<open>ne_attempts\<close> is how often the queue runs a job; \<open>ne_iso\<close> and \<open>ne_encode\<close> stand for
  \<open>toISOString\<close> and \<open>encodeURIComponent\<close>.
\<close>

record notify_env =
  ne_context :: template_context
  ne_slackConfigured :: bool
  ne_slackChannel :: string
  ne_attempts :: nat
  ne_iso :: "int \<Rightarrow> string"
  ne_encode :: "string \<Rightarrow> string"

section \<open>Notify\<close>

definition endsWith :: "string \<Rightarrow> string \<Rightarrow> bool" where
  "endsWith k suffix \<longleftrightarrow> length suffix \<le> length k \<and> drop (length k - length suffix) (citext k) = suffix"

text \<open>The test \<open>/(token|url)$/i\<close> on the name of the field.\<close>

definition secretKey :: "string \<Rightarrow> bool" where
  "secretKey k \<longleftrightarrow> endsWith k ''token'' \<or> endsWith k ''url''"

definition redact :: "(string \<times> payload_value) list \<Rightarrow> (string \<times> payload_value) list" where
  "redact data = List.map (\<lambda>(k, v). (k, if secretKey k then PText ''[redacted]'' else v)) data"

definition hasVariant :: "notify_env \<Rightarrow> message \<Rightarrow> notification_channel \<Rightarrow> bool" where
  "hasVariant E m ch = (case ch of EMAIL \<Rightarrow> emailOf (ne_context E) m \<noteq> None | SLACK \<Rightarrow> slackOf (ne_context E) m \<noteq> None)"

definition firstSome :: "'x option \<Rightarrow> 'x option \<Rightarrow> 'x option" where
  "firstSome a b = (case a of None \<Rightarrow> b | Some _ \<Rightarrow> a)"

definition newLog :: "int \<Rightarrow> notify_options \<Rightarrow> notification_channel \<Rightarrow> notification_log" where
  "newLog now opts ch =
     \<lparr>nl_channel = ch, nl_template = templateName (no_message opts), nl_recipientUserId = rc_userId (no_to opts),
      nl_recipientAddress = firstSome (rc_email (no_to opts)) (rc_slackChannel (no_to opts)), nl_status = QUEUED,
      nl_dedupeKey = map_option (\<lambda>(p, ns). (p, ns, ch)) (no_dedupeKey opts), nl_payload = redact (entries (no_message opts)),
      nl_jobId = None, nl_attempts = 0, nl_error = None, nl_providerRef = None, nl_sentAt = None, nl_createdAt = now\<rparr>"

definition keyUsed :: "(string \<times> int list \<times> notification_channel) option \<Rightarrow> 'a notify_state_scheme \<Rightarrow> bool" where
  "keyUsed d s \<longleftrightarrow> d \<noteq> None \<and> list_ex (\<lambda>n. nl_dedupeKey n = d) (rows (notificationsT s))"

text \<open>One channel; \<open>takes k\<close> tells whether the queue accepts the job of row \<open>k\<close>.\<close>

definition notifyChannel ::
  "notify_env \<Rightarrow> (id \<Rightarrow> bool) \<Rightarrow> int \<Rightarrow> (notification_channel \<Rightarrow> id) \<Rightarrow> notify_options \<Rightarrow> notification_channel
     \<Rightarrow> ('a notify_state_scheme, id list) act" where
  "notifyChannel E takes now newId opts ch s =
     (let n = newLog now opts ch; k = newId ch
      in if \<not> hasVariant E (no_message opts) ch \<or> keyUsed (nl_dedupeKey n) s then (Inr [], s)
         else let s1 = s\<lparr>notificationsT := insertRow k n (notificationsT s)\<rparr>
         in if \<not> takes k then (Inl (InternalError ''Queue is unavailable''), s1)
         else (Inr [k], s1
           \<lparr>notifyJobs := insertRow k
              \<lparr>nj_channel = ch, nj_to = no_to opts, nj_message = no_message opts, nj_attemptsMade = 0\<rparr> (notifyJobs s1),
            notificationsT := updateRow k (\<lambda>n. n\<lparr>nl_jobId := Some k\<rparr>) (notificationsT s1)\<rparr>))"

definition channelsOf :: "notify_options \<Rightarrow> notification_channel list" where
  "channelsOf opts = (case no_channels opts of None \<Rightarrow> defaultChannels (no_message opts) | Some chs \<Rightarrow> chs)"

definition notify ::
  "notify_env \<Rightarrow> (id \<Rightarrow> bool) \<Rightarrow> int \<Rightarrow> (notification_channel \<Rightarrow> id) \<Rightarrow> notify_options \<Rightarrow> ('a notify_state_scheme, id list) act" where
  "notify E takes now newId opts =
     bindS (mapS (notifyChannel E takes now newId opts) (channelsOf opts)) (\<lambda>idss. returnS (concat idss))"

section \<open>Preferences and the log\<close>

definition defaultPreference :: notification_preference where
  "defaultPreference = \<lparr>np_emailEnabled = True, np_slackEnabled = True, np_slackUserId = None\<rparr>"

definition getPreferences :: "id \<Rightarrow> 'a notify_state_scheme \<Rightarrow> notification_preference" where
  "getPreferences u s = (case lookup (preferencesT s) u of None \<Rightarrow> defaultPreference | Some p \<Rightarrow> p)"

text \<open>Rows are keyed by the user; saving inserts or overwrites.\<close>

definition savePreference :: "id \<Rightarrow> notification_preference \<Rightarrow> 'a notify_state_scheme \<Rightarrow> 'a notify_state_scheme" where
  "savePreference u p s = s\<lparr>preferencesT :=
     (if lookup (preferencesT s) u = None then insertRow u p (preferencesT s) else updateRow u (\<lambda>_. p) (preferencesT s))\<rparr>"

record update_preferences_dto =
  pd_emailEnabled :: "bool option"
  pd_slackEnabled :: "bool option"
  pd_slackUserId :: "string option option"

definition updatePreferences :: "id \<Rightarrow> update_preferences_dto \<Rightarrow> 'a notify_state_scheme \<Rightarrow> 'a notify_state_scheme" where
  "updatePreferences u dto s =
     (let p = getPreferences u s
      in savePreference u (p\<lparr>np_emailEnabled := patched (np_emailEnabled p) (pd_emailEnabled dto),
           np_slackEnabled := patched (np_slackEnabled p) (pd_slackEnabled dto),
           np_slackUserId := patched (np_slackUserId p) (pd_slackUserId dto)\<rparr>) s)"

record log_filter = page_query +
  lf_status :: "notification_status option"
  lf_channel :: "notification_channel option"
  lf_recipientUserId :: "id option"
  lf_template :: "string option"

text \<open>An empty template name is falsy. Rows are in the order of their creation, the list starts with the last.\<close>

definition listLog :: "log_filter \<Rightarrow> 'a notify_state_scheme \<Rightarrow> (id \<times> notification_log) list \<times> page_meta" where
  "listLog f s = pageOf f (rev (List.filter (\<lambda>(_, n).
     lf_status f \<in> {None, Some (nl_status n)} \<and> lf_channel f \<in> {None, Some (nl_channel n)} \<and>
     lf_template f \<in> {None, Some [], Some (nl_template n)} \<and>
     (lf_recipientUserId f = None \<or> lf_recipientUserId f = nl_recipientUserId n)) (notificationsT s)))"

section \<open>Delivery\<close>

text \<open>What the outside answers: the mail server and Slack a reference or an error, the lookup of a Slack id perhaps none.\<close>

record answers =
  an_mail :: "string + string"
  an_post :: "string + string"
  an_lookup :: "string + string option"

datatype delivery_error = Skip string | Fail string

definition truthyText :: "string option \<Rightarrow> string option" where
  "truthyText v = (if v = Some [] then None else v)"

definition setAddress :: "id \<Rightarrow> string \<Rightarrow> 'a notify_state_scheme \<Rightarrow> 'a notify_state_scheme" where
  "setAddress k a s = s\<lparr>notificationsT := updateRow k (\<lambda>n. n\<lparr>nl_recipientAddress := Some a\<rparr>) (notificationsT s)\<rparr>"

definition mailAddress :: "recipient \<Rightarrow> 'a notify_state_scheme \<Rightarrow> delivery_error + string option" where
  "mailAddress to s =
     (case rc_userId to of None \<Rightarrow> Inr (rc_email to)
      | Some u \<Rightarrow>
          if map_option np_emailEnabled (lookup (preferencesT s) u) = Some False then Inl (Skip ''email disabled by user'')
          else (case rc_email to of Some a \<Rightarrow> Inr (Some a)
            | None \<Rightarrow> (case findUser s u of None \<Rightarrow> Inl (Fail ''User not found'') | Some usr \<Rightarrow> Inr (Some (u_email usr)))))"

definition deliverEmail ::
  "notify_env \<Rightarrow> answers \<Rightarrow> id \<Rightarrow> notification_job \<Rightarrow> 'a notify_state_scheme \<Rightarrow> (delivery_error + string) \<times> 'a notify_state_scheme" where
  "deliverEmail E A k j s =
     (case emailOf (ne_context E) (nj_message j) of None \<Rightarrow> (Inl (Skip ''template has no email variant''), s)
      | Some mail \<Rightarrow>
          (case bindE (mailAddress (nj_to j) s) (\<lambda>a. orThrow (truthyText a) (Skip ''no email address for recipient'') Inr) of
             Inl e \<Rightarrow> (Inl e, s)
           | Inr a \<Rightarrow>
               (case an_mail A of Inl e \<Rightarrow> (Inl (Fail e), s)
                | Inr ref \<Rightarrow> (Inr ref, setAddress k a (s\<lparr>sentMessages := sentMessages s @ [(k, Mail a mail)]\<rparr>)))))"

text \<open>The Slack id from the preferences, else looked up by mail address and kept.\<close>

definition resolveSlackUser ::
  "answers \<Rightarrow> id \<Rightarrow> 'a notify_state_scheme \<Rightarrow> (delivery_error + string option) \<times> 'a notify_state_scheme" where
  "resolveSlackUser A u s =
     (let p = lookup (preferencesT s) u
      in if map_option np_slackEnabled p = Some False then (Inl (Skip ''slack disabled by user''), s)
         else (case Option.bind p (\<lambda>q. truthyText (np_slackUserId q)) of Some sid \<Rightarrow> (Inr (Some sid), s)
           | None \<Rightarrow>
               (case findUser s u of None \<Rightarrow> (Inl (Fail ''User not found''), s)
                | Some _ \<Rightarrow>
                    (case an_lookup A of Inl e \<Rightarrow> (Inl (Fail e), s)
                     | Inr found \<Rightarrow>
                         (case truthyText found of None \<Rightarrow> (Inr None, s)
                          | Some sid \<Rightarrow> (Inr (Some sid), savePreference u ((getPreferences u s)\<lparr>np_slackUserId := Some sid\<rparr>) s))))))"

definition slackDestination ::
  "answers \<Rightarrow> recipient \<Rightarrow> 'a notify_state_scheme \<Rightarrow> (delivery_error + string option) \<times> 'a notify_state_scheme" where
  "slackDestination A to s =
     (case rc_slackChannel to of Some c \<Rightarrow> (Inr (Some c), s)
      | None \<Rightarrow> (case rc_userId to of None \<Rightarrow> (Inr None, s) | Some u \<Rightarrow> resolveSlackUser A u s))"

definition deliverSlack ::
  "notify_env \<Rightarrow> answers \<Rightarrow> id \<Rightarrow> notification_job \<Rightarrow> 'a notify_state_scheme \<Rightarrow> (delivery_error + string) \<times> 'a notify_state_scheme" where
  "deliverSlack E A k j s =
     (case slackOf (ne_context E) (nj_message j) of None \<Rightarrow> (Inl (Skip ''template has no slack variant''), s)
      | Some txt \<Rightarrow>
          if \<not> ne_slackConfigured E then (Inl (Skip ''slack not configured''), s)
          else (case slackDestination A (nj_to j) s of
             (Inl e, s1) \<Rightarrow> (Inl e, s1)
           | (Inr c, s1) \<Rightarrow>
               (case truthyText c of None \<Rightarrow> (Inl (Skip ''no slack destination for recipient''), s1)
                | Some chan \<Rightarrow>
                    (case an_post A of Inl e \<Rightarrow> (Inl (Fail e), s1)
                     | Inr ts \<Rightarrow> (Inr ts, setAddress k chan (s1\<lparr>sentMessages := sentMessages s1 @ [(k, SlackPost chan txt)]\<rparr>))))))"

definition deliver ::
  "notify_env \<Rightarrow> answers \<Rightarrow> id \<Rightarrow> notification_job \<Rightarrow> 'a notify_state_scheme \<Rightarrow> (delivery_error + string) \<times> 'a notify_state_scheme" where
  "deliver E A k j s = (case nj_channel j of EMAIL \<Rightarrow> deliverEmail E A k j s | SLACK \<Rightarrow> deliverSlack E A k j s)"

definition noteSent :: "int \<Rightarrow> nat \<Rightarrow> string \<Rightarrow> notification_log \<Rightarrow> notification_log" where
  "noteSent now attempts ref n = n\<lparr>nl_status := SENT, nl_providerRef := Some ref, nl_sentAt := Some now, nl_attempts := attempts, nl_error := None\<rparr>"

definition noteOutcome :: "notification_status \<Rightarrow> nat \<Rightarrow> string \<Rightarrow> notification_log \<Rightarrow> notification_log" where
  "noteOutcome st attempts msg n = n\<lparr>nl_status := st, nl_error := Some msg, nl_attempts := attempts\<rparr>"

definition updateLog :: "id \<Rightarrow> (notification_log \<Rightarrow> notification_log) \<Rightarrow> 'a notify_state_scheme \<Rightarrow> 'a notify_state_scheme" where
  "updateLog k f s = s\<lparr>notificationsT := updateRow k f (notificationsT s)\<rparr>"

text \<open>The row is read before the \<open>try\<close>: a job without one fails. A failed delivery is thrown again, for the queue to retry.\<close>

definition processNotification ::
  "notify_env \<Rightarrow> answers \<Rightarrow> int \<Rightarrow> id \<Rightarrow> notification_job \<Rightarrow> ('a notify_state_scheme, unit) act" where
  "processNotification E A now k j s =
     (case lookup (notificationsT s) k of None \<Rightarrow> (Inl (InternalError ''log missing''), s)
      | Some n \<Rightarrow>
          if nl_status n \<in> {SENT, SKIPPED} then (Inr (), s)
          else (let made = nj_attemptsMade j + 1
            in case deliver E A k j s of
                 (Inr ref, s1) \<Rightarrow> (Inr (), updateLog k (noteSent now made ref) s1)
               | (Inl (Skip msg), s1) \<Rightarrow> (Inr (), updateLog k (noteOutcome SKIPPED made msg) s1)
               | (Inl (Fail msg), s1) \<Rightarrow>
                   (Inl (InternalError msg),
                    updateLog k (noteOutcome (if ne_attempts E \<le> made then FAILED else QUEUED) made (take 1000 msg)) s1)))"

text \<open>What the queue does with a job it has run: done, to be retried, or given up.\<close>

definition settleJob :: "notify_env \<Rightarrow> id \<Rightarrow> notification_job \<Rightarrow> unit res \<times> 'a notify_state_scheme \<Rightarrow> 'a notify_state_scheme" where
  "settleJob E k j = (\<lambda>(r, s). s\<lparr>notifyJobs :=
     (if r = Inr () \<or> ne_attempts E \<le> nj_attemptsMade j + 1 then deleteRow k (notifyJobs s)
      else updateRow k (\<lambda>j. j\<lparr>nj_attemptsMade := nj_attemptsMade j + 1\<rparr>) (notifyJobs s))\<rparr>)"

section \<open>Listeners\<close>

definition toEmail :: "string \<Rightarrow> string option \<Rightarrow> recipient" where
  "toEmail a name = \<lparr>rc_userId = None, rc_email = Some a, rc_slackChannel = None, rc_name = name\<rparr>"

definition toUser :: "id \<Rightarrow> recipient" where
  "toUser u = \<lparr>rc_userId = Some u, rc_email = None, rc_slackChannel = None, rc_name = None\<rparr>"

definition toSlack :: "string \<Rightarrow> recipient" where
  "toSlack c = \<lparr>rc_userId = None, rc_email = None, rc_slackChannel = Some c, rc_name = None\<rparr>"

definition options :: "message \<Rightarrow> recipient \<Rightarrow> (string \<times> int list) option \<Rightarrow> notify_options" where
  "options m to d = \<lparr>no_message = m, no_to = to, no_channels = None, no_dedupeKey = d\<rparr>"

fun authNotice :: "notify_env \<Rightarrow> auth_event \<Rightarrow> notify_options" where
  "authNotice E (UserInvited u email firstName token expires) =
     options (UserInvitedMsg firstName (tc_appUrl (ne_context E) @ ''/accept-invite?token='' @ ne_encode E token) (ne_iso E expires))
       (toEmail email (Some firstName)) (Some (''auth.invite'', [int u, expires]))"
| "authNotice E (PasswordResetRequested u email firstName token expires) =
     options (PasswordResetMsg firstName (tc_appUrl (ne_context E) @ ''/reset-password?token='' @ ne_encode E token) (ne_iso E expires))
       (toEmail email (Some firstName)) (Some (''auth.reset'', [int u, expires]))"
| "authNotice E (AccountLocked u email firstName until) =
     options (AccountLockedMsg firstName (ne_iso E until) (tc_appUrl (ne_context E) @ ''/forgot-password''))
       (toEmail email None) (Some (''auth.locked'', [int u, until]))"
| "authNotice E (PasswordChanged u email firstName) =
     options (PasswordChangedMsg firstName) (toEmail email None) None"

definition onAuthEvent ::
  "notify_env \<Rightarrow> (id \<Rightarrow> bool) \<Rightarrow> int \<Rightarrow> (notification_channel \<Rightarrow> id) \<Rightarrow> auth_event \<Rightarrow> ('a notify_state_scheme, unit) act" where
  "onAuthEvent E takes now newId e = bindS (notify E takes now newId (authNotice E e)) (\<lambda>_. returnS ())"

definition departmentName :: "'a notify_state_scheme \<Rightarrow> employee \<Rightarrow> string" where
  "departmentName s e = (case lookup (departmentsT s) (e_departmentId e) of None \<Rightarrow> [] | Some d \<Rightarrow> d_name d)"

definition managerOfHire :: "'a notify_state_scheme \<Rightarrow> employee \<Rightarrow> employee option" where
  "managerOfHire s e = Option.bind (e_managerId e) (findEmployee s)"

definition welcomeNotice :: "'a notify_state_scheme \<Rightarrow> id \<Rightarrow> employee \<Rightarrow> notify_options" where
  "welcomeNotice s k e = options
     (EmployeeWelcomeMsg (e_firstName e) (isoOfDay (e_hireDate e)) (departmentName s e)
        (map_option Employees.fullName (managerOfHire s e)))
     (toEmail (e_workEmail e) (Some (e_firstName e))) (Some (''employee.welcome'', [int k]))"

definition hireNotice :: "'a notify_state_scheme \<Rightarrow> id \<Rightarrow> employee \<Rightarrow> employee \<Rightarrow> notify_options" where
  "hireNotice s k e m = options
     (NewHireForManagerMsg (e_firstName m) (Employees.fullName e) (isoOfDay (e_hireDate e)) (departmentName s e)
        (Option.bind (e_positionId e) (\<lambda>p. map_option p_title (lookup (positionsT s) p))))
     (case e_userId m of Some u \<Rightarrow> toUser u | None \<Rightarrow> toEmail (e_workEmail m) (Some (e_firstName m)))
     (Some (''employee.new-hire-manager'', [int k]))"

definition onEmployeeCreated ::
  "notify_env \<Rightarrow> (id \<Rightarrow> bool) \<Rightarrow> int \<Rightarrow> (notification_channel \<Rightarrow> id) \<Rightarrow> (notification_channel \<Rightarrow> id) \<Rightarrow> id
     \<Rightarrow> ('a notify_state_scheme, unit) act" where
  "onEmployeeCreated E takes now newId newId' k s =
     (case findEmployee s k of None \<Rightarrow> (Inr (), s)
      | Some e \<Rightarrow>
          bindS (notify E takes now newId (welcomeNotice s k e)) (\<lambda>_.
            (case managerOfHire s e of None \<Rightarrow> returnS ()
             | Some m \<Rightarrow> bindS (notify E takes now newId' (hireNotice s k e m)) (\<lambda>_. returnS ()))) s)"

definition exitNotice :: "notify_env \<Rightarrow> 'a notify_state_scheme \<Rightarrow> id \<Rightarrow> employee \<Rightarrow> date \<Rightarrow> notify_options" where
  "exitNotice E s k e d =
     (options (EmployeeTerminatedMsg (Employees.fullName e) (departmentName s e) (isoOfDay d)) (toSlack (ne_slackChannel E))
        (Some (''employee.terminated'', [int k, d])))\<lparr>no_channels := Some [SLACK]\<rparr>"

definition onEmployeeTerminated ::
  "notify_env \<Rightarrow> (id \<Rightarrow> bool) \<Rightarrow> int \<Rightarrow> (notification_channel \<Rightarrow> id) \<Rightarrow> id \<Rightarrow> date \<Rightarrow> ('a notify_state_scheme, unit) act" where
  "onEmployeeTerminated E takes now newId k d s =
     (case findEmployee s k of None \<Rightarrow> (Inr (), s)
      | Some e \<Rightarrow> if \<not> ne_slackConfigured E then (Inr (), s)
          else bindS (notify E takes now newId (exitNotice E s k e d)) (\<lambda>_. returnS ()) s)"

definition sendTest ::
  "notify_env \<Rightarrow> (id \<Rightarrow> bool) \<Rightarrow> int \<Rightarrow> (notification_channel \<Rightarrow> id) \<Rightarrow> auth_user \<Rightarrow> ('a notify_state_scheme, id list) act" where
  "sendTest E takes now newId actor =
     bindS (readS (\<lambda>s. findById s (au_id actor))) (\<lambda>u.
       notify E takes now newId (options (TestMsg (u_firstName u)) (toUser (au_id actor)) None))"

end
