(* ===== verification/NotifyProps.thy ===== *)
theory NotifyProps
  imports Notifications PayRuns GoalProps
begin

text \<open>
  A notice is delivered at most once, whatever is repeated; what a delivery does for the preferences of
  the recipient; and links with tokens stay out of the log.
\<close>

section \<open>Once\<close>

definition sentIds :: "'a notify_state_scheme \<Rightarrow> id set" where
  "sentIds s = fst ` set (sentMessages s)"

definition sameDedupe :: "notification_log \<Rightarrow> notification_log \<Rightarrow> bool" where
  "sameDedupe a b \<longleftrightarrow> nl_dedupeKey a \<noteq> None \<and> nl_dedupeKey a = nl_dedupeKey b"

definition notifyInv :: "'a notify_state_scheme \<Rightarrow> bool" where
  "notifyInv s \<longleftrightarrow> keyed (notificationsT s) \<and> uniqueBy sameDedupe (notificationsT s) \<and> distinct (List.map fst (sentMessages s)) \<and>
     (\<forall>k n. lookup (notificationsT s) k = Some n \<longrightarrow> (nl_status n = SENT \<longleftrightarrow> k \<in> sentIds s))"

lemma notifyInvD:
  assumes "notifyInv s"
  shows "keyed (notificationsT s)" "uniqueBy sameDedupe (notificationsT s)" "distinct (List.map fst (sentMessages s))"
    "lookup (notificationsT s) k = Some n \<Longrightarrow> nl_status n = SENT \<longleftrightarrow> k \<in> sentIds s"
  using assms by (simp_all add: notifyInv_def)

definition unusedId :: "id \<Rightarrow> 'a notify_state_scheme \<Rightarrow> bool" where
  "unusedId k s \<longleftrightarrow> k \<notin> set (keys (notificationsT s)) \<and> k \<notin> sentIds s"

lemma updateRow_orig: "lookup (updateRow k f T) a = Some x \<Longrightarrow> \<exists>y. lookup T a = Some y \<and> (x = y \<or> x = f y)"
  by (auto simp: lookup_updateRow split: if_splits)

lemma dedupe_kept:
  assumes u: "uniqueBy sameDedupe T" and f: "\<And>n. nl_dedupeKey (f n) = nl_dedupeKey n"
  shows "uniqueBy sameDedupe (updateRow k f T)"
proof (rule uniqueBy_orig [OF u])
  fix a b x y assume "lookup (updateRow k f T) a = Some x" "lookup (updateRow k f T) b = Some y" "sameDedupe x y"
  then show "\<exists>x' y'. lookup T a = Some x' \<and> lookup T b = Some y' \<and> sameDedupe x' y'"
    using updateRow_orig [of k f T a x] updateRow_orig [of k f T b y] f unfolding sameDedupe_def by metis
qed

lemma updateLog_inv:
  assumes i: "notifyInv s" and f: "\<And>n. nl_dedupeKey (f n) = nl_dedupeKey n"
    and st: "\<And>n. lookup (notificationsT s) k = Some n \<Longrightarrow> nl_status (f n) = SENT \<longleftrightarrow> k \<in> sentIds s"
  shows "notifyInv (updateLog k f s)"
proof -
  have "uniqueBy sameDedupe (updateRow k f (notificationsT s))" by (rule dedupe_kept [OF notifyInvD(2) [OF i] f])
  then show ?thesis
    using notifyInvD [OF i] st by (auto simp: notifyInv_def updateLog_def sentIds_def lookup_updateRow)
qed

lemma uniqueBy_newKey:
  assumes "keyed T" "uniqueBy sameDedupe T" "k \<notin> set (keys T)" "\<not> (nl_dedupeKey n \<noteq> None \<and> list_ex (\<lambda>m. nl_dedupeKey m = nl_dedupeKey n) (rows T))"
  shows "uniqueBy sameDedupe (insertRow k n T)"
proof (rule uniqueBy_insert [OF assms(2,3)])
  fix j q assume "lookup T j = Some q"
  then have "q \<in> set (rows T)" by (rule lookup_in_rows)
  then show "\<not> sameDedupe q n \<and> \<not> sameDedupe n q" using assms(4) unfolding sameDedupe_def list_ex_iff by metis
qed

lemma notifyChannel_inv:
  assumes i: "notifyInv s" and k: "unusedId (newId ch) s" and run: "notifyChannel E takes now newId opts ch s = (r, t)"
  shows "notifyInv t \<and> set (keys (notificationsT t)) \<subseteq> insert (newId ch) (set (keys (notificationsT s))) \<and> sentMessages t = sentMessages s"
proof (cases "\<not> hasVariant E (no_message opts) ch \<or> keyUsed (nl_dedupeKey (newLog now opts ch)) s")
  case True
  then have "t = s" using run by (simp add: notifyChannel_def Let_def)
  then show ?thesis using i by auto
next
  case False
  let ?s = "s\<lparr>notificationsT := insertRow (newId ch) (newLog now opts ch) (notificationsT s)\<rparr>"
  have k': "newId ch \<notin> set (keys (notificationsT s))" "newId ch \<notin> sentIds s" using k by (simp_all add: unusedId_def)
  have "uniqueBy sameDedupe (notificationsT ?s)"
    using uniqueBy_newKey [OF notifyInvD(1,2) [OF i] k'(1), of "newLog now opts ch"] False by (simp add: keyUsed_def)
  then have i': "notifyInv ?s"
    using notifyInvD [OF i] k' by (auto simp: notifyInv_def lookup_insertRow sentIds_def newLog_def)
  show ?thesis
  proof (cases "takes (newId ch)")
    case True
    let ?f = "\<lambda>n. n\<lparr>nl_jobId := Some (newId ch)\<rparr>"
    have "notifyInv (updateLog (newId ch) ?f ?s)"
      using notifyInvD(4) [OF i', of "newId ch"] by (intro updateLog_inv [OF i']) auto
    moreover have "notificationsT t = notificationsT (updateLog (newId ch) ?f ?s)" "sentMessages t = sentMessages s"
      using run False True by (auto simp: notifyChannel_def Let_def updateLog_def)
    ultimately show ?thesis using k' by (auto simp: notifyInv_def sentIds_def updateLog_def)
  next
    case no: False
    then have "t = ?s" using run False by (simp add: notifyChannel_def Let_def)
    then show ?thesis using i' by auto
  qed
qed

definition freshNotices :: "(notification_channel \<Rightarrow> id) \<Rightarrow> notify_options \<Rightarrow> 'a notify_state_scheme \<Rightarrow> bool" where
  "freshNotices newId opts s \<longleftrightarrow> inj newId \<and> distinct (channelsOf opts) \<and> (\<forall>ch. unusedId (newId ch) s)"

lemma mapS_notify_inv:
  assumes "notifyInv s" "inj newId" "distinct chs" "\<And>ch. ch \<in> set chs \<Longrightarrow> unusedId (newId ch) s"
    and "mapS (notifyChannel E takes now newId opts) chs s = (r, t)"
  shows "notifyInv t"
  using assms
proof (induction chs arbitrary: s r t)
  case Nil
  then show ?case by (simp add: returnS_def)
next
  case (Cons ch chs)
  obtain r1 s1 where run: "notifyChannel E takes now newId opts ch s = (r1, s1)" by fastforce
  have one: "notifyInv s1" "set (keys (notificationsT s1)) \<subseteq> insert (newId ch) (set (keys (notificationsT s)))" "sentMessages s1 = sentMessages s"
    using notifyChannel_inv [OF Cons.prems(1) _ run] Cons.prems(4) by auto
  have un: "unusedId (newId c) s1" if "c \<in> set chs" for c
  proof -
    have "newId c \<noteq> newId ch" using that Cons.prems(2,3) by (auto simp: inj_eq)
    then show ?thesis using Cons.prems(4) [of c] that one(2,3) by (auto simp: unusedId_def sentIds_def)
  qed
  show ?case
  proof (cases r1)
    case (Inl e)
    then have "t = s1" using Cons.prems(5) run by (simp add: bindS_def)
    then show ?thesis using one by simp
  next
    case (Inr ids)
    obtain r2 s2 where rest: "mapS (notifyChannel E takes now newId opts) chs s1 = (r2, s2)" by fastforce
    have "t = s2" using Cons.prems(5) run rest Inr by (auto simp: bindS_def returnS_def split: sum.splits)
    moreover have "notifyInv s2" by (rule Cons.IH [OF one(1) Cons.prems(2)]) (use Cons.prems(3) un rest in auto)
    ultimately show ?thesis by simp
  qed
qed

lemma notify_inv:
  assumes "notifyInv s" "freshNotices newId opts s" "notify E takes now newId opts s = (r, t)"
  shows "notifyInv t"
proof -
  obtain r' t' where m: "mapS (notifyChannel E takes now newId opts) (channelsOf opts) s = (r', t')" by fastforce
  have "t = t'" using assms(3) m by (auto simp: notify_def bindS_def returnS_def split: sum.splits)
  then show ?thesis using mapS_notify_inv [OF assms(1) _ _ _ m] assms(2) by (simp add: freshNotices_def)
qed

text \<open>A delivery either sends nothing and fails or is skipped, or sends one message.\<close>

lemma savePreference_log [simp]:
  "notificationsT (savePreference u p s) = notificationsT s" "sentMessages (savePreference u p s) = sentMessages s"
  "notifyJobs (savePreference u p s) = notifyJobs s"
  by (simp_all add: savePreference_def)

lemma slackDestination_log:
  assumes "slackDestination A to s = (r, t)"
  shows "notificationsT t = notificationsT s" "sentMessages t = sentMessages s"
  using assms by (auto simp: slackDestination_def resolveSlackUser_def Let_def split: option.splits sum.splits if_splits)

lemma deliver_effect:
  assumes "deliver E A k j s = (r, t)"
  obtains (silent) err where "r = Inl err" "notificationsT t = notificationsT s" "sentMessages t = sentMessages s"
  | (one) ref a m where "r = Inr ref" "notificationsT t = updateRow k (\<lambda>n. n\<lparr>nl_recipientAddress := Some a\<rparr>) (notificationsT s)"
      "sentMessages t = sentMessages s @ [(k, m)]"
proof (cases "nj_channel j")
  case EMAIL
  let ?a = "bindE (mailAddress (nj_to j) s) (\<lambda>a. orThrow (truthyText a) (Skip ''no email address for recipient'') Inr)"
  show ?thesis
  proof (cases "emailOf (ne_context E) (nj_message j)")
    case None
    then have "r = Inl (Skip ''template has no email variant'') \<and> t = s" using EMAIL assms by (auto simp: deliver_def deliverEmail_def)
    then show ?thesis using that(1) by blast
  next
    case (Some mail)
    show ?thesis
    proof (cases ?a)
      case (Inl e)
      then have "r = Inl e \<and> t = s" using EMAIL assms Some unfolding deliver_def deliverEmail_def by simp
      then show ?thesis using that(1) by blast
    next
      case (Inr a)
      then show ?thesis using EMAIL assms Some that by (cases "an_mail A") (auto simp: deliver_def deliverEmail_def setAddress_def)
    qed
  qed
next
  case SLACK
  obtain r1 s1 where d: "slackDestination A (nj_to j) s = (r1, s1)" by fastforce
  note same = slackDestination_log [OF d]
  show ?thesis
  proof (cases "slackOf (ne_context E) (nj_message j) = None \<or> \<not> ne_slackConfigured E")
    case True
    then show ?thesis using SLACK assms that by (auto simp: deliver_def deliverSlack_def split: option.splits)
  next
    case False
    then obtain body where body: "slackOf (ne_context E) (nj_message j) = Some body" "ne_slackConfigured E" by auto
    show ?thesis
    proof (cases r1)
      case (Inl e)
      then show ?thesis using SLACK assms that d same body by (auto simp: deliver_def deliverSlack_def)
    next
      case (Inr c)
      then show ?thesis using SLACK assms that d same body
        by (cases "truthyText c"; cases "an_post A") (auto simp: deliver_def deliverSlack_def setAddress_def)
    qed
  qed
qed

lemma process_inv:
  assumes i: "notifyInv s" and run: "processNotification E A now k j s = (r, t)"
  shows "notifyInv t"
proof (cases "lookup (notificationsT s) k")
  case None
  then show ?thesis using i run by (simp add: processNotification_def)
next
  case (Some n)
  show ?thesis
  proof (cases "nl_status n \<in> {SENT, SKIPPED}")
    case True
    then show ?thesis using i run Some by (simp add: processNotification_def)
  next
    case False
    then have unsent: "k \<notin> sentIds s" using notifyInvD(4) [OF i Some] by simp
    obtain d s1 where del: "deliver E A k j s = (d, s1)" by fastforce
    show ?thesis using del
    proof (cases rule: deliver_effect)
      case (silent err)
      have i1: "notifyInv s1" using i silent by (simp add: notifyInv_def sentIds_def)
      obtain st msg where t: "t = updateLog k (noteOutcome st (nj_attemptsMade j + 1) msg) s1" and st: "st \<noteq> SENT"
        using run Some False del silent by (cases err) (auto simp: processNotification_def Let_def split: if_splits)
      show ?thesis unfolding t
        by (rule updateLog_inv [OF i1]) (use st unsent silent in \<open>auto simp: noteOutcome_def sentIds_def\<close>)
    next
      case (one ref a m)
      let ?f = "\<lambda>n. noteSent now (nj_attemptsMade j + 1) ref (n\<lparr>nl_recipientAddress := Some a\<rparr>)"
      have t: "notificationsT t = updateRow k ?f (notificationsT s)" "sentMessages t = sentMessages s @ [(k, m)]"
        using run Some False del one by (auto simp: processNotification_def Let_def updateLog_def updateRow_def comp_def case_prod_unfold)
      have u: "uniqueBy sameDedupe (notificationsT t)"
        unfolding t(1) by (rule dedupe_kept [OF notifyInvD(2) [OF i]]) (simp add: noteSent_def)
      then show ?thesis using notifyInvD [OF i] unsent t
        by (auto simp: notifyInv_def sentIds_def lookup_updateRow noteSent_def split: if_splits)
    qed
  qed
qed

text \<open>
  The steps. A job runs and is settled, or runs without being settled (the worker stalled and it will run
  again); rows are removed when their retention is over.
\<close>

inductive notifyStep :: "'a notify_state_scheme \<Rightarrow> 'a notify_state_scheme \<Rightarrow> bool" where
  notified: "notify E takes now newId opts s = (r, t) \<Longrightarrow> freshNotices newId opts s \<Longrightarrow> notifyStep s t"
| worked: "lookup (notifyJobs s) k = Some j \<Longrightarrow> processNotification E A now k j s = (r, t) \<Longrightarrow> notifyStep s (settleJob E k j (r, t))"
| stalled: "lookup (notifyJobs s) k = Some j \<Longrightarrow> processNotification E A now k j s = (r, t) \<Longrightarrow> notifyStep s t"
| preferred: "notifyStep s (updatePreferences u dto s)"
| expired: "notifyStep s (s\<lparr>notificationsT := deleteWhere P (notificationsT s)\<rparr>)"
| other: "notificationsT t = notificationsT s \<Longrightarrow> sentMessages t = sentMessages s \<Longrightarrow> notifyStep s t"

lemma lookup_deleteWhere_Some: "keyed T \<Longrightarrow> lookup (deleteWhere P T) k = Some n \<Longrightarrow> lookup T k = Some n"
proof (induction T)
  case (Cons p T)
  obtain j r where p: "p = (j, r)" by (cases p)
  have "keyed T" using Cons.prems(1) by (simp add: keyed_def keys_def)
  have "k \<noteq> j" if "lookup (deleteWhere P T) k = Some n"
  proof -
    have "k \<in> fst ` set T" using that lookup_Some_keys [OF that] by (auto simp: keys_def deleteWhere_def)
    then show ?thesis using Cons.prems(1) by (auto simp: p keyed_def keys_def)
  qed
  then show ?case using Cons \<open>keyed T\<close> by (auto simp: p deleteWhere_def lookup_def split: if_splits)
qed (simp add: deleteWhere_def lookup_def)

lemma notifyStep_inv:
  assumes i: "notifyInv s" and st: "notifyStep s t"
  shows "notifyInv t"
  using st
proof cases
  case (notified E takes now newId opts r)
  then show ?thesis using notify_inv [OF i] by blast
next
  case (worked k j E A now r u)
  have "notifyInv u" by (rule process_inv [OF i worked(3)])
  then show ?thesis by (simp add: worked(1) settleJob_def notifyInv_def sentIds_def)
next
  case (stalled k j E A now r)
  then show ?thesis using process_inv [OF i] by blast
next
  case (preferred u dto)
  then show ?thesis using i by (simp add: updatePreferences_def Let_def notifyInv_def sentIds_def)
next
  case (expired P)
  have k: "keyed (notificationsT s)" by (rule notifyInvD(1) [OF i])
  have "uniqueBy sameDedupe (deleteWhere P (notificationsT s))"
    by (rule uniqueBy_orig [OF notifyInvD(2) [OF i]]) (use lookup_deleteWhere_Some [OF k] in blast)
  then show ?thesis using notifyInvD [OF i] lookup_deleteWhere_Some [OF k]
    by (auto simp: expired notifyInv_def sentIds_def keyed_deleteWhere)
next
  case other
  then show ?thesis using i by (simp add: notifyInv_def sentIds_def)
qed

definition noNotices :: "'a notify_state_scheme \<Rightarrow> bool" where
  "noNotices s \<longleftrightarrow> notificationsT s = [] \<and> sentMessages s = []"

interpretation notice: step_system noNotices notifyStep notifyInv
  by unfold_locales (simp add: notifyInv_def noNotices_def keyed_def keys_def lookup_def uniqueBy_def, erule (1) notifyStep_inv)

definition notifyReachable :: "'a notify_state_scheme \<Rightarrow> bool" where
  "notifyReachable t \<longleftrightarrow> (\<exists>s. noNotices s \<and> notifyStep\<^sup>*\<^sup>* s t)"


section \<open>What a delivery does\<close>

definition mayMail :: "notify_env \<Rightarrow> id \<Rightarrow> notification_job \<Rightarrow> string \<Rightarrow> rendered_email \<Rightarrow> 'a notify_state_scheme \<Rightarrow> bool" where
  "mayMail E u j a mail s \<longleftrightarrow> nj_channel j = EMAIL \<and> np_emailEnabled (getPreferences u s) \<and>
     emailOf (ne_context E) (nj_message j) = Some mail \<and>
     (rc_email (nj_to j) = Some a \<or> rc_email (nj_to j) = None \<and> map_option u_email (findUser s u) = Some a)"

definition mayPost :: "notify_env \<Rightarrow> answers \<Rightarrow> id \<Rightarrow> notification_job \<Rightarrow> string \<Rightarrow> string \<Rightarrow> 'a notify_state_scheme \<Rightarrow> bool" where
  "mayPost E A u j c body s \<longleftrightarrow> nj_channel j = SLACK \<and> ne_slackConfigured E \<and> slackOf (ne_context E) (nj_message j) = Some body \<and>
     (rc_slackChannel (nj_to j) = Some c \<or> rc_slackChannel (nj_to j) = None \<and> np_slackEnabled (getPreferences u s) \<and>
        (np_slackUserId (getPreferences u s) = Some c \<or> an_lookup A = Inr (Some c)))"

lemma truthyText_Some: "truthyText v = Some c \<longleftrightarrow> v = Some c \<and> c \<noteq> []"
  by (auto simp: truthyText_def)

lemma deliverEmail_rule:
  assumes run: "deliverEmail E A k j s = (r, t)" and ch: "nj_channel j = EMAIL" and u: "rc_userId (nj_to j) = Some u"
  shows "(\<exists>e. r = Inl e \<and> sentMessages t = sentMessages s \<and> (\<not> np_emailEnabled (getPreferences u s) \<longrightarrow> (\<exists>m. e = Skip m))) \<or>
    (\<exists>ref a mail. r = Inr ref \<and> sentMessages t = sentMessages s @ [(k, Mail a mail)] \<and> mayMail E u j a mail s)"
proof (cases "emailOf (ne_context E) (nj_message j)")
  case None
  then show ?thesis using run by (auto simp: deliverEmail_def)
next
  case (Some mail)
  show ?thesis
  proof (cases "mailAddress (nj_to j) s")
    case (Inl e)
    then have "r = Inl e" "t = s" using run Some by (simp_all add: deliverEmail_def)
    then show ?thesis using Inl u by (auto simp: mailAddress_def getPreferences_def defaultPreference_def split: option.splits if_splits)
  next
    case (Inr v)
    have p: "np_emailEnabled (getPreferences u s)" and a: "\<And>a. v = Some a \<Longrightarrow>
        rc_email (nj_to j) = Some a \<or> rc_email (nj_to j) = None \<and> map_option u_email (findUser s u) = Some a"
      using Inr u by (auto simp: mailAddress_def getPreferences_def defaultPreference_def split: option.splits if_splits)
    show ?thesis
    proof (cases "truthyText v")
      case None
      then show ?thesis using run Some Inr by (auto simp: deliverEmail_def orThrow_def)
    next
      case adr: (Some adr)
      then have v: "v = Some adr" "truthyText (Some adr) = Some adr" by (simp_all add: truthyText_Some)
      then have "mayMail E u j adr mail s" using p a [of adr] Some ch by (simp add: mayMail_def)
      then show ?thesis using run Some Inr v p by (cases "an_mail A") (auto simp: deliverEmail_def orThrow_def setAddress_def)
    qed
  qed
qed

lemma slackDestination_rule:
  assumes run: "slackDestination A (nj_to j) s = (r, t)" and u: "rc_userId (nj_to j) = Some u" and n: "rc_slackChannel (nj_to j) = None"
  shows "if np_slackEnabled (getPreferences u s)
    then \<forall>c. r = Inr (Some c) \<longrightarrow> np_slackUserId (getPreferences u s) = Some c \<or> an_lookup A = Inr (Some c)
    else \<exists>m. r = Inl (Skip m)"
proof (cases "lookup (preferencesT s) u")
  case None
  then show ?thesis using run u n
    by (auto simp: slackDestination_def resolveSlackUser_def Let_def getPreferences_def defaultPreference_def truthyText_Some
        split: option.splits sum.splits)
next
  case (Some p)
  then show ?thesis using run u n
    by (auto simp: slackDestination_def resolveSlackUser_def Let_def getPreferences_def truthyText_Some
        split: option.splits sum.splits if_splits)
qed

lemma deliverSlack_rule:
  assumes run: "deliverSlack E A k j s = (r, t)" and ch: "nj_channel j = SLACK" and u: "rc_userId (nj_to j) = Some u"
  shows "(\<exists>e. r = Inl e \<and> sentMessages t = sentMessages s \<and>
      (\<not> np_slackEnabled (getPreferences u s) \<and> rc_slackChannel (nj_to j) = None \<longrightarrow> (\<exists>m. e = Skip m))) \<or>
    (\<exists>ref c body. r = Inr ref \<and> sentMessages t = sentMessages s @ [(k, SlackPost c body)] \<and> mayPost E A u j c body s)"
proof (cases "slackOf (ne_context E) (nj_message j) = None \<or> \<not> ne_slackConfigured E")
  case True
  then show ?thesis using run by (auto simp: deliverSlack_def split: option.splits)
next
  case False
  then obtain body where body: "slackOf (ne_context E) (nj_message j) = Some body" "ne_slackConfigured E" by auto
  obtain d s1 where d: "slackDestination A (nj_to j) s = (d, s1)" by fastforce
  note same = slackDestination_log [OF d]
  have rule: "rc_slackChannel (nj_to j) = None \<Longrightarrow> if np_slackEnabled (getPreferences u s)
      then \<forall>c. d = Inr (Some c) \<longrightarrow> np_slackUserId (getPreferences u s) = Some c \<or> an_lookup A = Inr (Some c) else \<exists>m. d = Inl (Skip m)"
    by (rule slackDestination_rule [OF d u])
  have direct: "d = Inr (Some c)" if "rc_slackChannel (nj_to j) = Some c" for c
    using d that by (simp add: slackDestination_def)
  show ?thesis
  proof (cases d)
    case (Inl e)
    then show ?thesis using run body d same rule by (auto simp: deliverSlack_def split: if_splits)
  next
    case (Inr v)
    show ?thesis
    proof (cases "truthyText v")
      case None
      then show ?thesis using run body d same Inr by (auto simp: deliverSlack_def)
    next
      case (Some c)
      have may: "mayPost E A u j c body s"
        using Some Inr rule direct body ch by (cases "rc_slackChannel (nj_to j)") (auto simp: mayPost_def truthyText_Some split: if_splits)
      have off: "np_slackEnabled (getPreferences u s) \<or> rc_slackChannel (nj_to j) \<noteq> None"
        using rule Inr by (auto split: if_splits)
      show ?thesis using run body d same Inr Some may off by (cases "an_post A") (auto simp: deliverSlack_def setAddress_def)
    qed
  qed
qed

text \<open>
  C35. Deliveries follow the preferences. A run of a job for a user sends nothing, or exactly one message
  for its row, which then says SENT: a mail of the rendered template to the given address or else the
  user's, with mail switched on; or a post to the given Slack channel or else the user's Slack id, with
  Slack switched on and configured. For a channel the user has switched off the row becomes SKIPPED.
\<close>

theorem delivery_follows_preferences:
  assumes l: "lookup (notificationsT s) k = Some n" "nl_status n \<notin> {SENT, SKIPPED}" and u: "rc_userId (nj_to j) = Some u"
    and run: "processNotification E A now k j s = (r, t)"
  shows "(sentMessages t = sentMessages s \<and> map_option nl_status (lookup (notificationsT t) k) \<noteq> Some SENT \<or>
      (\<exists>m. sentMessages t = sentMessages s @ [(k, m)] \<and> map_option nl_status (lookup (notificationsT t) k) = Some SENT \<and>
        (case m of Mail a mail \<Rightarrow> mayMail E u j a mail s | SlackPost c body \<Rightarrow> mayPost E A u j c body s))) \<and>
    (nj_channel j = EMAIL \<and> \<not> np_emailEnabled (getPreferences u s) \<or>
     nj_channel j = SLACK \<and> rc_slackChannel (nj_to j) = None \<and> \<not> np_slackEnabled (getPreferences u s)
       \<longrightarrow> r = Inr () \<and> map_option nl_status (lookup (notificationsT t) k) = Some SKIPPED)"
proof -
  obtain d s1 where del: "deliver E A k j s = (d, s1)" by fastforce
  have row: "\<exists>n1. lookup (notificationsT s1) k = Some n1"
    using del by (cases rule: deliver_effect) (auto simp: l lookup_updateRow)
  let ?off = "nj_channel j = EMAIL \<and> \<not> np_emailEnabled (getPreferences u s) \<or>
     nj_channel j = SLACK \<and> rc_slackChannel (nj_to j) = None \<and> \<not> np_slackEnabled (getPreferences u s)"
  have "(\<exists>e. d = Inl e \<and> sentMessages s1 = sentMessages s \<and> (?off \<longrightarrow> (\<exists>m. e = Skip m))) \<or>
      (\<exists>ref m. d = Inr ref \<and> sentMessages s1 = sentMessages s @ [(k, m)] \<and> \<not> ?off \<and>
         (case m of Mail a mail \<Rightarrow> mayMail E u j a mail s | SlackPost c body \<Rightarrow> mayPost E A u j c body s))"
  proof (cases "nj_channel j")
    case EMAIL
    then have run: "deliverEmail E A k j s = (d, s1)" using del by (simp add: deliver_def)
    show ?thesis using deliverEmail_rule [OF run EMAIL u] EMAIL by (fastforce simp: mayMail_def)
  next
    case SLACK
    then have run: "deliverSlack E A k j s = (d, s1)" using del by (simp add: deliver_def)
    show ?thesis using deliverSlack_rule [OF run SLACK u] SLACK by (fastforce simp: mayPost_def)
  qed
  then show ?thesis
  proof (elim disjE exE conjE)
    fix e assume e: "d = Inl e" "sentMessages s1 = sentMessages s" "?off \<longrightarrow> (\<exists>m. e = Skip m)"
    show ?thesis
    proof (cases e)
      case (Skip msg)
      then show ?thesis using run l del e row
        by (auto simp: processNotification_def Let_def updateLog_def lookup_updateRow noteOutcome_def)
    next
      case (Fail msg)
      then have "\<not> ?off" using e(3) by auto
      then show ?thesis using run l del e Fail row
        by (auto simp: processNotification_def Let_def updateLog_def lookup_updateRow noteOutcome_def split: if_splits)
    qed
  next
    fix ref m assume o: "d = Inr ref" "sentMessages s1 = sentMessages s @ [(k, m)]" "\<not> ?off"
      "case m of Mail a mail \<Rightarrow> mayMail E u j a mail s | SlackPost c body \<Rightarrow> mayPost E A u j c body s"
    then show ?thesis using run l del row
      by (auto simp: processNotification_def Let_def updateLog_def lookup_updateRow noteSent_def)
  qed
qed

section \<open>Links stay out of the log\<close>

lemma secret_fields: "secretKey ''inviteUrl''" "secretKey ''resetUrl''" "\<not> secretKey ''firstName''" "\<not> secretKey ''expiresAt''"
  by (simp_all add: secretKey_def endsWith_def citext_def lowerChar_def char_of_def bit_0)

lemma notifyChannel_same:
  assumes "newLog now o1 ch = newLog now o2 ch" "hasVariant E (no_message o1) ch = hasVariant E (no_message o2) ch"
  shows "fst (notifyChannel E takes now newId o1 ch s) = fst (notifyChannel E takes now newId o2 ch s) \<and>
    (snd (notifyChannel E takes now newId o1 ch s))\<lparr>notifyJobs := J\<rparr> = (snd (notifyChannel E takes now newId o2 ch s))\<lparr>notifyJobs := J\<rparr>"
  by (simp add: notifyChannel_def Let_def assms)

lemma onAuthEvent_mail:
  assumes "channelsOf (authNotice E e) = [EMAIL]"
  shows "fst (onAuthEvent E takes now newId e s) = map_sum id (\<lambda>_. ()) (fst (notifyChannel E takes now newId (authNotice E e) EMAIL s)) \<and>
    snd (onAuthEvent E takes now newId e s) = snd (notifyChannel E takes now newId (authNotice E e) EMAIL s)"
  by (cases "notifyChannel E takes now newId (authNotice E e) EMAIL s"; cases "fst (notifyChannel E takes now newId (authNotice E e) EMAIL s)")
    (simp_all add: onAuthEvent_def notify_def assms bindS_def returnS_def)

lemma invite_logs:
  "newLog now (authNotice E (UserInvited u a f token x)) ch = newLog now (authNotice E (UserInvited u a f token' x)) ch"
  "newLog now (authNotice E (PasswordResetRequested u a f token x)) ch = newLog now (authNotice E (PasswordResetRequested u a f token' x)) ch"
  "hasVariant E (no_message (authNotice E (UserInvited u a f token x))) EMAIL" "channelsOf (authNotice E (UserInvited u a f token x)) = [EMAIL]"
  "hasVariant E (no_message (authNotice E (PasswordResetRequested u a f token x))) EMAIL"
  "channelsOf (authNotice E (PasswordResetRequested u a f token x)) = [EMAIL]"
  by (simp_all add: newLog_def options_def redact_def secret_fields hasVariant_def channelsOf_def)

text \<open>
  The log never holds a token. The invitation and the reset link are written only into the job of the
  queue: with two different tokens the answer and everything else of the state, the log included, is the same.
\<close>

theorem links_stay_out_of_the_log:
  "fst (onAuthEvent E takes now newId (UserInvited u a f token x) s) = fst (onAuthEvent E takes now newId (UserInvited u a f token' x) s) \<and>
   (snd (onAuthEvent E takes now newId (UserInvited u a f token x) s))\<lparr>notifyJobs := J\<rparr> =
     (snd (onAuthEvent E takes now newId (UserInvited u a f token' x) s))\<lparr>notifyJobs := J\<rparr> \<and>
   fst (onAuthEvent E takes now newId (PasswordResetRequested u a f token x) s) =
     fst (onAuthEvent E takes now newId (PasswordResetRequested u a f token' x) s) \<and>
   (snd (onAuthEvent E takes now newId (PasswordResetRequested u a f token x) s))\<lparr>notifyJobs := J\<rparr> =
     (snd (onAuthEvent E takes now newId (PasswordResetRequested u a f token' x) s))\<lparr>notifyJobs := J\<rparr>"
  using notifyChannel_same [of now "authNotice E (UserInvited u a f token x)" EMAIL "authNotice E (UserInvited u a f token' x)" E takes newId s J]
    notifyChannel_same [of now "authNotice E (PasswordResetRequested u a f token x)" EMAIL "authNotice E (PasswordResetRequested u a f token' x)" E takes newId s J]
  by (simp add: onAuthEvent_mail invite_logs(3-6) invite_logs(1) [of now E u a f token x _ token'] invite_logs(2) [of now E u a f token x _ token']
      del: authNotice.simps)

section \<open>What gets lost\<close>

text \<open>
  The row is written before the queue takes the job. When the queue does not, the notice fails; when the
  event is repeated, its key is in use, so that nothing is queued then either: the notice is never sent.
\<close>

lemma notice_lost_when_queue_is_down:
  assumes "hasVariant E (no_message opts) ch" "no_dedupeKey opts \<noteq> None"
    and "notifyChannel E (\<lambda>_. False) now newId opts ch s = (Inl e, t)"
  shows "notifyChannel E takes now' newId' opts ch t = (Inr [], t)"
  using assms by (auto simp: notifyChannel_def Let_def newLog_def keyUsed_def rows_insertRow split: if_splits)

text \<open>The exception that marks a job as not to be retried is thrown outside the \<open>try\<close> when the row is gone: the job is retried.\<close>

lemma missing_row_is_retried:
  assumes "lookup (notifyJobs s) k = Some j" "lookup (notificationsT s) k = None" "nj_attemptsMade j + 1 < ne_attempts E"
  shows "lookup (notifyJobs (settleJob E k j (processNotification E A now k j s))) k \<noteq> None"
  using assms by (simp add: processNotification_def settleJob_def lookup_updateRow)

section \<open>A user with mail switched off\<close>

definition demoNotifyEnv :: notify_env where
  "demoNotifyEnv = \<lparr>ne_context = blankContext, ne_slackConfigured = False, ne_slackChannel = ''#hr'', ne_attempts = 5,
     ne_iso = (\<lambda>_. []), ne_encode = (\<lambda>t. t)\<rparr>"

definition demoQuiet :: "notification_preference table \<Rightarrow> notify_state" where
  "demoQuiet P = performance_state.extend (demoReviews [] [] []) (notify_state.fields [] P [] [])"

definition demoTold :: "notification_preference table \<Rightarrow> notify_state" where
  "demoTold P = snd (notify demoNotifyEnv (\<lambda>_. True) 0 (\<lambda>ch. if ch = EMAIL then 1 else 2)
     (options (TestMsg ''Ada'') (toUser 5) None) (demoQuiet P))"

definition demoJob :: notification_job where
  "demoJob = \<lparr>nj_channel = EMAIL, nj_to = toUser 5, nj_message = TestMsg ''Ada'', nj_attemptsMade = 0\<rparr>"

definition demoAnswers :: answers where
  "demoAnswers = \<lparr>an_mail = Inr ''m1'', an_post = Inr ''p1'', an_lookup = Inr None\<rparr>"

definition demoDelivered :: notify_state where
  "demoDelivered = settleJob demoNotifyEnv 1 demoJob (processNotification demoNotifyEnv demoAnswers 9 1 demoJob (demoTold []))"

lemma inj_channels: "inj (\<lambda>ch. if ch = EMAIL then 1 else (2 :: nat))"
proof (rule injI)
  fix x y :: notification_channel assume "(if x = EMAIL then 1 else (2 :: nat)) = (if y = EMAIL then 1 else 2)"
  then show "x = y" by (cases x; cases y) simp_all
qed

lemma demo_quiet_tables: "notificationsT (demoQuiet P) = []" "sentMessages (demoQuiet P) = []"
  by (cases "demoReviews [] [] []", simp add: demoQuiet_def performance_state.defs notify_state.defs)+

text \<open>What these runs answer, evaluated once.\<close>

lemma demo_notice_runs:
  "List.map fst (sentMessages demoDelivered) = [1] \<and>
   lookup (notifyJobs (demoTold [])) 1 = Some demoJob \<and>
   (let s = demoTold [(5, defaultPreference\<lparr>np_emailEnabled := False\<rparr>)] in
      (map_option nl_status (lookup (notificationsT s) 1), np_emailEnabled (getPreferences 5 s))) = (Some QUEUED, False)"
  by code_simp


theorem delivery_follows_preferences_witness:
  "fst (processNotification demoNotifyEnv demoAnswers 9 1 demoJob (demoTold [(5, defaultPreference\<lparr>np_emailEnabled := False\<rparr>)])) = Inr ()"
proof -
  let ?s = "demoTold [(5, defaultPreference\<lparr>np_emailEnabled := False\<rparr>)]"
  have "map_option nl_status (lookup (notificationsT ?s) 1) = Some QUEUED" using demo_notice_runs by (simp add: Let_def)
  then obtain n where n: "lookup (notificationsT ?s) 1 = Some n" "nl_status n \<notin> {SENT, SKIPPED}" by auto
  have off: "\<not> np_emailEnabled (getPreferences 5 ?s)" using demo_notice_runs by (simp add: Let_def)
  have u: "rc_userId (nj_to demoJob) = Some 5" by (simp add: demoJob_def toUser_def)
  show ?thesis
    using delivery_follows_preferences [OF n u surjective_pairing, of demoNotifyEnv demoAnswers 9] off by (simp add: demoJob_def)
qed

end
