(* ===== verification/Chat.thy ===== *)
theory Chat
  imports Prelude Doubles Rbac
begin

text \<open>
  The shared parts of the assistant under \<open>infrastructure/ai\<close>: fencing of text the program did not
  write (\<open>untrusted.ts\<close>), the chain of chat providers with its cooldowns (\<open>fallback-chat-model.ts\<close>) and
  the price list (\<open>pricing.ts\<close>). The providers are arguments. The single angle quote that \<open>fence\<close>
  writes is the character 0x8B.
\<close>

section \<open>Untrusted text\<close>

definition isSpace :: "char \<Rightarrow> bool" where
  "isSpace c \<longleftrightarrow> c \<in> {CHR 0x09, CHR 0x0A, CHR 0x0B, CHR 0x0C, CHR 0x0D, CHR 0x20, CHR 0xA0}"

fun startsWith :: "string \<Rightarrow> string \<Rightarrow> bool" where
  "startsWith [] s = True"
| "startsWith (a # as) [] = False"
| "startsWith (a # as) (c # s) = (a = c \<and> startsWith as s)"

text \<open>The group \<open>/?\s*tag\<close> of the pattern, without regard to case.\<close>

definition dropSlash :: "string \<Rightarrow> string" where
  "dropSlash s = (case s of [] \<Rightarrow> [] | c # r \<Rightarrow> if c = CHR ''/'' then r else s)"

definition groupAt :: "string \<Rightarrow> string \<Rightarrow> bool" where
  "groupAt tag s \<longleftrightarrow> startsWith tag (citext (dropWhile isSpace (dropSlash s)))"

definition groupLength :: "string \<Rightarrow> string \<Rightarrow> nat" where
  "groupLength tag s = length s - length (dropWhile isSpace (dropSlash s)) + length tag"

function neutralise :: "string \<Rightarrow> string \<Rightarrow> string" where
  "neutralise tag [] = []"
| "neutralise tag (c # s) =
     (if c = CHR ''<'' \<and> groupAt tag s
      then CHR 0x8B # take (groupLength tag s) s @ neutralise tag (drop (groupLength tag s) s)
      else c # neutralise tag s)"
  by pat_completeness auto

termination by (relation "measure (length o snd)") auto

definition attribute :: "string \<times> string \<Rightarrow> string" where
  "attribute = (\<lambda>(k, v). '' '' @ k @ ''=\"'' @ List.map (\<lambda>c. if c = CHR 0x22 then CHR 0x27 else c) v @ ''\"'')"

definition fence :: "string \<Rightarrow> string \<Rightarrow> (string \<times> string) list \<Rightarrow> string" where
  "fence tag s attrs =
     ''<'' @ tag @ concat (List.map attribute attrs) @ ''>'' @ [CHR 0x0A] @ neutralise tag s @ [CHR 0x0A] @ ''</'' @ tag @ ''>''"

section \<open>Providers\<close>

datatype chat_role = User | Assistant

record chat_turn =
  ct_role :: chat_role
  ct_content :: string

record chat_request =
  cq_system :: string
  cq_messages :: "chat_turn list"
  cq_maxTokens :: int

record token_usage =
  tu_inputTokens :: int
  tu_outputTokens :: int
  tu_cacheReadTokens :: "int option"
  tu_cacheWriteTokens :: "int option"

record chat_response =
  cr_text :: string
  cr_provider :: string
  cr_model :: string
  cr_usage :: "token_usage option"

text \<open>
  A provider for the duration of a call: what it answers, and what it streams when it can: the deltas,
  then an error or the response.
\<close>

record chat_model =
  cm_provider :: string
  cm_isConfigured :: bool
  cm_complete :: "chat_request \<Rightarrow> string + chat_response"
  cm_stream :: "(chat_request \<Rightarrow> string list \<times> (string + chat_response)) option"

definition streamOf :: "chat_model \<Rightarrow> chat_request \<Rightarrow> string list \<times> (string + chat_response)" where
  "streamOf m req = (case cm_stream m of Some f \<Rightarrow> f req
     | None \<Rightarrow> (case cm_complete m req of Inl e \<Rightarrow> ([], Inl e) | Inr res \<Rightarrow> ([cr_text res], Inr res)))"

type_synonym attempt = "string \<times> string"

text \<open>\<open>AllProvidersFailedError\<close> with its attempts, or the error of a provider in the middle of an answer.\<close>

datatype chat_failure = AllProvidersFailed "attempt list" | Broken string

text \<open>The cooldowns, by provider.\<close>

type_synonym cooldowns = "string \<rightharpoonup> int"

definition DEFAULT_COOLDOWN_MS :: int where "DEFAULT_COOLDOWN_MS = 60000"

definition onCooldown :: "int \<Rightarrow> cooldowns \<Rightarrow> string \<Rightarrow> bool" where
  "onCooldown now cs p \<longleftrightarrow> now < (case cs p of None \<Rightarrow> 0 | Some until \<Rightarrow> until)"

definition configured :: "chat_model list \<Rightarrow> string list" where
  "configured chain = List.map cm_provider (List.filter cm_isConfigured chain)"

definition unhealthy :: "int \<Rightarrow> cooldowns \<Rightarrow> string \<Rightarrow> bool" where
  "unhealthy now cs p \<longleftrightarrow> (case cs p of None \<Rightarrow> False | Some until \<Rightarrow> now < until)"

text \<open>Configured providers, healthy first; everyone if all are cooling down.\<close>

definition orderOf :: "int \<Rightarrow> cooldowns \<Rightarrow> chat_model list \<Rightarrow> chat_failure + chat_model list" where
  "orderOf now cs chain =
     (let candidates = List.filter cm_isConfigured chain; healthy = List.filter (\<lambda>m. \<not> onCooldown now cs (cm_provider m)) candidates
      in if candidates = [] then Inl (AllProvidersFailed [(''none'', ''no chat provider configured'')])
         else Inr (if healthy \<noteq> [] then healthy else candidates))"

definition coolDown :: "int \<Rightarrow> int \<Rightarrow> chat_model \<Rightarrow> cooldowns \<Rightarrow> cooldowns" where
  "coolDown now ms m cs = cs(cm_provider m \<mapsto> now + ms)"

fun tryComplete ::
  "int \<Rightarrow> int \<Rightarrow> chat_request \<Rightarrow> chat_model list \<Rightarrow> attempt list \<Rightarrow> cooldowns \<Rightarrow> (chat_failure + chat_response) \<times> cooldowns" where
  "tryComplete now ms req [] attempts cs = (Inl (AllProvidersFailed attempts), cs)"
| "tryComplete now ms req (m # models) attempts cs =
     (case cm_complete m req of
        Inr res \<Rightarrow> (Inr res, cs(cm_provider m := None))
      | Inl e \<Rightarrow> tryComplete now ms req models (attempts @ [(cm_provider m, e)]) (coolDown now ms m cs))"

definition chatComplete ::
  "int \<Rightarrow> int \<Rightarrow> chat_model list \<Rightarrow> chat_request \<Rightarrow> cooldowns \<Rightarrow> (chat_failure + chat_response) \<times> cooldowns" where
  "chatComplete now ms chain req cs =
     (case orderOf now cs chain of Inl e \<Rightarrow> (Inl e, cs) | Inr models \<Rightarrow> tryComplete now ms req models [] cs)"

text \<open>
  Streaming: up to the first delta the next provider may take over; from there on the stream belongs to
  the provider and its error is the caller's. The result is the deltas and how the stream ends.
\<close>

fun tryStream ::
  "int \<Rightarrow> int \<Rightarrow> chat_request \<Rightarrow> chat_model list \<Rightarrow> attempt list \<Rightarrow> cooldowns
     \<Rightarrow> (string list \<times> (chat_failure + chat_response)) \<times> cooldowns" where
  "tryStream now ms req [] attempts cs = (([], Inl (AllProvidersFailed attempts)), cs)"
| "tryStream now ms req (m # models) attempts cs =
     (case streamOf m req of
        ([], Inl e) \<Rightarrow> tryStream now ms req models (attempts @ [(cm_provider m, e)]) (coolDown now ms m cs)
      | (ds, end) \<Rightarrow> ((ds, case end of Inl e \<Rightarrow> Inl (Broken e) | Inr res \<Rightarrow> Inr res), cs(cm_provider m := None)))"

definition chatStream ::
  "int \<Rightarrow> int \<Rightarrow> chat_model list \<Rightarrow> chat_request \<Rightarrow> cooldowns \<Rightarrow> (string list \<times> (chat_failure + chat_response)) \<times> cooldowns" where
  "chatStream now ms chain req cs =
     (case orderOf now cs chain of Inl e \<Rightarrow> (([], Inl e), cs) | Inr models \<Rightarrow> tryStream now ms req models [] cs)"

section \<open>Prices\<close>

record long_context =
  lc_above :: int
  lc_input :: rat
  lc_output :: rat

record price =
  pr_input :: rat
  pr_output :: rat
  pr_longContext :: "long_context option"

definition flat :: "rat \<Rightarrow> rat \<Rightarrow> price" where
  "flat i o' = \<lparr>pr_input = fl i, pr_output = fl o', pr_longContext = None\<rparr>"

definition PRICES :: "(string \<times> price) list" where
  "PRICES =
     [(''claude-haiku-5-5'', \<lparr>pr_input = fl (1 / 10), pr_output = fl (1 / 2),
         pr_longContext = Some \<lparr>lc_above = 100000, lc_input = fl (1 / 2), lc_output = fl (5 / 2)\<rparr>\<rparr>),
      (''claude-haiku-4-5'', flat 1 5), (''claude-sonnet-5-5'', flat 2 10), (''claude-sonnet-5'', flat 2 10),
      (''claude-sonnet-4-6'', flat 3 15), (''claude-opus-5-5'', flat 4 20), (''claude-opus-5'', flat 5 25),
      (''claude-opus-4-8'', flat 5 25), (''claude-fable-5-1'', flat 10 50)]"

definition CACHE_READ_MULTIPLIER :: rat where "CACHE_READ_MULTIPLIER = fl (1 / 10)"
definition CACHE_WRITE_MULTIPLIER :: rat where "CACHE_WRITE_MULTIPLIER = fl (5 / 4)"

text \<open>Longest names first.\<close>

definition priceOf :: "string \<Rightarrow> price option" where
  "priceOf model = map_option snd (List.find (\<lambda>(k, _). startsWith k model) (sort_key (\<lambda>(k, _). - int (length k)) PRICES))"

definition estimateCostUsd :: "string \<Rightarrow> token_usage option \<Rightarrow> rat option" where
  "estimateCostUsd model usage =
     (case (priceOf model, usage) of
        (Some p, Some u) \<Rightarrow>
          (let long = (case pr_longContext p of None \<Rightarrow> None | Some l \<Rightarrow> if lc_above l < tu_inputTokens u then Some l else None);
               inRate = (case long of None \<Rightarrow> pr_input p | Some l \<Rightarrow> lc_input l);
               outRate = (case long of None \<Rightarrow> pr_output p | Some l \<Rightarrow> lc_output l);
               cacheRead = (case tu_cacheReadTokens u of None \<Rightarrow> 0 | Some n \<Rightarrow> n);
               cacheWrite = (case tu_cacheWriteTokens u of None \<Rightarrow> 0 | Some n \<Rightarrow> n);
               uncached = max 0 (tu_inputTokens u - cacheRead - cacheWrite);
               cost = ddiv (dadd (dadd (dadd (dmul (of_int uncached) inRate)
                  (dmul (dmul (of_int cacheRead) inRate) CACHE_READ_MULTIPLIER))
                  (dmul (dmul (of_int cacheWrite) inRate) CACHE_WRITE_MULTIPLIER))
                  (dmul (of_int (tu_outputTokens u)) outRate)) 1000000
           in Some (ddiv (of_int (jsRound (dmul cost 1000000))) 1000000))
      | _ \<Rightarrow> None)"

end
