(* ===== verification/Redact.thy ===== *)
theory Redact
  imports Chat "HOL-Library.Sublist"
begin

text \<open>
  The regular expressions of \<open>infrastructure/ai/untrusted.ts\<close>: what a text must not tell a provider
  (\<open>redactPii\<close>) and what makes it suspicious (\<open>looksLikeInjection\<close>). The matcher lists the ends of all
  matches in the order in which a backtracking matcher tries them, so its first is the match of the
  language's standard library. No personal mail address survives the redaction.
\<close>

section \<open>Regular expressions\<close>

datatype regex =
    Chars "char \<Rightarrow> bool"
  | Empty
  | Follow regex regex
  | Either regex regex
  | Repeat nat "nat option" regex
  | WordBoundary

text \<open>A position in a text: the character before it, if any, and what follows.\<close>

type_synonym position = "char option \<times> string"

text \<open>At most \<open>n\<close> more rounds, at least \<open>lo\<close>, as many as possible first.\<close>

primrec rounds :: "(position \<Rightarrow> position list) \<Rightarrow> nat \<Rightarrow> nat \<Rightarrow> position \<Rightarrow> position list" where
  "rounds f 0 lo x = (if lo = 0 then [x] else [])"
| "rounds f (Suc n) lo x = concat (List.map (rounds f n (lo - 1)) (f x)) @ (if lo = 0 then [x] else [])"

definition wordChar :: "char \<Rightarrow> bool" where
  "wordChar c \<longleftrightarrow> (let n = of_char c :: nat in 48 \<le> n \<and> n \<le> 57 \<or> 65 \<le> n \<and> n \<le> 90 \<or> 97 \<le> n \<and> n \<le> 122 \<or> n = 95)"

definition digitChar :: "char \<Rightarrow> bool" where
  "digitChar c \<longleftrightarrow> (let n = of_char c :: nat in 48 \<le> n \<and> n \<le> 57)"

definition wordAt :: "char option \<Rightarrow> bool" where
  "wordAt a = (case a of None \<Rightarrow> False | Some c \<Rightarrow> wordChar c)"

text \<open>A round of a repetition reads a character at least, so the rest of the text bounds their number.\<close>

primrec matchEnds :: "regex \<Rightarrow> position \<Rightarrow> position list" where
  "matchEnds (Chars good) x = (case snd x of [] \<Rightarrow> [] | c # t \<Rightarrow> if good c then [(Some c, t)] else [])"
| "matchEnds Empty x = [x]"
| "matchEnds (Follow r q) x = concat (List.map (matchEnds q) (matchEnds r x))"
| "matchEnds (Either r q) x = matchEnds r x @ matchEnds q x"
| "matchEnds (Repeat lo hi r) x = rounds (matchEnds r) (case hi of None \<Rightarrow> length (snd x) | Some n \<Rightarrow> n) lo x"
| "matchEnds WordBoundary x =
     (if wordAt (fst x) \<noteq> wordAt (case snd x of [] \<Rightarrow> None | c # _ \<Rightarrow> Some c) then [x] else [])"

text \<open>\<open>text.replace(re, f)\<close> with the flag \<open>g\<close>.\<close>

function replaceFrom :: "regex \<Rightarrow> (string \<Rightarrow> string) \<Rightarrow> position \<Rightarrow> string" where
  "replaceFrom r f (a, []) = []"
| "replaceFrom r f (a, c # s) =
     (case matchEnds r (a, c # s) of
        (b, t) # _ \<Rightarrow>
          if length t < length (c # s) then f (take (length (c # s) - length t) (c # s)) @ replaceFrom r f (b, t)
          else c # replaceFrom r f (Some c, s)
      | [] \<Rightarrow> c # replaceFrom r f (Some c, s))"
  by pat_completeness auto

termination by (relation "measure (\<lambda>(r, f, a, s). length s)") auto

definition replaceAll :: "regex \<Rightarrow> (string \<Rightarrow> string) \<Rightarrow> string \<Rightarrow> string" where
  "replaceAll r f s = replaceFrom r f (None, s)"

fun testFrom :: "regex \<Rightarrow> position \<Rightarrow> bool" where
  "testFrom r (a, []) = (matchEnds r (a, []) \<noteq> [])"
| "testFrom r (a, c # s) = (matchEnds r (a, c # s) \<noteq> [] \<or> testFrom r (Some c, s))"

definition regexTest :: "regex \<Rightarrow> string \<Rightarrow> bool" where
  "regexTest r s = testFrom r (None, s)"

text \<open>Pieces of patterns. The flag \<open>i\<close> compares the upper-case letters.\<close>

definition upperOf :: "char \<Rightarrow> char" where
  "upperOf c = (let n = of_char c :: nat
     in if 97 \<le> n \<and> n \<le> 122 \<or> 224 \<le> n \<and> n \<le> 254 \<and> n \<noteq> 247 then char_of (n - 32) else c)"

definition literal :: "string \<Rightarrow> regex" where
  "literal w = foldr (\<lambda>c. Follow (Chars (\<lambda>d. upperOf d = upperOf c))) w Empty"

definition oneOf :: "string list \<Rightarrow> regex" where
  "oneOf ws = foldr (\<lambda>w. Either (literal w)) (butlast ws) (literal (last ws))"

definition inOrder :: "regex list \<Rightarrow> regex" where
  "inOrder rs = foldr Follow rs Empty"

definition optionally :: "regex \<Rightarrow> regex" where
  "optionally r = Repeat 0 (Some 1) r"

definition someOf :: "(char \<Rightarrow> bool) \<Rightarrow> regex" where
  "someOf good = Repeat 1 None (Chars good)"

section \<open>Injection\<close>

text \<open>\<open>[^.\n]{0,n}\<close>\<close>

definition upToChars :: "nat \<Rightarrow> regex" where
  "upToChars n = Repeat 0 (Some n) (Chars (\<lambda>c. c \<noteq> CHR ''.'' \<and> c \<noteq> CHR 0x0A))"

definition wordBounded :: "regex \<Rightarrow> regex" where
  "wordBounded r = inOrder [WordBoundary, r, WordBoundary]"

definition plural :: "string \<Rightarrow> regex" where
  "plural w = Follow (literal w) (optionally (literal ''s''))"

definition INJECTION_PATTERNS :: "regex list" where
  "INJECTION_PATTERNS =
    [inOrder [wordBounded (oneOf [''ignore'', ''disregard'', ''forget'']), upToChars 40,
       wordBounded (oneOf [''previous'', ''prior'', ''above'', ''earlier'', ''system'']), upToChars 20,
       WordBoundary, Either (plural ''instruction'') (Either (plural ''prompt'') (plural ''rule''))],
     wordBounded (literal ''you are now''),
     wordBounded (inOrder [oneOf [''system'', ''developer''], literal '' '',
       Either (literal ''prompt'') (Either (literal ''message'') (plural ''instruction''))]),
     wordBounded (inOrder [oneOf [''new'', ''updated'', ''override''], literal '' '', plural ''instruction'']),
     inOrder [wordBounded (oneOf [''give'', ''assign'', ''award'', ''rate'', ''score'']), upToChars 50,
       wordBounded (oneOf [''100'', ''10/10'', ''full marks'', ''maximum'', ''highest'', ''top''])],
     inOrder [literal ''<'', optionally (literal ''/''), Repeat 0 None (Chars isSpace),
       Either (literal ''system'') (Either (plural ''instruction'') (oneOf [''assistant'', ''resume'', ''excerpt''])),
       WordBoundary]]"

definition looksLikeInjection :: "string \<Rightarrow> bool" where
  "looksLikeInjection s = list_ex (\<lambda>r. regexTest r s) INJECTION_PATTERNS"

section \<open>Redaction\<close>

definition mailChar :: "char \<Rightarrow> bool" where
  "mailChar c \<longleftrightarrow> wordChar c \<or> c \<in> set ''.+-''"

definition hostChar :: "char \<Rightarrow> bool" where
  "hostChar c \<longleftrightarrow> wordChar c \<or> c = CHR ''-''"

text \<open>\<open>[\w-]+(\.[\w-]+)+\<close>\<close>

definition hostName :: regex where
  "hostName = Follow (someOf hostChar) (Repeat 1 None (Follow (literal ''.'') (someOf hostChar)))"

definition mailPattern :: regex where
  "mailPattern = inOrder [someOf mailChar, literal ''@'', hostName]"

definition linkPattern :: regex where
  "linkPattern = inOrder [WordBoundary,
     Either (inOrder [literal ''http'', optionally (literal ''s''), literal ''://'']) (literal ''www.''), someOf (\<lambda>c. \<not> isSpace c)]"

definition profilePattern :: regex where
  "profilePattern = inOrder [WordBoundary, hostName, literal ''/'', someOf (\<lambda>c. \<not> isSpace c)]"

definition phonePattern :: regex where
  "phonePattern = inOrder [optionally (literal ''+''), Chars digitChar,
     Repeat 7 None (Chars (\<lambda>c. digitChar c \<or> isSpace c \<or> c \<in> set ''().-'')), Chars digitChar]"

definition phoneOrSame :: "string \<Rightarrow> string" where
  "phoneOrSame m = (let digits = length (List.filter digitChar m) in if 9 \<le> digits \<and> digits \<le> 15 then ''[phone]'' else m)"

definition trimText :: "string \<Rightarrow> string" where
  "trimText s = rev (dropWhile isSpace (rev (dropWhile isSpace s)))"

definition redactPii :: "string \<Rightarrow> string list \<Rightarrow> string" where
  "redactPii s names =
     (let out = replaceAll phonePattern phoneOrSame (replaceAll profilePattern (\<lambda>_. ''[link]'')
        (replaceAll linkPattern (\<lambda>_. ''[link]'') (replaceAll mailPattern (\<lambda>_. ''[email]'') s)))
      in foldl (\<lambda>out name. replaceAll (wordBounded (literal name)) (\<lambda>_. ''[candidate]'') out) out
        (List.filter (\<lambda>n. 1 < length n) (List.map trimText names)))"

section \<open>No address survives\<close>

text \<open>A mail address starts here: a character, an at sign, the first label of a host and the first of the next.\<close>

definition addressAt :: "string \<Rightarrow> bool" where
  "addressAt s \<longleftrightarrow> (\<exists>a h b v. s = a # CHR ''@'' # h @ CHR ''.'' # b # v \<and> mailChar a \<and> h \<noteq> [] \<and> list_all hostChar h \<and> hostChar b)"

definition holdsAddress :: "string \<Rightarrow> bool" where
  "holdsAddress s \<longleftrightarrow> (\<exists>p v. s = p @ v \<and> addressAt v)"

lemma holdsAddress_simps [simp]:
  "\<not> holdsAddress []" "holdsAddress (c # s) \<longleftrightarrow> addressAt (c # s) \<or> holdsAddress s"
proof -
  show "\<not> holdsAddress []" by (simp add: holdsAddress_def addressAt_def)
  show "holdsAddress (c # s) \<longleftrightarrow> addressAt (c # s) \<or> holdsAddress s"
    unfolding holdsAddress_def by (metis Cons_eq_append_conv append_Nil append_Cons)
qed

lemma rounds_run:
  "h \<noteq> [] \<Longrightarrow> list_all good h \<Longrightarrow> length h \<le> n \<Longrightarrow> lo \<le> Suc 0 \<Longrightarrow>
    (Some (last h), v) \<in> set (rounds (matchEnds (Chars good)) n lo (a, h @ v))"
proof (induction h arbitrary: n lo a)
  case (Cons c h)
  obtain m where n: "n = Suc m" using Cons.prems(3) by (cases n) simp_all
  have "(Some (last (c # h)), v) \<in> set (rounds (matchEnds (Chars good)) m (lo - 1) (Some c, h @ v))"
  proof (cases "h = []")
    case True
    then show ?thesis using Cons.prems(4) by (cases m) simp_all
  next
    case False
    then show ?thesis using Cons.prems n Cons.IH [of m "lo - 1" "Some c"] by (simp del: matchEnds.simps)
  qed
  moreover have "matchEnds (Chars good) (a, (c # h) @ v) = [(Some c, h @ v)]" using Cons.prems(2) by simp
  ultimately show ?case by (simp add: n del: matchEnds.simps)
qed simp

lemma someOf_run: "h \<noteq> [] \<Longrightarrow> list_all good h \<Longrightarrow> (Some (last h), v) \<in> set (matchEnds (someOf good) (a, h @ v))"
  using rounds_run [of h good "length (h @ v)" 1 v a] by (simp add: someOf_def)

lemma match_Follow: "y \<in> set (matchEnds r x) \<Longrightarrow> z \<in> set (matchEnds q y) \<Longrightarrow> z \<in> set (matchEnds (Follow r q) x)"
  by auto

lemma match_literal1: "(Some c, v) \<in> set (matchEnds (literal [c]) (a, c # v))"
  by (simp add: literal_def)

lemma match_address:
  assumes "addressAt s"
  shows "matchEnds mailPattern (x, s) \<noteq> []"
proof -
  obtain a h b v where s: "s = a # CHR ''@'' # h @ CHR ''.'' # b # v" and c: "mailChar a" "h \<noteq> []" "list_all hostChar h" "hostChar b"
    using assms by (auto simp: addressAt_def)
  have 1: "(Some a, CHR ''@'' # h @ CHR ''.'' # b # v) \<in> set (matchEnds (someOf mailChar) (x, s))"
    using someOf_run [of "[a]" mailChar "CHR ''@'' # h @ CHR ''.'' # b # v" x] c(1) by (simp add: s)
  have 2: "(Some (last h), CHR ''.'' # b # v) \<in> set (matchEnds (someOf hostChar) (Some (CHR ''@''), h @ CHR ''.'' # b # v))"
    by (rule someOf_run [OF c(2,3)])
  have "(Some b, v) \<in> set (matchEnds (Follow (literal ''.'') (someOf hostChar)) (Some (last h), CHR ''.'' # b # v))"
    by (rule match_Follow [OF match_literal1]) (use someOf_run [of "[b]" hostChar v] c(4) in simp)
  then have 3: "(Some b, v) \<in> set (matchEnds (Repeat 1 None (Follow (literal ''.'') (someOf hostChar))) (Some (last h), CHR ''.'' # b # v))"
    by (auto intro!: bexI simp del: matchEnds.simps(3))
  have "(Some b, v) \<in> set (matchEnds mailPattern (x, s))"
    unfolding mailPattern_def inOrder_def hostName_def foldr.simps comp_apply
    by (rule match_Follow [OF 1 match_Follow [OF match_literal1 match_Follow [OF match_Follow [OF 2 3]]]]) simp
  then show ?thesis by auto
qed

text \<open>
  A text with some of its parts replaced by bracketed words: where no bracket is, nothing has changed, so
  no address has come into being.
\<close>

inductive blotted :: "string \<Rightarrow> string \<Rightarrow> bool" where
  blot_end: "blotted [] []"
| blot_char: "blotted s t \<Longrightarrow> blotted (c # s) (c # t)"
| blot_word: "blotted s t \<Longrightarrow> CHR ''@'' \<notin> set w \<Longrightarrow> blotted (m @ s) (CHR ''['' # w @ CHR '']'' # t)"

lemma blotted_same: "blotted s t \<Longrightarrow> blotted (m @ s) (m @ t)"
  by (induction m) (auto intro: blotted.intros)

lemma blotted_prefix: "blotted s t \<Longrightarrow> t = p @ v \<Longrightarrow> CHR ''['' \<notin> set p \<Longrightarrow> \<exists>v'. s = p @ v'"
proof (induction arbitrary: p v rule: blotted.induct)
  case (blot_char s t c)
  then show ?case by (cases p) auto
next
  case (blot_word s t w m)
  then show ?case by (cases p) auto
qed simp

lemma plain_chars: "mailChar a \<Longrightarrow> a \<noteq> CHR ''[''" "mailChar a \<Longrightarrow> a \<noteq> CHR '']''" "hostChar a \<Longrightarrow> a \<noteq> CHR ''[''"
  by (auto simp: mailChar_def hostChar_def wordChar_def)

lemma blotted_addressAt:
  assumes "blotted s t" "addressAt t"
  shows "addressAt s"
proof -
  obtain a h b v where t: "t = (a # CHR ''@'' # h @ [CHR ''.'', b]) @ v" and c: "mailChar a" "h \<noteq> []" "list_all hostChar h" "hostChar b"
    using assms(2) by (auto simp: addressAt_def)
  have "CHR ''['' \<notin> set (a # CHR ''@'' # h @ [CHR ''.'', b])"
    using c plain_chars by (fastforce simp: list_all_iff)
  then obtain v' where "s = (a # CHR ''@'' # h @ [CHR ''.'', b]) @ v'" using blotted_prefix [OF assms(1) t] by blast
  then show ?thesis using c unfolding addressAt_def by auto
qed

lemma word_no_address:
  assumes "CHR ''@'' \<notin> set w"
  shows "holdsAddress (w @ CHR '']'' # t) = holdsAddress t"
  using assms
proof (induction w)
  case Nil
  then show ?case using plain_chars(2) by (auto simp: addressAt_def)
next
  case (Cons c w)
  then show ?case by (cases w) (auto simp: addressAt_def)
qed

lemma bracket_no_address:
  assumes "CHR ''@'' \<notin> set w"
  shows "holdsAddress (CHR ''['' # w @ CHR '']'' # t) = holdsAddress t"
  using word_no_address [OF assms, of t] plain_chars(1) by (auto simp: addressAt_def)

lemma blotted_no_address: "blotted s t \<Longrightarrow> \<not> holdsAddress s \<Longrightarrow> \<not> holdsAddress t"
proof (induction rule: blotted.induct)
  case (blot_char s t c)
  then show ?case using blotted_addressAt [OF blotted.blot_char [OF blot_char.hyps]] by auto
next
  case (blot_word s t w m)
  then have "\<not> holdsAddress s" by (metis append.assoc holdsAddress_def)
  then show ?case using blot_word bracket_no_address by blast
qed simp

definition blotWord :: "(string \<Rightarrow> string) \<Rightarrow> bool" where
  "blotWord f \<longleftrightarrow> (\<forall>m. f m = m \<or> (\<exists>w. f m = CHR ''['' # w @ [CHR '']''] \<and> CHR ''@'' \<notin> set w))"

lemma rounds_suffix:
  assumes "\<And>x y. y \<in> set (f x) \<Longrightarrow> suffix (snd y) (snd x)"
  shows "y \<in> set (rounds f n lo x) \<Longrightarrow> suffix (snd y) (snd x)"
  by (induction n arbitrary: lo x) (auto split: if_splits dest!: assms intro: suffix_order.trans)

lemma matchEnds_suffix: "y \<in> set (matchEnds r x) \<Longrightarrow> suffix (snd y) (snd x)"
proof (induction r arbitrary: x y)
  case (Chars good)
  then show ?case by (cases "snd x") (auto split: if_splits intro: suffix_ConsI)
next
  case (Follow r q)
  then obtain z where "z \<in> set (matchEnds r x)" "y \<in> set (matchEnds q z)" by auto
  then show ?case using Follow.IH suffix_order.trans by blast
next
  case (Repeat lo hi r)
  show ?case using Repeat.prems rounds_suffix [of "matchEnds r", OF Repeat.IH] by simp
qed (auto split: if_splits)

lemma match_split:
  assumes "matchEnds r (a, s) = (b, t) # rest"
  shows "s = take (length s - length t) s @ t"
proof -
  have "suffix t s" using matchEnds_suffix [of "(b, t)" r "(a, s)"] assms by simp
  then show ?thesis by (auto simp: suffix_def)
qed

lemma replaced_blotted: "blotWord f \<Longrightarrow> blotted s (replaceFrom r f (a, s))"
proof (induction "length s" arbitrary: a s rule: less_induct)
  case less
  show ?case
  proof (cases s)
    case (Cons c s')
    show ?thesis
    proof (cases "\<exists>b t rest. matchEnds r (a, s) = (b, t) # rest \<and> length t < length s")
      case True
      then obtain b t rest where m: "matchEnds r (a, s) = (b, t) # rest" "length t < length s" by blast
      let ?m = "take (length s - length t) s"
      have o': "replaceFrom r f (a, s) = f ?m @ replaceFrom r f (b, t)" using m by (simp add: Cons)
      have "blotted t (replaceFrom r f (b, t))" by (rule less.hyps [OF m(2) less.prems])
      then have "blotted (?m @ t) (f ?m @ replaceFrom r f (b, t))"
        using less.prems unfolding blotWord_def by (metis append.assoc append_Cons append_Nil blotted_same blot_word)
      then show ?thesis using match_split [OF m(1)] o' by simp
    next
      case False
      then have "replaceFrom r f (a, s) = c # replaceFrom r f (Some c, s')"
        by (auto simp: Cons split: list.split)
      then show ?thesis using less.hyps [of s' "Some c"] less.prems by (simp add: Cons blot_char)
    qed
  qed (simp add: blot_end)
qed

lemma replaceAll_no_address: "blotWord f \<Longrightarrow> \<not> holdsAddress s \<Longrightarrow> \<not> holdsAddress (replaceAll r f s)"
  unfolding replaceAll_def by (rule blotted_no_address [OF replaced_blotted])

lemma blot_words: "blotWord (\<lambda>_. ''[email]'')" "blotWord (\<lambda>_. ''[link]'')" "blotWord phoneOrSame" "blotWord (\<lambda>_. ''[candidate]'')"
proof -
  have word: "blotWord f" if "\<And>m. f m = m \<or> f m = CHR ''['' # w @ [CHR '']'']" "CHR ''@'' \<notin> set w" for f w
    using that unfolding blotWord_def by blast
  show "blotWord (\<lambda>_. ''[email]'')" by (rule word [of _ "''email''"]) simp_all
  show "blotWord (\<lambda>_. ''[link]'')" by (rule word [of _ "''link''"]) simp_all
  show "blotWord phoneOrSame" by (rule word [of _ "''phone''"]) (simp_all add: phoneOrSame_def Let_def)
  show "blotWord (\<lambda>_. ''[candidate]'')" by (rule word [of _ "''candidate''"]) simp_all
qed

lemma someOf_shorter:
  assumes "y \<in> set (matchEnds (someOf good) x)"
  shows "length (snd y) < length (snd x)"
proof -
  have "y \<in> set (rounds (matchEnds (Chars good)) (length (snd x)) (Suc 0) x)"
    using assms by (simp add: someOf_def del: matchEnds.simps(1))
  then obtain z n where z: "z \<in> set (matchEnds (Chars good) x)" "y \<in> set (rounds (matchEnds (Chars good)) n 0 z)"
    by (cases "length (snd x)") (auto simp del: matchEnds.simps(1))
  have "suffix (snd y) (snd z)" by (rule rounds_suffix [of "matchEnds (Chars good)", OF _ z(2)]) (rule matchEnds_suffix)
  moreover have "length (snd z) < length (snd x)" using z(1) by (cases "snd x") (simp_all split: if_splits)
  ultimately show ?thesis using suffix_length_le by fastforce
qed

lemma mail_shorter:
  assumes "y \<in> set (matchEnds mailPattern x)"
  shows "length (snd y) < length (snd x)"
proof -
  obtain z where z: "z \<in> set (matchEnds (someOf mailChar) x)" "y \<in> set (matchEnds (inOrder [literal ''@'', hostName]) z)"
    using assms by (auto simp: mailPattern_def inOrder_def simp del: matchEnds.simps(5))
  show ?thesis using someOf_shorter [OF z(1)] matchEnds_suffix [OF z(2)] suffix_length_le by fastforce
qed

lemma mails_replaced: "\<not> holdsAddress (replaceFrom mailPattern (\<lambda>_. ''[email]'') (a, s))"
proof (induction "length s" arbitrary: a s rule: less_induct)
  case less
  let ?f = "\<lambda>_::string. ''[email]''"
  show ?case
  proof (cases s)
    case (Cons c s')
    show ?thesis
    proof (cases "matchEnds mailPattern (a, s)")
      case Nil
      then have o': "replaceFrom mailPattern ?f (a, s) = c # replaceFrom mailPattern ?f (Some c, s')" by (simp add: Cons)
      have "blotted s (c # replaceFrom mailPattern ?f (Some c, s'))"
        unfolding Cons by (rule blot_char [OF replaced_blotted [OF blot_words(1)]])
      then have "\<not> addressAt (c # replaceFrom mailPattern ?f (Some c, s'))"
        using blotted_addressAt match_address Nil by blast
      moreover have "\<not> holdsAddress (replaceFrom mailPattern ?f (Some c, s'))"
        by (rule less.hyps) (simp add: \<open>s = c # s'\<close>)
      ultimately show ?thesis unfolding o' by simp
    next
      case (Cons y rest)
      then obtain b t where m: "matchEnds mailPattern (a, s) = (b, t) # rest" by (cases y) simp
      have l: "length t < length s" using mail_shorter [of "(b, t)" "(a, s)"] m by simp
      have "replaceFrom mailPattern ?f (a, s) = CHR ''['' # ''email'' @ CHR '']'' # replaceFrom mailPattern ?f (b, t)"
        using m l \<open>s = c # s'\<close> by simp
      then show ?thesis by (simp only:) (subst bracket_no_address, simp_all add: less.hyps [OF l])
    qed
  qed simp
qed

text \<open>
  C38. No mail address leaves for a provider: in a redacted text no at sign stands between a character of a
  mailbox name and a host name of two labels, whatever the text is and whichever names are removed.
\<close>

theorem redacted_text_has_no_address:
  "\<not> (\<exists>p a h b v. redactPii s names = p @ a # CHR ''@'' # h @ CHR ''.'' # b # v \<and>
     mailChar a \<and> h \<noteq> [] \<and> list_all hostChar h \<and> hostChar b)"
proof -
  have names: "\<not> holdsAddress (foldl (\<lambda>out name. replaceAll (wordBounded (literal name)) (\<lambda>_. ''[candidate]'') out) out ns)"
    if "\<not> holdsAddress out" for out ns
    using that by (induction ns arbitrary: out) (simp_all add: replaceAll_no_address [OF blot_words(4)])
  have "\<not> holdsAddress (replaceAll mailPattern (\<lambda>_. ''[email]'') s)" unfolding replaceAll_def by (rule mails_replaced)
  then have "\<not> holdsAddress (redactPii s names)"
    unfolding redactPii_def Let_def by (intro names replaceAll_no_address [OF blot_words(2)] replaceAll_no_address [OF blot_words(3)])
  then show ?thesis unfolding holdsAddress_def addressAt_def by blast
qed

text \<open>An example; a name that ends in a letter outside ASCII has no word boundary there and stays.\<close>

lemma redact_runs:
  "redactPii ''Ed a@x.io'' [''Ed''] = ''[candidate] [email]'' \<and>
   redactPii [CHR ''J'', CHR ''o'', CHR ''s'', CHR 0xE9, CHR '' '', CHR ''L''] [[CHR ''J'', CHR ''o'', CHR ''s'', CHR 0xE9]] =
     [CHR ''J'', CHR ''o'', CHR ''s'', CHR 0xE9, CHR '' '', CHR ''L'']"
  by code_simp

lemma redact_examples: "redactPii ''Ed a@x.io'' [''Ed''] = ''[candidate] [email]''"
  using redact_runs by (rule conjunct1)

lemma accented_names_stay: "redactPii [CHR ''J'', CHR ''o'', CHR ''s'', CHR 0xE9, CHR '' '', CHR ''L''] [[CHR ''J'', CHR ''o'', CHR ''s'', CHR 0xE9]] =
  [CHR ''J'', CHR ''o'', CHR ''s'', CHR 0xE9, CHR '' '', CHR ''L'']"
  using redact_runs by (rule conjunct2)

end
