(* ===== verification/KnowledgeBase.thy ===== *)
theory KnowledgeBase
  imports Notifications Secrets Redact
begin

text \<open>
  The knowledge base of the assistant (\<open>knowledge-base.service.ts\<close>, \<open>text-extraction.ts\<close>,
  \<open>ai.listener.ts\<close>, \<open>ai.processor.ts\<close>): which documents are indexed, how their text is cut into chunks,
  the jobs that keep the chunks up to date, and the search. The PDF and DOCX parsers, the reader of
  scans, the text splitter, the embeddings and the distance of pgvector are parameters. The file text is
  decoded byte by byte, which is exact for ASCII. The rest of the AI module's tables is in the same record.
\<close>

record knowledge_chunk =
  kc_documentId :: id
  kc_documentVersionId :: id
  kc_chunkIndex :: nat
  kc_content :: string
  kc_tokenEstimate :: nat
  kc_title :: string
  kc_embedding :: "rat list"

datatype ai_feature = ASSISTANT | SCREENING

record ai_usage =
  iu_userId :: "id option"
  iu_feature :: ai_feature
  iu_provider :: string
  iu_model :: string
  iu_inputTokens :: int
  iu_outputTokens :: int
  iu_cacheReadTokens :: int
  iu_cacheWriteTokens :: int
  iu_aborted :: bool
  iu_costUsd :: "rat option"
  iu_createdAt :: int

record ai_conversation =
  iv_userId :: id
  iv_title :: string
  iv_updatedAt :: int

record citation =
  ci_ref :: nat
  ci_documentId :: id
  ci_title :: string
  ci_chunkIndex :: nat
  ci_similarity :: rat
  ci_excerpt :: string

record ai_message =
  im_conversationId :: id
  im_role :: chat_role
  im_content :: string
  im_citations :: "citation list"
  im_provider :: "string option"
  im_model :: "string option"
  im_inputTokens :: "int option"
  im_outputTokens :: "int option"

text \<open>
  \<open>indexJobs\<close> are the jobs of the queue, by document; \<open>indexErrors\<close> the documents whose indexing failed
  for good, which is only logged.
\<close>

record ai_state = notify_state +
  chunksT :: "knowledge_chunk table"
  indexJobs :: "id list"
  indexErrors :: "id list"
  usageT :: "ai_usage table"
  conversationsT :: "ai_conversation table"
  messagesT :: "ai_message table"
  chatCooldowns :: cooldowns

datatype embed_kind = QUERY | DOCUMENT

record kb_env =
  kb_pdfText :: "buffer \<Rightarrow> string + string"
  kb_docxText :: "buffer \<Rightarrow> string + string"
  kb_reader :: "(buffer \<Rightarrow> string + string) option"
  kb_splitText :: "string \<Rightarrow> string list"
  kb_embed :: "string list \<Rightarrow> embed_kind \<Rightarrow> string + rat list list"
  kb_distance :: "rat list \<Rightarrow> rat list \<Rightarrow> rat"
  kb_topK :: nat
  kb_floor :: rat

section \<open>Text\<close>

datatype extract_error = UnsupportedContent | ScannedDocument | ExtractFailed string

definition failedWith :: "string + 'x \<Rightarrow> extract_error + 'x" where
  "failedWith r = (case r of Inl e \<Rightarrow> Inl (ExtractFailed e) | Inr x \<Rightarrow> Inr x)"

definition extractText :: "kb_env \<Rightarrow> buffer \<Rightarrow> string \<Rightarrow> extract_error + string" where
  "extractText K buf mime =
     (if mime = ''application/pdf'' then failedWith (kb_pdfText K buf)
      else if mime = ''application/vnd.openxmlformats-officedocument.wordprocessingml.document'' then failedWith (kb_docxText K buf)
      else if mime \<in> {''text/plain'', ''text/markdown'', ''text/csv''} then Inr (textOf buf)
      else Inl UnsupportedContent)"

definition MIN_TEXT_CHARS :: nat where "MIN_TEXT_CHARS = 50"

definition extractTextOrTranscribe :: "kb_env \<Rightarrow> buffer \<Rightarrow> string \<Rightarrow> extract_error + string" where
  "extractTextOrTranscribe K buf mime =
     bindE (extractText K buf mime) (\<lambda>raw.
     if mime \<noteq> ''application/pdf'' \<or> MIN_TEXT_CHARS \<le> length (trimText raw) then Inr (trimText raw)
     else orThrow (kb_reader K) ScannedDocument (\<lambda>read. bindE (failedWith (read buf)) (\<lambda>t. Inr (trimText t))))"

record text_chunk =
  ch_index :: nat
  ch_content :: string
  ch_tokenEstimate :: nat

definition cleanText :: "string \<Rightarrow> string" where
  "cleanText s =
     (let nl = CHR 0x0A;
          unix = replaceAll (literal [CHR 0x0D, nl]) (\<lambda>_. [nl]) s;
          noTrail = replaceAll (Follow (someOf (\<lambda>c. c = CHR '' '' \<or> c = CHR 0x09)) (literal [nl])) (\<lambda>_. [nl]) unix
      in trimText (replaceAll (Repeat 3 None (Chars (\<lambda>c. c = nl))) (\<lambda>_. [nl, nl]) noTrail))"

definition chunkText :: "kb_env \<Rightarrow> string \<Rightarrow> text_chunk list" where
  "chunkText K s =
     (if cleanText s = [] then []
      else List.map (\<lambda>(i, p). \<lparr>ch_index = i, ch_content = p, ch_tokenEstimate = (length p + 3) div 4\<rparr>)
        (List.enumerate 0 (List.filter (\<lambda>p. p \<noteq> []) (List.map trimText (kb_splitText K (cleanText s))))))"

section \<open>Indexing\<close>

definition isEligible :: "'a doc_state_scheme \<Rightarrow> document option \<Rightarrow> bool" where
  "isEligible s d = (case d of None \<Rightarrow> False
     | Some d \<Rightarrow> doc_deletedAt d = None \<and> doc_category d = POLICY \<and> doc_visibility d = COMPANY \<and>
         Option.bind (doc_currentVersionId d) (lookup (versionsT s)) \<noteq> None)"

definition EMBED_BATCH :: nat where "EMBED_BATCH = 32"

function embedAll :: "kb_env \<Rightarrow> string list \<Rightarrow> string + rat list list" where
  "embedAll K ts =
     (if ts = [] then Inr []
      else bindE (kb_embed K (take EMBED_BATCH ts) DOCUMENT) (\<lambda>vs.
           bindE (embedAll K (drop EMBED_BATCH ts)) (\<lambda>ws. Inr (vs @ ws))))"
  by pat_completeness auto

termination by (relation "measure (\<lambda>(K, ts). length ts)") (auto simp: EMBED_BATCH_def)

text \<open>
  What a run has found out before it writes: nothing to index any more, a text it cannot read, or the
  version, the title, the chunks and their vectors. Between the two other requests and jobs may run.
\<close>

datatype index_plan = DropChunks | LeaveChunks | StoreChunks id string "text_chunk list" "rat list list"

definition planIndex :: "kb_env \<Rightarrow> id \<Rightarrow> 'a ai_state_scheme \<Rightarrow> index_plan res" where
  "planIndex K k s =
     (case lookup (documentsT s) k of None \<Rightarrow> Inr DropChunks
      | Some d \<Rightarrow>
          if \<not> isEligible s (Some d) then Inr DropChunks
          else let vid = the (doc_currentVersionId d); v = the (lookup (versionsT s) vid)
            in orThrow (objects s (dv_storageKey v)) (InternalError ''Download failed'') (\<lambda>buf.
               (case extractTextOrTranscribe K buf (dv_mimeType v) of
                  Inl (ExtractFailed e) \<Rightarrow> Inl (InternalError e)
                | Inl _ \<Rightarrow> Inr LeaveChunks
                | Inr text \<Rightarrow>
                    (case embedAll K (List.map ch_content (chunkText K text)) of
                       Inl e \<Rightarrow> Inl (InternalError e)
                     | Inr vs \<Rightarrow> Inr (StoreChunks vid (doc_title d) (chunkText K text) vs)))))"

datatype index_result = Indexed nat | Removed | Skipped

definition chunkRow :: "id \<Rightarrow> id \<Rightarrow> string \<Rightarrow> text_chunk \<times> rat list \<Rightarrow> knowledge_chunk" where
  "chunkRow k vid title = (\<lambda>(p, v).
     \<lparr>kc_documentId = k, kc_documentVersionId = vid, kc_chunkIndex = ch_index p, kc_content = ch_content p,
      kc_tokenEstimate = ch_tokenEstimate p, kc_title = title, kc_embedding = v\<rparr>)"

text \<open>The transaction; a missing vector or a document that is gone makes it fail as a whole.\<close>

definition commitIndex :: "int \<Rightarrow> id list \<Rightarrow> id \<Rightarrow> index_plan \<Rightarrow> ('a ai_state_scheme, index_result) act" where
  "commitIndex now newIds k plan s =
     (let old = deleteWhere (\<lambda>c. kc_documentId c = k) (chunksT s)
      in case plan of
           LeaveChunks \<Rightarrow> (Inr Skipped, s)
         | DropChunks \<Rightarrow> (Inr (if old = chunksT s then Skipped else Removed), s\<lparr>chunksT := old\<rparr>)
         | StoreChunks vid title pieces vs \<Rightarrow>
             if length vs < length pieces then (Inl (InternalError ''No vector''), s)
             else if pieces \<noteq> [] \<and> lookup (documentsT s) k = None then (Inl (BadRequest ''Referenced resource does not exist''), s)
             else (Inr (Indexed (length pieces)),
               s\<lparr>chunksT := old @ zip newIds (List.map (chunkRow k vid title) (zip pieces vs)),
                 documentsT := updateRow k (\<lambda>d. d\<lparr>doc_kbIndexedAt := Some now\<rparr>) (documentsT s)\<rparr>))"

definition indexDocument :: "kb_env \<Rightarrow> int \<Rightarrow> id list \<Rightarrow> id \<Rightarrow> ('a ai_state_scheme, index_result) act" where
  "indexDocument K now newIds k = bindS (readS (planIndex K k)) (commitIndex now newIds k)"

definition policyIds :: "(document \<Rightarrow> bool) \<Rightarrow> 'a ai_state_scheme \<Rightarrow> id list" where
  "policyIds want s = List.map fst (List.filter (\<lambda>(_, d). doc_category d = POLICY \<and> doc_visibility d = COMPANY \<and>
     doc_deletedAt d = None \<and> want d) (documentsT s))"

definition eligibleDocumentIds :: "'a ai_state_scheme \<Rightarrow> id list" where
  "eligibleDocumentIds = policyIds (\<lambda>_. True)"

definition staleDocumentIds :: "'a ai_state_scheme \<Rightarrow> id list" where
  "staleDocumentIds = policyIds (\<lambda>d. doc_kbIndexedAt d = None)"

record kb_status =
  ks_documents :: nat
  ks_chunks :: nat
  ks_stale :: nat

definition kbStatus :: "'a ai_state_scheme \<Rightarrow> kb_status" where
  "kbStatus s = \<lparr>ks_documents = length (remdups (List.map kc_documentId (rows (chunksT s)))),
     ks_chunks = length (chunksT s), ks_stale = length (staleDocumentIds s)\<rparr>"

section \<open>Jobs\<close>

definition enqueueIndex :: "id \<Rightarrow> 'a ai_state_scheme \<Rightarrow> 'a ai_state_scheme" where
  "enqueueIndex k s = s\<lparr>indexJobs := indexJobs s @ [k]\<rparr>"

definition enqueueAll :: "'a ai_state_scheme \<Rightarrow> nat \<times> 'a ai_state_scheme" where
  "enqueueAll s = (length (eligibleDocumentIds s), foldl (\<lambda>s k. enqueueIndex k s) s (eligibleDocumentIds s))"

text \<open>The listener swallows a failing queue.\<close>

definition onDocumentChanged :: "bool \<Rightarrow> id \<Rightarrow> 'a ai_state_scheme \<Rightarrow> 'a ai_state_scheme" where
  "onDocumentChanged takes k s = (if takes then enqueueIndex k s else s\<lparr>indexErrors := indexErrors s @ [k]\<rparr>)"

text \<open>
  One run of the job at place \<open>i\<close> of the queue: done, left for another attempt, or given up.
\<close>

definition runIndexJob :: "kb_env \<Rightarrow> int \<Rightarrow> id list \<Rightarrow> nat \<Rightarrow> bool \<Rightarrow> 'a ai_state_scheme \<Rightarrow> 'a ai_state_scheme" where
  "runIndexJob K now newIds i lastAttempt s =
     (let k = indexJobs s ! i; js = take i (indexJobs s) @ drop (Suc i) (indexJobs s)
      in case indexDocument K now newIds k s of
           (Inr _, t) \<Rightarrow> t\<lparr>indexJobs := js\<rparr>
         | (Inl _, t) \<Rightarrow> if lastAttempt then t\<lparr>indexJobs := js, indexErrors := indexErrors t @ [k]\<rparr> else t)"

definition reindex :: "id option \<Rightarrow> 'a ai_state_scheme \<Rightarrow> (nat \<times> 'a ai_state_scheme) res" where
  "reindex k s = (case k of None \<Rightarrow> Inr (enqueueAll s)
     | Some k \<Rightarrow> throwIf (lookup (documentsT s) k = None) (NotFound ''Document not found'') (Inr (1, enqueueIndex k s)))"

text \<open>The foreign key of the chunks: they go with their document.\<close>

definition cascadeChunks :: "'a ai_state_scheme \<Rightarrow> 'a ai_state_scheme" where
  "cascadeChunks s = s\<lparr>chunksT := deleteWhere (\<lambda>c. lookup (documentsT s) (kc_documentId c) = None) (chunksT s)\<rparr>"

section \<open>Search\<close>

record retrieved_chunk =
  rk_chunkId :: id
  rk_documentId :: id
  rk_title :: string
  rk_chunkIndex :: nat
  rk_content :: string
  rk_similarity :: rat

text \<open>The rows of the query, nearest first. The index of pgvector is approximate, the model exact.\<close>

definition nearest :: "kb_env \<Rightarrow> rat list \<Rightarrow> nat \<Rightarrow> 'a ai_state_scheme \<Rightarrow> (id \<times> knowledge_chunk) list" where
  "nearest K q k s = take k (sort_key (\<lambda>(_, c). kb_distance K (kc_embedding c) q)
     (List.filter (\<lambda>(_, c). map_option doc_deletedAt (lookup (documentsT s) (kc_documentId c)) = Some None) (chunksT s)))"

definition kbSearch :: "kb_env \<Rightarrow> string \<Rightarrow> 'a ai_state_scheme \<Rightarrow> retrieved_chunk list res" where
  "kbSearch K query s =
     (case kb_embed K [query] QUERY of
        Inl e \<Rightarrow> Inl (InternalError e)
      | Inr [] \<Rightarrow> Inl (InternalError ''No vector'')
      | Inr (q # _) \<Rightarrow>
          Inr (List.filter (\<lambda>r. kb_floor K \<le> rk_similarity r)
            (List.map (\<lambda>(j, c). \<lparr>rk_chunkId = j, rk_documentId = kc_documentId c, rk_title = kc_title c,
               rk_chunkIndex = kc_chunkIndex c, rk_content = kc_content c,
               rk_similarity = dsub 1 (kb_distance K (kc_embedding c) q)\<rparr>) (nearest K q (kb_topK K) s))))"

end
