(* ===== verification/KnowledgeProps.thy ===== *)
theory KnowledgeProps
  imports KnowledgeBase NotifyProps DocProps
begin

text \<open>
  What the search of the assistant can find. The documents change by the operations of \<open>DocProps\<close>, each
  of which announces what it changes; the listener turns announcements into jobs; a job runs as a whole,
  may be retried and given up. The run that is interleaved with other requests is in the findings.
\<close>

section \<open>Eligibility follows the announcements\<close>

text \<open>What an operation on documents leaves eligible, or announces.\<close>

definition announces :: "'a doc_state_scheme \<Rightarrow> 'a doc_state_scheme \<Rightarrow> bool" where
  "announces s t \<longleftrightarrow> (\<exists>es. docEvents t = docEvents s @ es \<and>
     (\<forall>k. isEligible s (lookup (documentsT s) k) \<longrightarrow> k \<in> set es \<or> isEligible t (lookup (documentsT t) k)))"

lemma isEligible_iff: "isEligible s d \<longleftrightarrow> (\<exists>x vid v. d = Some x \<and> doc_deletedAt x = None \<and> doc_category x = POLICY \<and>
    doc_visibility x = COMPANY \<and> doc_currentVersionId x = Some vid \<and> lookup (versionsT s) vid = Some v)"
proof (cases d)
  case (Some x)
  then show ?thesis by (cases "doc_currentVersionId x") (simp_all add: isEligible_def)
qed (simp add: isEligible_def)

lemma isEligible_mono:
  assumes "isEligible s d" "\<And>j. lookup (versionsT s) j \<noteq> None \<Longrightarrow> lookup (versionsT t) j \<noteq> None"
  shows "isEligible t d"
proof -
  obtain x vid v where x: "d = Some x" "doc_deletedAt x = None" "doc_category x = POLICY"
    "doc_visibility x = COMPANY" "doc_currentVersionId x = Some vid" "lookup (versionsT s) vid = Some v"
    using assms(1) by (auto simp: isEligible_iff)
  moreover obtain w where "lookup (versionsT t) vid = Some w" using assms(2) [of vid] x(6) by auto
  ultimately show ?thesis by (simp add: isEligible_iff)
qed

lemma isEligible_cong: "versionsT t = versionsT s \<Longrightarrow> isEligible t d = isEligible s d"
  by (cases d) (simp_all add: isEligible_def)

lemma announces_same: "documentsT t = documentsT s \<Longrightarrow> versionsT t = versionsT s \<Longrightarrow> docEvents t = docEvents s \<Longrightarrow> announces s t"
  unfolding announces_def by (intro exI [of _ "[]"]) (auto dest: isEligible_cong [THEN iffD2, rotated])

lemma isEligible_stamp: "isEligible s (map_option (\<lambda>d. d\<lparr>doc_kbIndexedAt := x\<rparr>) d) = isEligible s d"
  by (cases d) (simp_all add: isEligible_def)

lemma announces_edit:
  assumes "\<And>j. j \<noteq> k \<Longrightarrow> lookup (documentsT t) j = lookup (documentsT s) j" "docEvents t = docEvents s @ [k]"
    and "\<And>j. lookup (versionsT s) j \<noteq> None \<Longrightarrow> lookup (versionsT t) j \<noteq> None"
  shows "announces s t"
proof -
  have "isEligible t (lookup (documentsT t) j)" if "isEligible s (lookup (documentsT s) j)" "j \<noteq> k" for j
    using isEligible_mono [OF that(1) assms(3)] assms(1) [OF that(2)] by simp
  then show ?thesis unfolding announces_def using assms(2) by auto
qed

lemma announces_insert:
  assumes "k \<notin> set (keys (documentsT s))" "announces (s\<lparr>documentsT := insertRow k d (documentsT s)\<rparr>) t"
  shows "announces s t"
proof -
  have "isEligible (s\<lparr>documentsT := insertRow k d (documentsT s)\<rparr>) (lookup (insertRow k d (documentsT s)) j)"
    if "isEligible s (lookup (documentsT s) j)" for j
    using that lookup_insertRow [OF assms(1), of d j] lookup_None_iff [of "documentsT s" k] assms(1)
    by (cases "j = k") (auto simp: isEligible_iff)
  then show ?thesis using assms(2) by (fastforce simp: announces_def)
qed

lemma announces_store:
  assumes "vid \<notin> set (keys (versionsT s))"
  shows "announces s (snd (storeAndEmit D now so vid k f u n s))"
proof (cases so)
  case (Some x)
  show ?thesis
  proof (cases "list_ex (\<lambda>v. dv_documentId v = k \<and> dv_version v = n) (rows (versionsT s))")
    case True
    then show ?thesis by (simp add: Some storeAndEmit_def storeVersion_def announces_same)
  next
    case False
    have "announces s (snd (storeAndEmit D now so vid k f u n s))"
      by (rule announces_edit [of k])
        (use False assms in \<open>auto simp: Some storeAndEmit_def storeVersion_def emitChanged_def lookup_updateRow lookup_insertRow\<close>)
    then show ?thesis .
  qed
qed (simp add: storeAndEmit_def storeVersion_def announces_same)

lemma announces_create:
  assumes "k \<notin> set (keys (documentsT s))" "vid \<notin> set (keys (versionsT s))"
  shows "announces s (snd (createDocument D now so k vid file dto actor s))"
    and "announces s (snd (createSystemDocument D now so k vid inp s))"
  using assms
  by (auto simp: createDocument_def createSystemDocument_def announces_same split: sum.split
      intro!: announces_insert [OF assms(1)] announces_store)

lemma announces_version:
  assumes "vid \<notin> set (keys (versionsT s))"
  shows "announces s (snd (addVersion D now so vid k file actor s))"
  using assms by (auto simp: addVersion_def announces_same announces_store split: sum.split)

lemma announces_update: "updateDocument k udto actor s = Inr t \<Longrightarrow> announces s t"
  by (rule announces_edit [of k])
    (auto simp: updateDocument_def Let_def res_simps emitChanged_def lookup_updateRow)

lemma announces_remove: "removeDocument now k actor s = Inr t \<Longrightarrow> announces s t"
  by (rule announces_edit [of k])
    (auto simp: removeDocument_def res_simps emitChanged_def lookup_updateRow)

lemma current_version:
  assumes "docInv D s" "lookup (documentsT s) k = Some d" "doc_currentVersionId d = Some vid"
  shows "\<exists>v. (vid, v) \<in> set (versionsT s) \<and> dv_documentId v = k"
proof -
  have n: "numbered (versionsT s) k d" using assms by (simp add: docInv_def)
  then have ne: "versionsIn (versionsT s) k \<noteq> []" "fst (last (versionsIn (versionsT s) k)) = vid"
    using assms(3) by (auto simp: numbered_def split: if_splits)
  obtain w v where l: "last (versionsIn (versionsT s) k) = (w, v)" by fastforce
  then have "(w, v) \<in> set (versionsIn (versionsT s) k)" using ne(1) last_in_set by metis
  then show ?thesis using ne(2) l by (auto simp: versionsIn_def)
qed

lemma announces_purge:
  assumes i: "docInv D s"
  shows "announces s (snd (purgeDocument (\<lambda>_. True) k s))"
proof (cases "lookup (documentsT s) k = None")
  case False
  let ?t = "snd (purgeDocument (\<lambda>_. True) k s)"
  have t: "documentsT ?t = deleteRow k (documentsT s)" "docEvents ?t = docEvents s @ [k]"
    "versionsT ?t = deleteWhere (\<lambda>v. dv_documentId v = k) (versionsT s)"
    using False by (auto simp: purgeDocument_def deleteObjects_all emitChanged_def)
  have "isEligible ?t (lookup (documentsT ?t) j)" if e: "isEligible s (lookup (documentsT s) j)" "j \<noteq> k" for j
  proof -
    obtain d vid w where d: "lookup (documentsT s) j = Some d" "doc_currentVersionId d = Some vid" "doc_deletedAt d = None"
      "doc_category d = POLICY" "doc_visibility d = COMPANY"
      using e(1) by (auto simp: isEligible_iff)
    then obtain v where "(vid, v) \<in> set (versionsT ?t)" using current_version [OF i d(1,2)] e(2) by (auto simp: t deleteWhere_def)
    then have "vid \<in> fst ` set (versionsT ?t)" by force
    then have "lookup (versionsT ?t) vid \<noteq> None" by (simp add: lookup_def map_of_eq_None_iff)
    then show ?thesis using e d by (auto simp: isEligible_iff t lookup_deleteRow)
  qed
  then show ?thesis unfolding announces_def using t(2) by auto
qed (simp add: purgeDocument_def announces_same)

lemma announces_photo: "announces s (snd (setProfilePhoto D so k file s))"
proof -
  have "documentsT t' = documentsT t \<and> versionsT t' = versionsT t \<and> docEvents t' = docEvents t"
    if "updateEmployee k dto t = Inr t'" for dto and t t' :: "'a doc_state_scheme"
    using that by (auto simp: updateEmployee_def res_simps saveEmployee_def)
  then show ?thesis
    by (intro announces_same; fastforce simp: setProfilePhoto_def Let_def split: sum.splits option.splits)
qed

lemma announces_step:
  assumes "docInv D s" "doc_step D s t" "docEvents t = docEvents s @ es"
  shows "announces s t"
  using assms(2)
proof cases
  case (create k vid so now upl dto actor)
  show ?thesis unfolding create(1) by (rule announces_create(1) [OF create(2,3)])
next
  case (system k vid so now inp)
  show ?thesis unfolding system(1) by (rule announces_create(2) [OF system(2,3)])
next
  case (version vid so now k upl actor)
  show ?thesis unfolding version(1) by (rule announces_version [OF version(2)])
next
  case (edit k udto actor)
  then show ?thesis by (rule announces_update)
next
  case (drop now k actor)
  then show ?thesis by (rule announces_remove)
next
  case (purge k)
  show ?thesis unfolding purge(1) by (rule announces_purge [OF assms(1)])
next
  case (photo so k upl)
  show ?thesis unfolding photo(1) by (rule announces_photo)
next
  case other
  then show ?thesis using assms(3) isEligible_cong [of t s] by (auto simp: announces_def docKept_def)
qed

section \<open>The invariant\<close>

text \<open>A document whose chunks may be out of date: announced, waiting for its job, or given up and logged.\<close>

definition pending :: "'a ai_state_scheme \<Rightarrow> id \<Rightarrow> bool" where
  "pending s k \<longleftrightarrow> k \<in> set (docEvents s) \<union> set (indexJobs s) \<union> set (indexErrors s)"

definition kbInv :: "doc_env \<Rightarrow> 'a ai_state_scheme \<Rightarrow> bool" where
  "kbInv D s \<longleftrightarrow> docInv D s \<and> (\<forall>c\<in>set (rows (chunksT s)).
     isEligible s (lookup (documentsT s) (kc_documentId c)) \<or> pending s (kc_documentId c))"

definition kbKept :: "'a ai_state_scheme \<Rightarrow> 'a ai_state_scheme \<Rightarrow> bool" where
  "kbKept s t \<longleftrightarrow> chunksT t = chunksT s \<and> indexJobs t = indexJobs s \<and> indexErrors t = indexErrors s"

text \<open>
  Steps: an operation on documents (or anything that leaves them alone) with the cascade of the foreign
  key; an announcement that is heard, whether the queue takes the job or not; a job asked for; a run.
\<close>

inductive kb_step :: "doc_env \<Rightarrow> kb_env \<Rightarrow> 'a ai_state_scheme \<Rightarrow> 'a ai_state_scheme \<Rightarrow> bool" for D K where
  documents: "doc_step D s t \<Longrightarrow> docEvents t = docEvents s @ es \<Longrightarrow> kbKept s t \<Longrightarrow> kb_step D K s (cascadeChunks t)"
| heard: "docEvents s = es @ k # es' \<Longrightarrow> kb_step D K s (onDocumentChanged takes k (s\<lparr>docEvents := es @ es'\<rparr>))"
| asked: "reindex k s = Inr (n, t) \<Longrightarrow> kb_step D K s t"
| ran: "i < length (indexJobs s) \<Longrightarrow> kb_step D K s (runIndexJob K now newIds i lastAttempt s)"

lemma rows_deleteWhere_in: "c \<in> set (rows (deleteWhere p T)) \<longleftrightarrow> c \<in> set (rows T) \<and> \<not> p c"
  by (force simp: rows_def deleteWhere_def)

lemma kbInvI:
  "docInv D t \<Longrightarrow> (\<And>c. c \<in> set (rows (chunksT t)) \<Longrightarrow>
    isEligible t (lookup (documentsT t) (kc_documentId c)) \<or> pending t (kc_documentId c)) \<Longrightarrow> kbInv D t"
  by (simp add: kbInv_def)

lemma kbInvD:
  assumes "kbInv D s"
  shows "docInv D s" "c \<in> set (rows (chunksT s)) \<Longrightarrow> isEligible s (lookup (documentsT s) (kc_documentId c)) \<or> pending s (kc_documentId c)"
  using assms by (simp_all add: kbInv_def)

lemma kb_frame [simp]:
  "docInv D (s\<lparr>chunksT := C\<rparr>) = docInv D s" "docInv D (s\<lparr>indexJobs := J\<rparr>) = docInv D s"
  "docInv D (s\<lparr>indexErrors := J\<rparr>) = docInv D s" "docInv D (s\<lparr>docEvents := J\<rparr>) = docInv D s"
  "isEligible (s\<lparr>chunksT := C\<rparr>) = isEligible s" "isEligible (s\<lparr>indexJobs := J\<rparr>) = isEligible s"
  "isEligible (s\<lparr>indexErrors := J\<rparr>) = isEligible s" "isEligible (s\<lparr>docEvents := J\<rparr>) = isEligible s"
proof -
  show "isEligible (s\<lparr>chunksT := C\<rparr>) = isEligible s" "isEligible (s\<lparr>indexJobs := J\<rparr>) = isEligible s"
    "isEligible (s\<lparr>indexErrors := J\<rparr>) = isEligible s" "isEligible (s\<lparr>docEvents := J\<rparr>) = isEligible s"
    by (rule ext, rule isEligible_cong, simp)+
qed (simp_all add: docInv_def)

lemma documents_inv:
  assumes i: "kbInv D s" and st: "doc_step D s t" and e: "docEvents t = docEvents s @ es" and k: "kbKept s t"
  shows "kbInv D (cascadeChunks t)"
proof (rule kbInvI)
  show "docInv D (cascadeChunks t)" using docs.inv_step [OF kbInvD(1) [OF i] st] by (simp add: cascadeChunks_def)
  fix c assume "c \<in> set (rows (chunksT (cascadeChunks t)))"
  then have c: "c \<in> set (rows (chunksT s))" using k by (simp add: cascadeChunks_def rows_deleteWhere_in kbKept_def)
  have a: "isEligible s (lookup (documentsT s) (kc_documentId c)) \<Longrightarrow> pending t (kc_documentId c) \<or> isEligible t (lookup (documentsT t) (kc_documentId c))"
    using announces_step [OF kbInvD(1) [OF i] st e] e by (auto simp: announces_def pending_def)
  have "pending s (kc_documentId c) \<Longrightarrow> pending t (kc_documentId c)"
    using k e by (auto simp: pending_def kbKept_def)
  then show "isEligible (cascadeChunks t) (lookup (documentsT (cascadeChunks t)) (kc_documentId c)) \<or> pending (cascadeChunks t) (kc_documentId c)"
    using kbInvD(2) [OF i c] a by (auto simp: cascadeChunks_def pending_def)
qed

lemma enqueueAll_eq: "snd (enqueueAll s) = s\<lparr>indexJobs := indexJobs s @ eligibleDocumentIds s\<rparr>"
proof -
  have "foldl (\<lambda>s k. enqueueIndex k s) s ks = s\<lparr>indexJobs := indexJobs s @ ks\<rparr>" for ks and s :: "'a ai_state_scheme"
    by (induction ks arbitrary: s) (simp_all add: enqueueIndex_def)
  then show ?thesis by (simp add: enqueueAll_def)
qed

lemma kbInv_jobs: "kbInv D s \<Longrightarrow> kbInv D (s\<lparr>indexJobs := indexJobs s @ js\<rparr>)"
  by (rule kbInvI) (simp add: kbInvD(1), use kbInvD(2) in \<open>fastforce simp: pending_def\<close>)

lemma reindex_inv:
  assumes "kbInv D s" "reindex k s = Inr (n, t)"
  shows "kbInv D t"
proof (cases k)
  case None
  then have "snd (enqueueAll s) = t" using assms(2) by (simp add: reindex_def)
  then show ?thesis using kbInv_jobs [OF assms(1)] enqueueAll_eq [of s] by metis
next
  case (Some j)
  then show ?thesis using assms kbInv_jobs by (auto simp: reindex_def enqueueIndex_def res_simps)
qed

lemma heard_inv:
  assumes i: "kbInv D s" and e: "docEvents s = es @ k # es'"
  shows "kbInv D (onDocumentChanged takes k (s\<lparr>docEvents := es @ es'\<rparr>))"
proof (rule kbInvI)
  show "docInv D (onDocumentChanged takes k (s\<lparr>docEvents := es @ es'\<rparr>))"
    using kbInvD(1) [OF i] by (simp add: onDocumentChanged_def enqueueIndex_def)
  fix c assume "c \<in> set (rows (chunksT (onDocumentChanged takes k (s\<lparr>docEvents := es @ es'\<rparr>))))"
  then have "c \<in> set (rows (chunksT s))" by (simp add: onDocumentChanged_def enqueueIndex_def split: if_splits)
  from kbInvD(2) [OF i this] show "isEligible (onDocumentChanged takes k (s\<lparr>docEvents := es @ es'\<rparr>))
      (lookup (documentsT (onDocumentChanged takes k (s\<lparr>docEvents := es @ es'\<rparr>))) (kc_documentId c)) \<or>
    pending (onDocumentChanged takes k (s\<lparr>docEvents := es @ es'\<rparr>)) (kc_documentId c)"
    by (auto simp: onDocumentChanged_def enqueueIndex_def pending_def e)
qed

lemma set_without: "i < length xs \<Longrightarrow> set xs = insert (xs ! i) (set (take i xs @ drop (Suc i) xs))"
  using arg_cong [OF id_take_nth_drop [of i xs], of set] by simp

lemma planIndex_eligible:
  "planIndex K k s = Inr plan \<Longrightarrow> plan = DropChunks \<or> isEligible s (lookup (documentsT s) k)"
  by (auto simp: planIndex_def split: option.splits if_splits)

lemma commit_state:
  assumes "commitIndex now newIds k plan s = (r, t)"
  shows "docEvents t = docEvents s \<and> indexJobs t = indexJobs s \<and> indexErrors t = indexErrors s \<and> versionsT t = versionsT s \<and>
    objects t = objects s \<and> (documentsT t = documentsT s \<or> documentsT t = updateRow k (\<lambda>d. d\<lparr>doc_kbIndexedAt := Some now\<rparr>) (documentsT s))"
  using assms by (cases plan) (auto simp: commitIndex_def Let_def split: if_splits)

lemma commit_chunks:
  assumes "commitIndex now newIds k plan s = (r, t)" "c \<in> set (rows (chunksT t))"
  shows "c \<in> set (rows (chunksT s)) \<and> (kc_documentId c = k \<longrightarrow> \<not> isInr r) \<or> kc_documentId c = k \<and> plan \<noteq> DropChunks \<or>
    c \<in> set (rows (chunksT s)) \<and> kc_documentId c \<noteq> k"
proof (cases plan)
  case (StoreChunks vid title pieces vs)
  have "kc_documentId c = k" if "c \<in> set (rows (zip newIds (List.map (chunkRow k vid title) (zip pieces vs))))" for c
    using that by (auto simp: rows_def chunkRow_def dest!: set_zip_rightD)
  moreover have "rows (xs @ ys) = rows xs @ rows ys" for xs ys :: "knowledge_chunk table" by (simp add: rows_def)
  ultimately show ?thesis using assms StoreChunks
    by (auto simp: commitIndex_def Let_def rows_deleteWhere_in split: if_splits)
qed (use assms in \<open>auto simp: commitIndex_def Let_def rows_deleteWhere_in\<close>)

lemma index_cases:
  assumes "indexDocument K now newIds k s = (r, t)"
  obtains (unread) e where "r = Inl e" "t = s"
    | (planned) plan where "planIndex K k s = Inr plan" "commitIndex now newIds k plan s = (r, t)"
  using assms that by (cases "planIndex K k s") (auto simp: indexDocument_def bindS_def readS_def)

lemma runIndexJob_inv:
  assumes i: "kbInv D s" and n: "n < length (indexJobs s)"
  shows "kbInv D (runIndexJob K now newIds n lastAttempt s)"
proof -
  let ?k = "indexJobs s ! n"
  let ?js = "take n (indexJobs s) @ drop (Suc n) (indexJobs s)"
  obtain r t where run: "indexDocument K now newIds ?k s = (r, t)" by fastforce
  have f: "docEvents t = docEvents s \<and> indexJobs t = indexJobs s \<and> indexErrors t = indexErrors s \<and> versionsT t = versionsT s \<and>
    objects t = objects s \<and> (documentsT t = documentsT s \<or> documentsT t = updateRow ?k (\<lambda>d. d\<lparr>doc_kbIndexedAt := Some now\<rparr>) (documentsT s))"
    using run commit_state by (cases rule: index_cases) blast+
  have d: "docInv D t"
    using kbInvD(1) [OF i] f docInv_edit [of D s "\<lambda>d. d\<lparr>doc_kbIndexedAt := Some now\<rparr>" ?k] by (auto simp: docInv_def)
  have e: "isEligible t (lookup (documentsT t) j) = isEligible s (lookup (documentsT s) j)" for j
  proof -
    have v: "isEligible t d = isEligible s d" for d by (rule isEligible_cong) (use f in simp)
    from f show ?thesis by (cases "j = ?k") (auto simp: v lookup_updateRow isEligible_stamp)
  qed
  have c: "isEligible t (lookup (documentsT t) (kc_documentId c)) \<or> pending s (kc_documentId c) \<and> (kc_documentId c = ?k \<longrightarrow> \<not> isInr r)"
    if "c \<in> set (rows (chunksT t))" for c
    using run
  proof (cases rule: index_cases)
    case unread
    then show ?thesis using kbInvD(2) [OF i] that e by auto
  next
    case (planned plan)
    then show ?thesis using commit_chunks [OF planned(2) that] planIndex_eligible [OF planned(1)] kbInvD(2) [OF i, of c] e by auto
  qed
  have js: "set (indexJobs s) = insert ?k (set ?js)" by (rule set_without [OF n])
  let ?u = "runIndexJob K now newIds n lastAttempt s"
  have same: "docInv D ?u = docInv D t" "chunksT ?u = chunksT t" "documentsT ?u = documentsT t" "isEligible ?u = isEligible t"
    using run by (cases r; simp add: runIndexJob_def Let_def)+
  have p: "pending ?u j" if "pending s j" "j = ?k \<longrightarrow> \<not> isInr r" for j
    using that run f js by (cases r) (auto simp: runIndexJob_def Let_def pending_def)
  show ?thesis by (rule kbInvI) (use d c p in \<open>auto simp: same\<close>)
qed

definition kbInit :: "'a ai_state_scheme \<Rightarrow> bool" where
  "kbInit s \<longleftrightarrow> docInit s \<and> chunksT s = []"

interpretation kb: step_system kbInit "kb_step D K" "kbInv D"
proof
  show "kbInv D s" if "kbInit s" for s :: "'a ai_state_scheme"
    using that docs.inv_init [of s D] by (simp add: kbInit_def kbInv_def rows_def)
  show "kbInv D t" if "kbInv D s" "kb_step D K s t" for s t :: "'a ai_state_scheme"
    using that(2,1) by (induction rule: kb_step.induct) (auto intro: documents_inv heard_inv reindex_inv runIndexJob_inv)
qed

text \<open>
  C40. The assistant searches company policies only. Whatever is done with the documents, in every reachable
  state each hit of a search belongs to a document that is there and not deleted, is at least as similar as
  the floor, and its document is a policy published to the company, unless a change of it has not reached
  the index yet: its announcement or its job is still waiting, or its indexing was given up, which is logged.
\<close>

theorem search_finds_company_policies:
  assumes "kbInit s0" "(kb_step D K)\<^sup>*\<^sup>* s0 s" "kbSearch K query s = Inr hits" "r \<in> set hits"
  shows "\<exists>d. lookup (documentsT s) (rk_documentId r) = Some d \<and> doc_deletedAt d = None \<and> kb_floor K \<le> rk_similarity r \<and>
    length hits \<le> kb_topK K \<and>
    (doc_category d = POLICY \<and> doc_visibility d = COMPANY \<or> pending s (rk_documentId r))"
proof -
  have i: "kbInv D s" by (rule kb.reach_inv [OF assms(1,2)])
  obtain q qs where q: "kb_embed K [query] QUERY = Inr (q # qs)"
    using assms(3) by (auto simp: kbSearch_def split: sum.splits list.splits)
  obtain j c where c: "(j, c) \<in> set (nearest K q (kb_topK K) s)" "rk_documentId r = kc_documentId c" "kb_floor K \<le> rk_similarity r"
    using assms(3,4) by (auto simp: kbSearch_def q)
  have m: "(j, c) \<in> set (chunksT s)" "map_option doc_deletedAt (lookup (documentsT s) (kc_documentId c)) = Some None"
    using set_take_subset c(1) unfolding nearest_def by (fastforce dest: in_set_takeD)+
  then obtain d where d: "lookup (documentsT s) (kc_documentId c) = Some d" "doc_deletedAt d = None" by auto
  obtain p f where "hits = List.filter p (List.map f (nearest K q (kb_topK K) s))"
    using assms(3) by (auto simp: kbSearch_def q)
  then have "length hits \<le> length (nearest K q (kb_topK K) s)" by (metis length_filter_le length_map)
  then have "length hits \<le> kb_topK K" by (simp add: nearest_def)
  moreover have "isEligible s (Some d) \<or> pending s (kc_documentId c)"
    using i m(1) d(1) unfolding kbInv_def rows_def by (metis image_eqI list.set_map snd_conv)
  ultimately show ?thesis using c d by (auto simp: isEligible_def)
qed

section \<open>A policy on its way to the index\<close>

definition demoKb :: kb_env where
  "demoKb = \<lparr>kb_pdfText = (\<lambda>_. Inl ''no''), kb_docxText = (\<lambda>_. Inl ''no''), kb_reader = None, kb_splitText = (\<lambda>t. [t]),
     kb_embed = (\<lambda>ts _. Inr (List.map (\<lambda>_. [1]) ts)), kb_distance = (\<lambda>_ _. 0), kb_topK = 3, kb_floor = 0\<rparr>"

definition demoAi :: ai_state where
  "demoAi = (notify_state.extend (demoQuiet []) (ai_state.fields [] [] [] [] [] [] Map.empty))
     \<lparr>documentsT := [], versionsT := [], objects := \<lambda>_. None, docEvents := []\<rparr>"

definition demoPolicy :: system_document where
  "demoPolicy = \<lparr>sd_ownerEmployeeId = None, sd_title = ''Leave'', sd_description = None, sd_category = POLICY,
     sd_visibility = COMPANY, sd_file =
       \<lparr>uf_originalname = ''p.txt'', uf_mimetype = ''text/plain'', uf_size = 2, uf_buffer = [104, 105]\<rparr>,
     sd_createdByUserId = None\<rparr>"

definition demoPublished :: ai_state where
  "demoPublished = snd (createSystemDocument demoDocEnv 0 (Some \<lparr>so_key = ''p'', so_url = ''u''\<rparr>) 1 1 demoPolicy demoAi)"

definition demoIndexed :: ai_state where
  "demoIndexed = runIndexJob demoKb 5 [1] 0 False
     (onDocumentChanged True 1 ((cascadeChunks demoPublished)\<lparr>docEvents := []\<rparr>))"

text \<open>What these runs answer, evaluated once.\<close>

lemma demo_index_runs:
  "documentsT demoAi = [] \<and> versionsT demoAi = [] \<and> chunksT demoAi = [] \<and> docEvents demoAi = [] \<and> indexJobs demoAi = [] \<and>
   indexErrors demoAi = [] \<and>
   (let s = demoPublished in (chunksT s, indexJobs s, indexErrors s, docEvents s,
      let t = cascadeChunks s in (docEvents t, indexJobs (onDocumentChanged True 1 (t\<lparr>docEvents := []\<rparr>))))) =
     ([], [], [], [1], [1], [1]) \<and>
   map_sum id (List.map (\<lambda>r. (rk_content r, rk_documentId r))) (kbSearch demoKb ''hi?'' demoIndexed) = Inr [(''hi'', 1)]"
  by code_simp

lemma demo_ai_tables:
  "documentsT demoAi = []" "versionsT demoAi = []" "chunksT demoAi = []" "docEvents demoAi = []" "indexJobs demoAi = []"
  "indexErrors demoAi = []" "chunksT demoPublished = []" "indexJobs demoPublished = []" "indexErrors demoPublished = []"
  using demo_index_runs by (simp_all add: Let_def)

lemma demo_ai_objects: "objects demoAi = (\<lambda>_. None)"
  by (simp add: demoAi_def)

lemma demo_published_events: "docEvents demoPublished = [1]" "docEvents (cascadeChunks demoPublished) = [1]"
  "indexJobs (onDocumentChanged True 1 ((cascadeChunks demoPublished)\<lparr>docEvents := []\<rparr>)) = [1]"
  using demo_index_runs by (simp_all add: Let_def)

lemma demo_indexed_reachable: "(kb_step demoDocEnv demoKb)\<^sup>*\<^sup>* demoAi demoIndexed"
proof -
  have "kb_step demoDocEnv demoKb demoAi (cascadeChunks demoPublished)"
  proof (rule documents)
    show "doc_step demoDocEnv demoAi demoPublished" unfolding demoPublished_def
      by (rule doc_step.system) (simp_all add: demo_ai_tables demo_ai_objects keys_def freshKey_def)
    show "docEvents demoPublished = docEvents demoAi @ [1]" by (simp add: demo_published_events demo_ai_tables)
    show "kbKept demoAi demoPublished" by (simp add: kbKept_def demo_ai_tables)
  qed
  moreover have "kb_step demoDocEnv demoKb (cascadeChunks demoPublished)
      (onDocumentChanged True 1 ((cascadeChunks demoPublished)\<lparr>docEvents := []\<rparr>))"
    using heard [of "cascadeChunks demoPublished" "[]" 1 "[]" demoDocEnv demoKb True] by (simp add: demo_published_events)
  moreover have "kb_step demoDocEnv demoKb (onDocumentChanged True 1 ((cascadeChunks demoPublished)\<lparr>docEvents := []\<rparr>)) demoIndexed"
    unfolding demoIndexed_def by (rule ran) (subst demo_published_events(3), simp)
  ultimately show ?thesis by (meson converse_rtranclp_into_rtranclp rtranclp.rtrancl_refl)
qed

theorem search_finds_company_policies_witness:
  "map_sum id (List.map rk_content) (kbSearch demoKb ''hi?'' demoIndexed) = Inr [''hi''] \<and>
   map_option doc_deletedAt (lookup (documentsT demoIndexed) 1) = Some None"
proof -
  have found: "map_sum id (List.map (\<lambda>r. (rk_content r, rk_documentId r))) (kbSearch demoKb ''hi?'' demoIndexed) = Inr [(''hi'', 1)]"
    using demo_index_runs by (elim conjE)
  then obtain r where h: "kbSearch demoKb ''hi?'' demoIndexed = Inr [r]" "rk_content r = ''hi''" "rk_documentId r = 1"
    by (cases "kbSearch demoKb ''hi?'' demoIndexed") auto
  have "kbInit demoAi" by (simp add: kbInit_def docInit_def demo_ai_tables)
  from search_finds_company_policies [OF this demo_indexed_reachable h(1), of r] h show ?thesis by auto
qed

section \<open>Where the index is out of date unnoticed\<close>

text \<open>
  The chunks are written long after the document was read. When it has been restricted in between, and the
  job of that change has already run, the late one puts the text back: nothing is pending, and it is found.
\<close>

lemma late_run_indexes_restricted:
  assumes "planIndex K k s = Inr (StoreChunks vid title (p # ps) (v # vs))" "length ps \<le> length vs"
    and "lookup (documentsT t) k = Some d" "doc_visibility d = RESTRICTED"
    and "commitIndex now (j # js) k (StoreChunks vid title (p # ps) (v # vs)) t = (r, u)"
  shows "(\<exists>c. (j, c) \<in> set (chunksT u) \<and> kc_documentId c = k \<and> kc_content c = ch_content p) \<and>
    map_option doc_visibility (lookup (documentsT u) k) = Some RESTRICTED \<and> (pending u k \<longleftrightarrow> pending t k)"
  using assms by (auto simp: commitIndex_def Let_def chunkRow_def lookup_updateRow pending_def)

text \<open>A job asked for every policy does not reach the documents that are none any more, whatever chunks they have left.\<close>

lemma full_reindex_skips_withdrawn:
  assumes "keyed (documentsT s)" "lookup (documentsT s) k = Some d" "doc_visibility d \<noteq> COMPANY"
  shows "k \<notin> set (eligibleDocumentIds s)"
  using assms keyed_lookup [of "documentsT s" k] by (auto simp: eligibleDocumentIds_def policyIds_def)

text \<open>A new version that cannot be read leaves the chunks of the old one.\<close>

lemma unreadable_version_keeps_old_text:
  assumes "lookup (documentsT s) k = Some d" "isEligible s (Some d)" "doc_currentVersionId d = Some vid" "lookup (versionsT s) vid = Some v"
    and "objects s (dv_storageKey v) = Some buf" "dv_mimeType v = ''application/vnd.openxmlformats-officedocument.spreadsheetml.sheet''"
  shows "indexDocument K now newIds k s = (Inr Skipped, s)"
  using assms
  by (simp add: indexDocument_def bindS_def readS_def planIndex_def Let_def extractTextOrTranscribe_def extractText_def commitIndex_def)

end
